(* ===== verification/Coap_Prelude.thy ===== *)
theory Coap_Prelude
  imports Main "HOL-Library.Word"
begin

text \<open>
  The prelude of the go-coap development: the byte and machine-integer types the code uses,
  the sentinel errors of the packages as one datatype, Go's slices and \<open>copy\<close>, the big-endian
  reads and writes of \<open>encoding/binary\<close> and the integer casts of \<open>pkg/math/cast.go\<close>, with the
  lemmas on them that the components share.

  Go's \<open>int\<close> and \<open>int64\<close> are modelled as \<^typ>\<open>int\<close> where the values are lengths and
  indices of slices (so far below $2^{63}$ that they cannot wrap), and as words of their width
  where the code relies on wrap-around.  A slice that may be \<open>nil\<close> and is tested against
  \<open>nil\<close> is an \<open>option\<close> of a list; elsewhere \<open>nil\<close> and the empty slice are not told apart
  by the code and both are \<open>[]\<close>.
\<close>

unbundle bit_operations_syntax

named_theorems bytes_simps \<open>big-endian encodings of words\<close>
named_theorems slice_simps \<open>copy and slicing on lists\<close>

type_synonym byte = "8 word"
type_synonym bytes = "8 word list"
type_synonym u16 = "16 word"
type_synonym u32 = "32 word"
type_synonym u64 = "64 word"
type_synonym buffer = "8 word list option"

subsection \<open>Errors\<close>

text \<open>
  The sentinel errors of \<open>message/error.go\<close>, \<open>udp/coder/error.go\<close>, \<open>tcp/coder/error.go\<close>,
  \<open>pkg/cache\<close>, \<open>net/blockwise\<close>, \<open>net/blockwise/qblock\<close>, \<open>message/noresponse\<close> and \<open>net/client\<close>,
  with those of \<open>context\<close>; \<open>RequestNotSentError\<close> marks the error it wraps, \<open>ErrJoin\<close> is \<open>errors.Join\<close>;
  \<open>ErrOther\<close> carries the text of an error made with \<open>errors.New\<close> or \<open>fmt.Errorf\<close> at the place of failure.
\<close>

datatype go_error =
    ErrTooSmall | ErrInvalidOptionHeaderExt | ErrInvalidTokenLen | ErrInvalidValueLength
  | ErrShortRead | ErrOptionTruncated | ErrOptionUnexpectedExtendMarker | ErrOptionsTooSmall
  | ErrInvalidEncoding | ErrOptionNotFound | ErrOptionDuplicate | ErrPayloadMarkerWithoutPayload
  | ErrMessageTruncated | ErrMessageInvalidVersion | ErrMessageTooLong
  | ErrCacheFull | ErrKeyAlreadyExists
  | ErrInvalidSZX | ErrBlockNumberExceedLimit | ErrBlockInvalidSize
  | ErrRequestEntityIncomplete | ErrRequestEntityTooLarge
  | ErrInvalidMissingBlocks | ErrQBlockInvalidSize | ErrQBlockInvalidNUM | ErrQBlockIncomplete
  | ErrQBlockTooLarge | ErrInvalidConfig | ErrInvalidOptionBlock1 | ErrInvalidOptionBlock2 | ErrQBlockConflict
  | ErrQBlockScheduleFull | ErrQBlockInvalidMode | ErrQBlockNeedsBlockwise | ErrQBlockDisabled | ErrQBlockUnsupported
  | ErrQBlockBadOption | ErrQBlock2ResponseNotFound | ErrReceivingMessagesCacheFull
  | ErrCastOverflow
  | ErrMessageNotInterested | ErrTokenlessRequestsBlocked | ErrDeadlineExceeded | ErrCanceled
  | RequestNotSentError go_error | ErrJoin go_error go_error
  | ErrOther string

subsection \<open>Slices\<close>

text \<open>\<open>copy(dst, src)\<close>: the first \<open>min(len dst, len src)\<close> elements are overwritten.\<close>

definition go_copy :: "'a list \<Rightarrow> 'a list \<Rightarrow> 'a list" where
  "go_copy dst src = take (length dst) src @ drop (length src) dst"

lemma length_go_copy [simp]: "length (go_copy dst src) = length dst"
  by (simp add: go_copy_def)

lemma go_copy_fits [slice_simps]: "length src \<le> length dst \<Longrightarrow> go_copy dst src = src @ drop (length src) dst"
  by (simp add: go_copy_def)

lemma take_go_copy [slice_simps]: "length src \<le> length dst \<Longrightarrow> take (length src) (go_copy dst src) = src"
  by (simp add: go_copy_def)

lemma drop_go_copy [slice_simps]: "length src \<le> n \<Longrightarrow> drop n (go_copy dst src) = drop n dst"
  by (cases "length src \<le> length dst") (simp_all add: go_copy_def)

text \<open>A write of the bytes \<open>src\<close> into a buffer from index \<open>n\<close> on (\<open>copy(buf[n:], src)\<close>).\<close>

definition write_at :: "'a list \<Rightarrow> nat \<Rightarrow> 'a list \<Rightarrow> 'a list" where
  "write_at buf n src = take n buf @ go_copy (drop n buf) src"

lemma length_write_at [simp]: "length (write_at buf n src) = length buf"
  by (simp add: write_at_def)

text \<open>The zero-filled slice \<open>make([]byte, n)\<close>.\<close>

definition go_make :: "nat \<Rightarrow> bytes" where
  "go_make n = replicate n 0"

lemma length_go_make [simp]: "length (go_make n) = n"
  by (simp add: go_make_def)

subsection \<open>Big-endian integers (encoding/binary)\<close>

definition PutUint16 :: "u16 \<Rightarrow> bytes" where
  "PutUint16 v = [ucast (drop_bit 8 v), ucast v]"

definition PutUint32 :: "u32 \<Rightarrow> bytes" where
  "PutUint32 v = [ucast (drop_bit 24 v), ucast (drop_bit 16 v), ucast (drop_bit 8 v), ucast v]"

definition PutUint64 :: "u64 \<Rightarrow> bytes" where
  "PutUint64 v = [ucast (drop_bit 56 v), ucast (drop_bit 48 v), ucast (drop_bit 40 v), ucast (drop_bit 32 v),
                  ucast (drop_bit 24 v), ucast (drop_bit 16 v), ucast (drop_bit 8 v), ucast v]"

text \<open>
  The reads look at the first bytes of the slice only; Go panics on a shorter slice, and every
  call in the code is behind a length check, so the value there is never used.
\<close>

fun Uint16 :: "bytes \<Rightarrow> u16" where
  "Uint16 (b0 # b1 # _) = ucast b1 OR push_bit 8 (ucast b0)"
| "Uint16 _ = 0"

fun Uint32 :: "bytes \<Rightarrow> u32" where
  "Uint32 (b0 # b1 # b2 # b3 # _) =
     ucast b3 OR push_bit 8 (ucast b2) OR push_bit 16 (ucast b1) OR push_bit 24 (ucast b0)"
| "Uint32 _ = 0"

fun Uint64 :: "bytes \<Rightarrow> u64" where
  "Uint64 (b0 # b1 # b2 # b3 # b4 # b5 # b6 # b7 # _) =
     ucast b7 OR push_bit 8 (ucast b6) OR push_bit 16 (ucast b5) OR push_bit 24 (ucast b4) OR
     push_bit 32 (ucast b3) OR push_bit 40 (ucast b2) OR push_bit 48 (ucast b1) OR push_bit 56 (ucast b0)"
| "Uint64 _ = 0"

lemma length_PutUint [simp]:
  "length (PutUint16 v) = 2" "length (PutUint32 w) = 4" "length (PutUint64 x) = 8"
  by (simp_all add: PutUint16_def PutUint32_def PutUint64_def)

lemma PutUint_not_Nil [simp]: "PutUint16 v \<noteq> []" "PutUint32 w \<noteq> []" "PutUint64 x \<noteq> []"
  by (simp_all add: PutUint16_def PutUint32_def PutUint64_def)

lemma bit_byte_part:
  fixes v :: "'a::len word"
  shows "bit (push_bit k (ucast (ucast (drop_bit k v) :: byte)) :: 'a word) n
           \<longleftrightarrow> k \<le> n \<and> n < k + 8 \<and> bit v n"
  by (auto simp: bit_simps dest: bit_imp_le_length)

lemma bit_byte_low:
  fixes v :: "'a::len word"
  shows "bit (ucast (ucast v :: byte) :: 'a word) n \<longleftrightarrow> n < 8 \<and> bit v n"
  by (auto simp: bit_simps dest: bit_imp_le_length)

lemma Uint16_PutUint16 [bytes_simps]: "Uint16 (PutUint16 v @ xs) = v"
  by (rule bit_word_eqI) (auto simp: PutUint16_def bit_or_iff bit_byte_part bit_byte_low)

lemma Uint32_PutUint32 [bytes_simps]: "Uint32 (PutUint32 v @ xs) = v"
  by (rule bit_word_eqI) (auto simp: PutUint32_def bit_or_iff bit_byte_part bit_byte_low)

lemma Uint64_PutUint64 [bytes_simps]: "Uint64 (PutUint64 v @ xs) = v"
  by (rule bit_word_eqI) (auto simp: PutUint64_def bit_or_iff bit_byte_part bit_byte_low)

subsection \<open>Integers\<close>

lemma le_div_iff_mult:
  fixes a b c :: int
  assumes "0 < b"
  shows "a \<le> c div b \<longleftrightarrow> a * b \<le> c"
proof
  assume "a \<le> c div b"
  then have "a * b \<le> c div b * b" using assms by simp
  also have "\<dots> \<le> c" using assms by (simp add: minus_mod_eq_div_mult [symmetric])
  finally show "a * b \<le> c" .
next
  assume "a * b \<le> c"
  then show "a \<le> c div b" using zdiv_mono1 [OF _ assms, of "a * b" c] assms by simp
qed

end
