(* ===== verification/Go_Math.thy ===== *)
theory Go_Math
  imports Coap_Prelude
begin

text \<open>
  The integer casts of \<open>pkg/math/cast.go\<close>.  A Go integer type is its signedness and its
  width; a value of the type is the mathematical integer it stands for.
\<close>

datatype int_type = Signed nat | Unsigned nat

text \<open>The conversion \<open>T(x)\<close> of the language: the value modulo \<open>2^n\<close>, in the range of the type.\<close>

fun go_convert :: "int_type \<Rightarrow> int \<Rightarrow> int" where
  "go_convert (Unsigned n) x = x mod 2 ^ n"
| "go_convert (Signed n) x = (x + 2 ^ (n - 1)) mod 2 ^ n - 2 ^ (n - 1)"

text \<open>
  \<open>Max\<close> and \<open>Min\<close>: the shifts and subtractions are computed in the type itself, so they wrap.
\<close>

fun Max_of :: "int_type \<Rightarrow> int" where
  "Max_of (Signed n) = go_convert (Signed n) (go_convert (Signed n) (2 ^ (n - 1)) - 1)"
| "Max_of (Unsigned n) = go_convert (Unsigned n) (go_convert (Unsigned n) (2 ^ n) - 1)"

fun Min_of :: "int_type \<Rightarrow> int" where
  "Min_of (Signed n) = go_convert (Signed n) (go_convert (Signed 64) (- (2 ^ (n - 1))))"
| "Min_of (Unsigned n) = 0"

definition SafeCastTo :: "int_type \<Rightarrow> int \<Rightarrow> go_error + int" where
  "SafeCastTo t from =
     (if from > 0 \<and> go_convert (Unsigned 64) (Max_of t) < go_convert (Unsigned 64) from
      then Inl ErrCastOverflow
      else if from < 0 \<and> go_convert (Signed 64) (Min_of t) > go_convert (Signed 64) from
      then Inl ErrCastOverflow
      else Inr (go_convert t from))"

definition CastTo :: "int_type \<Rightarrow> int \<Rightarrow> int" where
  "CastTo t from = go_convert t from"

text \<open>\<open>MustSafeCastTo\<close> panics (\<open>None\<close>) where \<open>SafeCastTo\<close> reports the overflow.\<close>

definition MustSafeCastTo :: "int_type \<Rightarrow> int \<Rightarrow> int option" where
  "MustSafeCastTo t from = (case SafeCastTo t from of Inl _ \<Rightarrow> None | Inr v \<Rightarrow> Some v)"

subsection \<open>The casts are exact in range and refuse everything else\<close>

fun in_range :: "int_type \<Rightarrow> int \<Rightarrow> bool" where
  "in_range (Unsigned n) x \<longleftrightarrow> 0 \<le> x \<and> x < 2 ^ n"
| "in_range (Signed n) x \<longleftrightarrow> - (2 ^ (n - 1)) \<le> x \<and> x < 2 ^ (n - 1)"

fun width_ok :: "int_type \<Rightarrow> bool" where
  "width_ok (Unsigned n) \<longleftrightarrow> 0 < n \<and> n \<le> 64"
| "width_ok (Signed n) \<longleftrightarrow> 0 < n \<and> n \<le> 64"

lemma two_power_pred: "0 < n \<Longrightarrow> (2::int) ^ n = 2 * 2 ^ (n - 1)"
  by (cases n) auto

lemma go_convert_in_range: "width_ok t \<Longrightarrow> in_range t x \<Longrightarrow> go_convert t x = x"
  by (cases t) (auto simp: two_power_pred)

lemma go_convert_range: "width_ok t \<Longrightarrow> in_range t (go_convert t x)"
  by (cases t) (auto simp: two_power_pred)

lemma Max_of_Unsigned: "0 < n \<Longrightarrow> Max_of (Unsigned n) = 2 ^ n - 1"
  by (simp add: zmod_minus1)

lemma Max_of_Signed: "0 < n \<Longrightarrow> Max_of (Signed n) = 2 ^ (n - 1) - 1"
proof -
  assume n: "0 < n"
  let ?h = "2 ^ (n - 1) :: int"
  have wrap: "go_convert (Signed n) ?h = - ?h"
    using n by (simp add: two_power_pred)
  have "(- ?h - 1 + ?h) mod (2 * ?h) = 2 * ?h - 1"
    using zmod_minus1 [of "2 * ?h"] by simp
  then show ?thesis
    using n wrap by (simp add: two_power_pred)
qed

lemma go_convert_half:
  assumes "0 < h" "h \<le> 2 ^ 63"
  shows "go_convert (Signed 64) (- h) = - h" "go_convert (Unsigned 64) (h - 1) = h - 1"
  using assms by (intro go_convert_in_range; simp)+

lemma Min_of_Signed:
  assumes "0 < n" "n \<le> 64" shows "Min_of (Signed n) = - (2 ^ (n - 1))"
proof -
  have le: "(2::int) ^ (n - 1) \<le> 2 ^ 63"
    using assms by (intro power_increasing) auto
  then have 1: "go_convert (Signed 64) (- (2 ^ (n - 1))) = - (2 ^ (n - 1))"
    by (intro go_convert_half(1)) simp_all
  have 2: "go_convert (Signed n) (- (2 ^ (n - 1))) = - (2 ^ (n - 1))"
    using assms by (intro go_convert_in_range) auto
  show ?thesis
    unfolding Min_of.simps 1 2 ..
qed

text \<open>Every value the code casts is an \<open>int64\<close> or a \<open>uint64\<close>.\<close>

definition machine_int :: "int \<Rightarrow> bool" where
  "machine_int x \<longleftrightarrow> - (2 ^ 63) \<le> x \<and> x < 2 ^ 64"

lemma SafeCastTo_Unsigned:
  assumes "0 < n" "n \<le> 64" "machine_int x"
  shows "SafeCastTo (Unsigned n) x = (if 0 \<le> x \<and> x < 2 ^ n then Inr x else Inl ErrCastOverflow)"
proof -
  have le: "(2::int) ^ n \<le> 2 ^ 64"
    using assms by (intro power_increasing) auto
  have M: "go_convert (Unsigned 64) (2 ^ n - 1) = 2 ^ n - 1"
    using le by (intro go_convert_in_range) auto
  have pos: "0 < x \<Longrightarrow> go_convert (Unsigned 64) x = x"
    using assms(3) by (intro go_convert_in_range) (auto simp: machine_int_def)
  have neg: "x < 0 \<Longrightarrow> go_convert (Signed 64) x = x"
    using assms(3) by (intro go_convert_in_range) (auto simp: machine_int_def)
  show ?thesis
    using assms(1) pos neg M unfolding SafeCastTo_def Max_of_Unsigned [OF assms(1)]
    by (cases "x < 0"; cases "0 < x") (auto simp del: power_numeral)
qed

lemma SafeCastTo_Signed:
  assumes "0 < n" "n \<le> 64" "machine_int x"
  shows "SafeCastTo (Signed n) x
           = (if - (2 ^ (n - 1)) \<le> x \<and> x < 2 ^ (n - 1) then Inr x else Inl ErrCastOverflow)"
proof -
  let ?h = "2 ^ (n - 1) :: int"
  have pos1: "0 < ?h" by simp
  have le: "?h \<le> 2 ^ 63"
    using assms by (intro power_increasing) auto
  have M: "go_convert (Unsigned 64) (?h - 1) = ?h - 1"
    by (rule go_convert_half(2) [OF pos1 le])
  have m: "go_convert (Signed 64) (- ?h) = - ?h"
    by (rule go_convert_half(1) [OF pos1 le])
  have pos: "0 < x \<Longrightarrow> go_convert (Unsigned 64) x = x"
    using assms(3) by (intro go_convert_in_range) (auto simp: machine_int_def)
  have neg: "x < 0 \<Longrightarrow> go_convert (Signed 64) x = x"
    using assms(3) by (intro go_convert_in_range) (auto simp: machine_int_def)
  have same: "in_range (Signed n) x \<Longrightarrow> go_convert (Signed n) x = x"
    using assms by (intro go_convert_in_range) auto
  show ?thesis
    unfolding SafeCastTo_def Max_of_Signed [OF assms(1)] Min_of_Signed [OF assms(1,2)] M m
    using pos neg same pos1 by (cases "x < 0"; cases "0 < x") (auto simp del: go_convert.simps)
qed

text \<open>
  \<open>SafeCastTo\<close> is exact: on every 64-bit value it returns the value unchanged when the
  target type can hold it, and the overflow error in every other case.
\<close>

lemma SafeCastTo_exact:
  assumes "width_ok t" and "machine_int x"
  shows "SafeCastTo t x = (if in_range t x then Inr x else Inl ErrCastOverflow)"
  using assms by (cases t) (auto simp: SafeCastTo_Unsigned SafeCastTo_Signed simp del: power_numeral)

lemma SafeCastTo_exact_example:
  "SafeCastTo (Unsigned 16) 65536 = Inl ErrCastOverflow \<and> SafeCastTo (Signed 8) (-128) = Inr (-128)"
  using SafeCastTo_exact [of "Unsigned 16" 65536] SafeCastTo_exact [of "Signed 8" "-128"]
  by (simp add: machine_int_def)

end
