(* ===== verification/Message_Codes.thy ===== *)
theory Message_Codes
  imports Go_Math
begin

text \<open>
  The code registry of \<open>message/codes\<close>: the code constants, their names
  (\<open>code_string.go\<close>) and the JSON reader (\<open>codes.go\<close>), with the decimal conversions of
  \<open>strconv\<close> that they use.
\<close>

abbreviation (input) codes_GET :: u16 where "codes_GET \<equiv> 1"
abbreviation (input) codes_POST :: u16 where "codes_POST \<equiv> 2"
abbreviation (input) codes_PUT :: u16 where "codes_PUT \<equiv> 3"
abbreviation (input) codes_DELETE :: u16 where "codes_DELETE \<equiv> 4"
abbreviation (input) codes_FETCH :: u16 where "codes_FETCH \<equiv> 5"
abbreviation (input) codes_PATCH :: u16 where "codes_PATCH \<equiv> 6"
abbreviation (input) codes_IPATCH :: u16 where "codes_IPATCH \<equiv> 7"
abbreviation (input) codes_Empty :: u16 where "codes_Empty \<equiv> 0"
abbreviation (input) codes_Created :: u16 where "codes_Created \<equiv> 65"
abbreviation (input) codes_Deleted :: u16 where "codes_Deleted \<equiv> 66"
abbreviation (input) codes_Valid :: u16 where "codes_Valid \<equiv> 67"
abbreviation (input) codes_Changed :: u16 where "codes_Changed \<equiv> 68"
abbreviation (input) codes_Content :: u16 where "codes_Content \<equiv> 69"
abbreviation (input) codes_Continue :: u16 where "codes_Continue \<equiv> 95"
abbreviation (input) codes_BadRequest :: u16 where "codes_BadRequest \<equiv> 128"
abbreviation (input) codes_Unauthorized :: u16 where "codes_Unauthorized \<equiv> 129"
abbreviation (input) codes_BadOption :: u16 where "codes_BadOption \<equiv> 130"
abbreviation (input) codes_Forbidden :: u16 where "codes_Forbidden \<equiv> 131"
abbreviation (input) codes_NotFound :: u16 where "codes_NotFound \<equiv> 132"
abbreviation (input) codes_MethodNotAllowed :: u16 where "codes_MethodNotAllowed \<equiv> 133"
abbreviation (input) codes_NotAcceptable :: u16 where "codes_NotAcceptable \<equiv> 134"
abbreviation (input) codes_RequestEntityIncomplete :: u16 where "codes_RequestEntityIncomplete \<equiv> 136"
abbreviation (input) codes_Conflict :: u16 where "codes_Conflict \<equiv> 137"
abbreviation (input) codes_PreconditionFailed :: u16 where "codes_PreconditionFailed \<equiv> 140"
abbreviation (input) codes_RequestEntityTooLarge :: u16 where "codes_RequestEntityTooLarge \<equiv> 141"
abbreviation (input) codes_UnsupportedMediaType :: u16 where "codes_UnsupportedMediaType \<equiv> 143"
abbreviation (input) codes_UnprocessableEntity :: u16 where "codes_UnprocessableEntity \<equiv> 150"
abbreviation (input) codes_TooManyRequests :: u16 where "codes_TooManyRequests \<equiv> 157"
abbreviation (input) codes_InternalServerError :: u16 where "codes_InternalServerError \<equiv> 160"
abbreviation (input) codes_NotImplemented :: u16 where "codes_NotImplemented \<equiv> 161"
abbreviation (input) codes_BadGateway :: u16 where "codes_BadGateway \<equiv> 162"
abbreviation (input) codes_ServiceUnavailable :: u16 where "codes_ServiceUnavailable \<equiv> 163"
abbreviation (input) codes_GatewayTimeout :: u16 where "codes_GatewayTimeout \<equiv> 164"
abbreviation (input) codes_ProxyingNotSupported :: u16 where "codes_ProxyingNotSupported \<equiv> 165"
abbreviation (input) codes_CSM :: u16 where "codes_CSM \<equiv> 225"
abbreviation (input) codes_Ping :: u16 where "codes_Ping \<equiv> 226"
abbreviation (input) codes_Pong :: u16 where "codes_Pong \<equiv> 227"
abbreviation (input) codes_Release :: u16 where "codes_Release \<equiv> 228"
abbreviation (input) codes_Abort :: u16 where "codes_Abort \<equiv> 229"

text \<open>Go map literals as association lists: a key occurs once, so the order is immaterial.\<close>

definition codeToString :: "(u16 \<times> string) list" where
  "codeToString =
    [(codes_Empty, ''Empty''),
     (codes_GET, ''GET''),
     (codes_POST, ''POST''),
     (codes_PUT, ''PUT''),
     (codes_DELETE, ''DELETE''),
     (codes_FETCH, ''FETCH''),
     (codes_PATCH, ''PATCH''),
     (codes_IPATCH, ''iPATCH''),
     (codes_Created, ''Created''),
     (codes_Deleted, ''Deleted''),
     (codes_Valid, ''Valid''),
     (codes_Changed, ''Changed''),
     (codes_Content, ''Content''),
     (codes_BadRequest, ''BadRequest''),
     (codes_Unauthorized, ''Unauthorized''),
     (codes_BadOption, ''BadOption''),
     (codes_Forbidden, ''Forbidden''),
     (codes_NotFound, ''NotFound''),
     (codes_MethodNotAllowed, ''MethodNotAllowed''),
     (codes_NotAcceptable, ''NotAcceptable''),
     (codes_Conflict, ''Conflict''),
     (codes_PreconditionFailed, ''PreconditionFailed''),
     (codes_RequestEntityTooLarge, ''RequestEntityTooLarge''),
     (codes_UnsupportedMediaType, ''UnsupportedMediaType''),
     (codes_UnprocessableEntity, ''UnprocessableEntity''),
     (codes_TooManyRequests, ''TooManyRequests''),
     (codes_InternalServerError, ''InternalServerError''),
     (codes_NotImplemented, ''NotImplemented''),
     (codes_BadGateway, ''BadGateway''),
     (codes_ServiceUnavailable, ''ServiceUnavailable''),
     (codes_GatewayTimeout, ''GatewayTimeout''),
     (codes_ProxyingNotSupported, ''ProxyingNotSupported''),
     (codes_CSM, ''Capabilities and Settings Messages''),
     (codes_Ping, ''Ping''),
     (codes_Pong, ''Pong''),
     (codes_Release, ''Release''),
     (codes_Abort, ''Abort'')]"

abbreviation (input) char_quote :: char where "char_quote \<equiv> CHR 0x22"

definition strToCode :: "(string \<times> u16) list" where
  "strToCode =
    [(char_quote # ''GET'' @ [char_quote], codes_GET),
     (char_quote # ''POST'' @ [char_quote], codes_POST),
     (char_quote # ''PUT'' @ [char_quote], codes_PUT),
     (char_quote # ''DELETE'' @ [char_quote], codes_DELETE),
     (char_quote # ''FETCH'' @ [char_quote], codes_FETCH),
     (char_quote # ''PATCH'' @ [char_quote], codes_PATCH),
     (char_quote # ''iPATCH'' @ [char_quote], codes_IPATCH),
     (char_quote # ''Created'' @ [char_quote], codes_Created),
     (char_quote # ''Deleted'' @ [char_quote], codes_Deleted),
     (char_quote # ''Valid'' @ [char_quote], codes_Valid),
     (char_quote # ''Changed'' @ [char_quote], codes_Changed),
     (char_quote # ''Content'' @ [char_quote], codes_Content),
     (char_quote # ''BadRequest'' @ [char_quote], codes_BadRequest),
     (char_quote # ''Unauthorized'' @ [char_quote], codes_Unauthorized),
     (char_quote # ''BadOption'' @ [char_quote], codes_BadOption),
     (char_quote # ''Forbidden'' @ [char_quote], codes_Forbidden),
     (char_quote # ''NotFound'' @ [char_quote], codes_NotFound),
     (char_quote # ''MethodNotAllowed'' @ [char_quote], codes_MethodNotAllowed),
     (char_quote # ''NotAcceptable'' @ [char_quote], codes_NotAcceptable),
     (char_quote # ''Conflict'' @ [char_quote], codes_Conflict),
     (char_quote # ''PreconditionFailed'' @ [char_quote], codes_PreconditionFailed),
     (char_quote # ''RequestEntityTooLarge'' @ [char_quote], codes_RequestEntityTooLarge),
     (char_quote # ''UnsupportedMediaType'' @ [char_quote], codes_UnsupportedMediaType),
     (char_quote # ''UnprocessableEntity'' @ [char_quote], codes_UnprocessableEntity),
     (char_quote # ''TooManyRequests'' @ [char_quote], codes_TooManyRequests),
     (char_quote # ''InternalServerError'' @ [char_quote], codes_InternalServerError),
     (char_quote # ''NotImplemented'' @ [char_quote], codes_NotImplemented),
     (char_quote # ''BadGateway'' @ [char_quote], codes_BadGateway),
     (char_quote # ''ServiceUnavailable'' @ [char_quote], codes_ServiceUnavailable),
     (char_quote # ''GatewayTimeout'' @ [char_quote], codes_GatewayTimeout),
     (char_quote # ''ProxyingNotSupported'' @ [char_quote], codes_ProxyingNotSupported),
     (char_quote # ''Capabilities and Settings Messages'' @ [char_quote], codes_CSM),
     (char_quote # ''Ping'' @ [char_quote], codes_Ping),
     (char_quote # ''Pong'' @ [char_quote], codes_Pong),
     (char_quote # ''Release'' @ [char_quote], codes_Release),
     (char_quote # ''Abort'' @ [char_quote], codes_Abort)]"

subsection \<open>Decimal numbers (strconv)\<close>

definition digit_char :: "nat \<Rightarrow> char" where
  "digit_char d = char_of (48 + d)"

fun FormatUint :: "nat \<Rightarrow> string" where
  "FormatUint n = (if n < 10 then [digit_char n] else FormatUint (n div 10) @ [digit_char (n mod 10)])"

declare FormatUint.simps [simp del]

definition digit_val :: "char \<Rightarrow> nat option" where
  "digit_val c = (let v = of_char c :: nat in if 48 \<le> v \<and> v \<le> 57 then Some (v - 48) else None)"

fun digits_value :: "nat \<Rightarrow> string \<Rightarrow> nat option" where
  "digits_value acc [] = Some acc"
| "digits_value acc (c # cs) =
     (case digit_val c of None \<Rightarrow> None | Some d \<Rightarrow> digits_value (10 * acc + d) cs)"

text \<open>\<open>strconv.ParseUint(s, 10, 32)\<close>: no sign, no underscore, not empty, at most 32 bits.\<close>

definition ParseUint32 :: "string \<Rightarrow> nat option" where
  "ParseUint32 s =
     (if s = [] then None
      else case digits_value 0 s of
             None \<Rightarrow> None
           | Some v \<Rightarrow> if v < 2 ^ 32 then Some v else None)"

subsection \<open>Names of codes\<close>

definition Code_String :: "u16 \<Rightarrow> string" where
  "Code_String c =
     (case map_of codeToString c of
        Some v \<Rightarrow> v
      | None \<Rightarrow> ''Code('' @ FormatUint (unat c) @ '')'')"

fun ToCode_loop :: "(u16 \<times> string) list \<Rightarrow> string \<Rightarrow> go_error + u16" where
  "ToCode_loop [] v = Inl (ErrOther ''not found'')"
| "ToCode_loop ((key, val) # kvs) v = (if v = val then Inr key else ToCode_loop kvs v)"

definition ToCode :: "string \<Rightarrow> go_error + u16" where
  "ToCode v = ToCode_loop codeToString v"

fun getMaxCodeLen_loop :: "nat \<Rightarrow> (string \<times> u16) list \<Rightarrow> nat" where
  "getMaxCodeLen_loop maxLen [] = maxLen"
| "getMaxCodeLen_loop maxLen ((k, _) # kvs) =
     getMaxCodeLen_loop (if length k > maxLen then length k else maxLen) kvs"

definition getMaxCodeLen :: nat where
  "getMaxCodeLen = getMaxCodeLen_loop 34 strToCode"

text \<open>\<open>UnmarshalJSON\<close> of a code \<open>c\<close>: the new value of the receiver, or the error.\<close>

definition Code_UnmarshalJSON :: "u16 \<Rightarrow> string \<Rightarrow> go_error + u16" where
  "Code_UnmarshalJSON c b =
     (if b = ''null'' then Inr c
      else if length b > getMaxCodeLen then Inl (ErrOther ''invalid code: input too large'')
      else case ParseUint32 b of
             Some ci \<Rightarrow> if ci \<ge> 255 then Inl (ErrOther ''invalid code'') else Inr (of_nat ci)
           | None \<Rightarrow>
               (case map_of strToCode b of
                  Some jc \<Rightarrow> Inr jc
                | None \<Rightarrow> Inl (ErrOther ''invalid code'')))"

subsection \<open>Round trips\<close>

lemma of_char_digit: "d < 10 \<Longrightarrow> (of_char (digit_char d) :: nat) = 48 + d"
  by (simp add: digit_char_def of_char_of)

lemma digit_val_digit_char [simp]: "d < 10 \<Longrightarrow> digit_val (digit_char d) = Some d"
  by (simp add: digit_val_def of_char_digit)

lemma digits_value_append:
  "digits_value acc (xs @ ys) = (case digits_value acc xs of None \<Rightarrow> None | Some v \<Rightarrow> digits_value v ys)"
  by (induction acc xs rule: digits_value.induct) (auto split: option.splits)

lemma digits_value_FormatUint: "digits_value 0 (FormatUint n) = Some n"
proof (induction n rule: FormatUint.induct)
  case (1 n)
  show ?case
  proof (cases "n < 10")
    case True
    then show ?thesis by (subst FormatUint.simps) simp
  next
    case False
    with 1 show ?thesis by (subst FormatUint.simps) (simp add: digits_value_append)
  qed
qed

lemma FormatUint_nonempty [simp]: "FormatUint n \<noteq> []"
  by (subst FormatUint.simps) simp

lemma ParseUint32_FormatUint: "n < 2 ^ 32 \<Longrightarrow> ParseUint32 (FormatUint n) = Some n"
  by (simp add: ParseUint32_def digits_value_FormatUint)

text \<open>A quoted name of the registry: what \<open>encoding/json\<close> hands to \<open>UnmarshalJSON\<close>.\<close>

definition json_quote :: "string \<Rightarrow> string" where
  "json_quote v = char_quote # v @ [char_quote]"

lemma code_table_ToCode: "list_all (\<lambda>(c, v). Code_String c = v \<and> ToCode v = Inr c) codeToString"
  by code_simp

lemma code_table_json:
  "list_all (\<lambda>(c, v). c \<noteq> codes_Empty \<longrightarrow>
      json_quote v \<noteq> ''null'' \<and> \<not> length (json_quote v) > getMaxCodeLen
      \<and> ParseUint32 (json_quote v) = None \<and> map_of strToCode (json_quote v) = Some c) codeToString"
  by code_simp

text \<open>
  Names of codes round-trip: for every code of the registry, \<open>ToCode\<close> reads back what
  \<open>String\<close> prints and, for every code but \<open>Empty\<close>, \<open>UnmarshalJSON\<close> reads back the quoted
  name, whatever value the receiver had.
\<close>

lemma code_name_roundtrip:
  assumes "c \<in> fst ` set codeToString"
  shows "ToCode (Code_String c) = Inr c \<and>
         (c \<noteq> codes_Empty \<longrightarrow> Code_UnmarshalJSON old (json_quote (Code_String c)) = Inr c)"
proof -
  from assms obtain v where cv: "(c, v) \<in> set codeToString" by force
  then have 1: "Code_String c = v" "ToCode v = Inr c"
    using code_table_ToCode by (auto simp: list_all_iff)
  then show ?thesis
    using cv code_table_json by (auto simp: list_all_iff Code_UnmarshalJSON_def)
qed

lemma code_name_roundtrip_example:
  "ToCode (Code_String codes_Content) = Inr codes_Content
   \<and> Code_UnmarshalJSON 0 (json_quote (Code_String codes_Content)) = Inr codes_Content"
proof -
  have c: "codes_Content \<in> fst ` set codeToString" by (simp add: codeToString_def)
  show ?thesis
    using code_name_roundtrip [OF c, of 0] by simp
qed

end
