(* ===== verification/Option_Defs.thy ===== *)
theory Option_Defs
  imports Message_Codes
begin

text \<open>
  The option and media-type registries of \<open>message/option.go\<close> and \<open>message/tcpOptions.go\<close>:
  option numbers, their value formats and lengths, and the names printed for them.
\<close>

abbreviation (input) IfMatch :: u16 where "IfMatch \<equiv> 1"
abbreviation (input) URIHost :: u16 where "URIHost \<equiv> 3"
abbreviation (input) ETag :: u16 where "ETag \<equiv> 4"
abbreviation (input) IfNoneMatch :: u16 where "IfNoneMatch \<equiv> 5"
abbreviation (input) Observe :: u16 where "Observe \<equiv> 6"
abbreviation (input) URIPort :: u16 where "URIPort \<equiv> 7"
abbreviation (input) LocationPath :: u16 where "LocationPath \<equiv> 8"
abbreviation (input) URIPath :: u16 where "URIPath \<equiv> 11"
abbreviation (input) ContentFormat :: u16 where "ContentFormat \<equiv> 12"
abbreviation (input) MaxAge :: u16 where "MaxAge \<equiv> 14"
abbreviation (input) URIQuery :: u16 where "URIQuery \<equiv> 15"
abbreviation (input) Accept :: u16 where "Accept \<equiv> 17"
abbreviation (input) QBlock1 :: u16 where "QBlock1 \<equiv> 19"
abbreviation (input) LocationQuery :: u16 where "LocationQuery \<equiv> 20"
abbreviation (input) Block2 :: u16 where "Block2 \<equiv> 23"
abbreviation (input) Block1 :: u16 where "Block1 \<equiv> 27"
abbreviation (input) Size2 :: u16 where "Size2 \<equiv> 28"
abbreviation (input) QBlock2 :: u16 where "QBlock2 \<equiv> 31"
abbreviation (input) ProxyURI :: u16 where "ProxyURI \<equiv> 35"
abbreviation (input) ProxyScheme :: u16 where "ProxyScheme \<equiv> 39"
abbreviation (input) Size1 :: u16 where "Size1 \<equiv> 60"
abbreviation (input) Echo :: u16 where "Echo \<equiv> 252"
abbreviation (input) NoResponse :: u16 where "NoResponse \<equiv> 258"
abbreviation (input) RequestTag :: u16 where "RequestTag \<equiv> 292"

definition optionIDToString :: "(u16 \<times> string) list" where
  "optionIDToString =
    [(IfMatch, ''IfMatch''),
     (URIHost, ''URIHost''),
     (ETag, ''ETag''),
     (IfNoneMatch, ''IfNoneMatch''),
     (Observe, ''Observe''),
     (URIPort, ''URIPort''),
     (LocationPath, ''LocationPath''),
     (URIPath, ''URIPath''),
     (ContentFormat, ''ContentFormat''),
     (MaxAge, ''MaxAge''),
     (URIQuery, ''URIQuery''),
     (Accept, ''Accept''),
     (QBlock1, ''QBlock1''),
     (LocationQuery, ''LocationQuery''),
     (Block2, ''Block2''),
     (Block1, ''Block1''),
     (Size2, ''Size2''),
     (QBlock2, ''QBlock2''),
     (ProxyURI, ''ProxyURI''),
     (ProxyScheme, ''ProxyScheme''),
     (Size1, ''Size1''),
     (Echo, ''Echo''),
     (NoResponse, ''NoResponse''),
     (RequestTag, ''RequestTag'')]"

definition OptionID_String :: "u16 \<Rightarrow> string" where
  "OptionID_String o_id =
     (case map_of optionIDToString o_id of
        Some str \<Rightarrow> str
      | None \<Rightarrow> ''Option('' @ FormatUint (unat o_id) @ '')'')"

fun ToOptionID_loop :: "(u16 \<times> string) list \<Rightarrow> string \<Rightarrow> go_error + u16" where
  "ToOptionID_loop [] v = Inl (ErrOther ''not found'')"
| "ToOptionID_loop ((key, val) # kvs) v = (if val = v then Inr key else ToOptionID_loop kvs v)"

definition ToOptionID :: "string \<Rightarrow> go_error + u16" where
  "ToOptionID v = ToOptionID_loop optionIDToString v"

datatype ValueFormat = ValueUnknown | ValueEmpty | ValueOpaque | ValueUint | ValueString

record OptionDef =
  MinLen :: u32
  MaxLen :: u32
  ValFormat :: ValueFormat

definition CoapOptionDefs :: "(u16 \<times> OptionDef) list" where
  "CoapOptionDefs =
    [(IfMatch, \<lparr>MinLen = 0, MaxLen = 8, ValFormat = ValueOpaque\<rparr>),
     (URIHost, \<lparr>MinLen = 1, MaxLen = 255, ValFormat = ValueString\<rparr>),
     (ETag, \<lparr>MinLen = 1, MaxLen = 8, ValFormat = ValueOpaque\<rparr>),
     (IfNoneMatch, \<lparr>MinLen = 0, MaxLen = 0, ValFormat = ValueEmpty\<rparr>),
     (Observe, \<lparr>MinLen = 0, MaxLen = 3, ValFormat = ValueUint\<rparr>),
     (URIPort, \<lparr>MinLen = 0, MaxLen = 2, ValFormat = ValueUint\<rparr>),
     (LocationPath, \<lparr>MinLen = 0, MaxLen = 255, ValFormat = ValueString\<rparr>),
     (URIPath, \<lparr>MinLen = 0, MaxLen = 255, ValFormat = ValueString\<rparr>),
     (ContentFormat, \<lparr>MinLen = 0, MaxLen = 2, ValFormat = ValueUint\<rparr>),
     (MaxAge, \<lparr>MinLen = 0, MaxLen = 4, ValFormat = ValueUint\<rparr>),
     (URIQuery, \<lparr>MinLen = 0, MaxLen = 255, ValFormat = ValueString\<rparr>),
     (Accept, \<lparr>MinLen = 0, MaxLen = 2, ValFormat = ValueUint\<rparr>),
     (QBlock1, \<lparr>MinLen = 0, MaxLen = 3, ValFormat = ValueUint\<rparr>),
     (LocationQuery, \<lparr>MinLen = 0, MaxLen = 255, ValFormat = ValueString\<rparr>),
     (Block2, \<lparr>MinLen = 0, MaxLen = 3, ValFormat = ValueUint\<rparr>),
     (Block1, \<lparr>MinLen = 0, MaxLen = 3, ValFormat = ValueUint\<rparr>),
     (Size2, \<lparr>MinLen = 0, MaxLen = 4, ValFormat = ValueUint\<rparr>),
     (QBlock2, \<lparr>MinLen = 0, MaxLen = 3, ValFormat = ValueUint\<rparr>),
     (ProxyURI, \<lparr>MinLen = 1, MaxLen = 1034, ValFormat = ValueString\<rparr>),
     (ProxyScheme, \<lparr>MinLen = 1, MaxLen = 255, ValFormat = ValueString\<rparr>),
     (Size1, \<lparr>MinLen = 0, MaxLen = 4, ValFormat = ValueUint\<rparr>),
     (Echo, \<lparr>MinLen = 1, MaxLen = 40, ValFormat = ValueOpaque\<rparr>),
     (NoResponse, \<lparr>MinLen = 0, MaxLen = 1, ValFormat = ValueUint\<rparr>),
     (RequestTag, \<lparr>MinLen = 0, MaxLen = 8, ValFormat = ValueOpaque\<rparr>)]"

text \<open>The zero value of \<open>OptionDef\<close>, which a lookup of a missing key of the map returns.\<close>

definition OptionDef_zero :: OptionDef where
  "OptionDef_zero = \<lparr>MinLen = 0, MaxLen = 0, ValFormat = ValueUnknown\<rparr>"

definition VerifyOptLen :: "u16 \<Rightarrow> int \<Rightarrow> bool" where
  "VerifyOptLen optID valueLen =
     (let def = (case map_of CoapOptionDefs optID of Some d \<Rightarrow> d | None \<Rightarrow> OptionDef_zero) in
      if valueLen < uint (MinLen def) \<or> valueLen > uint (MaxLen def) then False else True)"

subsection \<open>Signalling options of CoAP over TCP\<close>

abbreviation (input) TCPMaxMessageSize :: u16 where "TCPMaxMessageSize \<equiv> 2"
abbreviation (input) TCPBlockWiseTransfer :: u16 where "TCPBlockWiseTransfer \<equiv> 4"
abbreviation (input) TCPCustody :: u16 where "TCPCustody \<equiv> 2"
abbreviation (input) TCPAlternativeAddress :: u16 where "TCPAlternativeAddress \<equiv> 2"
abbreviation (input) TCPHoldOff :: u16 where "TCPHoldOff \<equiv> 4"
abbreviation (input) TCPBadCSMOption :: u16 where "TCPBadCSMOption \<equiv> 2"

definition TCPSignalCSMOptionDefs :: "(u16 \<times> OptionDef) list" where
  "TCPSignalCSMOptionDefs =
    [(TCPMaxMessageSize, \<lparr>MinLen = 0, MaxLen = 4, ValFormat = ValueUint\<rparr>),
     (TCPBlockWiseTransfer, \<lparr>MinLen = 0, MaxLen = 0, ValFormat = ValueEmpty\<rparr>)]"

definition TCPSignalPingPongOptionDefs :: "(u16 \<times> OptionDef) list" where
  "TCPSignalPingPongOptionDefs =
    [(TCPCustody, \<lparr>MinLen = 0, MaxLen = 0, ValFormat = ValueEmpty\<rparr>)]"

definition TCPSignalReleaseOptionDefs :: "(u16 \<times> OptionDef) list" where
  "TCPSignalReleaseOptionDefs =
    [(TCPAlternativeAddress, \<lparr>MinLen = 1, MaxLen = 255, ValFormat = ValueString\<rparr>),
     (TCPHoldOff, \<lparr>MinLen = 0, MaxLen = 3, ValFormat = ValueUint\<rparr>)]"

definition TCPSignalAbortOptionDefs :: "(u16 \<times> OptionDef) list" where
  "TCPSignalAbortOptionDefs =
    [(TCPBadCSMOption, \<lparr>MinLen = 0, MaxLen = 2, ValFormat = ValueUint\<rparr>)]"

subsection \<open>Media types\<close>

abbreviation (input) TextPlain :: u16 where "TextPlain \<equiv> 0"
abbreviation (input) AppCoseEncrypt0 :: u16 where "AppCoseEncrypt0 \<equiv> 16"
abbreviation (input) AppCoseMac0 :: u16 where "AppCoseMac0 \<equiv> 17"
abbreviation (input) AppCoseSign1 :: u16 where "AppCoseSign1 \<equiv> 18"
abbreviation (input) AppLinkFormat :: u16 where "AppLinkFormat \<equiv> 40"
abbreviation (input) AppXML :: u16 where "AppXML \<equiv> 41"
abbreviation (input) AppOctets :: u16 where "AppOctets \<equiv> 42"
abbreviation (input) AppExi :: u16 where "AppExi \<equiv> 47"
abbreviation (input) AppJSON :: u16 where "AppJSON \<equiv> 50"
abbreviation (input) AppJSONPatch :: u16 where "AppJSONPatch \<equiv> 51"
abbreviation (input) AppJSONMergePatch :: u16 where "AppJSONMergePatch \<equiv> 52"
abbreviation (input) AppCBOR :: u16 where "AppCBOR \<equiv> 60"
abbreviation (input) AppCWT :: u16 where "AppCWT \<equiv> 61"
abbreviation (input) AppCoseEncrypt :: u16 where "AppCoseEncrypt \<equiv> 96"
abbreviation (input) AppCoseMac :: u16 where "AppCoseMac \<equiv> 97"
abbreviation (input) AppCoseSign :: u16 where "AppCoseSign \<equiv> 98"
abbreviation (input) AppCoseKey :: u16 where "AppCoseKey \<equiv> 101"
abbreviation (input) AppCoseKeySet :: u16 where "AppCoseKeySet \<equiv> 102"
abbreviation (input) AppSenmlJSON :: u16 where "AppSenmlJSON \<equiv> 110"
abbreviation (input) AppSenmlCbor :: u16 where "AppSenmlCbor \<equiv> 112"
abbreviation (input) AppCoapGroup :: u16 where "AppCoapGroup \<equiv> 256"
abbreviation (input) AppMissingBlocksCBORSeq :: u16 where "AppMissingBlocksCBORSeq \<equiv> 272"
abbreviation (input) AppSenmlEtchJSON :: u16 where "AppSenmlEtchJSON \<equiv> 320"
abbreviation (input) AppSenmlEtchCbor :: u16 where "AppSenmlEtchCbor \<equiv> 322"
abbreviation (input) AppOcfCbor :: u16 where "AppOcfCbor \<equiv> 10000"
abbreviation (input) AppLwm2mTLV :: u16 where "AppLwm2mTLV \<equiv> 11542"
abbreviation (input) AppLwm2mJSON :: u16 where "AppLwm2mJSON \<equiv> 11543"
abbreviation (input) AppLwm2mCbor :: u16 where "AppLwm2mCbor \<equiv> 11544"

definition mediaTypeToString :: "(u16 \<times> string) list" where
  "mediaTypeToString =
    [(TextPlain, ''text/plain; charset=utf-8''),
     (AppCoseEncrypt0, ''application/cose; cose-type='' @ [char_quote] @ ''cose-encrypt0'' @ [char_quote]),
     (AppCoseMac0, ''application/cose; cose-type='' @ [char_quote] @ ''cose-mac0'' @ [char_quote]),
     (AppCoseSign1, ''application/cose; cose-type='' @ [char_quote] @ ''cose-sign1'' @ [char_quote]),
     (AppLinkFormat, ''application/link-format''),
     (AppXML, ''application/xml''),
     (AppOctets, ''application/octet-stream''),
     (AppExi, ''application/exi''),
     (AppJSON, ''application/json''),
     (AppJSONPatch, ''application/json-patch+json''),
     (AppJSONMergePatch, ''application/merge-patch+json''),
     (AppCBOR, ''application/cbor''),
     (AppCWT, ''application/cwt''),
     (AppCoseEncrypt, ''application/cose; cose-type='' @ [char_quote] @ ''cose-encrypt'' @ [char_quote]),
     (AppCoseMac, ''application/cose; cose-type='' @ [char_quote] @ ''cose-mac'' @ [char_quote]),
     (AppCoseSign, ''application/cose; cose-type='' @ [char_quote] @ ''cose-sign'' @ [char_quote]),
     (AppCoseKey, ''application/cose-key''),
     (AppCoseKeySet, ''application/cose-key-set''),
     (AppSenmlJSON, ''application/senml+json''),
     (AppSenmlCbor, ''application/senml+cbor''),
     (AppCoapGroup, ''coap-group+json''),
     (AppMissingBlocksCBORSeq, ''application/missing-blocks+cbor-seq''),
     (AppSenmlEtchJSON, ''application/senml-etch+json''),
     (AppSenmlEtchCbor, ''application/senml-etch+cbor''),
     (AppOcfCbor, ''application/vnd.ocf+cbor''),
     (AppLwm2mTLV, ''application/vnd.oma.lwm2m+tlv''),
     (AppLwm2mJSON, ''application/vnd.oma.lwm2m+json''),
     (AppLwm2mCbor, ''application/vnd.oma.lwm2m+cbor'')]"

definition MediaType_String :: "u16 \<Rightarrow> string" where
  "MediaType_String c =
     (case map_of mediaTypeToString c of
        Some str \<Rightarrow> str
      | None \<Rightarrow> ''MediaType('' @ FormatUint (unat c) @ '')'')"

fun ToMediaType_loop :: "(u16 \<times> string) list \<Rightarrow> string \<Rightarrow> go_error + u16" where
  "ToMediaType_loop [] v = Inl (ErrOther ''not found'')"
| "ToMediaType_loop ((key, val) # kvs) v = (if val = v then Inr key else ToMediaType_loop kvs v)"

definition ToMediaType :: "string \<Rightarrow> go_error + u16" where
  "ToMediaType v = ToMediaType_loop mediaTypeToString v"

definition MediaTypeFromNumber :: "int \<Rightarrow> go_error + u16" where
  "MediaTypeFromNumber v =
     (case SafeCastTo (Unsigned 16) v of
        Inl err \<Rightarrow> Inl err
      | Inr mt \<Rightarrow>
          (case map_of mediaTypeToString (word_of_int mt) of
             None \<Rightarrow> Inl (ErrOther ''invalid value'')
           | Some _ \<Rightarrow> Inr (word_of_int mt)))"

end
