(* ===== verification/Option_Wire.thy ===== *)
theory Option_Wire
  imports Option_Defs
begin

text \<open>
  One option on the wire: \<open>message/option.go\<close> from \<open>extendOpt\<close> on, and the variable-length
  integers of \<open>message/encodeDecodeUint32.go\<close>.

  A marshal function takes the caller's buffer (\<open>None\<close> for \<open>nil\<close>) and returns the buffer
  after its writes, the number of bytes and the error.  When the bytes do not fit, the code sets
  its buffer variable to \<open>nil\<close>, goes on counting and reports \<open>ErrTooSmall\<close>; the model returns
  \<open>None\<close> for the buffer then, and does not say what the code has written to it.
\<close>

type_synonym marshalled = "buffer \<times> int \<times> go_error option"

definition blen :: "buffer \<Rightarrow> nat" where
  "blen buf = (case buf of None \<Rightarrow> 0 | Some b \<Rightarrow> length b)"

lemma blen_simps [simp]: "blen None = 0" "blen (Some b) = length b"
  by (simp_all add: blen_def)

text \<open>A call on the sub-slice \<open>buf[n:]\<close>, its writes seen through \<open>buf\<close>.\<close>

definition on_tail :: "nat \<Rightarrow> buffer \<Rightarrow> (buffer \<Rightarrow> marshalled) \<Rightarrow> marshalled" where
  "on_tail n buf f =
     (case buf of
        None \<Rightarrow> f None
      | Some b \<Rightarrow>
          (case f (Some (drop n b)) of
             (Some sub, k, err) \<Rightarrow> (Some (take n b @ sub), k, err)
           | (None, k, err) \<Rightarrow> (None, k, err)))"

subsection \<open>Variable-length unsigned integers\<close>

definition max1ByteNumber :: u32 where "max1ByteNumber = 255"
definition max2ByteNumber :: u32 where "max2ByteNumber = 65535"
definition max3ByteNumber :: u32 where "max3ByteNumber = 0xffffff"

definition EncodeUint32 :: "bytes \<Rightarrow> u32 \<Rightarrow> bytes \<times> int \<times> go_error option" where
  "EncodeUint32 buf value =
     (if value = 0 then (buf, 0, None)
      else if value \<le> max1ByteNumber then
        (if length buf < 1 then (buf, 1, Some ErrTooSmall)
         else (buf[0 := ucast value], 1, None))
      else if value \<le> max2ByteNumber then
        (if length buf < 2 then (buf, 2, Some ErrTooSmall)
         else (go_copy buf (PutUint16 (ucast value)), 2, None))
      else if value \<le> max3ByteNumber then
        (if length buf < 3 then (buf, 3, Some ErrTooSmall)
         else let rv = PutUint32 value in (go_copy buf (drop 1 rv), 3, None))
      else
        (if length buf < 4 then (buf, 4, Some ErrTooSmall)
         else (go_copy buf (PutUint32 value), 4, None)))"

definition DecodeUint32 :: "bytes \<Rightarrow> u32 \<times> int \<times> go_error option" where
  "DecodeUint32 buf0 =
     (let buf = (if length buf0 > 4 then take 4 buf0 else buf0);
          tmp = write_at [0, 0, 0, 0] (4 - length buf) buf
      in (Uint32 tmp, int (length buf), None))"

subsection \<open>Option headers\<close>

definition ExtendOptionByteCode :: int where "ExtendOptionByteCode = 13"
definition ExtendOptionByteAddend :: int where "ExtendOptionByteAddend = 13"
definition ExtendOptionWordCode :: int where "ExtendOptionWordCode = 14"
definition ExtendOptionWordAddend :: int where "ExtendOptionWordAddend = 269"
definition ExtendOptionError :: int where "ExtendOptionError = 15"

lemmas extend_consts = ExtendOptionByteCode_def ExtendOptionByteAddend_def ExtendOptionWordCode_def
  ExtendOptionWordAddend_def ExtendOptionError_def

definition extendOpt :: "int \<Rightarrow> int \<times> int" where
  "extendOpt opt =
     (if opt \<ge> ExtendOptionByteAddend then
        (if opt \<ge> ExtendOptionWordAddend then (ExtendOptionWordCode, opt - ExtendOptionWordAddend)
         else (ExtendOptionByteCode, opt - ExtendOptionByteAddend))
      else (opt, 0))"

definition marshalOptionHeaderExt :: "buffer \<Rightarrow> int \<Rightarrow> int \<Rightarrow> marshalled" where
  "marshalOptionHeaderExt buf opt ext =
     (if opt = ExtendOptionByteCode then
        (if blen buf > 0 then (map_option (\<lambda>b. b[0 := word_of_int ext]) buf, 1, None)
         else (None, 1, Some ErrTooSmall))
      else if opt = ExtendOptionWordCode then
        (if blen buf > 1 then (map_option (\<lambda>b. go_copy b (PutUint16 (word_of_int ext))) buf, 2, None)
         else (None, 2, Some ErrTooSmall))
      else (buf, 0, None))"

definition marshalOptionHeader :: "buffer \<Rightarrow> int \<Rightarrow> int \<Rightarrow> marshalled" where
  "marshalOptionHeader buf0 delta len =
     (let (d, dx) = extendOpt delta;
          (l, lx) = extendOpt len;
          buf1 = (if blen buf0 > 0
                  then map_option (\<lambda>b. b[0 := word_of_int (push_bit 4 d) OR word_of_int l]) buf0
                  else None);
          size1 = (1::nat);
          (buf2, lenBuf2, err2) = on_tail size1 buf1 (\<lambda>b. marshalOptionHeaderExt b d dx)
      in if err2 \<noteq> None \<and> err2 \<noteq> Some ErrTooSmall then (None, -1, err2)
         else
           (let buf3 = (if err2 = None then buf2 else None);
                size2 = size1 + nat lenBuf2;
                (buf4, lenBuf4, err4) = on_tail size2 buf3 (\<lambda>b. marshalOptionHeaderExt b l lx)
            in if err4 \<noteq> None \<and> err4 \<noteq> Some ErrTooSmall then (None, -1, err4)
               else
                 (let buf5 = (if err4 = None then buf4 else None);
                      size3 = size2 + nat lenBuf4
                  in case buf5 of
                       None \<Rightarrow> (None, int size3, Some ErrTooSmall)
                     | Some b \<Rightarrow> (Some b, int size3, None))))"

subsection \<open>Options\<close>

record Opt =
  ID :: u16
  Value :: bytes

definition MarshalValue :: "Opt \<Rightarrow> buffer \<Rightarrow> marshalled" where
  "MarshalValue o1 buf =
     (if blen buf < length (Value o1) then (None, int (length (Value o1)), Some ErrTooSmall)
      else (map_option (\<lambda>b. go_copy b (Value o1)) buf, int (length (Value o1)), None))"

definition Option_Marshal :: "Opt \<Rightarrow> buffer \<Rightarrow> u16 \<Rightarrow> marshalled" where
  "Option_Marshal o1 buf0 previousID =
     (let delta = uint (ID o1) - uint previousID;
          (_, lenVal, err0) = MarshalValue o1 None
      in if err0 \<noteq> None \<and> err0 \<noteq> Some ErrTooSmall then (None, -1, err0)
         else
           (let (buf1, lenHdr, err1) = marshalOptionHeader buf0 delta lenVal
            in if err1 \<noteq> None \<and> err1 \<noteq> Some ErrTooSmall then (None, -1, err1)
               else
                 (let buf2 = (if err1 = None then buf1 else None);
                      (buf3, lenBuf, err3) = on_tail (nat lenHdr) buf2 (MarshalValue o1)
                  in if err3 \<noteq> None \<and> err3 \<noteq> Some ErrTooSmall then (None, -1, err3)
                     else
                       (let buf4 = (if err3 = None then buf3 else None);
                            len = lenHdr + lenBuf
                        in case buf4 of
                             None \<Rightarrow> (None, len, Some ErrTooSmall)
                           | Some b \<Rightarrow> (Some b, len, None)))))"

definition parseExtOpt :: "bytes \<Rightarrow> int \<Rightarrow> go_error + nat \<times> int" where
  "parseExtOpt data opt =
     (if opt = ExtendOptionByteCode then
        (if length data < 1 then Inl ErrOptionTruncated
         else Inr (1, uint (data ! 0) + ExtendOptionByteAddend))
      else if opt = ExtendOptionWordCode then
        (if length data < 2 then Inl ErrOptionTruncated
         else Inr (2, uint (Uint16 (take 2 data)) + ExtendOptionWordAddend))
      else Inr (0, opt))"

text \<open>
  \<open>Option.Unmarshal\<close>: the receiver after the call and the number of bytes consumed.  A skipped
  option leaves the receiver as it is; all of \<open>data\<close> is consumed in every case.
\<close>

definition Option_Unmarshal :: "Opt \<Rightarrow> bytes \<Rightarrow> (u16 \<times> OptionDef) list \<Rightarrow> u16 \<Rightarrow> Opt \<times> nat" where
  "Option_Unmarshal o1 data optionDefs optionID =
     (case map_of optionDefs optionID of
        Some def \<Rightarrow>
          (if ValFormat def = ValueUnknown then (o1, length data)
           else
             (let dataLen = (of_nat (length data) :: u32) in
              if (dataLen < MinLen def \<or> dataLen > MaxLen def) \<and> optionID mod 2 = 0
              then (o1, length data)
              else (o1\<lparr>ID := optionID, Value := data\<rparr>, length data)))
      | None \<Rightarrow> (o1\<lparr>ID := optionID, Value := data\<rparr>, length data))"

subsection \<open>The bytes an option is written as\<close>

text \<open>
  The contract of the marshal functions: the bytes \<open>w\<close> are put at the start of the buffer, or
  their number is reported with \<open>ErrTooSmall\<close>.  \<open>writes\<close> treats \<open>nil\<close> as too small even for no
  bytes, \<open>fills\<close> does not.
\<close>

definition fills :: "bytes \<Rightarrow> buffer \<Rightarrow> marshalled" where
  "fills w buf =
     (if length w \<le> blen buf then (map_option (\<lambda>b. w @ drop (length w) b) buf, int (length w), None)
      else (None, int (length w), Some ErrTooSmall))"

definition writes :: "bytes \<Rightarrow> buffer \<Rightarrow> marshalled" where
  "writes w buf =
     (case buf of
        None \<Rightarrow> (None, int (length w), Some ErrTooSmall)
      | Some b \<Rightarrow> fills w (Some b))"

lemma writes_None [simp]: "writes w None = (None, int (length w), Some ErrTooSmall)"
  by (simp add: writes_def)

lemma writes_Some: "writes w (Some b) =
    (if length w \<le> length b then (Some (w @ drop (length w) b), int (length w), None)
     else (None, int (length w), Some ErrTooSmall))"
  by (simp add: writes_def fills_def)

text \<open>Filling the tail behind bytes already written.\<close>

lemma on_tail_fills:
  "on_tail (length w) (Some (w @ rest)) (fills v) =
     (if length v \<le> length rest then (Some (w @ v @ drop (length v) rest), int (length v), None)
      else (None, int (length v), Some ErrTooSmall))"
  by (simp add: on_tail_def fills_def)

lemma on_tail_None [simp]: "on_tail n None f = f None"
  by (simp add: on_tail_def)

definition ext_wire :: "int \<Rightarrow> int \<Rightarrow> bytes" where
  "ext_wire opt ext =
     (if opt = ExtendOptionByteCode then [word_of_int ext]
      else if opt = ExtendOptionWordCode then PutUint16 (word_of_int ext) else [])"

definition header_wire :: "int \<Rightarrow> int \<Rightarrow> bytes" where
  "header_wire delta len =
     (let (d, dx) = extendOpt delta; (l, lx) = extendOpt len
      in (word_of_int (push_bit 4 d) OR word_of_int l) # ext_wire d dx @ ext_wire l lx)"

definition option_wire :: "Opt \<Rightarrow> u16 \<Rightarrow> bytes" where
  "option_wire o1 previousID =
     header_wire (uint (ID o1) - uint previousID) (int (length (Value o1))) @ Value o1"

lemma marshalOptionHeaderExt_fills: "marshalOptionHeaderExt buf opt ext = fills (ext_wire opt ext) buf"
proof (cases buf)
  case None
  then show ?thesis
    by (simp add: marshalOptionHeaderExt_def fills_def ext_wire_def)
next
  case (Some b)
  then show ?thesis
    by (cases b) (auto simp: marshalOptionHeaderExt_def fills_def ext_wire_def go_copy_fits Suc_le_eq)
qed

lemma MarshalValue_fills: "MarshalValue o1 = fills (Value o1)"
proof
  show "MarshalValue o1 buf = fills (Value o1) buf" for buf
    by (cases buf) (auto simp: MarshalValue_def fills_def go_copy_fits not_le not_less)
qed

lemma fills_None: "fills w None = (None, int (length w), if w = [] then None else Some ErrTooSmall)"
  by (simp add: fills_def)

lemma marshalOptionHeader_writes: "marshalOptionHeader buf delta len = writes (header_wire delta len) buf"
proof -
  obtain d dx l lx where e: "extendOpt delta = (d, dx)" "extendOpt len = (l, lx)"
    by (meson surj_pair)
  let ?h = "word_of_int (push_bit 4 d) OR word_of_int l :: byte"
  show ?thesis
  proof (cases "blen buf > 0")
    case False
    then show ?thesis
      by (cases buf) (auto simp: marshalOptionHeader_def e marshalOptionHeaderExt_fills fills_None
          header_wire_def writes_Some)
  next
    case True
    then obtain x rest where b: "buf = Some (x # rest)"
      by (cases buf) (auto simp: neq_Nil_conv)
    show ?thesis
      using on_tail_fills [of "[?h]" rest "ext_wire d dx"]
        on_tail_fills [of "?h # ext_wire d dx" "drop (length (ext_wire d dx)) rest" "ext_wire l lx"]
      by (auto simp: b marshalOptionHeader_def e marshalOptionHeaderExt_fills fills_None
          header_wire_def writes_Some Let_def add.commute)
  qed
qed

lemma Option_Marshal_writes: "Option_Marshal o1 buf previousID = writes (option_wire o1 previousID) buf"
proof -
  let ?h = "header_wire (uint (ID o1) - uint previousID) (int (length (Value o1)))"
  show ?thesis
  proof (cases buf)
    case None
    then show ?thesis
      by (simp add: Option_Marshal_def MarshalValue_fills fills_None marshalOptionHeader_writes
          option_wire_def)
  next
    case (Some b)
    show ?thesis
      using on_tail_fills [of ?h "drop (length ?h) b" "Value o1"]
      by (auto simp: Some Option_Marshal_def MarshalValue_fills fills_None
          marshalOptionHeader_writes option_wire_def writes_Some add.commute)
  qed
qed

subsection \<open>Reading a header back\<close>

lemma nibbles:
  fixes d l :: int
  assumes "0 \<le> d" "d < 16" "0 \<le> l" "l < 16"
  shows "uint (drop_bit 4 (word_of_int (push_bit 4 d) OR word_of_int l :: byte)) = d"
    and "uint ((word_of_int (push_bit 4 d) OR word_of_int l :: byte) AND 15) = l"
proof -
  have d: "take_bit 4 d = d" and l: "take_bit 4 l = l"
    using assms by (simp_all add: take_bit_int_eq_self_iff)
  have dn: "bit d n \<Longrightarrow> n < 4" and ln: "bit l n \<Longrightarrow> n < 4" for n
    by (metis d bit_take_bit_iff) (metis l bit_take_bit_iff)
  have m: "(15 :: byte) = mask 4"
    by (simp add: mask_eq_exp_minus_1)
  have "drop_bit 4 (word_of_int (push_bit 4 d) OR word_of_int l :: byte) = word_of_int d"
    using dn ln by (intro bit_word_eqI) (fastforce simp: bit_simps)
  moreover have "uint (word_of_int d :: byte) = d"
    using assms by (simp add: uint_word_of_int)
  ultimately show "uint (drop_bit 4 (word_of_int (push_bit 4 d) OR word_of_int l :: byte)) = d"
    by simp
  have "(word_of_int (push_bit 4 d) OR word_of_int l :: byte) AND 15 = word_of_int l"
    unfolding m using ln by (intro bit_word_eqI) (auto simp: bit_simps)
  moreover have "uint (word_of_int l :: byte) = l"
    using assms by (simp add: uint_word_of_int)
  ultimately show "uint ((word_of_int (push_bit 4 d) OR word_of_int l :: byte) AND 15) = l"
    by simp
qed

text \<open>The largest delta or length an extended header can carry: \<open>65535 + 269\<close>.\<close>

definition max_extended :: int where "max_extended = 65804"

lemma extendOpt_nibble: "0 \<le> n \<Longrightarrow> 0 \<le> fst (extendOpt n) \<and> fst (extendOpt n) < 15"
  by (simp add: extendOpt_def extend_consts)

lemma parseExtOpt_ext_wire:
  assumes "0 \<le> n" "n \<le> max_extended" "extendOpt n = (d, dx)"
  shows "parseExtOpt (ext_wire d dx @ rest) d = Inr (length (ext_wire d dx), n)"
proof -
  consider "n < 13" | "13 \<le> n" "n < 269" | "269 \<le> n" by linarith
  then show ?thesis
  proof cases
    case 1
    with assms show ?thesis
      by (auto simp: extendOpt_def parseExtOpt_def ext_wire_def extend_consts split: if_splits)
  next
    case 2
    with assms show ?thesis
      by (auto simp: extendOpt_def parseExtOpt_def ext_wire_def extend_consts uint_word_of_int)
  next
    case 3
    with assms have d: "d = 14" "dx = n - 269" "n - 269 < 65536"
      by (auto simp: extendOpt_def extend_consts max_extended_def split: if_splits)
    have "uint (word_of_int (n - 269) :: u16) = n - 269"
      using 3 d(3) by (subst uint_word_of_int) simp
    moreover have "Uint16 (PutUint16 (word_of_int (n - 269))) = word_of_int (n - 269)"
      using Uint16_PutUint16 [of _ "[]"] by simp
    ultimately show ?thesis
      by (simp add: d parseExtOpt_def ext_wire_def extend_consts)
  qed
qed

subsection \<open>Variable-length integers round-trip\<close>

definition uint_wire :: "u32 \<Rightarrow> bytes" where
  "uint_wire v =
     (if v = 0 then [] else if v \<le> 255 then [ucast v] else if v \<le> 65535 then PutUint16 (ucast v)
      else if v \<le> 0xffffff then drop 1 (PutUint32 v) else PutUint32 v)"

lemma length_uint_wire:
  "length (uint_wire v) =
     (if v = 0 then 0 else if v \<le> 255 then 1 else if v \<le> 65535 then 2 else if v \<le> 0xffffff then 3 else 4)"
  by (simp add: uint_wire_def)

lemma EncodeUint32_wire:
  "EncodeUint32 buf v =
     (if length (uint_wire v) \<le> length buf
      then (uint_wire v @ drop (length (uint_wire v)) buf, int (length (uint_wire v)), None)
      else (buf, int (length (uint_wire v)), Some ErrTooSmall))"
  by (cases buf)
    (auto simp: EncodeUint32_def uint_wire_def max1ByteNumber_def max2ByteNumber_def max3ByteNumber_def
      go_copy_fits Let_def not_le not_less)

lemma bit_less_power:
  fixes v :: u32
  assumes "v < 2 ^ k" "bit v n" shows "n < k"
proof -
  have "bit (v AND mask k) n"
    using assms less_mask_eq [of v k] by simp
  then show ?thesis
    by (simp add: bit_and_iff bit_mask_iff)
qed

lemma small_word_parts:
  fixes v :: u32
  shows "v \<le> 255 \<Longrightarrow> bit v n \<Longrightarrow> n < 8" and "v \<le> 65535 \<Longrightarrow> bit v n \<Longrightarrow> n < 16"
    and "v \<le> 0xffffff \<Longrightarrow> bit v n \<Longrightarrow> n < 24"
  by (rule bit_less_power, simp_all add: word_le_nat_alt word_less_nat_alt)+

text \<open>Padding on the left with zeros to four bytes, as \<open>DecodeUint32\<close> does.\<close>

lemma DecodeUint32_uint_wire: "DecodeUint32 (uint_wire v) = (v, int (length (uint_wire v)), None)"
proof -
  have low: "ucast (ucast v :: byte) = v" if "v \<le> 255"
    using small_word_parts(1) [OF that] by (intro bit_word_eqI) (auto simp: bit_byte_low)
  have two: "Uint32 ([0, 0] @ PutUint16 (ucast v)) = v" if "v \<le> 65535"
    using small_word_parts(2) [OF that]
    by (intro bit_word_eqI) (fastforce simp: PutUint16_def bit_simps)
  have three: "Uint32 (0 # drop 1 (PutUint32 v)) = v" if "v \<le> 0xffffff"
    using small_word_parts(3) [OF that]
    by (intro bit_word_eqI) (auto simp: PutUint32_def bit_or_iff bit_byte_part bit_byte_low)
  have four: "Uint32 (PutUint32 v) = v"
    using Uint32_PutUint32 [of v "[]"] by simp
  show ?thesis
    using low two three four
    by (auto simp: DecodeUint32_def uint_wire_def write_at_def go_copy_def Let_def)
qed

lemma less_power_bit:
  fixes v :: u32
  assumes "\<And>n. bit v n \<Longrightarrow> n < k" "k < 32" shows "v < 2 ^ k"
proof -
  have "v AND mask k = v"
    using assms(1) by (intro bit_word_eqI) (auto simp: bit_simps)
  then show ?thesis
    using and_mask_less' [of k v] assms(2) by simp
qed

text \<open>No leading zero byte: the encoding is the shortest one (RFC 7252, section 3.2).\<close>

lemma hd_uint_wire:
  assumes "v \<noteq> 0" shows "hd (uint_wire v) \<noteq> 0"
proof
  assume z: "hd (uint_wire v) = 0"
  have top: "v < 2 ^ k" if "k + 8 \<le> 32" "ucast (drop_bit k v) = (0 :: byte)"
      "\<And>n. bit v n \<Longrightarrow> n < k + 8" for k
  proof (rule less_power_bit)
    fix n assume n: "bit v n"
    show "n < k"
    proof (rule ccontr)
      assume "\<not> n < k"
      then have "bit (ucast (drop_bit k v) :: byte) (n - k)"
        using n that(3) [OF n] by (auto simp: bit_simps)
      with that(2) show False by simp
    qed
  qed (use that in simp)
  have len: "bit v n \<Longrightarrow> n < 32" for n
    by (rule bit_imp_le_length [where 'a = 32, simplified])
  consider "v \<le> 255" | "\<not> v \<le> 255" "v \<le> 65535" | "\<not> v \<le> 65535" "v \<le> 0xffffff" | "\<not> v \<le> 0xffffff"
    by linarith
  then show False
  proof cases
    case 1
    with z assms top [of 0] small_word_parts(1) [OF 1] show False
      by (simp add: uint_wire_def word_less_1)
  next
    case 2
    have "(ucast (drop_bit 8 (ucast v :: u16)) :: byte) = ucast (drop_bit 8 v)"
      by (intro bit_word_eqI) (auto simp: bit_simps)
    with z 2 assms have "ucast (drop_bit 8 v) = (0 :: byte)"
      by (simp add: uint_wire_def PutUint16_def)
    with 2 top [of 8] small_word_parts(2) [OF 2(2)] show False
      by (simp add: word_less_nat_alt word_le_nat_alt)
  next
    case 3
    have "\<not> v \<le> 255" using 3(1) by (auto simp: word_le_nat_alt)
    with z 3 assms have "ucast (drop_bit 16 v) = (0 :: byte)"
      by (simp add: uint_wire_def PutUint32_def)
    with 3 top [of 16] small_word_parts(3) [OF 3(2)] show False
      by (simp add: word_less_nat_alt word_le_nat_alt)
  next
    case 4
    have "\<not> v \<le> 255" "\<not> v \<le> 65535" using 4 by (auto simp: word_le_nat_alt)
    with z 4 assms have "ucast (drop_bit 24 v) = (0 :: byte)"
      by (simp add: uint_wire_def PutUint32_def)
    with 4 top [of 24] len show False
      by (simp add: word_less_nat_alt word_le_nat_alt)
  qed
qed

text \<open>
  Variable-length integers: whenever \<open>EncodeUint32\<close> succeeds, \<open>DecodeUint32\<close> of the bytes it
  reports reads the same value; it touches no other byte of the buffer, needs at most four bytes
  and never writes a leading zero byte.
\<close>

lemma uint32_roundtrip:
  assumes "EncodeUint32 buf v = (buf', n, None)"
  shows "DecodeUint32 (take (nat n) buf') = (v, n, None)
         \<and> drop (nat n) buf' = drop (nat n) buf \<and> 0 \<le> n \<and> n \<le> 4
         \<and> (0 < n \<longrightarrow> hd buf' \<noteq> 0)"
proof -
  have n: "n = int (length (uint_wire v))" and b: "buf' = uint_wire v @ drop (length (uint_wire v)) buf"
    using assms by (auto simp: EncodeUint32_wire split: if_splits)
  have "hd buf' \<noteq> 0" if "0 < n"
  proof -
    from that n have "uint_wire v \<noteq> []" "v \<noteq> 0" by (auto simp: uint_wire_def)
    then show ?thesis using hd_uint_wire [of v] by (simp add: b)
  qed
  then show ?thesis
    using n by (simp add: b DecodeUint32_uint_wire length_uint_wire)
qed

lemma uint32_roundtrip_example:
  "DecodeUint32 (take 2 [1, 44, 7]) = (300, 2, None) \<and> hd [1, 44, 7] \<noteq> (0 :: byte)"
  using uint32_roundtrip [of "[9, 9, 7]" 300 "[1, 44, 7]" 2]
  by (simp add: EncodeUint32_def max1ByteNumber_def max2ByteNumber_def PutUint16_def go_copy_def
      word_le_nat_alt)

end
