(* ===== verification/Options_Store.thy ===== *)
theory Options_Store
  imports Option_Wire
begin

text \<open>
  The container of options, \<open>message.Options\<close> of \<open>message/options.go\<close>: a slice that is kept
  sorted by option number.  Indices are \<^typ>\<open>int\<close> where the code uses \<open>-1\<close>; slice accesses are in
  range wherever the code makes them.  The slice's own cells are mutated in place: \<open>Set\<close> and
  \<open>Add\<close> lengthen the slice by one cell, whose content (\<open>junk\<close>: the zero option of \<open>append\<close>, or
  what an earlier, longer slice left in the backing array) is an argument of the model.
\<close>

type_synonym Options = "Opt list"

abbreviation Opt_zero :: Opt where "Opt_zero \<equiv> \<lparr>ID = 0, Value = []\<rparr>"

subsection \<open>Searching\<close>

function scan_max :: "Options \<Rightarrow> u16 \<Rightarrow> nat \<Rightarrow> nat" where
  "scan_max options oid maxIdx =
     (if maxIdx < length options \<and> ID (options ! maxIdx) \<le> oid
      then scan_max options oid (maxIdx + 1) else maxIdx)"
  by pat_completeness auto
termination
  by (relation "measure (\<lambda>(options, oid, maxIdx). length options - maxIdx)") auto

function scan_min :: "Options \<Rightarrow> u16 \<Rightarrow> int \<Rightarrow> int" where
  "scan_min options oid minIdx =
     (if minIdx \<ge> 0 \<and> ID (options ! nat minIdx) \<ge> oid
      then scan_min options oid (minIdx - 1) else minIdx)"
  by pat_completeness auto
termination
  by (relation "measure (\<lambda>(options, oid, minIdx). nat (minIdx + 1))") auto

declare scan_max.simps [simp del] scan_min.simps [simp del]

text \<open>
  The bisection of \<open>findPosition\<close>.  It stops on every input: as soon as the pivot lies strictly
  between the bounds, each round shrinks the interval, and every round but the first is such.
\<close>

definition bisect_measure :: "nat \<Rightarrow> nat \<Rightarrow> nat \<Rightarrow> nat" where
  "bisect_measure pivot minIdx maxIdx =
     (if (maxIdx - minIdx) div 2 = 0 then 0
      else if minIdx < pivot \<and> pivot < maxIdx then maxIdx - minIdx
      else Suc (max (pivot - minIdx) (maxIdx - pivot)))"

function findPosition_loop :: "Options \<Rightarrow> u16 \<Rightarrow> nat \<Rightarrow> nat \<Rightarrow> nat \<Rightarrow> int \<times> int" where
  "findPosition_loop options oid pivot minIdx maxIdx =
     (if oid = ID (options ! pivot) \<or> (maxIdx - minIdx) div 2 = 0 then
        (let maxIdx' = scan_max options oid pivot;
             minIdx' = scan_min options oid (int pivot)
         in (minIdx', if maxIdx' = length options then -1 else int maxIdx'))
      else if oid < ID (options ! pivot) then
        findPosition_loop options oid (pivot - (pivot - minIdx) div 2) minIdx pivot
      else
        findPosition_loop options oid (pivot + (maxIdx - pivot) div 2) pivot maxIdx)"
  by pat_completeness auto
termination
proof (relation "measure (\<lambda>(options, oid, pivot, minIdx, maxIdx). bisect_measure pivot minIdx maxIdx)",
    goal_cases)
  case 1
  show ?case by simp
next
  case (2 options oid pivot minIdx maxIdx)
  then show ?case by (auto simp: bisect_measure_def max_def)
next
  case (3 options oid pivot minIdx maxIdx)
  then show ?case by (auto simp: bisect_measure_def max_def)
qed

declare findPosition_loop.simps [simp del]

definition findPosition :: "Options \<Rightarrow> u16 \<Rightarrow> int \<times> int" where
  "findPosition options oid =
     (if length options = 0 then (-1, 0)
      else findPosition_loop options oid 0 0 (length options))"

definition Options_Find :: "Options \<Rightarrow> u16 \<Rightarrow> go_error + int \<times> int" where
  "Options_Find options oid =
     (let (idxPre, idxPost) = findPosition options oid in
      if idxPre = -1 \<and> idxPost = 0 then Inl ErrOptionNotFound
      else if idxPre = int (length options) - 1 \<and> idxPost = -1 then Inl ErrOptionNotFound
      else if idxPre < idxPost \<and> idxPost - idxPre = 1 then Inl ErrOptionNotFound
      else Inr (idxPre + 1, if idxPost < 0 then int (length options) else idxPost))"

subsection \<open>Inserting and removing\<close>

text \<open>
  The two loops that move cells: \<open>shift_up\<close> moves the cells from \<open>updateFrom\<close> on one place to
  the right, \<open>shift_down\<close> moves the cells from index \<open>i\<close> on to the left, to index \<open>updateIdx\<close>.
\<close>

fun shift_up :: "'a list \<Rightarrow> nat \<Rightarrow> nat \<Rightarrow> nat \<Rightarrow> 'a list \<times> nat" where
  "shift_up xs i updateFrom updateIdx =
     (if i > updateFrom then shift_up (xs[i := xs ! (i - 1)]) (i - 1) updateFrom (updateIdx + 1)
      else (xs, updateIdx))"

function shift_down :: "'a list \<Rightarrow> nat \<Rightarrow> nat \<Rightarrow> nat \<Rightarrow> 'a list \<times> nat" where
  "shift_down xs i optsLength updateIdx =
     (if i < optsLength then shift_down (xs[updateIdx := xs ! i]) (i + 1) optsLength (updateIdx + 1)
      else (xs, updateIdx))"
  by pat_completeness auto
termination
  by (relation "measure (\<lambda>(xs, i, optsLength, updateIdx). optsLength - i)") auto

declare shift_up.simps [simp del] shift_down.simps [simp del]

definition Options_Set_move :: "Options \<Rightarrow> Opt \<Rightarrow> Opt \<Rightarrow> nat \<Rightarrow> nat \<Rightarrow> nat \<Rightarrow> Options" where
  "Options_Set_move options junk opt insertPosition updateTo updateFrom =
     (let optsLength = length options;
          options1 = options @ [junk];
          (options2, updateIdx) =
            (if updateFrom < updateTo then shift_up options1 optsLength updateFrom updateTo
             else shift_down options1 updateFrom optsLength updateTo)
      in take updateIdx (options2[insertPosition := opt]))"

definition Options_Set :: "Opt \<Rightarrow> Options \<Rightarrow> Opt \<Rightarrow> Options" where
  "Options_Set junk options opt =
     (let (idxPre, idxPost) = findPosition options (ID opt) in
      if idxPre = -1 \<and> idxPost = -1 then [opt]
      else if idxPre = -1 \<and> idxPost \<ge> 0 then
        Options_Set_move options junk opt 0 1 (nat idxPost)
      else if idxPre = idxPost then
        Options_Set_move options junk opt (nat idxPre) (nat idxPre + 1) (nat idxPre)
      else if idxPre \<ge> 0 then
        (let insertPosition = nat idxPre + 1;
             updateTo = nat idxPre + 2;
             updateFrom = (if idxPost < 0 then length options else nat idxPost)
         in if updateTo = updateFrom then options[insertPosition := opt]
            else Options_Set_move options junk opt insertPosition updateTo updateFrom)
      else Options_Set_move options junk opt 0 0 0)"

definition Options_Add :: "Opt \<Rightarrow> Options \<Rightarrow> Opt \<Rightarrow> Options" where
  "Options_Add junk options opt =
     (let (_, idxPost0) = findPosition options (ID opt);
          idxPost = (if idxPost0 = -1 then length options else nat idxPost0);
          options1 = options @ [junk];
          (options2, _) = shift_up options1 (length options1 - 1) idxPost 0
      in options2[idxPost := opt])"

text \<open>
  \<open>Remove\<close> returns a shorter slice over the same array, whose cells it has moved.
  \<open>Options_Remove_cells\<close> is what the caller's old slice shows afterwards.
\<close>

definition Options_Remove_cells :: "Options \<Rightarrow> u16 \<Rightarrow> Options" where
  "Options_Remove_cells options oid =
     (case Options_Find options oid of
        Inl _ \<Rightarrow> options
      | Inr (idxPre, idxPost) \<Rightarrow> fst (shift_down options (nat idxPost) (length options) (nat idxPre)))"

definition Options_Remove :: "Options \<Rightarrow> u16 \<Rightarrow> Options" where
  "Options_Remove options oid =
     (case Options_Find options oid of
        Inl _ \<Rightarrow> options
      | Inr (idxPre, idxPost) \<Rightarrow>
          take (nat (int (length options) - (idxPost - idxPre))) (Options_Remove_cells options oid))"

subsection \<open>What the search finds in a sorted container\<close>

definition opts_sorted :: "Options \<Rightarrow> bool" where
  "opts_sorted options \<longleftrightarrow> sorted (map ID options)"

text \<open>The options with number \<open>oid\<close> are those at the indices from \<open>lo_idx\<close> up to \<open>hi_idx\<close>.\<close>

definition lo_idx :: "Options \<Rightarrow> u16 \<Rightarrow> nat" where
  "lo_idx options oid = length (takeWhile (\<lambda>o1. ID o1 < oid) options)"

definition hi_idx :: "Options \<Rightarrow> u16 \<Rightarrow> nat" where
  "hi_idx options oid = length (takeWhile (\<lambda>o1. ID o1 \<le> oid) options)"

lemma idx_le_length: "lo_idx os oid \<le> length os" "hi_idx os oid \<le> length os"
  by (simp_all add: lo_idx_def hi_idx_def length_takeWhile_le)

lemma lo_le_hi: "lo_idx os oid \<le> hi_idx os oid"
  by (induction os) (auto simp: lo_idx_def hi_idx_def)

lemma opts_sorted_nth: "opts_sorted os \<Longrightarrow> i \<le> j \<Longrightarrow> j < length os \<Longrightarrow> ID (os ! i) \<le> ID (os ! j)"
  using sorted_nth_mono [of "map ID os" i j] by (simp add: opts_sorted_def)

lemma less_takeWhile_iff:
  assumes "\<And>i j. i \<le> j \<Longrightarrow> j < length xs \<Longrightarrow> P (xs ! j) \<Longrightarrow> P (xs ! i)" "i < length xs"
  shows "P (xs ! i) \<longleftrightarrow> i < length (takeWhile P xs)"
proof
  assume "i < length (takeWhile P xs)"
  then show "P (xs ! i)"
    by (metis nth_mem set_takeWhileD takeWhile_nth)
next
  assume p: "P (xs ! i)"
  show "i < length (takeWhile P xs)"
  proof (rule ccontr)
    assume n: "\<not> i < length (takeWhile P xs)"
    then have "length (takeWhile P xs) < length xs"
      using assms(2) by simp
    then have "\<not> P (xs ! length (takeWhile P xs))"
      by (rule nth_length_takeWhile)
    then show False
      using assms(1) [of "length (takeWhile P xs)" i] assms(2) p n by simp
  qed
qed

lemma nth_less_lo: "opts_sorted os \<Longrightarrow> i < length os \<Longrightarrow> ID (os ! i) < oid \<longleftrightarrow> i < lo_idx os oid"
  unfolding lo_idx_def
  by (rule less_takeWhile_iff) (auto dest: opts_sorted_nth)

lemma nth_le_hi: "opts_sorted os \<Longrightarrow> i < length os \<Longrightarrow> ID (os ! i) \<le> oid \<longleftrightarrow> i < hi_idx os oid"
  unfolding hi_idx_def
  by (rule less_takeWhile_iff) (auto dest: opts_sorted_nth)

lemma scan_max_eq:
  assumes "opts_sorted os" "i \<le> length os"
  shows "scan_max os oid i = max i (hi_idx os oid)"
  using assms
proof (induction os oid i rule: scan_max.induct)
  case (1 os oid i)
  show ?case
  proof (cases "i < length os \<and> ID (os ! i) \<le> oid")
    case True
    with 1(2) have "i < hi_idx os oid" using nth_le_hi [of os i oid] by blast
    with True 1 show ?thesis by (subst scan_max.simps) simp
  next
    case False
    with 1 have "hi_idx os oid \<le> i"
      using nth_le_hi [of os i oid] idx_le_length(2) [of os oid] by (cases "i < length os") auto
    with False show ?thesis by (subst scan_max.simps) auto
  qed
qed

lemma scan_min_eq:
  assumes "opts_sorted os" "i < int (length os)" "-1 \<le> i"
  shows "scan_min os oid i = min i (int (lo_idx os oid) - 1)"
  using assms
proof (induction os oid i rule: scan_min.induct)
  case (1 os oid i)
  show ?case
  proof (cases "i \<ge> 0 \<and> ID (os ! nat i) \<ge> oid")
    case True
    then have "nat i < length os" "\<not> ID (os ! nat i) < oid" using 1(3) by auto
    then have "\<not> nat i < lo_idx os oid"
      using nth_less_lo [of os "nat i" oid] 1(2) by blast
    with True 1 show ?thesis by (subst scan_min.simps) auto
  next
    case False
    then have "i < 0 \<or> nat i < length os \<and> ID (os ! nat i) < oid" using 1(3) by auto
    then have "i < 0 \<or> nat i < lo_idx os oid"
      using nth_less_lo [of os "nat i" oid] 1(2) by blast
    with False 1 show ?thesis by (subst scan_min.simps) auto
  qed
qed

lemma findPosition_loop_eq:
  assumes "opts_sorted os" "pivot < length os" "minIdx \<le> pivot" "pivot \<le> maxIdx" "maxIdx \<le> length os"
    and "minIdx < lo_idx os oid \<or> minIdx = 0 \<and> pivot = 0" and "hi_idx os oid \<le> maxIdx"
    and "(maxIdx - minIdx) div 2 = 0 \<longrightarrow> lo_idx os oid \<le> pivot + 1 \<and> pivot \<le> hi_idx os oid"
  shows "findPosition_loop os oid pivot minIdx maxIdx =
           (int (lo_idx os oid) - 1,
            if hi_idx os oid = length os then -1 else int (hi_idx os oid))"
  using assms
proof (induction os oid pivot minIdx maxIdx rule: findPosition_loop.induct)
  case (1 os oid pivot minIdx maxIdx)
  note srt = "1.prems"(1) and p = "1.prems"(2-8)
  note lt = nth_less_lo [OF srt p(1), of oid] and le = nth_le_hi [OF srt p(1), of oid]
  have lh: "lo_idx os oid \<le> hi_idx os oid" by (rule lo_le_hi)
  consider (stop) "oid = ID (os ! pivot) \<or> (maxIdx - minIdx) div 2 = 0"
    | (left) "oid < ID (os ! pivot)" "\<not> (oid = ID (os ! pivot) \<or> (maxIdx - minIdx) div 2 = 0)"
    | (right) "\<not> oid < ID (os ! pivot)" "\<not> (oid = ID (os ! pivot) \<or> (maxIdx - minIdx) div 2 = 0)"
    by metis
  then show ?case
  proof cases
    case stop
    then have "lo_idx os oid \<le> pivot + 1 \<and> pivot \<le> hi_idx os oid"
      using p lt le by auto
    with stop srt p show ?thesis
      by (subst findPosition_loop.simps) (simp add: scan_max_eq scan_min_eq Let_def max_def min_def)
  next
    case left
    then have "\<not> ID (os ! pivot) \<le> oid" by simp
    with le have h: "hi_idx os oid \<le> pivot" by simp
    have m: "minIdx < lo_idx os oid \<or> minIdx = 0 \<and> pivot = 0" using p(5) .
    have "findPosition_loop os oid (pivot - (pivot - minIdx) div 2) minIdx pivot =
           (int (lo_idx os oid) - 1, if hi_idx os oid = length os then -1 else int (hi_idx os oid))"
      by (rule "1.IH"(1) [OF left(2) left(1) srt]) (use p(1-4) h m lh in arith)+
    with left show ?thesis by (subst findPosition_loop.simps) simp
  next
    case right
    then have "ID (os ! pivot) < oid" by auto
    then have l: "pivot < lo_idx os oid" using lt by simp
    have len: "0 < (maxIdx - minIdx) div 2" using right(2) by simp
    have "findPosition_loop os oid (pivot + (maxIdx - pivot) div 2) pivot maxIdx =
           (int (lo_idx os oid) - 1, if hi_idx os oid = length os then -1 else int (hi_idx os oid))"
      by (rule "1.IH"(2) [OF right(2) right(1) srt]) (use p(1-4,6) l lh in arith)+
    with right show ?thesis by (subst findPosition_loop.simps) simp
  qed
qed

lemma findPosition_eq:
  assumes "opts_sorted os" "os \<noteq> []"
  shows "findPosition os oid = (int (lo_idx os oid) - 1,
           if hi_idx os oid = length os then -1 else int (hi_idx os oid))"
proof -
  have "length os = 1 \<Longrightarrow> lo_idx os oid \<le> 1"
    using idx_le_length(1) [of os oid] by simp
  then show ?thesis
    using assms idx_le_length [of os oid] unfolding findPosition_def
    by (subst findPosition_loop_eq) (auto simp: neq_Nil_conv)
qed

subsection \<open>The loops move cells\<close>

lemma shift_up_step:
  "frm < i \<Longrightarrow> shift_up xs i frm idx = shift_up (xs[i := xs ! (i - 1)]) (i - 1) frm (idx + 1)"
  "\<not> frm < i \<Longrightarrow> shift_up xs i frm idx = (xs, idx)"
  by (subst shift_up.simps; simp)+

lemma shift_up_counts:
  assumes "frm \<le> i"
  shows "length (fst (shift_up xs i frm idx)) = length xs \<and> snd (shift_up xs i frm idx) = idx + (i - frm)"
  using assms
proof (induction xs i frm idx rule: shift_up.induct)
  case (1 xs i frm idx)
  show ?case
  proof (cases "frm < i")
    case True
    then show ?thesis
      unfolding shift_up_step(1) [OF True] using "1.IH" [OF True] by simp
  next
    case False
    with "1.prems" show ?thesis by (simp add: shift_up_step(2))
  qed
qed

lemma nth_shift_up:
  assumes "i < length xs" "frm \<le> i" "k < length xs"
  shows "fst (shift_up xs i frm idx) ! k = (if frm < k \<and> k \<le> i then xs ! (k - 1) else xs ! k)"
  using assms
proof (induction xs i frm idx rule: shift_up.induct)
  case (1 xs i frm idx)
  show ?case
  proof (cases "frm < i")
    case True
    have "fst (shift_up xs i frm idx) ! k =
        (if frm < k \<and> k \<le> i - 1 then xs[i := xs ! (i - 1)] ! (k - 1) else xs[i := xs ! (i - 1)] ! k)"
      unfolding shift_up_step(1) [OF True] using "1.IH" [OF True] "1.prems" True by simp
    also have "\<dots> = (if frm < k \<and> k \<le> i then xs ! (k - 1) else xs ! k)"
      using True "1.prems" by (cases "k = i") auto
    finally show ?thesis .
  next
    case False
    with "1.prems" show ?thesis by (auto simp: shift_up_step)
  qed
qed

lemma shift_down_step:
  "i < len \<Longrightarrow> shift_down xs i len upd = shift_down (xs[upd := xs ! i]) (i + 1) len (upd + 1)"
  "\<not> i < len \<Longrightarrow> shift_down xs i len upd = (xs, upd)"
  by (subst shift_down.simps; simp)+

lemma shift_down_counts:
  assumes "i \<le> len"
  shows "length (fst (shift_down xs i len upd)) = length xs \<and> snd (shift_down xs i len upd) = upd + (len - i)"
  using assms
proof (induction xs i len upd rule: shift_down.induct)
  case (1 xs i len upd)
  show ?case
  proof (cases "i < len")
    case True
    then show ?thesis
      unfolding shift_down_step(1) [OF True] using "1.IH" [OF True] by simp
  next
    case False
    with "1.prems" show ?thesis by (simp add: shift_down_step(2))
  qed
qed

lemma nth_shift_down:
  assumes "len \<le> length xs" "upd \<le> i" "i \<le> len" "k < length xs"
  shows "fst (shift_down xs i len upd) ! k
           = (if upd \<le> k \<and> k < upd + (len - i) then xs ! (k - upd + i) else xs ! k)"
  using assms
proof (induction xs i len upd rule: shift_down.induct)
  case (1 xs i len upd)
  show ?case
  proof (cases "i < len")
    case True
    have "fst (shift_down xs i len upd) ! k =
        (if upd + 1 \<le> k \<and> k < upd + 1 + (len - (i + 1))
         then xs[upd := xs ! i] ! (k - (upd + 1) + (i + 1)) else xs[upd := xs ! i] ! k)"
      unfolding shift_down_step(1) [OF True] using "1.IH" [OF True] "1.prems" True by simp
    also have "\<dots> = (if upd \<le> k \<and> k < upd + (len - i) then xs ! (k - upd + i) else xs ! k)"
    proof (cases "upd < k")
      case below: True
      then have e: "k - (upd + 1) + (i + 1) = k - upd + i" "upd + 1 + (len - (i + 1)) = upd + (len - i)"
        and ne: "upd \<noteq> k - upd + i" "upd \<noteq> k"
        using True "1.prems" by linarith+
      show ?thesis unfolding e using below ne by auto
    next
      case False
      then show ?thesis using True "1.prems" by (cases "k = upd") auto
    qed
    finally show ?thesis .
  next
    case False
    with "1.prems" show ?thesis by (auto simp: shift_down_step)
  qed
qed

lemma insert_by_shift_up:
  assumes "frm \<le> length os"
  shows "(fst (shift_up (os @ [junk]) (length os) frm idx))[frm := opt] = take frm os @ opt # drop frm os"
proof (rule nth_equalityI)
  show "length ((fst (shift_up (os @ [junk]) (length os) frm idx))[frm := opt]) = length (take frm os @ opt # drop frm os)"
    using assms by (simp add: shift_up_counts)
  fix k assume "k < length ((fst (shift_up (os @ [junk]) (length os) frm idx))[frm := opt])"
  then have k: "k < length (os @ [junk])" using assms by (simp add: shift_up_counts)
  consider "k < frm" | "k = frm" | "frm < k" by linarith
  then show "(fst (shift_up (os @ [junk]) (length os) frm idx))[frm := opt] ! k = (take frm os @ opt # drop frm os) ! k"
  proof cases
    case 1
    with k assms show ?thesis
      by (simp add: nth_shift_up nth_append shift_up_counts)
  next
    case 2
    with assms show ?thesis by (simp add: nth_append shift_up_counts)
  next
    case 3
    with k have k': "k - 1 < length os" "k \<le> length os" "frm \<noteq> k" by auto
    have "fst (shift_up (os @ [junk]) (length os) frm idx) ! k = os ! (k - 1)"
      using 3 k k' assms by (simp add: nth_shift_up nth_append)
    moreover have "(take frm os @ opt # drop frm os) ! k = os ! (k - 1)"
      using 3 k' assms by (simp add: nth_append nth_Cons')
    ultimately show ?thesis using k' by simp
  qed
qed

lemma remove_by_shift_down:
  assumes "upd \<le> i" "i \<le> len" "len \<le> length xs"
  shows "take (upd + (len - i)) (fst (shift_down xs i len upd)) = take upd xs @ drop i (take len xs)"
proof (rule nth_equalityI)
  show "length (take (upd + (len - i)) (fst (shift_down xs i len upd))) = length (take upd xs @ drop i (take len xs))"
    using assms by (simp add: shift_down_counts)
  fix k assume "k < length (take (upd + (len - i)) (fst (shift_down xs i len upd)))"
  then have k: "k < upd + (len - i)" "k < length xs" using assms by (auto simp: shift_down_counts)
  show "take (upd + (len - i)) (fst (shift_down xs i len upd)) ! k = (take upd xs @ drop i (take len xs)) ! k"
    using k assms by (auto simp: nth_shift_down nth_append add.commute)
qed

lemma take_list_update_less: "i < n \<Longrightarrow> take n (xs[i := x]) = (take n xs)[i := x]"
  by (simp add: take_update_swap)

subsection \<open>The container operations on a sorted slice\<close>

lemma findPosition_Nil [simp]: "findPosition [] oid = (-1, 0)"
  by (simp add: findPosition_def)

lemma idx_Nil [simp]: "lo_idx [] oid = 0" "hi_idx [] oid = 0"
  by (simp_all add: lo_idx_def hi_idx_def)

lemma Options_Find_eq:
  assumes "opts_sorted os"
  shows "Options_Find os oid =
           (if lo_idx os oid = hi_idx os oid then Inl ErrOptionNotFound
            else Inr (int (lo_idx os oid), int (hi_idx os oid)))"
  using assms lo_le_hi [of os oid] idx_le_length [of os oid]
  by (cases "os = []") (auto simp: Options_Find_def findPosition_eq)

lemma Options_Add_eq:
  assumes "opts_sorted os"
  shows "Options_Add junk os opt = take (hi_idx os (ID opt)) os @ opt # drop (hi_idx os (ID opt)) os"
proof -
  let ?h = "hi_idx os (ID opt)"
  have pos: "(let (_, idxPost0) = findPosition os (ID opt) in
      if idxPost0 = -1 then length os else nat idxPost0) = ?h"
    using assms by (cases "os = []") (auto simp: findPosition_eq)
  show ?thesis
    using pos insert_by_shift_up [OF idx_le_length(2) [of os "ID opt"], of junk 0 opt]
    by (simp add: Options_Add_def case_prod_beta Let_def)
qed

lemma Options_Remove_eq:
  assumes "opts_sorted os"
  shows "Options_Remove os oid = take (lo_idx os oid) os @ drop (hi_idx os oid) os"
proof (cases "lo_idx os oid = hi_idx os oid")
  case True
  then show ?thesis
    using assms by (simp add: Options_Remove_def Options_Find_eq)
next
  case False
  have "nat (int (length os) - (int (hi_idx os oid) - int (lo_idx os oid)))
         = lo_idx os oid + (length os - hi_idx os oid)"
    using lo_le_hi [of os oid] idx_le_length [of os oid] by simp
  then show ?thesis
    using False assms remove_by_shift_down [of "lo_idx os oid" "hi_idx os oid" "length os" os]
      lo_le_hi [of os oid] idx_le_length [of os oid]
    by (simp add: Options_Remove_def Options_Remove_cells_def Options_Find_eq)
qed

lemma Options_Set_move_up:
  assumes "frm \<le> length os"
  shows "Options_Set_move os junk opt frm (Suc frm) frm = take frm os @ opt # drop frm os"
  using assms insert_by_shift_up [OF assms, of junk "Suc frm" opt]
  by (simp add: Options_Set_move_def case_prod_beta shift_up_counts)

lemma Options_Set_move_down:
  assumes "pos < frm" "frm \<le> length os"
  shows "Options_Set_move os junk opt pos (Suc pos) frm = take pos os @ opt # drop frm os"
  using assms remove_by_shift_down [of "Suc pos" frm "length os" "os @ [junk]"]
  by (auto simp: Options_Set_move_def case_prod_beta shift_down_counts take_list_update_less
      list_update_append take_Suc_conv_app_nth)

lemma Options_Set_eq:
  assumes "opts_sorted os"
  shows "Options_Set junk os opt = take (lo_idx os (ID opt)) os @ opt # drop (hi_idx os (ID opt)) os"
proof (cases "os = []")
  case True
  then show ?thesis
    using Options_Set_move_up [of 0 "[]" junk opt] by (simp add: Options_Set_def)
next
  case False
  let ?l = "lo_idx os (ID opt)" and ?h = "hi_idx os (ID opt)"
  have b: "?l \<le> ?h" "?h \<le> length os" by (rule lo_le_hi, rule idx_le_length)
  note pos = findPosition_eq [OF assms False, of "ID opt"]
  have move: "Options_Set_move os junk opt ?l (Suc ?l) ?h = take ?l os @ opt # drop ?h os"
    using b Options_Set_move_up [of ?l os junk opt] Options_Set_move_down [of ?l ?h os junk opt]
    by (cases "?l = ?h") auto
  show ?thesis
  proof (cases "?l = 0")
    case True
    then show ?thesis
      using move by (cases "?h = length os") (auto simp: Options_Set_def pos)
  next
    case l: False
    have pre: "int ?l - 1 \<noteq> -1" "int ?l - 1 \<noteq> int ?h" "int ?l - 1 \<ge> 0" "nat (int ?l - 1) + 1 = ?l"
        "nat (int ?l - 1) + 2 = Suc ?l"
      using l b by auto
    have one: "os[?l := opt] = take ?l os @ opt # drop ?h os" if "Suc ?l = ?h"
      using that b by (simp add: upd_conv_take_nth_drop)
    show ?thesis
      unfolding Options_Set_def pos Let_def case_prod_conv
      using move one pre b by auto
  qed
qed

text \<open>
  What the cells of the caller's slice show after \<open>Remove\<close>: the kept options, then the last
  \<open>hi_idx - lo_idx\<close> cells as they were.
\<close>

lemma Options_Remove_cells_eq:
  assumes "opts_sorted os"
  shows "Options_Remove_cells os oid =
           Options_Remove os oid @ drop (length os - (hi_idx os oid - lo_idx os oid)) os"
proof (cases "lo_idx os oid = hi_idx os oid")
  case True
  then show ?thesis
    using assms by (simp add: Options_Remove_def Options_Remove_cells_def Options_Find_eq)
next
  case False
  let ?l = "lo_idx os oid" and ?h = "hi_idx os oid" and ?c = "Options_Remove_cells os oid"
  have b: "?l \<le> ?h" "?h \<le> length os" by (rule lo_le_hi, rule idx_le_length)
  have c: "?c = fst (shift_down os ?h (length os) ?l)"
    using False assms by (simp add: Options_Remove_cells_def Options_Find_eq)
  have len: "length ?c = length os"
    using b by (simp add: c shift_down_counts)
  have "take (length os - (?h - ?l)) ?c = Options_Remove os oid"
    using remove_by_shift_down [of ?l ?h "length os" os] b
    by (simp add: c Options_Remove_eq [OF assms] add.commute)
  moreover have "drop (length os - (?h - ?l)) ?c = drop (length os - (?h - ?l)) os"
    using b len by (intro nth_equalityI) (auto simp: c nth_shift_down)
  ultimately show ?thesis
    by (metis append_take_drop_id)
qed

subsection \<open>The multimap the container stands for\<close>

definition vals :: "Options \<Rightarrow> u16 \<Rightarrow> bytes list" where
  "vals os oid = map Value (filter (\<lambda>o1. ID o1 = oid) os)"

lemma vals_simps [simp]:
  "vals [] oid = []"
  "vals (o1 # os) oid = (if ID o1 = oid then Value o1 # vals os oid else vals os oid)"
  "vals (xs @ ys) oid = vals xs oid @ vals ys oid"
  by (simp_all add: vals_def)

lemma opts_sorted_Nil [simp]: "opts_sorted []"
  by (simp add: opts_sorted_def)

lemma opts_sorted_Cons: "opts_sorted (o1 # os) \<longleftrightarrow> (\<forall>x \<in> set os. ID o1 \<le> ID x) \<and> opts_sorted os"
  by (simp add: opts_sorted_def)

lemma opts_sorted_append:
  "opts_sorted (xs @ ys) \<longleftrightarrow> opts_sorted xs \<and> opts_sorted ys \<and> (\<forall>x \<in> set xs. \<forall>y \<in> set ys. ID x \<le> ID y)"
  by (simp add: opts_sorted_def sorted_append)

lemma set_take_lo: "x \<in> set (take (lo_idx os oid) os) \<Longrightarrow> ID x < oid"
  unfolding lo_idx_def by (metis set_takeWhileD takeWhile_eq_take)

lemma set_take_hi: "x \<in> set (take (hi_idx os oid) os) \<Longrightarrow> ID x \<le> oid"
  unfolding hi_idx_def by (metis set_takeWhileD takeWhile_eq_take)

lemma set_drop_hi:
  assumes "opts_sorted os" "x \<in> set (drop (hi_idx os oid) os)" shows "oid < ID x"
proof -
  from assms(2) obtain i where "i < length (drop (hi_idx os oid) os)" "x = drop (hi_idx os oid) os ! i"
    unfolding in_set_conv_nth by blast
  then have i: "hi_idx os oid + i < length os" "x = os ! (hi_idx os oid + i)" by auto
  then show ?thesis
    using nth_le_hi [OF assms(1) i(1), of oid] by simp
qed

lemma set_mid:
  assumes "opts_sorted os" "x \<in> set (drop (lo_idx os oid) (take (hi_idx os oid) os))" shows "ID x = oid"
proof -
  from assms(2) obtain i where "i < length (drop (lo_idx os oid) (take (hi_idx os oid) os))"
      "x = drop (lo_idx os oid) (take (hi_idx os oid) os) ! i"
    unfolding in_set_conv_nth by blast
  then have i: "lo_idx os oid + i < length os" "lo_idx os oid + i < hi_idx os oid"
      "x = os ! (lo_idx os oid + i)"
    using lo_le_hi [of os oid] idx_le_length [of os oid] by auto
  then show ?thesis
    using nth_le_hi [OF assms(1) i(1), of oid] nth_less_lo [OF assms(1) i(1), of oid] by simp
qed

lemma split_at_idx: "os = take (lo_idx os oid) os @ drop (lo_idx os oid) (take (hi_idx os oid) os) @ drop (hi_idx os oid) os"
proof -
  have "take (lo_idx os oid) (take (hi_idx os oid) os) = take (lo_idx os oid) os"
    using lo_le_hi [of os oid] by (simp add: min_absorb1)
  then have "take (hi_idx os oid) os = take (lo_idx os oid) os @ drop (lo_idx os oid) (take (hi_idx os oid) os)"
    using append_take_drop_id [of "lo_idx os oid" "take (hi_idx os oid) os"] by simp
  then show ?thesis
    using append_take_drop_id [of "hi_idx os oid" os] append_assoc by metis
qed

lemma vals_eq_Nil: "(\<And>x. x \<in> set os \<Longrightarrow> ID x \<noteq> oid) \<Longrightarrow> vals os oid = []"
  by (auto simp: vals_def filter_empty_conv)

lemma vals_all_eq: "(\<And>x. x \<in> set os \<Longrightarrow> ID x = oid) \<Longrightarrow> vals os oid = map Value os"
  by (induction os) auto

text \<open>The three parts of a sorted container around a number.\<close>

lemma vals_take_lo: "oid \<le> x \<Longrightarrow> vals (take (lo_idx os oid) os) x = []"
  by (rule vals_eq_Nil) (auto dest!: set_take_lo)

lemma vals_drop_hi: "opts_sorted os \<Longrightarrow> x \<le> oid \<Longrightarrow> vals (drop (hi_idx os oid) os) x = []"
  by (rule vals_eq_Nil) (auto dest!: set_drop_hi)

lemma vals_split:
  assumes "opts_sorted os"
  shows "vals os x = vals (take (lo_idx os oid) os) x
           @ (if x = oid then map Value (drop (lo_idx os oid) (take (hi_idx os oid) os)) else [])
           @ vals (drop (hi_idx os oid) os) x"
proof -
  have "vals (drop (lo_idx os oid) (take (hi_idx os oid) os)) x =
      (if x = oid then map Value (drop (lo_idx os oid) (take (hi_idx os oid) os)) else [])"
    using set_mid [OF assms] by (auto intro: vals_all_eq vals_eq_Nil)
  then show ?thesis
    by (subst split_at_idx [of os oid]) (simp only: vals_simps(3))
qed

lemma vals_Add:
  assumes "opts_sorted os"
  shows "vals (Options_Add junk os opt) x = (if x = ID opt then vals os x @ [Value opt] else vals os x)"
proof -
  have "vals os x = vals (take (hi_idx os (ID opt)) os) x @ vals (drop (hi_idx os (ID opt)) os) x"
    by (metis append_take_drop_id vals_simps(3))
  then show ?thesis
    using assms by (cases "x = ID opt") (simp_all add: Options_Add_eq vals_drop_hi)
qed

lemma vals_Set:
  assumes "opts_sorted os"
  shows "vals (Options_Set junk os opt) x = (if x = ID opt then [Value opt] else vals os x)"
  using vals_split [OF assms, of x "ID opt"] assms
  by (simp add: Options_Set_eq vals_take_lo vals_drop_hi)

lemma vals_Remove:
  assumes "opts_sorted os"
  shows "vals (Options_Remove os oid) x = (if x = oid then [] else vals os x)"
  using vals_split [OF assms, of x oid] assms
  by (simp add: Options_Remove_eq vals_take_lo vals_drop_hi)

lemma opts_sorted_parts:
  assumes "opts_sorted os"
  shows "opts_sorted (take n os)" "opts_sorted (drop n os)"
  using assms by (simp_all add: opts_sorted_def sorted_wrt_take sorted_wrt_drop flip: take_map drop_map)

lemma opts_sorted_Add:
  assumes "opts_sorted os" shows "opts_sorted (Options_Add junk os opt)"
  using assms opts_sorted_parts [OF assms]
  by (fastforce simp: Options_Add_eq opts_sorted_append opts_sorted_Cons dest: set_take_hi set_drop_hi [OF assms])

lemma opts_sorted_Set:
  assumes "opts_sorted os" shows "opts_sorted (Options_Set junk os opt)"
  using assms opts_sorted_parts [OF assms]
  by (fastforce simp: Options_Set_eq opts_sorted_append opts_sorted_Cons dest: set_take_lo set_drop_hi [OF assms])

lemma opts_sorted_Remove:
  assumes "opts_sorted os" shows "opts_sorted (Options_Remove os oid)"
  using assms opts_sorted_parts [OF assms]
  by (fastforce simp: Options_Remove_eq opts_sorted_append dest: set_take_lo set_drop_hi [OF assms])

lemma Options_Find_vals:
  assumes "opts_sorted os"
  shows "Options_Find os oid = (if vals os oid = [] then Inl ErrOptionNotFound
           else Inr (int (lo_idx os oid), int (hi_idx os oid)))"
  using vals_split [OF assms, of oid oid] assms lo_le_hi [of os oid] idx_le_length [of os oid]
  by (auto simp: Options_Find_eq vals_take_lo vals_drop_hi)

lemma vals_slice:
  assumes "opts_sorted os"
  shows "map Value (drop (lo_idx os oid) (take (hi_idx os oid) os)) = vals os oid"
  using vals_split [OF assms, of oid oid] assms by (simp add: vals_take_lo vals_drop_hi)

text \<open>A sorted container is determined by the multimap it stands for.\<close>

lemma opts_sorted_ext:
  assumes "opts_sorted os" "opts_sorted os'" "\<And>oid. vals os oid = vals os' oid"
  shows "os = os'"
  using assms
proof (induction os arbitrary: os')
  case Nil
  then show ?case by (cases os') (auto dest: spec [of _ "ID (hd os')"], metis list.distinct(1) vals_simps(1,2))
next
  case (Cons o1 os)
  show ?case
  proof (cases os')
    case Nil
    then show ?thesis using Cons.prems(3) [of "ID o1"] by simp
  next
    case (Cons o2 os2)
    have le1: "ID o1 \<le> ID o2"
    proof -
      have "vals (o1 # os) (ID o2) \<noteq> []" using Cons.prems(3) [of "ID o2"] Cons by simp
      then obtain x where "x \<in> set (o1 # os)" "ID x = ID o2"
        by (metis vals_eq_Nil)
      then show ?thesis using Cons.prems(1) by (auto simp: opts_sorted_Cons)
    qed
    have le2: "ID o2 \<le> ID o1"
    proof -
      have "vals os' (ID o1) \<noteq> []" using Cons.prems(3) [of "ID o1", symmetric] by simp
      then obtain x where "x \<in> set os'" "ID x = ID o1"
        by (metis vals_eq_Nil)
      then show ?thesis using Cons.prems(2) Cons by (auto simp: opts_sorted_Cons)
    qed
    from le1 le2 have id: "ID o1 = ID o2" by simp
    then have v: "Value o1 = Value o2"
      using Cons.prems(3) [of "ID o1"] Cons by simp
    have w: "vals os oid = vals os2 oid" for oid
      using Cons.prems(3) [of oid] Cons id by (simp split: if_splits)
    have "os = os2"
      using Cons.prems Cons w by (intro Cons.IH) (auto simp: opts_sorted_Cons)
    with id v Cons show ?thesis by simp
  qed
qed

subsection \<open>The container as a store of values by option number\<close>

text \<open>
  What the rest of the library relies on: a store maps an option number to the list of its values,
  in the order they were added.  The laws say what each update does to that map; the extension
  adds that a store is determined by it.
\<close>

locale option_store =
  fixes invar :: "'s \<Rightarrow> bool" and view :: "'s \<Rightarrow> 'k \<Rightarrow> 'v list"
    and empty :: 's and add :: "'s \<Rightarrow> 'k \<Rightarrow> 'v \<Rightarrow> 's" and put :: "'s \<Rightarrow> 'k \<Rightarrow> 'v \<Rightarrow> 's"
    and remove :: "'s \<Rightarrow> 'k \<Rightarrow> 's"
  assumes invar_empty: "invar empty"
    and invar_add: "invar s \<Longrightarrow> invar (add s k v)"
    and invar_put: "invar s \<Longrightarrow> invar (put s k v)"
    and invar_remove: "invar s \<Longrightarrow> invar (remove s k)"
    and view_empty: "view empty x = []"
    and view_add: "invar s \<Longrightarrow> view (add s k v) x = (if x = k then view s x @ [v] else view s x)"
    and view_put: "invar s \<Longrightarrow> view (put s k v) x = (if x = k then [v] else view s x)"
    and view_remove: "invar s \<Longrightarrow> view (remove s k) x = (if x = k then [] else view s x)"
begin

lemma adds_all:
  assumes "invar s"
  shows "invar (foldl (\<lambda>s (k, v). add s k v) s kvs)
         \<and> view (foldl (\<lambda>s (k, v). add s k v) s kvs) x = view s x @ map snd (filter (\<lambda>(k, v). k = x) kvs)"
  using assms
proof (induction kvs arbitrary: s)
  case (Cons kv kvs)
  obtain k v where "kv = (k, v)" by (cases kv)
  then show ?case using Cons.IH [OF invar_add [OF Cons.prems]] Cons.prems by (simp add: view_add)
qed simp

lemma adds_same:
  assumes "invar s"
  shows "invar (foldl (\<lambda>s v. add s k v) s vs)
         \<and> view (foldl (\<lambda>s v. add s k v) s vs) x = (if x = k then view s x @ vs else view s x)"
  using assms
proof (induction vs arbitrary: s)
  case (Cons v vs)
  then show ?case using Cons.IH [OF invar_add [OF Cons.prems]] by (simp add: view_add)
qed simp

end

locale canonical_option_store = option_store +
  assumes view_ext: "invar s \<Longrightarrow> invar t \<Longrightarrow> (\<And>x. view s x = view t x) \<Longrightarrow> s = t"
begin

lemma put_is_remove_add: "invar s \<Longrightarrow> put s k v = add (remove s k) k v"
  by (rule view_ext) (auto simp: invar_add invar_put invar_remove view_add view_put view_remove)

lemma put_put: "invar s \<Longrightarrow> put (put s k v) k w = put s k w"
  by (rule view_ext) (auto simp: invar_put view_put)

lemma add_commute: "invar s \<Longrightarrow> k \<noteq> k' \<Longrightarrow> add (add s k v) k' w = add (add s k' w) k v"
  by (rule view_ext) (auto simp: invar_add view_add)

lemma add_remove_other: "invar s \<Longrightarrow> k \<noteq> k' \<Longrightarrow> remove (add s k v) k' = add (remove s k') k v"
  by (rule view_ext) (auto simp: invar_add invar_remove view_add view_remove)

lemma remove_absent: "invar s \<Longrightarrow> view s k = [] \<Longrightarrow> remove s k = s"
  by (rule view_ext) (auto simp: invar_remove view_remove)

lemma rebuild: "invar s \<Longrightarrow> invar t \<Longrightarrow> (\<And>x. map snd (filter (\<lambda>(k, v). k = x) kvs) = view t x) \<Longrightarrow>
    foldl (\<lambda>s (k, v). add s k v) empty kvs = t"
  using adds_all [OF invar_empty, of kvs]
  by (intro view_ext) (auto simp: view_empty)

end

text \<open>The stored cells are given back by the code's operations whatever the spare cell held.\<close>

abbreviation opt_add :: "Options \<Rightarrow> u16 \<Rightarrow> bytes \<Rightarrow> Options" where
  "opt_add os oid v \<equiv> Options_Add Opt_zero os \<lparr>ID = oid, Value = v\<rparr>"

abbreviation opt_put :: "Options \<Rightarrow> u16 \<Rightarrow> bytes \<Rightarrow> Options" where
  "opt_put os oid v \<equiv> Options_Set Opt_zero os \<lparr>ID = oid, Value = v\<rparr>"

interpretation opts: canonical_option_store opts_sorted vals "[]" opt_add opt_put Options_Remove
proof unfold_locales
  show "\<And>s t. opts_sorted s \<Longrightarrow> opts_sorted t \<Longrightarrow> (\<And>x. vals s x = vals t x) \<Longrightarrow> s = t"
    by (rule opts_sorted_ext)
qed (simp_all add: vals_Add vals_Set vals_Remove opts_sorted_Add opts_sorted_Set opts_sorted_Remove)

lemma junk_irrelevant:
  assumes "opts_sorted os"
  shows "Options_Add junk os opt = opt_add os (ID opt) (Value opt)"
    and "Options_Set junk os opt = opt_put os (ID opt) (Value opt)"
  using assms by (simp_all add: Options_Add_eq Options_Set_eq)

text \<open>
  \<open>Find\<close> on a sorted container: it reports \<open>ErrOptionNotFound\<close> exactly when no option has the
  number, and otherwise the half-open index range that holds all the options of that number
  and no others.
\<close>

lemma Options_Find_correct:
  assumes "opts_sorted os"
  shows "case Options_Find os oid of
           Inl e \<Rightarrow> e = ErrOptionNotFound \<and> (\<forall>o1 \<in> set os. ID o1 \<noteq> oid)
         | Inr (i, j) \<Rightarrow> 0 \<le> i \<and> i < j \<and> j \<le> int (length os)
             \<and> (\<forall>k < length os. ID (os ! k) = oid \<longleftrightarrow> i \<le> int k \<and> int k < j)"
proof -
  have iff: "ID (os ! k) = oid \<longleftrightarrow> lo_idx os oid \<le> k \<and> k < hi_idx os oid" if "k < length os" for k
    using nth_less_lo [OF assms that, of oid] nth_le_hi [OF assms that, of oid] by auto
  show ?thesis
  proof (cases "lo_idx os oid = hi_idx os oid")
    case True
    then show ?thesis
      using assms iff by (simp add: Options_Find_eq all_set_conv_all_nth)
  next
    case False
    then show ?thesis
      using iff assms lo_le_hi [of os oid] idx_le_length [of os oid]
      by (auto simp: Options_Find_eq)
  qed
qed

lemma Options_Find_correct_example:
  "case Options_Find [\<lparr>ID = 3, Value = [7]\<rparr>, \<lparr>ID = 11, Value = [1]\<rparr>, \<lparr>ID = 11, Value = [2]\<rparr>] 11 of
     Inl e \<Rightarrow> False
   | Inr (i, j) \<Rightarrow> i = 1 \<and> j = 3"
proof -
  let ?os = "[\<lparr>ID = 3, Value = [7]\<rparr>, \<lparr>ID = 11, Value = [1]\<rparr>, \<lparr>ID = 11, Value = [2]\<rparr>]"
  have s: "opts_sorted ?os" by (simp add: opts_sorted_def)
  show ?thesis
    using Options_Find_correct [OF s, of 11] s
    by (simp add: Options_Find_eq lo_idx_def hi_idx_def)
qed

text \<open>
  C10.  The container keeps its order and acts as a multimap from option numbers to value lists:
  \<open>Add\<close> appends to the values of its number, \<open>Set\<close> replaces them by one, \<open>Remove\<close> drops them, and
  none touches another number, whatever the spare cell of the backing array holds.
\<close>

theorem Options_refine_multimap:
  assumes "opts_sorted os"
  shows "opts_sorted (Options_Add junk os opt) \<and> opts_sorted (Options_Set junk os opt)
         \<and> opts_sorted (Options_Remove os oid)
         \<and> vals (Options_Add junk os opt) = (vals os)(ID opt := vals os (ID opt) @ [Value opt])
         \<and> vals (Options_Set junk os opt) = (vals os)(ID opt := [Value opt])
         \<and> vals (Options_Remove os oid) = (vals os)(oid := [])
         \<and> Options_Set junk os opt = Options_Add junk (Options_Remove os (ID opt)) opt"
proof -
  have "Options_Set junk os opt = opt_add (Options_Remove os (ID opt)) (ID opt) (Value opt)"
    using opts.put_is_remove_add [OF assms] by (rule trans [OF junk_irrelevant(2) [OF assms]])
  then have "Options_Set junk os opt = Options_Add junk (Options_Remove os (ID opt)) opt"
    using junk_irrelevant(1) [OF opts_sorted_Remove [OF assms], of junk "ID opt" opt] by (rule trans [OF _ sym])
  then show ?thesis
    by (intro conjI ext opts_sorted_Add opts_sorted_Set opts_sorted_Remove assms)
      (simp_all add: vals_Add vals_Set vals_Remove opts_sorted_Remove assms)
qed

theorem Options_refine_multimap_witness:
  "vals (Options_Set \<lparr>ID = 9, Value = [9]\<rparr> [\<lparr>ID = 3, Value = [7]\<rparr>, \<lparr>ID = 11, Value = [1]\<rparr>, \<lparr>ID = 11, Value = [2]\<rparr>]
      \<lparr>ID = 11, Value = [5]\<rparr>) 11 = [[5]]"
proof -
  let ?os = "[\<lparr>ID = 3, Value = [7]\<rparr>, \<lparr>ID = 11, Value = [1]\<rparr>, \<lparr>ID = 11, Value = [2]\<rparr>]"
  have "opts_sorted ?os" by (simp add: opts_sorted_def)
  from Options_refine_multimap [OF this, of "\<lparr>ID = 9, Value = [9]\<rparr>" "\<lparr>ID = 11, Value = [5]\<rparr>" 3]
  show ?thesis by (elim conjE) simp
qed

end
