(* ===== verification/Options_Access.thy ===== *)
theory Options_Access
  imports Options_Store Go_Math
begin

text \<open>
  The typed access to a container of options, the rest of \<open>message/options.go\<close> but for its wire
  format: getters and setters of bytes, strings and integers, paths as sequences of segment
  options, \<open>ResetOptionsTo\<close> and \<open>Clone\<close>.

  Go strings are their bytes.  A setter copies the value into the caller's buffer and stores the
  sub-slice of it; its result is the buffer after the writes, the options, the number of bytes
  used and the error.  The sub-slices of distinct options do not overlap, so a stored value is
  modelled by its bytes.
\<close>

type_synonym stored = "bytes \<times> Options \<times> int \<times> go_error option"

definition maxPathValue :: nat where "maxPathValue = 255"

abbreviation (input) slash :: byte where "slash \<equiv> 47"

text \<open>\<open>strings.Index\<close> and \<open>bytes.IndexByte\<close> for a single byte.\<close>

fun IndexByte :: "bytes \<Rightarrow> byte \<Rightarrow> int" where
  "IndexByte [] c = -1"
| "IndexByte (x # xs) c =
     (if x = c then 0 else let i = IndexByte xs c in if i < 0 then -1 else i + 1)"

lemma IndexByte_less: "IndexByte xs c < int (length xs)"
  by (induction xs) (auto simp: Let_def)

subsection \<open>Getters\<close>

text \<open>The options at the indices \<open>i\<close>, \dots, \<open>j - 1\<close>, in the order the loops visit them.\<close>

definition opts_between :: "Options \<Rightarrow> int \<Rightarrow> int \<Rightarrow> Options" where
  "opts_between options i j = drop (nat i) (take (nat j) options)"

definition Options_HasOption :: "Options \<Rightarrow> u16 \<Rightarrow> bool" where
  "Options_HasOption options oid =
     (case Options_Find options oid of Inl _ \<Rightarrow> False | Inr _ \<Rightarrow> True)"

fun decode_into :: "Options \<Rightarrow> u32 list \<Rightarrow> nat \<Rightarrow> u32 list \<times> nat" where
  "decode_into [] r idx = (r, idx)"
| "decode_into (o1 # os) r idx =
     (let (val, _, err) = DecodeUint32 (Value o1) in
      if err = None then decode_into os (r[idx := val]) (idx + 1) else decode_into os r idx)"

definition Options_GetUint32s :: "Options \<Rightarrow> u16 \<Rightarrow> u32 list \<Rightarrow> u32 list \<times> int \<times> go_error option" where
  "Options_GetUint32s options oid r =
     (case Options_Find options oid of
        Inl err \<Rightarrow> (r, 0, Some err)
      | Inr (firstIdx, lastIdx) \<Rightarrow>
          if int (length r) < lastIdx - firstIdx then (r, lastIdx - firstIdx, Some ErrTooSmall)
          else (let (r', idx) = decode_into (opts_between options firstIdx lastIdx) r 0
                in (r', int idx, None)))"

definition Options_GetUint32 :: "Options \<Rightarrow> u16 \<Rightarrow> u32 \<times> go_error option" where
  "Options_GetUint32 options oid =
     (case Options_Find options oid of
        Inl err \<Rightarrow> (0, Some err)
      | Inr (firstIdx, _) \<Rightarrow>
          (let (val, _, err) = DecodeUint32 (Value (options ! nat firstIdx)) in (val, err)))"

text \<open>\<open>math.CastTo[MediaType]\<close> keeps the low 16 bits (\<open>MediaType\<close> is a \<open>uint16\<close>).\<close>

definition Options_ContentFormat :: "Options \<Rightarrow> u16 \<times> go_error option" where
  "Options_ContentFormat options =
     (let (v, err) = Options_GetUint32 options ContentFormat
      in (word_of_int (CastTo (Unsigned 16) (uint v)), err))"

definition Options_Accept :: "Options \<Rightarrow> u16 \<times> go_error option" where
  "Options_Accept options =
     (let (v, err) = Options_GetUint32 options Accept
      in (word_of_int (CastTo (Unsigned 16) (uint v)), err))"

definition Options_Observe :: "Options \<Rightarrow> u32 \<times> go_error option" where
  "Options_Observe options = Options_GetUint32 options Observe"

definition Options_GetBytes :: "Options \<Rightarrow> u16 \<Rightarrow> go_error + bytes" where
  "Options_GetBytes options oid =
     (case Options_Find options oid of
        Inl err \<Rightarrow> Inl err
      | Inr (firstIdx, _) \<Rightarrow> Inr (Value (options ! nat firstIdx)))"

definition Options_GetString :: "Options \<Rightarrow> u16 \<Rightarrow> go_error + bytes" where
  "Options_GetString options oid =
     (case Options_Find options oid of
        Inl err \<Rightarrow> Inl err
      | Inr (firstIdx, _) \<Rightarrow> Inr (Value (options ! nat firstIdx)))"

fun values_into :: "Options \<Rightarrow> bytes list \<Rightarrow> nat \<Rightarrow> bytes list \<times> nat" where
  "values_into [] r idx = (r, idx)"
| "values_into (o1 # os) r idx = values_into os (r[idx := Value o1]) (idx + 1)"

definition Options_GetBytess :: "Options \<Rightarrow> u16 \<Rightarrow> bytes list \<Rightarrow> bytes list \<times> int \<times> go_error option" where
  "Options_GetBytess options oid r =
     (case Options_Find options oid of
        Inl err \<Rightarrow> (r, 0, Some err)
      | Inr (firstIdx, lastIdx) \<Rightarrow>
          if int (length r) < lastIdx - firstIdx then (r, lastIdx - firstIdx, Some ErrTooSmall)
          else (let (r', idx) = values_into (opts_between options firstIdx lastIdx) r 0
                in (r', int idx, None)))"

definition Options_GetStrings :: "Options \<Rightarrow> u16 \<Rightarrow> bytes list \<Rightarrow> bytes list \<times> int \<times> go_error option" where
  "Options_GetStrings options oid r =
     (case Options_Find options oid of
        Inl err \<Rightarrow> (r, 0, Some err)
      | Inr (firstIdx, lastIdx) \<Rightarrow>
          if int (length r) < lastIdx - firstIdx then (r, lastIdx - firstIdx, Some ErrTooSmall)
          else (let (r', idx) = values_into (opts_between options firstIdx lastIdx) r 0
                in (r', int idx, None)))"

definition Options_Queries :: "Options \<Rightarrow> go_error + bytes list" where
  "Options_Queries options =
     (let q0 = replicate 4 [];
          (q1, n1, err1) = Options_GetStrings options URIQuery q0;
          (q, n, err) =
            (if err1 = Some ErrTooSmall
             then Options_GetStrings options URIQuery (q1 @ replicate (nat (n1 - int (length q1))) [])
             else (q1, n1, err1))
      in case err of Some e \<Rightarrow> Inl e | None \<Rightarrow> Inr (take (nat n) q))"

subsection \<open>Setters\<close>

definition Options_SetBytes :: "Options \<Rightarrow> bytes \<Rightarrow> u16 \<Rightarrow> bytes \<Rightarrow> stored" where
  "Options_SetBytes options buf oid data =
     (if length buf < length data then (buf, options, int (length data), Some ErrTooSmall)
      else if oid = URIPath \<and> length data > maxPathValue then (buf, options, -1, Some ErrInvalidValueLength)
      else (let buf' = go_copy buf data
            in (buf', opt_put options oid (take (length data) buf'), int (length data), None)))"

definition Options_AddBytes :: "Options \<Rightarrow> bytes \<Rightarrow> u16 \<Rightarrow> bytes \<Rightarrow> stored" where
  "Options_AddBytes options buf oid data =
     (if length buf < length data then (buf, options, int (length data), Some ErrTooSmall)
      else if oid = URIPath \<and> length data > maxPathValue then (buf, options, -1, Some ErrInvalidValueLength)
      else (let buf' = go_copy buf data
            in (buf', opt_add options oid (take (length data) buf'), int (length data), None)))"

definition Options_SetString :: "Options \<Rightarrow> bytes \<Rightarrow> u16 \<Rightarrow> bytes \<Rightarrow> stored" where
  "Options_SetString options buf oid str = Options_SetBytes options buf oid str"

definition Options_AddString :: "Options \<Rightarrow> bytes \<Rightarrow> u16 \<Rightarrow> bytes \<Rightarrow> stored" where
  "Options_AddString options buf oid str = Options_AddBytes options buf oid str"

definition Options_SetUint32 :: "Options \<Rightarrow> bytes \<Rightarrow> u16 \<Rightarrow> u32 \<Rightarrow> stored" where
  "Options_SetUint32 options buf oid val =
     (let (buf', enc, err) = EncodeUint32 buf val in
      if err \<noteq> None then (buf', options, enc, err)
      else (buf', opt_put options oid (take (nat enc) buf'), enc, err))"

definition Options_AddUint32 :: "Options \<Rightarrow> bytes \<Rightarrow> u16 \<Rightarrow> u32 \<Rightarrow> stored" where
  "Options_AddUint32 options buf oid val =
     (let (buf', enc, err) = EncodeUint32 buf val in
      if err \<noteq> None then (buf', options, enc, err)
      else (buf', opt_add options oid (take (nat enc) buf'), enc, err))"

definition Options_SetContentFormat :: "Options \<Rightarrow> bytes \<Rightarrow> u16 \<Rightarrow> stored" where
  "Options_SetContentFormat options buf contentFormat = Options_SetUint32 options buf ContentFormat (ucast contentFormat)"

definition Options_SetObserve :: "Options \<Rightarrow> bytes \<Rightarrow> u32 \<Rightarrow> stored" where
  "Options_SetObserve options buf observe = Options_SetUint32 options buf Observe observe"

definition Options_SetAccept :: "Options \<Rightarrow> bytes \<Rightarrow> u16 \<Rightarrow> stored" where
  "Options_SetAccept options buf contentFormat = Options_SetUint32 options buf Accept (ucast contentFormat)"

subsection \<open>Paths\<close>

text \<open>The loops walk over the path from index \<open>start\<close> on; \<open>subPath\<close> is \<open>path[start:]\<close>.\<close>

function GetPathBufferSize_loop :: "bytes \<Rightarrow> int \<Rightarrow> int \<times> go_error option" where
  "GetPathBufferSize_loop subPath sz =
     (if subPath = [] then (sz, None)
      else
        (let segmentSize0 = IndexByte subPath slash in
         if segmentSize0 = 0 then GetPathBufferSize_loop (drop 1 subPath) sz
         else
           (let segmentSize = (if segmentSize0 < 0 then int (length subPath) else segmentSize0) in
            if segmentSize > int maxPathValue then (-1, Some ErrInvalidValueLength)
            else GetPathBufferSize_loop (drop (nat segmentSize + 1) subPath) (sz + segmentSize))))"
  by pat_completeness auto
termination
  by (relation "measure (\<lambda>(subPath, sz). length subPath)") auto

definition GetPathBufferSize :: "bytes \<Rightarrow> int \<times> go_error option" where
  "GetPathBufferSize path = GetPathBufferSize_loop path 0"

function setPath_loop :: "Options \<Rightarrow> u16 \<Rightarrow> bytes \<Rightarrow> bytes \<Rightarrow> int \<Rightarrow> stored" where
  "setPath_loop o1 optionID buf subPath encoded =
     (if subPath = [] then (buf, o1, encoded, None)
      else
        (let end0 = IndexByte subPath slash in
         if end0 = 0 then setPath_loop o1 optionID buf (drop 1 subPath) encoded
         else
           (let end1 = (if end0 < 0 then length subPath else nat end0);
                (data, o2, enc, err) =
                  Options_AddString o1 (drop (nat encoded) buf) optionID (take end1 subPath);
                buf2 = take (nat encoded) buf @ data
            in if err \<noteq> None then (buf2, o2, -1, err)
               else setPath_loop o2 optionID buf2 (drop (end1 + 1) subPath) (encoded + enc))))"
  by pat_completeness auto
termination
  by (relation "measure (\<lambda>(o1, optionID, buf, subPath, encoded). length subPath)") auto

declare GetPathBufferSize_loop.simps [simp del] setPath_loop.simps [simp del]

text \<open>
  \<open>Remove\<close> has already moved the cells when an error is reported, and \<open>options\<close> still has its old
  length: the caller gets the cells \<open>Remove\<close> left behind.
\<close>

definition setPath :: "Options \<Rightarrow> u16 \<Rightarrow> bytes \<Rightarrow> bytes \<Rightarrow> stored" where
  "setPath options optionID buf path0 =
     (if length path0 = 0 then (buf, options, 0, None)
      else
        (let o1 = Options_Remove options optionID;
             options' = Options_Remove_cells options optionID;
             path = (if path0 ! 0 = slash then drop 1 path0 else path0);
             (requiredSize, err) = GetPathBufferSize path
         in if err \<noteq> None then (buf, options', -1, err)
            else if requiredSize > int (length buf) then (buf, options', -1, Some ErrTooSmall)
            else setPath_loop o1 optionID buf path 0))"

definition Options_SetPath :: "Options \<Rightarrow> bytes \<Rightarrow> bytes \<Rightarrow> stored" where
  "Options_SetPath options buf path = setPath options URIPath buf path"

definition Options_SetLocationPath :: "Options \<Rightarrow> bytes \<Rightarrow> bytes \<Rightarrow> stored" where
  "Options_SetLocationPath options buf path = setPath options LocationPath buf path"

fun path_needed :: "Options \<Rightarrow> int \<Rightarrow> go_error + int" where
  "path_needed [] needed = Inr needed"
| "path_needed (o1 # os) needed =
     (if IndexByte (Value o1) slash \<ge> 0 then Inl ErrInvalidEncoding
      else path_needed os (needed + int (length (Value o1)) + 1))"

text \<open>The second loop writes at the start of \<open>buf\<close> and then moves \<open>buf\<close> on.\<close>

fun path_write :: "Options \<Rightarrow> bytes \<Rightarrow> bytes" where
  "path_write [] buf = buf"
| "path_write (o1 # os) buf =
     (let buf1 = buf[0 := slash];
          buf2 = go_copy (drop 1 buf1) (Value o1)
      in take 1 buf1 @ take (length (Value o1)) buf2 @ path_write os (drop (length (Value o1)) buf2))"

definition Options_path :: "Options \<Rightarrow> bytes \<Rightarrow> u16 \<Rightarrow> bytes \<times> int \<times> go_error option" where
  "Options_path options buf oid =
     (case Options_Find options oid of
        Inl err \<Rightarrow> (buf, -1, Some err)
      | Inr (firstIdx, lastIdx) \<Rightarrow>
          (case path_needed (opts_between options firstIdx lastIdx) 0 of
             Inl err \<Rightarrow> (buf, -1, Some err)
           | Inr needed \<Rightarrow>
               if int (length buf) < needed then (buf, needed, Some ErrTooSmall)
               else (path_write (opts_between options firstIdx lastIdx) buf, needed, None)))"

text \<open>
  \<open>utf8.Valid\<close> of the standard library: the first byte of a sequence gives its size and the range
  of its second byte, the other bytes are continuation bytes.
\<close>

definition utf8_first :: "byte \<Rightarrow> nat \<times> byte \<times> byte" where
  "utf8_first p0 =
     (if 0xC2 \<le> p0 \<and> p0 \<le> 0xDF then (2, 0x80, 0xBF)
      else if p0 = 0xE0 then (3, 0xA0, 0xBF)
      else if p0 = 0xED then (3, 0x80, 0x9F)
      else if 0xE1 \<le> p0 \<and> p0 \<le> 0xEF then (3, 0x80, 0xBF)
      else if p0 = 0xF0 then (4, 0x90, 0xBF)
      else if 0xF1 \<le> p0 \<and> p0 \<le> 0xF3 then (4, 0x80, 0xBF)
      else if p0 = 0xF4 then (4, 0x80, 0x8F)
      else (0, 0, 0))"

fun utf8_Valid :: "bytes \<Rightarrow> bool" where
  "utf8_Valid [] = True"
| "utf8_Valid (p0 # p) =
     (if p0 < 0x80 then utf8_Valid p
      else
        (let (size, lo, hi) = utf8_first p0 in
         size \<noteq> 0 \<and> size \<le> length p + 1
         \<and> lo \<le> p ! 0 \<and> p ! 0 \<le> hi
         \<and> list_all (\<lambda>c. 0x80 \<le> c \<and> c \<le> 0xBF) (drop 1 (take (size - 1) p))
         \<and> utf8_Valid (drop (size - 1) p)))"

definition Options_Path :: "Options \<Rightarrow> go_error + bytes" where
  "Options_Path options =
     (let (buf1, m1, err1) = Options_path options (go_make 32) URIPath;
          (buf, m, err) =
            (if err1 = Some ErrTooSmall then Options_path options (buf1 @ go_make (nat m1)) URIPath
             else (buf1, m1, err1))
      in case err of
           Some e \<Rightarrow> Inl e
         | None \<Rightarrow> if \<not> utf8_Valid (take (nat m) buf) then Inl ErrInvalidEncoding
                   else Inr (take (nat m) buf))"

definition Options_LocationPath :: "Options \<Rightarrow> go_error + bytes" where
  "Options_LocationPath options =
     (let (buf1, m1, err1) = Options_path options (go_make 32) LocationPath;
          (buf, m, err) =
            (if err1 = Some ErrTooSmall then Options_path options (buf1 @ go_make (nat m1)) LocationPath
             else (buf1, m1, err1))
      in case err of Some e \<Rightarrow> Inl e | None \<Rightarrow> Inr (take (nat m) buf))"

subsection \<open>Copies\<close>

text \<open>
  The options returned with \<open>ErrTooSmall\<close> are the receiver, whose cells the loop has overwritten;
  the callers start again from \<open>options[:0]\<close>, and the model returns the number of bytes only.
\<close>

fun ResetOptionsTo_loop :: "Options \<Rightarrow> bytes \<Rightarrow> Options \<Rightarrow> int \<Rightarrow> go_error \<times> int + Options \<times> int" where
  "ResetOptionsTo_loop opts buf [] used = Inr (opts, used)"
| "ResetOptionsTo_loop opts buf (o1 # os) used =
     (if length buf < length (Value o1)
      then Inl (ErrTooSmall, used + sum_list (map (\<lambda>o2. int (length (Value o2))) (o1 # os)))
      else
        (let buf1 = go_copy buf (Value o1)
         in ResetOptionsTo_loop (opt_add opts (ID o1) (take (length (Value o1)) buf1))
              (drop (length (Value o1)) buf1) os (used + int (length (Value o1)))))"

definition Options_ResetOptionsTo :: "bytes \<Rightarrow> Options \<Rightarrow> go_error \<times> int + Options \<times> int" where
  "Options_ResetOptionsTo buf in_opts = ResetOptionsTo_loop [] buf in_opts 0"

definition Options_Clone :: "Options \<Rightarrow> go_error + Options" where
  "Options_Clone options =
     (case Options_ResetOptionsTo (go_make 64) options of
        Inr (opts, _) \<Rightarrow> Inr opts
      | Inl (err, used) \<Rightarrow>
          if err = ErrTooSmall then
            (case Options_ResetOptionsTo (go_make 64 @ go_make (nat (used - 64))) options of
               Inr (opts, _) \<Rightarrow> Inr opts
             | Inl (err', _) \<Rightarrow> Inl err')
          else Inl err)"

subsection \<open>What the getters return\<close>

lemma opts_between_vals:
  assumes "opts_sorted os" "Options_Find os oid = Inr (i, j)"
  shows "map Value (opts_between os i j) = vals os oid" "vals os oid \<noteq> []"
    "0 \<le> i" "i < j" "j - i = int (length (vals os oid))" "Value (os ! nat i) = hd (vals os oid)"
proof -
  have ne: "vals os oid \<noteq> []" and ij: "i = int (lo_idx os oid)" "j = int (hi_idx os oid)"
    using assms by (auto simp: Options_Find_vals split: if_splits)
  show m: "map Value (opts_between os i j) = vals os oid"
    using vals_slice [OF assms(1), of oid] by (simp add: opts_between_def ij)
  show "vals os oid \<noteq> []" by (rule ne)
  show "0 \<le> i" by (simp add: ij)
  have len: "length (vals os oid) = hi_idx os oid - lo_idx os oid"
    using idx_le_length [of os oid] by (simp flip: m add: opts_between_def ij)
  then show "i < j" using ne by (cases "lo_idx os oid < hi_idx os oid") (simp_all add: ij)
  then show "j - i = int (length (vals os oid))"
    using len by (simp add: ij)
  have "opts_between os i j \<noteq> []" using m ne by auto
  moreover have "hd (opts_between os i j) = os ! nat i"
    using \<open>i < j\<close> idx_le_length [of os oid] by (simp add: opts_between_def ij hd_drop_conv_nth)
  ultimately show "Value (os ! nat i) = hd (vals os oid)"
    by (metis m list.map_sel(1))
qed

lemma Find_cases [consumes 1]:
  assumes "opts_sorted os"
  obtains (absent) "vals os oid = []" "Options_Find os oid = Inl ErrOptionNotFound"
  | (present) i j where "vals os oid \<noteq> []" "Options_Find os oid = Inr (i, j)"
  using Options_Find_vals [OF assms, of oid] by (cases "vals os oid = []") auto

lemma HasOption_vals: "opts_sorted os \<Longrightarrow> Options_HasOption os oid \<longleftrightarrow> vals os oid \<noteq> []"
  by (cases rule: Find_cases [of os oid]) (simp_all add: Options_HasOption_def)

lemma GetBytes_vals:
  "opts_sorted os \<Longrightarrow>
     Options_GetBytes os oid = (if vals os oid = [] then Inl ErrOptionNotFound else Inr (hd (vals os oid)))"
  by (cases rule: Find_cases [of os oid]) (simp_all add: Options_GetBytes_def opts_between_vals(6))

lemma GetString_vals:
  "opts_sorted os \<Longrightarrow>
     Options_GetString os oid = (if vals os oid = [] then Inl ErrOptionNotFound else Inr (hd (vals os oid)))"
  by (cases rule: Find_cases [of os oid]) (simp_all add: Options_GetString_def opts_between_vals(6))

lemma GetUint32_vals:
  "opts_sorted os \<Longrightarrow>
     Options_GetUint32 os oid =
       (if vals os oid = [] then (0, Some ErrOptionNotFound) else (fst (DecodeUint32 (hd (vals os oid))), None))"
  by (cases rule: Find_cases [of os oid])
    (simp_all add: Options_GetUint32_def opts_between_vals(6) DecodeUint32_def Let_def split: prod.splits)

lemma values_into_eq:
  "idx + length os \<le> length r \<Longrightarrow>
     values_into os r idx = (take idx r @ map Value os @ drop (idx + length os) r, idx + length os)"
  by (induction os r idx rule: values_into.induct)
    (simp_all add: upd_conv_take_nth_drop add.commute)

lemma DecodeUint32_no_error: "DecodeUint32 b = (v, n, err) \<Longrightarrow> err = None"
  by (simp add: DecodeUint32_def Let_def)

lemma decode_into_eq:
  "idx + length os \<le> length r \<Longrightarrow>
     decode_into os r idx =
       (take idx r @ map (\<lambda>o1. fst (DecodeUint32 (Value o1))) os @ drop (idx + length os) r, idx + length os)"
  by (induction os r idx rule: decode_into.induct)
    (auto simp: upd_conv_take_nth_drop add.commute dest: DecodeUint32_no_error split: prod.splits)

lemma GetStrings_vals:
  assumes "opts_sorted os"
  shows "Options_GetStrings os oid r =
     (if vals os oid = [] then (r, 0, Some ErrOptionNotFound)
      else if length r < length (vals os oid) then (r, int (length (vals os oid)), Some ErrTooSmall)
      else (vals os oid @ drop (length (vals os oid)) r, int (length (vals os oid)), None))"
  using assms
proof (cases rule: Find_cases [of os oid])
  case absent
  then show ?thesis by (simp add: Options_GetStrings_def)
next
  case (present i j)
  note b = opts_between_vals [OF assms present(2)]
  have len: "length (opts_between os i j) = length (vals os oid)"
    using b(1) by (metis length_map)
  show ?thesis
    using present b len by (simp add: Options_GetStrings_def values_into_eq del: of_nat_less_iff)
qed

lemma GetBytess_eq_GetStrings: "Options_GetBytess os oid r = Options_GetStrings os oid r"
  by (simp add: Options_GetBytess_def Options_GetStrings_def)

lemma GetUint32s_vals:
  assumes "opts_sorted os"
  shows "Options_GetUint32s os oid r =
     (if vals os oid = [] then (r, 0, Some ErrOptionNotFound)
      else if length r < length (vals os oid) then (r, int (length (vals os oid)), Some ErrTooSmall)
      else (map (fst \<circ> DecodeUint32) (vals os oid) @ drop (length (vals os oid)) r,
            int (length (vals os oid)), None))"
  using assms
proof (cases rule: Find_cases [of os oid])
  case absent
  then show ?thesis by (simp add: Options_GetUint32s_def)
next
  case (present i j)
  note b = opts_between_vals [OF assms present(2)]
  have len: "length (opts_between os i j) = length (vals os oid)"
    using b(1) by (metis length_map)
  have dec: "map (\<lambda>o1. fst (DecodeUint32 (Value o1))) (opts_between os i j) = map (fst \<circ> DecodeUint32) (vals os oid)"
    by (simp flip: b(1))
  show ?thesis
    using present b len dec by (simp add: Options_GetUint32s_def decode_into_eq del: of_nat_less_iff)
qed

lemma Queries_vals:
  assumes "opts_sorted os"
  shows "Options_Queries os =
     (if vals os URIQuery = [] then Inl ErrOptionNotFound else Inr (vals os URIQuery))"
  using assms
  by (cases "length (vals os URIQuery) > 4") (auto simp: Options_Queries_def GetStrings_vals Let_def)

subsection \<open>Paths are sequences of segments\<close>

fun split_slash :: "bytes \<Rightarrow> bytes list" where
  "split_slash [] = [[]]"
| "split_slash (c # cs) =
     (if c = slash then [] # split_slash cs
      else case split_slash cs of [] \<Rightarrow> [[c]] | s # ss \<Rightarrow> (c # s) # ss)"

definition path_segments :: "bytes \<Rightarrow> bytes list" where
  "path_segments path = filter (\<lambda>s. s \<noteq> []) (split_slash path)"

definition path_join :: "bytes list \<Rightarrow> bytes" where
  "path_join segs = concat (map (\<lambda>s. slash # s) segs)"

abbreviation total_len :: "bytes list \<Rightarrow> nat" where
  "total_len segs \<equiv> sum_list (map length segs)"

lemma split_slash_not_Nil [simp]: "split_slash p \<noteq> []"
  by (cases p) (auto split: list.split)

lemma split_slash_no_slash: "slash \<notin> set s \<Longrightarrow> split_slash s = [s]"
  by (induction s) auto

lemma split_slash_append: "slash \<notin> set s \<Longrightarrow> split_slash (s @ slash # p) = s # split_slash p"
  by (induction s) auto

lemma set_split_slash: "s \<in> set (split_slash p) \<Longrightarrow> slash \<notin> set s"
proof (induction p arbitrary: s)
  case (Cons c p)
  then show ?case
    by (cases "split_slash p") (auto split: if_splits)
qed simp

lemma IndexByte_absent: "IndexByte xs c < 0 \<longleftrightarrow> c \<notin> set xs"
  by (induction xs) (auto simp: Let_def)

lemma IndexByte_present: "0 \<le> IndexByte xs c \<longleftrightarrow> c \<in> set xs"
  using IndexByte_absent [of xs c] by auto

lemma IndexByte_split:
  "0 \<le> IndexByte xs c \<Longrightarrow> xs = take (nat (IndexByte xs c)) xs @ c # drop (nat (IndexByte xs c) + 1) xs
     \<and> c \<notin> set (take (nat (IndexByte xs c)) xs)"
proof (induction xs)
  case (Cons x xs)
  then show ?case
    by (cases "IndexByte xs c < 0") (auto simp: Let_def nat_add_distrib split: if_splits)
qed simp

lemma path_segments_simps [simp]:
  "path_segments [] = []" "path_segments (slash # p) = path_segments p"
  by (simp_all add: path_segments_def)

lemma path_segments_step:
  assumes "sub \<noteq> []" "IndexByte sub slash \<noteq> 0"
    "e = (if IndexByte sub slash < 0 then length sub else nat (IndexByte sub slash))"
  shows "path_segments sub = take e sub # path_segments (drop (e + 1) sub)" "e > 0" "e \<le> length sub"
proof -
  show "e > 0" "e \<le> length sub"
    using assms IndexByte_less [of sub slash] by (auto split: if_splits)
  show "path_segments sub = take e sub # path_segments (drop (e + 1) sub)"
  proof (cases "IndexByte sub slash < 0")
    case True
    then show ?thesis
      using assms by (simp add: IndexByte_absent path_segments_def split_slash_no_slash)
  next
    case False
    then have s: "sub = take e sub @ slash # drop (e + 1) sub" "slash \<notin> set (take e sub)"
      using IndexByte_split [of sub slash] assms by auto
    have "split_slash sub = take e sub # split_slash (drop (e + 1) sub)"
      by (subst s(1)) (rule split_slash_append [OF s(2)])
    then show ?thesis
      using assms \<open>e > 0\<close> by (simp add: path_segments_def)
  qed
qed

lemma path_segments_slash: "IndexByte sub slash = 0 \<Longrightarrow> path_segments sub = path_segments (drop 1 sub)"
  by (cases sub) (auto simp: Let_def split: if_splits)

lemma GetPathBufferSize_loop_eq:
  "GetPathBufferSize_loop sub sz =
     (if \<exists>s \<in> set (path_segments sub). length s > maxPathValue then (-1, Some ErrInvalidValueLength)
      else (sz + int (total_len (path_segments sub)), None))"
proof (induction sub sz rule: GetPathBufferSize_loop.induct)
  case (1 sub sz)
  let ?i = "IndexByte sub slash"
  consider (nil) "sub = []" | (slash) "sub \<noteq> []" "?i = 0" | (seg) "sub \<noteq> []" "?i \<noteq> 0" by blast
  then show ?case
  proof cases
    case nil
    then show ?thesis by (simp add: GetPathBufferSize_loop.simps)
  next
    case slash
    then show ?thesis
      using 1(1) path_segments_slash by (simp add: GetPathBufferSize_loop.simps [of sub])
  next
    case seg
    define e where "e = (if ?i < 0 then length sub else nat ?i)"
    have e: "(if ?i < 0 then int (length sub) else ?i) = int e" by (simp add: e_def)
    note st = path_segments_step [OF seg e_def]
    show ?thesis
      using 1(2) [OF seg(1) refl seg(2), OF e [symmetric]] seg st(3)
      by (subst GetPathBufferSize_loop.simps) (auto simp: e Let_def st(1) add.assoc)
  qed
qed

lemma GetPathBufferSize_eq:
  "GetPathBufferSize path =
     (if \<exists>s \<in> set (path_segments path). length s > maxPathValue then (-1, Some ErrInvalidValueLength)
      else (int (total_len (path_segments path)), None))"
  by (simp add: GetPathBufferSize_def GetPathBufferSize_loop_eq)

lemma AddString_fits:
  "length data \<le> length buf \<Longrightarrow> length data \<le> maxPathValue \<Longrightarrow>
     Options_AddString os buf oid data =
       (data @ drop (length data) buf, opt_add os oid data, int (length data), None)"
  by (simp add: Options_AddString_def Options_AddBytes_def go_copy_fits)

lemma setPath_loop_eq:
  assumes "\<forall>s \<in> set (path_segments sub). length s \<le> maxPathValue"
    "n + total_len (path_segments sub) \<le> length buf"
  shows "setPath_loop os oid buf sub (int n) =
     (take n buf @ concat (path_segments sub) @ drop (n + total_len (path_segments sub)) buf,
      foldl (\<lambda>s v. opt_add s oid v) os (path_segments sub), int (n + total_len (path_segments sub)), None)"
  using assms
proof (induction "length sub" arbitrary: sub os n buf rule: less_induct)
  case less
  let ?i = "IndexByte sub slash"
  consider (nil) "sub = []" | (slash) "sub \<noteq> []" "?i = 0" | (seg) "sub \<noteq> []" "?i \<noteq> 0" by blast
  then show ?case
  proof cases
    case nil
    then show ?thesis by (simp add: setPath_loop.simps)
  next
    case slash
    then show ?thesis
      using less.hyps [of "drop 1 sub" n buf os] less.prems path_segments_slash
      by (simp add: setPath_loop.simps [of os oid buf sub])
  next
    case seg
    define e where "e = (if ?i < 0 then length sub else nat ?i)"
    note st = path_segments_step [OF seg e_def]
    have le: "length (take e sub) = e" "e \<le> maxPathValue" "n + e \<le> length buf"
      using st less.prems by auto
    let ?buf = "take n buf @ take e sub @ drop (n + e) buf"
    have step: "setPath_loop os oid buf sub (int n) =
        setPath_loop (opt_add os oid (take e sub)) oid ?buf (drop (e + 1) sub) (int (n + e))"
      using seg le AddString_fits [of "take e sub" "drop n buf" os oid]
      by (subst setPath_loop.simps) (simp add: e_def [symmetric] Let_def add.commute)
    have ih: "setPath_loop (opt_add os oid (take e sub)) oid ?buf (drop (e + 1) sub) (int (n + e)) =
        (take (n + e) ?buf @ concat (path_segments (drop (e + 1) sub))
           @ drop (n + e + total_len (path_segments (drop (e + 1) sub))) ?buf,
         foldl (\<lambda>s v. opt_add s oid v) (opt_add os oid (take e sub)) (path_segments (drop (e + 1) sub)),
         int (n + e + total_len (path_segments (drop (e + 1) sub))), None)"
      using less.prems st le by (intro less.hyps) auto
    show ?thesis
      unfolding step ih using le st(3) by (simp add: st(1) ac_simps)
  qed
qed

lemma path_segments_leading:
  "path \<noteq> [] \<Longrightarrow> path_segments (if path ! 0 = slash then drop 1 path else path) = path_segments path"
  by (cases path) auto

lemma setPath_eq:
  assumes "path \<noteq> []"
  shows "setPath os oid buf path =
     (if \<exists>s \<in> set (path_segments path). length s > maxPathValue
      then (buf, Options_Remove_cells os oid, -1, Some ErrInvalidValueLength)
      else if total_len (path_segments path) > length buf
      then (buf, Options_Remove_cells os oid, -1, Some ErrTooSmall)
      else (concat (path_segments path) @ drop (total_len (path_segments path)) buf,
            foldl (\<lambda>s v. opt_add s oid v) (Options_Remove os oid) (path_segments path),
            int (total_len (path_segments path)), None))"
proof -
  define path' where "path' = (if path ! 0 = slash then drop 1 path else path)"
  have seg: "path_segments path = path_segments path'"
    using path_segments_leading [OF assms] by (simp add: path'_def)
  have loop: "setPath_loop (Options_Remove os oid) oid buf path' 0 =
      (concat (path_segments path') @ drop (total_len (path_segments path')) buf,
       foldl (\<lambda>s v. opt_add s oid v) (Options_Remove os oid) (path_segments path'),
       int (total_len (path_segments path')), None)"
    if "\<not> (\<exists>s \<in> set (path_segments path'). length s > maxPathValue)"
      "\<not> total_len (path_segments path') > length buf"
    using setPath_loop_eq [of path' 0 buf "Options_Remove os oid" oid] that by (simp add: not_less)
  show ?thesis
    using assms loop unfolding seg setPath_def Let_def path'_def [symmetric] GetPathBufferSize_eq
    by (cases "\<exists>s \<in> set (path_segments path'). length s > maxPathValue";
        cases "total_len (path_segments path') > length buf") simp_all
qed

lemma path_needed_eq:
  "path_needed os n =
     (if \<exists>v \<in> set (map Value os). slash \<in> set v then Inl ErrInvalidEncoding
      else Inr (n + int (length (path_join (map Value os)))))"
  by (induction os n rule: path_needed.induct)
    (simp_all add: path_join_def IndexByte_present)

lemma path_write_eq:
  "length (path_join (map Value os)) \<le> length buf \<Longrightarrow>
     path_write os buf = path_join (map Value os) @ drop (length (path_join (map Value os))) buf"
proof (induction os arbitrary: buf)
  case (Cons o1 os)
  then obtain b buf1 where "buf = b # buf1" by (cases buf) (auto simp: path_join_def)
  then show ?case
    using Cons by (simp add: path_join_def go_copy_fits add.commute)
qed (simp add: path_join_def)

lemma Options_path_eq:
  assumes "opts_sorted os"
  shows "Options_path os buf oid =
     (if vals os oid = [] then (buf, -1, Some ErrOptionNotFound)
      else if \<exists>v \<in> set (vals os oid). slash \<in> set v then (buf, -1, Some ErrInvalidEncoding)
      else if length buf < length (path_join (vals os oid))
      then (buf, int (length (path_join (vals os oid))), Some ErrTooSmall)
      else (path_join (vals os oid) @ drop (length (path_join (vals os oid))) buf,
            int (length (path_join (vals os oid))), None))"
  using assms
proof (cases rule: Find_cases [of os oid])
  case absent
  then show ?thesis by (simp add: Options_path_def)
next
  case (present i j)
  note b = opts_between_vals(1) [OF assms present(2)]
  show ?thesis
    using present path_write_eq [of "opts_between os i j" buf]
    by (simp add: Options_path_def path_needed_eq b del: set_map)
qed

lemma Options_Path_vals:
  assumes "opts_sorted os"
  shows "Options_Path os =
     (if vals os URIPath = [] then Inl ErrOptionNotFound
      else if (\<exists>v \<in> set (vals os URIPath). slash \<in> set v) \<or> \<not> utf8_Valid (path_join (vals os URIPath))
      then Inl ErrInvalidEncoding
      else Inr (path_join (vals os URIPath)))"
  using assms
  by (cases "length (path_join (vals os URIPath)) \<le> 32")
    (auto simp: Options_Path_def Options_path_eq Let_def)

lemma Options_LocationPath_vals:
  assumes "opts_sorted os"
  shows "Options_LocationPath os =
     (if vals os LocationPath = [] then Inl ErrOptionNotFound
      else if \<exists>v \<in> set (vals os LocationPath). slash \<in> set v then Inl ErrInvalidEncoding
      else Inr (path_join (vals os LocationPath)))"
  using assms
  by (cases "length (path_join (vals os LocationPath)) \<le> 32")
    (auto simp: Options_LocationPath_def Options_path_eq Let_def)

subsection \<open>Splitting valid UTF-8 at a slash gives valid UTF-8\<close>

lemma utf8_first_cases:
  "utf8_first p0 = (0, 0, 0) \<or> (\<exists>size lo hi. utf8_first p0 = (size, lo, hi) \<and> 2 \<le> size \<and> slash < lo)"
  by (simp add: utf8_first_def)

lemma utf8_Valid_slash: "utf8_Valid (a @ slash # b) \<longleftrightarrow> utf8_Valid a \<and> utf8_Valid b"
proof (induction a rule: utf8_Valid.induct)
  case (2 p0 p)
  show ?case
  proof (cases "p0 < 0x80 \<or> fst (utf8_first p0) = 0")
    case True
    then show ?thesis using 2(1) by (auto split: prod.splits)
  next
    case False
    then obtain size lo hi where f: "utf8_first p0 = (size, lo, hi)" "2 \<le> size" "slash < lo"
      using utf8_first_cases [of p0] by auto
    show ?thesis
    proof (cases "size \<le> length p + 1")
      case True
      then have p: "(p @ slash # b) ! 0 = p ! 0" "size - 1 \<le> length p"
        using f(2) by (auto simp: nth_append)
      have "utf8_Valid (drop (size - 1) p @ slash # b) \<longleftrightarrow> utf8_Valid (drop (size - 1) p) \<and> utf8_Valid b"
        using False f by (intro 2(2)) auto
      then show ?thesis
        using True False f p by simp
    next
      case short: False
      have "\<not> utf8_Valid ((p0 # p) @ slash # b)"
      proof
        assume v: "utf8_Valid ((p0 # p) @ slash # b)"
        then have c: "lo \<le> (p @ slash # b) ! 0"
            "list_all (\<lambda>c. 0x80 \<le> c \<and> c \<le> 0xBF) (drop 1 (take (size - 1) (p @ slash # b)))"
          using False f(1) by auto
        show False
        proof (cases "p = []")
          case True
          then show ?thesis using c(1) f(3) by simp
        next
          case False
          then have "slash \<in> set (drop 1 (take (size - 1) (p @ slash # b)))"
            using short by (cases p) (auto simp: take_Cons' split: if_splits)
          then have "(0x80 :: byte) \<le> slash"
            using c(2) unfolding list_all_iff by blast
          then show ?thesis by simp
        qed
      qed
      then show ?thesis
        using short False f(1) by auto
    qed
  qed
qed simp

lemma utf8_Valid_segments:
  assumes "utf8_Valid path" "s \<in> set (split_slash path)" shows "utf8_Valid s"
  using assms
proof (induction "length path" arbitrary: path rule: less_induct)
  case less
  show ?case
  proof (cases "slash \<in> set path")
    case False
    then show ?thesis using less.prems by (simp add: split_slash_no_slash)
  next
    case True
    then obtain a b where ab: "path = a @ slash # b" "slash \<notin> set a"
      by (meson split_list_first)
    then show ?thesis
      using less.prems less.hyps [of b] by (auto simp: split_slash_append utf8_Valid_slash)
  qed
qed

lemma utf8_Valid_path_join: "(\<And>s. s \<in> set segs \<Longrightarrow> utf8_Valid s) \<Longrightarrow> utf8_Valid (path_join segs)"
proof (induction segs)
  case (Cons s segs)
  show ?case
  proof (cases segs)
    case Nil
    then show ?thesis using Cons.prems by (simp add: path_join_def)
  next
    case (Cons s' segs')
    then show ?thesis
      using Cons.prems Cons.IH utf8_Valid_slash [of s "s' @ path_join segs'"]
      by (simp add: path_join_def)
  qed
qed (simp add: path_join_def)

lemma path_segments_set: "s \<in> set (path_segments path) \<Longrightarrow> s \<noteq> [] \<and> slash \<notin> set s"
  by (auto simp: path_segments_def dest: set_split_slash)

lemma setPath_success:
  assumes "opts_sorted os" "path \<noteq> []" "setPath os oid buf path = (buf', os', n, None)"
  shows "opts_sorted os'" "vals os' x = (if x = oid then path_segments path else vals os x)"
    "n = int (total_len (path_segments path))"
proof -
  have n: "n = int (total_len (path_segments path))"
    and os': "os' = foldl (\<lambda>s v. opt_add s oid v) (Options_Remove os oid) (path_segments path)"
    using assms(3) unfolding setPath_eq [OF assms(2)] by (auto split: if_splits)
  show "n = int (total_len (path_segments path))" by (rule n)
  show "opts_sorted os'" "vals os' x = (if x = oid then path_segments path else vals os x)"
    using opts.adds_same [OF opts_sorted_Remove [OF assms(1), of oid], of oid "path_segments path" x]
    by (simp_all add: os' vals_Remove assms(1))
qed

text \<open>
  C35.  \<open>SetPath\<close> replaces the path and nothing else, and \<open>Path\<close> reads it back: when \<open>SetPath\<close>
  accepts a non-empty valid UTF-8 path, the container stays sorted, the options of every other
  number are as before, and \<open>Path\<close> returns the path with one slash before each non-empty
  segment (or reports that there is none).
\<close>

theorem SetPath_roundtrip:
  assumes "opts_sorted os" "path \<noteq> []" "utf8_Valid path"
    "Options_SetPath os buf path = (buf', os', n, None)"
  shows "opts_sorted os' \<and> (\<forall>oid. oid \<noteq> URIPath \<longrightarrow> vals os' oid = vals os oid)
         \<and> vals os' URIPath = path_segments path
         \<and> Options_Path os' =
             (if path_segments path = [] then Inl ErrOptionNotFound else Inr (path_join (path_segments path)))"
proof -
  have sp: "setPath os URIPath buf path = (buf', os', n, None)"
    using assms(4) by (simp add: Options_SetPath_def)
  note ok = setPath_success [OF assms(1,2) sp]
  have "utf8_Valid (path_join (path_segments path))"
    using utf8_Valid_segments [OF assms(3)] by (intro utf8_Valid_path_join) (auto simp: path_segments_def)
  then show ?thesis
    using ok Options_Path_vals [OF ok(1)] path_segments_set by auto
qed

theorem SetPath_roundtrip_witness:
  "let (buf', os', n, err) = Options_SetPath [\<lparr>ID = 3, Value = [7]\<rparr>, \<lparr>ID = 11, Value = [9]\<rparr>] [0, 0, 0] [47, 97, 47, 98, 99]
   in err = None \<and> Options_Path os' = Inr [47, 97, 47, 98, 99] \<and> vals os' 3 = [[7]]"
proof -
  let ?os = "[\<lparr>ID = 3, Value = [7]\<rparr>, \<lparr>ID = 11, Value = [9]\<rparr>]" and ?path = "[47, 97, 47, 98, 99] :: bytes"
  have s: "opts_sorted ?os" by (simp add: opts_sorted_def)
  have seg: "path_segments ?path = [[97], [98, 99]]" "path_segments (drop 1 ?path) = [[97], [98, 99]]"
    by (simp_all add: path_segments_def)
  obtain buf' os' n where sp: "Options_SetPath ?os [0, 0, 0] ?path = (buf', os', n, None)"
    using setPath_eq [of ?path ?os URIPath "[0, 0, 0]"]
    by (simp add: Options_SetPath_def seg [simplified] maxPathValue_def)
  from SetPath_roundtrip [OF s _ _ this] show ?thesis
    by (simp add: sp seg [simplified] path_join_def)
qed

text \<open>
  When \<open>SetPath\<close> or \<open>SetLocationPath\<close> fails, the options it hands back are not the ones it
  was given: the old path is gone and, when there was one, as many cells from the end of the
  container are there twice.  The container keeps its length, so the caller cannot tell.
\<close>

lemma setPath_failure_duplicates:
  assumes "opts_sorted os" "path \<noteq> []" "setPath os oid buf path = (buf', os', n, Some e)"
  shows "n = -1 \<and> (e = ErrInvalidValueLength \<or> e = ErrTooSmall)
         \<and> os' = Options_Remove os oid @ drop (length (Options_Remove os oid)) os"
proof -
  have "length (Options_Remove os oid) = length os - (hi_idx os oid - lo_idx os oid)"
    using assms(1) idx_le_length [of os oid] lo_le_hi [of os oid] by (simp add: Options_Remove_eq)
  then show ?thesis
    using assms(3) Options_Remove_cells_eq [OF assms(1), of oid]
    unfolding setPath_eq [OF assms(2)] by (auto split: if_splits)
qed

lemma setPath_failure_duplicates_example:
  "\<exists>buf'. setPath [\<lparr>ID = 11, Value = [9]\<rparr>, \<lparr>ID = 15, Value = [1]\<rparr>] 11 [] [97] =
     (buf', [\<lparr>ID = 15, Value = [1]\<rparr>, \<lparr>ID = 15, Value = [1]\<rparr>], -1, Some ErrTooSmall)"
proof -
  let ?os = "[\<lparr>ID = 11, Value = [9]\<rparr>, \<lparr>ID = 15, Value = [1]\<rparr>]"
  have s: "opts_sorted ?os" by (simp add: opts_sorted_def)
  have "setPath ?os 11 [] [97] = ([], Options_Remove_cells ?os 11, -1, Some ErrTooSmall)"
    by (simp add: setPath_eq path_segments_def maxPathValue_def)
  moreover from setPath_failure_duplicates [OF s _ this]
  have "Options_Remove_cells ?os 11 = [\<lparr>ID = 15, Value = [1]\<rparr>, \<lparr>ID = 15, Value = [1]\<rparr>]"
    using s by (simp add: Options_Remove_eq lo_idx_def hi_idx_def)
  ultimately show ?thesis by simp
qed

subsection \<open>Typed values and copies\<close>

lemma SetUint32_eq:
  "Options_SetUint32 os buf oid v =
     (if length (uint_wire v) \<le> length buf
      then (uint_wire v @ drop (length (uint_wire v)) buf, opt_put os oid (uint_wire v), int (length (uint_wire v)), None)
      else (buf, os, int (length (uint_wire v)), Some ErrTooSmall))"
  by (simp add: Options_SetUint32_def EncodeUint32_wire)

lemma AddUint32_eq:
  "Options_AddUint32 os buf oid v =
     (if length (uint_wire v) \<le> length buf
      then (uint_wire v @ drop (length (uint_wire v)) buf, opt_add os oid (uint_wire v), int (length (uint_wire v)), None)
      else (buf, os, int (length (uint_wire v)), Some ErrTooSmall))"
  by (simp add: Options_AddUint32_def EncodeUint32_wire)

lemma SetBytes_eq:
  "Options_SetBytes os buf oid data =
     (if length buf < length data then (buf, os, int (length data), Some ErrTooSmall)
      else if oid = URIPath \<and> length data > maxPathValue then (buf, os, -1, Some ErrInvalidValueLength)
      else (data @ drop (length data) buf, opt_put os oid data, int (length data), None))"
  by (simp add: Options_SetBytes_def Let_def go_copy_fits)

lemma AddBytes_eq:
  "Options_AddBytes os buf oid data =
     (if length buf < length data then (buf, os, int (length data), Some ErrTooSmall)
      else if oid = URIPath \<and> length data > maxPathValue then (buf, os, -1, Some ErrInvalidValueLength)
      else (data @ drop (length data) buf, opt_add os oid data, int (length data), None))"
  by (simp add: Options_AddBytes_def Let_def go_copy_fits)

lemma ResetOptionsTo_loop_eq:
  "ResetOptionsTo_loop opts buf os used =
     (if total_len (map Value os) \<le> length buf
      then Inr (foldl (\<lambda>s (k, v). opt_add s k v) opts (map (\<lambda>o1. (ID o1, Value o1)) os),
                used + int (total_len (map Value os)))
      else Inl (ErrTooSmall, used + int (total_len (map Value os))))"
proof (induction opts buf os used rule: ResetOptionsTo_loop.induct)
  case (2 opts buf o1 os used)
  have i: "sum_list (map (\<lambda>o2. int (length (Value o2))) os) = int (total_len (map Value os))"
    by (induction os) auto
  show ?case
    using 2 i by (auto simp: go_copy_fits)
qed simp

lemma rebuild_sorted:
  assumes "opts_sorted os"
  shows "foldl (\<lambda>s (k, v). opt_add s k v) [] (map (\<lambda>o1. (ID o1, Value o1)) os) = os"
  by (rule opts.rebuild [OF opts_sorted_Nil assms]) (simp add: vals_def filter_map o_def)

lemma ResetOptionsTo_eq:
  "opts_sorted os \<Longrightarrow> Options_ResetOptionsTo buf os =
     (if total_len (map Value os) \<le> length buf then Inr (os, int (total_len (map Value os)))
      else Inl (ErrTooSmall, int (total_len (map Value os))))"
  by (simp add: Options_ResetOptionsTo_def ResetOptionsTo_loop_eq rebuild_sorted)

text \<open>
  Typed values: what \<open>SetUint32\<close>, \<open>SetBytes\<close> and \<open>SetPath\<close>'s companions store is what the
  getters return, and the setters leave all other option numbers alone.  \<open>SetUint32\<close> can only
  fail for want of four bytes of buffer.
\<close>

lemma typed_set_get:
  assumes "opts_sorted os" "4 \<le> length buf" "length data \<le> length buf" "length data \<le> maxPathValue"
  shows "\<exists>buf1 os1 n1 buf2 os2 n2.
           Options_SetUint32 os buf oid v = (buf1, os1, n1, None)
         \<and> Options_GetUint32 os1 oid = (v, None) \<and> opts_sorted os1
         \<and> Options_SetBytes os buf oid data = (buf2, os2, n2, None)
         \<and> Options_GetBytes os2 oid = Inr data \<and> opts_sorted os2
         \<and> (\<forall>x. x \<noteq> oid \<longrightarrow> vals os1 x = vals os x \<and> vals os2 x = vals os x)"
proof -
  have "length (uint_wire v) \<le> length buf"
    using assms(2) by (simp add: length_uint_wire)
  then show ?thesis
    using assms by (simp add: SetUint32_eq SetBytes_eq opts_sorted_Set vals_Set GetUint32_vals GetBytes_vals
        DecodeUint32_uint_wire)
qed

lemma typed_set_get_example:
  "\<exists>buf1 os1 n1. Options_SetUint32 [\<lparr>ID = 3, Value = [7]\<rparr>] [0, 0, 0, 0] 12 300 = (buf1, os1, n1, None)
     \<and> Options_GetUint32 os1 12 = (300, None)"
proof -
  have "opts_sorted [\<lparr>ID = 3, Value = [7]\<rparr>]" by (simp add: opts_sorted_def)
  from typed_set_get [OF this, of "[0, 0, 0, 0]" "[]" 12 300] show ?thesis
    by (auto simp: maxPathValue_def)
qed

text \<open>
  \<open>Clone\<close> of a sorted container never fails and is equal to it, whatever the sizes of its
  values; \<open>ResetOptionsTo\<close> needs exactly the sum of the value lengths as buffer.
\<close>

lemma Options_Clone_equal:
  assumes "opts_sorted os"
  shows "Options_Clone os = Inr os
         \<and> Options_ResetOptionsTo buf os =
             (if sum_list (map (length \<circ> Value) os) \<le> length buf
              then Inr (os, int (sum_list (map (length \<circ> Value) os)))
              else Inl (ErrTooSmall, int (sum_list (map (length \<circ> Value) os))))"
  using assms by (simp add: Options_Clone_def ResetOptionsTo_eq)

lemma Options_Clone_equal_example:
  "Options_Clone [\<lparr>ID = 3, Value = replicate 100 7\<rparr>, \<lparr>ID = 11, Value = [9]\<rparr>]
     = Inr [\<lparr>ID = 3, Value = replicate 100 7\<rparr>, \<lparr>ID = 11, Value = [9]\<rparr>]"
  using Options_Clone_equal [of "[\<lparr>ID = 3, Value = replicate 100 7\<rparr>, \<lparr>ID = 11, Value = [9]\<rparr>]" "[]"]
  by (simp add: opts_sorted_def)

end
