(* ===== verification/Options_Wire.thy ===== *)
theory Options_Wire
  imports Options_Access
begin

text \<open>
  A container of options on the wire: \<open>Options.Marshal\<close> and \<open>Options.Unmarshal\<close> of
  \<open>message/options.go\<close>.  \<open>Unmarshal\<close> appends to the receiver and never grows it beyond its
  capacity; the model takes the receiver and its capacity and returns the receiver after the call
  with the result, since the receiver is changed on the error paths as well.
\<close>

subsection \<open>Writing\<close>

fun Options_Marshal_loop :: "Options \<Rightarrow> buffer \<Rightarrow> u16 \<Rightarrow> int \<Rightarrow> marshalled" where
  "Options_Marshal_loop [] buf previousID len =
     (case buf of None \<Rightarrow> (None, len, Some ErrTooSmall) | Some b \<Rightarrow> (Some b, len, None))"
| "Options_Marshal_loop (o1 # os) buf0 previousID len =
     (let buf1 = (if len > int (blen buf0) then None else buf0);
          (buf2, optionLength, err) = on_tail (nat len) buf1 (\<lambda>b. Option_Marshal o1 b previousID)
      in if err \<noteq> None \<and> err \<noteq> Some ErrTooSmall then (None, -1, err)
         else Options_Marshal_loop os (if err = None then buf2 else None) (ID o1) (len + optionLength))"

definition Options_Marshal :: "Options \<Rightarrow> buffer \<Rightarrow> marshalled" where
  "Options_Marshal options buf = Options_Marshal_loop options buf 0 0"

subsection \<open>Reading\<close>

function Options_Unmarshal_loop ::
    "Options \<Rightarrow> nat \<Rightarrow> bytes \<Rightarrow> (u16 \<times> OptionDef) list \<Rightarrow> int \<Rightarrow> int \<Rightarrow> Options \<times> (go_error + int)" where
  "Options_Unmarshal_loop options capacity data0 optionDefs prev processed =
     (if data0 = [] then (options, Inr processed)
      else if data0 ! 0 = 0xff then
        (if length data0 = 1 then (options, Inl ErrPayloadMarkerWithoutPayload)
         else (options, Inr (processed + 1)))
      else
        (let delta0 = uint (drop_bit 4 (data0 ! 0));
             length0 = uint (data0 ! 0 AND 0x0f);
             data1 = drop 1 data0
         in if delta0 = ExtendOptionError \<or> length0 = ExtendOptionError
            then (options, Inl ErrOptionUnexpectedExtendMarker)
            else case parseExtOpt data1 delta0 of
              Inl err \<Rightarrow> (options, Inl err)
            | Inr (proc1, delta) \<Rightarrow>
                case parseExtOpt (drop proc1 data1) length0 of
                  Inl err \<Rightarrow> (options, Inl err)
                | Inr (proc2, len) \<Rightarrow>
                    let data3 = drop proc2 (drop proc1 data1) in
                    if int (length data3) < len then (options, Inl ErrOptionTruncated)
                    else case SafeCastTo (Unsigned 16) (prev + delta) of
                      Inl _ \<Rightarrow> (options, Inl ErrOptionNotFound)
                    | Inr oid \<Rightarrow>
                        let (opt, proc3) =
                              Option_Unmarshal Opt_zero (take (nat len) data3) optionDefs (word_of_int oid)
                        in if capacity = length options then (options, Inl ErrOptionsTooSmall)
                           else Options_Unmarshal_loop
                                  (if ID opt \<noteq> 0 then options @ [opt] else options) capacity
                                  (drop proc3 data3) optionDefs oid
                                  (processed + 1 + int proc1 + int proc2 + int proc3)))"
  by pat_completeness auto
termination
  by (relation "measure (\<lambda>(options, capacity, data, defs, prev, processed). length data)") auto

declare Options_Unmarshal_loop.simps [simp del]

definition Options_Unmarshal ::
    "Options \<Rightarrow> nat \<Rightarrow> bytes \<Rightarrow> (u16 \<times> OptionDef) list \<Rightarrow> Options \<times> (go_error + int)" where
  "Options_Unmarshal options capacity data optionDefs =
     Options_Unmarshal_loop options capacity data optionDefs 0 0"

subsection \<open>The bytes a container is written as\<close>

fun opts_wire :: "Options \<Rightarrow> u16 \<Rightarrow> bytes" where
  "opts_wire [] previousID = []"
| "opts_wire (o1 # os) previousID = option_wire o1 previousID @ opts_wire os (ID o1)"

lemma Options_Marshal_loop_None:
  "0 \<le> n \<Longrightarrow> Options_Marshal_loop os None prev n = (None, n + int (length (opts_wire os prev)), Some ErrTooSmall)"
  by (induction os arbitrary: prev n) (simp_all add: Option_Marshal_writes)

lemma Options_Marshal_loop_writes:
  "Options_Marshal_loop os (Some (w @ rest)) prev (int (length w)) =
     (if length (opts_wire os prev) \<le> length rest
      then (Some (w @ opts_wire os prev @ drop (length (opts_wire os prev)) rest),
            int (length w + length (opts_wire os prev)), None)
      else (None, int (length w + length (opts_wire os prev)), Some ErrTooSmall))"
proof (induction os arbitrary: prev w rest)
  case (Cons o1 os)
  let ?v = "option_wire o1 prev"
  have tail: "on_tail (length w) (Some (w @ rest)) (\<lambda>b. Option_Marshal o1 b prev) =
      (if length ?v \<le> length rest then (Some (w @ ?v @ drop (length ?v) rest), int (length ?v), None)
       else (None, int (length ?v), Some ErrTooSmall))"
    by (simp add: on_tail_def Option_Marshal_writes writes_Some)
  show ?case
  proof (cases "length ?v \<le> length rest")
    case True
    then show ?thesis
      using Cons.IH [of "w @ ?v" "drop (length ?v) rest" "ID o1"] by (simp add: tail le_diff_conv2 add.commute)
  next
    case False
    then show ?thesis
      by (simp add: tail Options_Marshal_loop_None)
  qed
qed simp

lemma Options_Marshal_writes: "Options_Marshal os buf = writes (opts_wire os 0) buf"
  using Options_Marshal_loop_writes [of os "[]" _ 0]
  by (cases buf) (simp_all add: Options_Marshal_def Options_Marshal_loop_None writes_Some)

subsection \<open>Reading back what was written\<close>

text \<open>
  The options \<open>Unmarshal\<close> keeps: those with a number other than 0 that the definitions do not
  reject for an unknown format or, for even numbers, for their length.
\<close>

definition kept :: "(u16 \<times> OptionDef) list \<Rightarrow> Opt \<Rightarrow> bool" where
  "kept defs o1 \<longleftrightarrow> ID o1 \<noteq> 0 \<and>
     (case map_of defs (ID o1) of
        None \<Rightarrow> True
      | Some def \<Rightarrow> ValFormat def \<noteq> ValueUnknown \<and>
          (MinLen def \<le> of_nat (length (Value o1)) \<and> of_nat (length (Value o1)) \<le> MaxLen def
           \<or> ID o1 mod 2 \<noteq> 0))"

lemma Option_Unmarshal_kept:
  "Option_Unmarshal Opt_zero (Value o1) defs (ID o1) =
     (if kept defs o1 then (o1, length (Value o1))
      else (if ID o1 = 0 then fst (Option_Unmarshal Opt_zero (Value o1) defs 0) else Opt_zero, length (Value o1)))"
  by (auto simp: Option_Unmarshal_def kept_def Let_def not_less split: option.splits)

lemma Option_Unmarshal_ID_0: "ID (fst (Option_Unmarshal Opt_zero data defs 0)) = 0"
  by (simp add: Option_Unmarshal_def Let_def split: option.splits)

lemma option_wire_Cons:
  obtains d l dx lx where
    "extendOpt (uint (ID o1) - uint prev) = (d, dx)" "extendOpt (int (length (Value o1))) = (l, lx)"
    "option_wire o1 prev = (word_of_int (push_bit 4 d) OR word_of_int l) # ext_wire d dx @ ext_wire l lx @ Value o1"
  by (cases "extendOpt (uint (ID o1) - uint prev)"; cases "extendOpt (int (length (Value o1)))")
    (simp add: option_wire_def header_wire_def)

lemma SafeCastTo_id: "SafeCastTo (Unsigned 16) (uint (x :: u16)) = Inr (uint x)"
proof -
  have "- 9223372036854775808 \<le> uint x" by (rule order_trans [OF _ uint_ge_0]) simp
  then show ?thesis
    using uint_lt2p [of x] SafeCastTo_Unsigned [of 16 "uint x"] by (simp add: machine_int_def)
qed

lemma Options_Unmarshal_step:
  assumes "prev \<le> ID o1" "int (length (Value o1)) \<le> max_extended"
  shows "Options_Unmarshal_loop os c (option_wire o1 prev @ rest) defs (uint prev) n =
     (if c = length os then (os, Inl ErrOptionsTooSmall)
      else Options_Unmarshal_loop (if kept defs o1 then os @ [o1] else os) c rest defs (uint (ID o1))
             (n + int (length (option_wire o1 prev))))"
proof -
  obtain d l dx lx where e: "extendOpt (uint (ID o1) - uint prev) = (d, dx)"
      "extendOpt (int (length (Value o1))) = (l, lx)"
      and w: "option_wire o1 prev = (word_of_int (push_bit 4 d) OR word_of_int l) # ext_wire d dx @ ext_wire l lx @ Value o1"
    by (rule option_wire_Cons)
  let ?h = "word_of_int (push_bit 4 d) OR word_of_int l :: byte"
  have "uint prev \<le> uint (ID o1)" "uint (ID o1) < 65536" "0 \<le> uint prev"
    using assms(1) uint_lt2p [of "ID o1"] by (simp_all add: word_le_def)
  then have delta: "0 \<le> uint (ID o1) - uint prev" "uint (ID o1) - uint prev \<le> max_extended"
    unfolding max_extended_def by linarith+
  have dl: "0 \<le> d" "d < 15" "0 \<le> l" "l < 15"
    using extendOpt_nibble [OF delta(1)] extendOpt_nibble [of "int (length (Value o1))"] e by auto
  then have nib: "uint (drop_bit 4 ?h) = d" "uint (?h AND 15) = l"
    using nibbles [of d l] by auto
  have "?h \<noteq> 0xff"
  proof
    assume "?h = 0xff"
    then have "uint (drop_bit 4 (0xff :: byte)) = d" using nib(1) by simp
    then show False using dl by (simp add: drop_bit_eq_div)
  qed
  moreover have "parseExtOpt (ext_wire d dx @ ext_wire l lx @ Value o1 @ rest) d =
      Inr (length (ext_wire d dx), uint (ID o1) - uint prev)"
    using delta e(1) by (rule parseExtOpt_ext_wire)
  moreover have "parseExtOpt (ext_wire l lx @ Value o1 @ rest) l = Inr (length (ext_wire l lx), int (length (Value o1)))"
    using assms(2) e(2) by (intro parseExtOpt_ext_wire) auto
  ultimately show ?thesis
    using dl nib
    by (subst Options_Unmarshal_loop.simps)
      (auto simp: w Let_def ExtendOptionError_def SafeCastTo_id Option_Unmarshal_kept Option_Unmarshal_ID_0
        kept_def ac_simps)
qed

definition wire_ok :: "Options \<Rightarrow> bool" where
  "wire_ok os \<longleftrightarrow> opts_sorted os \<and> (\<forall>o1 \<in> set os. int (length (Value o1)) \<le> max_extended)"

lemma Options_Unmarshal_loop_wire:
  assumes "wire_ok os" "\<forall>o1 \<in> set os. prev \<le> ID o1" "\<forall>o1 \<in> set os. kept defs o1"
    "length acc + length os \<le> c"
  shows "Options_Unmarshal_loop acc c (opts_wire os prev @ rest) defs (uint prev) n =
     Options_Unmarshal_loop (acc @ os) c rest defs (uint (if os = [] then prev else ID (last os)))
       (n + int (length (opts_wire os prev)))"
  using assms
proof (induction os arbitrary: acc prev n)
  case (Cons o1 os)
  have "wire_ok os" "\<forall>o2 \<in> set os. ID o1 \<le> ID o2"
    using Cons.prems(1) by (auto simp: wire_ok_def opts_sorted_Cons)
  then show ?case
    using Cons.IH [of "ID o1" "acc @ [o1]" "n + int (length (option_wire o1 prev))"] Cons.prems
    by (simp add: Options_Unmarshal_step wire_ok_def add.assoc)
qed simp

text \<open>A receiver that is too small is filled up and reported.\<close>

lemma Options_Unmarshal_loop_full:
  assumes "wire_ok os" "\<forall>o1 \<in> set os. prev \<le> ID o1" "\<forall>o1 \<in> set os. kept defs o1"
    "length acc \<le> c" "c < length acc + length os"
  shows "Options_Unmarshal_loop acc c (opts_wire os prev @ rest) defs (uint prev) n =
     (acc @ take (c - length acc) os, Inl ErrOptionsTooSmall)"
  using assms
proof (induction os arbitrary: acc prev n)
  case (Cons o1 os)
  have o: "wire_ok os" "\<forall>o2 \<in> set os. ID o1 \<le> ID o2" "int (length (Value o1)) \<le> max_extended"
    using Cons.prems(1) by (auto simp: wire_ok_def opts_sorted_Cons)
  show ?case
  proof (cases "c = length acc")
    case True
    then show ?thesis using o Cons.prems by (simp add: Options_Unmarshal_step)
  next
    case False
    then have "Options_Unmarshal_loop (acc @ [o1]) c (opts_wire os (ID o1) @ rest) defs (uint (ID o1))
        (n + int (length (option_wire o1 prev))) = ((acc @ [o1]) @ take (c - length (acc @ [o1])) os, Inl ErrOptionsTooSmall)"
      using Cons.prems o by (intro Cons.IH) auto
    then show ?thesis
      using False o Cons.prems by (simp add: Options_Unmarshal_step take_Cons')
  qed
qed simp

lemma Options_Unmarshal_wire:
  assumes "wire_ok os" "\<forall>o1 \<in> set os. kept defs o1" "tail = [] \<or> (\<exists>payload. tail = 0xff # payload \<and> payload \<noteq> [])"
  shows "Options_Unmarshal [] c (opts_wire os 0 @ tail) defs =
     (if length os \<le> c
      then (os, Inr (int (length (opts_wire os 0)) + (if tail = [] then 0 else 1)))
      else (take c os, Inl ErrOptionsTooSmall))"
proof (cases "length os \<le> c")
  case True
  have "Options_Unmarshal_loop os c tail defs prev n = (os, Inr (n + (if tail = [] then 0 else 1)))" for prev n
    using assms(3) by (subst Options_Unmarshal_loop.simps) auto
  then show ?thesis
    using Options_Unmarshal_loop_wire [of os 0 defs "[]" c tail 0] assms(1,2) True
    by (simp add: Options_Unmarshal_def)
next
  case False
  then show ?thesis
    using Options_Unmarshal_loop_full [of os 0 defs "[]" c tail 0] assms(1,2)
    by (simp add: Options_Unmarshal_def)
qed

subsection \<open>What is read from arbitrary bytes\<close>

lemma parseExtOpt_bounds:
  assumes "parseExtOpt data opt = Inr (k, n)" "0 \<le> opt" "opt < 256"
  shows "0 \<le> n" "k \<le> length data" "n \<le> max_extended"
proof -
  have "uint (Uint16 (take 2 data)) < 65536" "uint (data ! 0) < 256"
    using uint_lt2p [of "Uint16 (take 2 data)"] uint_lt2p [of "data ! 0"] by simp_all
  then show "0 \<le> n" "k \<le> length data" "n \<le> max_extended"
    using assms by (auto simp: parseExtOpt_def extend_consts max_extended_def Suc_le_eq split: if_splits)
qed

text \<open>One round of the loop that goes on to the next option.\<close>

lemma Options_Unmarshal_loop_cases:
  assumes "data \<noteq> []" "data ! 0 \<noteq> 0xff" "0 \<le> prev" "prev < 65536"
  obtains (error) e where "Options_Unmarshal_loop os c data defs prev n = (os, Inl e)"
  | (next_option) oid :: u16 and k len :: nat where "prev \<le> uint oid" "0 < k" "k + len \<le> length data" "c \<noteq> length os" "int len \<le> max_extended"
      "Options_Unmarshal_loop os c data defs prev n =
         Options_Unmarshal_loop
           (if kept defs \<lparr>ID = oid, Value = take len (drop k data)\<rparr>
            then os @ [\<lparr>ID = oid, Value = take len (drop k data)\<rparr>] else os)
           c (drop (k + len) data) defs (uint oid) (n + int (k + len))"
proof -
  let ?d0 = "uint (drop_bit 4 (data ! 0))" and ?l0 = "uint (data ! 0 AND 0x0f)"
  show thesis
  proof (cases "\<exists>e. Options_Unmarshal_loop os c data defs prev n = (os, Inl e)")
    case True
    then show thesis using error by blast
  next
    case False
    have nb: "?d0 < 256" "?l0 < 256"
      using uint_lt2p [of "drop_bit 4 (data ! 0)"] uint_lt2p [of "data ! 0 AND 0x0f"] by simp_all
    from False obtain p1 delta p2 len oid where
      p: "parseExtOpt (drop 1 data) ?d0 = Inr (p1, delta)"
        "parseExtOpt (drop p1 (drop 1 data)) ?l0 = Inr (p2, len)"
        "\<not> int (length (drop p2 (drop p1 (drop 1 data)))) < len"
        "SafeCastTo (Unsigned 16) (prev + delta) = Inr oid" "c \<noteq> length os"
        "\<not> (?d0 = ExtendOptionError \<or> ?l0 = ExtendOptionError)"
      using assms(1,2)
      by (subst (asm) Options_Unmarshal_loop.simps)
        (auto simp: Let_def split: sum.splits prod.splits if_splits)
    note b1 = parseExtOpt_bounds [OF p(1) uint_ge_0 nb(1)]
    note b2 = parseExtOpt_bounds [OF p(2) uint_ge_0 nb(2)]
    have "machine_int (prev + delta)"
      using assms(3,4) b1(1,3) by (auto simp: machine_int_def max_extended_def)
    then have oid: "oid = prev + delta" "0 \<le> oid" "oid < 65536"
      using p(4) SafeCastTo_Unsigned [of 16 "prev + delta"] by (auto split: if_splits)
    define o1 where "o1 = \<lparr>ID = word_of_int oid, Value = take (nat len) (drop (1 + p1 + p2) data)\<rparr>"
    have u: "uint (word_of_int oid :: u16) = oid"
      using oid(2,3) by (simp add: uint_word_of_int)
    have lens: "1 + p1 + p2 + nat len \<le> length data"
      using p(3) b1 b2 assms(1) by (cases data) auto
    have val: "length (Value o1) = nat len" using lens by (simp add: o1_def)
    show thesis
    proof (rule next_option)
      show "prev \<le> uint (word_of_int oid :: u16)" using u oid b1(1) by simp
      show "0 < 1 + p1 + p2" by simp
      show "1 + p1 + p2 + nat len \<le> length data" by (rule lens)
      show "c \<noteq> length os" by (rule p(5))
      show "int (nat len) \<le> max_extended" using b2(1,3) by simp
      show "Options_Unmarshal_loop os c data defs prev n =
         Options_Unmarshal_loop
           (if kept defs \<lparr>ID = word_of_int oid, Value = take (nat len) (drop (1 + p1 + p2) data)\<rparr>
            then os @ [\<lparr>ID = word_of_int oid, Value = take (nat len) (drop (1 + p1 + p2) data)\<rparr>] else os)
           c (drop (1 + p1 + p2 + nat len) data) defs (uint (word_of_int oid :: u16)) (n + int (1 + p1 + p2 + nat len))"
        using assms(1,2) p u Option_Unmarshal_kept [of o1 defs] Option_Unmarshal_ID_0 val
        by (subst Options_Unmarshal_loop.simps)
          (auto simp: Let_def o1_def ac_simps kept_def)
    qed
  qed
qed

text \<open>Where reading stopped: at the end of the data, or just behind a marker that payload follows.\<close>

definition stops_at :: "bytes \<Rightarrow> int \<Rightarrow> bool" where
  "stops_at data m \<longleftrightarrow> m = int (length data) \<or> 0 < m \<and> m < int (length data) \<and> data ! nat (m - 1) = 0xff"

lemma stops_at_drop: "k \<le> length data \<Longrightarrow> 0 \<le> m \<Longrightarrow> stops_at (drop k data) m \<Longrightarrow> stops_at data (int k + m)"
  by (auto simp: stops_at_def nat_add_distrib nat_diff_distrib' algebra_simps)

lemma Options_Unmarshal_loop_end:
  "data = [] \<or> data ! 0 = 0xff \<Longrightarrow> Options_Unmarshal_loop os c data defs prev n =
     (os, if data = [] then Inr n else if length data = 1 then Inl ErrPayloadMarkerWithoutPayload else Inr (n + 1))"
  by (cases "data = []") (subst Options_Unmarshal_loop.simps, simp)+

lemma Options_Unmarshal_loop_safe:
  assumes "wire_ok os" "\<forall>o1 \<in> set os. uint (ID o1) \<le> prev" "0 \<le> prev" "prev < 65536"
    "\<forall>o1 \<in> set os. kept defs o1" "length os \<le> c"
    "Options_Unmarshal_loop os c data defs prev n = (os', r)"
  shows "wire_ok os' \<and> (\<forall>o1 \<in> set os'. kept defs o1) \<and> length os' \<le> c
         \<and> (\<forall>m. r = Inr m \<longrightarrow> n \<le> m \<and> stops_at data (m - n))"
  using assms
proof (induction "length data" arbitrary: os data prev n rule: less_induct)
  case less
  show ?case
  proof (cases "data = [] \<or> data ! 0 = 0xff")
    case True
    then show ?thesis
      using less.prems Options_Unmarshal_loop_end [OF True, of os c defs prev n]
      by (cases data) (auto simp: stops_at_def split: if_splits)
  next
    case False
    from False less.prems(3,4) have f: "data \<noteq> []" "data ! 0 \<noteq> 0xff" "0 \<le> prev" "prev < 65536" by auto
    show ?thesis
    proof (cases rule: Options_Unmarshal_loop_cases [OF f, of os c defs n, case_names error next_option])
      case (error e)
      then show ?thesis using less.prems by auto
    next
      case (next_option oid k len)
      let ?o = "\<lparr>ID = oid, Value = take len (drop k data)\<rparr>"
      let ?os = "if kept defs ?o then os @ [?o] else os"
      have le: "uint (ID x) \<le> uint oid" if "x \<in> set os" for x
        using less.prems(2) next_option(1) that by (meson order_trans)
      have s: "wire_ok ?os"
        using less.prems(1) le next_option(5) next_option(3)
        by (auto simp: wire_ok_def opts_sorted_append opts_sorted_Cons word_le_def)
      have b: "\<forall>o1 \<in> set ?os. uint (ID o1) \<le> uint oid" "uint oid < 65536"
        using le uint_lt2p [of oid] by simp_all
      have l: "length ?os \<le> c" using less.prems(6) next_option(4) by simp
      have k: "\<forall>o1 \<in> set ?os. kept defs o1" using less.prems(5) by simp
      have d: "length (drop (k + len) data) < length data" using next_option(2,3) by simp
      have r: "Options_Unmarshal_loop ?os c (drop (k + len) data) defs (uint oid) (n + int (k + len)) = (os', r)"
        using less.prems(7) unfolding next_option(6) .
      have ih: "wire_ok os' \<and> (\<forall>o1 \<in> set os'. kept defs o1) \<and> length os' \<le> c
         \<and> (\<forall>m. r = Inr m \<longrightarrow> n + int (k + len) \<le> m \<and> stops_at (drop (k + len) data) (m - (n + int (k + len))))"
        by (rule less.hyps [OF d s b(1) uint_ge_0 b(2) k l r])
      moreover have "stops_at data (m - n)"
        if "n + int (k + len) \<le> m" "stops_at (drop (k + len) data) (m - (n + int (k + len)))" for m
        using stops_at_drop [OF next_option(3) _ that(2)] that(1) by simp
      moreover have "n \<le> m" if "n + int (k + len) \<le> m" for m
        using that by simp
      ultimately show ?thesis using ih by blast
    qed
  qed
qed

lemma Options_Unmarshal_result:
  "Options_Unmarshal [] c data defs = (os, r) \<Longrightarrow>
     wire_ok os \<and> (\<forall>o1 \<in> set os. kept defs o1) \<and> length os \<le> c \<and> (\<forall>m. r = Inr m \<longrightarrow> 0 \<le> m \<and> stops_at data m)"
  using Options_Unmarshal_loop_safe [of "[]" 0 defs c data 0 os r]
  by (simp add: Options_Unmarshal_def wire_ok_def)

text \<open>
  C33.  Options on the wire: what \<open>Options.Marshal\<close> writes for a sorted container, \<open>Options.Unmarshal\<close>
  reads back exactly, in order and with every value, followed by a payload or not, as long as
  the receiver has room and the definitions accept the options.
\<close>

theorem options_wire_roundtrip:
  assumes "wire_ok os" "\<forall>o1 \<in> set os. kept defs o1" "length os \<le> c"
    "Options_Marshal os (Some buf) = (Some buf', n, None)"
    "tail = [] \<or> (\<exists>payload. tail = 0xff # payload \<and> payload \<noteq> [])"
  shows "Options_Unmarshal [] c (take (nat n) buf' @ tail) defs = (os, Inr (if tail = [] then n else n + 1))
         \<and> drop (nat n) buf' = drop (nat n) buf"
proof -
  have n: "n = int (length (opts_wire os 0))" "buf' = opts_wire os 0 @ drop (length (opts_wire os 0)) buf"
    using assms(4) by (auto simp: Options_Marshal_writes writes_Some split: if_splits)
  show ?thesis
    using Options_Unmarshal_wire [OF assms(1,2,5), of c] assms(3) by (simp add: n)
qed

theorem options_wire_roundtrip_witness:
  "\<exists>buf' n. Options_Marshal [\<lparr>ID = 11, Value = [97]\<rparr>, \<lparr>ID = 60, Value = [1, 0]\<rparr>] (Some (replicate 8 0)) = (Some buf', n, None)
     \<and> Options_Unmarshal [] 2 (take (nat n) buf' @ [0xff, 1]) CoapOptionDefs
         = ([\<lparr>ID = 11, Value = [97]\<rparr>, \<lparr>ID = 60, Value = [1, 0]\<rparr>], Inr (n + 1))"
proof -
  let ?os = "[\<lparr>ID = 11, Value = [97]\<rparr>, \<lparr>ID = 60, Value = [1, 0]\<rparr>]"
  have w: "wire_ok ?os" by (simp add: wire_ok_def opts_sorted_def max_extended_def)
  have k: "\<forall>o1 \<in> set ?os. kept CoapOptionDefs o1"
    by (simp add: kept_def CoapOptionDefs_def)
  obtain buf' n where m: "Options_Marshal ?os (Some (replicate 8 0)) = (Some buf', n, None)"
    by (simp add: Options_Marshal_writes writes_Some option_wire_def header_wire_def ext_wire_def
        extendOpt_def extend_consts)
  from options_wire_roundtrip [OF w k _ m, of 2 "[0xff, 1]"] m show ?thesis by auto
qed

text \<open>
  \<open>Options.Unmarshal\<close> on arbitrary bytes: it always returns; the container is sorted and within
  its capacity, holds only options the definitions accept and no value longer than an option can
  carry; a successful call has consumed all
  the data, or stopped right behind a payload marker that at least one byte follows.
\<close>

lemma Options_Unmarshal_safe:
  "case Options_Unmarshal [] c data defs of
     (os, r) \<Rightarrow> wire_ok os \<and> (\<forall>o1. o1 \<in> set os \<longrightarrow> kept defs o1) \<and> length os \<le> c
       \<and> (case r of Inl e \<Rightarrow> True | Inr m \<Rightarrow> 0 \<le> m \<and> stops_at data m)"
  using Options_Unmarshal_result [of c data defs] by (auto split: prod.splits sum.splits)

lemma Options_Unmarshal_safe_example:
  "case Options_Unmarshal [] 4 [0xb1, 97, 0xff, 1] [] of (os, r) \<Rightarrow> wire_ok os \<and> length os \<le> 4"
  using Options_Unmarshal_safe [where c = 4 and data = "[0xb1, 97, 0xff, 1]" and defs = "[]"] by (auto split: prod.splits)

end
