(* ===== verification/Go_Hash.thy ===== *)
theory Go_Hash
  imports Coap_Prelude
begin

text \<open>
  The two checksums of the Go standard library the code keys its maps with: CRC-64 with the
  ISO polynomial (\<open>hash/crc64\<close>, used by \<open>Token.Hash\<close>, \<open>GetETag\<close> and the endpoint limit)
  and 64-bit FNV-1a (\<open>hash/fnv\<close>, used by the block-wise exchange keys).
\<close>

definition crc64_iso_poly :: u64 where
  "crc64_iso_poly = 0xD800000000000000"

fun crc64_shift :: "nat \<Rightarrow> u64 \<Rightarrow> u64" where
  "crc64_shift 0 c = c"
| "crc64_shift (Suc n) c =
     crc64_shift n (if bit c 0 then drop_bit 1 c XOR crc64_iso_poly else drop_bit 1 c)"

text \<open>One byte: \<open>tab[byte(crc) ^ v] ^ (crc >> 8)\<close>, the table entry computed by eight shifts.\<close>

definition crc64_byte :: "u64 \<Rightarrow> byte \<Rightarrow> u64" where
  "crc64_byte crc v = crc64_shift 8 (ucast (ucast crc XOR v :: byte)) XOR drop_bit 8 crc"

definition crc64_update :: "u64 \<Rightarrow> bytes \<Rightarrow> u64" where
  "crc64_update crc bs = NOT (foldl crc64_byte (NOT crc) bs)"

definition crc64_checksum :: "bytes \<Rightarrow> u64" where
  "crc64_checksum bs = crc64_update 0 bs"

lemma crc64_update_append: "crc64_update (crc64_update c xs) ys = crc64_update c (xs @ ys)"
  by (simp add: crc64_update_def)

definition fnv64a_offset :: u64 where "fnv64a_offset = 14695981039346656037"

definition fnv64a_prime :: u64 where "fnv64a_prime = 1099511628211"

definition fnv64a_write :: "u64 \<Rightarrow> bytes \<Rightarrow> u64" where
  "fnv64a_write h bs = foldl (\<lambda>h b. (h XOR ucast b) * fnv64a_prime) h bs"

lemma fnv64a_write_append: "fnv64a_write (fnv64a_write h xs) ys = fnv64a_write h (xs @ ys)"
  by (simp add: fnv64a_write_def)

end
