(* ===== verification/Go_Reader.thy ===== *)
theory Go_Reader
  imports Coap_Prelude
begin

text \<open>
  In-memory message bodies: \<open>bytes.Reader\<close> of the standard library, the \<open>io.ReadSeeker\<close> the code
  itself creates for bodies.  A reader is its data and a position, which a seek may put beyond
  the end.
\<close>

record reader =
  rd_data :: bytes
  rd_pos :: nat

datatype whence = SeekStart | SeekCurrent | SeekEnd

definition NewReader :: "bytes \<Rightarrow> reader" where
  "NewReader data = \<lparr>rd_data = data, rd_pos = 0\<rparr>"

text \<open>\<open>Read(p)\<close> with \<open>len(p) = n\<close>: the bytes read, or \<open>None\<close> for \<open>io.EOF\<close>.\<close>

definition reader_Read :: "reader \<Rightarrow> nat \<Rightarrow> reader \<times> bytes option" where
  "reader_Read r n =
     (if rd_pos r \<ge> length (rd_data r) then (r, None)
      else (let b = take n (drop (rd_pos r) (rd_data r))
            in (r\<lparr>rd_pos := rd_pos r + length b\<rparr>, Some b)))"

definition reader_Seek :: "reader \<Rightarrow> int \<Rightarrow> whence \<Rightarrow> reader \<times> (go_error + int)" where
  "reader_Seek r offset w =
     (let target = (case w of
                     SeekStart \<Rightarrow> offset
                   | SeekCurrent \<Rightarrow> int (rd_pos r) + offset
                   | SeekEnd \<Rightarrow> int (length (rd_data r)) + offset)
      in if target < 0 then (r, Inl (ErrOther ''bytes.Reader.Seek: negative position''))
         else (r\<lparr>rd_pos := nat target\<rparr>, Inr target))"

definition reader_rest :: "reader \<Rightarrow> bytes" where
  "reader_rest r = drop (rd_pos r) (rd_data r)"

text \<open>
  \<open>io.ReadFull(r, p)\<close> with \<open>len(p) = n\<close>: the bytes read and the error, \<open>io.EOF\<close> when there were
  none and \<open>io.ErrUnexpectedEOF\<close> when there were too few.
\<close>

definition io_EOF :: go_error where "io_EOF = ErrOther ''EOF''"
definition io_ErrUnexpectedEOF :: go_error where "io_ErrUnexpectedEOF = ErrOther ''unexpected EOF''"

definition reader_ReadFull :: "reader \<Rightarrow> nat \<Rightarrow> reader \<times> bytes \<times> go_error option" where
  "reader_ReadFull r n =
     (let b = take n (reader_rest r)
      in (r\<lparr>rd_pos := rd_pos r + length b\<rparr>, b,
          if length b = n then None else if b = [] then Some io_EOF else Some io_ErrUnexpectedEOF))"

text \<open>What \<open>io.Copy\<close> and \<open>io.ReadAll\<close> take from a reader: all that is left.\<close>

definition reader_ReadAll :: "reader \<Rightarrow> reader \<times> bytes" where
  "reader_ReadAll r = (r\<lparr>rd_pos := rd_pos r + length (reader_rest r)\<rparr>, reader_rest r)"

lemma reader_Read_rest:
  assumes "reader_Read r n = (r', Some b)" "0 < n"
  shows "reader_rest r = b @ reader_rest r'" "b \<noteq> []" "rd_data r' = rd_data r"
    "rd_pos r' = rd_pos r + length b" "length (reader_rest r') < length (reader_rest r)"
proof -
  have ne: "rd_pos r < length (rd_data r)" and b: "b = take n (reader_rest r)"
    and r': "r' = r\<lparr>rd_pos := rd_pos r + length b\<rparr>"
    using assms by (auto simp: reader_Read_def reader_rest_def Let_def split: if_splits)
  have rest': "reader_rest r' = drop (length b) (reader_rest r)"
    by (simp add: r' reader_rest_def add.commute)
  show "reader_rest r = b @ reader_rest r'"
    by (cases "n \<le> length (reader_rest r)") (simp_all add: rest' b)
  show "b \<noteq> []" using ne assms(2) by (simp add: b reader_rest_def)
  moreover have "reader_rest r \<noteq> []" using ne by (simp add: reader_rest_def)
  ultimately show "length (reader_rest r') < length (reader_rest r)"
    by (simp add: rest')
qed (use assms in \<open>auto simp: reader_Read_def Let_def split: if_splits\<close>)

lemma reader_Read_EOF: "reader_Read r n = (r', None) \<Longrightarrow> r' = r \<and> reader_rest r = []"
  by (simp add: reader_Read_def reader_rest_def Let_def split: if_splits)

end
