(* ===== verification/Message_Base.thy ===== *)
theory Message_Base
  imports Options_Wire Message_Codes Go_Hash Go_Reader
begin

text \<open>
  The message proper (\<open>message/message.go\<close>, \<open>type.go\<close>, \<open>getmid.go\<close>, \<open>getToken.go\<close> and
  \<open>getETag.go\<close>).  Message IDs and types are signed integers of which only part is valid on the
  wire; the random source of \<open>crypto/rand\<close> is an argument.
\<close>

subsection \<open>Types\<close>

abbreviation (input) Unset :: int where "Unset \<equiv> -1"
abbreviation (input) Confirmable :: int where "Confirmable \<equiv> 0"
abbreviation (input) NonConfirmable :: int where "NonConfirmable \<equiv> 1"
abbreviation (input) Acknowledgement :: int where "Acknowledgement \<equiv> 2"
abbreviation (input) Reset :: int where "Reset \<equiv> 3"

definition typeToString :: "(int \<times> string) list" where
  "typeToString =
     [(Unset, ''Unset''), (Confirmable, ''Confirmable''), (NonConfirmable, ''NonConfirmable''),
      (Acknowledgement, ''Acknowledgement''), (Reset, ''Reset'')]"

definition FormatInt :: "int \<Rightarrow> string" where
  "FormatInt i = (if i < 0 then CHR ''-'' # FormatUint (nat (- i)) else FormatUint (nat i))"

definition Type_String :: "int \<Rightarrow> string" where
  "Type_String t =
     (case map_of typeToString t of
        Some val \<Rightarrow> val
      | None \<Rightarrow> ''Type('' @ FormatInt t @ '')'')"

definition ValidateType :: "int \<Rightarrow> bool" where
  "ValidateType typ \<longleftrightarrow> typ \<ge> 0 \<and> typ \<le> 255"

subsection \<open>Messages\<close>

definition MaxTokenSize :: nat where "MaxTokenSize = 8"

record Message =
  Token :: bytes
  Options :: Options
  Code :: u16
  Payload :: bytes
  MessageID :: int
  Type :: int

definition Message_IsPing :: "Message \<Rightarrow> bool \<Rightarrow> bool" where
  "Message_IsPing r isTCP =
     (if isTCP then Code r = codes_Ping
      else Code r = codes_Empty \<and> Type r = Confirmable \<and> length (Token r) = 0
           \<and> length (Options r) = 0 \<and> length (Payload r) = 0)"

subsection \<open>Message IDs, tokens, entity tags\<close>

text \<open>\<open>GetMID\<close> on the global counter \<open>msgID\<close>: the counter after the call and the ID.\<close>

definition GetMID :: "u32 \<Rightarrow> u32 \<times> int" where
  "GetMID msgID = (let msgID' = msgID + 1 in (msgID', CastTo (Unsigned 16) (uint msgID')))"

text \<open>\<open>RandMID\<close> on the four bytes \<open>rand.Read\<close> gave, or on the weak generator's word when it failed.\<close>

definition RandMID :: "bytes option \<Rightarrow> u32 \<Rightarrow> int" where
  "RandMID b weak =
     (case b of
        None \<Rightarrow> CastTo (Unsigned 16) (uint (drop_bit 16 weak))
      | Some b' \<Rightarrow> CastTo (Unsigned 16) (uint (Uint32 b')))"

definition ValidateMID :: "int \<Rightarrow> bool" where
  "ValidateMID mid \<longleftrightarrow> mid \<ge> 0 \<and> mid \<le> 65535"

definition Token_Hash :: "bytes \<Rightarrow> u64" where
  "Token_Hash t = crc64_checksum t"

definition hex_digit :: "byte \<Rightarrow> char" where
  "hex_digit n = ''0123456789abcdef'' ! unat (n AND 0x0f)"

definition Token_String :: "bytes \<Rightarrow> string" where
  "Token_String t = concat (map (\<lambda>b. [hex_digit (drop_bit 4 b), hex_digit b]) t)"

definition GetToken :: "(nat \<Rightarrow> go_error + bytes) \<Rightarrow> go_error + bytes" where
  "GetToken rand_Read = rand_Read 8"

text \<open>\<open>GetETag\<close>: the digest of all the data, in blocks of 4096 bytes; \<open>None\<close> is a nil reader.\<close>

function GetETag_loop :: "reader \<Rightarrow> u64 \<Rightarrow> reader \<times> u64" where
  "GetETag_loop r c64 =
     (case reader_Read r 4096 of
        (r', None) \<Rightarrow> (r', c64)
      | (r', Some b) \<Rightarrow> GetETag_loop r' (crc64_update c64 b))"
  by pat_completeness auto
termination
proof (relation "measure (\<lambda>(r, c64). length (reader_rest r))", goal_cases)
  case (2 r c64 r' y b)
  then show ?case using reader_Read_rest(5) [of r 4096 r' b] by simp
qed simp

declare GetETag_loop.simps [simp del]

definition GetETag :: "reader option \<Rightarrow> go_error + reader option \<times> bytes" where
  "GetETag r0 =
     (case r0 of
        None \<Rightarrow> Inr (None, go_make 8)
      | Some r \<Rightarrow>
          (case reader_Seek r 0 SeekCurrent of
             (_, Inl err) \<Rightarrow> Inl err
           | (r1, Inr orig) \<Rightarrow>
               (case reader_Seek r1 0 SeekStart of
                  (_, Inl err) \<Rightarrow> Inl err
                | (r2, Inr _) \<Rightarrow>
                    (let (r3, c64) = GetETag_loop r2 0 in
                     case reader_Seek r3 orig SeekStart of
                       (_, Inl err) \<Rightarrow> Inl err
                     | (r4, Inr _) \<Rightarrow> Inr (Some r4, PutUint64 c64)))))"

subsection \<open>Properties\<close>

lemma GetMID_valid: "ValidateMID (snd (GetMID m))"
  by (simp add: GetMID_def ValidateMID_def CastTo_def Let_def)

lemma GetETag_loop_eq:
  "snd (GetETag_loop r c) = crc64_update c (reader_rest r) \<and> rd_data (fst (GetETag_loop r c)) = rd_data r"
proof (induction r c rule: GetETag_loop.induct)
  case (1 r c)
  obtain r' b where b: "reader_Read r 4096 = (r', b)" by fastforce
  show ?case
  proof (cases b)
    case None
    then have "r' = r" "reader_rest r = []"
      using reader_Read_EOF [of r 4096 r'] b by auto
    moreover have "GetETag_loop r c = (r', c)"
      by (subst GetETag_loop.simps) (simp add: b None)
    ultimately show ?thesis
      by (simp add: crc64_update_def)
  next
    case (Some x)
    have rest: "reader_rest r = x @ reader_rest r'" "rd_data r' = rd_data r"
      using reader_Read_rest [of r 4096 r' x] b Some by auto
    have "GetETag_loop r c = GetETag_loop r' (crc64_update c x)"
      by (subst GetETag_loop.simps) (simp add: b Some)
    then show ?thesis
      using 1 [OF b [symmetric] Some] by (simp add: rest crc64_update_append)
  qed
qed

text \<open>
  \<open>GetETag\<close> is the CRC-64 of the whole body, whatever the position of its reader and however
  many blocks the body takes, and it puts the position back.
\<close>

lemma GetETag_whole_body:
  "GetETag (Some r) = Inr (Some r, PutUint64 (crc64_checksum (rd_data r)))"
proof -
  have s: "reader_Seek r 0 SeekCurrent = (r, Inr (int (rd_pos r)))" by (simp add: reader_Seek_def)
  have s0: "reader_Seek r 0 SeekStart = (r\<lparr>rd_pos := 0\<rparr>, Inr 0)" by (simp add: reader_Seek_def)
  obtain r3 c where l: "GetETag_loop (r\<lparr>rd_pos := 0\<rparr>) 0 = (r3, c)" by fastforce
  have "c = crc64_checksum (rd_data r)" "rd_data r3 = rd_data r"
    using GetETag_loop_eq [of "r\<lparr>rd_pos := 0\<rparr>" 0] by (simp_all add: l reader_rest_def crc64_checksum_def)
  moreover from this have "reader_Seek r3 (int (rd_pos r)) SeekStart = (r, Inr (int (rd_pos r)))"
    by (simp add: reader_Seek_def)
  ultimately show ?thesis
    by (simp add: GetETag_def s s0 l)
qed

end
