(* ===== verification/Coder_Spec.thy ===== *)
theory Coder_Spec
  imports Message_Base
begin

text \<open>
  What the two coders share: the bytes of a payload, writes behind a prefix, the code byte; and
  the contract of a coder.
\<close>

definition payload_wire :: "bytes \<Rightarrow> bytes" where
  "payload_wire p = (if p = [] then [] else 0xff # p)"

lemma payload_wire_tail: "payload_wire p = [] \<or> (\<exists>q. payload_wire p = 0xff # q \<and> q \<noteq> [])"
  by (simp add: payload_wire_def)

lemma write_at_prefix:
  "length w = k \<Longrightarrow> length v \<le> length rest \<Longrightarrow>
     write_at (w @ rest) k v = w @ v @ drop (length v) rest"
  by (auto simp: write_at_def go_copy_fits)

lemma on_tail_writes:
  "length w = k \<Longrightarrow> length v \<le> length rest \<Longrightarrow>
     on_tail k (Some (w @ rest)) (writes v) = (Some (w @ v @ drop (length v) rest), int (length v), None)"
  by (auto simp: on_tail_def writes_Some)

lemma code_roundtrip:
  assumes "(c :: u16) < 256" shows "ucast (ucast c :: byte) = c"
proof -
  have "take_bit 8 c = c"
    using less_mask_eq [of c 8] assms by (simp add: take_bit_eq_mask)
  then show ?thesis
    by (simp add: word_eq_iff_unsigned unsigned_ucast_eq take_bit_nat_eq_self)
qed

text \<open>
  What the rest of the library expects of a coder (the interfaces \<open>Encoder\<close> and \<open>Decoder\<close> of
  \<open>message/pool/message.go\<close>): on the messages it can carry, \<open>Size\<close> is the length of the encoding,
  \<open>Encode\<close> writes exactly that or reports \<open>ErrTooSmall\<close>, and \<open>Decode\<close> of an encoding gives the
  message back, or reports a full option slice.  \<open>view\<close> is the part of a message the transport
  carries.
\<close>

locale message_coder =
  fixes carries :: "Message \<Rightarrow> bool" and view :: "Message \<Rightarrow> 'v" and wire :: "Message \<Rightarrow> bytes"
    and Size :: "Message \<Rightarrow> int \<times> go_error option"
    and Encode :: "Message \<Rightarrow> bytes \<Rightarrow> bytes \<times> int \<times> go_error option"
    and Decode :: "bytes \<Rightarrow> Message \<Rightarrow> nat \<Rightarrow> Message \<times> (go_error + int)"
  assumes size_law: "carries m \<Longrightarrow> Size m = (int (length (wire m)), None)"
    and encode_law: "carries m \<Longrightarrow> Encode m buf =
      (if length (wire m) \<le> length buf
       then (wire m @ drop (length (wire m)) buf, int (length (wire m)), None)
       else (buf, int (length (wire m)), Some ErrTooSmall))"
    and decode_law: "carries m \<Longrightarrow> Options m0 = [] \<Longrightarrow> Payload m0 = [] \<Longrightarrow> length (Options m) \<le> c \<Longrightarrow>
      \<exists>m'. Decode (wire m) m0 c = (m', Inr (int (length (wire m)))) \<and> view m' = view m
        \<and> Payload m' = Payload m"
    and decode_full_law: "carries m \<Longrightarrow> Options m0 = [] \<Longrightarrow> Payload m0 = [] \<Longrightarrow> c < length (Options m) \<Longrightarrow>
      \<exists>m'. Decode (wire m) m0 c = (m', Inl ErrOptionsTooSmall) \<and> length (Options m') = c \<and> Payload m' = []"
begin

text \<open>The buffer \<open>Size\<close> asks for is exactly large enough, and what is written there reads back.\<close>

lemma encode_decode:
  assumes "carries m" "Encode m buf = (buf', n, None)" "Options m0 = []" "Payload m0 = []" "length (Options m) \<le> c"
  shows "\<exists>m'. Decode (take (nat n) buf') m0 c = (m', Inr n) \<and> view m' = view m"
  using assms decode_law [OF assms(1,3,4,5)] by (auto simp: encode_law split: if_splits)

lemma encode_at_size:
  assumes "carries m" "Size m = (n, None)" "int (length buf) = n"
  shows "Encode m buf = (wire m, n, None)"
  using assms by (simp add: size_law encode_law)

end

end
