(* ===== verification/Udp_Coder.thy ===== *)
theory Udp_Coder
  imports Coder_Spec
begin

text \<open>
  The datagram format, \<open>udp/coder/coder.go\<close>.  \<open>Encode\<close> returns the caller's buffer after its
  writes with its two results.  \<open>Decode\<close> writes into the message it is given, on some error paths
  too, and appends to the message's option slice, whose capacity is an argument.
\<close>

subsection \<open>The coder\<close>

definition udp_Size :: "Message \<Rightarrow> int \<times> go_error option" where
  "udp_Size m =
     (if length (Token m) > MaxTokenSize then (-1, Some ErrInvalidTokenLen)
      else
        (let size = 4 + int (length (Token m));
             (_, optionsLen, err) = Options_Marshal (Options m) None
         in if err \<noteq> Some ErrTooSmall then (-1, err)
            else
              (let payloadLen = int (length (Payload m));
                   payloadLen' = (if payloadLen > 0 then payloadLen + 1 else payloadLen)
               in (size + payloadLen' + optionsLen, None))))"

definition udp_Encode :: "Message \<Rightarrow> bytes \<Rightarrow> bytes \<times> int \<times> go_error option" where
  "udp_Encode m buf =
     (if \<not> ValidateMID (MessageID m) then (buf, -1, Some (ErrOther ''invalid MessageID''))
      else if \<not> ValidateType (Type m) then (buf, -1, Some (ErrOther ''invalid Type''))
      else
        (let (size, err) = udp_Size m in
         if err \<noteq> None then (buf, -1, err)
         else if int (length buf) < size then (buf, size, Some ErrTooSmall)
         else
           (let tmpbuf = PutUint16 (word_of_int (CastTo (Unsigned 16) (MessageID m)));
                b0 = push_bit 6 1 OR push_bit 4 (word_of_int (CastTo (Unsigned 8) (Type m)))
                     OR (0x0f AND of_nat (length (Token m)));
                buf1 = write_at buf 0 [b0, ucast (Code m), tmpbuf ! 0, tmpbuf ! 1]
            in if length (Token m) > MaxTokenSize then (buf1, -1, Some ErrInvalidTokenLen)
               else
                 (let buf2 = write_at buf1 4 (Token m);
                      off = 4 + length (Token m);
                      (buf3, optionsLen, err3) = on_tail off (Some buf2) (Options_Marshal (Options m))
                  in case (buf3, err3) of
                       (Some b, None) \<Rightarrow>
                         (let off1 = off + nat optionsLen;
                              buf4 = (if length (Payload m) > 0
                                      then write_at b off1 [0xff] else b);
                              off2 = (if length (Payload m) > 0 then off1 + 1 else off1)
                          in (write_at buf4 off2 (Payload m), size, None))
                     | (_, e) \<Rightarrow> (buf2, if e = Some ErrTooSmall then size else -1, e)))))"

definition udp_Decode :: "bytes \<Rightarrow> Message \<Rightarrow> nat \<Rightarrow> Message \<times> (go_error + int)" where
  "udp_Decode data m capacity =
     (let size = int (length data) in
      if size < 4 then (m, Inl ErrMessageTruncated)
      else if drop_bit 6 (data ! 0) \<noteq> 1 then (m, Inl ErrMessageInvalidVersion)
      else
        (let m1 = m\<lparr>Type := uint (drop_bit 4 (data ! 0) AND 0x3), Code := ucast (data ! 1),
                    MessageID := uint (Uint16 (take 2 (drop 2 data))), Token := [], Payload := [],
                    Options := []\<rparr>;
             tokenLen = unat (data ! 0 AND 0x0f)
         in if tokenLen > 8 then (m1, Inl ErrInvalidTokenLen)
            else
              (let data1 = drop 4 data in
               if length data1 < tokenLen then (m1, Inl ErrMessageTruncated)
               else
                 (let token = take tokenLen data1;
                      data2 = drop tokenLen data1;
                      (opts, res) = Options_Unmarshal (Options m1) capacity data2 CoapOptionDefs;
                      m2 = m1\<lparr>Options := opts\<rparr>
                  in case res of
                       Inl err \<Rightarrow> (m2, Inl err)
                     | Inr proc \<Rightarrow>
                         (m2\<lparr>Payload := drop (nat proc) data2, Token := token\<rparr>, Inr size)))))"

subsection \<open>The bytes of a datagram\<close>

definition udp_first :: "int \<Rightarrow> nat \<Rightarrow> byte" where
  "udp_first t tkl = push_bit 6 1 OR push_bit 4 (word_of_int (CastTo (Unsigned 8) t)) OR (0x0f AND of_nat tkl)"

definition udp_wire :: "Message \<Rightarrow> bytes" where
  "udp_wire m =
     [udp_first (Type m) (length (Token m)), ucast (Code m)]
     @ PutUint16 (word_of_int (CastTo (Unsigned 16) (MessageID m)))
     @ Token m @ opts_wire (Options m) 0 @ payload_wire (Payload m)"

lemma udp_Size_wire:
  "udp_Size m = (if length (Token m) > MaxTokenSize then (-1, Some ErrInvalidTokenLen)
                 else (int (length (udp_wire m)), None))"
  by (simp add: udp_Size_def Options_Marshal_writes udp_wire_def payload_wire_def)

lemma udp_Encode_wire:
  assumes "ValidateMID (MessageID m)" "ValidateType (Type m)" "length (Token m) \<le> MaxTokenSize"
  shows "udp_Encode m buf =
     (if length (udp_wire m) \<le> length buf
      then (udp_wire m @ drop (length (udp_wire m)) buf, int (length (udp_wire m)), None)
      else (buf, int (length (udp_wire m)), Some ErrTooSmall))"
proof (cases "length (udp_wire m) \<le> length buf")
  case False
  then show ?thesis
    using assms by (simp add: udp_Encode_def udp_Size_wire)
next
  case True
  define mid where "mid = PutUint16 (word_of_int (CastTo (Unsigned 16) (MessageID m)))"
  define h where "h = [udp_first (Type m) (length (Token m)), ucast (Code m), mid ! 0, mid ! 1]"
  define ow where "ow = opts_wire (Options m) 0"
  have hw: "udp_wire m = h @ Token m @ ow @ payload_wire (Payload m)"
    by (simp add: udp_wire_def h_def mid_def PutUint16_def ow_def)
  have h4: "length h = 4" by (simp add: h_def)
  have lens: "4 + length (Token m) + length ow + length (payload_wire (Payload m)) \<le> length buf"
    using True by (simp add: hw h4)
  have w1: "write_at buf 0 h = h @ drop 4 buf"
    using write_at_prefix [of "[]" 0 h buf] lens by (simp add: h4)
  have w2: "write_at (h @ drop 4 buf) 4 (Token m) = (h @ Token m) @ drop (4 + length (Token m)) buf"
    using lens by (simp add: write_at_prefix h4 add.commute)
  have w3: "on_tail (4 + length (Token m)) (Some ((h @ Token m) @ drop (4 + length (Token m)) buf)) (Options_Marshal (Options m))
      = (Some ((h @ Token m @ ow) @ drop (4 + length (Token m) + length ow) buf), int (length ow), None)"
    unfolding Options_Marshal_writes [abs_def] ow_def [symmetric]
    using lens by (subst on_tail_writes) (simp_all add: h4 add.commute)
  have w4: "write_at (if length (Payload m) > 0
              then write_at ((h @ Token m @ ow) @ drop (4 + length (Token m) + length ow) buf) (4 + length (Token m) + length ow) [0xff]
              else (h @ Token m @ ow) @ drop (4 + length (Token m) + length ow) buf)
            (if length (Payload m) > 0 then 4 + length (Token m) + length ow + 1 else 4 + length (Token m) + length ow) (Payload m)
      = udp_wire m @ drop (length (udp_wire m)) buf"
  proof (cases "Payload m = []")
    case True
    then show ?thesis
      using write_at_prefix [of "h @ Token m @ ow" "4 + length (Token m) + length ow" "[]" "drop (4 + length (Token m) + length ow) buf"]
      by (simp add: hw h4 payload_wire_def ac_simps)
  next
    case False
    then have l: "4 + length (Token m) + length ow + 1 + length (Payload m) \<le> length buf"
      using lens by (simp add: payload_wire_def)
    have a: "write_at ((h @ Token m @ ow) @ drop (4 + length (Token m) + length ow) buf) (4 + length (Token m) + length ow) [0xff]
        = (h @ Token m @ ow @ [0xff]) @ drop (4 + length (Token m) + length ow + 1) buf"
      using l by (subst write_at_prefix) (simp_all add: h4 add.commute)
    have "write_at ((h @ Token m @ ow @ [0xff]) @ drop (4 + length (Token m) + length ow + 1) buf) (4 + length (Token m) + length ow + 1) (Payload m)
        = (h @ Token m @ ow @ [0xff]) @ Payload m @ drop (4 + length (Token m) + length ow + 1 + length (Payload m)) buf"
      using l by (subst write_at_prefix) (simp_all add: h4 add.commute)
    then show ?thesis
      using False a by (simp add: hw h4 payload_wire_def ac_simps)
  qed
  have tok: "\<not> length (Token m) > MaxTokenSize" using assms(3) by simp
  show ?thesis
    using True assms(1,2) tok w4
    unfolding udp_Encode_def udp_Size_wire udp_first_def [symmetric] mid_def [symmetric] Let_def h_def [symmetric]
    by (cases "Payload m = []") (simp_all add: w1 w2 w3 del: append_assoc)
qed

subsection \<open>Reading a datagram back\<close>

text \<open>The messages a datagram can carry, given the option definitions of RFC 7252.\<close>

definition udp_carries :: "Message \<Rightarrow> bool" where
  "udp_carries m \<longleftrightarrow> ValidateMID (MessageID m) \<and> Type m \<in> {0, 1, 2, 3} \<and> length (Token m) \<le> MaxTokenSize
     \<and> Code m < 256 \<and> wire_ok (Options m) \<and> (\<forall>o1 \<in> set (Options m). kept CoapOptionDefs o1)"

lemma nat_le_8_cases: "n \<le> 8 \<Longrightarrow> n \<in> {0, 1, 2, 3, 4, 5, 6, 7, 8 :: nat}"
  by auto

lemma udp_first_fields:
  assumes "t \<in> {0, 1, 2, 3}" "n \<le> 8"
  shows "drop_bit 6 (udp_first t n) = 1" "uint (drop_bit 4 (udp_first t n) AND 0x3) = t"
    "unat (udp_first t n AND 0x0f) = n"
  using assms(1) nat_le_8_cases [OF assms(2)] by (auto simp: udp_first_def CastTo_def)

lemma mid_roundtrip:
  assumes "ValidateMID mid"
  shows "uint (Uint16 (take 2 (PutUint16 (word_of_int (CastTo (Unsigned 16) mid)) @ rest))) = mid"
proof -
  have "uint (word_of_int mid :: u16) = mid"
    using assms by (subst uint_word_of_int) (simp add: ValidateMID_def)
  moreover have "CastTo (Unsigned 16) mid = mid"
    using assms by (simp add: ValidateMID_def CastTo_def)
  ultimately show ?thesis
    using Uint16_PutUint16 [of "word_of_int mid" "[]"] by simp
qed

lemma udp_Decode_wire:
  assumes "udp_carries m"
  shows "udp_Decode (udp_wire m) m0 c =
     (if length (Options m) \<le> c then (m, Inr (int (length (udp_wire m))))
      else (m\<lparr>Token := [], Payload := [], Options := take c (Options m)\<rparr>, Inl ErrOptionsTooSmall))"
proof -
  have m: "ValidateMID (MessageID m)" "Type m \<in> {0, 1, 2, 3}" "length (Token m) \<le> 8" "Code m < 256"
      "wire_ok (Options m)" "\<forall>o1 \<in> set (Options m). kept CoapOptionDefs o1"
    using assms by (auto simp: udp_carries_def MaxTokenSize_def)
  note f = udp_first_fields [OF m(2,3)]
  obtain m1 m2 where mm: "PutUint16 (word_of_int (CastTo (Unsigned 16) (MessageID m))) = [m1, m2]"
    by (simp add: PutUint16_def)
  have mid: "uint (Uint16 [m1, m2]) = MessageID m"
    using mid_roundtrip [OF m(1), of "[]"] by (simp add: mm)
  let ?data = "opts_wire (Options m) 0 @ payload_wire (Payload m)"
  have w: "udp_wire m = udp_first (Type m) (length (Token m)) # ucast (Code m) # m1 # m2 # Token m @ ?data"
    by (simp add: udp_wire_def mm)
  note um = Options_Unmarshal_wire [OF m(5,6) payload_wire_tail [of "Payload m"], of c]
  have pl: "drop (nat (int (length (opts_wire (Options m) 0)) + (if payload_wire (Payload m) = [] then 0 else 1))) ?data = Payload m"
    by (simp add: payload_wire_def nat_add_distrib)
  show ?thesis
  proof (cases "length (Options m) \<le> c")
    case True
    then show ?thesis
      using f m(3) um pl unfolding udp_Decode_def w Let_def
      by (simp add: mid [simplified] code_roundtrip [OF m(4)])
  next
    case False
    then show ?thesis
      using f m(3) um unfolding udp_Decode_def w Let_def
      by (simp add: mid [simplified] code_roundtrip [OF m(4)])
  qed
qed

interpretation udp: message_coder udp_carries id udp_wire udp_Size udp_Encode udp_Decode
proof unfold_locales
  fix m buf assume c: "udp_carries m"
  then have v: "ValidateMID (MessageID m)" "ValidateType (Type m)" "length (Token m) \<le> MaxTokenSize"
    by (auto simp: udp_carries_def ValidateType_def)
  show "udp_Size m = (int (length (udp_wire m)), None)"
    using v by (simp add: udp_Size_wire)
  show "udp_Encode m buf =
      (if length (udp_wire m) \<le> length buf
       then (udp_wire m @ drop (length (udp_wire m)) buf, int (length (udp_wire m)), None)
       else (buf, int (length (udp_wire m)), Some ErrTooSmall))"
    using v by (rule udp_Encode_wire)
next
  fix m m0 :: Message and c assume "udp_carries m" "length (Options m) \<le> c"
  then show "\<exists>m'. udp_Decode (udp_wire m) m0 c = (m', Inr (int (length (udp_wire m)))) \<and> id m' = id m
      \<and> Payload m' = Payload m"
    by (simp add: udp_Decode_wire)
next
  fix m m0 :: Message and c assume "udp_carries m" "c < length (Options m)"
  then show "\<exists>m'. udp_Decode (udp_wire m) m0 c = (m', Inl ErrOptionsTooSmall) \<and> length (Options m') = c \<and> Payload m' = []"
    by (simp add: udp_Decode_wire)
qed

subsection \<open>Arbitrary datagrams\<close>

lemma int_le_3_cases: "0 \<le> x \<Longrightarrow> x \<le> 3 \<Longrightarrow> x \<in> {0, 1, 2, 3 :: int}"
  by auto

lemma byte_fields:
  fixes b :: byte
  shows "uint (drop_bit 4 b AND 3) \<in> {0, 1, 2, 3}" "unat (b AND 15) \<le> 15"
proof -
  have "drop_bit 4 b AND 3 \<le> 3" by (rule word_and_le1)
  then have "uint (drop_bit 4 b AND 3) \<le> 3" by (simp add: word_le_def)
  then show "uint (drop_bit 4 b AND 3) \<in> {0, 1, 2, 3}"
    by (intro int_le_3_cases uint_ge_0)
  have "b AND 15 \<le> 15" by (rule word_and_le1)
  then show "unat (b AND 15) \<le> 15" by (simp add: word_le_nat_alt)
qed

lemma udp_Decode_success:
  assumes "udp_Decode data m0 c = (m, Inr n)"
  shows "udp_carries m" "n = int (length data)" "length (Options m) \<le> c" "4 \<le> length data"
proof -
  let ?b = "data ! 0" and ?t = "unat (data ! 0 AND 15)"
  obtain opts res where u: "Options_Unmarshal [] c (drop ?t (drop 4 data)) CoapOptionDefs = (opts, res)"
    by fastforce
  have g: "\<not> int (length data) < 4" "drop_bit 6 ?b = 1" "\<not> ?t > 8" "\<not> length (drop 4 data) < ?t"
    and r: "(case res of Inl e \<Rightarrow> False | Inr proc \<Rightarrow>
        m = m0\<lparr>Type := uint (drop_bit 4 ?b AND 3), Code := ucast (data ! 1),
                MessageID := uint (Uint16 (take 2 (drop 2 data))), Token := take ?t (drop 4 data),
                Payload := drop (nat proc) (drop ?t (drop 4 data)), Options := opts\<rparr> \<and> n = int (length data))"
    using assms unfolding udp_Decode_def Let_def
    by (auto simp: u [simplified] split: if_splits sum.splits)
  note o = Options_Unmarshal_result [OF u]
  have "(ucast (data ! 1) :: u16) < 256"
    using uint_lt2p [of "data ! 1"] by (simp add: word_less_def unsigned_ucast_eq take_bit_int_eq_self)
  moreover have "ValidateMID (uint (Uint16 (take 2 (drop 2 data))))"
    using uint_lt2p [of "Uint16 (take 2 (drop 2 data))"] by (simp add: ValidateMID_def)
  ultimately show "udp_carries m" "n = int (length data)" "length (Options m) \<le> c" "4 \<le> length data"
    using r o g byte_fields(1) [of ?b] by (auto simp: udp_carries_def MaxTokenSize_def split: sum.splits)
qed

text \<open>
  C5.  Datagrams round-trip: whenever \<open>Encode\<close> of a message that datagrams can carry succeeds, \<open>Decode\<close>
  of the reported bytes, into any message whose option slice has room, gives the message back in
  every field, and the rest of the buffer is untouched.  With a buffer of \<open>Size\<close> bytes it succeeds.
\<close>

theorem udp_roundtrip:
  assumes "udp_carries m" "udp_Encode m buf = (buf', n, None)" "length (Options m) \<le> c"
  shows "udp_Decode (take (nat n) buf') m0 c = (m, Inr n) \<and> drop (nat n) buf' = drop (nat n) buf
         \<and> udp_Size m = (n, None) \<and> (\<exists>b. udp_Encode m (replicate (nat n) 0) = (b, n, None))"
proof -
  have n: "n = int (length (udp_wire m))" "buf' = udp_wire m @ drop (length (udp_wire m)) buf"
    using assms(2) by (auto simp: udp.encode_law [OF assms(1)] split: if_splits)
  show ?thesis
    using assms(3) by (simp add: n udp_Decode_wire [OF assms(1)] udp.size_law [OF assms(1)] udp.encode_law [OF assms(1)])
qed

theorem udp_roundtrip_witness:
  "\<exists>buf' n. udp_Encode \<lparr>Token = [1, 2], Options = [\<lparr>ID = 11, Value = [97]\<rparr>], Code = 1, Payload = [5], MessageID = 300, Type = 0\<rparr>
        (replicate 16 0) = (buf', n, None)
     \<and> udp_Decode (take (nat n) buf') \<lparr>Token = [], Options = [], Code = 0, Payload = [], MessageID = -1, Type = -1\<rparr> 16
       = (\<lparr>Token = [1, 2], Options = [\<lparr>ID = 11, Value = [97]\<rparr>], Code = 1, Payload = [5], MessageID = 300, Type = 0\<rparr>, Inr n)"
proof -
  let ?m = "\<lparr>Token = [1, 2], Options = [\<lparr>ID = 11, Value = [97]\<rparr>], Code = 1, Payload = [5], MessageID = 300, Type = 0\<rparr> :: Message"
  have c: "udp_carries ?m"
    by (simp add: udp_carries_def ValidateMID_def MaxTokenSize_def wire_ok_def opts_sorted_def max_extended_def
        kept_def CoapOptionDefs_def)
  moreover have "length (udp_wire ?m) \<le> 16"
    by (simp add: udp_wire_def payload_wire_def option_wire_def header_wire_def ext_wire_def extendOpt_def extend_consts)
  ultimately obtain buf' n where e: "udp_Encode ?m (replicate 16 0) = (buf', n, None)"
    by (simp add: udp.encode_law)
  from udp_roundtrip [OF c e, of 16] e show ?thesis by auto
qed

text \<open>
  C34.  \<open>Decode\<close> of an arbitrary datagram always returns, and what it accepts is a message datagrams can
  carry: a two-bit type, a 16-bit message ID, a token of at most eight bytes, sorted options within
  the capacity.  So what was received can be sent on: encoding it and decoding that again gives
  the same message.
\<close>

theorem udp_Decode_accepts:
  assumes "udp_Decode data m0 c = (m, Inr n)"
  shows "udp_carries m \<and> n = int (length data) \<and> length (Options m) \<le> c
         \<and> (\<exists>buf' k. udp_Encode m (replicate (nat (fst (udp_Size m))) 0) = (buf', k, None)
              \<and> udp_Decode buf' m0 c = (m, Inr k))"
  using udp_Decode_success [OF assms] by (simp add: udp.size_law udp.encode_law udp_Decode_wire)

theorem udp_Decode_accepts_witness:
  "\<exists>m. udp_Decode [0x40, 1, 0, 7] \<lparr>Token = [], Options = [], Code = 0, Payload = [], MessageID = -1, Type = -1\<rparr> 16 = (m, Inr 4)
     \<and> udp_carries m"
proof -
  have "udp_Decode [0x40, 1, 0, 7] \<lparr>Token = [], Options = [], Code = 0, Payload = [], MessageID = -1, Type = -1\<rparr> 16
      = (\<lparr>Token = [], Options = [], Code = 1, Payload = [], MessageID = 7, Type = 0\<rparr>, Inr 4)"
    by (simp add: udp_Decode_def Options_Unmarshal_def Options_Unmarshal_loop.simps Let_def drop_bit_eq_div)
  from udp_Decode_accepts [OF this] this show ?thesis by blast
qed

text \<open>
  \<open>Encode\<close> accepts every type from 0 to 255, but the type has two bits on the wire: for the types
  from 4 on it reports success, and what it writes decodes to another type or is refused as of
  another protocol version.
\<close>

lemma udp_Encode_type_overflow:
  assumes "4 \<le> Type m" "Type m \<le> 255" "ValidateMID (MessageID m)" "length (Token m) \<le> MaxTokenSize"
    "length (udp_wire m) \<le> length buf"
  shows "\<exists>buf' n. udp_Encode m buf = (buf', n, None)
     \<and> (case udp_Decode (take (nat n) buf') m0 c of
          (m', Inl e) \<Rightarrow> True
        | (m', Inr k) \<Rightarrow> Type m' \<noteq> Type m)"
proof -
  have e: "udp_Encode m buf = (udp_wire m @ drop (length (udp_wire m)) buf, int (length (udp_wire m)), None)"
    using assms by (simp add: udp_Encode_wire ValidateType_def)
  have "Type m' \<noteq> Type m" if "udp_Decode (udp_wire m) m0 c = (m', Inr k)" for m' k
    using udp_Decode_success(1) [OF that] assms(1) by (auto simp: udp_carries_def)
  then show ?thesis
    by (simp add: e split: prod.split sum.split)
qed

lemma udp_Encode_type_overflow_example:
  "\<exists>buf' n. udp_Encode \<lparr>Token = [], Options = [], Code = 1, Payload = [], MessageID = 1, Type = 4\<rparr> [0, 0, 0, 0] = (buf', n, None)"
  using udp_Encode_type_overflow [of "\<lparr>Token = [], Options = [], Code = 1, Payload = [], MessageID = 1, Type = 4\<rparr>" "[0, 0, 0, 0]"
    "\<lparr>Token = [], Options = [], Code = 1, Payload = [], MessageID = 1, Type = 4\<rparr>" 0]
  by (auto simp: ValidateMID_def udp_wire_def payload_wire_def)

end
