(* ===== verification/Tcp_Coder.thy ===== *)
theory Tcp_Coder
  imports Coder_Spec
begin

text \<open>
  The stream format, \<open>tcp/coder/coder.go\<close>: a frame starts with a length nibble and a token length,
  an extended length, the code and the token; the options and the payload follow.  \<open>Decode\<close> does
  not reset the options and the payload of the message it is given; it appends to the options.
\<close>

subsection \<open>The coder\<close>

definition MessageLength13Base :: int where "MessageLength13Base = 13"
definition MessageLength14Base :: int where "MessageLength14Base = 269"
definition MessageLength15Base :: int where "MessageLength15Base = 65805"
definition messageMaxLen :: int where "messageMaxLen = 0x7fff0000"

lemmas tcp_consts = MessageLength13Base_def MessageLength14Base_def MessageLength15Base_def messageMaxLen_def

record MessageHeader =
  HToken :: bytes
  HLength :: int
  HMessageLength :: int
  HCode :: u16

definition MessageHeader_zero :: MessageHeader where
  "MessageHeader_zero = \<lparr>HToken = [], HLength = 0, HMessageLength = 0, HCode = 0\<rparr>"

definition getHeader :: "int \<Rightarrow> byte \<times> bytes" where
  "getHeader messageLength =
     (if messageLength < MessageLength13Base
      then (word_of_int (CastTo (Unsigned 8) messageLength), [])
      else if messageLength < MessageLength14Base
      then (13, [word_of_int (CastTo (Unsigned 8) (messageLength - MessageLength13Base))])
      else if messageLength < MessageLength15Base
      then (14, PutUint16 (word_of_int (CastTo (Unsigned 16) (messageLength - MessageLength14Base))))
      else if messageLength < messageMaxLen
      then (15, PutUint32 (word_of_int (CastTo (Unsigned 32) (messageLength - MessageLength15Base))))
      else (0, []))"

text \<open>\<open>Encode\<close> asks its buffer for its length only before it writes: \<open>nil\<close> is the empty buffer.\<close>

definition tcp_Encode :: "Message \<Rightarrow> bytes \<Rightarrow> bytes \<times> int \<times> go_error option" where
  "tcp_Encode m buf =
     (if length (Token m) > MaxTokenSize then (buf, -1, Some ErrInvalidTokenLen)
      else
        (let payloadLen0 = int (length (Payload m));
             payloadLen = (if payloadLen0 > 0 then payloadLen0 + 1 else payloadLen0);
             (_, optionsLen0, err0) = Options_Marshal (Options m) None
         in if err0 \<noteq> Some ErrTooSmall then (buf, -1, err0)
            else
              (let bufLen0 = payloadLen + optionsLen0;
                   (lenNib, extLenBytes) = getHeader bufLen0;
                   hdrLen = 1 + length extLenBytes + length (Token m) + 1;
                   hdr0 = (replicate (1 + 4 + MaxTokenSize + 1) 0)
                            [0 := word_of_int (CastTo (Unsigned 8) (int (length (Token m)))) OR push_bit 4 lenNib];
                   hdrOff1 = 1 + length extLenBytes;
                   hdr1 = write_at hdr0 1 extLenBytes;
                   hdr2 = hdr1[hdrOff1 := ucast (Code m)];
                   hdr3 = write_at hdr2 (hdrOff1 + 1) (Token m);
                   bufLen = bufLen0 + int hdrLen
               in if int (length buf) < bufLen then (buf, bufLen, Some ErrTooSmall)
                  else
                    (let buf1 = go_copy buf (take hdrLen hdr3);
                         (buf2, optionsLen, err2) = on_tail hdrLen (Some buf1) (Options_Marshal (Options m))
                     in case (buf2, err2) of
                          (Some b2, None) \<Rightarrow>
                            (if length (Payload m) > 0
                             then (write_at (write_at b2 (hdrLen + nat optionsLen) [0xff])
                                     (hdrLen + nat optionsLen + 1) (Payload m), bufLen, None)
                             else (b2, bufLen, None))
                        | (_, e) \<Rightarrow> (buf1, if e = Some ErrTooSmall then bufLen else -1, e)))))"

definition tcp_Size :: "Message \<Rightarrow> int \<times> go_error option" where
  "tcp_Size m =
     (let (_, size, err) = tcp_Encode m []
      in (size, if err = Some ErrTooSmall then None else err))"

text \<open>
  The length field of the header: its value, the bytes behind it and the offset, or a short read.
\<close>

definition DecodeHeader_length :: "byte \<Rightarrow> bytes \<Rightarrow> int \<Rightarrow> go_error + int \<times> bytes \<times> int" where
  "DecodeHeader_length lenNib data hdrOff =
     (if uint lenNib < MessageLength13Base then Inr (uint lenNib, data, hdrOff)
      else if lenNib = 13 then
        (if length data < 1 then Inl ErrShortRead
         else Inr (MessageLength13Base + uint (data ! 0), drop 1 data, hdrOff + 1))
      else if lenNib = 14 then
        (if length data < 2 then Inl ErrShortRead
         else Inr (MessageLength14Base + uint (Uint16 data), drop 2 data, hdrOff + 2))
      else if lenNib = 15 then
        (if length data < 4 then Inl ErrShortRead
         else Inr (MessageLength15Base + uint (Uint32 data), drop 4 data, hdrOff + 4))
      else Inr (0, data, hdrOff))"

definition DecodeHeader :: "bytes \<Rightarrow> MessageHeader \<Rightarrow> MessageHeader \<times> (go_error + int)" where
  "DecodeHeader data0 h =
     (if length data0 = 0 then (h, Inl ErrShortRead)
      else
        (let firstByte = data0 ! 0;
             lenNib = drop_bit 4 (firstByte AND 0xf0);
             tkl = unat (firstByte AND 0x0f)
         in if tkl > MaxTokenSize then (h, Inl ErrInvalidTokenLen)
            else case DecodeHeader_length lenNib (drop 1 data0) 1 of
              Inl err \<Rightarrow> (h, Inl err)
            | Inr (opLen, data, hdrOff) \<Rightarrow>
                (case SafeCastTo (Unsigned 32) (hdrOff + 1 + int tkl + opLen) of
                   Inl _ \<Rightarrow> (h, Inl ErrMessageTooLong)
                 | Inr messageLength \<Rightarrow>
                     (let h1 = h\<lparr>HMessageLength := messageLength\<rparr> in
                      if length data < 1 then (h1, Inl ErrShortRead)
                      else
                        (let h2 = h1\<lparr>HCode := ucast (data ! 0)\<rparr>;
                             data1 = drop 1 data
                         in if length data1 < tkl then (h2, Inl ErrShortRead)
                            else
                              (let h3 = (if tkl > 0 then h2\<lparr>HToken := take tkl data1\<rparr> else h2);
                                   hdrOff1 = hdrOff + 1 + int tkl
                               in (h3\<lparr>HLength := hdrOff1\<rparr>, Inr hdrOff1)))))))"

definition signal_defs :: "u16 \<Rightarrow> (u16 \<times> OptionDef) list" where
  "signal_defs code =
     (if code = codes_CSM then TCPSignalCSMOptionDefs
      else if code = codes_Ping \<or> code = codes_Pong then TCPSignalPingPongOptionDefs
      else if code = codes_Release then TCPSignalReleaseOptionDefs
      else if code = codes_Abort then TCPSignalAbortOptionDefs
      else CoapOptionDefs)"

definition DecodeWithHeader :: "bytes \<Rightarrow> MessageHeader \<Rightarrow> Message \<Rightarrow> nat \<Rightarrow> Message \<times> (go_error + int)" where
  "DecodeWithHeader data header m capacity =
     (let (opts, res) = Options_Unmarshal (Options m) capacity data (signal_defs (HCode header));
          m1 = m\<lparr>Options := opts\<rparr>
      in case res of
           Inl err \<Rightarrow> (m1, Inl err)
         | Inr proc \<Rightarrow>
             (let data1 = drop (nat proc) data;
                  m2 = (if length data1 > 0 then m1\<lparr>Payload := data1\<rparr> else m1);
                  processed = CastTo (Unsigned 32) (HLength header + CastTo (Unsigned 32) proc
                                + CastTo (Unsigned 32) (int (length data1)))
              in (m2\<lparr>Code := HCode header, Token := HToken header\<rparr>, Inr processed)))"

definition tcp_Decode :: "bytes \<Rightarrow> Message \<Rightarrow> nat \<Rightarrow> Message \<times> (go_error + int)" where
  "tcp_Decode data m capacity =
     (case DecodeHeader data MessageHeader_zero of
        (_, Inl err) \<Rightarrow> (m, Inl err)
      | (header, Inr _) \<Rightarrow>
          if CastTo (Unsigned 32) (int (length data)) < HMessageLength header then (m, Inl ErrShortRead)
          else DecodeWithHeader
                 (drop (nat (HLength header)) (take (nat (HMessageLength header)) data)) header m capacity)"

subsection \<open>The bytes of a frame\<close>

definition body_wire :: "Message \<Rightarrow> bytes" where
  "body_wire m = opts_wire (Options m) 0 @ payload_wire (Payload m)"

definition tcp_header :: "Message \<Rightarrow> bytes" where
  "tcp_header m =
     (let (lenNib, ext) = getHeader (int (length (body_wire m)))
      in (word_of_int (CastTo (Unsigned 8) (int (length (Token m)))) OR push_bit 4 lenNib) # ext @ ucast (Code m) # Token m)"

definition tcp_wire :: "Message \<Rightarrow> bytes" where
  "tcp_wire m = tcp_header m @ body_wire m"

lemma getHeader_ext_length: "length (snd (getHeader n)) \<le> 4"
  by (simp add: getHeader_def)

lemma list_update_append_at: "length w = k \<Longrightarrow> (w @ x # rest)[k := y] = w @ y # rest"
  by (auto simp: list_update_append)

lemma replicate_split: "k \<le> n \<Longrightarrow> replicate n x = replicate k x @ replicate (n - k) x"
  by (simp flip: replicate_add)

lemma header_array:
  assumes "length ext \<le> 4" "length tok \<le> 8"
  shows "take (1 + length ext + length tok + 1)
      (write_at ((write_at ((replicate 14 0)[0 := f]) 1 ext)[1 + length ext := cd]) (1 + length ext + 1) tok)
     = f # ext @ cd # (tok :: bytes)"
proof -
  have a: "(replicate 14 0)[0 := f] = [f] @ replicate 13 (0 :: byte)"
    by (simp add: replicate_eqI numeral_eq_Suc)
  have b: "write_at ([f] @ replicate 13 0) 1 ext = ([f] @ ext) @ 0 # replicate (12 - length ext) 0"
    using assms by (subst write_at_prefix) (auto simp: Suc_diff_le simp flip: replicate_Suc)
  have c: "(([f] @ ext) @ 0 # replicate (12 - length ext) 0)[1 + length ext := cd]
      = ([f] @ ext @ [cd]) @ replicate (12 - length ext) 0"
    by (subst list_update_append_at) auto
  have d: "write_at (([f] @ ext @ [cd]) @ replicate (12 - length ext) 0) (1 + length ext + 1) tok
      = ([f] @ ext @ [cd]) @ tok @ replicate (12 - length ext - length tok) 0"
    using assms by (subst write_at_prefix) auto
  show ?thesis
    unfolding a b c d by simp
qed

lemma tcp_Encode_wire:
  assumes "length (Token m) \<le> MaxTokenSize"
  shows "tcp_Encode m buf =
     (if length (tcp_wire m) \<le> length buf
      then (tcp_wire m @ drop (length (tcp_wire m)) buf, int (length (tcp_wire m)), None)
      else (buf, int (length (tcp_wire m)), Some ErrTooSmall))"
proof -
  obtain lenNib ext where gh: "getHeader (int (length (body_wire m))) = (lenNib, ext)" by fastforce
  have ext: "length ext \<le> 4" using getHeader_ext_length [of "int (length (body_wire m))"] by (simp add: gh)
  have tok: "length (Token m) \<le> 8" using assms by (simp add: MaxTokenSize_def)
  define ow where "ow = opts_wire (Options m) 0"
  define h where "h = tcp_header m"
  define hl where "hl = 1 + length ext + length (Token m) + 1"
  have hl: "length h = hl" by (simp add: h_def hl_def tcp_header_def gh)
  have bl: "(if int (length (Payload m)) > 0 then int (length (Payload m)) + 1 else int (length (Payload m))) + int (length ow)
      = int (length (body_wire m))"
    by (simp add: body_wire_def payload_wire_def ow_def)
  have hdr: "take hl (write_at ((write_at ((replicate (1 + 4 + MaxTokenSize + 1) 0)
        [0 := word_of_int (CastTo (Unsigned 8) (int (length (Token m)))) OR push_bit 4 lenNib]) 1 ext)
        [1 + length ext := ucast (Code m)]) (1 + length ext + 1) (Token m)) = h"
    using header_array [OF ext tok, of _ "ucast (Code m)"] by (simp add: hl_def h_def tcp_header_def gh MaxTokenSize_def)
  have w: "tcp_wire m = h @ ow @ payload_wire (Payload m)"
    by (simp add: tcp_wire_def h_def body_wire_def ow_def)
  show ?thesis
  proof (cases "length (tcp_wire m) \<le> length buf")
    case False
    then show ?thesis
      using assms bl hl unfolding tcp_Encode_def Let_def Options_Marshal_writes ow_def [symmetric]
      by (simp add: gh tcp_wire_def h_def hl_def)
  next
    case True
    then have l: "hl + length ow + length (payload_wire (Payload m)) \<le> length buf"
      by (simp add: w hl)
    have s1: "go_copy buf h = h @ drop hl buf"
      using l by (simp add: go_copy_fits hl)
    have s2: "on_tail hl (Some (h @ drop hl buf)) (Options_Marshal (Options m))
        = (Some ((h @ ow) @ drop (hl + length ow) buf), int (length ow), None)"
      unfolding Options_Marshal_writes [abs_def] ow_def [symmetric]
      using l by (subst on_tail_writes) (simp_all add: hl add.commute)
    have s3: "write_at (write_at ((h @ ow) @ drop (hl + length ow) buf) (hl + length ow) [0xff]) (hl + length ow + 1) (Payload m)
        = tcp_wire m @ drop (length (tcp_wire m)) buf" if p: "Payload m \<noteq> []"
    proof -
      have l': "hl + length ow + 1 + length (Payload m) \<le> length buf"
        using l p by (simp add: payload_wire_def)
      have a: "write_at ((h @ ow) @ drop (hl + length ow) buf) (hl + length ow) [0xff]
          = (h @ ow @ [0xff]) @ drop (hl + length ow + 1) buf"
        using l' by (subst write_at_prefix) (simp_all add: hl add.commute)
      have "write_at ((h @ ow @ [0xff]) @ drop (hl + length ow + 1) buf) (hl + length ow + 1) (Payload m)
          = (h @ ow @ [0xff]) @ Payload m @ drop (hl + length ow + 1 + length (Payload m)) buf"
        using l' by (subst write_at_prefix) (simp_all add: hl add.commute)
      then show ?thesis
        unfolding a using p by (simp add: w hl payload_wire_def ac_simps)
    qed
    have tl: "int (length (body_wire m)) + int hl = int (length (tcp_wire m))"
      by (simp add: tcp_wire_def hl h_def [symmetric])
    have nt: "\<not> length (Token m) > MaxTokenSize" using assms by simp
    show ?thesis
      using True nt s3 tl unfolding tcp_Encode_def Let_def Options_Marshal_writes writes_None prod.case bl [unfolded ow_def] gh
        hl_def [symmetric] hdr s1
      by (cases "Payload m = []") (simp_all add: s2 [unfolded Options_Marshal_writes [abs_def]] w payload_wire_def hl del: append_assoc)
  qed
qed

subsection \<open>Reading a header\<close>

lemma small_bits:
  fixes x :: "'a::len word"
  assumes "x < 2 ^ k" "bit x n" shows "n < k"
proof -
  have "bit (x AND mask k) n"
    using assms less_mask_eq [of x k] by simp
  then show ?thesis
    by (simp add: bit_and_iff bit_mask_iff)
qed

lemma nibble_pack:
  fixes a k :: byte
  assumes "a < 16" "k < 16"
  shows "drop_bit 4 ((a OR push_bit 4 k) AND 0xf0) = k" "(a OR push_bit 4 k) AND 0x0f = a"
proof -
  have n: "bit a n \<Longrightarrow> n < 4" "bit k n \<Longrightarrow> n < 4" for n
    using small_bits [of a 4 n] small_bits [of k 4 n] assms by simp_all
  have m: "(0xf0 :: byte) = push_bit 4 (mask 4)" "(0x0f :: byte) = mask 4"
    by (simp_all add: mask_eq_exp_minus_1 push_bit_eq_mult)
  show "drop_bit 4 ((a OR push_bit 4 k) AND 0xf0) = k"
    unfolding m using n by (intro bit_word_eqI) (fastforce simp: bit_simps)
  show "(a OR push_bit 4 k) AND 0x0f = a"
    unfolding m using n by (intro bit_word_eqI) (auto simp: bit_simps)
qed

lemma getHeader_nibble: "0 \<le> n \<Longrightarrow> fst (getHeader n) < 16"
proof -
  assume n: "0 \<le> n"
  have "word_of_int n < (16 :: byte)" if "n < 13"
    using n that by (simp add: word_less_def uint_word_of_int)
  then show ?thesis
    using n by (simp add: getHeader_def CastTo_def tcp_consts)
qed

text \<open>The length field reads back what \<open>getHeader\<close> wrote, as long as the length is supported.\<close>

lemma DecodeHeader_length_getHeader:
  assumes "0 \<le> n" "n < messageMaxLen" "getHeader n = (lenNib, ext)"
  shows "DecodeHeader_length lenNib (ext @ rest) off = Inr (n, rest, off + int (length ext))"
proof -
  consider "n < 13" | "13 \<le> n" "n < 269" | "269 \<le> n" "n < 65805" | "65805 \<le> n" by linarith
  then show ?thesis
  proof cases
    case 1
    then have l: "lenNib = word_of_int n" "ext = []"
      using assms by (auto simp: getHeader_def CastTo_def tcp_consts)
    have "uint lenNib = n" using assms(1) 1 by (simp add: l uint_word_of_int)
    then show ?thesis using 1 by (simp add: DecodeHeader_length_def tcp_consts l(2))
  next
    case 2
    then have l: "lenNib = 13" "ext = [word_of_int (n - 13)]"
      using assms by (auto simp: getHeader_def CastTo_def tcp_consts)
    have "uint (word_of_int (n - 13) :: byte) = n - 13" using 2 by (subst uint_word_of_int) simp
    then show ?thesis by (simp add: DecodeHeader_length_def tcp_consts l)
  next
    case 3
    then have l: "lenNib = 14" "ext = PutUint16 (word_of_int (n - 269))"
      using assms by (auto simp: getHeader_def CastTo_def tcp_consts)
    have "uint (word_of_int (n - 269) :: u16) = n - 269" using 3 by (subst uint_word_of_int) simp
    then show ?thesis by (simp add: DecodeHeader_length_def tcp_consts l bytes_simps)
  next
    case 4
    then have l: "lenNib = 15" "ext = PutUint32 (word_of_int (n - 65805))"
      using assms by (auto simp: getHeader_def CastTo_def tcp_consts)
    have "uint (word_of_int (n - 65805) :: u32) = n - 65805"
      using 4 assms(2) by (subst uint_word_of_int) (simp add: tcp_consts)
    then show ?thesis by (simp add: DecodeHeader_length_def tcp_consts l bytes_simps)
  qed
qed

lemma SafeCastTo_u32: "0 \<le> x \<Longrightarrow> x < 2 ^ 32 \<Longrightarrow> SafeCastTo (Unsigned 32) x = Inr x"
  using SafeCastTo_Unsigned [of 32 x] by (simp add: machine_int_def)

text \<open>The messages a frame can carry; the definitions of the options depend on the code.\<close>

definition tcp_carries :: "Message \<Rightarrow> bool" where
  "tcp_carries m \<longleftrightarrow> length (Token m) \<le> MaxTokenSize \<and> Code m < 256 \<and> wire_ok (Options m)
     \<and> (\<forall>o1 \<in> set (Options m). kept (signal_defs (Code m)) o1)
     \<and> int (length (body_wire m)) < messageMaxLen"

definition tcp_view :: "Message \<Rightarrow> bytes \<times> Options \<times> u16 \<times> bytes" where
  "tcp_view m = (Token m, Options m, Code m, Payload m)"

definition header_of :: "Message \<Rightarrow> MessageHeader" where
  "header_of m = \<lparr>HToken = Token m, HLength = int (length (tcp_header m)),
     HMessageLength = int (length (tcp_wire m)), HCode = Code m\<rparr>"

lemma DecodeHeader_wire:
  assumes "tcp_carries m"
  shows "DecodeHeader (tcp_header m @ rest) MessageHeader_zero = (header_of m, Inr (int (length (tcp_header m))))"
proof -
  have m: "length (Token m) \<le> 8" "Code m < 256" "int (length (body_wire m)) < messageMaxLen"
    using assms by (auto simp: tcp_carries_def MaxTokenSize_def)
  obtain lenNib ext where gh: "getHeader (int (length (body_wire m))) = (lenNib, ext)" by fastforce
  have nib: "lenNib < 16" using getHeader_nibble [of "int (length (body_wire m))"] by (simp add: gh)
  define tk where "tk = (word_of_int (CastTo (Unsigned 8) (int (length (Token m)))) :: byte)"
  have "unat tk = length (Token m)"
    using m(1) by (simp add: tk_def CastTo_def unat_of_nat flip: of_nat_mod)
  moreover from this have "tk < 16" using m(1) by (simp add: word_less_nat_alt)
  ultimately have f: "drop_bit 4 ((tk OR push_bit 4 lenNib) AND 0xf0) = lenNib" "unat ((tk OR push_bit 4 lenNib) AND 0x0f) = length (Token m)"
    using nibble_pack [OF _ nib] by simp_all
  have ext: "length ext \<le> 4" using getHeader_ext_length [of "int (length (body_wire m))"] by (simp add: gh)
  have w: "tcp_header m = (tk OR push_bit 4 lenNib) # ext @ ucast (Code m) # Token m"
    by (simp add: tcp_header_def gh tk_def)
  have len: "DecodeHeader_length lenNib (ext @ ucast (Code m) # Token m @ rest) 1
      = Inr (int (length (body_wire m)), ucast (Code m) # Token m @ rest, 1 + int (length ext))"
    using DecodeHeader_length_getHeader [OF _ m(3) gh, of "ucast (Code m) # Token m @ rest" 1] by simp
  have sc: "SafeCastTo (Unsigned 32) (1 + int (length ext) + 1 + int (length (Token m)) + int (length (body_wire m)))
      = Inr (int (length (tcp_wire m)))"
    using ext m(1,3) by (subst SafeCastTo_u32) (auto simp: tcp_wire_def w tcp_consts)
  show ?thesis
    using f m(1) len sc code_roundtrip [OF m(2)]
    by (auto simp: DecodeHeader_def w Let_def MaxTokenSize_def header_of_def MessageHeader_zero_def)
qed

subsection \<open>Reading a frame back\<close>

lemma tcp_wire_bound: "tcp_carries m \<Longrightarrow> int (length (tcp_wire m)) < 2 ^ 31"
  using getHeader_ext_length [of "int (length (body_wire m))"]
  by (auto simp: tcp_carries_def tcp_wire_def tcp_header_def MaxTokenSize_def tcp_consts split: prod.split)

lemma DecodeWithHeader_wire:
  assumes "tcp_carries m" "Options m0 = []" "Payload m0 = []"
  shows "DecodeWithHeader (body_wire m) (header_of m) m0 c =
     (if length (Options m) \<le> c
      then (m0\<lparr>Options := Options m, Payload := Payload m, Code := Code m, Token := Token m\<rparr>, Inr (int (length (tcp_wire m))))
      else (m0\<lparr>Options := take c (Options m)\<rparr>, Inl ErrOptionsTooSmall))"
proof -
  have m: "wire_ok (Options m)" "\<forall>o1 \<in> set (Options m). kept (signal_defs (Code m)) o1"
    using assms(1) by (auto simp: tcp_carries_def)
  note um = Options_Unmarshal_wire [OF m payload_wire_tail [of "Payload m"], of c]
  define proc where "proc = int (length (opts_wire (Options m) 0)) + (if payload_wire (Payload m) = [] then 0 else 1)"
  have pl: "drop (nat proc) (body_wire m) = Payload m" "0 \<le> proc"
      "proc + int (length (Payload m)) = int (length (body_wire m))"
    by (simp_all add: proc_def body_wire_def payload_wire_def nat_add_distrib)
  have b: "int (length (body_wire m)) < 2 ^ 31" "int (length (tcp_header m)) + int (length (body_wire m)) = int (length (tcp_wire m))"
    using tcp_wire_bound [OF assms(1)] by (simp_all add: tcp_wire_def)
  have cast: "CastTo (Unsigned 32) proc = proc"
      "CastTo (Unsigned 32) (int (length (Payload m))) = int (length (Payload m))"
      "CastTo (Unsigned 32) (int (length (tcp_header m)) + proc + int (length (Payload m))) = int (length (tcp_wire m))"
    using pl(2,3) b tcp_wire_bound [OF assms(1)] by (simp_all add: CastTo_def)
  have um': "Options_Unmarshal (Options m0) c (body_wire m) (signal_defs (HCode (header_of m))) =
      (if length (Options m) \<le> c then (Options m, Inr proc) else (take c (Options m), Inl ErrOptionsTooSmall))"
    using um by (simp add: assms(2) body_wire_def header_of_def proc_def)
  show ?thesis
  proof (cases "length (Options m) \<le> c")
    case True
    show ?thesis
      using True cast assms(3)
      unfolding DecodeWithHeader_def um' [unfolded if_P [OF True]] Let_def prod.case sum.case pl(1)
      by (simp add: header_of_def)
  next
    case False
    then show ?thesis
      using um' unfolding DecodeWithHeader_def by simp
  qed
qed

lemma tcp_Decode_wire:
  assumes "tcp_carries m" "Options m0 = []" "Payload m0 = []" "int (length (tcp_wire m @ rest)) < 2 ^ 32"
  shows "tcp_Decode (tcp_wire m @ rest) m0 c =
     (if length (Options m) \<le> c
      then (m0\<lparr>Options := Options m, Payload := Payload m, Code := Code m, Token := Token m\<rparr>, Inr (int (length (tcp_wire m))))
      else (m0\<lparr>Options := take c (Options m)\<rparr>, Inl ErrOptionsTooSmall))"
proof -
  have h: "DecodeHeader (tcp_wire m @ rest) MessageHeader_zero = (header_of m, Inr (int (length (tcp_header m))))"
    using DecodeHeader_wire [OF assms(1), of "body_wire m @ rest"] by (simp add: tcp_wire_def)
  have l: "\<not> CastTo (Unsigned 32) (int (length (tcp_wire m @ rest))) < HMessageLength (header_of m)"
    using assms(4) by (simp add: CastTo_def header_of_def)
  have d: "drop (nat (HLength (header_of m))) (take (nat (HMessageLength (header_of m))) (tcp_wire m @ rest)) = body_wire m"
    by (simp add: header_of_def) (simp add: tcp_wire_def)
  show ?thesis
    unfolding tcp_Decode_def h prod.case sum.case if_not_P [OF l] d
    by (rule DecodeWithHeader_wire [OF assms(1-3)])
qed

interpretation tcp: message_coder tcp_carries tcp_view tcp_wire tcp_Size tcp_Encode tcp_Decode
proof unfold_locales
  fix m buf assume c: "tcp_carries m"
  then have v: "length (Token m) \<le> MaxTokenSize"
    by (simp add: tcp_carries_def)
  then show "tcp_Size m = (int (length (tcp_wire m)), None)"
    by (simp add: tcp_Size_def tcp_Encode_wire)
  show "tcp_Encode m buf =
      (if length (tcp_wire m) \<le> length buf
       then (tcp_wire m @ drop (length (tcp_wire m)) buf, int (length (tcp_wire m)), None)
       else (buf, int (length (tcp_wire m)), Some ErrTooSmall))"
    using v by (rule tcp_Encode_wire)
next
  fix m m0 :: Message and c
  assume "tcp_carries m" "Options m0 = []" "Payload m0 = []" "length (Options m) \<le> c"
  then show "\<exists>m'. tcp_Decode (tcp_wire m) m0 c = (m', Inr (int (length (tcp_wire m)))) \<and> tcp_view m' = tcp_view m
      \<and> Payload m' = Payload m"
    using tcp_Decode_wire [of m m0 "[]" c] tcp_wire_bound [of m] by (simp add: tcp_view_def)
next
  fix m m0 :: Message and c
  assume "tcp_carries m" "Options m0 = []" "Payload m0 = []" "c < length (Options m)"
  then show "\<exists>m'. tcp_Decode (tcp_wire m) m0 c = (m', Inl ErrOptionsTooSmall) \<and> length (Options m') = c \<and> Payload m' = []"
    using tcp_Decode_wire [of m m0 "[]" c] tcp_wire_bound [of m] by simp
qed

text \<open>
  C8.  Frames of messages that TCP can carry round-trip and are self-delimiting: \<open>Decode\<close> of a frame followed
  by any bytes, into a reset message, gives back token, options, code and payload, reports exactly the length of the frame and does not look at
  what follows (for data below 4 GiB, since its length is compared as a \<open>uint32\<close>).
\<close>

theorem tcp_roundtrip:
  assumes "tcp_carries m" "tcp_Encode m buf = (buf', n, None)" "length (Options m) \<le> c"
    "Options m0 = []" "Payload m0 = []" "n + int (length rest) < 2 ^ 32"
  shows "(case tcp_Decode (take (nat n) buf' @ rest) m0 c of
            (m', Inl e) \<Rightarrow> False
          | (m', Inr k) \<Rightarrow> k = n \<and> Token m' = Token m \<and> Options m' = Options m \<and> Code m' = Code m
              \<and> Payload m' = Payload m \<and> MessageID m' = MessageID m0 \<and> Type m' = Type m0)
         \<and> drop (nat n) buf' = drop (nat n) buf \<and> tcp_Size m = (n, None)"
proof -
  have n: "n = int (length (tcp_wire m))" "buf' = tcp_wire m @ drop (length (tcp_wire m)) buf"
    using assms(2) by (auto simp: tcp.encode_law [OF assms(1)] split: if_splits)
  show ?thesis
    using assms(3,6) tcp_Decode_wire [OF assms(1,4,5), of rest c]
    by (simp add: n tcp.size_law [OF assms(1)])
qed

theorem tcp_roundtrip_witness:
  "\<exists>buf' n. tcp_Encode \<lparr>Token = [1, 2], Options = [\<lparr>ID = 11, Value = [97]\<rparr>], Code = 1, Payload = [5], MessageID = -1, Type = -1\<rparr>
        (replicate 16 0) = (buf', n, None)
     \<and> (\<exists>m'. tcp_Decode (take (nat n) buf' @ [9, 9]) \<lparr>Token = [], Options = [], Code = 0, Payload = [], MessageID = -1, Type = -1\<rparr> 16
          = (m', Inr n) \<and> Payload m' = [5])"
proof -
  let ?m = "\<lparr>Token = [1, 2], Options = [\<lparr>ID = 11, Value = [97]\<rparr>], Code = 1, Payload = [5], MessageID = -1, Type = -1\<rparr> :: Message"
  have l: "length (body_wire ?m) = 4"
    by (simp add: body_wire_def payload_wire_def option_wire_def header_wire_def ext_wire_def extendOpt_def extend_consts)
  then have c: "tcp_carries ?m"
    by (simp add: tcp_carries_def MaxTokenSize_def wire_ok_def opts_sorted_def max_extended_def
        kept_def signal_defs_def CoapOptionDefs_def tcp_consts)
  moreover have "length (tcp_wire ?m) = 8"
    using l by (simp add: tcp_wire_def tcp_header_def getHeader_def tcp_consts)
  ultimately obtain buf' where e: "tcp_Encode ?m (replicate 16 0) = (buf', 8, None)"
    by (simp add: tcp.encode_law)
  from tcp_roundtrip [OF c e, of 16 "\<lparr>Token = [], Options = [], Code = 0, Payload = [], MessageID = -1, Type = -1\<rparr>" "[9, 9]"] e
  show ?thesis by (auto split: prod.splits sum.splits)
qed

end
