(* ===== verification/Pool_Message.thy ===== *)
theory Pool_Message
  imports Udp_Coder Tcp_Coder
begin

text \<open>
  The message with a life cycle, \<open>message/pool/message.go\<close>: a \<open>message.Message\<close> with the buffers
  its option values live in, a body to be read, and the marks the pool and the connections use.

  The context of a message and its control message are handed through and not interpreted; the
  control message is a value of an arbitrary type.  Bodies are in-memory readers.  A capacity the
  code asks for (\<open>cap\<close>) is an argument, since the growth of a slice by \<open>append\<close> is the runtime's.
  A panic is \<open>None\<close>.
\<close>

record 'cm PMessage =
  lifetime :: u64
  msg :: Message
  controlMessage :: "'cm option"
  hijacked :: bool
  isModified :: bool
  valueBuffer :: bytes
  origValueBuffer :: bytes
  body :: "reader option"
  sequence :: u64
  bufferUnmarshal :: bytes
  bufferMarshal :: bytes

definition valueBufferSize :: nat where "valueBufferSize = 256"

definition NewMessage :: "'cm PMessage" where
  "NewMessage =
     \<lparr>lifetime = 0,
      msg = \<lparr>Token = [], Options = [], Code = codes_Empty, Payload = [], MessageID = -1, Type = Unset\<rparr>,
      controlMessage = None, hijacked = False, isModified = False,
      valueBuffer = go_make valueBufferSize, origValueBuffer = go_make valueBufferSize,
      body = None, sequence = 0, bufferUnmarshal = go_make 256, bufferMarshal = go_make 256\<rparr>"

abbreviation opts_of :: "'cm PMessage \<Rightarrow> Options" where "opts_of r \<equiv> Options (msg r)"

definition set_options :: "Options \<Rightarrow> 'cm PMessage \<Rightarrow> 'cm PMessage" where
  "set_options os r = r\<lparr>msg := (msg r)\<lparr>Options := os\<rparr>\<rparr>"

subsection \<open>Plain fields\<close>

definition PM_Generation :: "'cm PMessage \<Rightarrow> u64" where
  "PM_Generation r = drop_bit 1 (lifetime r)"

text \<open>
  \<open>Reset\<close>; \<open>capM\<close> and \<open>capU\<close> are the capacities of the two scratch buffers.
\<close>

definition PM_Reset :: "nat \<Rightarrow> nat \<Rightarrow> 'cm PMessage \<Rightarrow> 'cm PMessage" where
  "PM_Reset capM capU r =
     r\<lparr>msg := \<lparr>Token = [], Options = [], Code = codes_Empty, Payload = [], MessageID = -1, Type = Unset\<rparr>,
       valueBuffer := origValueBuffer r, body := None, isModified := False, controlMessage := None,
       bufferMarshal := (if capM > 1024 then go_make 256 else bufferMarshal r),
       bufferUnmarshal := (if capU > 1024 then go_make 256 else bufferUnmarshal r)\<rparr>"

definition PM_SetMessage :: "nat \<Rightarrow> nat \<Rightarrow> Message \<Rightarrow> 'cm PMessage \<Rightarrow> 'cm PMessage" where
  "PM_SetMessage capM capU m r =
     (let r1 = (PM_Reset capM capU r)\<lparr>msg := m\<rparr>;
          r2 = (if length (Payload m) > 0 then r1\<lparr>body := Some (NewReader (Payload m))\<rparr> else r1)
      in r2\<lparr>isModified := True\<rparr>)"

definition PM_SetControlMessage :: "'cm option \<Rightarrow> 'cm PMessage \<Rightarrow> 'cm PMessage" where
  "PM_SetControlMessage cm r = r\<lparr>controlMessage := cm\<rparr>"

definition PM_UpsertControlMessage :: "'cm option \<Rightarrow> 'cm PMessage \<Rightarrow> 'cm PMessage" where
  "PM_UpsertControlMessage cm r =
     (if controlMessage r \<noteq> None then r else PM_SetControlMessage cm r)"

definition PM_SetMessageID :: "int \<Rightarrow> 'cm PMessage \<Rightarrow> 'cm PMessage" where
  "PM_SetMessageID mid r = r\<lparr>msg := (msg r)\<lparr>MessageID := mid\<rparr>, isModified := True\<rparr>"

definition PM_UpsertMessageID :: "int \<Rightarrow> 'cm PMessage \<Rightarrow> 'cm PMessage" where
  "PM_UpsertMessageID mid r = (if ValidateMID (MessageID (msg r)) then r else PM_SetMessageID mid r)"

definition PM_SetType :: "int \<Rightarrow> 'cm PMessage \<Rightarrow> 'cm PMessage" where
  "PM_SetType typ r = r\<lparr>msg := (msg r)\<lparr>Type := typ\<rparr>, isModified := True\<rparr>"

definition PM_UpsertType :: "int \<Rightarrow> 'cm PMessage \<Rightarrow> 'cm PMessage" where
  "PM_UpsertType typ r = (if ValidateType (Type (msg r)) then r else PM_SetType typ r)"

definition PM_SetCode :: "u16 \<Rightarrow> 'cm PMessage \<Rightarrow> 'cm PMessage" where
  "PM_SetCode code r = r\<lparr>msg := (msg r)\<lparr>Code := code\<rparr>, isModified := True\<rparr>"

definition PM_SetToken :: "bytes \<Rightarrow> 'cm PMessage \<Rightarrow> 'cm PMessage" where
  "PM_SetToken token r = r\<lparr>msg := (msg r)\<lparr>Token := token\<rparr>\<rparr>"

definition PM_SetBody :: "reader option \<Rightarrow> 'cm PMessage \<Rightarrow> 'cm PMessage" where
  "PM_SetBody s r = r\<lparr>body := s, isModified := True\<rparr>"

definition PM_SetSequence :: "u64 \<Rightarrow> 'cm PMessage \<Rightarrow> 'cm PMessage" where
  "PM_SetSequence sq r = r\<lparr>sequence := sq\<rparr>"

definition PM_Hijack :: "'cm PMessage \<Rightarrow> 'cm PMessage" where
  "PM_Hijack r = r\<lparr>hijacked := True\<rparr>"

definition PM_SetModified :: "bool \<Rightarrow> 'cm PMessage \<Rightarrow> 'cm PMessage" where
  "PM_SetModified b r = r\<lparr>isModified := b\<rparr>"

subsection \<open>Options\<close>

definition PM_Remove :: "u16 \<Rightarrow> 'cm PMessage \<Rightarrow> 'cm PMessage" where
  "PM_Remove opt r = (set_options (Options_Remove (opts_of r) opt) r)\<lparr>isModified := True\<rparr>"

text \<open>
  The pattern of the option setters: the value goes into \<open>valueBuffer\<close>; when that is too small it is
  grown by the size reported and the call is repeated, on the options as the first call left
  them; any other error panics.  The used part of the buffer is then cut off.
\<close>

definition store_option :: "(Options \<Rightarrow> bytes \<Rightarrow> stored) \<Rightarrow> 'cm PMessage \<Rightarrow> 'cm PMessage option" where
  "store_option f r =
     (let (buf1, os1, used1, err1) = f (opts_of r) (valueBuffer r);
          (buf, os, used, err) =
            (if err1 = Some ErrTooSmall then f os1 (buf1 @ go_make (nat used1))
             else (buf1, os1, used1, err1))
      in if err \<noteq> None then None
         else Some ((set_options os r)\<lparr>valueBuffer := drop (nat used) buf, isModified := True\<rparr>))"

definition PM_SetOptionString :: "u16 \<Rightarrow> bytes \<Rightarrow> 'cm PMessage \<Rightarrow> 'cm PMessage option" where
  "PM_SetOptionString opt v = store_option (\<lambda>os buf. Options_SetString os buf opt v)"

definition PM_AddOptionString :: "u16 \<Rightarrow> bytes \<Rightarrow> 'cm PMessage \<Rightarrow> 'cm PMessage option" where
  "PM_AddOptionString opt v = store_option (\<lambda>os buf. Options_AddString os buf opt v)"

definition PM_SetOptionUint32 :: "u16 \<Rightarrow> u32 \<Rightarrow> 'cm PMessage \<Rightarrow> 'cm PMessage option" where
  "PM_SetOptionUint32 opt v = store_option (\<lambda>os buf. Options_SetUint32 os buf opt v)"

definition PM_AddOptionUint32 :: "u16 \<Rightarrow> u32 \<Rightarrow> 'cm PMessage \<Rightarrow> 'cm PMessage option" where
  "PM_AddOptionUint32 opt v = store_option (\<lambda>os buf. Options_AddUint32 os buf opt v)"

definition PM_AddQuery :: "bytes \<Rightarrow> 'cm PMessage \<Rightarrow> 'cm PMessage option" where
  "PM_AddQuery query = PM_AddOptionString URIQuery query"

definition PM_SetContentFormat :: "u16 \<Rightarrow> 'cm PMessage \<Rightarrow> 'cm PMessage option" where
  "PM_SetContentFormat contentFormat = PM_SetOptionUint32 ContentFormat (ucast contentFormat)"

definition PM_SetObserve :: "u32 \<Rightarrow> 'cm PMessage \<Rightarrow> 'cm PMessage option" where
  "PM_SetObserve observe = PM_SetOptionUint32 Observe observe"

definition PM_SetAccept :: "u16 \<Rightarrow> 'cm PMessage \<Rightarrow> 'cm PMessage option" where
  "PM_SetAccept contentFormat = PM_SetOptionUint32 Accept (ucast contentFormat)"

definition grow_to :: "bytes \<Rightarrow> nat \<Rightarrow> bytes" where
  "grow_to buf n = (if length buf < n then buf @ go_make (n - length buf) else buf)"

definition PM_AddOptionBytes :: "u16 \<Rightarrow> bytes \<Rightarrow> 'cm PMessage \<Rightarrow> 'cm PMessage" where
  "PM_AddOptionBytes opt val r =
     (let buf = go_copy (grow_to (valueBuffer r) (length val)) val;
          n = min (length buf) (length val)
      in (set_options (opt_add (opts_of r) opt (take n buf)) r)\<lparr>valueBuffer := drop n buf, isModified := True\<rparr>)"

definition PM_SetOptionBytes :: "u16 \<Rightarrow> bytes \<Rightarrow> 'cm PMessage \<Rightarrow> 'cm PMessage" where
  "PM_SetOptionBytes opt val r =
     (let buf = go_copy (grow_to (valueBuffer r) (length val)) val;
          n = min (length buf) (length val)
      in (set_options (opt_put (opts_of r) opt (take n buf)) r)\<lparr>valueBuffer := drop n buf, isModified := True\<rparr>)"

definition PM_AddETag :: "bytes \<Rightarrow> 'cm PMessage \<Rightarrow> go_error + 'cm PMessage" where
  "PM_AddETag val r =
     (if \<not> VerifyOptLen ETag (int (length val)) then Inl ErrInvalidValueLength
      else Inr (PM_AddOptionBytes ETag val r))"

definition PM_SetETag :: "bytes \<Rightarrow> 'cm PMessage \<Rightarrow> go_error + 'cm PMessage" where
  "PM_SetETag val r =
     (if \<not> VerifyOptLen ETag (int (length val)) then Inl ErrInvalidValueLength
      else Inr (PM_SetOptionBytes ETag val r))"

definition PM_SetEcho :: "bytes \<Rightarrow> 'cm PMessage \<Rightarrow> go_error + 'cm PMessage" where
  "PM_SetEcho val r =
     (if \<not> VerifyOptLen Echo (int (length val)) then Inl ErrInvalidValueLength
      else Inr (PM_SetOptionBytes Echo val r))"

definition PM_AddRequestTag :: "bytes \<Rightarrow> 'cm PMessage \<Rightarrow> go_error + 'cm PMessage" where
  "PM_AddRequestTag val r =
     (if \<not> VerifyOptLen RequestTag (int (length val)) then Inl ErrInvalidValueLength
      else Inr (PM_AddOptionBytes RequestTag val r))"

definition PM_SetRequestTag :: "bytes \<Rightarrow> 'cm PMessage \<Rightarrow> go_error + 'cm PMessage" where
  "PM_SetRequestTag val r =
     (if \<not> VerifyOptLen RequestTag (int (length val)) then Inl ErrInvalidValueLength
      else Inr (PM_SetOptionBytes RequestTag val r))"

definition PM_ResetOptionsTo :: "Options \<Rightarrow> 'cm PMessage \<Rightarrow> 'cm PMessage option" where
  "PM_ResetOptionsTo in_opts r =
     (let first = Options_ResetOptionsTo (valueBuffer r) in_opts;
          (buf, second) =
            (case first of
               Inl (ErrTooSmall, used) \<Rightarrow>
                 (let buf1 = valueBuffer r @ go_make (nat used)
                  in (buf1, Options_ResetOptionsTo buf1 in_opts))
             | _ \<Rightarrow> (valueBuffer r, first))
      in case second of
           Inl _ \<Rightarrow> None
         | Inr (opts, used) \<Rightarrow>
             Some ((set_options opts r)\<lparr>valueBuffer := drop (nat used) buf,
                     isModified := (if length in_opts > 0 then True else isModified r)\<rparr>))"

text \<open>
  \<open>SetPath\<close>; the options keep what a failed call made of their cells.
\<close>

definition PM_SetPath :: "bytes \<Rightarrow> 'cm PMessage \<Rightarrow> 'cm PMessage \<times> go_error option" where
  "PM_SetPath p r =
     (let (buf1, os1, used1, err1) = Options_SetPath (opts_of r) (valueBuffer r) p in
      if err1 = Some ErrTooSmall then
        (let (expandBy, errSize) = GetPathBufferSize p in
         if errSize \<noteq> None then (set_options os1 r, errSize)
         else
           (let (buf, os, used, err) = Options_SetPath os1 (buf1 @ go_make (nat expandBy)) p in
            if err \<noteq> None then ((set_options os r)\<lparr>valueBuffer := buf\<rparr>, err)
            else ((set_options os r)\<lparr>valueBuffer := drop (nat used) buf, isModified := True\<rparr>, None)))
      else if err1 \<noteq> None then (set_options os1 r, err1)
      else ((set_options os1 r)\<lparr>valueBuffer := drop (nat used1) buf1, isModified := True\<rparr>, None))"

definition PM_MustSetPath :: "bytes \<Rightarrow> 'cm PMessage \<Rightarrow> 'cm PMessage option" where
  "PM_MustSetPath p r = (case PM_SetPath p r of (r', None) \<Rightarrow> Some r' | (_, Some _) \<Rightarrow> None)"

definition PM_ContentFormat :: "'cm PMessage \<Rightarrow> u16 \<times> go_error option" where
  "PM_ContentFormat r =
     (let (v, err) = Options_GetUint32 (opts_of r) ContentFormat
      in (word_of_int (CastTo (Unsigned 16) (uint v)), err))"

definition PM_Accept :: "'cm PMessage \<Rightarrow> u16 \<times> go_error option" where
  "PM_Accept r =
     (let (v, err) = Options_GetUint32 (opts_of r) Accept
      in (word_of_int (CastTo (Unsigned 16) (uint v)), err))"

subsection \<open>Bodies\<close>

definition PM_BodySize :: "'cm PMessage \<Rightarrow> 'cm PMessage \<times> (go_error + int)" where
  "PM_BodySize r =
     (case body r of
        None \<Rightarrow> (r, Inr 0)
      | Some b \<Rightarrow>
          (case reader_Seek b 0 SeekCurrent of
             (b1, Inl err) \<Rightarrow> (r\<lparr>body := Some b1\<rparr>, Inl err)
           | (b1, Inr orig) \<Rightarrow>
               (case reader_Seek b1 0 SeekStart of
                  (b2, Inl err) \<Rightarrow> (r\<lparr>body := Some b2\<rparr>, Inl err)
                | (b2, Inr _) \<Rightarrow>
                    (case reader_Seek b2 0 SeekEnd of
                       (b3, Inl err) \<Rightarrow> (r\<lparr>body := Some b3\<rparr>, Inl err)
                     | (b3, Inr sz) \<Rightarrow>
                         (case reader_Seek b3 orig SeekStart of
                            (b4, Inl err) \<Rightarrow> (r\<lparr>body := Some b4\<rparr>, Inl err)
                          | (b4, Inr _) \<Rightarrow> (r\<lparr>body := Some b4\<rparr>, Inr sz))))))"

definition PM_ReadBody :: "'cm PMessage \<Rightarrow> 'cm PMessage \<times> (go_error + bytes)" where
  "PM_ReadBody r =
     (case body r of
        None \<Rightarrow> (r, Inr [])
      | Some _ \<Rightarrow>
          (case PM_BodySize r of
             (r1, Inl err) \<Rightarrow> (r1, Inl err)
           | (r1, Inr sz) \<Rightarrow>
               if sz = 0 then (r1, Inr [])
               else
                 (case reader_Seek (the (body r1)) 0 SeekStart of
                    (b2, Inl err) \<Rightarrow> (r1\<lparr>body := Some b2\<rparr>, Inl err)
                  | (b2, Inr _) \<Rightarrow>
                      (let payloadLen = (if 1024 < sz then nat sz else 1024);
                           (b3, b, err0) = reader_ReadFull b2 payloadLen;
                           err = (if (err0 = Some io_ErrUnexpectedEOF \<or> err0 = Some io_EOF) \<and> int (length b) = sz
                                  then None else err0)
                       in case err of
                            Some e \<Rightarrow> (r1\<lparr>body := Some b3\<rparr>, Inl e)
                          | None \<Rightarrow> (r1\<lparr>body := Some b3\<rparr>, Inr b)))))"

definition PM_toMessage :: "'cm PMessage \<Rightarrow> 'cm PMessage \<times> (go_error + Message)" where
  "PM_toMessage r =
     (case PM_ReadBody r of
        (r1, Inl err) \<Rightarrow> (r1, Inl err)
      | (r1, Inr payload) \<Rightarrow> (r1, Inr ((msg r1)\<lparr>Payload := payload\<rparr>)))"

subsection \<open>Encoding and decoding\<close>

definition PM_MarshalWithEncoder ::
    "(Message \<Rightarrow> int \<times> go_error option) \<Rightarrow> (Message \<Rightarrow> bytes \<Rightarrow> bytes \<times> int \<times> go_error option) \<Rightarrow>
     'cm PMessage \<Rightarrow> 'cm PMessage \<times> (go_error + bytes)" where
  "PM_MarshalWithEncoder Size Encode r =
     (case PM_toMessage r of
        (r1, Inl err) \<Rightarrow> (r1, Inl err)
      | (r1, Inr m) \<Rightarrow>
          (case Size m of
             (_, Some err) \<Rightarrow> (r1, Inl err)
           | (sz, None) \<Rightarrow>
               (let buf = grow_to (bufferMarshal r1) (nat sz) in
                case Encode m buf of
                  (buf', _, Some err) \<Rightarrow> (r1\<lparr>bufferMarshal := buf'\<rparr>, Inl err)
                | (buf', n, None) \<Rightarrow>
                    (r1\<lparr>bufferMarshal := take (nat n) buf'\<rparr>, Inr (take (nat n) buf')))))"

text \<open>
  \<open>decode\<close> retries with an option slice of twice the length when the slice was too small; the
  capacity of the first attempt is an argument, and the number of attempts is bounded by fuel.
\<close>

fun PM_decode ::
    "(bytes \<Rightarrow> Message \<Rightarrow> nat \<Rightarrow> Message \<times> (go_error + int)) \<Rightarrow> nat \<Rightarrow> nat \<Rightarrow> 'cm PMessage \<Rightarrow>
     ('cm PMessage \<times> (go_error + int)) option" where
  "PM_decode Decode 0 capacity r = None"
| "PM_decode Decode (Suc fuel) capacity r =
     (let (m, res) = Decode (bufferUnmarshal r) (msg r) capacity in
      if res = Inl ErrOptionsTooSmall
      then PM_decode Decode fuel (length (Options m) * 2) (r\<lparr>msg := m\<lparr>Options := []\<rparr>\<rparr>)
      else Some (r\<lparr>msg := m\<rparr>, res))"

definition PM_UnmarshalWithDecoder ::
    "(bytes \<Rightarrow> Message \<Rightarrow> nat \<Rightarrow> Message \<times> (go_error + int)) \<Rightarrow> nat \<Rightarrow> nat \<Rightarrow> bytes \<Rightarrow> 'cm PMessage \<Rightarrow>
     ('cm PMessage \<times> (go_error + int)) option" where
  "PM_UnmarshalWithDecoder Decode fuel capacity data r =
     (let buf = go_copy (grow_to (bufferUnmarshal r) (length data)) data;
          r1 = r\<lparr>body := None, bufferUnmarshal := take (length data) buf\<rparr>
      in case PM_decode Decode fuel capacity r1 of
           None \<Rightarrow> None
         | Some (r2, Inl err) \<Rightarrow> Some (r2, Inl err)
         | Some (r2, Inr n) \<Rightarrow>
             Some (if length (Payload (msg r2)) > 0
                   then r2\<lparr>body := Some (NewReader (Payload (msg r2)))\<rparr> else r2, Inr n))"

definition PM_IsSeparateMessage :: "'cm PMessage \<Rightarrow> bool" where
  "PM_IsSeparateMessage r \<longleftrightarrow>
     Code (msg r) = codes_Empty \<and> Token (msg r) = [] \<and> Type (msg r) = Acknowledgement
     \<and> length (opts_of r) = 0 \<and> body r = None"

definition PM_setupCommon :: "u16 \<Rightarrow> bytes \<Rightarrow> bytes \<Rightarrow> Options \<Rightarrow> 'cm PMessage \<Rightarrow> ('cm PMessage \<times> go_error option) option" where
  "PM_setupCommon code path token opts r =
     (case PM_ResetOptionsTo opts (PM_SetToken token (PM_SetCode code r)) of
        None \<Rightarrow> None
      | Some r1 \<Rightarrow> Some (PM_SetPath path r1))"

definition PM_SetupGet :: "bytes \<Rightarrow> bytes \<Rightarrow> Options \<Rightarrow> 'cm PMessage \<Rightarrow> ('cm PMessage \<times> go_error option) option" where
  "PM_SetupGet path token opts = PM_setupCommon codes_GET path token opts"

definition PM_SetupDelete :: "bytes \<Rightarrow> bytes \<Rightarrow> Options \<Rightarrow> 'cm PMessage \<Rightarrow> ('cm PMessage \<times> go_error option) option" where
  "PM_SetupDelete path token opts = PM_setupCommon codes_DELETE path token opts"

text \<open>The setups that carry a body: \<open>SetupPost\<close>, \<open>SetupPut\<close>, \<open>SetupFetch\<close>, \<open>SetupPatch\<close>, \<open>SetupIPatch\<close>.\<close>

definition PM_setupWithBody :: "u16 \<Rightarrow> bytes \<Rightarrow> bytes \<Rightarrow> u16 \<Rightarrow> reader option \<Rightarrow> Options \<Rightarrow> 'cm PMessage \<Rightarrow>
    ('cm PMessage \<times> go_error option) option" where
  "PM_setupWithBody code path token contentFormat payload opts r =
     (case PM_setupCommon code path token opts r of
        None \<Rightarrow> None
      | Some (r1, Some err) \<Rightarrow> Some (r1, Some err)
      | Some (r1, None) \<Rightarrow>
          (case payload of
             None \<Rightarrow> Some (r1, None)
           | Some p \<Rightarrow>
               (case PM_SetContentFormat contentFormat r1 of
                  None \<Rightarrow> None
                | Some r2 \<Rightarrow> Some (PM_SetBody (Some p) r2, None))))"

definition PM_SetupPost where "PM_SetupPost = PM_setupWithBody codes_POST"
definition PM_SetupPut where "PM_SetupPut = PM_setupWithBody codes_PUT"
definition PM_SetupFetch where "PM_SetupFetch = PM_setupWithBody codes_FETCH"
definition PM_SetupPatch where "PM_SetupPatch = PM_setupWithBody codes_PATCH"
definition PM_SetupIPatch where "PM_SetupIPatch = PM_setupWithBody codes_IPATCH"

text \<open>\<open>Clone\<close> of \<open>r\<close> into \<open>m\<close>: the two messages after the call and the error.\<close>

definition PM_Clone :: "'cm PMessage \<Rightarrow> 'cm PMessage \<Rightarrow> ('cm PMessage \<times> 'cm PMessage \<times> go_error option) option" where
  "PM_Clone r m =
     (case PM_ResetOptionsTo (opts_of r) (PM_SetToken (Token (msg r)) (PM_SetCode (Code (msg r)) m)) of
        None \<Rightarrow> None
      | Some m1 \<Rightarrow>
          (let m2 = PM_SetControlMessage (controlMessage r)
                      (PM_SetMessageID (MessageID (msg r)) (PM_SetType (Type (msg r)) m1))
           in case body r of
                None \<Rightarrow> Some (r, m2, None)
              | Some b \<Rightarrow>
                  (case reader_Seek b 0 SeekCurrent of
                     (b1, Inl err) \<Rightarrow> Some (r\<lparr>body := Some b1\<rparr>, m2, Some err)
                   | (b1, Inr n) \<Rightarrow>
                       (case reader_Seek b1 0 SeekStart of
                          (b2, Inl err) \<Rightarrow> Some (r\<lparr>body := Some b2\<rparr>, m2, Some err)
                        | (b2, Inr _) \<Rightarrow>
                            (let (b3, data) = reader_ReadAll b2 in
                             case reader_Seek b3 n SeekStart of
                               (b4, Inl err) \<Rightarrow> Some (r\<lparr>body := Some b4\<rparr>, m2, Some err)
                             | (b4, Inr _) \<Rightarrow>
                                 Some (r\<lparr>body := Some b4\<rparr>, PM_SetBody (Some (NewReader data)) m2, None))))))"

subsection \<open>Bodies are read whole\<close>

lemma PM_BodySize_eq: "PM_BodySize r = (r, Inr (case body r of None \<Rightarrow> 0 | Some b \<Rightarrow> int (length (rd_data b))))"
  by (simp add: PM_BodySize_def reader_Seek_def split: option.split)

definition body_data :: "'cm PMessage \<Rightarrow> bytes" where
  "body_data r = (case body r of None \<Rightarrow> [] | Some b \<Rightarrow> rd_data b)"

text \<open>Reading leaves the position at the end; nothing else of the message changes.\<close>

definition body_read :: "'cm PMessage \<Rightarrow> 'cm PMessage" where
  "body_read r = (case body r of
      None \<Rightarrow> r
    | Some b \<Rightarrow> if rd_data b = [] then r else r\<lparr>body := Some (b\<lparr>rd_pos := length (rd_data b)\<rparr>)\<rparr>)"

lemma PM_ReadBody_eq: "PM_ReadBody r = (body_read r, Inr (body_data r))"
proof (cases "body r")
  case None
  then show ?thesis by (simp add: PM_ReadBody_def body_read_def body_data_def)
next
  case (Some b)
  show ?thesis
  proof (cases "rd_data b = []")
    case True
    then show ?thesis
      using Some by (simp add: PM_ReadBody_def PM_BodySize_eq body_read_def body_data_def)
  next
    case False
    then show ?thesis
      using Some
      by (auto simp: PM_ReadBody_def PM_BodySize_eq body_read_def body_data_def reader_Seek_def
          reader_ReadFull_def reader_rest_def io_EOF_def io_ErrUnexpectedEOF_def Let_def)
  qed
qed

lemma msg_body_read [simp]: "msg (body_read r) = msg r" "bufferMarshal (body_read r) = bufferMarshal r"
  by (simp_all add: body_read_def split: option.split)

lemma PM_toMessage_eq: "PM_toMessage r = (body_read r, Inr ((msg r)\<lparr>Payload := body_data r\<rparr>))"
  by (simp add: PM_toMessage_def PM_ReadBody_eq)

lemma length_grow_to: "n \<le> length (grow_to buf n)"
  by (simp add: grow_to_def)

text \<open>What a message stands for on the wire: its fields, with the body as payload.\<close>

abbreviation wire_msg :: "'cm PMessage \<Rightarrow> Message" where
  "wire_msg r \<equiv> (msg r)\<lparr>Payload := body_data r\<rparr>"

subsection \<open>Any coder that keeps its contract\<close>

context message_coder
begin

lemma marshal_ok:
  assumes "carries (wire_msg r)"
  shows "PM_MarshalWithEncoder Size Encode r = ((body_read r)\<lparr>bufferMarshal := wire (wire_msg r)\<rparr>, Inr (wire (wire_msg r)))"
  using length_grow_to [of "length (wire (wire_msg r))" "bufferMarshal r"]
  by (simp add: PM_MarshalWithEncoder_def PM_toMessage_eq size_law [OF assms] encode_law [OF assms])

lemma decode_ok:
  assumes "carries m" "bufferUnmarshal r = wire m" "opts_of r = []" "Payload (msg r) = []" "0 < c"
    "length (Options m) < c + fuel"
  shows "\<exists>m'. PM_decode Decode (Suc fuel) c r = Some (r\<lparr>msg := m'\<rparr>, Inr (int (length (wire m))))
           \<and> view m' = view m \<and> Payload m' = Payload m"
  using assms
proof (induction fuel arbitrary: c r)
  case 0
  then show ?case
    using decode_law [OF 0(1), of "msg r" c] by fastforce
next
  case (Suc fuel)
  show ?case
  proof (cases "length (Options m) \<le> c")
    case True
    then show ?thesis
      using decode_law [OF assms(1), of "msg r" c] Suc.prems by fastforce
  next
    case False
    then obtain m1 where d: "Decode (wire m) (msg r) c = (m1, Inl ErrOptionsTooSmall)"
        "length (Options m1) = c" "Payload m1 = []"
      using decode_full_law [OF assms(1), of "msg r" c] Suc.prems by auto
    have "\<exists>m'. PM_decode Decode (Suc fuel) (c * 2) (r\<lparr>msg := m1\<lparr>Options := []\<rparr>\<rparr>) =
        Some (r\<lparr>msg := m1\<lparr>Options := []\<rparr>\<rparr>\<lparr>msg := m'\<rparr>, Inr (int (length (wire m))))
           \<and> view m' = view m \<and> Payload m' = Payload m"
      using Suc.prems d by (intro Suc.IH) auto
    then show ?thesis
      using d Suc.prems(2) by (subst PM_decode.simps) (simp del: PM_decode.simps)
  qed
qed

lemma unmarshal_ok:
  assumes "carries m" "opts_of r = []" "Payload (msg r) = []" "0 < c" "length (Options m) < c + fuel"
  shows "\<exists>m' r'. PM_UnmarshalWithDecoder Decode (Suc fuel) c (wire m) r = Some (r', Inr (int (length (wire m))))
           \<and> msg r' = m' \<and> view m' = view m \<and> body_data r' = Payload m"
proof -
  let ?r = "r\<lparr>body := None, bufferUnmarshal := wire m\<rparr>"
  have buf: "take (length (wire m)) (go_copy (grow_to (bufferUnmarshal r) (length (wire m))) (wire m)) = wire m"
    using length_grow_to by (rule take_go_copy)
  obtain m' where d: "PM_decode Decode (Suc fuel) c ?r = Some (?r\<lparr>msg := m'\<rparr>, Inr (int (length (wire m))))"
      "view m' = view m" "Payload m' = Payload m"
    using decode_ok [of m ?r c fuel] assms by auto
  show ?thesis
    unfolding PM_UnmarshalWithDecoder_def Let_def buf d(1)
    using d(2,3) by (auto simp: body_data_def NewReader_def)
qed

end

subsection \<open>Properties of messages on the wire\<close>

text \<open>
  C9.  A pooled message survives the trip over either transport.  Marshalling never fails for a message
  the transport can carry, whatever its scratch buffers hold and wherever its body was read to;
  unmarshalling into a reset message returns after finitely many attempts, however small (but
  not zero) the capacity of the option slice, and gives back every field the transport carries,
  with the payload as a body to be read from its start.
\<close>

theorem pooled_message_roundtrip:
  assumes "opts_of r0 = []" "Payload (msg r0) = []" "0 < c" "length (opts_of r) < c + fuel"
  shows "(udp_carries (wire_msg r) \<longrightarrow>
            (\<exists>r1 data r2 n. PM_MarshalWithEncoder udp_Size udp_Encode r = (r1, Inr data) \<and> msg r1 = msg r
               \<and> PM_UnmarshalWithDecoder udp_Decode (Suc fuel) c data r0 = Some (r2, Inr n)
               \<and> n = int (length data) \<and> msg r2 = wire_msg r \<and> body_data r2 = body_data r))
         \<and> (tcp_carries (wire_msg r) \<longrightarrow>
            (\<exists>r1 data r2 n. PM_MarshalWithEncoder tcp_Size tcp_Encode r = (r1, Inr data) \<and> msg r1 = msg r
               \<and> PM_UnmarshalWithDecoder tcp_Decode (Suc fuel) c data r0 = Some (r2, Inr n)
               \<and> n = int (length data) \<and> tcp_view (msg r2) = tcp_view (wire_msg r) \<and> body_data r2 = body_data r))"
  using udp.marshal_ok [of r] udp.unmarshal_ok [of "wire_msg r" r0 c fuel]
    tcp.marshal_ok [of r] tcp.unmarshal_ok [of "wire_msg r" r0 c fuel] assms
  by auto

theorem pooled_message_roundtrip_witness:
  "\<exists>r1 data r2 n. PM_MarshalWithEncoder udp_Size udp_Encode
        (NewMessage\<lparr>msg := \<lparr>Token = [1], Options = [\<lparr>ID = 11, Value = [97]\<rparr>], Code = 2, Payload = [], MessageID = 7, Type = 1\<rparr>,
           body := Some \<lparr>rd_data = [4, 5], rd_pos = 2\<rparr>\<rparr> :: unit PMessage) = (r1, Inr data)
     \<and> PM_UnmarshalWithDecoder udp_Decode 2 1 data (NewMessage :: unit PMessage) = Some (r2, Inr n)
     \<and> body_data r2 = [4, 5]"
proof -
  let ?r = "NewMessage\<lparr>msg := \<lparr>Token = [1], Options = [\<lparr>ID = 11, Value = [97]\<rparr>], Code = 2, Payload = [], MessageID = 7, Type = 1\<rparr>,
      body := Some \<lparr>rd_data = [4, 5], rd_pos = 2\<rparr>\<rparr> :: unit PMessage"
  have "udp_carries (wire_msg ?r)"
    by (simp add: udp_carries_def ValidateMID_def MaxTokenSize_def wire_ok_def opts_sorted_def max_extended_def
        kept_def CoapOptionDefs_def)
  then show ?thesis
    using pooled_message_roundtrip [of "NewMessage :: unit PMessage" 1 ?r 1]
    by (simp add: NewMessage_def body_data_def numeral_2_eq_2) blast
qed

text \<open>
  C37.  The retry loop of \<open>decode\<close> doubles the length of the option slice it was given.  When the slice has
  capacity zero (as after \<open>SetMessage\<close> with no options and \<open>Reset\<close>) it stays at zero: on a datagram
  with at least one option the loop never returns, whatever the number of rounds.
\<close>

theorem decode_capacity_zero_diverges:
  assumes "udp_carries m" "Options m \<noteq> []" "bufferUnmarshal r = udp_wire m"
  shows "PM_decode udp_Decode fuel 0 r = None"
  using assms(3)
proof (induction fuel arbitrary: r)
  case (Suc fuel)
  then show ?case
    using assms(2) by (simp add: udp_Decode_wire [OF assms(1)])
qed simp

theorem decode_capacity_zero_diverges_witness:
  "\<exists>m. Options m \<noteq> [] \<and> PM_decode udp_Decode 1000 0 ((NewMessage :: unit PMessage)\<lparr>bufferUnmarshal := udp_wire m\<rparr>) = None"
proof -
  let ?m = "\<lparr>Token = [], Options = [\<lparr>ID = 11, Value = [97]\<rparr>], Code = 1, Payload = [], MessageID = 300, Type = 0\<rparr> :: Message"
  have c: "udp_carries ?m"
    by (simp add: udp_carries_def ValidateMID_def MaxTokenSize_def wire_ok_def opts_sorted_def max_extended_def
        kept_def CoapOptionDefs_def)
  from decode_capacity_zero_diverges [OF c, of "(NewMessage :: unit PMessage)\<lparr>bufferUnmarshal := udp_wire ?m\<rparr>" 1000]
  show ?thesis by (intro exI [of _ ?m]) simp
qed

subsection \<open>Options of a message\<close>

abbreviation opts_inv :: "'cm PMessage \<Rightarrow> bool" where
  "opts_inv r \<equiv> opts_sorted (opts_of r)"

lemma opts_of_set_options [simp]: "opts_of (set_options os r) = os"
  by (simp add: set_options_def)

text \<open>A setter that reports the number of bytes it needs and succeeds with that many.\<close>

lemma store_option_eq:
  assumes "\<And>os buf. f os buf = (if length w \<le> length buf then (w @ drop (length w) buf, g os, int (length w), None)
                                  else (buf, os, int (length w), Some ErrTooSmall))"
  shows "\<exists>buf. store_option f r = Some ((set_options (g (opts_of r)) r)\<lparr>valueBuffer := buf, isModified := True\<rparr>)"
  by (cases "length w \<le> length (valueBuffer r)") (auto simp: store_option_def assms)

lemma PM_SetOptionUint32_eq:
  "\<exists>buf. PM_SetOptionUint32 oid v r =
     Some ((set_options (opt_put (opts_of r) oid (uint_wire v)) r)\<lparr>valueBuffer := buf, isModified := True\<rparr>)"
  unfolding PM_SetOptionUint32_def by (rule store_option_eq [where w = "uint_wire v"]) (rule SetUint32_eq)

lemma PM_AddOptionUint32_eq:
  "\<exists>buf. PM_AddOptionUint32 oid v r =
     Some ((set_options (opt_add (opts_of r) oid (uint_wire v)) r)\<lparr>valueBuffer := buf, isModified := True\<rparr>)"
  unfolding PM_AddOptionUint32_def by (rule store_option_eq [where w = "uint_wire v"]) (rule AddUint32_eq)

definition path_value_ok :: "u16 \<Rightarrow> bytes \<Rightarrow> bool" where
  "path_value_ok oid v \<longleftrightarrow> oid \<noteq> URIPath \<or> length v \<le> maxPathValue"

lemma PM_SetOptionString_eq:
  assumes "path_value_ok oid v"
  shows "\<exists>buf. PM_SetOptionString oid v r =
     Some ((set_options (opt_put (opts_of r) oid v) r)\<lparr>valueBuffer := buf, isModified := True\<rparr>)"
  unfolding PM_SetOptionString_def
  by (rule store_option_eq [where w = v])
    (use assms in \<open>auto simp: Options_SetString_def SetBytes_eq path_value_ok_def\<close>)

lemma PM_AddOptionString_eq:
  assumes "path_value_ok oid v"
  shows "\<exists>buf. PM_AddOptionString oid v r =
     Some ((set_options (opt_add (opts_of r) oid v) r)\<lparr>valueBuffer := buf, isModified := True\<rparr>)"
  unfolding PM_AddOptionString_def
  by (rule store_option_eq [where w = v])
    (use assms in \<open>auto simp: Options_AddString_def AddBytes_eq path_value_ok_def\<close>)

lemma PM_SetOptionString_panics:
  "\<not> path_value_ok oid v \<Longrightarrow> PM_SetOptionString oid v r = None \<and> PM_AddOptionString oid v r = None"
  by (auto simp: PM_SetOptionString_def PM_AddOptionString_def store_option_def Options_SetString_def
      Options_AddString_def SetBytes_eq AddBytes_eq path_value_ok_def)

lemma PM_OptionBytes_eq:
  "\<exists>buf. PM_AddOptionBytes oid v r = (set_options (opt_add (opts_of r) oid v) r)\<lparr>valueBuffer := buf, isModified := True\<rparr>"
  "\<exists>buf. PM_SetOptionBytes oid v r = (set_options (opt_put (opts_of r) oid v) r)\<lparr>valueBuffer := buf, isModified := True\<rparr>"
  using length_grow_to [of "length v" "valueBuffer r"]
  by (auto simp: PM_AddOptionBytes_def PM_SetOptionBytes_def Let_def min_absorb2 go_copy_fits)

lemma PM_ResetOptionsTo_eq:
  assumes "opts_sorted os"
  shows "\<exists>buf b. PM_ResetOptionsTo os r = Some ((set_options os r)\<lparr>valueBuffer := buf, isModified := b\<rparr>)"
  using assms by (auto simp: PM_ResetOptionsTo_def ResetOptionsTo_eq Let_def)

text \<open>
  The option setters of a pooled message work for every size of the value buffer: they never panic
  (strings as path segments must not exceed 255 bytes, and panic if they do), replace or append
  exactly the values of their option, and keep the options sorted.
\<close>

lemma pooled_option_setters:
  assumes "opts_inv r"
  shows "(\<exists>r1. PM_SetOptionUint32 oid v r = Some r1 \<and> opts_inv r1
            \<and> vals (opts_of r1) = (vals (opts_of r))(oid := [uint_wire v])
            \<and> Options_GetUint32 (opts_of r1) oid = (v, None))
         \<and> (\<exists>r1. PM_AddOptionUint32 oid v r = Some r1 \<and> opts_inv r1
            \<and> vals (opts_of r1) = (vals (opts_of r))(oid := vals (opts_of r) oid @ [uint_wire v]))
         \<and> (case PM_SetOptionString oid b r of
              None \<Rightarrow> oid = URIPath \<and> length b > maxPathValue
            | Some r1 \<Rightarrow> opts_inv r1 \<and> vals (opts_of r1) = (vals (opts_of r))(oid := [b]))
         \<and> (case PM_AddOptionString oid b r of
              None \<Rightarrow> oid = URIPath \<and> length b > maxPathValue
            | Some r1 \<Rightarrow> opts_inv r1 \<and> vals (opts_of r1) = (vals (opts_of r))(oid := vals (opts_of r) oid @ [b]))
         \<and> opts_inv (PM_SetOptionBytes oid b r)
         \<and> vals (opts_of (PM_SetOptionBytes oid b r)) = (vals (opts_of r))(oid := [b])
         \<and> opts_inv (PM_AddOptionBytes oid b r)
         \<and> vals (opts_of (PM_AddOptionBytes oid b r)) = (vals (opts_of r))(oid := vals (opts_of r) oid @ [b])"
proof (intro conjI)
  have add: "vals (opt_add (opts_of r) oid x) = (vals (opts_of r))(oid := vals (opts_of r) oid @ [x])"
    and put: "vals (opt_put (opts_of r) oid x) = (vals (opts_of r))(oid := [x])" for x
    using assms by (auto simp: vals_Add vals_Set)
  note inv = opts_sorted_Add [OF assms] opts_sorted_Set [OF assms]
  show "\<exists>r1. PM_SetOptionUint32 oid v r = Some r1 \<and> opts_inv r1
            \<and> vals (opts_of r1) = (vals (opts_of r))(oid := [uint_wire v])
            \<and> Options_GetUint32 (opts_of r1) oid = (v, None)"
    using PM_SetOptionUint32_eq [of oid v r] put inv
    by (auto simp: set_options_def GetUint32_vals DecodeUint32_uint_wire)
  show "\<exists>r1. PM_AddOptionUint32 oid v r = Some r1 \<and> opts_inv r1
            \<and> vals (opts_of r1) = (vals (opts_of r))(oid := vals (opts_of r) oid @ [uint_wire v])"
    using PM_AddOptionUint32_eq [of oid v r] add inv by (auto simp: set_options_def)
  show "case PM_SetOptionString oid b r of
      None \<Rightarrow> oid = URIPath \<and> length b > maxPathValue
    | Some r1 \<Rightarrow> opts_inv r1 \<and> vals (opts_of r1) = (vals (opts_of r))(oid := [b])"
    using PM_SetOptionString_eq [of oid b r] PM_SetOptionString_panics [of oid b r] put inv
    by (cases "path_value_ok oid b") (auto simp: set_options_def path_value_ok_def)
  show "case PM_AddOptionString oid b r of
      None \<Rightarrow> oid = URIPath \<and> length b > maxPathValue
    | Some r1 \<Rightarrow> opts_inv r1 \<and> vals (opts_of r1) = (vals (opts_of r))(oid := vals (opts_of r) oid @ [b])"
    using PM_AddOptionString_eq [of oid b r] PM_SetOptionString_panics [of oid b r] add inv
    by (cases "path_value_ok oid b") (auto simp: set_options_def path_value_ok_def)
  show "opts_inv (PM_SetOptionBytes oid b r)"
      "vals (opts_of (PM_SetOptionBytes oid b r)) = (vals (opts_of r))(oid := [b])"
      "opts_inv (PM_AddOptionBytes oid b r)"
      "vals (opts_of (PM_AddOptionBytes oid b r)) = (vals (opts_of r))(oid := vals (opts_of r) oid @ [b])"
    using PM_OptionBytes_eq [of oid b r] add put inv by (auto simp: set_options_def)
qed

lemma pooled_option_setters_example:
  "\<exists>r1. PM_SetOptionUint32 12 300 (NewMessage :: unit PMessage) = Some r1 \<and> Options_GetUint32 (opts_of r1) 12 = (300, None)"
  using pooled_option_setters [of "NewMessage :: unit PMessage" 12 300 "[]"]
  by (auto simp: NewMessage_def)

text \<open>
  \<open>SetPath\<close> of a pooled message sets the path and leaves every other option as it is, growing the value
  buffer when needed, provided that the message had no path before or that the buffer was large
  enough from the start.
\<close>

lemma pooled_SetPath:
  assumes "opts_inv r" "p \<noteq> []" "\<forall>s \<in> set (path_segments p). length s \<le> maxPathValue"
    "vals (opts_of r) URIPath = [] \<or> sum_list (map length (path_segments p)) \<le> length (valueBuffer r)"
  shows "\<exists>r1. PM_SetPath p r = (r1, None) \<and> opts_inv r1
           \<and> vals (opts_of r1) = (vals (opts_of r))(URIPath := path_segments p)"
proof -
  let ?os = "foldl (\<lambda>s v. opt_add s URIPath v) (Options_Remove (opts_of r) URIPath) (path_segments p)"
  have nl: "\<not> (\<exists>s \<in> set (path_segments p). length s > maxPathValue)" using assms(3) by fastforce
  have os: "opts_sorted ?os" "vals ?os = (vals (opts_of r))(URIPath := path_segments p)"
    using opts.adds_same [OF opts_sorted_Remove [OF assms(1), of URIPath], of URIPath "path_segments p"]
    by (auto simp: vals_Remove assms(1))
  show ?thesis
  proof (cases "total_len (path_segments p) \<le> length (valueBuffer r)")
    case True
    then show ?thesis
      using os by (simp add: PM_SetPath_def Options_SetPath_def setPath_eq [OF assms(2)] nl)
  next
    case False
    then have none: "vals (opts_of r) URIPath = []" using assms(4) by auto
    then have cells: "Options_Remove_cells (opts_of r) URIPath = opts_of r" "Options_Remove (opts_of r) URIPath = opts_of r"
      using Options_Find_vals [OF assms(1), of URIPath] by (simp_all add: Options_Remove_cells_def Options_Remove_def)
    show ?thesis
      using False os by (simp add: PM_SetPath_def Options_SetPath_def setPath_eq [OF assms(2)] nl cells GetPathBufferSize_eq)
  qed
qed

lemma pooled_SetPath_example:
  "\<exists>r1. PM_SetPath [47, 97] (NewMessage :: unit PMessage) = (r1, None) \<and> vals (opts_of r1) 11 = [[97]]"
proof -
  have "path_segments [47, 97] = [[97]]" "path_segments [97] = [[97]]" by (simp_all add: path_segments_def)
  then show ?thesis
    using pooled_SetPath [of "NewMessage :: unit PMessage" "[47, 97]"]
    by (auto simp: NewMessage_def maxPathValue_def)
qed

lemma drop_last_cell: "xs \<noteq> [] \<Longrightarrow> drop (length xs - 1) xs = [last xs]"
  by (cases xs rule: rev_cases) simp_all

text \<open>
  C36.  When the message already has a path (of one segment) and the value buffer is too small for the new
  one, the first attempt has shifted the option cells before it reports \<open>ErrTooSmall\<close>, and the
  second works on those: \<open>SetPath\<close> succeeds, but the last option of the message, if it is not the
  path itself, is there twice afterwards.
\<close>

theorem pooled_SetPath_duplicates:
  assumes "opts_inv r" "p \<noteq> []" "\<forall>s \<in> set (path_segments p). length s \<le> maxPathValue"
    "length (vals (opts_of r) URIPath) = 1" "sum_list (map length (path_segments p)) > length (valueBuffer r)"
    "ID (last (opts_of r)) \<noteq> URIPath"
  shows "\<exists>r1. PM_SetPath p r = (r1, None)
           \<and> vals (opts_of r1) =
               (\<lambda>x. if x = URIPath then path_segments p
                    else if x = ID (last (opts_of r)) then vals (opts_of r) x @ [Value (last (opts_of r))]
                    else vals (opts_of r) x)"
proof -
  let ?os = "opts_of r"
  let ?cells = "Options_Remove_cells ?os URIPath"
  have nl: "\<not> (\<exists>s \<in> set (path_segments p). length s > maxPathValue)" using assms(3) by fastforce
  have one: "hi_idx ?os URIPath - lo_idx ?os URIPath = 1"
    using arg_cong [OF vals_slice [OF assms(1), of URIPath], of length] idx_le_length(2) [of ?os URIPath] assms(4)
    by (simp add: min_absorb2)
  then have ne: "?os \<noteq> []" by auto
  have "?cells = Options_Remove ?os URIPath @ drop (length ?os - 1) ?os"
    unfolding Options_Remove_cells_eq [OF assms(1)] one ..
  then have cells: "?cells = Options_Remove ?os URIPath @ [last ?os]"
    using ne by (simp add: drop_last_cell [simplified])
  have "\<forall>x \<in> set (Options_Remove ?os URIPath). ID x \<le> ID (last ?os)"
  proof
    fix x assume "x \<in> set (Options_Remove ?os URIPath)"
    then have "x \<in> set ?os" by (auto simp: Options_Remove_eq [OF assms(1)] dest: in_set_takeD in_set_dropD)
    then obtain i where "i < length ?os" "?os ! i = x" by (auto simp: in_set_conv_nth)
    then show "ID x \<le> ID (last ?os)"
      using opts_sorted_nth [OF assms(1), of i "length ?os - 1"] ne by (simp add: last_conv_nth)
  qed
  then have s: "opts_sorted ?cells"
    using opts_sorted_Remove [OF assms(1)] by (simp add: cells opts_sorted_append opts_sorted_Cons)
  let ?new = "foldl (\<lambda>s v. opt_add s URIPath v) (Options_Remove ?cells URIPath) (path_segments p)"
  have new: "vals ?new x = (if x = URIPath then path_segments p
                    else if x = ID (last ?os) then vals ?os x @ [Value (last ?os)] else vals ?os x)" for x
  proof -
    have "vals ?cells x = (if x = URIPath then [] else vals ?os x) @ (if ID (last ?os) = x then [Value (last ?os)] else [])"
      by (simp add: cells vals_Remove [OF assms(1)])
    then show ?thesis
      using opts.adds_same [OF opts_sorted_Remove [OF s, of URIPath], of URIPath "path_segments p" x] assms(6)
        vals_Remove [OF s, of URIPath x] by auto
  qed
  let ?t = "total_len (path_segments p)" and ?buf = "valueBuffer r @ go_make (total_len (path_segments p))"
  define b where "b = drop ?t (concat (path_segments p) @ drop ?t ?buf)"
  have e1: "Options_SetPath ?os (valueBuffer r) p = (valueBuffer r, ?cells, -1, Some ErrTooSmall)"
    using assms(5) by (simp add: Options_SetPath_def setPath_eq [OF assms(2)] nl)
  have e2: "Options_SetPath ?cells ?buf p = (concat (path_segments p) @ drop ?t ?buf, ?new, int ?t, None)"
    unfolding Options_SetPath_def setPath_eq [OF assms(2)] if_not_P [OF nl] by simp
  have e3: "GetPathBufferSize p = (int ?t, None)"
    unfolding GetPathBufferSize_eq if_not_P [OF nl] ..
  have "PM_SetPath p r = ((set_options ?new r)\<lparr>valueBuffer := b, isModified := True\<rparr>, None)"
    unfolding PM_SetPath_def e1 prod.case Let_def e3 nat_int e2 b_def by simp
  moreover have "vals (opts_of ((set_options ?new r)\<lparr>valueBuffer := b, isModified := True\<rparr>)) =
      (\<lambda>x. if x = URIPath then path_segments p
           else if x = ID (last ?os) then vals ?os x @ [Value (last ?os)] else vals ?os x)"
    using new by (intro ext) (simp add: set_options_def)
  ultimately show ?thesis by blast
qed

theorem pooled_SetPath_duplicates_witness:
  "\<exists>r1. PM_SetPath [98] ((NewMessage :: unit PMessage)
        \<lparr>msg := \<lparr>Token = [], Options = [\<lparr>ID = 11, Value = [97]\<rparr>, \<lparr>ID = 15, Value = [1]\<rparr>], Code = 1, Payload = [], MessageID = 1, Type = 0\<rparr>,
         valueBuffer := []\<rparr>) = (r1, None)
     \<and> vals (opts_of r1) 15 = [[1], [1]]"
proof -
  let ?r = "(NewMessage :: unit PMessage)
        \<lparr>msg := \<lparr>Token = [], Options = [\<lparr>ID = 11, Value = [97]\<rparr>, \<lparr>ID = 15, Value = [1]\<rparr>], Code = 1, Payload = [], MessageID = 1, Type = 0\<rparr>,
         valueBuffer := []\<rparr>"
  have seg: "path_segments [98] = [[98]]" by (simp add: path_segments_def)
  have s: "opts_inv ?r" by (simp add: opts_sorted_def)
  have "\<exists>r1. PM_SetPath [98] ?r = (r1, None)
      \<and> vals (opts_of r1) =
          (\<lambda>x. if x = URIPath then path_segments [98]
               else if x = ID (last (opts_of ?r)) then vals (opts_of ?r) x @ [Value (last (opts_of ?r))]
               else vals (opts_of ?r) x)"
    by (rule pooled_SetPath_duplicates [OF s]) (simp_all add: seg maxPathValue_def)
  then obtain r1 where r1: "PM_SetPath [98] ?r = (r1, None)" "vals (opts_of r1) =
          (\<lambda>x. if x = URIPath then path_segments [98]
               else if x = ID (last (opts_of ?r)) then vals (opts_of ?r) x @ [Value (last (opts_of ?r))]
               else vals (opts_of ?r) x)"
    by (elim exE conjE) (rule that)
  have "vals (opts_of r1) 15 = [[1], [1]]"
    unfolding r1(2) by simp
  with r1(1) show ?thesis by (intro exI conjI)
qed

text \<open>
  \<open>Clone\<close> gives the target the code, token, options, type, message ID, control message and the whole
  body of the source, to be read from its start, and leaves the source as it was, the position of
  its body included.
\<close>

lemma PM_Clone_copies:
  assumes "opts_inv r"
  shows "\<exists>m1. PM_Clone r m = Some (r, m1, None) \<and> Code (msg m1) = Code (msg r) \<and> Token (msg m1) = Token (msg r)
           \<and> opts_of m1 = opts_of r \<and> Type (msg m1) = Type (msg r) \<and> MessageID (msg m1) = MessageID (msg r)
           \<and> controlMessage m1 = controlMessage r
           \<and> (body r \<noteq> None \<longrightarrow> body m1 = Some (NewReader (body_data r)))
           \<and> (body r = None \<longrightarrow> body m1 = body m)"
proof -
  obtain buf b where reset: "PM_ResetOptionsTo (opts_of r) (PM_SetToken (Token (msg r)) (PM_SetCode (Code (msg r)) m))
      = Some ((set_options (opts_of r) (PM_SetToken (Token (msg r)) (PM_SetCode (Code (msg r)) m)))\<lparr>valueBuffer := buf, isModified := b\<rparr>)"
    using PM_ResetOptionsTo_eq [OF assms, of "PM_SetToken (Token (msg r)) (PM_SetCode (Code (msg r)) m)"]
    by (elim exE) (rule that)
  let ?m2 = "PM_SetControlMessage (controlMessage r) (PM_SetMessageID (MessageID (msg r)) (PM_SetType (Type (msg r))
      ((set_options (opts_of r) (PM_SetToken (Token (msg r)) (PM_SetCode (Code (msg r)) m)))\<lparr>valueBuffer := buf, isModified := b\<rparr>)))"
  note defs = PM_SetToken_def PM_SetCode_def PM_SetType_def PM_SetMessageID_def PM_SetBody_def PM_SetControlMessage_def set_options_def
  show ?thesis
  proof (cases "body r")
    case None
    have "PM_Clone r m = Some (r, ?m2, None)"
      unfolding PM_Clone_def reset option.case Let_def None ..
    then show ?thesis using None by (intro exI [of _ ?m2] conjI) (simp_all add: defs)
  next
    case (Some x)
    have same: "r\<lparr>body := Some x\<rparr> = r" using Some by (cases r) simp
    have "PM_Clone r m = Some (r, PM_SetBody (Some (NewReader (rd_data x))) ?m2, None)"
      unfolding PM_Clone_def reset option.case Let_def Some
      by (simp add: reader_Seek_def reader_ReadAll_def reader_rest_def same)
    then show ?thesis
      using Some by (intro exI [of _ "PM_SetBody (Some (NewReader (rd_data x))) ?m2"] conjI) (simp_all add: defs body_data_def)
  qed
qed

lemma PM_Clone_copies_example:
  "\<exists>m1. PM_Clone (NewMessage\<lparr>body := Some \<lparr>rd_data = [1, 2], rd_pos = 1\<rparr>\<rparr>) (NewMessage :: unit PMessage)
       = Some (NewMessage\<lparr>body := Some \<lparr>rd_data = [1, 2], rd_pos = 1\<rparr>\<rparr>, m1, None)
     \<and> body m1 = Some (NewReader [1, 2])"
proof -
  have "opts_inv ((NewMessage :: unit PMessage)\<lparr>body := Some \<lparr>rd_data = [1, 2], rd_pos = 1\<rparr>\<rparr>)"
    by (simp add: NewMessage_def)
  from PM_Clone_copies [OF this, of NewMessage] show ?thesis
    by (auto simp: body_data_def)
qed

end
