(* ===== verification/Goroutines.thy ===== *)
theory Goroutines
  imports Coap_Prelude
begin

text \<open>
  Goroutines that interleave: the places they have reached are a list, a step of the program changes one of
  them.  Counting the goroutines at a kind of place is what the invariants of the concurrent components
  are about; a transition system keeps an invariant that its steps keep.
\<close>

definition number :: "('p \<Rightarrow> bool) \<Rightarrow> 'p list \<Rightarrow> nat" where
  "number P ts = length (filter P ts)"

lemma number_update:
  "i < length ts \<Longrightarrow> number P (ts[i := q]) + (if P (ts ! i) then 1 else 0) = number P ts + (if P q then 1 else 0)"
proof (induction ts arbitrary: i)
  case (Cons x ts)
  then show ?case by (cases i) (auto simp: number_def)
qed simp

lemma number_move:
  assumes "i < length ts" "ts ! i = p"
  shows "number P (ts[i := q]) = (if P q then Suc (number P ts) else number P ts) - (if P p then 1 else 0)"
    "P p \<Longrightarrow> 0 < number P ts"
proof -
  show "number P (ts[i := q]) = (if P q then Suc (number P ts) else number P ts) - (if P p then 1 else 0)"
    using number_update [OF assms(1), of P q] assms(2) by (auto split: if_splits)
  show "0 < number P ts" if "P p"
    using that assms by (auto simp: number_def filter_empty_conv)
qed

lemma number_ge2:
  assumes "i < j" "j < length ts" "P (ts ! i)" "P (ts ! j)"
  shows "2 \<le> number P ts"
proof -
  have "take j ts ! i = ts ! i" "drop j ts ! 0 = ts ! j" "i < length (take j ts)" "0 < length (drop j ts)"
    using assms by simp_all
  then have "0 < number P (take j ts)" and "0 < number P (drop j ts)"
    using assms(3,4) number_move(2) [where P = P] by metis+
  moreover have "number P ts = number P (take j ts) + number P (drop j ts)"
    unfolding number_def by (metis append_take_drop_id filter_append length_append)
  ultimately show ?thesis by simp
qed

lemma number_le1_unique:
  "number P ts \<le> 1 \<Longrightarrow> i < length ts \<Longrightarrow> j < length ts \<Longrightarrow> P (ts ! i) \<Longrightarrow> P (ts ! j) \<Longrightarrow> i = j"
  using number_ge2 [of i j ts P] number_ge2 [of j i ts P] by (cases i j rule: linorder_cases) auto

lemma number_le_length: "number P ts \<le> length ts"
  by (simp add: number_def)

lemma number_mono: "(\<And>p. P p \<Longrightarrow> Q p) \<Longrightarrow> number P ts \<le> number Q ts"
  by (induction ts) (auto simp: number_def)

lemma number_zero: "number P ts = 0 \<longleftrightarrow> (\<forall>p \<in> set ts. \<not> P p)"
  by (simp add: number_def filter_empty_conv)

lemma number_disjoint:
  assumes "\<And>p. P p \<longleftrightarrow> Q p \<or> R p" "\<And>p. \<not> (Q p \<and> R p)"
  shows "number P ts = number Q ts + number R ts"
  using assms by (induction ts) (auto simp: number_def)

lemma number_cong: "(\<And>p. p \<in> set ts \<Longrightarrow> P p = Q p) \<Longrightarrow> number P ts = number Q ts"
  by (induction ts) (auto simp: number_def)

lemma in_set_update: "p \<in> set (xs[i := q]) \<Longrightarrow> p = q \<or> p \<in> set xs"
  using set_update_subset_insert by fast

locale transition_system =
  fixes init :: "'s \<Rightarrow> bool" and step :: "'s \<Rightarrow> 's \<Rightarrow> bool" and inv :: "'s \<Rightarrow> bool"
  assumes init_inv: "init s \<Longrightarrow> inv s"
    and step_inv: "inv s \<Longrightarrow> step s s' \<Longrightarrow> inv s'"
begin

lemma steps_inv: "step\<^sup>*\<^sup>* s s' \<Longrightarrow> inv s \<Longrightarrow> inv s'"
  by (induction rule: rtranclp_induct) (auto intro: step_inv)

lemma reachable_inv: "init s \<Longrightarrow> step\<^sup>*\<^sup>* s s' \<Longrightarrow> inv s'"
  using steps_inv init_inv by blast

end

end
