(* ===== verification/Message_Pool.thy ===== *)
theory Message_Pool
  imports Pool_Message Goroutines
begin

text \<open>
  The message pool, \<open>message/pool/pool.go\<close>.

  Messages are shared and mutated, so they live in a heap, a function from references to messages;
  the pool holds references.  Two models are given: the three operations run to completion without
  interference (\<open>AcquireMessage\<close>, \<open>ReleaseMessage\<close>, \<open>ReleaseMessageIfNotHijacked\<close>), and a step
  relation in which any number of goroutines interleave between every two atomic accesses of the code.

  \<open>sync.Pool\<close> belongs to the language: \<open>Get\<close> returns some pooled item or \<open>nil\<close>, and the runtime
  may drop pooled items at any time.  Which item \<open>Get\<close> returns, the address of a new message, and the
  capacities \<open>Reset\<close> looks at are arguments.  The counter of the pool is an \<open>int64\<close> between 0 and a
  \<open>uint32\<close> and so an \<^typ>\<open>int\<close>.
\<close>

type_synonym ref = nat
type_synonym 'cm heap = "ref \<Rightarrow> 'cm PMessage"

record Pool =
  currentMessagesInPool :: int
  messagePool :: "ref list"
  maxNumMessages :: u32
  maxMessageBufferSize :: u16

definition pool_New :: "u32 \<Rightarrow> u16 \<Rightarrow> Pool" where
  "pool_New maxNum maxBuf =
     \<lparr>currentMessagesInPool = 0, messagePool = [], maxNumMessages = maxNum, maxMessageBufferSize = maxBuf\<rparr>"

subsection \<open>The operations without interference\<close>

text \<open>\<open>got\<close> is what \<open>messagePool.Get\<close> returned and \<open>new\<close> the address of a fresh message.\<close>

definition AcquireMessage :: "ref option \<Rightarrow> ref \<Rightarrow> Pool \<Rightarrow> 'cm heap \<Rightarrow> Pool \<times> 'cm heap \<times> ref" where
  "AcquireMessage got new p h =
     (case got of
        None \<Rightarrow> (p, h(new := NewMessage), new)
      | Some r \<Rightarrow>
          (p\<lparr>messagePool := remove1 r (messagePool p), currentMessagesInPool := currentMessagesInPool p - 1\<rparr>,
           h(r := (h r)\<lparr>hijacked := False, lifetime := lifetime (h r) + 1\<rparr>), r))"

definition releaseMessage :: "nat \<Rightarrow> nat \<Rightarrow> ref \<Rightarrow> Pool \<Rightarrow> 'cm heap \<Rightarrow> Pool \<times> 'cm heap" where
  "releaseMessage capM capU r p h =
     (if currentMessagesInPool p \<ge> int (unat (maxNumMessages p)) then (p, h)
      else (p\<lparr>currentMessagesInPool := currentMessagesInPool p + 1, messagePool := r # messagePool p\<rparr>,
            h(r := PM_Reset capM capU (h r))))"

definition ReleaseMessage :: "nat \<Rightarrow> nat \<Rightarrow> ref \<Rightarrow> Pool \<Rightarrow> 'cm heap \<Rightarrow> Pool \<times> 'cm heap" where
  "ReleaseMessage capM capU r p h =
     (let state = lifetime (h r) in
      if state AND 1 \<noteq> 0 then (p, h)
      else releaseMessage capM capU r p (h(r := (h r)\<lparr>lifetime := state OR 1\<rparr>)))"

definition ReleaseMessageIfNotHijacked ::
  "nat \<Rightarrow> nat \<Rightarrow> ref \<Rightarrow> u64 \<Rightarrow> Pool \<Rightarrow> 'cm heap \<Rightarrow> Pool \<times> 'cm heap" where
  "ReleaseMessageIfNotHijacked capM capU r generation p h =
     (let state = push_bit 1 generation in
      if hijacked (h r) \<or> lifetime (h r) \<noteq> state then (p, h)
      else releaseMessage capM capU r p (h(r := (h r)\<lparr>lifetime := state OR 1\<rparr>)))"

subsection \<open>Interleaved goroutines\<close>

text \<open>
  The points at which a goroutine can be interrupted inside the pool's operations: \<open>Loaded\<close> has read the
  lifetime in \<open>ReleaseMessage\<close>; \<open>NotHijacked\<close> has passed the test of \<open>ReleaseMessageIfNotHijacked\<close>;
  \<open>Freeing\<close> has won the compare-and-swap on the lifetime; \<open>Counting\<close> has read the counter;
  \<open>Putting\<close> has incremented it; \<open>Got\<close> has taken a message out of the \<open>sync.Pool\<close>, \<open>Counted\<close> has
  decremented the counter and \<open>Cleared\<close> has reset the hijacked mark.
\<close>

datatype pc =
    Idle
  | Loaded ref u64 | NotHijacked ref u64 | Freeing ref | Counting ref int | Putting ref
  | Got ref | Counted ref | Cleared ref

record 'cm world =
  pool :: Pool
  heap :: "'cm heap"
  allocated :: nat
  threads :: "pc list"

abbreviation at_pc :: "'cm world \<Rightarrow> nat \<Rightarrow> pc \<Rightarrow> bool" where
  "at_pc s i p \<equiv> i < length (threads s) \<and> threads s ! i = p"

abbreviation goto :: "nat \<Rightarrow> pc \<Rightarrow> 'cm world \<Rightarrow> 'cm world" where
  "goto i p s \<equiv> s\<lparr>threads := (threads s)[i := p]\<rparr>"

definition set_lifetime :: "ref \<Rightarrow> u64 \<Rightarrow> 'cm heap \<Rightarrow> 'cm heap" where
  "set_lifetime r v h = h(r := (h r)\<lparr>lifetime := v\<rparr>)"

text \<open>
  One atomic access.  Any goroutine may call a release with any message ever allocated, also one it has
  released before; \<open>use\<close> is anything the rest of the program does to a message, which never touches its
  lifetime; \<open>gc\<close> is the runtime dropping a pooled message.
\<close>

inductive step :: "'cm world \<Rightarrow> 'cm world \<Rightarrow> bool" where
  get_new: "at_pc s i Idle \<Longrightarrow>
     step s (s\<lparr>heap := (heap s)(allocated s := NewMessage), allocated := Suc (allocated s)\<rparr>)"
| get_pooled: "at_pc s i Idle \<Longrightarrow> r \<in> set (messagePool (pool s)) \<Longrightarrow>
     step s (goto i (Got r) (s\<lparr>pool := (pool s)\<lparr>messagePool := remove1 r (messagePool (pool s))\<rparr>\<rparr>))"
| dec: "at_pc s i (Got r) \<Longrightarrow>
     step s (goto i (Counted r) (s\<lparr>pool := (pool s)\<lparr>currentMessagesInPool := currentMessagesInPool (pool s) - 1\<rparr>\<rparr>))"
| unhijack: "at_pc s i (Counted r) \<Longrightarrow>
     step s (goto i (Cleared r) (s\<lparr>heap := (heap s)(r := (heap s r)\<lparr>hijacked := False\<rparr>)\<rparr>))"
| advance: "at_pc s i (Cleared r) \<Longrightarrow>
     step s (goto i Idle (s\<lparr>heap := set_lifetime r (lifetime (heap s r) + 1) (heap s)\<rparr>))"
| load: "at_pc s i Idle \<Longrightarrow> r < allocated s \<Longrightarrow> lifetime (heap s r) AND 1 = 0 \<Longrightarrow>
     step s (goto i (Loaded r (lifetime (heap s r))) s)"
| cas: "at_pc s i (Loaded r state) \<Longrightarrow> lifetime (heap s r) = state \<Longrightarrow>
     step s (goto i (Freeing r) (s\<lparr>heap := set_lifetime r (state OR 1) (heap s)\<rparr>))"
| cas_fails: "at_pc s i (Loaded r state) \<Longrightarrow> lifetime (heap s r) \<noteq> state \<Longrightarrow> step s (goto i Idle s)"
| test: "at_pc s i Idle \<Longrightarrow> r < allocated s \<Longrightarrow> \<not> hijacked (heap s r) \<Longrightarrow>
     step s (goto i (NotHijacked r generation) s)"
| cas_gen: "at_pc s i (NotHijacked r generation) \<Longrightarrow> lifetime (heap s r) = push_bit 1 generation \<Longrightarrow>
     step s (goto i (Freeing r) (s\<lparr>heap := set_lifetime r (push_bit 1 generation OR 1) (heap s)\<rparr>))"
| cas_gen_fails: "at_pc s i (NotHijacked r generation) \<Longrightarrow> lifetime (heap s r) \<noteq> push_bit 1 generation \<Longrightarrow>
     step s (goto i Idle s)"
| full: "at_pc s i (Freeing r) \<Longrightarrow> currentMessagesInPool (pool s) \<ge> int (unat (maxNumMessages (pool s))) \<Longrightarrow>
     step s (goto i Idle s)"
| room: "at_pc s i (Freeing r) \<Longrightarrow> v = currentMessagesInPool (pool s) \<Longrightarrow> v < int (unat (maxNumMessages (pool s))) \<Longrightarrow>
     step s (goto i (Counting r v) s)"
| inc: "at_pc s i (Counting r v) \<Longrightarrow> currentMessagesInPool (pool s) = v \<Longrightarrow>
     step s (goto i (Putting r) (s\<lparr>pool := (pool s)\<lparr>currentMessagesInPool := v + 1\<rparr>\<rparr>))"
| retry: "at_pc s i (Counting r v) \<Longrightarrow> currentMessagesInPool (pool s) \<noteq> v \<Longrightarrow> step s (goto i (Freeing r) s)"
| put: "at_pc s i (Putting r) \<Longrightarrow>
     step s (goto i Idle (s\<lparr>heap := (heap s)(r := PM_Reset capM capU (heap s r)),
                            pool := (pool s)\<lparr>messagePool := r # messagePool (pool s)\<rparr>\<rparr>))"
| use: "lifetime m = lifetime (heap s r) \<Longrightarrow> step s (s\<lparr>heap := (heap s)(r := m)\<rparr>)"
| gc: "r \<in> set (messagePool (pool s)) \<Longrightarrow>
     step s (s\<lparr>pool := (pool s)\<lparr>messagePool := remove1 r (messagePool (pool s))\<rparr>\<rparr>)"

definition start :: "nat \<Rightarrow> Pool \<Rightarrow> 'cm heap \<Rightarrow> 'cm world" where
  "start n p h = \<lparr>pool = p, heap = h, allocated = 0, threads = replicate n Idle\<rparr>"

abbreviation reachable :: "nat \<Rightarrow> u32 \<Rightarrow> 'cm heap \<Rightarrow> 'cm world \<Rightarrow> bool" where
  "reachable n maxNum h s \<equiv> \<exists>maxBuf. step\<^sup>*\<^sup>* (start n (pool_New maxNum maxBuf) h) s"

subsection \<open>Exclusive holders\<close>

text \<open>
  A goroutine holds a message exclusively from the won compare-and-swap to the \<open>Put\<close>, and from the
  \<open>Get\<close> to the increment of the lifetime; the pool holds the messages in it.
\<close>

fun holds :: "ref \<Rightarrow> pc \<Rightarrow> bool" where
  "holds a (Freeing r) = (a = r)"
| "holds a (Counting r v) = (a = r)"
| "holds a (Putting r) = (a = r)"
| "holds a (Got r) = (a = r)"
| "holds a (Counted r) = (a = r)"
| "holds a (Cleared r) = (a = r)"
| "holds a _ = False"

fun pc_ok :: "'cm world \<Rightarrow> pc \<Rightarrow> bool" where
  "pc_ok s (Loaded r v) = (r < allocated s \<and> even v)"
| "pc_ok s (NotHijacked r g) = (r < allocated s)"
| "pc_ok s (Counting r v) = (v < int (unat (maxNumMessages (pool s))))"
| "pc_ok s _ = True"

fun accounted :: "pc \<Rightarrow> bool" where
  "accounted (Putting r) = True"
| "accounted (Got r) = True"
| "accounted _ = False"

definition holders :: "ref \<Rightarrow> 'cm world \<Rightarrow> nat" where
  "holders a s = count_list (messagePool (pool s)) a + number (holds a) (threads s)"

definition exclusive :: "'cm world \<Rightarrow> ref \<Rightarrow> bool" where
  "exclusive s a \<longleftrightarrow> holders a s \<le> 1 \<and> (holders a s \<noteq> 0 \<longrightarrow> odd (lifetime (heap s a)) \<and> a < allocated s)"

definition counted :: "'cm world \<Rightarrow> bool" where
  "counted s \<longleftrightarrow>
     int (length (messagePool (pool s)) + number accounted (threads s)) \<le> currentMessagesInPool (pool s)
     \<and> currentMessagesInPool (pool s) \<le> int (unat (maxNumMessages (pool s)))"

definition threads_ok :: "'cm world \<Rightarrow> bool" where
  "threads_ok s \<longleftrightarrow> (\<forall>p \<in> set (threads s). pc_ok s p)"

lemma count_list_remove1:
  "count_list (remove1 r xs) a = (if a = r then count_list xs a - 1 else count_list xs a)"
  by (induction xs) (auto simp: count_list_0_iff)

lemma count_list_pos: "r \<in> set xs \<Longrightarrow> 0 < count_list xs r"
  by (metis count_list_0_iff gr0I)

lemma parity_word:
  fixes v :: u64
  shows "v AND 1 = 0 \<longleftrightarrow> even v" "odd (v OR 1)" "even (push_bit 1 v)"
  by (simp_all add: and_one_eq even_iff_mod_2_eq_zero [symmetric] even_or_iff even_push_bit_iff)

lemma step_mono: "step s s' \<Longrightarrow> allocated s \<le> allocated s' \<and> maxNumMessages (pool s') = maxNumMessages (pool s)"
  by (induction rule: step.induct) simp_all

lemma pc_ok_mono:
  "pc_ok s p \<Longrightarrow> allocated s \<le> allocated s' \<and> maxNumMessages (pool s') = maxNumMessages (pool s) \<Longrightarrow> pc_ok s' p"
  by (cases p) auto

lemma step_new_pc: "step s s' \<Longrightarrow> p \<in> set (threads s') \<Longrightarrow> p \<in> set (threads s) \<or> pc_ok s' p"
  by (induction rule: step.induct) (auto simp: parity_word dest!: in_set_update)

lemma step_threads_ok: "step s s' \<Longrightarrow> threads_ok s \<Longrightarrow> threads_ok s'"
  unfolding threads_ok_def using step_new_pc pc_ok_mono [OF _ step_mono] by blast

lemma pc_ok_at: "threads_ok s \<Longrightarrow> at_pc s i p \<Longrightarrow> pc_ok s p"
  by (auto simp: threads_ok_def)

lemma step_counted: "step s s' \<Longrightarrow> threads_ok s \<Longrightarrow> counted s \<Longrightarrow> counted s'"
proof (induction rule: step.induct)
  case (get_pooled s i r)
  moreover obtain k where "length (messagePool (pool s)) = Suc k"
    using length_pos_if_in_set [OF get_pooled.hyps(2)] by (auto simp: gr0_conv_Suc)
  ultimately show ?case by (simp add: counted_def number_move length_remove1)
next
  case (inc s i r v)
  then show ?case using pc_ok_at [OF inc.prems(1) inc.hyps(1)] by (auto simp: counted_def number_move)
next
  case (dec s i r)
  then show ?case using number_move(2) [of i "threads s" "Got r" accounted] by (auto simp: counted_def number_move)
next
  case (put s i r capM capU)
  then show ?case using number_move(2) [of i "threads s" "Putting r" accounted] by (auto simp: counted_def number_move)
qed (auto simp: counted_def number_move length_remove1 dest: length_pos_if_in_set)

lemmas holders_simps = exclusive_def holders_def number_move count_list_remove1 set_lifetime_def

lemma step_exclusive: "step s s' \<Longrightarrow> threads_ok s \<Longrightarrow> exclusive s a \<Longrightarrow> exclusive s' a"
proof (induction rule: step.induct)
  case (get_pooled s i r)
  then show ?case using count_list_pos [OF get_pooled.hyps(2)] by (auto simp: holders_simps)
next
  case (gc r s)
  then show ?case using count_list_pos [OF gc.hyps] by (auto simp: holders_simps)
next
  case (advance s i r)
  then show ?case using number_move(2) [of i "threads s" "Cleared r" "holds r"] by (auto simp: holders_simps)
next
  case (cas s i r state)
  then show ?case using pc_ok_at [OF cas.prems(1) cas.hyps(1)] by (auto simp: holders_simps parity_word)
next
  case (cas_gen s i r generation)
  then show ?case using pc_ok_at [OF cas_gen.prems(1) cas_gen.hyps(1)] by (auto simp: holders_simps parity_word)
next
  case (put s i r capM capU)
  then show ?case using number_move(2) [of i "threads s" "Putting r" "holds r"] by (auto simp: holders_simps PM_Reset_def)
next
  case (full s i r)
  then show ?case using number_move(2) [of i "threads s" "Freeing r" "holds r"] by (auto simp: holders_simps)
qed (auto simp: holders_simps)

definition pool_inv :: "u32 \<Rightarrow> 'cm world \<Rightarrow> bool" where
  "pool_inv maxNum s \<longleftrightarrow> threads_ok s \<and> counted s \<and> (\<forall>a. exclusive s a) \<and> maxNumMessages (pool s) = maxNum"

interpretation pool: transition_system "\<lambda>s. \<exists>n maxBuf h. s = start n (pool_New maxNum maxBuf) h" step "pool_inv maxNum" for maxNum
proof unfold_locales
  show "\<exists>n maxBuf h. s = start n (pool_New maxNum maxBuf) h \<Longrightarrow> pool_inv maxNum s" for s
    by (auto simp: pool_inv_def start_def pool_New_def threads_ok_def counted_def exclusive_def holders_def number_def)
  show "pool_inv maxNum s' \<Longrightarrow> step s' s'' \<Longrightarrow> pool_inv maxNum s''" for s' s''
    unfolding pool_inv_def using step_threads_ok step_counted step_exclusive step_mono by metis
qed

lemma reachable_invariant:
  assumes "reachable n maxNum h s"
  shows "threads_ok s" "counted s" "exclusive s a" "maxNumMessages (pool s) = maxNum"
proof -
  have "pool_inv maxNum s" using assms pool.reachable_inv by blast
  then show "threads_ok s" "counted s" "exclusive s a" "maxNumMessages (pool s) = maxNum"
    by (simp_all add: pool_inv_def)
qed

lemma count_list_distinct: "(\<And>a. count_list xs a \<le> 1) \<Longrightarrow> distinct xs"
proof (induction xs)
  case (Cons x xs)
  have "count_list xs a \<le> 1" for a using Cons.prems [of a] by (auto split: if_splits)
  moreover have "count_list xs x = 0" using Cons.prems [of x] by simp
  ultimately show ?case using Cons.IH by (simp add: count_list_0_iff)
qed simp

text \<open>
  C11.  However any number of goroutines interleave in the pool, and whatever they release, twice or
  after the pool has handed the message out again: no message is in the pool twice or both in the pool
  and in the hands of a goroutine inside the pool's code, no two goroutines are recycling the same
  message, every such message carries the released mark, and the pool keeps within its limit.
\<close>

theorem pool_exclusive:
  assumes "reachable n maxNum h s"
  shows "distinct (messagePool (pool s))
    \<and> (\<forall>i r. i < length (threads s) \<and> holds r (threads s ! i) \<longrightarrow>
          r \<notin> set (messagePool (pool s)) \<and> odd (lifetime (heap s r))
          \<and> (\<forall>j. j < length (threads s) \<and> holds r (threads s ! j) \<longrightarrow> j = i))
    \<and> (\<forall>r \<in> set (messagePool (pool s)). odd (lifetime (heap s r)))
    \<and> int (length (messagePool (pool s))) \<le> currentMessagesInPool (pool s)
    \<and> currentMessagesInPool (pool s) \<le> int (unat maxNum)"
proof -
  note inv = reachable_invariant [OF assms]
  have ex: "count_list (messagePool (pool s)) a + number (holds a) (threads s) \<le> 1"
    "count_list (messagePool (pool s)) a + number (holds a) (threads s) \<noteq> 0 \<Longrightarrow> odd (lifetime (heap s a))" for a
    using inv(3) [of a] by (auto simp: exclusive_def holders_def)
  have 1: "distinct (messagePool (pool s))"
    by (rule count_list_distinct) (rule add_leD1 [OF ex(1)])
  have 2: "r \<notin> set (messagePool (pool s)) \<and> odd (lifetime (heap s r)) \<and> (\<forall>j. j < length (threads s) \<and> holds r (threads s ! j) \<longrightarrow> j = i)"
    if "i < length (threads s) \<and> holds r (threads s ! i)" for i r
  proof -
    have "0 < number (holds r) (threads s)" using number_move(2) [of i "threads s" _ "holds r"] that by blast
    then have "count_list (messagePool (pool s)) r = 0" "number (holds r) (threads s) \<le> 1" using ex(1) [of r] by simp_all
    then show ?thesis
      using ex(2) [of r] \<open>0 < number (holds r) (threads s)\<close> number_le1_unique [of "holds r" "threads s" _ i] that
      by (auto simp: count_list_0_iff)
  qed
  have 3: "odd (lifetime (heap s r))" if "r \<in> set (messagePool (pool s))" for r
    using count_list_pos [OF that] ex(2) [of r] by simp
  have 4: "int (length (messagePool (pool s))) \<le> currentMessagesInPool (pool s)" "currentMessagesInPool (pool s) \<le> int (unat maxNum)"
    using inv(2,4) by (simp_all add: counted_def)
  show ?thesis
    by (rule conjI [OF 1 conjI [OF _ conjI [OF ballI [OF 3] conjI [OF 4]]]]) (rule allI, rule allI, rule impI, erule 2)
qed

text \<open>
  \<open>ReleaseMessage\<close>, as a function of the whole state, is what one goroutine brings about when no
  other interferes between its atomic accesses.
\<close>

lemma ReleaseMessage_refines:
  assumes "at_pc s i Idle" "r < allocated s"
  shows "case ReleaseMessage capM capU r (pool s) (heap s) of (p, h) \<Rightarrow> step\<^sup>*\<^sup>* s (s\<lparr>pool := p, heap := h\<rparr>)"
proof (cases "even (lifetime (heap s r))")
  case False
  then show ?thesis by (simp add: ReleaseMessage_def parity_word)
next
  case True
  let ?v = "lifetime (heap s r)"
  have idle: "(threads s)[i := Idle] = threads s" using assms(1) by (metis list_update_id)
  let ?s1 = "goto i (Loaded r ?v) s"
  let ?h = "set_lifetime r (?v OR 1) (heap s)"
  let ?s2 = "goto i (Freeing r) (s\<lparr>heap := ?h\<rparr>)"
  have "step s ?s1" using assms True by (intro step.load) (simp_all add: parity_word)
  moreover have "step ?s1 ?s2" using step.cas [where s = "?s1" and i = i and r = r and state = ?v] assms(1) by simp
  ultimately have s2: "step\<^sup>*\<^sup>* s ?s2" by (meson converse_rtranclp_into_rtranclp rtranclp.rtrancl_refl)
  show ?thesis
  proof (cases "currentMessagesInPool (pool s) \<ge> int (unat (maxNumMessages (pool s)))")
    case full: True
    have "step ?s2 (s\<lparr>heap := ?h\<rparr>)"
      using step.full [where s = "?s2" and i = i and r = r] full assms(1) by (simp add: idle)
    then show ?thesis
      using s2 True full by (simp add: ReleaseMessage_def releaseMessage_def parity_word set_lifetime_def)
  next
    case room: False
    let ?c = "currentMessagesInPool (pool s)"
    let ?s3 = "goto i (Counting r ?c) (s\<lparr>heap := ?h\<rparr>)"
    let ?s4 = "goto i (Putting r) (s\<lparr>heap := ?h, pool := (pool s)\<lparr>currentMessagesInPool := ?c + 1\<rparr>\<rparr>)"
    let ?s5 = "s\<lparr>heap := ?h(r := PM_Reset capM capU (?h r)),
                 pool := (pool s)\<lparr>currentMessagesInPool := ?c + 1, messagePool := r # messagePool (pool s)\<rparr>\<rparr>"
    have "step ?s2 ?s3" using step.room [where s = "?s2" and i = i and r = r and v = ?c] room assms(1) by simp
    moreover have "step ?s3 ?s4" using step.inc [where s = "?s3" and i = i and r = r and v = ?c] assms(1) by simp
    moreover have "step ?s4 ?s5" using step.put [where s = "?s4" and i = i and r = r and capM = capM and capU = capU] assms(1) by (simp add: idle)
    ultimately have s5: "step\<^sup>*\<^sup>* s ?s5" using s2 by (meson rtranclp.rtrancl_into_rtrancl)
    have "?s5 = s\<lparr>pool := (pool s)\<lparr>currentMessagesInPool := ?c + 1, messagePool := r # messagePool (pool s)\<rparr>,
                   heap := ?h(r := PM_Reset capM capU (?h r))\<rparr>" by simp
    note s5 [unfolded this]
    then show ?thesis
      using True room by (simp add: ReleaseMessage_def releaseMessage_def parity_word set_lifetime_def)
  qed
qed

lemma ReleaseMessage_refines_example:
  "\<exists>h. step\<^sup>*\<^sup>* (\<lparr>pool = pool_New 1 0, heap = \<lambda>_. NewMessage, allocated = 1, threads = [Idle]\<rparr> :: nat world)
     \<lparr>pool = \<lparr>currentMessagesInPool = 1, messagePool = [0], maxNumMessages = 1, maxMessageBufferSize = 0\<rparr>,
      heap = h, allocated = 1, threads = [Idle]\<rparr>"
proof -
  let ?s = "\<lparr>pool = pool_New 1 0, heap = \<lambda>_. NewMessage, allocated = 1, threads = [Idle]\<rparr> :: nat world"
  have "lifetime (heap ?s 0) = 0" by (simp add: NewMessage_def)
  then have "ReleaseMessage 256 256 0 (pool ?s) (heap ?s) =
     (\<lparr>currentMessagesInPool = 1, messagePool = [0], maxNumMessages = 1, maxMessageBufferSize = 0\<rparr>,
      snd (ReleaseMessage 256 256 0 (pool ?s) (heap ?s)))"
    unfolding ReleaseMessage_def by (simp add: releaseMessage_def pool_New_def)
  then show ?thesis
    using ReleaseMessage_refines [of 0 ?s 0 256 256] by (auto split: prod.splits)
qed

text \<open>
  Two goroutines, two messages: both release message 0 at the same time, one of them loses the compare-and-swap, the
  other puts the message into the pool, and the loser goes on to release message 1.
\<close>

definition pool_at :: "int \<Rightarrow> ref list \<Rightarrow> nat \<Rightarrow> pc list \<Rightarrow> unit heap \<Rightarrow> unit world" where
  "pool_at cnt refs n pcs h =
     \<lparr>pool = \<lparr>currentMessagesInPool = cnt, messagePool = refs, maxNumMessages = 5, maxMessageBufferSize = 0\<rparr>,
      heap = h, allocated = n, threads = pcs\<rparr>"

definition fresh_heap :: "unit heap" where
  "fresh_heap = (\<lambda>_. NewMessage)"

lemma fresh_heap [simp]: "fresh_heap(r := NewMessage) = fresh_heap" "lifetime (fresh_heap r) = 0"
  by (simp_all add: fresh_heap_def fun_eq_iff NewMessage_def)

lemma step_snoc [trans]: "step\<^sup>*\<^sup>* s s' \<Longrightarrow> step s' s'' \<Longrightarrow> step\<^sup>*\<^sup>* s s''"
  by (rule rtranclp.rtrancl_into_rtrancl)

lemma released_twice:
  "step\<^sup>*\<^sup>* (start 2 (pool_New 5 0) fresh_heap) (pool_at 0 [] 2 [Freeing 0, Idle] (set_lifetime 0 1 fresh_heap))"
proof -
  have "step\<^sup>*\<^sup>* (start 2 (pool_New 5 0) fresh_heap) (pool_at 0 [] 0 [Idle, Idle] fresh_heap)"
    by (simp add: start_def pool_New_def pool_at_def numeral_2_eq_2)
  also have "step \<dots> (pool_at 0 [] 1 [Idle, Idle] fresh_heap)"
    using step.get_new [where s = "pool_at 0 [] 0 [Idle, Idle] fresh_heap" and i = 0] by (simp add: pool_at_def)
  also have "step \<dots> (pool_at 0 [] 2 [Idle, Idle] fresh_heap)"
    using step.get_new [where s = "pool_at 0 [] 1 [Idle, Idle] fresh_heap" and i = 1] by (simp add: pool_at_def numeral_2_eq_2)
  also have "step \<dots> (pool_at 0 [] 2 [Loaded 0 0, Idle] fresh_heap)"
    using step.load [where s = "pool_at 0 [] 2 [Idle, Idle] fresh_heap" and i = 0 and r = 0] by (simp add: pool_at_def)
  also have "step \<dots> (pool_at 0 [] 2 [Loaded 0 0, Loaded 0 0] fresh_heap)"
    using step.load [where s = "pool_at 0 [] 2 [Loaded 0 0, Idle] fresh_heap" and i = 1 and r = 0] by (simp add: pool_at_def)
  also have "step \<dots> (pool_at 0 [] 2 [Freeing 0, Loaded 0 0] (set_lifetime 0 1 fresh_heap))"
    using step.cas [where s = "pool_at 0 [] 2 [Loaded 0 0, Loaded 0 0] fresh_heap" and i = 0 and r = 0 and state = 0] by (simp add: pool_at_def)
  also have "step \<dots> (pool_at 0 [] 2 [Freeing 0, Idle] (set_lifetime 0 1 fresh_heap))"
    using step.cas_fails [where s = "pool_at 0 [] 2 [Freeing 0, Loaded 0 0] (set_lifetime 0 1 fresh_heap)" and i = 1 and r = 0 and state = 0]
    by (simp add: pool_at_def set_lifetime_def)
  finally show ?thesis .
qed

definition one_pooled :: "unit world" where
  "one_pooled = pool_at 1 [0] 2 [Idle, Freeing 1] (set_lifetime 1 1 (fresh_heap(0 := PM_Reset 0 0 (set_lifetime 0 1 fresh_heap 0))))"

lemma one_pooled_reachable: "reachable 2 5 fresh_heap one_pooled"
proof -
  let ?h = "set_lifetime 0 1 fresh_heap"
  let ?g = "fresh_heap(0 := PM_Reset 0 0 (?h 0))"
  have g: "?h(0 := PM_Reset 0 0 (?h 0)) = ?g" by (simp add: set_lifetime_def)
  have "step\<^sup>*\<^sup>* (start 2 (pool_New 5 0) fresh_heap) (pool_at 0 [] 2 [Freeing 0, Idle] ?h)" by (rule released_twice)
  also have "step \<dots> (pool_at 0 [] 2 [Counting 0 0, Idle] ?h)"
    using step.room [where s = "pool_at 0 [] 2 [Freeing 0, Idle] ?h" and i = 0 and r = 0 and v = 0] by (simp add: pool_at_def)
  also have "step \<dots> (pool_at 1 [] 2 [Putting 0, Idle] ?h)"
    using step.inc [where s = "pool_at 0 [] 2 [Counting 0 0, Idle] ?h" and i = 0 and r = 0 and v = 0] by (simp add: pool_at_def)
  also have "step \<dots> (pool_at 1 [0] 2 [Idle, Idle] ?g)"
    using step.put [where s = "pool_at 1 [] 2 [Putting 0, Idle] ?h" and i = 0 and r = 0 and capM = 0 and capU = 0] unfolding g [symmetric] by (simp add: pool_at_def)
  also have "step \<dots> (pool_at 1 [0] 2 [Idle, Loaded 1 0] ?g)"
    using step.load [where s = "pool_at 1 [0] 2 [Idle, Idle] ?g" and i = 1 and r = 1] by (simp add: pool_at_def)
  also have "step \<dots> one_pooled"
    using step.cas [where s = "pool_at 1 [0] 2 [Idle, Loaded 1 0] ?g" and i = 1 and r = 1 and state = 0] by (simp add: pool_at_def one_pooled_def)
  finally show ?thesis by (rule exI)
qed

theorem pool_exclusive_witness:
  "reachable 2 5 fresh_heap one_pooled \<and> messagePool (pool one_pooled) = [0] \<and> threads one_pooled = [Idle, Freeing 1]
    \<and> distinct (messagePool (pool one_pooled)) \<and> 1 \<notin> set (messagePool (pool one_pooled))
    \<and> odd (lifetime (heap one_pooled 1)) \<and> odd (lifetime (heap one_pooled 0)) \<and> currentMessagesInPool (pool one_pooled) \<le> 5"
proof -
  note E = pool_exclusive [OF one_pooled_reachable]
  have s: "messagePool (pool one_pooled) = [0]" "threads one_pooled = [Idle, Freeing 1]"
    by (simp_all add: one_pooled_def pool_at_def)
  have "1 \<notin> set (messagePool (pool one_pooled)) \<and> odd (lifetime (heap one_pooled 1))"
    using conjunct1 [OF conjunct2 [OF E], rule_format, of 1 1] s(2) by simp
  then show ?thesis using E one_pooled_reachable s by simp
qed

subsection \<open>Generations\<close>

lemma push_bit_generation:
  fixes v g :: u64
  assumes "unat g < 2 ^ 63"
  shows "v = push_bit 1 g \<longleftrightarrow> even v \<and> drop_bit 1 v = g"
proof -
  have "unat (push_bit 1 g) = 2 * unat g"
    using assms by (simp only: unsigned_push_bit_eq) (simp add: take_bit_nat_eq_self)
  then have "v = push_bit 1 g \<longleftrightarrow> unat v = 2 * unat g"
    by (simp only: word_unat_eq_iff)
  moreover have "drop_bit 1 v = g \<longleftrightarrow> unat v div 2 = unat g"
    by (simp only: word_unat_eq_iff unat_drop_bit_eq) (simp add: drop_bit_Suc)
  moreover have "even v \<longleftrightarrow> even (unat v)"
    using bit_unsigned_iff [of v 0] by (metis bit_0 possible_bit_nat)
  ultimately show ?thesis by auto
qed

text \<open>
  \<open>ReleaseMessageIfNotHijacked\<close> with the generation captured from an acquisition is
  \<open>ReleaseMessage\<close> while that very acquisition is still the current one and was not hijacked, and does
  nothing in every other case, in particular after the owner has released the message and the pool
  has handed it out again.
\<close>

lemma release_if_not_hijacked_exact:
  assumes "unat generation < 2 ^ 63"
  shows "ReleaseMessageIfNotHijacked capM capU r generation p h =
    (if \<not> hijacked (h r) \<and> even (lifetime (h r)) \<and> PM_Generation (h r) = generation
     then ReleaseMessage capM capU r p h else (p, h))"
  using push_bit_generation [OF assms, of "lifetime (h r)"]
  by (auto simp: ReleaseMessageIfNotHijacked_def ReleaseMessage_def PM_Generation_def parity_word Let_def)

text \<open>
  A goroutine that still holds the generation of an earlier acquisition cannot release the message
  under its new owner: after a release and the next acquisition of the same message, the late release
  changes nothing.
\<close>

lemma late_release_ignored:
  assumes "even (lifetime (h r))" "ReleaseMessage capM capU r p h = (p1, h1)"
    "AcquireMessage (Some r) new p1 h1 = (p2, h2, r')"
  shows "ReleaseMessageIfNotHijacked capM' capU' r (PM_Generation (h r)) p2 h2 = (p2, h2)"
proof -
  let ?v = "lifetime (h r)"
  have "lifetime (h1 r) = ?v + 1"
    using assms(1,2) by (auto simp: ReleaseMessage_def releaseMessage_def parity_word or_one_eq PM_Reset_def Let_def split: if_splits)
  then have "lifetime (h2 r) = ?v + 2"
    using assms(3) by (auto simp: AcquireMessage_def)
  moreover have "unat (PM_Generation (h r)) < 2 ^ 63"
    unfolding PM_Generation_def unat_drop_bit_eq by (simp add: drop_bit_Suc less_mult_imp_div_less unsigned_less [of ?v, simplified])
  then have "push_bit 1 (PM_Generation (h r)) = ?v"
    using push_bit_generation [of "PM_Generation (h r)" ?v] assms(1) unfolding PM_Generation_def by metis
  ultimately have "lifetime (h2 r) \<noteq> push_bit 1 (PM_Generation (h r))"
    by (simp only:) simp
  then show ?thesis
    unfolding ReleaseMessageIfNotHijacked_def Let_def by (simp only: if_True disj_ac simp_thms)
qed

lemma release_if_not_hijacked_exact_example:
  "ReleaseMessageIfNotHijacked 0 0 5 3 (pool_New 1 0) (\<lambda>_. NewMessage :: nat PMessage) = (pool_New 1 0, \<lambda>_. NewMessage)"
proof -
  have "PM_Generation (NewMessage :: nat PMessage) = 0" by (simp add: PM_Generation_def NewMessage_def)
  then show ?thesis
    using release_if_not_hijacked_exact [of 3 0 0 5 "pool_New 1 0" "\<lambda>_. NewMessage :: nat PMessage"] by simp
qed

lemma late_release_ignored_example:
  "\<exists>p2 h2. (case ReleaseMessage 0 0 5 (pool_New 1 0) (\<lambda>_. NewMessage :: nat PMessage) of (p1, h1) \<Rightarrow> AcquireMessage (Some 5) 6 p1 h1) = (p2, h2, 5)
     \<and> ReleaseMessageIfNotHijacked 0 0 5 (PM_Generation (NewMessage :: nat PMessage)) p2 h2 = (p2, h2)"
proof -
  let ?h = "\<lambda>_ :: ref. NewMessage :: nat PMessage"
  obtain p1 h1 where r: "ReleaseMessage 0 0 5 (pool_New 1 0) ?h = (p1, h1)" by fastforce
  obtain p2 h2 where a: "AcquireMessage (Some 5) 6 p1 h1 = (p2, h2, 5)" by (simp add: AcquireMessage_def)
  have "even (lifetime (?h 5))" by (simp add: NewMessage_def)
  note late_release_ignored [OF this r a, of 0 0]
  then show ?thesis by (intro exI conjI) (simp_all add: r a)
qed

subsection \<open>Messages the runtime drops\<close>

definition exhausted :: "'cm world \<Rightarrow> bool" where
  "exhausted s \<longleftrightarrow> messagePool (pool s) = [] \<and> number accounted (threads s) = 0
     \<and> currentMessagesInPool (pool s) = int (unat (maxNumMessages (pool s)))"

lemma number_0: "number P ts = 0 \<Longrightarrow> i < length ts \<Longrightarrow> \<not> P (ts ! i)"
  by (auto simp: number_def filter_empty_conv)

lemma step_exhausted: "step s s' \<Longrightarrow> threads_ok s \<Longrightarrow> exhausted s \<Longrightarrow> exhausted s'"
proof (induction rule: step.induct)
  case (inc s i r v)
  then show ?case using pc_ok_at [OF inc.prems(1) inc.hyps(1)] by (simp add: exhausted_def)
next
  case (dec s i r)
  then show ?case using number_0 [of accounted "threads s" i] by (simp add: exhausted_def)
next
  case (put s i r capM capU)
  then show ?case using number_0 [of accounted "threads s" i] by (simp add: exhausted_def)
qed (auto simp: exhausted_def number_move)

text \<open>
  C39.  The counter of the pool is not told about the messages the runtime drops from the \<open>sync.Pool\<close>: once as
  many as the limit have been dropped, nothing is ever pooled again, whatever is acquired and released
  afterwards.
\<close>

theorem pool_stays_exhausted:
  assumes "threads_ok s" "exhausted s" "step\<^sup>*\<^sup>* s s'"
  shows "messagePool (pool s') = []"
proof -
  have "threads_ok s' \<and> exhausted s'"
    using assms(3,1,2) by (induction rule: rtranclp_induct) (blast intro: step_exhausted step_threads_ok)+
  then show ?thesis by (simp add: exhausted_def)
qed

theorem pool_stays_exhausted_witness:
  "\<exists>s :: nat world. reachable 1 1 (\<lambda>_. NewMessage) s \<and> (\<forall>s'. step\<^sup>*\<^sup>* s s' \<longrightarrow> messagePool (pool s') = [])"
proof -
  let ?w = "\<lambda>c q h. \<lparr>pool = \<lparr>currentMessagesInPool = c, messagePool = q, maxNumMessages = 1, maxMessageBufferSize = 0\<rparr>,
             heap = h, allocated = 1, threads = [Idle]\<rparr> :: nat world"
  have s1: "step (start 1 (pool_New 1 0) (\<lambda>_. NewMessage)) (?w 0 [] (\<lambda>_. NewMessage))"
    using step.get_new [where s = "start 1 (pool_New 1 0) (\<lambda>_. NewMessage)" and i = 0]
    by (simp add: start_def pool_New_def fun_upd_idem)
  let ?R = "ReleaseMessage 0 0 0 (pool (?w 0 [] (\<lambda>_. NewMessage))) (heap (?w 0 [] (\<lambda>_. NewMessage)))"
  have "lifetime (heap (?w 0 [] (\<lambda>_. NewMessage)) 0) = 0" by (simp add: NewMessage_def)
  then have "?R = (pool (?w 1 [0] (snd ?R)), snd ?R)"
    unfolding ReleaseMessage_def by (simp add: releaseMessage_def)
  then obtain h where s2: "step\<^sup>*\<^sup>* (?w 0 [] (\<lambda>_. NewMessage)) (?w 1 [0] h)"
    using ReleaseMessage_refines [of 0 "?w 0 [] (\<lambda>_. NewMessage)" 0 0 0] by (auto split: prod.splits)
  have s3: "step (?w 1 [0] h) (?w 1 [] h)"
    using step.gc [where s = "?w 1 [0] h" and r = 0] by simp
  have "step\<^sup>*\<^sup>* (start 1 (pool_New 1 0) (\<lambda>_. NewMessage)) (?w 1 [] h)"
    by (rule rtranclp.rtrancl_into_rtrancl [OF converse_rtranclp_into_rtranclp [OF s1 s2] s3])
  moreover have "threads_ok (?w 1 [] h)" "exhausted (?w 1 [] h)"
    by (simp_all add: threads_ok_def exhausted_def number_def)
  ultimately obtain w :: "nat world" where w: "step\<^sup>*\<^sup>* (start 1 (pool_New 1 0) (\<lambda>_. NewMessage)) w" "threads_ok w" "exhausted w"
    by (rule that)
  show ?thesis
    using w(1) pool_stays_exhausted [OF w(2,3)] by blast
qed

end
