(* ===== verification/Critical_Options.thy ===== *)
theory Critical_Options
  imports Message_Base
begin

text \<open>
  The critical options a node must refuse, \<open>net/client/criticalOptions.go\<close>.
\<close>

text \<open>The body of the loop: the option is critical and not one the receiver understands.\<close>

definition isUnknownCritical :: "bool \<Rightarrow> Opt \<Rightarrow> bool" where
  "isUnknownCritical enabled opt =
     (if ID opt mod 2 = 0 then False
      else
        (let isDisabledQ = (\<not> enabled \<and> (ID opt = QBlock1 \<or> ID opt = QBlock2))
         in \<not> (map_of CoapOptionDefs (ID opt) \<noteq> None \<and> \<not> isDisabledQ \<and> VerifyOptLen (ID opt) (int (length (Value opt))))))"

fun unknownCriticalLoop :: "bool \<Rightarrow> Options \<Rightarrow> u16 list \<Rightarrow> u16 \<Rightarrow> u16 list" where
  "unknownCriticalLoop enabled [] unknownCriticalOpts lastUnknownCriticalOpt = unknownCriticalOpts"
| "unknownCriticalLoop enabled (opt # options) unknownCriticalOpts lastUnknownCriticalOpt =
     (if \<not> isUnknownCritical enabled opt
      then unknownCriticalLoop enabled options unknownCriticalOpts lastUnknownCriticalOpt
      else if length unknownCriticalOpts > 0 \<and> ID opt = lastUnknownCriticalOpt
      then unknownCriticalLoop enabled options unknownCriticalOpts lastUnknownCriticalOpt
      else unknownCriticalLoop enabled options (unknownCriticalOpts @ [ID opt]) (ID opt))"

definition GetUnknownCriticalOptionsWithQBlock :: "Options \<Rightarrow> bool \<Rightarrow> u16 list" where
  "GetUnknownCriticalOptionsWithQBlock options enabled = unknownCriticalLoop enabled options [] 0"

definition GetUnknownCriticalOptions :: "Options \<Rightarrow> u16 list" where
  "GetUnknownCriticalOptions options = GetUnknownCriticalOptionsWithQBlock options False"

text \<open>\<open>strings.Join\<close> with a comma.\<close>

fun join_comma :: "string list \<Rightarrow> string" where
  "join_comma [] = ''''"
| "join_comma [p] = p"
| "join_comma (p # q # ps) = p @ '','' @ join_comma (q # ps)"

definition FormatUnknownCriticalOptionsDiagnostic :: "u16 list \<Rightarrow> string" where
  "FormatUnknownCriticalOptionsDiagnostic unknownCriticalOpts =
     ''unknown critical option(s): '' @ join_comma (map (\<lambda>opt. FormatUint (unat opt)) unknownCriticalOpts)"

lemma unknownCriticalLoop_eq:
  assumes "acc \<noteq> [] \<Longrightarrow> last acc = lst"
  shows "unknownCriticalLoop enabled os acc lst =
    butlast acc @ remdups_adj ((if acc = [] then [] else [lst]) @ map ID (filter (isUnknownCritical enabled) os))"
  using assms
proof (induction os arbitrary: acc lst)
  case Nil
  then show ?case using append_butlast_last_id [of acc] by (cases "acc = []") auto
next
  case (Cons opt os)
  show ?case
  proof (cases "acc = []")
    case True
    then show ?thesis using Cons.IH [of "[ID opt]" "ID opt"] Cons.IH [of "[]" lst] by simp
  next
    case False
    then have "butlast acc @ [lst] = acc" using Cons.prems append_butlast_last_id [of acc] by simp
    then show ?thesis
      using False Cons.prems Cons.IH [of acc lst] Cons.IH [of "acc @ [ID opt]" "ID opt"]
      by (auto simp: remdups_adj_Cons_alt)
  qed
qed

lemma distinct_remdups_adj_sorted: "sorted xs \<Longrightarrow> distinct (remdups_adj (xs :: 'a :: linorder list))"
  by (induction xs rule: remdups_adj.induct) (auto simp: order_class.less_le)

text \<open>
  The options reported for a message with its options in order are exactly the critical ones the
  receiver does not understand: an odd number, and unregistered, of an illegal length, or one of the
  Q-Block options while these are disabled.  Each is reported once, in ascending order.
\<close>

lemma unknown_critical_exact:
  assumes "opts_sorted os"
  shows "set (GetUnknownCriticalOptionsWithQBlock os enabled) =
           ID ` set (filter (\<lambda>opt. odd (unat (ID opt)) \<and>
              (map_of CoapOptionDefs (ID opt) = None \<or> \<not> VerifyOptLen (ID opt) (int (length (Value opt)))
               \<or> \<not> enabled \<and> ID opt \<in> {QBlock1, QBlock2})) os)
         \<and> sorted (GetUnknownCriticalOptionsWithQBlock os enabled) \<and> distinct (GetUnknownCriticalOptionsWithQBlock os enabled)"
proof -
  let ?ids = "map ID (filter (isUnknownCritical enabled) os)"
  have eq: "GetUnknownCriticalOptionsWithQBlock os enabled = remdups_adj ?ids"
    using unknownCriticalLoop_eq [of "[]" 0 enabled os] by (simp add: GetUnknownCriticalOptionsWithQBlock_def)
  have "sorted ?ids" using assms by (simp add: opts_sorted_def sorted_filter)
  moreover have "(x mod 2 = 0) = even (unat x)" for x :: u16
    by (simp add: word_unat_eq_iff unat_mod even_iff_mod_2_eq_zero)
  ultimately show ?thesis
    by (auto simp: eq isUnknownCritical_def Let_def distinct_remdups_adj_sorted sorted_remdups_adj)
qed

lemma unknown_critical_exact_example:
  "set (GetUnknownCriticalOptionsWithQBlock [\<lparr>ID = 9, Value = []\<rparr>, \<lparr>ID = 9, Value = [1]\<rparr>, \<lparr>ID = 11, Value = [97]\<rparr>] False) = {9}"
proof -
  let ?os = "[\<lparr>ID = 9, Value = []\<rparr>, \<lparr>ID = 9, Value = [1]\<rparr>, \<lparr>ID = 11, Value = [97]\<rparr>]"
  have "opts_sorted ?os" by (simp add: opts_sorted_def)
  note unknown_critical_exact [OF this, of False]
  moreover have "map_of CoapOptionDefs 9 = None" "VerifyOptLen 11 1" "map_of CoapOptionDefs 11 \<noteq> None"
    by (simp_all add: CoapOptionDefs_def VerifyOptLen_def)
  ultimately show ?thesis by auto
qed

end
