(* ===== verification/Sync_Map.thy ===== *)
theory Sync_Map
  imports Coap_Prelude "HOL-Library.AList"
begin

text \<open>
  The map with a lock, \<open>pkg/sync/map.go\<close>.  The data of a map is an association list with distinct
  keys; the order of the list is the order in which \<open>Range\<close> happens to visit the entries.  Every
  operation runs under the lock and is one step; \<open>LoadOrStore\<close> takes the lock twice, so it has the
  map at the first and at the second locking as arguments.

  A callback gets the stored value (\<open>None\<close> when there is none) and returns the new value
  (\<open>None\<close> to delete) with a result of its own, which stands for the variables it captures.
\<close>

type_synonym ('k, 'v) smap = "('k \<times> 'v) list"

definition smap_ok :: "('k, 'v) smap \<Rightarrow> bool" where
  "smap_ok m \<longleftrightarrow> distinct (map fst m)"

definition NewMap :: "('k, 'v) smap" where
  "NewMap = []"

definition Map_Store :: "'k \<Rightarrow> 'v \<Rightarrow> ('k, 'v) smap \<Rightarrow> ('k, 'v) smap" where
  "Map_Store key v m = AList.update key v m"

definition Map_Load :: "'k \<Rightarrow> ('k, 'v) smap \<Rightarrow> 'v option" where
  "Map_Load key m = map_of m key"

definition Map_LoadOrStore :: "'k \<Rightarrow> 'v \<Rightarrow> ('k, 'v) smap \<Rightarrow> ('k, 'v) smap \<Rightarrow> ('k, 'v) smap \<times> 'v \<times> bool" where
  "Map_LoadOrStore key v m1 m2 =
     (case map_of m1 key of
        Some v1 \<Rightarrow> (m2, v1, True)
      | None \<Rightarrow>
          (case map_of m2 key of
             Some v2 \<Rightarrow> (m2, v2, True)
           | None \<Rightarrow> (AList.update key v m2, v, False)))"

definition Map_Replace :: "'k \<Rightarrow> 'v \<Rightarrow> ('k, 'v) smap \<Rightarrow> ('k, 'v) smap \<times> 'v option" where
  "Map_Replace key v m = (AList.update key v m, map_of m key)"

definition Map_Delete :: "'k \<Rightarrow> ('k, 'v) smap \<Rightarrow> ('k, 'v) smap" where
  "Map_Delete key m = AList.delete key m"

definition Map_LoadAndDelete :: "'k \<Rightarrow> ('k, 'v) smap \<Rightarrow> ('k, 'v) smap \<times> 'v option" where
  "Map_LoadAndDelete key m = (AList.delete key m, map_of m key)"

definition Map_LoadAndDeleteAll :: "('k, 'v) smap \<Rightarrow> ('k, 'v) smap \<times> ('k, 'v) smap" where
  "Map_LoadAndDeleteAll m = ([], m)"

definition Map_CopyData :: "('k, 'v) smap \<Rightarrow> ('k, 'v) smap" where
  "Map_CopyData m = fold (\<lambda>(k, v) c. AList.update k v c) m []"

definition Map_Length :: "('k, 'v) smap \<Rightarrow> int" where
  "Map_Length m = int (length m)"

text \<open>
  \<open>Range2\<close> calls \<open>f\<close> on the entries until it returns false; \<open>f\<close> works on a state of its own.
  \<open>Range\<close> visits the entries in the same way, but lets go of the lock around each call.
\<close>

fun Map_Range2 :: "('k \<Rightarrow> 'v \<Rightarrow> 's \<Rightarrow> 's \<times> bool) \<Rightarrow> ('k, 'v) smap \<Rightarrow> 's \<Rightarrow> 's" where
  "Map_Range2 f [] s = s"
| "Map_Range2 f ((key, v) # m) s =
     (let (s', ok) = f key v s in if \<not> ok then s' else Map_Range2 f m s')"

definition Map_StoreWithFunc :: "'k \<Rightarrow> (unit \<Rightarrow> 'v) \<Rightarrow> ('k, 'v) smap \<Rightarrow> ('k, 'v) smap" where
  "Map_StoreWithFunc key createFunc m = AList.update key (createFunc ()) m"

definition Map_LoadWithFunc :: "'k \<Rightarrow> ('v \<Rightarrow> 'v) option \<Rightarrow> ('k, 'v) smap \<Rightarrow> 'v option" where
  "Map_LoadWithFunc key onLoadFunc m =
     (case map_of m key of
        None \<Rightarrow> None
      | Some v \<Rightarrow> Some (case onLoadFunc of None \<Rightarrow> v | Some f \<Rightarrow> f v))"

definition Map_LoadOrStoreWithFunc ::
    "'k \<Rightarrow> ('v \<Rightarrow> 'v) option \<Rightarrow> (unit \<Rightarrow> 'v) \<Rightarrow> ('k, 'v) smap \<Rightarrow> ('k, 'v) smap \<times> 'v \<times> bool" where
  "Map_LoadOrStoreWithFunc key onLoadFunc createFunc m =
     (case map_of m key of
        Some v \<Rightarrow> (m, case onLoadFunc of None \<Rightarrow> v | Some f \<Rightarrow> f v, True)
      | None \<Rightarrow> (let v = createFunc () in (AList.update key v m, v, False)))"

text \<open>The limit: \<open>None\<close> is the answer \<open>accepted = false\<close>.\<close>

definition Map_LoadOrStoreWithFuncAndLimit ::
    "'k \<Rightarrow> int \<Rightarrow> ('v \<Rightarrow> 'v) option \<Rightarrow> (unit \<Rightarrow> 'v) \<Rightarrow> ('k, 'v) smap \<Rightarrow> ('k, 'v) smap \<times> ('v \<times> bool) option" where
  "Map_LoadOrStoreWithFuncAndLimit key maxEntries onLoadFunc createFunc m =
     (case map_of m key of
        Some v0 \<Rightarrow>
          (let v = (case onLoadFunc of None \<Rightarrow> v0 | Some f \<Rightarrow> f v0)
           in (AList.update key v m, Some (v, True)))
      | None \<Rightarrow>
          if maxEntries > 0 \<and> int (length m) \<ge> maxEntries then (m, None)
          else (let v = createFunc () in (AList.update key v m, Some (v, False))))"

definition Map_ReplaceWithFunc ::
    "'k \<Rightarrow> ('v option \<Rightarrow> 'v option \<times> 'r) \<Rightarrow> ('k, 'v) smap \<Rightarrow> ('k, 'v) smap \<times> 'v option \<times> 'r" where
  "Map_ReplaceWithFunc key onReplaceFunc m =
     (let old = map_of m key;
          (new, r) = onReplaceFunc old
      in case new of
           None \<Rightarrow> (AList.delete key m, old, r)
         | Some v \<Rightarrow> (AList.update key v m, old, r))"

definition Map_LoadAndDeleteWithFunc ::
    "'k \<Rightarrow> ('v \<Rightarrow> 'v) \<Rightarrow> ('k, 'v) smap \<Rightarrow> ('k, 'v) smap \<times> 'v option" where
  "Map_LoadAndDeleteWithFunc key onLoadFunc m =
     (let (m', _, r) =
        Map_ReplaceWithFunc key
          (\<lambda>old. case old of Some v \<Rightarrow> (None, Some (onLoadFunc v)) | None \<Rightarrow> (None, None)) m
      in (m', r))"

definition Map_DeleteWithFunc :: "'k \<Rightarrow> ('v \<Rightarrow> unit) \<Rightarrow> ('k, 'v) smap \<Rightarrow> ('k, 'v) smap" where
  "Map_DeleteWithFunc key onDeleteFunc m =
     fst (Map_LoadAndDeleteWithFunc key (\<lambda>v. let _ = onDeleteFunc v in v) m)"

subsection \<open>The laws of the map\<close>

text \<open>What a client of a map with limited size relies on, over the function the map stands for.\<close>

locale bounded_map =
  fixes invar :: "'s \<Rightarrow> bool" and lookup :: "'s \<Rightarrow> 'k \<Rightarrow> 'v option" and size_of :: "'s \<Rightarrow> nat"
    and put :: "'k \<Rightarrow> 'v \<Rightarrow> 's \<Rightarrow> 's" and drop_key :: "'k \<Rightarrow> 's \<Rightarrow> 's" and empty :: 's
  assumes invar_empty: "invar empty"
    and invar_put: "invar s \<Longrightarrow> invar (put k v s)"
    and invar_drop: "invar s \<Longrightarrow> invar (drop_key k s)"
    and lookup_empty: "lookup empty k = None"
    and lookup_put: "lookup (put k v s) = (lookup s)(k \<mapsto> v)"
    and lookup_drop: "lookup (drop_key k s) = (lookup s)(k := None)"
    and size_put: "invar s \<Longrightarrow> size_of (put k v s) = (if lookup s k = None then Suc (size_of s) else size_of s)"
    and size_drop: "invar s \<Longrightarrow> size_of (drop_key k s) = (if lookup s k = None then size_of s else size_of s - 1)"
begin

text \<open>Dropping a list of keys leaves exactly the others.\<close>

lemma drop_keys:
  "lookup (fold drop_key ks s) k = (if k \<in> set ks then None else lookup s k)"
  by (induction ks arbitrary: s) (auto simp: lookup_drop)

lemma drop_keys_invar: "invar s \<Longrightarrow> invar (fold drop_key ks s)"
  by (induction ks arbitrary: s) (auto simp: invar_drop)

lemma put_keeps_bound:
  "invar s \<Longrightarrow> size_of s \<le> n \<Longrightarrow> lookup s k \<noteq> None \<or> size_of s < n \<Longrightarrow> size_of (put k v s) \<le> n"
  by (auto simp: size_put)

end

lemma length_update: "length (AList.update k v m) = (if map_of m k = None then Suc (length m) else length m)"
  by (induction m) auto

lemma delete_absent: "map_of m k = None \<Longrightarrow> AList.delete k m = m"
  by (induction m) (auto split: if_splits)

lemma length_delete:
  "smap_ok m \<Longrightarrow> length (AList.delete k m) = (if map_of m k = None then length m else length m - 1)"
proof (induction m)
  case (Cons kv m)
  obtain k' v where kv: "kv = (k', v)" by (cases kv)
  show ?case
  proof (cases "k' = k")
    case True
    then have "map_of m k = None" using Cons.prems by (auto simp: kv smap_ok_def map_of_eq_None_iff)
    then show ?thesis using True by (simp add: kv delete_absent)
  next
    case False
    have "map_of m k \<noteq> None \<Longrightarrow> length m > 0" by (cases m) auto
    then show ?thesis using False Cons by (auto simp: kv smap_ok_def)
  qed
qed simp

interpretation alist: bounded_map smap_ok "map_of" length AList.update AList.delete "[]"
  by unfold_locales
    (auto simp: smap_ok_def distinct_update distinct_delete update_conv' delete_conv' length_update length_delete)

end
