(* ===== verification/Tcp_Session.thy ===== *)
theory Tcp_Session
  imports Pool_Message Critical_Options Sync_Map
begin

text \<open>
  The stream session, \<open>tcp/client/session.go\<close>, with the signal messages of \<open>tcp/client/conn.go\<close>: bytes
  read from a connection collect in a buffer, complete frames are cut off and decoded, requests with
  critical options the node does not know are refused, signals are answered, everything else is queued.

  What the session does to the outside is a log of events.  The messages \<open>AcquireMessage\<close> returns,
  with the capacities of their option slices, are a parameter (\<open>acquired\<close>), as are the request
  monitor, the result of a write to the connection and which errors mean a broken connection.
  An error that wraps another (\<open>%w\<close>) is the wrapped error.  A panic, and a loop that does not end,
  is \<open>None\<close>.
\<close>

datatype ('cm, 'h) event =
    Wrote bytes
  | SignalReceived u16
  | Notified
  | Queued "'cm PMessage"
  | Processed "'cm PMessage" 'h
  | Reported go_error
  | Released

record ('cm, 'h) tconn =
  seqno :: u64
  maxMessageSize :: u32
  disablePeerTCPSignalMessageCSMs :: bool
  hasSignalHandler :: bool
  peerMaxMessageSize :: u32
  peerBlockWiseTranferEnabled :: bool
  tokenHandlerContainer :: "(u64, 'h) smap"
  acquired :: "nat \<Rightarrow> 'cm PMessage \<times> nat"
  acquisitions :: nat
  tlog :: "('cm, 'h) event list"

record 'cm tenv =
  requestMonitor :: "'cm PMessage \<Rightarrow> go_error + bool"
  connWrite :: "bytes \<Rightarrow> go_error option"
  isBroken :: "go_error \<Rightarrow> bool"

definition emit :: "('cm, 'h) event \<Rightarrow> ('cm, 'h) tconn \<Rightarrow> ('cm, 'h) tconn" where
  "emit e c = c\<lparr>tlog := tlog c @ [e]\<rparr>"

definition session_AcquireMessage :: "('cm, 'h) tconn \<Rightarrow> 'cm PMessage \<times> nat \<times> ('cm, 'h) tconn" where
  "session_AcquireMessage c =
     (let (r, capacity) = acquired c (acquisitions c) in (r, capacity, c\<lparr>acquisitions := Suc (acquisitions c)\<rparr>))"

definition session_Sequence :: "('cm, 'h) tconn \<Rightarrow> u64 \<times> ('cm, 'h) tconn" where
  "session_Sequence c = (seqno c + 1, c\<lparr>seqno := seqno c + 1\<rparr>)"

subsection \<open>Cutting off frames\<close>

text \<open>The loop of \<open>seekBufferToNextMessage\<close>: \<open>buffer.Read\<close> takes what is there, at most 4096 bytes.\<close>

partial_function (option) seekLoop :: "bytes \<Rightarrow> nat \<Rightarrow> nat \<Rightarrow> bytes option" where
  "seekLoop buffer msgSize trimmed =
     (if trimmed = msgSize then Some buffer
      else
        (let toRead = (if int msgSize - int trimmed < 4096 then msgSize - trimmed else 4096);
             v = min toRead (length buffer)
         in seekLoop (drop v buffer) msgSize (trimmed + v)))"

definition seekBufferToNextMessage :: "bytes \<Rightarrow> nat \<Rightarrow> bytes option" where
  "seekBufferToNextMessage buffer msgSize =
     (if msgSize = length buffer then Some [] else seekLoop buffer msgSize 0)"

text \<open>
  \<open>decodeMessageFromBuffer\<close> gives an error, or that the buffer holds no complete frame, or a message and the
  buffer behind it.
\<close>

definition decodeMessageFromBuffer ::
  "nat \<Rightarrow> bytes \<Rightarrow> ('cm, 'h) tconn \<Rightarrow> (('cm, 'h) tconn \<times> bytes \<times> (go_error + 'cm PMessage option)) option" where
  "decodeMessageFromBuffer fuel buffer c =
     (case DecodeHeader buffer MessageHeader_zero of
        (header, Inl err) \<Rightarrow>
          if err = ErrShortRead then Some (c, buffer, Inr None) else Some (c, buffer, Inl err)
      | (header, Inr _) \<Rightarrow>
          if HMessageLength header > uint (maxMessageSize c)
          then Some (c, buffer, Inl (ErrOther ''max message size was exceeded''))
          else if CastTo (Unsigned 32) (int (length buffer)) < HMessageLength header
          then Some (c, buffer, Inr None)
          else
            (let (req, capacity, c1) = session_AcquireMessage c in
             case PM_UnmarshalWithDecoder tcp_Decode fuel capacity (take (nat (HMessageLength header)) buffer) req of
               None \<Rightarrow> None
             | Some (_, Inl err) \<Rightarrow> Some (emit Released c1, buffer, Inl err)
             | Some (r, Inr read) \<Rightarrow>
                 (case seekBufferToNextMessage buffer (nat read) of
                    None \<Rightarrow> None
                  | Some rest \<Rightarrow>
                      (let (sq, c2) = session_Sequence c1
                       in Some (c2, rest, Inr (Some (PM_SetSequence sq r)))))))"

subsection \<open>Requests and signals\<close>

definition session_WriteMessage :: "'cm tenv \<Rightarrow> 'cm PMessage \<Rightarrow> ('cm, 'h) tconn \<Rightarrow> ('cm, 'h) tconn \<times> go_error option" where
  "session_WriteMessage env req c =
     (case PM_MarshalWithEncoder tcp_Size tcp_Encode req of
        (_, Inl err) \<Rightarrow> (c, Some err)
      | (_, Inr data) \<Rightarrow> (emit (Wrote data) c, connWrite env data))"

definition respondUnknownCriticalOptions ::
  "'cm tenv \<Rightarrow> 'cm PMessage \<Rightarrow> u16 list \<Rightarrow> ('cm, 'h) tconn \<Rightarrow> (('cm, 'h) tconn \<times> go_error option) option" where
  "respondUnknownCriticalOptions env req unknownCriticalOpts c =
     (let (resp, _, c1) = session_AcquireMessage c;
          resp1 = PM_SetToken (Token (msg req)) (PM_SetCode codes_BadOption resp)
      in case PM_SetContentFormat TextPlain resp1 of
           None \<Rightarrow> None
         | Some resp2 \<Rightarrow>
             (let resp3 = PM_SetBody (Some (NewReader (map of_char (FormatUnknownCriticalOptionsDiagnostic unknownCriticalOpts)))) resp2;
                  (c2, err) = session_WriteMessage env resp3 c1
              in Some (emit Released c2, err)))"

definition shouldDropRequest ::
  "'cm tenv \<Rightarrow> 'cm PMessage \<Rightarrow> ('cm, 'h) tconn \<Rightarrow> (('cm, 'h) tconn \<times> (go_error + bool)) option" where
  "shouldDropRequest env req c =
     (if Code (msg req) < codes_GET \<or> Code (msg req) \<ge> 32 then Some (c, Inr False)
      else
        (let unknownCriticalOpts = GetUnknownCriticalOptions (opts_of req) in
         if length unknownCriticalOpts = 0 then Some (c, Inr False)
         else case respondUnknownCriticalOptions env req unknownCriticalOpts c of
                None \<Rightarrow> None
              | Some (c1, Some err) \<Rightarrow> Some (c1, Inl err)
              | Some (c1, None) \<Rightarrow> Some (c1, Inr True)))"

definition sendPong :: "'cm tenv \<Rightarrow> bytes \<Rightarrow> ('cm, 'h) tconn \<Rightarrow> ('cm, 'h) tconn \<times> go_error option" where
  "sendPong env token c =
     (let (req, _, c1) = session_AcquireMessage c;
          (c2, err) = session_WriteMessage env (PM_SetToken token (PM_SetCode codes_Pong req)) c1
      in (emit Released c2, err))"

definition handleTCPSignalReceived :: "u16 \<Rightarrow> ('cm, 'h) tconn \<Rightarrow> ('cm, 'h) tconn" where
  "handleTCPSignalReceived code c = (if hasSignalHandler c then emit (SignalReceived code) c else c)"

definition handleSignals :: "'cm tenv \<Rightarrow> 'cm PMessage \<Rightarrow> ('cm, 'h) tconn \<Rightarrow> ('cm, 'h) tconn \<times> bool" where
  "handleSignals env r c =
     (let code = Code (msg r) in
      if code = codes_CSM then
        (if disablePeerTCPSignalMessageCSMs c then (c, True)
         else
           (let (sz, err) = Options_GetUint32 (opts_of r) TCPMaxMessageSize;
                c1 = (if err = None then c\<lparr>peerMaxMessageSize := sz\<rparr> else c);
                c2 = (if Options_HasOption (opts_of r) TCPBlockWiseTransfer
                      then c1\<lparr>peerBlockWiseTranferEnabled := True\<rparr> else c1)
            in (handleTCPSignalReceived codes_CSM c2, True)))
      else if code = codes_Ping then
        (let (c1, err) = sendPong env (Token (msg r)) c;
             c2 = (case err of
                     Some e \<Rightarrow> if \<not> isBroken env e then emit (Reported e) c1 else c1
                   | None \<Rightarrow> c1)
         in (handleTCPSignalReceived codes_Ping c2, True))
      else if code = codes_Pong then
        (let (hs, h) = Map_LoadAndDelete (Token_Hash (Token (msg r))) (tokenHandlerContainer c);
             c1 = c\<lparr>tokenHandlerContainer := hs\<rparr>;
             c2 = (case h of Some h' \<Rightarrow> emit (Processed r h') c1 | None \<Rightarrow> c1)
         in (handleTCPSignalReceived codes_Pong c2, True))
      else if code = codes_Release then (handleTCPSignalReceived codes_Release c, True)
      else if code = codes_Abort then (handleTCPSignalReceived codes_Abort c, True)
      else (c, False))"

text \<open>The queue is read by another goroutine; a closed connection drops the message instead.\<close>

definition pushToReceivedMessageQueue :: "'cm tenv \<Rightarrow> 'cm PMessage \<Rightarrow> ('cm, 'h) tconn \<Rightarrow> ('cm, 'h) tconn" where
  "pushToReceivedMessageQueue env r c =
     (let (c1, done) = handleSignals env r c in if done then c1 else emit (Queued r) c1)"

definition handleReceivedRequest ::
  "'cm tenv \<Rightarrow> 'cm PMessage \<Rightarrow> ('cm, 'h) tconn \<Rightarrow> (('cm, 'h) tconn \<times> (go_error + bool)) option" where
  "handleReceivedRequest env req c =
     (case shouldDropRequest env req c of
        None \<Rightarrow> None
      | Some (c1, Inl err) \<Rightarrow> Some (c1, Inl err)
      | Some (c1, Inr True) \<Rightarrow> Some (c1, Inr True)
      | Some (c1, Inr False) \<Rightarrow>
          (case requestMonitor env req of
             Inl err \<Rightarrow> Some (c1, Inl err)
           | Inr True \<Rightarrow> Some (c1, Inr True)
           | Inr False \<Rightarrow> Some (pushToReceivedMessageQueue env req (emit Notified c1), Inr False)))"

subsection \<open>The loops\<close>

partial_function (option) processBuffer ::
  "'cm tenv \<Rightarrow> nat \<Rightarrow> bytes \<Rightarrow> ('cm, 'h) tconn \<Rightarrow> (('cm, 'h) tconn \<times> bytes \<times> go_error option) option" where
  "processBuffer env fuel buffer c =
     (if length buffer = 0 then Some (c, buffer, None)
      else
        (case decodeMessageFromBuffer fuel buffer c of
           None \<Rightarrow> None
         | Some (c1, b1, Inl err) \<Rightarrow> Some (c1, b1, Some err)
         | Some (c1, b1, Inr None) \<Rightarrow> Some (c1, b1, None)
         | Some (c1, b1, Inr (Some req)) \<Rightarrow>
             (case handleReceivedRequest env req c1 of
                None \<Rightarrow> None
              | Some (c2, Inl err) \<Rightarrow> Some (emit Released c2, b1, Some err)
              | Some (c2, Inr dropped) \<Rightarrow> processBuffer env fuel b1 (if dropped then emit Released c2 else c2))))"

definition shrinkBufferIfNecessary :: "nat \<Rightarrow> bytes \<Rightarrow> u16 \<Rightarrow> bytes" where
  "shrinkBufferIfNecessary capacity buffer maxCap =
     (if length buffer = 0 \<and> capacity > unat maxCap then [] else buffer)"

text \<open>
  \<open>Run\<close>, for the results of the reads so far: the loop is waiting for the next read with a buffer, or has
  returned.
\<close>

datatype 'e run_state = Reading bytes | Returned "'e option"

fun Run_loop ::
  "(bytes \<Rightarrow> 's \<Rightarrow> ('s \<times> bytes \<times> go_error option) option) \<Rightarrow> (go_error \<Rightarrow> bool) \<Rightarrow> nat \<Rightarrow> u16 \<Rightarrow>
   (go_error + bytes) list \<Rightarrow> bytes \<Rightarrow> 's \<Rightarrow> ('s \<times> go_error run_state) option" where
  "Run_loop process broken capacity maxCap reads buffer c =
     (case process buffer c of
        None \<Rightarrow> None
      | Some (c1, _, Some err) \<Rightarrow> Some (c1, Returned (Some err))
      | Some (c1, b1, None) \<Rightarrow>
          (let b2 = shrinkBufferIfNecessary capacity b1 maxCap in
           case reads of
             [] \<Rightarrow> Some (c1, Reading b2)
           | Inl err # _ \<Rightarrow> Some (c1, Returned (if broken err then None else Some err))
           | Inr chunk # reads' \<Rightarrow>
               Run_loop process broken capacity maxCap reads' (if length chunk > 0 then b2 @ chunk else b2) c1))"

definition session_Run ::
  "'cm tenv \<Rightarrow> nat \<Rightarrow> nat \<Rightarrow> u16 \<Rightarrow> go_error option \<Rightarrow> (go_error + bytes) list \<Rightarrow> ('cm, 'h) tconn \<Rightarrow>
   (('cm, 'h) tconn \<times> go_error run_state) option" where
  "session_Run env fuel capacity connectionCacheSize errSendCSM reads c =
     (case errSendCSM of
        Some err \<Rightarrow> Some (c, Returned (Some err))
      | None \<Rightarrow> Run_loop (processBuffer env fuel) (isBroken env) capacity connectionCacheSize reads [] c)"

definition sendCSM :: "'cm tenv \<Rightarrow> go_error + bytes \<Rightarrow> ('cm, 'h) tconn \<Rightarrow> ('cm, 'h) tconn \<times> go_error option" where
  "sendCSM env token c =
     (case token of
        Inl err \<Rightarrow> (c, Some err)
      | Inr tok \<Rightarrow>
          (let (req, _, c1) = session_AcquireMessage c;
               (c2, err) = session_WriteMessage env (PM_SetToken tok (PM_SetCode codes_CSM req)) c1
           in (emit Released c2, err)))"

declare Run_loop.simps [simp del]

subsection \<open>A stream may be cut anywhere\<close>

text \<open>
  What a loop over the bytes of a stream needs of the function that consumes them: bytes that arrive
  later change nothing of what was done with the bytes before.  The messages the stream may use are in
  order (\<open>fit\<close>), and the stream stays below \<open>bound\<close> bytes.
\<close>

locale stream_consumer =
  fixes process :: "bytes \<Rightarrow> 's \<Rightarrow> ('s \<times> bytes \<times> go_error option) option"
    and fit :: "'s \<Rightarrow> bool" and bound :: nat
  assumes append_law: "fit s \<Longrightarrow> length (b @ x) < bound \<Longrightarrow>
      process (b @ x) s =
        (case process b s of
           None \<Rightarrow> None
         | Some (s', rest, None) \<Rightarrow> process (rest @ x) s'
         | Some (s', rest, Some e) \<Rightarrow> Some (s', rest @ x, Some e))"
    and fit_law: "process b s = Some (s', rest, r) \<Longrightarrow> fit s \<Longrightarrow> length b < bound \<Longrightarrow> fit s' \<and> length rest \<le> length b"
begin

lemma shrink_id: "shrinkBufferIfNecessary k b mx = b"
  by (auto simp: shrinkBufferIfNecessary_def)

lemma run_segments:
  assumes "fit s" "length (b @ concat chunks) < bound"
  shows "Run_loop process broken k mx (map Inr chunks) b s =
     (case process (b @ concat chunks) s of
        None \<Rightarrow> None
      | Some (s', rest, None) \<Rightarrow> Some (s', Reading rest)
      | Some (s', rest, Some e) \<Rightarrow> Some (s', Returned (Some e)))"
  using assms
proof (induction chunks arbitrary: b s)
  case Nil
  show ?case by (simp add: Run_loop.simps [of process] shrink_id split: option.split prod.split)
next
  case (Cons chunk chunks)
  have app: "process (b @ concat (chunk # chunks)) s =
        (case process b s of
           None \<Rightarrow> None
         | Some (s', rest, None) \<Rightarrow> process (rest @ concat (chunk # chunks)) s'
         | Some (s', rest, Some e) \<Rightarrow> Some (s', rest @ concat (chunk # chunks), Some e))"
    by (rule append_law [OF Cons.prems])
  show ?case
  proof (cases "process b s")
    case None
    then show ?thesis by (subst Run_loop.simps) (simp add: app [simplified])
  next
    case (Some a)
    obtain s' rest r where a: "a = (s', rest, r)" by (cases a)
    have ok: "fit s'" "length rest \<le> length b" using fit_law [OF Some [unfolded a] Cons.prems(1)] Cons.prems(2) by simp_all
    have "Run_loop process broken k mx (map Inr chunks) (rest @ chunk) s' =
       (case process ((rest @ chunk) @ concat chunks) s' of
        None \<Rightarrow> None
      | Some (s', rest, None) \<Rightarrow> Some (s', Reading rest)
      | Some (s', rest, Some e) \<Rightarrow> Some (s', Returned (Some e)))"
      using ok Cons.prems(2) by (intro Cons.IH) simp_all
    moreover have "(if length chunk > 0 then rest @ chunk else rest) = rest @ chunk" by simp
    ultimately show ?thesis
      using Some a by (subst Run_loop.simps) (cases r; simp add: app [simplified] shrink_id)
  qed
qed

end

subsection \<open>Decoding from the buffer\<close>

lemma seekLoop_eq:
  assumes "trimmed \<le> msgSize" "msgSize - trimmed \<le> length buffer"
  shows "seekLoop buffer msgSize trimmed = Some (drop (msgSize - trimmed) buffer)"
  using assms
proof (induction "msgSize - trimmed" arbitrary: trimmed buffer rule: less_induct)
  case less
  show ?case
  proof (cases "trimmed = msgSize")
    case True
    then show ?thesis by (simp add: seekLoop.simps [of buffer])
  next
    case False
    define v where "v = (if int msgSize - int trimmed < 4096 then msgSize - trimmed else 4096)"
    have v: "0 < v" "trimmed + v \<le> msgSize" "min v (length buffer) = v"
      using False less.prems by (auto simp: v_def split: if_splits)
    have "seekLoop (drop v buffer) msgSize (trimmed + v) = Some (drop (msgSize - (trimmed + v)) (drop v buffer))"
      using v less.prems by (intro less.hyps) auto
    moreover have "seekLoop buffer msgSize trimmed = seekLoop (drop v buffer) msgSize (trimmed + v)"
      using False v(3) by (subst seekLoop.simps) (simp add: v_def [symmetric] Let_def)
    ultimately show ?thesis using v(2) by simp
  qed
qed

lemma seekBufferToNextMessage_eq:
  "msgSize \<le> length buffer \<Longrightarrow> seekBufferToNextMessage buffer msgSize = Some (drop msgSize buffer)"
  by (simp add: seekBufferToNextMessage_def seekLoop_eq)

lemma Uint_append [simp]: "2 \<le> length d \<Longrightarrow> Uint16 (d @ x) = Uint16 d" "4 \<le> length d \<Longrightarrow> Uint32 (d @ x) = Uint32 d"
  by (cases d rule: Uint16.cases; simp) (cases d rule: Uint32.cases; simp)

lemma drop_append_le: "n \<le> length d \<Longrightarrow> drop n (d @ x) = drop n d @ x"
  by simp

lemma DecodeHeader_length_append:
  "DecodeHeader_length n d o1 \<noteq> Inl ErrShortRead \<Longrightarrow>
     DecodeHeader_length n (d @ x) o1 = map_sum id (map_prod id (map_prod (\<lambda>d. d @ x) id)) (DecodeHeader_length n d o1)"
  by (auto simp: DecodeHeader_length_def nth_append drop_append_le Suc_le_eq not_less simp del: drop_append split: if_splits)
    (cases d; simp)

text \<open>\<open>DecodeHeader\<close> behind the length field.\<close>

definition header_rest :: "nat \<Rightarrow> MessageHeader \<Rightarrow> go_error + int \<times> bytes \<times> int \<Rightarrow> MessageHeader \<times> (go_error + int)" where
  "header_rest tkl h t =
     (if tkl > MaxTokenSize then (h, Inl ErrInvalidTokenLen)
      else case t of
        Inl err \<Rightarrow> (h, Inl err)
      | Inr (opLen, data, hdrOff) \<Rightarrow>
          (case SafeCastTo (Unsigned 32) (hdrOff + 1 + int tkl + opLen) of
             Inl _ \<Rightarrow> (h, Inl ErrMessageTooLong)
           | Inr messageLength \<Rightarrow>
               if length data < 1 + tkl
               then (if data = [] then h\<lparr>HMessageLength := messageLength\<rparr>
                     else h\<lparr>HMessageLength := messageLength, HCode := ucast (data ! 0)\<rparr>, Inl ErrShortRead)
               else (h\<lparr>HMessageLength := messageLength, HCode := ucast (data ! 0),
                       HToken := (if tkl > 0 then take tkl (drop 1 data) else HToken h),
                       HLength := hdrOff + 1 + int tkl\<rparr>, Inr (hdrOff + 1 + int tkl))))"

lemma DecodeHeader_Cons:
  "DecodeHeader (b # d) h = header_rest (unat (b AND 0x0f)) h (DecodeHeader_length (drop_bit 4 (b AND 0xf0)) d 1)"
  unfolding DecodeHeader_def header_rest_def
  by (auto simp: Let_def split: sum.split)

lemma header_rest_append:
  assumes "header_rest tkl h t = (h', r)" "r \<noteq> Inl ErrShortRead"
  shows "header_rest tkl h (map_sum id (map_prod id (map_prod (\<lambda>d. d @ x) id)) t) = (h', r)"
  using assms by (auto simp: header_rest_def nth_append drop_append_le Suc_le_eq not_less simp del: drop_append split: if_splits sum.splits prod.splits)

lemma DecodeHeader_append:
  assumes "DecodeHeader d h = (h', r)" "r \<noteq> Inl ErrShortRead"
  shows "DecodeHeader (d @ x) h = (h', r)"
proof (cases d)
  case Nil
  then show ?thesis using assms by (simp add: DecodeHeader_def)
next
  case (Cons b d')
  let ?n = "drop_bit 4 (b AND 0xf0)"
  show ?thesis
  proof (cases "DecodeHeader_length ?n d' 1 = Inl ErrShortRead")
    case True
    then have "unat (b AND 0x0f) > MaxTokenSize"
      using assms unfolding Cons DecodeHeader_Cons header_rest_def by (auto split: if_splits)
    then show ?thesis
      using assms unfolding Cons append_Cons DecodeHeader_Cons header_rest_def by simp
  next
    case False
    show ?thesis
      using header_rest_append [OF assms [unfolded Cons DecodeHeader_Cons], of x]
      unfolding Cons append_Cons DecodeHeader_Cons DecodeHeader_length_append [OF False] .
  qed
qed

lemma DecodeHeader_length_bounds:
  "DecodeHeader_length nib d 1 = Inr (opLen, data, hdrOff) \<Longrightarrow>
     0 \<le> opLen \<and> opLen < 2 ^ 33 \<and> 1 \<le> hdrOff \<and> hdrOff \<le> 5 \<and> int (length data) + hdrOff = int (length d) + 1"
  using uint_lt2p [of nib] uint_lt2p [of "d ! 0"] uint_lt2p [of "Uint16 d"] uint_lt2p [of "Uint32 d"]
  by (auto simp: DecodeHeader_length_def tcp_consts of_nat_diff Suc_le_eq not_less split: if_splits)

lemma DecodeHeader_bounds:
  assumes "DecodeHeader d h = (h', Inr n)"
  shows "n = HLength h'" "2 \<le> HLength h'" "HLength h' \<le> HMessageLength h'" "HMessageLength h' < 2 ^ 32" "nat (HLength h') \<le> length d"
proof -
  obtain b d' where d: "d = b # d'" using assms by (cases d) (auto simp: DecodeHeader_def)
  define tkl where "tkl = unat (b AND 0x0f)"
  obtain opLen data hdrOff where l: "DecodeHeader_length (drop_bit 4 (b AND 0xf0)) d' 1 = Inr (opLen, data, hdrOff)"
    using assms unfolding d DecodeHeader_Cons header_rest_def
    by (cases "DecodeHeader_length (drop_bit 4 (b AND 0xf0)) d' 1") (auto split: if_splits)
  note lb = DecodeHeader_length_bounds [OF l]
  have tkl: "tkl \<le> 8" "\<not> length data < 1 + tkl"
    using assms unfolding d DecodeHeader_Cons header_rest_def l tkl_def [symmetric]
    by (auto simp: MaxTokenSize_def split: if_splits sum.splits)
  then have tkl': "1 + int tkl \<le> int (length data)" by simp
  define total where "total = hdrOff + 1 + int tkl + opLen"
  have "0 \<le> total" "total < 2 ^ 64" using lb tkl by (auto simp: total_def)
  then have sc: "SafeCastTo (Unsigned 32) total = (if total < 2 ^ 32 then Inr total else Inl ErrCastOverflow)"
    using SafeCastTo_Unsigned [of 32 total] by (simp add: machine_int_def)
  show "n = HLength h'" "2 \<le> HLength h'" "HLength h' \<le> HMessageLength h'" "HMessageLength h' < 2 ^ 32" "nat (HLength h') \<le> length d"
    using assms sc lb tkl' unfolding d DecodeHeader_Cons header_rest_def l tkl_def [symmetric]
    by (auto simp: total_def split: if_splits)
qed

lemma tcp_Decode_success:
  assumes "tcp_Decode data m0 c = (m, Inr n)" "Options m0 = []" "length data < 2 ^ 32"
  shows "n = HMessageLength (fst (DecodeHeader data MessageHeader_zero))" "2 \<le> n" "nat n \<le> length data"
proof -
  obtain header r where h: "DecodeHeader data MessageHeader_zero = (header, r)" by fastforce
  obtain n0 where r: "r = Inr n0" using assms(1) h by (auto simp: tcp_Decode_def split: sum.splits)
  note hb = DecodeHeader_bounds [OF h [unfolded r]]
  have len: "HMessageLength header \<le> int (length data)"
    using assms(1,3) h r by (auto simp: tcp_Decode_def CastTo_def split: if_splits)
  define d where "d = drop (nat (HLength header)) (take (nat (HMessageLength header)) data)"
  have d: "int (length d) = HMessageLength header - HLength header"
    using hb len by (simp add: d_def)
  have "DecodeWithHeader d header m0 c = (m, Inr n)"
    using assms(1) h r by (auto simp: tcp_Decode_def d_def split: if_splits)
  then obtain os proc where u: "Options_Unmarshal [] c d (signal_defs (HCode header)) = (os, Inr proc)"
      and n: "n = CastTo (Unsigned 32) (HLength header + CastTo (Unsigned 32) proc + CastTo (Unsigned 32) (int (length (drop (nat proc) d))))"
    using assms(2) by (auto simp: DecodeWithHeader_def Let_def split: prod.splits sum.splits)
  have p: "0 \<le> proc" "proc \<le> int (length d)"
    using Options_Unmarshal_result [OF u] by (auto simp: stops_at_def)
  then have "int (length (drop (nat proc) d)) = int (length d) - proc" by simp
  then have "n = HMessageLength header"
    using n p d hb by (simp add: CastTo_def)
  then show "n = HMessageLength (fst (DecodeHeader data MessageHeader_zero))" "2 \<le> n" "nat n \<le> length data"
    using h hb len by simp_all
qed

lemma PM_decode_success:
  "PM_decode Decode fuel c r = Some (r', Inr n) \<Longrightarrow> opts_of r = [] \<Longrightarrow>
     \<exists>m0 c'. Decode (bufferUnmarshal r) m0 c' = (msg r', Inr n) \<and> Options m0 = []"
proof (induction fuel arbitrary: c r)
  case (Suc fuel)
  obtain m res where d: "Decode (bufferUnmarshal r) (msg r) c = (m, res)" by fastforce
  show ?case
  proof (cases "res = Inl ErrOptionsTooSmall")
    case True
    then have "PM_decode Decode fuel (length (Options m) * 2) (r\<lparr>msg := m\<lparr>Options := []\<rparr>\<rparr>) = Some (r', Inr n)"
      using Suc.prems d by simp
    then show ?thesis using Suc.IH by fastforce
  next
    case False
    then show ?thesis using Suc.prems d by (auto intro!: exI [of _ "msg r"] exI [of _ c])
  qed
qed simp

lemma Unmarshal_success:
  assumes "PM_UnmarshalWithDecoder Decode fuel c data r = Some (r', Inr n)" "opts_of r = []"
  shows "\<exists>m0 c'. Decode data m0 c' = (msg r', Inr n) \<and> Options m0 = []"
proof -
  let ?r = "r\<lparr>body := None, bufferUnmarshal := data\<rparr>"
  have buf: "take (length data) (go_copy (grow_to (bufferUnmarshal r) (length data)) data) = data"
    using length_grow_to by (rule take_go_copy)
  obtain r2 where "PM_decode Decode fuel c ?r = Some (r2, Inr n)" "msg r' = msg r2"
    using assms(1) by (auto simp: PM_UnmarshalWithDecoder_def Let_def buf split: option.splits sum.splits if_splits)
  then show ?thesis using PM_decode_success [of Decode fuel c ?r r2 n] assms(2) by simp
qed

text \<open>The messages of the pool come with no options.\<close>

definition supply_ok :: "('cm, 'h) tconn \<Rightarrow> bool" where
  "supply_ok c \<longleftrightarrow> (\<forall>n. opts_of (fst (acquired c n)) = [])"

lemma decode_append:
  assumes "supply_ok c" "length (b @ x) < 2 ^ 32"
  shows "case decodeMessageFromBuffer fuel b c of
      None \<Rightarrow> decodeMessageFromBuffer fuel (b @ x) c = None
    | Some (c1, b1, Inr None) \<Rightarrow> c1 = c \<and> b1 = b
    | Some (c1, b1, Inr (Some req)) \<Rightarrow> decodeMessageFromBuffer fuel (b @ x) c = Some (c1, b1 @ x, Inr (Some req)) \<and> length b1 < length b
    | Some (c1, b1, Inl e) \<Rightarrow> decodeMessageFromBuffer fuel (b @ x) c = Some (c1, b1 @ x, Inl e) \<and> length b1 = length b"
proof -
  obtain header r where h: "DecodeHeader b MessageHeader_zero = (header, r)" by fastforce
  have hx: "r \<noteq> Inl ErrShortRead \<Longrightarrow> DecodeHeader (b @ x) MessageHeader_zero = (header, r)"
    using DecodeHeader_append [OF h] .
  show ?thesis
  proof (cases r)
    case (Inl e)
    then show ?thesis using h hx by (auto simp: decodeMessageFromBuffer_def)
  next
    case (Inr n)
    note hb = DecodeHeader_bounds [OF h [unfolded Inr]]
    show ?thesis
    proof (cases "HMessageLength header > uint (maxMessageSize c) \<or> int (length b) < HMessageLength header")
      case True
      then show ?thesis using h hx Inr assms(2) by (auto simp: decodeMessageFromBuffer_def CastTo_def)
    next
      case False
      obtain req capacity c1 where a: "session_AcquireMessage c = (req, capacity, c1)" by (cases "session_AcquireMessage c") auto
      define frame where "frame = take (nat (HMessageLength header)) b"
      have fx: "take (nat (HMessageLength header)) (b @ x) = frame" using False by (auto simp: frame_def nat_le_iff)
      have "opts_of req = []" using assms(1) a by (auto simp: supply_ok_def session_AcquireMessage_def split: prod.splits) (metis fst_conv)
      have d: "decodeMessageFromBuffer fuel y c =
         (case PM_UnmarshalWithDecoder tcp_Decode fuel capacity frame req of
               None \<Rightarrow> None
             | Some (_, Inl err) \<Rightarrow> Some (emit Released c1, y, Inl err)
             | Some (r, Inr read) \<Rightarrow>
                 (case seekBufferToNextMessage y (nat read) of
                    None \<Rightarrow> None
                  | Some rest \<Rightarrow>
                      (let (sq, c2) = session_Sequence c1
                       in Some (c2, rest, Inr (Some (PM_SetSequence sq r))))))" if "y = b \<or> y = b @ x" for y
        using that h hx Inr a False fx frame_def assms(2) by (auto simp: decodeMessageFromBuffer_def CastTo_def)
      show ?thesis
      proof (cases "PM_UnmarshalWithDecoder tcp_Decode fuel capacity frame req")
        case None
        then show ?thesis using d by simp
      next
        case (Some p)
        obtain r' res where p: "p = (r', res)" by (cases p)
        show ?thesis
        proof (cases res)
          case (Inl e)
          then show ?thesis using d Some p by simp
        next
          case (Inr read)
          have "2 \<le> read" "nat read \<le> length frame"
            using Unmarshal_success [of tcp_Decode fuel capacity frame req r' read] Some p Inr \<open>opts_of req = []\<close> assms(2)
              tcp_Decode_success [of frame] by (auto simp: frame_def)
          then have rd: "0 < nat read" "nat read \<le> length b" by (auto simp: frame_def)
          have "b \<noteq> []" using rd by auto
          then show ?thesis
            using d Some p Inr rd by (simp add: seekBufferToNextMessage_eq session_Sequence_def)
        qed
      qed
    qed
  qed
qed

lemma acquired_emit [simp]: "acquired (emit e c) = acquired c"
  by (simp add: emit_def)

lemma acquired_WriteMessage [simp]: "acquired (fst (session_WriteMessage env r c)) = acquired c"
  by (auto simp: session_WriteMessage_def split: prod.split sum.split)

lemma acquired_AcquireMessage [simp]: "acquired (snd (snd (session_AcquireMessage c))) = acquired c"
  by (auto simp: session_AcquireMessage_def split: prod.split)

lemma acquired_handleTCPSignalReceived [simp]: "acquired (handleTCPSignalReceived code c) = acquired c"
  by (simp add: handleTCPSignalReceived_def)

lemma acquired_sendPong: "sendPong env token c = (c1, e) \<Longrightarrow> acquired c1 = acquired c"
  by (auto simp: sendPong_def split: prod.splits)
    (metis acquired_AcquireMessage acquired_WriteMessage fst_conv snd_conv)

lemma acquired_handleSignals: "handleSignals env r c = (c1, b) \<Longrightarrow> acquired c1 = acquired c"
  by (auto simp: handleSignals_def Let_def split: prod.splits option.splits if_splits dest: acquired_sendPong)

lemma acquired_shouldDropRequest: "shouldDropRequest env req c = Some (c1, r) \<Longrightarrow> acquired c1 = acquired c"
  by (auto simp: shouldDropRequest_def respondUnknownCriticalOptions_def Let_def split: if_splits option.splits prod.splits)
    (metis acquired_AcquireMessage acquired_WriteMessage acquired_emit fst_conv snd_conv)+

lemma acquired_handleReceivedRequest: "handleReceivedRequest env req c = Some (c1, r) \<Longrightarrow> acquired c1 = acquired c"
  by (auto simp: handleReceivedRequest_def pushToReceivedMessageQueue_def split: option.splits prod.splits sum.splits bool.splits if_splits
      dest!: acquired_shouldDropRequest acquired_handleSignals)

lemma acquired_decode: "decodeMessageFromBuffer fuel b c = Some (c1, b1, r) \<Longrightarrow> acquired c1 = acquired c"
  by (auto simp: decodeMessageFromBuffer_def session_AcquireMessage_def session_Sequence_def Let_def
      split: prod.splits sum.splits if_splits option.splits)

lemma supply_step:
  "supply_ok c \<Longrightarrow> decodeMessageFromBuffer fuel b c = Some (c1, b1, r) \<Longrightarrow> handleReceivedRequest env req c1 = Some (c2, q) \<Longrightarrow>
     supply_ok (emit Released c2) \<and> supply_ok c2"
  by (auto simp: supply_ok_def dest!: acquired_decode acquired_handleReceivedRequest)

lemma processBuffer_fit:
  assumes "processBuffer env fuel b c = Some (c', rest, r)" "supply_ok c" "length b < 2 ^ 32"
  shows "supply_ok c' \<and> length rest \<le> length b"
  using assms
proof (induction "length b" arbitrary: b c rule: less_induct)
  case less
  have da: "length b1 \<le> length b \<and> (req \<noteq> None \<longrightarrow> length b1 < length b)"
    if "decodeMessageFromBuffer fuel b c = Some (c1, b1, r1)" "req = (case r1 of Inr (Some m) \<Rightarrow> Some m | _ \<Rightarrow> None)" for c1 b1 r1 req
    using decode_append [OF less.prems(2), of b "[]" fuel] less.prems(3) that by (auto split: sum.splits option.splits)
  have "supply_ok c1" if "decodeMessageFromBuffer fuel b c = Some (c1, b1, r1)" for c1 b1 r1
    using acquired_decode [OF that] less.prems(2) by (simp add: supply_ok_def)
  then show ?case
    using less.prems less.hyps da supply_step [OF less.prems(2)] unfolding processBuffer.simps [of env fuel b c]
    by (auto split: if_splits option.splits prod.splits sum.splits)
       (fastforce simp: supply_ok_def dest: less_trans)+
qed

lemma processBuffer_append:
  assumes "supply_ok c" "length (b @ x) < 2 ^ 32"
  shows "processBuffer env fuel (b @ x) c =
        (case processBuffer env fuel b c of
           None \<Rightarrow> None
         | Some (s', rest, None) \<Rightarrow> processBuffer env fuel (rest @ x) s'
         | Some (s', rest, Some e) \<Rightarrow> Some (s', rest @ x, Some e))"
  using assms
proof (induction "length b" arbitrary: b c rule: less_induct)
  case less
  show ?case
  proof (cases "b = []")
    case True
    then show ?thesis by (simp add: processBuffer.simps [of env fuel "[]"])
  next
    case False
    note da = decode_append [OF less.prems, of fuel]
    note unfold = processBuffer.simps [of env fuel b c] processBuffer.simps [of env fuel "b @ x" c]
    show ?thesis
    proof (cases "decodeMessageFromBuffer fuel b c")
      case None
      then show ?thesis using da False by (simp add: unfold)
    next
      case (Some p)
      obtain c1 b1 r where p: "p = (c1, b1, r)" by (cases p)
      show ?thesis
      proof (cases "\<exists>req. r = Inr (Some req)")
        case True
        then obtain req where r: "r = Inr (Some req)" by blast
        have d: "decodeMessageFromBuffer fuel (b @ x) c = Some (c1, b1 @ x, Inr (Some req))" "length b1 < length b"
          using da Some p r by simp_all
        have ok: "supply_ok (if dr then emit Released c2 else c2)" if "handleReceivedRequest env req c1 = Some (c2, q)" for c2 q dr
          using supply_step [OF less.prems(1) Some [unfolded p] that] by simp
        show ?thesis
          using Some p r d False ok less.hyps [of b1] less.prems(2)
          by (auto simp: unfold split: option.splits prod.splits sum.splits)
      next
        case other: False
        then show ?thesis
          using Some p da False by (auto simp: unfold split: sum.splits option.splits)
      qed
    qed
  qed
qed

interpretation session: stream_consumer "processBuffer env fuel" supply_ok "2 ^ 32" for env fuel
  by unfold_locales (erule processBuffer_append, assumption, erule processBuffer_fit, assumption+)

lemma session_Run_segments:
  assumes "supply_ok c" "length (concat chunks) < 2 ^ 32"
  shows "session_Run env fuel capacity cache None (map Inr chunks) c =
     (case processBuffer env fuel (concat chunks) c of
        None \<Rightarrow> None
      | Some (c', rest, None) \<Rightarrow> Some (c', Reading rest)
      | Some (c', rest, Some e) \<Rightarrow> Some (c', Returned (Some e)))"
  using session.run_segments [OF assms(1), of "[]" chunks] assms(2) by (simp add: session_Run_def)

text \<open>
  C29.  How a stream is cut into reads makes no difference: on arbitrary bytes, well-formed or not, the
  session comes to the same state, has written, queued and reported the same, and waits with the
  same remaining bytes or has failed with the same error.
\<close>

theorem session_segmentation:
  assumes "supply_ok c" "concat chunks = concat chunks'" "length (concat chunks) < 2 ^ 32"
  shows "session_Run env fuel capacity cache None (map Inr chunks) c = session_Run env fuel capacity' cache' None (map Inr chunks') c"
  using session_Run_segments [OF assms(1,3)] session_Run_segments [OF assms(1), of chunks'] assms(2,3) by simp

subsection \<open>Frames are delivered\<close>

definition supply_fresh :: "('cm, 'h) tconn \<Rightarrow> bool" where
  "supply_fresh c \<longleftrightarrow>
     (\<forall>n. opts_of (fst (acquired c n)) = [] \<and> Payload (msg (fst (acquired c n))) = [] \<and> 0 < snd (acquired c n))"

definition ordinary :: "Message \<Rightarrow> bool" where
  "ordinary m \<longleftrightarrow> (Code m < codes_GET \<or> Code m \<ge> 32 \<or> GetUnknownCriticalOptions (Options m) = [])
     \<and> Code m \<notin> {codes_CSM, codes_Ping, codes_Pong, codes_Release, codes_Abort}"

definition delivers :: "('cm, 'h) tconn \<Rightarrow> ('cm, 'h) tconn \<Rightarrow> Message list \<Rightarrow> bool" where
  "delivers c c' ms \<longleftrightarrow>
     (\<exists>rs. tlog c' = tlog c @ concat (map (\<lambda>r. [Notified, Queued r]) rs)
        \<and> map (\<lambda>r. tcp_view (msg r)) rs = map tcp_view ms \<and> map body_data rs = map Payload ms
        \<and> map sequence rs = map (\<lambda>i. seqno c + of_nat (Suc i)) [0..<length ms])"

lemma processBuffer_frame:
  assumes "tcp_carries m" "int (length (tcp_wire m)) \<le> uint (maxMessageSize c)" "ordinary m" "length (tcp_wire m @ rest) < 2 ^ 32"
    "supply_fresh c" "length (Options m) \<le> fuel" "\<And>r. requestMonitor env r = Inr False"
  shows "\<exists>r. processBuffer env (Suc fuel) (tcp_wire m @ rest) c =
     processBuffer env (Suc fuel) rest (c\<lparr>acquisitions := Suc (acquisitions c), seqno := seqno c + 1, tlog := tlog c @ [Notified, Queued r]\<rparr>)
     \<and> tcp_view (msg r) = tcp_view m \<and> body_data r = Payload m \<and> sequence r = seqno c + 1"
proof -
  obtain req k where a: "acquired c (acquisitions c) = (req, k)" by fastforce
  have req: "opts_of req = []" "Payload (msg req) = []" "0 < k"
    using assms(5) a unfolding supply_fresh_def by (metis fst_conv snd_conv)+
  have h: "DecodeHeader (tcp_wire m @ rest) MessageHeader_zero = (header_of m, Inr (int (length (tcp_header m))))"
    using DecodeHeader_wire [OF assms(1), of "body_wire m @ rest"] by (simp add: tcp_wire_def)
  have "length (Options m) < k + fuel" using assms(6) req(3) by simp
  from tcp.unmarshal_ok [OF assms(1) req(1,2,3) this]
  obtain r' where u: "PM_UnmarshalWithDecoder tcp_Decode (Suc fuel) k (tcp_wire m) req = Some (r', Inr (int (length (tcp_wire m))))"
      "tcp_view (msg r') = tcp_view m" "body_data r' = Payload m" by blast
  let ?r = "PM_SetSequence (seqno c + 1) r'"
  let ?c = "c\<lparr>acquisitions := Suc (acquisitions c), seqno := seqno c + 1\<rparr>"
  have dec: "decodeMessageFromBuffer (Suc fuel) (tcp_wire m @ rest) c = Some (?c, rest, Inr (Some ?r))"
    using h u(1) assms(2,4) a
    by (simp add: decodeMessageFromBuffer_def header_of_def CastTo_def session_AcquireMessage_def session_Sequence_def
        seekBufferToNextMessage_eq)
  have r: "tcp_view (msg ?r) = tcp_view m" "body_data ?r = Payload m" "sequence ?r = seqno c + 1"
    using u by (simp_all add: PM_SetSequence_def body_data_def)
  then have f: "Code (msg ?r) = Code m" "opts_of ?r = Options m" by (simp_all add: tcp_view_def)
  have "handleReceivedRequest env ?r ?c = Some (?c\<lparr>tlog := tlog c @ [Notified, Queued ?r]\<rparr>, Inr False)"
    using assms(3,7) f
    by (auto simp: handleReceivedRequest_def shouldDropRequest_def pushToReceivedMessageQueue_def handleSignals_def
        ordinary_def emit_def Let_def)
  moreover have "tcp_wire m \<noteq> []" by (auto simp: tcp_wire_def tcp_header_def split: prod.splits)
  ultimately have "processBuffer env (Suc fuel) (tcp_wire m @ rest) c = processBuffer env (Suc fuel) rest (?c\<lparr>tlog := tlog c @ [Notified, Queued ?r]\<rparr>)"
    using dec by (subst processBuffer.simps) simp
  then show ?thesis using r by (intro exI [of _ ?r]) simp
qed

lemma delivers_Nil [simp]: "delivers c c []"
  by (simp add: delivers_def)

lemma delivers_Cons:
  assumes "delivers (c\<lparr>acquisitions := a, seqno := seqno c + 1, tlog := tlog c @ [Notified, Queued r]\<rparr>) c' ms"
    "tcp_view (msg r) = tcp_view m" "body_data r = Payload m" "sequence r = seqno c + 1"
  shows "delivers c c' (m # ms)"
proof -
  obtain rs where rs: "tlog c' = (tlog c @ [Notified, Queued r]) @ concat (map (\<lambda>r. [Notified, Queued r]) rs)"
      "map (\<lambda>r. tcp_view (msg r)) rs = map tcp_view ms" "map body_data rs = map Payload ms"
      "map sequence rs = map (\<lambda>i. seqno c + 1 + of_nat (Suc i)) [0..<length ms]"
    using assms(1) by (auto simp: delivers_def)
  have "map (\<lambda>i. seqno c + of_nat (Suc i)) [0..<length (m # ms)]
      = (seqno c + 1) # map (\<lambda>i. seqno c + 1 + of_nat (Suc i)) [0..<length ms]"
    by (simp add: upt_conv_Cons map_Suc_upt [symmetric] add.assoc del: upt_Suc)
  then show ?thesis
    unfolding delivers_def using rs assms(2-4) by (intro exI [of _ "r # rs"]) simp
qed

lemma processBuffer_frames:
  assumes "\<forall>m \<in> set ms. tcp_carries m \<and> int (length (tcp_wire m)) \<le> uint (maxMessageSize c) \<and> ordinary m \<and> length (Options m) \<le> fuel"
    "length (concat (map tcp_wire ms)) < 2 ^ 32" "supply_fresh c" "\<And>r. requestMonitor env r = Inr False"
  shows "\<exists>c'. processBuffer env (Suc fuel) (concat (map tcp_wire ms)) c = Some (c', [], None) \<and> delivers c c' ms"
  using assms
proof (induction ms arbitrary: c)
  case Nil
  then show ?case by (simp add: processBuffer.simps [of env _ "[]"])
next
  case (Cons m ms)
  obtain r where r: "processBuffer env (Suc fuel) (tcp_wire m @ concat (map tcp_wire ms)) c =
       processBuffer env (Suc fuel) (concat (map tcp_wire ms))
         (c\<lparr>acquisitions := Suc (acquisitions c), seqno := seqno c + 1, tlog := tlog c @ [Notified, Queued r]\<rparr>)"
     "tcp_view (msg r) = tcp_view m" "body_data r = Payload m" "sequence r = seqno c + 1"
    using processBuffer_frame [of m c "concat (map tcp_wire ms)" fuel env] Cons.prems by auto
  let ?c = "c\<lparr>acquisitions := Suc (acquisitions c), seqno := seqno c + 1, tlog := tlog c @ [Notified, Queued r]\<rparr>"
  have "\<exists>c'. processBuffer env (Suc fuel) (concat (map tcp_wire ms)) ?c = Some (c', [], None) \<and> delivers ?c c' ms"
    using Cons.prems by (intro Cons.IH) (auto simp: supply_fresh_def)
  then show ?case using r delivers_Cons [where c = c and r = r and m = m and ms = ms] by auto
qed

text \<open>
  C12.  Frames of ordinary messages (no signals, no critical options the node does not know, within the maximal
  message size, let through by the monitor) that arrive back to back, cut into reads at any place, are all
  delivered, in order and once each: every message is queued with the token, code, options and payload it
  was sent with and the next sequence number, and nothing is left in the buffer.
\<close>

theorem session_delivers:
  assumes "\<forall>m \<in> set ms. tcp_carries m \<and> int (length (tcp_wire m)) \<le> uint (maxMessageSize c) \<and> ordinary m \<and> length (Options m) \<le> fuel"
    "concat chunks = concat (map tcp_wire ms)" "length (concat chunks) < 2 ^ 32" "supply_fresh c" "\<forall>r. requestMonitor env r = Inr False"
  shows "\<exists>c'. session_Run env (Suc fuel) capacity cache None (map Inr chunks) c = Some (c', Reading []) \<and> delivers c c' ms"
proof -
  have "supply_ok c" using assms(4) by (simp add: supply_ok_def supply_fresh_def)
  then show ?thesis
    using session_Run_segments [of c chunks env "Suc fuel" capacity cache] processBuffer_frames [of ms c fuel env] assms by auto
qed

subsection \<open>Unknown critical options are refused\<close>

lemma WriteMessage_eq:
  assumes "length (Token (msg r)) \<le> MaxTokenSize"
  shows "session_WriteMessage env r c = (emit (Wrote (tcp_wire (wire_msg r))) c, connWrite env (tcp_wire (wire_msg r)))"
proof -
  have "length (Token (wire_msg r)) \<le> MaxTokenSize" using assms by simp
  note e = tcp_Encode_wire [OF this]
  show ?thesis
    using length_grow_to [of "length (tcp_wire (wire_msg r))" "bufferMarshal r"]
    by (simp add: session_WriteMessage_def PM_MarshalWithEncoder_def PM_toMessage_eq tcp_Size_def e)
qed

lemma PM_SetContentFormat_fresh:
  assumes "opts_of r = []"
  shows "\<exists>buf. PM_SetContentFormat 0 r =
     Some ((set_options [\<lparr>ID = ContentFormat, Value = []\<rparr>] r)\<lparr>valueBuffer := buf, isModified := True\<rparr>)"
  using PM_SetOptionUint32_eq [of ContentFormat 0 r] assms
  by (simp add: PM_SetContentFormat_def Options_Set_def findPosition_def uint_wire_def Options_Set_move_def shift_up.simps [of _ 0 0])

text \<open>
  C38.  A request that arrives over TCP with a critical option the node does not understand is answered with
  \<open>4.02 Bad Option\<close> under the token of the request, with the numbers of the options in the diagnostic
  payload, and dropped: it is neither monitored nor counted as activity nor queued.
\<close>

theorem unknown_critical_refused:
  assumes "codes_GET \<le> Code (msg req)" "Code (msg req) < 32" "GetUnknownCriticalOptions (opts_of req) \<noteq> []"
    "length (Token (msg req)) \<le> MaxTokenSize" "supply_ok c" "\<forall>data. connWrite env data = None"
  shows "\<exists>c' resp. handleReceivedRequest env req c = Some (c', Inr True)
     \<and> tlog c' = tlog c @ [Wrote (tcp_wire resp), Released]
     \<and> Code resp = codes_BadOption \<and> Token resp = Token (msg req) \<and> Options resp = [\<lparr>ID = ContentFormat, Value = []\<rparr>]
     \<and> Payload resp = map of_char (FormatUnknownCriticalOptionsDiagnostic (GetUnknownCriticalOptions (opts_of req)))"
proof -
  let ?unknown = "GetUnknownCriticalOptions (opts_of req)"
  obtain r k where a: "acquired c (acquisitions c) = (r, k)" by fastforce
  let ?r1 = "PM_SetToken (Token (msg req)) (PM_SetCode codes_BadOption r)"
  have "opts_of ?r1 = []" using assms(5) a by (auto simp: supply_ok_def PM_SetToken_def PM_SetCode_def) (metis fst_conv)
  then obtain buf where cf: "PM_SetContentFormat 0 ?r1 =
      Some ((set_options [\<lparr>ID = ContentFormat, Value = []\<rparr>] ?r1)\<lparr>valueBuffer := buf, isModified := True\<rparr>)"
    using PM_SetContentFormat_fresh by blast
  define r3 where "r3 = PM_SetBody (Some (NewReader (map of_char (FormatUnknownCriticalOptionsDiagnostic ?unknown))))
      ((set_options [\<lparr>ID = ContentFormat, Value = []\<rparr>] ?r1)\<lparr>valueBuffer := buf, isModified := True\<rparr>)"
  have r3: "Token (msg r3) = Token (msg req)" "Code (msg r3) = codes_BadOption" "opts_of r3 = [\<lparr>ID = ContentFormat, Value = []\<rparr>]"
      "body_data r3 = map of_char (FormatUnknownCriticalOptionsDiagnostic ?unknown)"
    by (simp_all add: r3_def PM_SetBody_def set_options_def PM_SetToken_def PM_SetCode_def body_data_def NewReader_def)
  define c1 where "c1 = c\<lparr>acquisitions := Suc (acquisitions c)\<rparr>"
  have w: "session_WriteMessage env r3 c1 = (emit (Wrote (tcp_wire (wire_msg r3))) c1, None)"
    using WriteMessage_eq [of r3 env c1] r3(1) assms(4,6) by simp
  have aq: "session_AcquireMessage c = (r, k, c1)" by (simp add: session_AcquireMessage_def a c1_def)
  have "respondUnknownCriticalOptions env req ?unknown c = Some (emit Released (emit (Wrote (tcp_wire (wire_msg r3))) c1), None)"
    unfolding respondUnknownCriticalOptions_def aq Let_def prod.case cf option.case r3_def [symmetric] w ..
  then have "handleReceivedRequest env req c = Some (emit Released (emit (Wrote (tcp_wire (wire_msg r3))) c1), Inr True)"
    using assms(1-3) by (auto simp: handleReceivedRequest_def shouldDropRequest_def not_less not_le)
  then show ?thesis
    using r3 by (intro exI [of _ "emit Released (emit (Wrote (tcp_wire (wire_msg r3))) c1)"] exI [of _ "wire_msg r3"] conjI)
      (simp_all add: emit_def c1_def)
qed

subsection \<open>A connection the properties apply to\<close>

definition new_conn :: "(unit, unit) tconn" where
  "new_conn = \<lparr>seqno = 0, maxMessageSize = 1024, disablePeerTCPSignalMessageCSMs = False, hasSignalHandler = False,
     peerMaxMessageSize = 0, peerBlockWiseTranferEnabled = False, tokenHandlerContainer = NewMap,
     acquired = (\<lambda>_. (NewMessage, 16)), acquisitions = 0, tlog = []\<rparr>"

definition open_env :: "unit tenv" where
  "open_env = \<lparr>requestMonitor = (\<lambda>_. Inr False), connWrite = (\<lambda>_. None), isBroken = (\<lambda>_. False)\<rparr>"

lemma new_conn_supply: "supply_ok new_conn" "supply_fresh new_conn"
  by (simp_all add: supply_ok_def supply_fresh_def new_conn_def NewMessage_def)

theorem session_segmentation_witness:
  "session_Run open_env 4 16 16 None [Inr [0x01, 0x02], Inr [0x05]] new_conn = session_Run open_env 4 0 16 None [Inr [0x01], Inr [0x02, 0x05]] new_conn"
  using session_segmentation [OF new_conn_supply(1), of "[[0x01, 0x02], [0x05]]" "[[0x01], [0x02, 0x05]]"] by simp

theorem session_delivers_witness:
  "\<exists>c'. session_Run open_env (Suc 1) 16 16 None [Inr [0x01], Inr [0x02, 0x05]] new_conn = Some (c', Reading [])
     \<and> delivers new_conn c' [\<lparr>Token = [5], Options = [], Code = 2, Payload = [], MessageID = 0, Type = 0\<rparr>]"
proof -
  let ?m = "\<lparr>Token = [5], Options = [], Code = 2, Payload = [], MessageID = 0, Type = 0\<rparr> :: Message"
  have w: "tcp_wire ?m = [0x01, 0x02, 0x05]"
    by (simp add: tcp_wire_def tcp_header_def body_wire_def payload_wire_def getHeader_def tcp_consts CastTo_def)
  have "tcp_carries ?m"
    by (simp add: tcp_carries_def MaxTokenSize_def wire_ok_def opts_sorted_def body_wire_def payload_wire_def tcp_consts)
  moreover have "ordinary ?m"
    by (simp add: ordinary_def GetUnknownCriticalOptions_def GetUnknownCriticalOptionsWithQBlock_def)
  ultimately show ?thesis
    using session_delivers [of "[?m]" new_conn 1 "[[0x01], [0x02, 0x05]]" open_env 16 16] w new_conn_supply(2)
    by (simp add: open_env_def new_conn_def)
qed

theorem unknown_critical_refused_witness:
  "\<exists>c' resp. handleReceivedRequest open_env (NewMessage\<lparr>msg := \<lparr>Token = [5], Options = [\<lparr>ID = 9, Value = []\<rparr>], Code = 1, Payload = [], MessageID = 0, Type = 0\<rparr>\<rparr>) new_conn
     = Some (c', Inr True) \<and> tlog c' = [Wrote (tcp_wire resp), Released] \<and> Code resp = codes_BadOption \<and> Token resp = [5]"
proof -
  let ?r = "NewMessage\<lparr>msg := \<lparr>Token = [5], Options = [\<lparr>ID = 9, Value = []\<rparr>], Code = 1, Payload = [], MessageID = 0, Type = 0\<rparr>\<rparr> :: unit PMessage"
  have "GetUnknownCriticalOptions (opts_of ?r) = [9]"
    by (simp add: GetUnknownCriticalOptions_def GetUnknownCriticalOptionsWithQBlock_def isUnknownCritical_def CoapOptionDefs_def)
  then obtain c' resp where "handleReceivedRequest open_env ?r new_conn = Some (c', Inr True)"
      "tlog c' = tlog new_conn @ [Wrote (tcp_wire resp), Released]" "Code resp = codes_BadOption" "Token resp = Token (msg ?r)"
    using unknown_critical_refused [of ?r new_conn open_env] new_conn_supply(1) by (auto simp: open_env_def MaxTokenSize_def)
  then show ?thesis by (intro exI [of _ c'] exI [of _ resp]) (simp add: new_conn_def)
qed

end
