(* ===== verification/Block_Option.thy ===== *)
theory Block_Option
  imports Go_Math
begin

text \<open>
  The values of the Block options: the size exponents of \<open>net/blockwise/internal/blocks/types.go\<close>, the
  codec of \<open>net/blockwise/blockwise.go\<close>, and the codec of the Q-Block options with the lists of missing
  blocks, \<open>net/blockwise/qblock/codec.go\<close>.
\<close>

subsection \<open>Size exponents\<close>

type_synonym SZX = "8 word"

abbreviation (input) SZX16 :: SZX where "SZX16 \<equiv> 0"
abbreviation (input) SZX1024 :: SZX where "SZX1024 \<equiv> 6"
abbreviation (input) SZXBERT :: SZX where "SZXBERT \<equiv> 7"

definition SZX_Size :: "SZX \<Rightarrow> int" where
  "SZX_Size s = (if s > SZXBERT then -1 else push_bit (unat (min s SZX1024)) 16)"

lemma SZX_Size_cases:
  "s \<le> SZXBERT \<Longrightarrow> SZX_Size s \<in> {16, 32, 64, 128, 256, 512, 1024}"
proof -
  assume "s \<le> SZXBERT"
  then have "unat (min s SZX1024) \<le> 6" by (simp add: min_def word_le_nat_alt)
  then have "unat (min s SZX1024) \<in> {0, 1, 2, 3, 4, 5, 6}" by auto
  with \<open>s \<le> SZXBERT\<close> show ?thesis by (auto simp: SZX_Size_def push_bit_eq_mult not_less)
qed

lemma SZX_Size_bounds: "s \<le> SZXBERT \<Longrightarrow> 16 \<le> SZX_Size s \<and> SZX_Size s \<le> 1024"
  using SZX_Size_cases [of s] by auto

subsection \<open>Block1 and Block2\<close>

definition maxBlockValue :: u32 where "maxBlockValue = 0xffffff"
definition maxBlockNumber :: int where "maxBlockNumber = 0xffff7"
definition moreBlocksFollowingMask :: u32 where "moreBlocksFollowingMask = 0x8"
definition szxMask :: u32 where "szxMask = 0x7"

lemmas block_consts = maxBlockValue_def maxBlockNumber_def moreBlocksFollowingMask_def szxMask_def

definition EncodeBlockOption :: "SZX \<Rightarrow> int \<Rightarrow> bool \<Rightarrow> go_error + u32" where
  "EncodeBlockOption szx blockNumber moreBlocksFollowing =
     (if szx > SZXBERT then Inl ErrInvalidSZX
      else if blockNumber < 0 then Inl ErrBlockNumberExceedLimit
      else if blockNumber > maxBlockNumber then Inl ErrBlockNumberExceedLimit
      else
        (let blockVal = word_of_int (CastTo (Unsigned 32) (push_bit 4 blockNumber));
             m = (if moreBlocksFollowing then 1 else 0)
         in Inr (blockVal + push_bit 3 m + word_of_int (CastTo (Unsigned 32) (uint szx)))))"

definition DecodeBlockOption :: "u32 \<Rightarrow> SZX \<times> int \<times> bool \<times> go_error option" where
  "DecodeBlockOption blockVal =
     (if blockVal > maxBlockValue then (0, 0, False, Some ErrBlockInvalidSize)
      else
        (let szx = word_of_int (CastTo (Unsigned 8) (uint (blockVal AND szxMask)));
             moreBlocksFollowing = (blockVal AND moreBlocksFollowingMask \<noteq> 0);
             blockNumber = drop_bit 4 (uint blockVal)
         in (szx, blockNumber, moreBlocksFollowing,
             if blockNumber > maxBlockNumber then Some ErrBlockNumberExceedLimit else None)))"

text \<open>Both directions in terms of the three fields of the number.\<close>

lemma EncodeBlockOption_eq:
  "EncodeBlockOption szx num more =
     (if szx > SZXBERT then Inl ErrInvalidSZX
      else if num < 0 \<or> num > maxBlockNumber then Inl ErrBlockNumberExceedLimit
      else Inr (word_of_int (num * 16 + of_bool more * 8 + uint szx)))"
proof -
  have "uint szx mod 2 ^ 32 = uint szx" using uint_lt2p [of szx] by simp
  moreover have "num * 16 mod 2 ^ 32 = num * 16" if "0 \<le> num" "num \<le> maxBlockNumber"
    using that by (simp add: block_consts)
  ultimately show ?thesis
    by (auto simp: EncodeBlockOption_def CastTo_def Let_def push_bit_eq_mult)
qed

lemma and_mask_mod:
  fixes v :: u32
  shows "uint (v AND szxMask) = uint v mod 8" "v AND moreBlocksFollowingMask \<noteq> 0 \<longleftrightarrow> odd (uint v div 8)"
proof -
  have m: "(7 :: u32) = mask 3" "(8 :: u32) = push_bit 3 1" by (simp_all add: mask_eq_exp_minus_1)
  show "uint (v AND szxMask) = uint v mod 8"
    unfolding block_consts m(1) take_bit_eq_mask [symmetric] unsigned_take_bit_eq by (simp add: take_bit_eq_mod)
  have "v AND 8 \<noteq> 0 \<longleftrightarrow> bit v 3" unfolding m(2) by (simp add: and_exp_eq_0_iff_not_bit [of v 3, simplified])
  also have "\<dots> \<longleftrightarrow> bit (uint v) 3" by (simp add: bit_unsigned_iff)
  finally show "v AND moreBlocksFollowingMask \<noteq> 0 \<longleftrightarrow> odd (uint v div 8)"
    by (simp add: block_consts bit_iff_odd)
qed

lemma DecodeBlockOption_eq:
  "DecodeBlockOption v =
     (if uint v > 0xffffff then (0, 0, False, Some ErrBlockInvalidSize)
      else (word_of_int (uint v mod 8), uint v div 16, odd (uint v div 8),
            if uint v div 16 > maxBlockNumber then Some ErrBlockNumberExceedLimit else None))"
  unfolding DecodeBlockOption_def and_mask_mod
  by (simp add: CastTo_def Let_def drop_bit_eq_div maxBlockValue_def word_less_def)

text \<open>The number made of the three fields.\<close>

definition block_number :: "SZX \<Rightarrow> int \<Rightarrow> bool \<Rightarrow> int" where
  "block_number szx num more = num * 16 + of_bool more * 8 + uint szx"

lemma block_number_fields:
  assumes "0 \<le> num" "num < 2 ^ 20" "szx \<le> 7"
  shows "uint (word_of_int (block_number szx num more) :: u32) = block_number szx num more"
    "block_number szx num more div 16 = num" "block_number szx num more mod 8 = uint szx"
    "odd (block_number szx num more div 8) = more" "block_number szx num more \<le> 0xffffff"
proof -
  have s: "uint szx \<le> 7" "0 \<le> uint szx" using assms(3) by (simp_all add: word_le_def)
  obtain z where z: "z = uint szx" by simp
  have e: "block_number szx num more = num * 16 + (if more then 8 else 0) + z" by (simp add: block_number_def z)
  have zb: "0 \<le> z" "z \<le> 7" using s z by simp_all
  show le: "block_number szx num more \<le> 0xffffff" using e zb assms by simp
  moreover have "0 \<le> block_number szx num more" using e zb assms by simp
  ultimately show "uint (word_of_int (block_number szx num more) :: u32) = block_number szx num more"
    by (simp only: uint_word_of_int_eq) (simp add: take_bit_int_eq_self)
  define k where "k = 2 * num + (if more then 1 else 0)"
  have ek: "block_number szx num more = z + k * 8" by (simp add: e k_def)
  have d8: "block_number szx num more div 8 = k" using zb by (simp add: ek)
  show "block_number szx num more mod 8 = uint szx" using zb by (simp add: ek z)
  show "odd (block_number szx num more div 8) = more" by (simp add: d8 k_def)
  have "block_number szx num more div 16 = block_number szx num more div 8 div 2" by (simp add: zdiv_zmult2_eq [symmetric])
  then show "block_number szx num more div 16 = num" by (simp add: d8 k_def)
qed

lemma block_number_split: "block_number (word_of_int (v mod 8)) (v div 16) (odd (v div 8)) = v"
proof -
  have u: "uint (word_of_int (v mod 8) :: SZX) = v mod 8"
    by (simp only: uint_word_of_int_eq) (simp add: take_bit_int_eq_self)
  have "v div 16 = v div 8 div 2" by (simp add: zdiv_zmult2_eq [symmetric])
  then have "v div 16 * 16 + of_bool (odd (v div 8)) * 8 = v div 8 * 8"
    by (simp add: of_bool_def) presburger
  then show ?thesis unfolding block_number_def u by simp
qed

lemma DecodeBlockOption_parts:
  assumes "DecodeBlockOption v = (szx, num, more, None)"
  shows "szx \<le> 7" "0 \<le> num" "num \<le> maxBlockNumber" "block_number szx num more = uint v"
proof -
  have p: "szx = word_of_int (uint v mod 8)" "num = uint v div 16" "more = odd (uint v div 8)" "num \<le> maxBlockNumber"
    using assms by (auto simp: DecodeBlockOption_eq split: if_splits)
  have "uint szx = uint v mod 8"
    unfolding p(1) by (simp only: uint_word_of_int_eq) (simp add: take_bit_int_eq_self)
  then show "szx \<le> 7" by (simp add: word_le_def)
  show "0 \<le> num" by (simp add: p(2) pos_imp_zdiv_nonneg_iff)
  show "num \<le> maxBlockNumber" by (rule p(4))
  show "block_number szx num more = uint v" unfolding p(1-3) by (rule block_number_split)
qed

lemma EncodeBlockOption_decodes:
  assumes "EncodeBlockOption szx num more = Inr v"
  shows "DecodeBlockOption v = (szx, num, more, None)"
proof -
  have v: "v = word_of_int (block_number szx num more)" and b: "0 \<le> num" "num \<le> maxBlockNumber" "szx \<le> 7"
    using assms by (auto simp: EncodeBlockOption_eq block_number_def split: if_splits)
  have n: "num < 2 ^ 20" using b(2) by (simp add: block_consts)
  show ?thesis
    unfolding v DecodeBlockOption_eq using b(2) block_number_fields [OF b(1) n b(3), of more] by simp
qed

text \<open>
  The Block option codec is exact: what \<open>EncodeBlockOption\<close> makes of a size exponent, a number and the
  more bit \<open>DecodeBlockOption\<close> takes apart into the same, and a value that decodes without error is the
  encoding of its parts.
\<close>

lemma block_option_exact:
  "EncodeBlockOption szx num more = Inr v \<longleftrightarrow> DecodeBlockOption v = (szx, num, more, None)"
proof
  assume "EncodeBlockOption szx num more = Inr v"
  then show "DecodeBlockOption v = (szx, num, more, None)" by (rule EncodeBlockOption_decodes)
next
  assume d: "DecodeBlockOption v = (szx, num, more, None)"
  show "EncodeBlockOption szx num more = Inr v"
    using DecodeBlockOption_parts [OF d] unfolding EncodeBlockOption_eq block_number_def [symmetric] by (simp add: not_less)
qed

text \<open>
  The numbers above \<open>0xffff7\<close>, which the 20 bits of the option can hold, are refused in both directions.
\<close>

lemma block_numbers_lost:
  assumes "0xffff7 < num" "num < 2 ^ 20" "szx \<le> 7"
  shows "EncodeBlockOption szx num more = Inl ErrBlockNumberExceedLimit
    \<and> (case DecodeBlockOption (word_of_int (block_number szx num more)) of
         (_, num', _, err) \<Rightarrow> num' = num \<and> err = Some ErrBlockNumberExceedLimit)"
  using assms block_number_fields [OF _ assms(2,3), of more]
  by (simp add: EncodeBlockOption_eq DecodeBlockOption_eq maxBlockNumber_def not_less)

lemma block_numbers_lost_example:
  "EncodeBlockOption 6 0xfffff True = Inl ErrBlockNumberExceedLimit"
  by (rule conjunct1 [OF block_numbers_lost]) simp_all

end
