(* ===== verification/Qblock_Codec.thy ===== *)
theory Qblock_Codec
  imports Block_Option
begin

text \<open>
  The values of the Q-Block options and the CBOR sequences of missing blocks,
  \<open>net/blockwise/qblock/codec.go\<close>.
\<close>

subsection \<open>The option\<close>

definition maxQBlockNumber :: int where "maxQBlockNumber = 2 ^ 20 - 1"

definition EncodeQBlockOption :: "SZX \<Rightarrow> int \<Rightarrow> bool \<Rightarrow> go_error + u32" where
  "EncodeQBlockOption szx num more =
     (if szx > SZX1024 then Inl ErrInvalidSZX
      else if num < 0 \<or> num > maxQBlockNumber then Inl ErrBlockNumberExceedLimit
      else
        (let value = push_bit 4 (word_of_int num) OR ucast szx
         in Inr (if more then value OR moreBlocksFollowingMask else value)))"

definition DecodeQBlockOption :: "u32 \<Rightarrow> go_error + SZX \<times> int \<times> bool" where
  "DecodeQBlockOption value =
     (if value > maxBlockValue then Inl ErrBlockInvalidSize
      else
        (let szx = ucast (value AND szxMask)
         in if szx > SZX1024 then Inl ErrInvalidSZX
            else Inr (szx, uint (drop_bit 4 value), value AND moreBlocksFollowingMask \<noteq> 0)))"

subsection \<open>Missing blocks\<close>

fun check_increasing :: "u32 list \<Rightarrow> u32 \<Rightarrow> bool \<Rightarrow> bool" where
  "check_increasing [] previous first = True"
| "check_increasing (block # blocks) previous first =
     (if uint block > maxQBlockNumber \<or> \<not> first \<and> block \<le> previous then False
      else check_increasing blocks block False)"

definition missing_item :: "u32 \<Rightarrow> bytes" where
  "missing_item block =
     (if block < 24 then [ucast block]
      else if block \<le> 0xff then [0x18, ucast block]
      else if block \<le> 0xffff then [0x19, ucast (drop_bit 8 block), ucast (block AND 0xff)]
      else [0x1a, ucast (drop_bit 24 block), ucast (drop_bit 16 block AND 0xff), ucast (drop_bit 8 block AND 0xff),
            ucast (block AND 0xff)])"

definition EncodeMissingBlocks :: "bytes \<Rightarrow> u32 list \<Rightarrow> go_error + bytes" where
  "EncodeMissingBlocks dst blocks =
     (if length blocks = 0 then Inl ErrInvalidMissingBlocks
      else if \<not> check_increasing blocks 0 True then Inl ErrInvalidMissingBlocks
      else Inr (fold (\<lambda>block dst. dst @ missing_item block) blocks dst))"

text \<open>The first byte of \<open>data\<close> is there: the only caller loops while \<open>data\<close> is not empty.\<close>

definition decodeMissingBlockInteger :: "bytes \<Rightarrow> go_error + u64 \<times> bytes" where
  "decodeMissingBlockInteger data0 =
     (let header = data0 ! 0;
          data = drop 1 data0
      in if drop_bit 5 header \<noteq> 0 then Inl ErrInvalidMissingBlocks
         else
           (let info = header AND 0x1f
            in if info < 24 then Inr (ucast info, data)
               else if info > 27 then Inl ErrInvalidMissingBlocks
               else
                 (let width = 2 ^ unat (info - 24)
                  in if length data < width then Inl ErrInvalidMissingBlocks
                     else Inr (if width = 1 then ucast (data ! 0)
                               else if width = 2 then ucast (Uint16 data)
                               else if width = 4 then ucast (Uint32 data)
                               else Uint64 data, drop width data))))"

lemma decodeMissingBlockInteger_shorter:
  "decodeMissingBlockInteger data = Inr (n, rest) \<Longrightarrow> data \<noteq> [] \<Longrightarrow> length rest < length data"
  by (cases data) (auto simp: decodeMissingBlockInteger_def Let_def split: if_splits)

text \<open>\<open>walkMissingBlocks\<close>: the numbers it hands to \<open>emit\<close>, in order.\<close>

function walkMissingBlocks :: "bytes \<Rightarrow> bool \<Rightarrow> u32 \<Rightarrow> go_error + u32 list" where
  "walkMissingBlocks data first previous =
     (if data = [] then Inr []
      else
        (case decodeMissingBlockInteger data of
           Inl err \<Rightarrow> Inl err
         | Inr (number, rest) \<Rightarrow>
             if uint number > maxQBlockNumber then Inl ErrInvalidMissingBlocks
             else
               (let block = ucast number
                in if \<not> first \<and> block < previous then Inl ErrInvalidMissingBlocks
                   else
                     (case walkMissingBlocks rest False block of
                        Inl err \<Rightarrow> Inl err
                      | Inr blocks \<Rightarrow> Inr (if first \<or> block \<noteq> previous then block # blocks else blocks)))))"
  by pat_completeness auto
termination
  by (relation "measure (\<lambda>(data, first, previous). length data)") (auto simp: decodeMissingBlockInteger_shorter)

declare walkMissingBlocks.simps [simp del]

definition DecodeMissingBlocks :: "u32 list \<Rightarrow> bytes \<Rightarrow> go_error + u32 list" where
  "DecodeMissingBlocks dst data =
     (if length data = 0 then Inl ErrInvalidMissingBlocks
      else
        (case walkMissingBlocks data True 0 of
           Inl err \<Rightarrow> Inl err
         | Inr blocks \<Rightarrow> Inr (dst @ blocks)))"

subsection \<open>Properties\<close>

lemma ucast_and_ff: "ucast (v AND 0xff) = (ucast v :: byte)" for v :: u32
proof -
  have "(0xff :: u32) = mask 8" by (simp add: mask_eq_exp_minus_1)
  then have "v AND 0xff = take_bit 8 v" by (simp add: take_bit_eq_mask)
  then show ?thesis by (simp only:) (rule bit_word_eqI, simp add: bit_simps)
qed

lemma ucast_small:
  fixes v :: u32
  shows "v \<le> 0xff \<Longrightarrow> ucast (ucast v :: byte) = (ucast v :: u64)" "v \<le> 0xffff \<Longrightarrow> ucast (ucast v :: u16) = (ucast v :: u64)"
  by (simp_all add: word_uint_eq_iff unsigned_ucast_eq unsigned_take_bit_eq word_le_def take_bit_int_eq_self)

lemma PutUint16_ucast: "PutUint16 (ucast v) = [ucast (drop_bit 8 v), ucast v]" if "v \<le> 0xffff" for v :: u32
  by (auto simp: PutUint16_def intro!: bit_word_eqI simp: bit_simps)

lemma missing_item_eq:
  "missing_item block =
     (if block < 24 then [ucast block]
      else if block \<le> 0xff then [0x18, ucast block]
      else if block \<le> 0xffff then 0x19 # PutUint16 (ucast block)
      else 0x1a # PutUint32 block)"
  by (auto simp: missing_item_def ucast_and_ff PutUint16_ucast PutUint32_def)

lemma decode_missing_item: "decodeMissingBlockInteger (missing_item block @ rest) = Inr (ucast block, rest)"
proof (cases "block < 24")
  case True
  then have "unat block < 24" by (simp add: word_less_nat_alt)
  moreover have "block = word_of_nat (unat block)" by simp
  ultimately have "block \<in> set (map word_of_nat [0..<24])" by (metis atLeast0LessThan imageI lessThan_iff set_map set_upt)
  then show ?thesis
    by (auto simp: missing_item_eq decodeMissingBlockInteger_def upt_rec)
next
  case False
  consider "block \<le> 0xff" | "\<not> block \<le> 0xff" "block \<le> 0xffff" | "\<not> block \<le> 0xff" "\<not> block \<le> 0xffff" by blast
  then show ?thesis
  proof cases
    case 1
    then show ?thesis using False by (simp add: missing_item_eq decodeMissingBlockInteger_def ucast_small)
  next
    case 2
    then show ?thesis
      using False Uint16_PutUint16 [of "ucast block" rest]
      by (simp add: missing_item_eq decodeMissingBlockInteger_def ucast_small)
  next
    case 3
    then show ?thesis
      using False Uint32_PutUint32 [of block rest] by (simp add: missing_item_eq decodeMissingBlockInteger_def)
  qed
qed

lemma missing_item_not_Nil [simp]: "missing_item block \<noteq> []"
  by (simp add: missing_item_eq)

lemma ucast_u64 [simp]: "uint (ucast v :: u64) = uint v" "ucast (ucast v :: u64) = v" for v :: u32
  using uint_lt2p [of v] by (simp_all add: unsigned_ucast_eq take_bit_int_eq_self word_uint_eq_iff unsigned_take_bit_eq)

lemma walk_items:
  "check_increasing blocks previous first \<Longrightarrow> walkMissingBlocks (concat (map missing_item blocks)) first previous = Inr blocks"
proof (induction blocks arbitrary: previous first)
  case Nil
  then show ?case by (simp add: walkMissingBlocks.simps [of "[]"])
next
  case (Cons block blocks)
  have "walkMissingBlocks (concat (map missing_item blocks)) False block = Inr blocks"
    using Cons by (auto split: if_splits)
  then show ?case
    using Cons.prems by (subst walkMissingBlocks.simps) (auto simp: decode_missing_item split: if_splits)
qed

lemma walk_increasing:
  "walkMissingBlocks data first previous = Inr blocks \<Longrightarrow>
     check_increasing blocks previous first \<and> (data \<noteq> [] \<and> first \<longrightarrow> blocks \<noteq> [])"
proof (induction data first previous arbitrary: blocks rule: walkMissingBlocks.induct)
  case (1 data first previous)
  show ?case
  proof (cases "data = []")
    case True
    then show ?thesis using 1(2) by (simp add: walkMissingBlocks.simps [of "[]"])
  next
    case False
    then obtain number rest where d: "decodeMissingBlockInteger data = Inr (number, rest)"
      using 1(2) by (subst (asm) walkMissingBlocks.simps) (auto split: sum.splits)
    have n: "\<not> uint number > maxQBlockNumber" "\<not> (\<not> first \<and> ucast number < previous)"
      using 1(2) False d by (subst (asm) walkMissingBlocks.simps, auto split: if_splits)+
    then obtain bs where bs: "walkMissingBlocks rest False (ucast number) = Inr bs"
        "blocks = (if first \<or> ucast number \<noteq> previous then ucast number # bs else bs)"
      using 1(2) False d by (subst (asm) walkMissingBlocks.simps) (auto simp: Let_def split: sum.splits)
    have "check_increasing bs (ucast number) False"
      using 1(1) [OF False d refl n(1) refl n(2)] bs(1) by simp
    moreover have "uint (ucast number :: u32) = uint number"
      using n(1) by (simp add: unsigned_ucast_eq take_bit_int_eq_self maxQBlockNumber_def)
    ultimately show ?thesis using n bs(2) by (auto simp: not_less)
  qed
qed

lemma decode_error: "decodeMissingBlockInteger data = Inl e \<Longrightarrow> e = ErrInvalidMissingBlocks"
  by (auto simp: decodeMissingBlockInteger_def Let_def split: if_splits)

lemma walk_error: "walkMissingBlocks data first previous = Inl e \<Longrightarrow> e = ErrInvalidMissingBlocks"
proof (induction data first previous rule: walkMissingBlocks.induct)
  case (1 data first previous)
  then show ?case
    unfolding walkMissingBlocks.simps [of data first previous]
    by (auto simp: Let_def dest: decode_error split: if_splits sum.splits)
qed

lemma fold_items: "fold (\<lambda>block dst. dst @ missing_item block) blocks dst = dst @ concat (map missing_item blocks)"
  by (induction blocks arbitrary: dst) simp_all

text \<open>
  C40.  The list of missing blocks: what \<open>EncodeMissingBlocks\<close> writes for a strictly increasing list of block
  numbers \<open>DecodeMissingBlocks\<close> reads back; and on arbitrary bytes \<open>DecodeMissingBlocks\<close> returns, with an
  error or with a list, of blocks in range without repetitions, that can be encoded again.
\<close>

theorem missing_blocks_roundtrip:
  "(case EncodeMissingBlocks [] blocks of
      Inl e \<Rightarrow> blocks = [] \<or> \<not> check_increasing blocks 0 True
    | Inr data \<Rightarrow> DecodeMissingBlocks [] data = Inr blocks)
   \<and> (case DecodeMissingBlocks [] received of
        Inl e \<Rightarrow> e = ErrInvalidMissingBlocks
      | Inr missing \<Rightarrow> EncodeMissingBlocks [] missing = Inr (concat (map missing_item missing)))"
proof (intro conjI)
  show "case EncodeMissingBlocks [] blocks of
      Inl e \<Rightarrow> blocks = [] \<or> \<not> check_increasing blocks 0 True
    | Inr data \<Rightarrow> DecodeMissingBlocks [] data = Inr blocks"
    using walk_items [of blocks 0 True]
    by (cases blocks) (auto simp: EncodeMissingBlocks_def DecodeMissingBlocks_def fold_items)
next
  show "case DecodeMissingBlocks [] received of
        Inl e \<Rightarrow> e = ErrInvalidMissingBlocks
      | Inr missing \<Rightarrow> EncodeMissingBlocks [] missing = Inr (concat (map missing_item missing))"
    using walk_increasing [of received True 0] walk_error [of received True 0]
    by (auto simp: DecodeMissingBlocks_def EncodeMissingBlocks_def fold_items split: sum.split)
qed

theorem missing_blocks_roundtrip_witness:
  "\<exists>data. EncodeMissingBlocks [] [3, 70] = Inr data \<and> DecodeMissingBlocks [] data = Inr [3, 70]"
proof -
  have "check_increasing [3, 70] 0 True" by (simp add: maxQBlockNumber_def)
  then show ?thesis
    using missing_blocks_roundtrip [of "[3, 70]" "[]"] by (auto split: sum.splits)
qed

lemma or_fields:
  assumes "szx \<le> 7"
  shows "push_bit 4 (word_of_int num) OR ucast szx = (word_of_int (block_number szx num False) :: u32)"
    "(push_bit 4 (word_of_int num) OR ucast szx) OR moreBlocksFollowingMask = (word_of_int (block_number szx num True) :: u32)"
proof -
  have szx: "ucast szx = (take_bit 3 (ucast szx) :: u32)"
  proof -
    have "uint szx < 8" using assms by (simp add: word_le_def)
    then show ?thesis by (simp add: word_uint_eq_iff unsigned_take_bit_eq unsigned_ucast_eq take_bit_int_eq_self)
  qed
  have b: "bit (ucast szx :: u32) n \<Longrightarrow> n < 3" for n using szx by (metis bit_take_bit_iff)
  have b8: "bit moreBlocksFollowingMask n \<longleftrightarrow> n = 3" for n
  proof -
    have e: "moreBlocksFollowingMask = 2 ^ 3" by (simp add: block_consts)
    show ?thesis unfolding e bit_exp_iff by auto
  qed
  have 1: "push_bit 4 (word_of_int num) OR ucast szx = (push_bit 4 (word_of_int num) + ucast szx :: u32)"
    by (rule disjunctive_add [symmetric]) (auto simp: bit_push_bit_iff dest: b)
  have 2: "(push_bit 4 (word_of_int num) OR ucast szx) OR moreBlocksFollowingMask
      = ((push_bit 4 (word_of_int num) OR ucast szx) + moreBlocksFollowingMask :: u32)"
    by (rule disjunctive_add [symmetric]) (auto simp: b8 bit_push_bit_iff bit_or_iff dest: b)
  have e: "push_bit 4 (word_of_int num) = (word_of_int (num * 16) :: u32)" "ucast szx = (word_of_int (uint szx) :: u32)"
    by (simp_all add: push_bit_eq_mult)
  show "push_bit 4 (word_of_int num) OR ucast szx = (word_of_int (block_number szx num False) :: u32)"
    unfolding 1 unfolding e block_number_def by simp
  show "(push_bit 4 (word_of_int num) OR ucast szx) OR moreBlocksFollowingMask = (word_of_int (block_number szx num True) :: u32)"
    unfolding 2 unfolding 1 unfolding e block_number_def block_consts by simp
qed

text \<open>
  The Q-Block option codec is exact over all 20 bits of the number, and refuses the size exponent of BERT.
\<close>

lemma qblock_option_exact:
  "EncodeQBlockOption szx num more = Inr v \<longleftrightarrow> DecodeQBlockOption v = Inr (szx, num, more)"
proof -
  have enc: "EncodeQBlockOption szx num more = Inr v \<longleftrightarrow>
      szx \<le> 6 \<and> 0 \<le> num \<and> num < 2 ^ 20 \<and> v = word_of_int (block_number szx num more)"
  proof -
    have "szx \<le> 7" if "szx \<le> 6" using that by (simp add: word_le_def)
    then show ?thesis
      using or_fields [of szx num] by (cases more) (auto simp: EncodeQBlockOption_def maxQBlockNumber_def not_less Let_def)
  qed
  have u: "uint (ucast (v AND szxMask) :: SZX) = uint v mod 8" "uint (drop_bit 4 v) = uint v div 16"
    by (simp add: unsigned_ucast_eq and_mask_mod take_bit_int_eq_self)
      (simp add: drop_bit_eq_div uint_div)
  then have s: "ucast (v AND szxMask) = szx \<longleftrightarrow> uint szx = uint v mod 8"
    by (auto simp: word_uint_eq_iff [of "ucast (v AND szxMask)" szx])
  have dec: "DecodeQBlockOption v = Inr (szx, num, more) \<longleftrightarrow>
      uint v \<le> 0xffffff \<and> szx \<le> 6 \<and> uint szx = uint v mod 8 \<and> num = uint v div 16 \<and> more = odd (uint v div 8)"
    unfolding DecodeQBlockOption_def Let_def and_mask_mod(2) u(2) using s
    by (auto simp: maxBlockValue_def word_less_def word_le_def not_less)
  show ?thesis
    unfolding enc dec
  proof (rule iffI; elim conjE)
    assume a: "szx \<le> 6" "0 \<le> num" "num < 2 ^ 20" "v = word_of_int (block_number szx num more)"
    have "szx \<le> 7" using a(1) by (simp add: word_le_def)
    note f = block_number_fields [OF a(2,3) this, of more]
    show "uint v \<le> 0xffffff \<and> szx \<le> 6 \<and> uint szx = uint v mod 8 \<and> num = uint v div 16 \<and> more = odd (uint v div 8)"
      unfolding a(4) f(1) using a(1) f(2-5) by simp
  next
    assume a: "uint v \<le> 0xffffff" "szx \<le> 6" "uint szx = uint v mod 8" "num = uint v div 16" "more = odd (uint v div 8)"
    have "szx = word_of_int (uint v mod 8)" unfolding a(3) [symmetric] by simp
    then have "block_number szx num more = uint v" unfolding a(4,5) using block_number_split [of "uint v"] by simp
    moreover have "0 \<le> uint v div 16" "uint v div 16 < 2 ^ 20" using a(1) by (simp_all add: pos_imp_zdiv_nonneg_iff)
    ultimately show "szx \<le> 6 \<and> 0 \<le> num \<and> num < 2 ^ 20 \<and> v = word_of_int (block_number szx num more)"
      using a(2,4) by simp
  qed
qed

end
