(* ===== verification/Qblock_Transfer.thy ===== *)
theory Qblock_Transfer
  imports Qblock_Codec Sync_Map Go_Reader Go_Math
begin

text \<open>
  The parameters of Q-Block transfers and the two ends of a body, \<open>net/blockwise/qblock/config.go\<close> and
  \<open>transfer.go\<close>: an assembly takes the blocks of a body in any order, a sender reads them from the body.

  An assembly is used under its lock, so that an operation is one step.  Durations are in nanoseconds; the
  arithmetic on them is on 64 bits.
\<close>

subsection \<open>Configuration\<close>

definition int64 :: "int \<Rightarrow> int" where
  "int64 x = go_convert (Signed 64) x"

abbreviation (input) second :: int where "second \<equiv> 10 ^ 9"
abbreviation (input) hour :: int where "hour \<equiv> 3600 * 10 ^ 9"

record QConfig =
  MaxPayloads :: int
  NonTimeout :: int
  NonReceiveTimeout :: int
  NonMaxRetransmit :: int
  MaxLatency :: int

definition DefaultConfig :: QConfig where
  "DefaultConfig =
     \<lparr>MaxPayloads = 10, NonTimeout = 2 * second, NonReceiveTimeout = 4 * second, NonMaxRetransmit = 4, MaxLatency = 100 * second\<rparr>"

definition Resolve :: "QConfig \<Rightarrow> go_error + QConfig" where
  "Resolve c0 =
     (let c = (if c0 = \<lparr>MaxPayloads = 0, NonTimeout = 0, NonReceiveTimeout = 0, NonMaxRetransmit = 0, MaxLatency = 0\<rparr>
               then DefaultConfig else c0)
      in if MaxPayloads c < 1 \<or> MaxPayloads c > 256 then Inl ErrInvalidConfig
         else if NonTimeout c \<le> 0 \<or> NonTimeout c > hour then Inl ErrInvalidConfig
         else if NonMaxRetransmit c < 0 \<or> NonMaxRetransmit c > 20 then Inl ErrInvalidConfig
         else if MaxLatency c \<le> 0 \<or> MaxLatency c > 24 * hour then Inl ErrInvalidConfig
         else if NonReceiveTimeout c < int64 (int64 (NonTimeout c + NonTimeout c div 2) + second)
              \<or> NonReceiveTimeout c > int64 ((2 ^ 63 - 1) div 2 ^ nat (NonMaxRetransmit c) - second)
         then Inl ErrInvalidConfig
         else Inr c)"

text \<open>Go's division truncates; the operands here are not negative.\<close>

definition NonPartialTimeout :: "QConfig \<Rightarrow> int" where
  "NonPartialTimeout c =
     (let span = int64 (NonTimeout c * (2 ^ nat (NonMaxRetransmit c) - 1))
      in int64 (int64 (int64 (span + span div 2) + int64 (2 * MaxLatency c)) + NonTimeout c))"

definition NonProbingWait :: "int \<Rightarrow> QConfig \<Rightarrow> int" where
  "NonProbingWait delay c = int64 (int64 (NonPartialTimeout c - NonTimeout c) + delay)"

text \<open>\<open>nonDelay\<close>, with the number below \<open>max(1, NonTimeout/2)\<close> the random source gave.\<close>

definition nonDelay :: "int \<Rightarrow> QConfig \<Rightarrow> int" where
  "nonDelay r c = int64 (NonTimeout c + r)"

definition setLast :: "int \<Rightarrow> int \<Rightarrow> QConfig \<Rightarrow> int" where
  "setLast num blockCount c = min ((num div MaxPayloads c + 1) * MaxPayloads c) blockCount - 1"

text \<open>\<open>ValidateQBlockwiseConfig\<close>; the modes are disabled (0), auto (1) and only (2).\<close>

definition ValidateQBlockwiseConfig :: "byte \<Rightarrow> bool \<Rightarrow> go_error option" where
  "ValidateQBlockwiseConfig mode blockwiseEnabled =
     (if mode > 2 then Some ErrQBlockInvalidMode
      else if mode = 0 then None
      else if \<not> blockwiseEnabled then Some ErrQBlockNeedsBlockwise
      else None)"

subsection \<open>Assembly\<close>

abbreviation (input) qBlockMaxSZX :: SZX where "qBlockMaxSZX \<equiv> SZX1024"

definition qBlockMaxNUM :: int where "qBlockMaxNUM = 0xfffff"

record Assembly =
  as_szx :: SZX
  as_bodySize :: int
  as_maxBodySize :: int
  as_maxBlocks :: int
  as_blocks :: "(int, bytes) smap"
  as_finalBlock :: int
  as_receivedSize :: int
  as_firstMissing :: int

definition NewAssembly :: "SZX \<Rightarrow> int \<Rightarrow> int \<Rightarrow> int \<Rightarrow> go_error + Assembly" where
  "NewAssembly szx bodySize maxBodySize maxBlocks =
     (if szx > qBlockMaxSZX \<or> bodySize < 0 then Inl ErrQBlockInvalidSize
      else if maxBodySize \<le> 0 \<or> bodySize > maxBodySize then Inl ErrQBlockTooLarge
      else
        (let blockSize = SZX_Size szx in
         if blockSize \<le> 0 then Inl ErrInvalidSZX
         else
           (let blockCount = (if bodySize > 0 then (bodySize - 1) div blockSize + 1 else 0) in
            if maxBlocks \<le> 0 \<or> blockCount > maxBlocks \<or> blockCount - 1 > qBlockMaxNUM then Inl ErrQBlockTooLarge
            else Inr \<lparr>as_szx = szx, as_bodySize = bodySize, as_maxBodySize = maxBodySize, as_maxBlocks = maxBlocks,
                      as_blocks = [], as_finalBlock = -1, as_receivedSize = 0, as_firstMissing = 0\<rparr>)))"

definition completeLocked :: "Assembly \<Rightarrow> bool" where
  "completeLocked a =
     (if as_bodySize a = 0 then as_finalBlock a = 0 \<and> length (as_blocks a) = 1
      else if as_finalBlock a < 0 \<or> int (length (as_blocks a)) \<noteq> as_finalBlock a + 1 then False
      else as_receivedSize a = as_bodySize a)"

definition hasBlockAfterLocked :: "int \<Rightarrow> Assembly \<Rightarrow> bool" where
  "hasBlockAfterLocked num a = list_ex (\<lambda>(receivedNum, _). receivedNum > num) (as_blocks a)"

definition validatePayloadLocked :: "int \<Rightarrow> bool \<Rightarrow> bytes \<Rightarrow> Assembly \<Rightarrow> go_error option" where
  "validatePayloadLocked num mor payload a =
     (let blockSize = SZX_Size (as_szx a);
          lastNUM = (max (as_bodySize a) 1 - 1) div blockSize
      in if num > lastNUM then Some ErrQBlockInvalidNUM
         else
           (let offset = num * blockSize;
                stop = offset + int (length payload)
            in if stop < offset \<or> stop > as_bodySize a \<or> int (length payload) > blockSize then Some ErrQBlockInvalidSize
               else if mor \<and> (int (length payload) \<noteq> blockSize \<or> stop \<ge> as_bodySize a) then Some ErrQBlockInvalidSize
               else if \<not> mor \<and> stop \<noteq> as_bodySize a then Some ErrQBlockInvalidSize
               else if int (length (as_blocks a)) \<ge> as_maxBlocks a then Some ErrQBlockTooLarge
               else None))"

text \<open>The loop that moves the cursor to the first gap.\<close>

function firstGap :: "(int, bytes) smap \<Rightarrow> int \<Rightarrow> int" where
  "firstGap blocks num = (if map_of blocks num = None then num else firstGap blocks (num + 1))"
  by pat_completeness auto
termination
proof (relation "measure (\<lambda>(blocks, num). card {k \<in> fst ` set blocks. num \<le> k})")
  fix blocks :: "(int, bytes) smap" and num
  assume "map_of blocks num \<noteq> None"
  then have "num \<in> fst ` set blocks" by (simp add: map_of_eq_None_iff)
  then have "{k \<in> fst ` set blocks. num + 1 \<le> k} \<subset> {k \<in> fst ` set blocks. num \<le> k}" by force
  then show "((blocks, num + 1), blocks, num) \<in> measure (\<lambda>(blocks, num). card {k \<in> fst ` set blocks. num \<le> k})"
    by (simp add: psubset_card_mono)
qed simp

declare firstGap.simps [simp del]

definition Assembly_Add :: "int \<Rightarrow> bool \<Rightarrow> bytes \<Rightarrow> Assembly \<Rightarrow> Assembly \<times> (go_error + bool \<times> bool)" where
  "Assembly_Add num mor payload a =
     (if num < 0 \<or> num > qBlockMaxNUM then (a, Inl ErrQBlockInvalidNUM)
      else if map_of (as_blocks a) num \<noteq> None then (a, Inr (completeLocked a, True))
      else
        (case validatePayloadLocked num mor payload a of
           Some err \<Rightarrow> (a, Inl err)
         | None \<Rightarrow>
             if as_finalBlock a \<ge> 0 \<and> num > as_finalBlock a \<or> \<not> mor \<and> as_finalBlock a \<ge> 0 \<and> as_finalBlock a \<noteq> num
             then (a, Inl ErrQBlockInvalidSize)
             else if \<not> mor \<and> hasBlockAfterLocked num a then (a, Inl ErrQBlockInvalidSize)
             else
               (let a1 = (if \<not> mor then a\<lparr>as_finalBlock := num\<rparr> else a);
                    blocks = AList.update num payload (as_blocks a1);
                    a2 = a1\<lparr>as_blocks := blocks, as_receivedSize := as_receivedSize a1 + int (length payload),
                            as_firstMissing := firstGap blocks (as_firstMissing a1)\<rparr>
                in (a2, Inr (completeLocked a2, False)))))"

definition AddOption :: "u32 \<Rightarrow> bytes \<Rightarrow> Assembly \<Rightarrow> Assembly \<times> (go_error + bool \<times> bool)" where
  "AddOption value payload a =
     (case DecodeQBlockOption value of
        Inl err \<Rightarrow> (a, Inl err)
      | Inr (szx, num, mor) \<Rightarrow>
          if szx \<noteq> as_szx a then (a, Inl ErrQBlockInvalidSize) else Assembly_Add num mor payload a)"

text \<open>\<open>Missing\<close>; making a slice of a negative capacity would panic (\<open>None\<close>).\<close>

definition Assembly_Missing :: "Assembly \<Rightarrow> u32 list option" where
  "Assembly_Missing a =
     (let blockCount = (if as_bodySize a > 0 then (as_bodySize a - 1) div SZX_Size (as_szx a) + 1 else 1)
      in if blockCount > as_maxBlocks a then Some []
         else if blockCount < int (length (as_blocks a)) then None
         else Some (map word_of_int (filter (\<lambda>num. map_of (as_blocks a) num = None) [0..blockCount - 1])))"

definition asm_count :: "Assembly \<Rightarrow> int" where
  "asm_count a = max 1 ((as_bodySize a + SZX_Size (as_szx a) - 1) div SZX_Size (as_szx a))"

definition FirstMissing :: "Assembly \<Rightarrow> int \<times> bool" where
  "FirstMissing a = (as_firstMissing a, as_firstMissing a < asm_count a)"

definition missingSet :: "int \<Rightarrow> Assembly \<Rightarrow> u32 list" where
  "missingSet maxPayloads a =
     (let lst = setLast (as_firstMissing a) (asm_count a) (DefaultConfig\<lparr>MaxPayloads := maxPayloads\<rparr>)
      in map word_of_int (filter (\<lambda>num. map_of (as_blocks a) num = None) [as_firstMissing a..lst]))"

definition MissingSet :: "Assembly \<Rightarrow> u32 list" where
  "MissingSet a = missingSet (MaxPayloads DefaultConfig) a"

subsection \<open>Reading an assembled body\<close>

record qSparseReader =
  sr_blocks :: "(int, bytes) smap"
  sr_size :: int
  sr_blockSize :: int
  sr_offset :: int

definition ReadSeeker :: "Assembly \<Rightarrow> go_error + qSparseReader" where
  "ReadSeeker a =
     (if \<not> completeLocked a then Inl ErrQBlockIncomplete
      else Inr \<lparr>sr_blocks = as_blocks a, sr_size = as_bodySize a, sr_blockSize = SZX_Size (as_szx a), sr_offset = 0\<rparr>)"

text \<open>
  The loop of \<open>Read\<close> with \<open>n\<close> bytes of the slice left.  When a block is too short, nothing is copied and the loop
  never ends, or the slice expression panics: \<open>None\<close>.
\<close>

function sparse_loop :: "nat \<Rightarrow> qSparseReader \<Rightarrow> (qSparseReader \<times> bytes) option" where
  "sparse_loop n r =
     (if n = 0 \<or> sr_offset r \<ge> sr_size r then Some (r, [])
      else
        (let block = (case map_of (sr_blocks r) (sr_offset r div sr_blockSize r) of None \<Rightarrow> [] | Some b \<Rightarrow> b);
             copied = take n (drop (nat (sr_offset r mod sr_blockSize r)) block)
         in if copied = [] then None
            else
              (case sparse_loop (n - length copied) (r\<lparr>sr_offset := sr_offset r + int (length copied)\<rparr>) of
                 None \<Rightarrow> None
               | Some (r', p) \<Rightarrow> Some (r', copied @ p))))"
  by pat_completeness auto
termination
  by (relation "measure fst") (auto simp: Let_def)

declare sparse_loop.simps [simp del]

definition sparse_Read :: "nat \<Rightarrow> qSparseReader \<Rightarrow> (qSparseReader \<times> (go_error + bytes)) option" where
  "sparse_Read n r =
     (if n = 0 then Some (r, Inr [])
      else if sr_offset r \<ge> sr_size r then Some (r, Inl io_EOF)
      else map_option (\<lambda>(r', p). (r', Inr p)) (sparse_loop n r))"

definition sparse_Seek :: "int \<Rightarrow> whence \<Rightarrow> qSparseReader \<Rightarrow> qSparseReader \<times> (go_error + int)" where
  "sparse_Seek offset w r =
     (let base = (case w of SeekStart \<Rightarrow> 0 | SeekCurrent \<Rightarrow> sr_offset r | SeekEnd \<Rightarrow> sr_size r)
      in if offset < - base \<or> offset > 2 ^ 63 - 1 - base then (r, Inl (ErrOther ''invalid seek position''))
         else (r\<lparr>sr_offset := base + offset\<rparr>, Inr (base + offset)))"

subsection \<open>Sending a body\<close>

record Sender =
  sn_body :: reader
  sn_szx :: SZX
  sn_bodySize :: int

definition NewSender :: "reader option \<Rightarrow> SZX \<Rightarrow> int \<Rightarrow> go_error + Sender" where
  "NewSender bdy szx bodySize =
     (case bdy of
        None \<Rightarrow> Inl ErrQBlockInvalidSize
      | Some b \<Rightarrow>
          if szx > qBlockMaxSZX \<or> bodySize < 0 then Inl ErrQBlockInvalidSize
          else if SZX_Size szx \<le> 0 then Inl ErrInvalidSZX
          else
            (let blocks = (if bodySize > 0 then (bodySize - 1) div SZX_Size szx + 1 else 0)
             in if blocks > qBlockMaxNUM + 1 then Inl ErrQBlockInvalidSize
                else Inr \<lparr>sn_body = b, sn_szx = szx, sn_bodySize = bodySize\<rparr>))"

definition Sender_Block :: "int \<Rightarrow> Sender \<Rightarrow> Sender \<times> (go_error + bytes \<times> bool)" where
  "Sender_Block num s =
     (if num < 0 \<or> num > qBlockMaxNUM then (s, Inl ErrQBlockInvalidNUM)
      else
        (let blockSize = SZX_Size (sn_szx s);
             offset = num * blockSize
         in if offset > sn_bodySize s \<or> offset = sn_bodySize s \<and> sn_bodySize s \<noteq> 0 then (s, Inl ErrQBlockInvalidNUM)
            else
              (let remaining = sn_bodySize s - offset;
                   len = (if remaining < blockSize then remaining else blockSize)
               in case reader_Seek (sn_body s) offset SeekStart of
                    (b1, Inl err) \<Rightarrow> (s\<lparr>sn_body := b1\<rparr>, Inl err)
                  | (b1, Inr position) \<Rightarrow>
                      if position \<noteq> offset then (s\<lparr>sn_body := b1\<rparr>, Inl (ErrOther ''seek Q-Block body: got another offset''))
                      else
                        (let (b2, payload, readErr) = reader_ReadFull b1 (nat len);
                             s1 = s\<lparr>sn_body := b2\<rparr>
                         in case readErr of
                              Some e \<Rightarrow>
                                if (e \<noteq> io_EOF \<or> len \<noteq> 0) \<and> e \<noteq> io_ErrUnexpectedEOF then (s1, Inl e)
                                else if int (length payload) \<noteq> len then (s1, Inl io_ErrUnexpectedEOF)
                                else (s1, Inr (payload, offset + int (length payload) < sn_bodySize s))
                            | None \<Rightarrow>
                                if int (length payload) \<noteq> len then (s1, Inl io_ErrUnexpectedEOF)
                                else (s1, Inr (payload, offset + int (length payload) < sn_bodySize s))))))"

definition BlockOption :: "int \<Rightarrow> Sender \<Rightarrow> go_error + u32" where
  "BlockOption num s =
     (if num < 0 \<or> num > qBlockMaxNUM then Inl ErrQBlockInvalidNUM
      else
        (let offset = num * SZX_Size (sn_szx s)
         in if offset > sn_bodySize s \<or> offset = sn_bodySize s \<and> sn_bodySize s \<noteq> 0 then Inl ErrQBlockInvalidNUM
            else EncodeQBlockOption (sn_szx s) num (offset + SZX_Size (sn_szx s) < sn_bodySize s)))"

fun sender_blocks :: "u32 list \<Rightarrow> Sender \<Rightarrow> Sender \<times> (go_error + bytes list)" where
  "sender_blocks [] s = (s, Inr [])"
| "sender_blocks (num # nums) s =
     (case Sender_Block (uint num) s of
        (s1, Inl err) \<Rightarrow> (s1, Inl err)
      | (s1, Inr (payload, _)) \<Rightarrow>
          (case sender_blocks nums s1 of
             (s2, Inl err) \<Rightarrow> (s2, Inl err)
           | (s2, Inr out) \<Rightarrow> (s2, Inr (payload # out))))"

definition Sender_Blocks :: "u32 list \<Rightarrow> int \<Rightarrow> Sender \<Rightarrow> Sender \<times> (go_error + bytes list)" where
  "Sender_Blocks nums maxPayloads s =
     (if maxPayloads \<le> 0 then (s, Inl ErrQBlockTooLarge)
      else
        (let unique = remdups_adj (sort nums)
         in if int (length unique) > maxPayloads then (s, Inl ErrQBlockTooLarge) else sender_blocks unique s))"

subsection \<open>Durations\<close>

lemma int64_exact: "- (2 ^ 63) \<le> x \<Longrightarrow> x < 2 ^ 63 \<Longrightarrow> int64 x = x"
  by (simp add: int64_def mod_pos_pos_trivial)

lemma int_div_mult_le: "0 < b \<Longrightarrow> a div b * b \<le> a" for a b :: int
  by (simp add: minus_mod_eq_div_mult [symmetric])

lemma Resolve_bounds:
  assumes "Resolve c0 = Inr c"
  shows "0 < NonTimeout c" "NonTimeout c \<le> 3600 * 10 ^ 9" "0 \<le> NonMaxRetransmit c" "NonMaxRetransmit c \<le> 20"
    "0 < MaxLatency c" "MaxLatency c \<le> 86400 * 10 ^ 9" "0 < MaxPayloads c" "MaxPayloads c \<le> 256"
    "NonTimeout c + NonTimeout c div 2 + 10 ^ 9 \<le> NonReceiveTimeout c"
    "NonReceiveTimeout c \<le> (2 ^ 63 - 1) div 2 ^ nat (NonMaxRetransmit c) - 10 ^ 9"
proof -
  have b: "0 < NonTimeout c" "NonTimeout c \<le> 3600 * 10 ^ 9" "0 \<le> NonMaxRetransmit c" "NonMaxRetransmit c \<le> 20"
    "0 < MaxLatency c" "MaxLatency c \<le> 86400 * 10 ^ 9" "0 < MaxPayloads c" "MaxPayloads c \<le> 256"
    and r: "int64 (int64 (NonTimeout c + NonTimeout c div 2) + 10 ^ 9) \<le> NonReceiveTimeout c"
    "NonReceiveTimeout c \<le> int64 ((2 ^ 63 - 1) div 2 ^ nat (NonMaxRetransmit c) - 10 ^ 9)"
    using assms by (auto simp: Resolve_def Let_def not_less split: if_splits)
  show "0 < NonTimeout c" "NonTimeout c \<le> 3600 * 10 ^ 9" "0 \<le> NonMaxRetransmit c" "NonMaxRetransmit c \<le> 20"
    "0 < MaxLatency c" "MaxLatency c \<le> 86400 * 10 ^ 9" "0 < MaxPayloads c" "MaxPayloads c \<le> 256" by (fact b)+
  have "int64 (NonTimeout c + NonTimeout c div 2) = NonTimeout c + NonTimeout c div 2" using b by (intro int64_exact) auto
  moreover have "int64 (NonTimeout c + NonTimeout c div 2 + 10 ^ 9) = NonTimeout c + NonTimeout c div 2 + 10 ^ 9"
    using b by (intro int64_exact) auto
  ultimately show "NonTimeout c + NonTimeout c div 2 + 10 ^ 9 \<le> NonReceiveTimeout c" using r(1) by simp
  have "0 \<le> (2 ^ 63 - 1) div (2 :: int) ^ nat (NonMaxRetransmit c)" by (simp add: pos_imp_zdiv_nonneg_iff)
  moreover have "(2 ^ 63 - 1) div (2 :: int) ^ nat (NonMaxRetransmit c) \<le> 2 ^ 63 - 1"
    by (rule order_trans [OF zdiv_mono2 [of _ 1]]) simp_all
  ultimately have "int64 ((2 ^ 63 - 1) div 2 ^ nat (NonMaxRetransmit c) - 10 ^ 9) = (2 ^ 63 - 1) div 2 ^ nat (NonMaxRetransmit c) - 10 ^ 9"
    by (intro int64_exact) auto
  then show "NonReceiveTimeout c \<le> (2 ^ 63 - 1) div 2 ^ nat (NonMaxRetransmit c) - 10 ^ 9" using r(2) by simp
qed

text \<open>
  C19. With the parameters of a configuration that was accepted, no duration overflows: the lifetime of a partial
  body, the cap on probing and the waiting time of every repetition are the numbers of RFC 9177, and the pause
  between sets is always shorter than the receive timeout.
\<close>

theorem resolved_durations_exact:
  assumes "Resolve c0 = Inr c"
  shows "NonPartialTimeout c = (let span = NonTimeout c * (2 ^ nat (NonMaxRetransmit c) - 1) in span + span div 2 + 2 * MaxLatency c + NonTimeout c)
      \<and> 0 < NonPartialTimeout c
    \<and> (\<forall>r. 0 \<le> r \<and> r < max 1 (NonTimeout c div 2) \<longrightarrow>
        nonDelay r c = NonTimeout c + r \<and> NonProbingWait (nonDelay r c) c = NonPartialTimeout c + r \<and> nonDelay r c < NonReceiveTimeout c)
    \<and> (\<forall>k \<le> nat (NonMaxRetransmit c). int64 (int64 (NonReceiveTimeout c + second) * 2 ^ k) = (NonReceiveTimeout c + second) * 2 ^ k)"
proof -
  note B = Resolve_bounds [OF assms]
  define t where "t = NonTimeout c"
  define m where "m = (2 :: int) ^ nat (NonMaxRetransmit c) - 1"
  have "(2 :: int) ^ nat (NonMaxRetransmit c) \<le> 2 ^ 20" using B(4) by (intro power_increasing) auto
  then have m: "0 \<le> m" "m < 2 ^ 20" by (auto simp: m_def)
  have "t * m \<le> (3600 * 10 ^ 9) * (2 ^ 20)" using B(1,2) m by (intro mult_mono) (auto simp: t_def)
  then have s: "0 \<le> t * m" "t * m \<le> (3600 * 10 ^ 9) * (2 ^ 20)" using B(1) m by (auto simp: t_def)
  have i1: "int64 (t * m) = t * m" using s by (intro int64_exact) auto
  have i2: "int64 (t * m + t * m div 2) = t * m + t * m div 2" using s by (intro int64_exact) auto
  have i3: "int64 (2 * MaxLatency c) = 2 * MaxLatency c" using B(5,6) by (intro int64_exact) auto
  have i4: "int64 (t * m + t * m div 2 + 2 * MaxLatency c) = t * m + t * m div 2 + 2 * MaxLatency c"
    using s B(5,6) by (intro int64_exact) auto
  have i5: "int64 (t * m + t * m div 2 + 2 * MaxLatency c + t) = t * m + t * m div 2 + 2 * MaxLatency c + t"
    using s B(1,2,5,6) by (intro int64_exact) (auto simp: t_def)
  have np: "NonPartialTimeout c = t * m + t * m div 2 + 2 * MaxLatency c + t"
    unfolding NonPartialTimeout_def Let_def t_def [symmetric] m_def [symmetric] i1 i2 i3 i4 i5 ..
  have r: "nonDelay r c = NonTimeout c + r \<and> NonProbingWait (nonDelay r c) c = NonPartialTimeout c + r \<and> nonDelay r c < NonReceiveTimeout c"
    if "0 \<le> r \<and> r < max 1 (NonTimeout c div 2)" for r
  proof -
    have r: "0 \<le> r" "r \<le> NonTimeout c" using that B(1) by auto
    have d: "nonDelay r c = NonTimeout c + r" unfolding nonDelay_def using r B(2) by (intro int64_exact) auto
    have "int64 (NonPartialTimeout c - t) = NonPartialTimeout c - t" unfolding np using s B(5,6) by (intro int64_exact) auto
    moreover have "int64 (NonPartialTimeout c - t + (t + r)) = NonPartialTimeout c - t + (t + r)"
      unfolding np using s B(1,2,5,6) r by (intro int64_exact) (auto simp: t_def)
    ultimately have "NonProbingWait (nonDelay r c) c = NonPartialTimeout c + r" unfolding d NonProbingWait_def t_def [symmetric] by simp
    then show ?thesis using d B(1,9) that by auto
  qed
  have w: "int64 (int64 (NonReceiveTimeout c + second) * 2 ^ k) = (NonReceiveTimeout c + second) * 2 ^ k" if "k \<le> nat (NonMaxRetransmit c)" for k
  proof -
    let ?w = "NonReceiveTimeout c + 10 ^ 9" and ?n = "nat (NonMaxRetransmit c)"
    have pos: "0 \<le> ?w" using B(1,9) by simp
    have "?w * 2 ^ k \<le> ?w * 2 ^ ?n" using pos that by (intro mult_left_mono power_increasing) auto
    also have "\<dots> \<le> (2 ^ 63 - 1) div 2 ^ ?n * 2 ^ ?n" using B(10) by (intro mult_right_mono) auto
    also have "\<dots> \<le> 2 ^ 63 - 1" by (rule int_div_mult_le) simp
    finally have le: "?w * 2 ^ k \<le> 2 ^ 63 - 1" .
    moreover have "?w * 1 \<le> ?w * 2 ^ k" using pos by (intro mult_left_mono) auto
    ultimately have "int64 ?w = ?w" using pos by (intro int64_exact) auto
    moreover have "int64 (?w * 2 ^ k) = ?w * 2 ^ k" using le pos by (intro int64_exact) (auto intro: order_trans [of _ 0])
    ultimately show ?thesis by simp
  qed
  have np2: "NonPartialTimeout c = (let span = NonTimeout c * (2 ^ nat (NonMaxRetransmit c) - 1) in span + span div 2 + 2 * MaxLatency c + NonTimeout c)"
    unfolding np Let_def t_def m_def ..
  have "0 \<le> t * m div 2" using s(1) by simp
  then have "0 < NonPartialTimeout c" unfolding np using s(1) B(1,5) by (simp add: t_def)
  then show ?thesis using np2 r w by blast
qed

theorem resolved_durations_exact_witness:
  "Resolve \<lparr>MaxPayloads = 0, NonTimeout = 0, NonReceiveTimeout = 0, NonMaxRetransmit = 0, MaxLatency = 0\<rparr> = Inr DefaultConfig
    \<and> NonPartialTimeout DefaultConfig = 247 * 10 ^ 9"
proof -
  have r: "Resolve \<lparr>MaxPayloads = 0, NonTimeout = 0, NonReceiveTimeout = 0, NonMaxRetransmit = 0, MaxLatency = 0\<rparr> = Inr DefaultConfig"
    by (simp add: Resolve_def DefaultConfig_def int64_def)
  then show ?thesis using resolved_durations_exact [OF r] by (simp add: DefaultConfig_def Let_def)
qed

end
