(* ===== verification/Qblock_Assembly.thy ===== *)
theory Qblock_Assembly
  imports Qblock_Transfer
begin

text \<open>
  What an assembly stands for: the set of the block numbers it has.  Whatever is added, the assembly knows its gaps
  exactly; with the blocks of a sender, in any order and any number of times, it gives the body back.
\<close>

subsection \<open>The blocks of a body\<close>

definition blen :: "Assembly \<Rightarrow> int" where
  "blen a = SZX_Size (as_szx a)"

definition block_len :: "Assembly \<Rightarrow> int \<Rightarrow> int" where
  "block_len a k = (if k = asm_count a - 1 then as_bodySize a - k * blen a else blen a)"

definition params_ok :: "Assembly \<Rightarrow> bool" where
  "params_ok a \<longleftrightarrow> as_szx a \<le> 6 \<and> 0 \<le> as_bodySize a \<and> asm_count a \<le> as_maxBlocks a \<and> asm_count a - 1 \<le> qBlockMaxNUM"

lemma blen_pos: "params_ok a \<Longrightarrow> 16 \<le> blen a \<and> blen a \<le> 1024"
proof -
  assume "params_ok a"
  then have "as_szx a \<le> 7" using order_trans [of "as_szx a" 6 7] by (simp add: params_ok_def)
  then show ?thesis using SZX_Size_bounds [of "as_szx a"] by (simp add: blen_def)
qed

lemma ceil_div: "0 < n \<Longrightarrow> 0 < b \<Longrightarrow> (n + b - 1) div b = (n - 1) div b + 1" for n b :: int
proof -
  assume "0 < n" "0 < b"
  have "n + b - 1 = (n - 1) + 1 * b" by simp
  moreover have "((n - 1) + 1 * b) div b = (n - 1) div b + 1" using \<open>0 < b\<close> by (subst div_mult_self1) auto
  ultimately show ?thesis by (simp only:)
qed

lemma count_eq:
  assumes "params_ok a"
  shows "asm_count a = (if as_bodySize a = 0 then 1 else (as_bodySize a - 1) div blen a + 1)" "1 \<le> asm_count a"
    "(max (as_bodySize a) 1 - 1) div blen a = asm_count a - 1"
proof -
  have b: "0 < blen a" "0 \<le> as_bodySize a" using blen_pos [OF assms] assms by (simp_all add: params_ok_def)
  show e: "asm_count a = (if as_bodySize a = 0 then 1 else (as_bodySize a - 1) div blen a + 1)"
  proof (cases "as_bodySize a = 0")
    case True
    then show ?thesis using b by (simp add: asm_count_def blen_def div_pos_pos_trivial)
  next
    case False
    then have "0 \<le> (as_bodySize a - 1) div blen a" using b by (simp add: pos_imp_zdiv_nonneg_iff)
    then show ?thesis using False b ceil_div [of "as_bodySize a" "blen a"] by (simp add: asm_count_def blen_def)
  qed
  show "1 \<le> asm_count a" by (simp add: asm_count_def)
  show "(max (as_bodySize a) 1 - 1) div blen a = asm_count a - 1" using b by (auto simp: e max_def)
qed

text \<open>The last block has what the others leave, at most a full block and nothing only for an empty body.\<close>

lemma last_block:
  assumes "params_ok a"
  shows "(asm_count a - 1) * blen a \<le> as_bodySize a" "as_bodySize a - (asm_count a - 1) * blen a \<le> blen a"
    "as_bodySize a = 0 \<or> (asm_count a - 1) * blen a < as_bodySize a"
proof -
  have b: "0 < blen a" "0 \<le> as_bodySize a" using blen_pos [OF assms] assms by (simp_all add: params_ok_def)
  let ?q = "(as_bodySize a - 1) div blen a"
  have m: "?q * blen a + (as_bodySize a - 1) mod blen a = as_bodySize a - 1" by simp
  have r: "0 \<le> (as_bodySize a - 1) mod blen a" "(as_bodySize a - 1) mod blen a < blen a" using b by simp_all
  have "(asm_count a - 1) * blen a \<le> as_bodySize a \<and> as_bodySize a - (asm_count a - 1) * blen a \<le> blen a
      \<and> (as_bodySize a = 0 \<or> (asm_count a - 1) * blen a < as_bodySize a)"
  proof (cases "as_bodySize a = 0")
    case True
    then have "asm_count a - 1 = 0" by (simp add: count_eq(1) [OF assms])
    then show ?thesis using True b by simp
  next
    case False
    then have c: "asm_count a - 1 = ?q" by (simp add: count_eq(1) [OF assms])
    show ?thesis unfolding c using m r b by linarith
  qed
  then show "(asm_count a - 1) * blen a \<le> as_bodySize a" "as_bodySize a - (asm_count a - 1) * blen a \<le> blen a"
    "as_bodySize a = 0 \<or> (asm_count a - 1) * blen a < as_bodySize a" by blast+
qed

lemma full_blocks:
  assumes "params_ok a" "0 \<le> k" "k < asm_count a - 1"
  shows "(k + 1) * blen a < as_bodySize a"
proof -
  have "(k + 1) * blen a \<le> (asm_count a - 1) * blen a"
    using assms blen_pos [OF assms(1)] by (intro mult_right_mono) auto
  moreover have "1 < asm_count a" using assms by linarith
  then have "as_bodySize a \<noteq> 0" using count_eq(1) [OF assms(1)] by auto
  ultimately show ?thesis using last_block(3) [OF assms(1)] by linarith
qed

lemma block_len_nonneg: "params_ok a \<Longrightarrow> 0 \<le> block_len a k \<and> block_len a k \<le> blen a"
  using last_block [of a] blen_pos [of a] by (auto simp: block_len_def)

lemma sum_block_len: "params_ok a \<Longrightarrow> (\<Sum>k \<in> {0..<asm_count a}. block_len a k) = as_bodySize a"
proof -
  assume p: "params_ok a"
  have "{0..<asm_count a} = insert (asm_count a - 1) {0..<asm_count a - 1}"
    using count_eq(2) [OF p] by auto
  moreover have "(\<Sum>k \<in> {0..<asm_count a - 1}. block_len a k) = (\<Sum>k \<in> {0..<asm_count a - 1}. blen a)"
    by (rule sum.cong) (auto simp: block_len_def)
  ultimately show ?thesis using count_eq(2) [OF p] by (simp add: block_len_def)
qed

subsection \<open>The invariant\<close>

definition has :: "Assembly \<Rightarrow> int set" where
  "has a = fst ` set (as_blocks a)"

lemma has_iff: "k \<in> has a \<longleftrightarrow> map_of (as_blocks a) k \<noteq> None"
  by (simp add: has_def map_of_eq_None_iff)

definition asm_inv :: "Assembly \<Rightarrow> bool" where
  "asm_inv a \<longleftrightarrow> params_ok a \<and> smap_ok (as_blocks a) \<and> has a \<subseteq> {0..<asm_count a}
     \<and> (\<forall>k p. map_of (as_blocks a) k = Some p \<longrightarrow> int (length p) = block_len a k)
     \<and> as_finalBlock a = (if asm_count a - 1 \<in> has a then asm_count a - 1 else -1)
     \<and> as_receivedSize a = (\<Sum>k \<in> has a. block_len a k)
     \<and> 0 \<le> as_firstMissing a \<and> {0..<as_firstMissing a} \<subseteq> has a \<and> as_firstMissing a \<notin> has a"

lemma has_finite [simp]: "finite (has a)"
  by (simp add: has_def)

lemma card_has: "asm_inv a \<Longrightarrow> length (as_blocks a) = card (has a)"
  using distinct_card [of "map fst (as_blocks a)"] by (simp add: asm_inv_def has_def smap_ok_def)

lemma complete_iff:
  assumes "asm_inv a"
  shows "completeLocked a \<longleftrightarrow> has a = {0..<asm_count a}"
proof -
  have p: "params_ok a" and sub: "has a \<subseteq> {0..<asm_count a}"
    and f: "as_finalBlock a = (if asm_count a - 1 \<in> has a then asm_count a - 1 else -1)"
    and rs: "as_receivedSize a = (\<Sum>k \<in> has a. block_len a k)"
    using assms by (auto simp: asm_inv_def)
  have c: "as_bodySize a = 0 \<Longrightarrow> asm_count a = 1" "1 \<le> asm_count a" using count_eq(1,2) [OF p] by simp_all
  have full: "card (has a) = nat (asm_count a) \<longleftrightarrow> has a = {0..<asm_count a}"
    using card_subset_eq [OF _ sub] by auto
  have mem: "has a = {0..<asm_count a} \<Longrightarrow> asm_count a - 1 \<in> has a" using c(2) by simp
  show ?thesis
  proof
    assume "completeLocked a"
    then show "has a = {0..<asm_count a}"
      using full f c card_has [OF assms] by (auto simp: completeLocked_def split: if_splits)
  next
    assume h: "has a = {0..<asm_count a}"
    then show "completeLocked a"
      using full f c card_has [OF assms] mem [OF h] rs sum_block_len [OF p] by (auto simp: completeLocked_def)
  qed
qed

lemma firstGap_spec:
  assumes "{0..<n} \<subseteq> fst ` set bs" "0 \<le> n"
  shows "0 \<le> firstGap bs n \<and> {0..<firstGap bs n} \<subseteq> fst ` set bs \<and> firstGap bs n \<notin> fst ` set bs"
  using assms
proof (induction bs n rule: firstGap.induct)
  case (1 bs n)
  show ?case
  proof (cases "map_of bs n = None")
    case True
    then show ?thesis using 1 by (subst (1 2 3) firstGap.simps) (simp add: map_of_eq_None_iff)
  next
    case False
    moreover have "{0..<n + 1} = insert n {0..<n}" using 1(3) by auto
    ultimately have "{0..<n + 1} \<subseteq> fst ` set bs" using 1(2) by (simp add: map_of_eq_None_iff)
    then have "0 \<le> firstGap bs (n + 1) \<and> {0..<firstGap bs (n + 1)} \<subseteq> fst ` set bs \<and> firstGap bs (n + 1) \<notin> fst ` set bs"
      using 1(1) [OF False] 1(3) by simp
    moreover have "firstGap bs n = firstGap bs (n + 1)" by (subst firstGap.simps) (rule if_not_P [OF False])
    ultimately show ?thesis by simp
  qed
qed

subsection \<open>Adding\<close>

definition fits :: "int \<Rightarrow> bool \<Rightarrow> bytes \<Rightarrow> Assembly \<Rightarrow> bool" where
  "fits num mor payload a \<longleftrightarrow> 0 \<le> num \<and> num < asm_count a \<and> int (length payload) = block_len a num \<and> mor = (num < asm_count a - 1)"

lemma validate_iff:
  assumes "asm_inv a" "num \<notin> has a" "0 \<le> num"
  shows "validatePayloadLocked num mor payload a = None \<longleftrightarrow> fits num mor payload a"
proof -
  have p: "params_ok a" and sub: "has a \<subseteq> {0..<asm_count a}" using assms(1) by (auto simp: asm_inv_def)
  let ?l = "int (length payload)"
  have b: "0 < blen a" using blen_pos [OF p] by simp
  have n: "num * blen a + ?l \<ge> num * blen a" by simp
  show ?thesis
  proof (cases "num < asm_count a")
    case False
    then show ?thesis using count_eq(3) [OF p] by (auto simp: validatePayloadLocked_def fits_def blen_def [symmetric] Let_def)
  next
    case True
    have room: "int (length (as_blocks a)) < as_maxBlocks a"
    proof -
      have "has a \<subset> {0..<asm_count a}" using sub True assms(2,3) by auto
      then have "card (has a) < card {0..<asm_count a}" by (intro psubset_card_mono) simp_all
      then show ?thesis using card_has [OF assms(1)] p unfolding params_ok_def by simp linarith
    qed
    have len: "block_len a num \<le> blen a" using block_len_nonneg [OF p] by blast
    have v: "validatePayloadLocked num mor payload a = None \<longleftrightarrow>
        num * blen a + ?l \<le> as_bodySize a \<and> ?l \<le> blen a \<and> (mor \<longrightarrow> ?l = blen a \<and> num * blen a + ?l < as_bodySize a)
        \<and> (\<not> mor \<longrightarrow> num * blen a + ?l = as_bodySize a)"
      using True room count_eq(3) [OF p] by (auto simp: validatePayloadLocked_def blen_def [symmetric] Let_def)
    show ?thesis
    proof (cases "num = asm_count a - 1")
      case lst: True
      have "num * blen a + blen a \<ge> as_bodySize a" using last_block(2) [OF p] by (simp add: lst)
      then show ?thesis unfolding v using last_block [OF p] True assms(3) len by (auto simp: fits_def block_len_def lst)
    next
      case inner: False
      then have "(num + 1) * blen a < as_bodySize a" using full_blocks [OF p assms(3)] True by simp
      then have f: "num * blen a + blen a < as_bodySize a" by (simp add: algebra_simps)
      show ?thesis unfolding v using f True inner assms(3) b by (auto simp: fits_def block_len_def)
    qed
  qed
qed

definition added :: "int \<Rightarrow> bytes \<Rightarrow> Assembly \<Rightarrow> Assembly" where
  "added num payload a =
     a\<lparr>as_finalBlock := (if num = asm_count a - 1 then num else as_finalBlock a),
       as_blocks := AList.update num payload (as_blocks a), as_receivedSize := as_receivedSize a + int (length payload),
       as_firstMissing := firstGap (AList.update num payload (as_blocks a)) (as_firstMissing a)\<rparr>"

lemma added_same [simp]: "asm_count (added num payload a) = asm_count a" "block_len (added num payload a) = block_len a"
  "params_ok (added num payload a) = params_ok a" "blen (added num payload a) = blen a" "as_bodySize (added num payload a) = as_bodySize a"
  by (auto simp: added_def asm_count_def block_len_def params_ok_def blen_def fun_eq_iff)

lemma added_has: "has (added num payload a) = insert num (has a)"
  by (auto simp: has_iff added_def update_conv' set_eq_iff)

lemma Add_eq:
  assumes "asm_inv a"
  shows "Assembly_Add num mor payload a =
      (if num \<in> has a then (a, Inr (completeLocked a, True))
       else if fits num mor payload a then (added num payload a, Inr (completeLocked (added num payload a), False))
       else (a, Inl (projl (snd (Assembly_Add num mor payload a)))))"
    and "num \<notin> has a \<Longrightarrow> \<not> fits num mor payload a \<Longrightarrow> fst (Assembly_Add num mor payload a) = a"
proof -
  have p: "params_ok a" and sub: "has a \<subseteq> {0..<asm_count a}"
    and f: "as_finalBlock a = (if asm_count a - 1 \<in> has a then asm_count a - 1 else -1)"
    using assms by (auto simp: asm_inv_def)
  have max: "asm_count a - 1 \<le> qBlockMaxNUM" using p by (simp add: params_ok_def)
  have c: "1 \<le> asm_count a" using count_eq(2) [OF p] .
  have none: "\<not> hasBlockAfterLocked (asm_count a - 1) a"
    using sub by (force simp: hasBlockAfterLocked_def has_def list_ex_iff)
  have "Assembly_Add num mor payload a =
      (if num \<in> has a then (a, Inr (completeLocked a, True))
       else if fits num mor payload a then (added num payload a, Inr (completeLocked (added num payload a), False))
       else (a, Inl (projl (snd (Assembly_Add num mor payload a)))))
    \<and> (num \<notin> has a \<longrightarrow> \<not> fits num mor payload a \<longrightarrow> fst (Assembly_Add num mor payload a) = a)"
  proof (cases "num \<in> has a")
    case True
    then have "0 \<le> num" "num \<le> qBlockMaxNUM" using sub max by auto
    then show ?thesis using True by (simp add: Assembly_Add_def has_iff)
  next
    case new: False
    then have nb: "map_of (as_blocks a) num = None" by (simp add: has_iff)
    show ?thesis
    proof (cases "fits num mor payload a")
      case True
      then have r: "0 \<le> num" "num < asm_count a" "mor = (num < asm_count a - 1)" by (auto simp: fits_def)
      have v: "validatePayloadLocked num mor payload a = None" using validate_iff [OF assms new r(1)] True by simp
      have ok: "\<not> (as_finalBlock a \<ge> 0 \<and> num > as_finalBlock a \<or> \<not> mor \<and> as_finalBlock a \<ge> 0 \<and> as_finalBlock a \<noteq> num)"
        using f r new by auto
      have nm: "\<not> mor \<longleftrightarrow> num = asm_count a - 1" using r by auto
      have ok2: "\<not> (\<not> mor \<and> hasBlockAfterLocked num a)" using none nm by auto
      have upd: "(if \<not> mor then a\<lparr>as_finalBlock := num\<rparr> else a) = a\<lparr>as_finalBlock := (if num = asm_count a - 1 then num else as_finalBlock a)\<rparr>"
        unfolding nm by simp
      have "Assembly_Add num mor payload a = (added num payload a, Inr (completeLocked (added num payload a), False))"
        unfolding Assembly_Add_def upd using r max nb v ok ok2 by (simp add: added_def Let_def)
      then show ?thesis using new True by simp
    next
      case False
      have "fst (Assembly_Add num mor payload a) = a \<and> (\<exists>e. snd (Assembly_Add num mor payload a) = Inl e)"
        using nb validate_iff [OF assms new, of mor payload] False by (auto simp: Assembly_Add_def split: option.split)
      then show ?thesis using new False by (metis prod.collapse sum.sel(1))
    qed
  qed
  then show "Assembly_Add num mor payload a =
      (if num \<in> has a then (a, Inr (completeLocked a, True))
       else if fits num mor payload a then (added num payload a, Inr (completeLocked (added num payload a), False))
       else (a, Inl (projl (snd (Assembly_Add num mor payload a)))))"
    and "num \<notin> has a \<Longrightarrow> \<not> fits num mor payload a \<Longrightarrow> fst (Assembly_Add num mor payload a) = a" by blast+
qed

lemma added_inv:
  assumes "asm_inv a" "num \<notin> has a" "fits num mor payload a"
  shows "asm_inv (added num payload a)"
proof -
  have r: "0 \<le> num" "num < asm_count a" "int (length payload) = block_len a num" using assms(3) by (auto simp: fits_def)
  note I = assms(1) [unfolded asm_inv_def]
  have fm: "{0..<as_firstMissing a} \<subseteq> fst ` set (AList.update num payload (as_blocks a))"
    using I added_has [of num payload a] by (auto simp: has_def added_def)
  have "0 \<le> firstGap (AList.update num payload (as_blocks a)) (as_firstMissing a)
      \<and> {0..<firstGap (AList.update num payload (as_blocks a)) (as_firstMissing a)} \<subseteq> fst ` set (AList.update num payload (as_blocks a))
      \<and> firstGap (AList.update num payload (as_blocks a)) (as_firstMissing a) \<notin> fst ` set (AList.update num payload (as_blocks a))"
    using firstGap_spec [OF fm] I by simp
  then have gap: "0 \<le> as_firstMissing (added num payload a) \<and> {0..<as_firstMissing (added num payload a)} \<subseteq> has (added num payload a)
      \<and> as_firstMissing (added num payload a) \<notin> has (added num payload a)"
    by (simp add: has_def added_def)
  have len: "\<forall>k p. map_of (as_blocks (added num payload a)) k = Some p \<longrightarrow> int (length p) = block_len a k"
    using I r(3) by (auto simp: added_def update_conv')
  have fin: "as_finalBlock (added num payload a) = (if asm_count a - 1 \<in> insert num (has a) then asm_count a - 1 else -1)"
    using I by (auto simp: added_def)
  have rs: "as_receivedSize (added num payload a) = (\<Sum>k \<in> insert num (has a). block_len a k)"
    using I r(3) assms(2) by (simp add: added_def)
  have ok: "smap_ok (as_blocks (added num payload a))" using I by (simp add: added_def alist.invar_put)
  have sub: "insert num (has a) \<subseteq> {0..<asm_count a}" using I r by auto
  show ?thesis unfolding asm_inv_def using gap len fin rs ok sub I by (simp add: added_has)
qed

lemma Add_result: "asm_inv a \<Longrightarrow> fst (Assembly_Add num mor payload a) = a \<or> fst (Assembly_Add num mor payload a) = added num payload a"
  using Add_eq [of a num mor payload] by (metis fst_conv)

lemma Add_inv: "asm_inv a \<Longrightarrow> asm_inv (fst (Assembly_Add num mor payload a))"
  using Add_eq [of a num mor payload] added_inv [of a num mor payload] by (metis fst_conv)

lemma Add_keeps:
  assumes "asm_inv a"
  shows "as_maxBlocks (fst (Assembly_Add num mor payload a)) = as_maxBlocks a"
    "as_bodySize (fst (Assembly_Add num mor payload a)) = as_bodySize a"
    "asm_count (fst (Assembly_Add num mor payload a)) = asm_count a"
proof -
  have "as_maxBlocks (added num payload a) = as_maxBlocks a" by (simp add: added_def)
  then show "as_maxBlocks (fst (Assembly_Add num mor payload a)) = as_maxBlocks a"
    "as_bodySize (fst (Assembly_Add num mor payload a)) = as_bodySize a"
    "asm_count (fst (Assembly_Add num mor payload a)) = asm_count a"
    using Add_result [OF assms, of num mor payload] by (elim disjE; simp)+
qed

lemma NewAssembly_inv:
  assumes "NewAssembly szx n maxBody maxBlocks = Inr a"
  shows "asm_inv a" "has a = {}" "as_szx a = szx" "as_bodySize a = n"
proof -
  have c: "szx \<le> 6" "0 \<le> n" "0 < SZX_Size szx" "0 < maxBlocks" and b: "(if n > 0 then (n - 1) div SZX_Size szx + 1 else 0) \<le> maxBlocks"
      "(if n > 0 then (n - 1) div SZX_Size szx + 1 else 0) - 1 \<le> qBlockMaxNUM"
    and a: "a = \<lparr>as_szx = szx, as_bodySize = n, as_maxBodySize = maxBody, as_maxBlocks = maxBlocks,
                      as_blocks = [], as_finalBlock = -1, as_receivedSize = 0, as_firstMissing = 0\<rparr>"
    using assms by (auto simp: NewAssembly_def Let_def not_less split: if_splits)
  have "asm_count a = max 1 ((n + SZX_Size szx - 1) div SZX_Size szx)" by (simp add: a asm_count_def)
  moreover have "(n + SZX_Size szx - 1) div SZX_Size szx = (n - 1) div SZX_Size szx + 1" if "0 < n" using ceil_div [OF that c(3)] .
  moreover have "0 \<le> (n - 1) div SZX_Size szx" if "0 < n" using that c(3) by (simp add: pos_imp_zdiv_nonneg_iff)
  moreover have "(n + SZX_Size szx - 1) div SZX_Size szx = 0" if "n = 0" using that c(3) by (simp add: div_pos_pos_trivial)
  ultimately have cnt: "asm_count a = (if 0 < n then (n - 1) div SZX_Size szx + 1 else 1)" using c(2) by auto
  have "params_ok a" using c b cnt by (auto simp: params_ok_def a qBlockMaxNUM_def split: if_splits)
  then show "asm_inv a" by (simp add: asm_inv_def a smap_ok_def has_def)
  show "has a = {}" "as_szx a = szx" "as_bodySize a = n" by (simp_all add: a has_def)
qed

subsection \<open>Gaps\<close>

text \<open>The missing block numbers, the first of them, and the missing ones of the earliest incomplete set.\<close>

definition gaps :: "Assembly \<Rightarrow> int list" where
  "gaps a = filter (\<lambda>k. k \<notin> has a) [0..asm_count a - 1]"

lemma first_missing:
  assumes "asm_inv a"
  shows "as_firstMissing a \<le> asm_count a" "completeLocked a \<longleftrightarrow> as_firstMissing a = asm_count a"
proof -
  note I = assms [unfolded asm_inv_def]
  show le: "as_firstMissing a \<le> asm_count a"
  proof (rule ccontr)
    assume "\<not> as_firstMissing a \<le> asm_count a"
    moreover have "1 \<le> asm_count a" by (simp add: asm_count_def)
    ultimately have "asm_count a \<in> {0..<as_firstMissing a}" by simp
    then have "asm_count a \<in> {0..<asm_count a}" using I by blast
    then show False by simp
  qed
  have "has a = {0..<asm_count a} \<Longrightarrow> as_firstMissing a = asm_count a" using le I by force
  moreover have "as_firstMissing a = asm_count a \<Longrightarrow> has a = {0..<asm_count a}" using I by auto
  ultimately show "completeLocked a \<longleftrightarrow> as_firstMissing a = asm_count a" using complete_iff [OF assms] by blast
qed

lemma FirstMissing_eq: "asm_inv a \<Longrightarrow> FirstMissing a = (as_firstMissing a, \<not> completeLocked a)"
  using first_missing [of a] by (auto simp: FirstMissing_def)

lemma gaps_split:
  assumes "asm_inv a" "\<not> completeLocked a"
  shows "gaps a = as_firstMissing a # filter (\<lambda>k. k \<notin> has a) [as_firstMissing a + 1..asm_count a - 1]"
proof -
  note I = assms(1) [unfolded asm_inv_def]
  let ?f = "as_firstMissing a"
  have lt: "?f < asm_count a" and pos: "0 \<le> ?f" using first_missing [OF assms(1)] assms(2) I by auto
  then have "[0..asm_count a - 1] = [0..?f - 1] @ ?f # [?f + 1..asm_count a - 1]" by (intro upto_split3) auto
  moreover have "filter (\<lambda>k. k \<notin> has a) [0..?f - 1] = []" using I by (auto simp: filter_empty_conv)
  ultimately show ?thesis using I by (simp add: gaps_def)
qed

lemma gaps_empty_iff: "asm_inv a \<Longrightarrow> gaps a = [] \<longleftrightarrow> completeLocked a"
proof (cases "completeLocked a")
  case True
  moreover assume "asm_inv a"
  ultimately show ?thesis using complete_iff by (simp add: gaps_def filter_empty_conv)
qed (simp add: gaps_split)

lemma Missing_eq:
  assumes "asm_inv a"
  shows "Assembly_Missing a = Some (map word_of_int (gaps a))"
proof -
  have p: "params_ok a" and sub: "has a \<subseteq> {0..<asm_count a}" using assms by (auto simp: asm_inv_def)
  have c: "(if as_bodySize a > 0 then (as_bodySize a - 1) div SZX_Size (as_szx a) + 1 else 1) = asm_count a"
    using count_eq(1) [OF p] p by (auto simp: params_ok_def blen_def)
  have "card (has a) \<le> card {0..<asm_count a}" using sub by (intro card_mono) auto
  then have "\<not> asm_count a < int (length (as_blocks a))" using card_has [OF assms] count_eq(2) [OF p] by simp
  moreover have "\<not> asm_count a > as_maxBlocks a" using p by (simp add: params_ok_def)
  ultimately show ?thesis unfolding Assembly_Missing_def c by (simp add: gaps_def has_iff)
qed

lemma int_div_less_iff: "0 < m \<Longrightarrow> k div m < q \<longleftrightarrow> k < q * m" for k m q :: int
proof -
  assume m: "0 < m"
  have r: "k = k div m * m + k mod m" "0 \<le> k mod m" "k mod m < m" using m by auto
  have "(k div m + 1) * m \<le> q * m" if "k div m < q" using that m by (intro mult_right_mono) auto
  moreover have "q * m \<le> k div m * m" if "\<not> k div m < q" using that m by (intro mult_right_mono) auto
  moreover have "(k div m + 1) * m = k div m * m + m" by (simp add: algebra_simps)
  ultimately show ?thesis using r by linarith
qed

text \<open>The set of a block is its number divided by the number of blocks sent at once.\<close>

lemma missingSet_eq:
  assumes "asm_inv a" "0 < m"
  shows "missingSet m a = map word_of_int (filter (\<lambda>k. k div m = as_firstMissing a div m) (gaps a))"
proof (cases "completeLocked a")
  case True
  then have "gaps a = []" "as_firstMissing a = asm_count a" using gaps_empty_iff [OF assms(1)] first_missing [OF assms(1)] by auto
  then show ?thesis by (simp add: missingSet_def setLast_def)
next
  case False
  let ?f = "as_firstMissing a" and ?n = "asm_count a"
  define lst where "lst = setLast ?f ?n (DefaultConfig\<lparr>MaxPayloads := m\<rparr>)"
  have f: "?f \<notin> has a" "0 \<le> ?f" using assms(1) by (auto simp: asm_inv_def)
  have lt: "?f < ?n" using first_missing [OF assms(1)] False by auto
  have "k \<le> min A B - 1 \<longleftrightarrow> k < A \<and> k < B" for k A B :: int by auto
  then have in_set: "k \<le> lst \<longleftrightarrow> k div m < ?f div m + 1 \<and> k < ?n" for k
    unfolding int_div_less_iff [OF assms(2)] lst_def setLast_def by simp
  have flst: "?f \<le> lst" unfolding in_set using lt by simp
  have "lst \<le> ?n - 1" using in_set [of lst] by simp
  then have "[?f..?n - 1] = [?f..lst] @ [lst + 1..?n - 1]" using flst by (intro upto_split2) auto
  moreover have "filter (\<lambda>k. k div m = ?f div m) (filter (\<lambda>k. k \<notin> has a) [lst + 1..?n - 1]) = []"
  proof -
    have "k div m \<noteq> ?f div m" if "lst + 1 \<le> k" "k \<le> ?n - 1" for k using in_set [of k] that by auto
    then show ?thesis by (simp add: filter_empty_conv)
  qed
  moreover have "filter (\<lambda>k. k div m = ?f div m) (filter (\<lambda>k. k \<notin> has a) [?f..lst]) = filter (\<lambda>k. k \<notin> has a) [?f..lst]"
  proof -
    have "k div m = ?f div m" if "?f \<le> k" "k \<le> lst" for k
      using in_set [of k] that zdiv_mono1 [OF that(1) assms(2)] by simp
    then show ?thesis by (simp only: filter_id_conv set_filter set_upto mem_Collect_eq atLeastAtMost_iff) blast
  qed
  moreover have "gaps a = filter (\<lambda>k. k \<notin> has a) [?f..?n - 1]"
    using gaps_split [OF assms(1) False] f lt by (simp add: upto_rec1 [of ?f "?n - 1"])
  ultimately show ?thesis by (simp add: missingSet_def lst_def has_iff)
qed

subsection \<open>Reading\<close>

text \<open>A list of blocks of which all but the last have the same length.\<close>

lemma drop_concat:
  assumes "0 < b" "\<forall>x \<in> set (butlast xs). length x = b" "xs \<noteq> [] \<longrightarrow> length (List.last xs) \<le> b" "i < length (concat xs)"
  shows "drop i (concat xs) = drop (i mod b) (xs ! (i div b)) @ concat (List.drop (Suc (i div b)) xs) \<and> i div b < length xs
    \<and> i mod b < length (xs ! (i div b))"
  using assms
proof (induction xs arbitrary: i)
  case (Cons x xs)
  show ?case
  proof (cases "i < length x")
    case True
    moreover have "length x \<le> b" using Cons.prems by (cases xs) auto
    ultimately show ?thesis by simp
  next
    case False
    then have ne: "xs \<noteq> []" using Cons.prems(4) by auto
    then have x: "length x = b" using Cons.prems(2) by simp
    have "drop (i - b) (concat xs) = drop ((i - b) mod b) (xs ! ((i - b) div b)) @ concat (List.drop (Suc ((i - b) div b)) xs)
        \<and> (i - b) div b < length xs \<and> (i - b) mod b < length (xs ! ((i - b) div b))"
      using Cons.prems ne x False by (intro Cons.IH) auto
    moreover have "i div b = Suc ((i - b) div b)" "i mod b = (i - b) mod b"
      using False x Cons.prems(1) by (auto simp: le_div_geq le_mod_geq)
    ultimately show ?thesis using x False by simp
  qed
qed simp

text \<open>What a complete assembly holds.\<close>

definition contents :: "Assembly \<Rightarrow> bytes" where
  "contents a = concat (map (\<lambda>k. the (map_of (as_blocks a) k)) [0..asm_count a - 1])"

definition reader_at :: "Assembly \<Rightarrow> nat \<Rightarrow> qSparseReader" where
  "reader_at a i = \<lparr>sr_blocks = as_blocks a, sr_size = as_bodySize a, sr_blockSize = blen a, sr_offset = int i\<rparr>"

lemma block_length:
  assumes "asm_inv a" "completeLocked a" "0 \<le> k" "k < asm_count a"
  shows "map_of (as_blocks a) k = Some (the (map_of (as_blocks a) k))" "int (length (the (map_of (as_blocks a) k))) = block_len a k"
  using assms complete_iff [OF assms(1)] has_iff [of k a] by (auto simp: asm_inv_def)

lemma contents_length:
  assumes "asm_inv a" "completeLocked a"
  shows "int (length (contents a)) = as_bodySize a"
proof -
  have "int (length (contents a)) = (\<Sum>k \<leftarrow> [0..asm_count a - 1]. int (length (the (map_of (as_blocks a) k))))"
    by (simp add: contents_def length_concat comp_def flip: sum_list_of_nat)
  also have "\<dots> = (\<Sum>k \<leftarrow> [0..asm_count a - 1]. block_len a k)"
    by (intro arg_cong [of _ _ sum_list] map_cong) (use block_length [OF assms] in auto)
  also have "\<dots> = (\<Sum>k \<in> {0..<asm_count a}. block_len a k)"
    by (subst sum_list_distinct_conv_sum_set) (auto intro: sum.cong)
  finally show ?thesis using sum_block_len [of a] assms(1) by (simp add: asm_inv_def)
qed

lemma contents_at:
  assumes "asm_inv a" "completeLocked a" "int i < as_bodySize a"
  shows "\<exists>block. map_of (as_blocks a) (int i div blen a) = Some block \<and> nat (int i mod blen a) < length block
    \<and> take (length block - nat (int i mod blen a)) (drop i (contents a)) = drop (nat (int i mod blen a)) block"
proof -
  have p: "params_ok a" using assms(1) by (simp add: asm_inv_def)
  have b: "0 < blen a" using blen_pos [OF p] by simp
  define xs where "xs = map (\<lambda>k. the (map_of (as_blocks a) k)) [0..asm_count a - 1]"
  have len: "int (length xs) = asm_count a" using count_eq(2) [OF p] by (simp add: xs_def)
  have nth: "xs ! j = the (map_of (as_blocks a) (int j))" if "int j < asm_count a" for j
    using that nth_upto [of 0 j "asm_count a - 1"] by (simp add: xs_def)
  have full: "\<forall>x \<in> set (butlast xs). length x = nat (blen a)"
  proof
    fix x assume "x \<in> set (butlast xs)"
    then obtain j where j: "j < length xs - 1" "x = xs ! j" by (auto simp: in_set_conv_nth nth_butlast)
    then have "int j < asm_count a - 1" using len by linarith
    then show "length x = nat (blen a)" using block_length(2) [OF assms(1,2), of "int j"] j nth [of j] by (simp add: block_len_def)
  qed
  have lst: "xs \<noteq> [] \<longrightarrow> length (List.last xs) \<le> nat (blen a)"
  proof
    assume "xs \<noteq> []"
    then have "List.last xs = the (map_of (as_blocks a) (asm_count a - 1))"
      using nth [of "length xs - 1"] len by (simp add: last_conv_nth of_nat_diff Suc_le_eq)
    then show "length (List.last xs) \<le> nat (blen a)"
      using block_length(2) [OF assms(1,2), of "asm_count a - 1"] count_eq(2) [OF p] block_len_nonneg [OF p, of "asm_count a - 1"] by simp
  qed
  have i: "i < length (concat xs)" using contents_length [OF assms(1,2)] assms(3) by (simp add: contents_def xs_def)
  have d: "nat (int i div blen a) = i div nat (blen a)" "nat (int i mod blen a) = i mod nat (blen a)"
    using b by (simp_all add: nat_div_distrib nat_mod_distrib)
  have nn: "0 \<le> int i div blen a" using b by (simp add: pos_imp_zdiv_nonneg_iff)
  note D = drop_concat [OF _ full lst i]
  have D1: "drop i (concat xs) = drop (nat (int i mod blen a)) (xs ! nat (int i div blen a)) @ concat (List.drop (Suc (i div nat (blen a))) xs)"
    "nat (int i div blen a) < length xs" "nat (int i mod blen a) < length (xs ! nat (int i div blen a))"
    using D b unfolding d by auto
  have k: "int i div blen a < asm_count a" using D1(2) len nn by linarith
  have blk: "map_of (as_blocks a) (int i div blen a) = Some (xs ! nat (int i div blen a))"
    using block_length(1) [OF assms(1,2) nn k] nth [of "nat (int i div blen a)"] nn k by simp
  have c: "contents a = concat xs" by (simp add: contents_def xs_def)
  show ?thesis using blk D1 c by (intro exI [of _ "xs ! nat (int i div blen a)"]) simp
qed

lemma sparse_loop_reads:
  assumes "asm_inv a" "completeLocked a"
  shows "sparse_loop n (reader_at a i) =
    Some (reader_at a (i + length (take n (drop i (contents a)))), take n (drop i (contents a)))"
proof (induction n arbitrary: i rule: less_induct)
  case (less n)
  note cl = contents_length [OF assms]
  show ?case
  proof (cases "n = 0 \<or> int i \<ge> as_bodySize a")
    case True
    then have "take n (drop i (contents a)) = []" using cl by auto
    then show ?thesis using True by (subst sparse_loop.simps) (auto simp: reader_at_def)
  next
    case False
    then obtain block where b: "map_of (as_blocks a) (int i div blen a) = Some block" "nat (int i mod blen a) < length block"
        "take (length block - nat (int i mod blen a)) (drop i (contents a)) = drop (nat (int i mod blen a)) block"
      using contents_at [OF assms, of i] by auto
    define c where "c = take n (drop (nat (int i mod blen a)) block)"
    define m where "m = length c"
    have c: "c = take m (drop i (contents a))" "m \<le> n" "c \<noteq> []"
    proof -
      have ck: "c = take (min n (length block - nat (int i mod blen a))) (drop i (contents a))" by (simp add: c_def b(3) [symmetric])
      show "c = take m (drop i (contents a))" unfolding m_def using ck by (auto simp: min_def)
      show "m \<le> n" by (simp add: m_def c_def)
      show "c \<noteq> []" using b(2) False by (simp add: c_def)
    qed
    have m: "0 < m" using c(3) by (simp add: m_def)
    have IH: "sparse_loop (n - m) (reader_at a (i + m)) =
        Some (reader_at a (i + m + length (take (n - m) (drop (i + m) (contents a)))), take (n - m) (drop (i + m) (contents a)))"
      using False m by (intro less.IH) simp
    have t: "take n (drop i (contents a)) = c @ take (n - m) (drop (i + m) (contents a))"
      using c(1,2) take_add [of m "n - m" "drop i (contents a)"] by (simp add: add.commute)
    have sel: "sr_offset (reader_at a i) = int i" "sr_size (reader_at a i) = as_bodySize a" "sr_blockSize (reader_at a i) = blen a"
      "sr_blocks (reader_at a i) = as_blocks a" by (simp_all add: reader_at_def)
    have r: "(reader_at a i)\<lparr>sr_offset := int i + int m\<rparr> = reader_at a (i + m)" by (simp add: reader_at_def)
    have "sparse_loop n (reader_at a i) = (case sparse_loop (n - m) (reader_at a (i + m)) of None \<Rightarrow> None | Some (r', p) \<Rightarrow> Some (r', c @ p))"
      by (subst sparse_loop.simps)
        (simp only: sel b(1) Let_def option.case c_def [symmetric] m_def [symmetric] r False c(3) if_False)
    then show ?thesis using IH t m_def by (simp add: add.assoc)
  qed
qed

subsection \<open>A transfer\<close>

definition block_of :: "bytes \<Rightarrow> int \<Rightarrow> int \<Rightarrow> bytes" where
  "block_of B b k = take (nat b) (drop (nat (k * b)) B)"

lemma concat_blocks: "concat (map (\<lambda>k. take b (drop (k * b) B)) [0..<n]) = take (n * b) B"
  by (induction n) (simp_all add: take_add [symmetric] add.commute)

lemma blocks_of_body:
  assumes "params_ok a" "as_bodySize a = int (length B)"
  shows "concat (map (block_of B (blen a)) [0..asm_count a - 1]) = B"
proof -
  have b: "0 < blen a" using blen_pos [OF assms(1)] by simp
  have "[0..asm_count a - 1] = map int [0..<nat (asm_count a)]"
    using count_eq(2) [OF assms(1)] by (intro nth_equalityI) (auto simp: nth_upto)
  moreover have "block_of B (blen a) (int k) = take (nat (blen a)) (drop (k * nat (blen a)) B)" for k
    using b by (simp add: block_of_def nat_mult_distrib)
  ultimately have "concat (map (block_of B (blen a)) [0..asm_count a - 1]) = take (nat (asm_count a) * nat (blen a)) B"
    using concat_blocks [of "nat (blen a)" B "nat (asm_count a)"] by (simp add: comp_def)
  moreover have "length B \<le> nat (asm_count a) * nat (blen a)"
  proof -
    have "as_bodySize a \<le> asm_count a * blen a" using last_block(2) [OF assms(1)] by (simp add: algebra_simps)
    then show ?thesis using assms(2) b count_eq(2) [OF assms(1)] by (simp add: nat_mult_distrib [symmetric] nat_le_iff le_nat_iff)
  qed
  ultimately show ?thesis by simp
qed

text \<open>A sender of the body gives every block once and for all, and refuses the other numbers.\<close>

definition sends :: "bytes \<Rightarrow> Assembly \<Rightarrow> Sender \<Rightarrow> bool" where
  "sends B a s \<longleftrightarrow> rd_data (sn_body s) = B \<and> sn_szx s = as_szx a \<and> sn_bodySize s = int (length B) \<and> as_bodySize a = int (length B)"

lemma Sender_Block_eq:
  assumes "params_ok a" "sends B a s"
  shows "\<exists>s'. sends B a s' \<and> Sender_Block k s =
    (s', if 0 \<le> k \<and> k < asm_count a then Inr (block_of B (blen a) k, k < asm_count a - 1) else Inl ErrQBlockInvalidNUM)"
proof -
  have b: "0 < blen a" using blen_pos [OF assms(1)] by simp
  have s: "rd_data (sn_body s) = B" "SZX_Size (sn_szx s) = blen a" "sn_bodySize s = as_bodySize a" "as_bodySize a = int (length B)"
    using assms(2) by (simp_all add: sends_def blen_def)
  have max: "asm_count a - 1 \<le> qBlockMaxNUM" using assms(1) by (simp add: params_ok_def)
  show ?thesis
  proof (cases "0 \<le> k \<and> k < asm_count a")
    case False
    have "asm_count a * blen a \<ge> as_bodySize a" using last_block(2) [OF assms(1)] by (simp add: algebra_simps)
    moreover have "asm_count a * blen a \<le> k * blen a" if "0 \<le> k" using False that b by (intro mult_right_mono) auto
    ultimately have "k < 0 \<or> k > qBlockMaxNUM \<or> k * blen a > as_bodySize a \<or> k * blen a = as_bodySize a \<and> as_bodySize a \<noteq> 0"
      using b False count_eq(2) [OF assms(1)] by (smt (verit) mult_pos_pos)
    then have "Sender_Block k s = (s, Inl ErrQBlockInvalidNUM)" unfolding Sender_Block_def s(2,3) by auto
    then show ?thesis using False assms(2) by auto
  next
    case True
    have o: "0 \<le> k * blen a" using True b by simp
    have fit: "k * blen a < as_bodySize a \<or> as_bodySize a = 0 \<and> k = 0"
    proof (cases "k = asm_count a - 1")
      case lst: True
      have "as_bodySize a = 0 \<Longrightarrow> k = 0" using count_eq(1) [OF assms(1)] lst by simp
      then show ?thesis using last_block(3) [OF assms(1)] lst by auto
    next
      case inner: False
      then have "(k + 1) * blen a < as_bodySize a" using full_blocks [OF assms(1), of k] True by simp
      moreover have "(k + 1) * blen a = k * blen a + blen a" by (simp add: algebra_simps)
      ultimately show ?thesis using b by linarith
    qed
    define len where "len = (if as_bodySize a - k * blen a < blen a then as_bodySize a - k * blen a else blen a)"
    have len: "0 \<le> len" using fit b by (auto simp: len_def)
    have blk: "take (nat len) (drop (nat (k * blen a)) B) = block_of B (blen a) k" "length (block_of B (blen a) k) = nat len"
      using o b s(4) by (auto simp: block_of_def len_def)
    have mor: "(k * blen a + len < as_bodySize a) = (k < asm_count a - 1)"
    proof (cases "k = asm_count a - 1")
      case lst: True
      then show ?thesis using last_block [OF assms(1)] by (simp add: len_def)
    next
      case inner: False
      then have "(k + 1) * blen a < as_bodySize a" using full_blocks [OF assms(1), of k] True by simp
      moreover have "(k + 1) * blen a = k * blen a + blen a" by (simp add: algebra_simps)
      ultimately show ?thesis using True inner by (simp add: len_def)
    qed
    define s' where "s' = s\<lparr>sn_body := (sn_body s)\<lparr>rd_pos := nat (k * blen a) + nat len\<rparr>\<rparr>"
    have "Sender_Block k s = (s', Inr (block_of B (blen a) k, k < asm_count a - 1))"
      unfolding Sender_Block_def s(2,3) len_def [symmetric] Let_def
      using True max fit o blk len mor by (auto simp: reader_Seek_def reader_ReadFull_def reader_rest_def s(1) s'_def Let_def)
    moreover have "sends B a s'" using assms(2) by (simp add: sends_def s'_def)
    ultimately show ?thesis using True by auto
  qed
qed

text \<open>
  One block on its way: the sender reads it and encodes its option, the assembly gets both.  A transfer is any
  sequence of block numbers: blocks come in any order, several times or not at all.
\<close>

definition exchange :: "int \<Rightarrow> Sender \<times> Assembly \<Rightarrow> Sender \<times> Assembly" where
  "exchange k sa =
     (case Sender_Block k (fst sa) of
        (s', Inl _) \<Rightarrow> (s', snd sa)
      | (s', Inr (payload, mor)) \<Rightarrow>
          (case EncodeQBlockOption (sn_szx (fst sa)) k mor of
             Inl _ \<Rightarrow> (s', snd sa)
           | Inr v \<Rightarrow> (s', fst (AddOption v payload (snd sa)))))"

definition holds_of :: "bytes \<Rightarrow> Assembly \<Rightarrow> bool" where
  "holds_of B a \<longleftrightarrow> (\<forall>k p. map_of (as_blocks a) k = Some p \<longrightarrow> p = block_of B (blen a) k)"

lemma block_of_len:
  assumes "params_ok a" "as_bodySize a = int (length B)" "0 \<le> k" "k < asm_count a"
  shows "int (length (block_of B (blen a) k)) = block_len a k"
proof -
  have b: "0 < blen a" "0 \<le> k * blen a" using blen_pos [OF assms(1)] assms(3) by simp_all
  show ?thesis
  proof (cases "k = asm_count a - 1")
    case True
    then show ?thesis using last_block [OF assms(1)] assms(2) b by (simp add: block_of_def block_len_def)
  next
    case False
    then have "(k + 1) * blen a < as_bodySize a" using full_blocks [OF assms(1,3)] assms(4) by simp
    moreover have "(k + 1) * blen a = k * blen a + blen a" by (simp add: algebra_simps)
    ultimately show ?thesis using False assms(2) b by (simp add: block_of_def block_len_def)
  qed
qed

lemma exchange_eq:
  assumes "asm_inv a" "sends B a s" "holds_of B a"
  shows "\<exists>s' a'. exchange k (s, a) = (s', a') \<and> asm_inv a' \<and> sends B a' s' \<and> holds_of B a' \<and> asm_count a' = asm_count a
    \<and> has a' = has a \<union> ({k} \<inter> {0..<asm_count a})"
proof -
  have p: "params_ok a" using assms(1) by (simp add: asm_inv_def)
  obtain s' where s': "sends B a s'" "Sender_Block k s =
      (s', if 0 \<le> k \<and> k < asm_count a then Inr (block_of B (blen a) k, k < asm_count a - 1) else Inl ErrQBlockInvalidNUM)"
    using Sender_Block_eq [OF p assms(2), of k] by blast
  show ?thesis
  proof (cases "0 \<le> k \<and> k < asm_count a")
    case False
    then have "Sender_Block k s = (s', Inl ErrQBlockInvalidNUM)" using s'(2) by auto
    then have "exchange k (s, a) = (s', a)" by (simp add: exchange_def)
    then show ?thesis using assms(1,3) s'(1) False by auto
  next
    case True
    let ?p = "block_of B (blen a) k" and ?m = "k < asm_count a - 1"
    have szx: "sn_szx s = as_szx a" "as_bodySize a = int (length B)" using assms(2) by (simp_all add: sends_def)
    have "as_szx a \<le> 6" "k \<le> qBlockMaxNUM" using p True by (simp_all add: params_ok_def)
    then have "\<not> as_szx a > 6" "\<not> (k < 0 \<or> k > maxQBlockNumber)" using True by (auto simp: maxQBlockNumber_def qBlockMaxNUM_def)
    then obtain v where v: "EncodeQBlockOption (as_szx a) k ?m = Inr v"
      by (simp only: EncodeQBlockOption_def if_False Let_def)
    then have dec: "DecodeQBlockOption v = Inr (as_szx a, k, ?m)" by (simp add: qblock_option_exact)
    have "Sender_Block k s = (s', Inr (?p, ?m))" using s'(2) True by auto
    then have ex: "exchange k (s, a) = (s', fst (Assembly_Add k ?m ?p a))"
      using v dec by (simp add: exchange_def szx AddOption_def)
    show ?thesis
    proof (cases "k \<in> has a")
      case old: True
      then have "fst (Assembly_Add k ?m ?p a) = a" using Add_eq(1) [OF assms(1), of k ?m ?p] by simp
      then show ?thesis using ex assms(1,3) s'(1) old by auto
    next
      case new: False
      have fit: "fits k ?m ?p a" using True block_of_len [OF p szx(2)] by (simp add: fits_def)
      then have "fst (Assembly_Add k ?m ?p a) = added k ?p a" using Add_eq(1) [OF assms(1), of k ?m ?p] new by simp
      moreover have "sends B (added k ?p a) s'" using s'(1) by (simp add: sends_def added_def)
      moreover have "holds_of B (added k ?p a)" using assms(3) by (auto simp: holds_of_def added_def update_conv' blen_def)
      ultimately show ?thesis using ex added_inv [OF assms(1) new fit] added_has [of k ?p a] True by auto
    qed
  qed
qed

lemma transfer_eq:
  assumes "asm_inv a" "sends B a s" "holds_of B a"
  shows "\<exists>s' a'. fold exchange ks (s, a) = (s', a') \<and> asm_inv a' \<and> sends B a' s' \<and> holds_of B a' \<and> asm_count a' = asm_count a
    \<and> has a' = has a \<union> (set ks \<inter> {0..<asm_count a})"
  using assms
proof (induction ks arbitrary: s a)
  case (Cons k ks)
  obtain s1 a1 where 1: "exchange k (s, a) = (s1, a1)" "asm_inv a1" "sends B a1 s1" "holds_of B a1" "asm_count a1 = asm_count a"
      "has a1 = has a \<union> ({k} \<inter> {0..<asm_count a})"
    using exchange_eq [OF Cons.prems, of k] by blast
  obtain s2 a2 where 2: "fold exchange ks (s1, a1) = (s2, a2)" "asm_inv a2" "sends B a2 s2" "holds_of B a2" "asm_count a2 = asm_count a1"
      "has a2 = has a1 \<union> (set ks \<inter> {0..<asm_count a1})"
    using Cons.IH [OF 1(2-4)] by blast
  have "has a2 = has a \<union> (set (k # ks) \<inter> {0..<asm_count a})" using 1(5,6) 2(6) by auto
  then show ?case using 1(1,5) 2 by simp
qed simp

lemma complete_contents:
  assumes "asm_inv a" "completeLocked a" "holds_of B a" "as_bodySize a = int (length B)"
  shows "contents a = B"
proof -
  have p: "params_ok a" using assms(1) by (simp add: asm_inv_def)
  have m: "map (\<lambda>k. the (map_of (as_blocks a) k)) [0..asm_count a - 1] = map (block_of B (blen a)) [0..asm_count a - 1]"
    using block_length(1) [OF assms(1,2)] assms(3) by (intro map_cong) (auto simp: holds_of_def)
  show ?thesis unfolding contents_def m by (rule blocks_of_body [OF p assms(4)])
qed

subsection \<open>Properties\<close>

text \<open>
  C6. A body sent in blocks arrives: whatever blocks a transfer brings, in any order and with repetitions, the
  assembly knows exactly which ones are missing; when none is, reading it gives the body of the sender and then the
  end, and before that it gives nothing.
\<close>

theorem assembly_delivers:
  assumes "NewSender (Some (NewReader B)) szx (int (length B)) = Inr s"
    "NewAssembly szx (int (length B)) maxBody maxBlocks = Inr a"
  shows "\<exists>s' a'. fold exchange ks (s, a) = (s', a')
    \<and> Assembly_Missing a' = Some (map word_of_int (filter (\<lambda>k. k \<notin> set ks) [0..asm_count a - 1]))
    \<and> (if {0..<asm_count a} \<subseteq> set ks
       then \<exists>r r'. ReadSeeker a' = Inr r \<and> sparse_Read (length B) r = Some (r', Inr B) \<and> sparse_Read 1 r' = Some (r', Inl io_EOF)
       else ReadSeeker a' = Inl ErrQBlockIncomplete)"
proof -
  note N = NewAssembly_inv [OF assms(2)]
  have "sends B a s" using assms(1) N(3,4) by (auto simp: NewSender_def sends_def NewReader_def Let_def split: if_splits)
  moreover have "holds_of B a" using N(2) has_iff [of _ a] by (force simp: holds_of_def)
  ultimately obtain s' a' where T: "fold exchange ks (s, a) = (s', a')" "asm_inv a'" "sends B a' s'" "holds_of B a'"
      "asm_count a' = asm_count a" "has a' = has a \<union> (set ks \<inter> {0..<asm_count a})"
    using transfer_eq [OF N(1)] by blast
  have h: "has a' = set ks \<inter> {0..<asm_count a}" using T(6) N(2) by simp
  have "gaps a' = filter (\<lambda>k. k \<notin> set ks) [0..asm_count a - 1]"
    unfolding gaps_def T(5) h by (rule filter_cong) auto
  then have m: "Assembly_Missing a' = Some (map word_of_int (filter (\<lambda>k. k \<notin> set ks) [0..asm_count a - 1]))"
    using Missing_eq [OF T(2)] by simp
  have c: "completeLocked a' \<longleftrightarrow> {0..<asm_count a} \<subseteq> set ks" unfolding complete_iff [OF T(2)] h T(5) by blast
  have "\<exists>r r'. ReadSeeker a' = Inr r \<and> sparse_Read (length B) r = Some (r', Inr B) \<and> sparse_Read 1 r' = Some (r', Inl io_EOF)"
    if "completeLocked a'"
  proof -
    have len: "as_bodySize a' = int (length B)" using T(3) by (simp add: sends_def)
    have "sparse_loop (length B) (reader_at a' 0) = Some (reader_at a' (length B), B)"
      using sparse_loop_reads [OF T(2) that, of "length B" 0] complete_contents [OF T(2) that T(4) len] by simp
    moreover have "ReadSeeker a' = Inr (reader_at a' 0)" using that by (simp add: ReadSeeker_def reader_at_def blen_def)
    ultimately show ?thesis using len
      by (intro exI [of _ "reader_at a' 0"] exI [of _ "reader_at a' (length B)"])
        (auto simp: sparse_Read_def reader_at_def)
  qed
  then show ?thesis using T(1) m c by (auto simp: ReadSeeker_def)
qed

theorem assembly_delivers_witness:
  "\<exists>s a s' a'. NewSender (Some (NewReader (replicate 40 7))) 0 40 = Inr s \<and> NewAssembly 0 40 1000 10 = Inr a
    \<and> fold exchange [2, 0, 2, 1] (s, a) = (s', a') \<and> Assembly_Missing a' = Some []
    \<and> (\<exists>r r'. ReadSeeker a' = Inr r \<and> sparse_Read 40 r = Some (r', Inr (replicate 40 7)))"
proof -
  obtain s where s: "NewSender (Some (NewReader (replicate 40 7))) 0 40 = Inr s"
    by (simp add: NewSender_def SZX_Size_def qBlockMaxNUM_def)
  obtain a where a: "NewAssembly 0 40 1000 10 = Inr a" "asm_count a = 3"
    by (simp add: NewAssembly_def SZX_Size_def qBlockMaxNUM_def asm_count_def)
  have "{0..<3} \<subseteq> set [2, 0, 2, 1 :: int]" by auto
  then show ?thesis
    using assembly_delivers [of "replicate 40 7" 0 s 1000 10 a "[2, 0, 2, 1]"] s a by (auto simp: upto_rec1)
qed

text \<open>
  C18. Whatever is added to an assembly, wrong numbers, sizes and flags included, it stays within its limits and its
  three views of the gaps agree: all missing blocks, the first one, and those of the earliest incomplete set of
  \<open>m\<close> blocks.
\<close>

theorem assembly_gaps_exact:
  assumes "NewAssembly szx n maxBody maxBlocks = Inr a" "0 < m"
  shows "let a' = fold (\<lambda>(num, mor, payload) a. fst (Assembly_Add num mor payload a)) adds a;
             missing = filter (\<lambda>k. map_of (as_blocks a') k = None) [0..asm_count a - 1]
         in int (length (as_blocks a')) \<le> maxBlocks \<and> as_receivedSize a' \<le> n
          \<and> Assembly_Missing a' = Some (map word_of_int missing)
          \<and> FirstMissing a' = (if missing = [] then (asm_count a, False) else (hd missing, True))
          \<and> missingSet m a' = map word_of_int (filter (\<lambda>k. k div m = hd missing div m) missing)
          \<and> (completeLocked a' \<longleftrightarrow> missing = [])"
proof -
  define a' where "a' = fold (\<lambda>(num, mor, payload) a. fst (Assembly_Add num mor payload a)) adds a"
  have "asm_inv a' \<and> as_maxBlocks a' = maxBlocks \<and> as_bodySize a' = n \<and> asm_count a' = asm_count a" (is "?P a'")
  proof -
    have "?P b \<Longrightarrow> ?P (fold (\<lambda>(num, mor, payload) a. fst (Assembly_Add num mor payload a)) adds b)" for b
      by (induction adds arbitrary: b) (simp_all add: Add_inv Add_keeps split_beta)
    moreover have "as_maxBlocks a = maxBlocks" using assms(1) by (auto simp: NewAssembly_def Let_def split: if_splits)
    ultimately show ?thesis unfolding a'_def using NewAssembly_inv [OF assms(1)] by blast
  qed
  then have I: "asm_inv a'" "as_maxBlocks a' = maxBlocks" "as_bodySize a' = n" "asm_count a' = asm_count a" by auto
  have p: "params_ok a'" and sub: "has a' \<subseteq> {0..<asm_count a'}" and rs: "as_receivedSize a' = (\<Sum>k \<in> has a'. block_len a' k)"
    using I(1) by (auto simp: asm_inv_def)
  have g: "gaps a' = filter (\<lambda>k. map_of (as_blocks a') k = None) [0..asm_count a - 1]"
    by (simp add: gaps_def has_iff I(4))
  have "card (has a') \<le> card {0..<asm_count a'}" using sub by (intro card_mono) auto
  then have "int (card (has a')) \<le> asm_count a'" using count_eq(2) [OF p] by (simp add: le_nat_iff)
  moreover have "asm_count a' \<le> maxBlocks" using p I(2) by (simp add: params_ok_def)
  ultimately have "int (length (as_blocks a')) \<le> maxBlocks" using card_has [OF I(1)] by simp
  moreover have "as_receivedSize a' \<le> n"
    unfolding rs using sum_mono2 [OF _ sub, of "block_len a'"] block_len_nonneg [OF p] sum_block_len [OF p] I(3) by simp
  moreover have "FirstMissing a' = (if gaps a' = [] then (asm_count a, False) else (hd (gaps a'), True))"
    using FirstMissing_eq [OF I(1)] gaps_empty_iff [OF I(1)] gaps_split [OF I(1)] first_missing(2) [OF I(1)] I(4) by auto
  moreover have "missingSet m a' = map word_of_int (filter (\<lambda>k. k div m = hd (gaps a') div m) (gaps a'))"
    using missingSet_eq [OF I(1) assms(2)] gaps_empty_iff [OF I(1)] gaps_split [OF I(1)] by (cases "completeLocked a'") auto
  ultimately show ?thesis
    using Missing_eq [OF I(1)] gaps_empty_iff [OF I(1)] unfolding a'_def [symmetric] Let_def g [symmetric] by blast
qed

theorem assembly_gaps_exact_witness:
  "\<exists>a. NewAssembly 0 40 1000 10 = Inr a \<and>
    Assembly_Missing (fold (\<lambda>(num, mor, payload) a. fst (Assembly_Add num mor payload a))
      [(1, True, replicate 16 7), (9, True, []), (2, True, replicate 8 7)] a) = Some [0, 2]"
proof -
  define a where "a = \<lparr>as_szx = 0, as_bodySize = 40, as_maxBodySize = 1000, as_maxBlocks = 10, as_blocks = [],
    as_finalBlock = -1, as_receivedSize = 0, as_firstMissing = 0\<rparr>"
  have a: "NewAssembly 0 40 1000 10 = Inr a" by (simp add: NewAssembly_def SZX_Size_def qBlockMaxNUM_def a_def)
  have "as_blocks (fold (\<lambda>(num, mor, payload) a. fst (Assembly_Add num mor payload a))
      [(1, True, replicate 16 7), (9, True, []), (2, True, replicate 8 7)] a) = [(1, replicate 16 7)]"
    unfolding a_def by code_simp
  then show ?thesis
    using assembly_gaps_exact [OF a, of 10 "[(1, True, replicate 16 7), (9, True, []), (2, True, replicate 8 7)]"] a
    by (simp add: Let_def a_def asm_count_def SZX_Size_def upto_rec1)
qed

end
