(* ===== verification/Response_Writer.thy ===== *)
theory Response_Writer
  imports Pool_Message
begin

text \<open>
  The writer a handler fills in its response with, \<open>net/responsewriter\<close>, and the option by which a client
  says which responses it does not want, \<open>message/noresponse\<close>.
\<close>

subsection \<open>No-Response\<close>

definition resp2XXCodes :: "u16 list" where
  "resp2XXCodes = [codes_Created, codes_Deleted, codes_Valid, codes_Changed, codes_Content]"

definition resp4XXCodes :: "u16 list" where
  "resp4XXCodes =
     [codes_BadRequest, codes_Unauthorized, codes_BadOption, codes_Forbidden, codes_NotFound, codes_MethodNotAllowed,
      codes_NotAcceptable, codes_PreconditionFailed, codes_RequestEntityTooLarge, codes_UnsupportedMediaType]"

definition resp5XXCodes :: "u16 list" where
  "resp5XXCodes =
     [codes_InternalServerError, codes_NotImplemented, codes_BadGateway, codes_ServiceUnavailable, codes_GatewayTimeout,
      codes_ProxyingNotSupported]"

definition noResponseValueMap :: "(u32 \<times> u16 list) list" where
  "noResponseValueMap = [(2, resp2XXCodes), (8, resp4XXCodes), (16, resp5XXCodes)]"

definition isSet :: "u32 \<Rightarrow> nat \<Rightarrow> bool" where
  "isSet n pos \<longleftrightarrow> n AND push_bit pos 1 > 0"

definition decodeNoResponseOption :: "u32 \<Rightarrow> u16 list" where
  "decodeNoResponseOption v =
     (if v = 0 then []
      else concat (map (\<lambda>i. if isSet v i
                            then (case map_of noResponseValueMap (push_bit i 1) of None \<Rightarrow> [] | Some cs \<Rightarrow> cs)
                            else []) [0..<5]))"

definition IsNoResponseCode :: "u16 \<Rightarrow> u32 \<Rightarrow> go_error option" where
  "IsNoResponseCode code noRespValue =
     (if code \<in> set (decodeNoResponseOption noRespValue) then Some ErrMessageNotInterested else None)"

subsection \<open>The writer\<close>

record 'cm ResponseWriter =
  noResponseValue :: "u32 option"
  response :: "'cm PMessage"

definition rw_New :: "'cm PMessage \<Rightarrow> Options \<Rightarrow> 'cm ResponseWriter" where
  "rw_New resp requestOptions =
     \<lparr>noResponseValue =
        (if length requestOptions > 0
         then (let (v, err) = Options_GetUint32 requestOptions NoResponse in if err = None then Some v else None)
         else None),
      response = resp\<rparr>"

definition SetResponse :: "u16 \<Rightarrow> u16 \<Rightarrow> reader option \<Rightarrow> Options \<Rightarrow> 'cm ResponseWriter \<Rightarrow> ('cm ResponseWriter \<times> go_error option) option" where
  "SetResponse code contentFormat d opts w =
     (case (case noResponseValue w of None \<Rightarrow> None | Some v \<Rightarrow> IsNoResponseCode code v) of
        Some err \<Rightarrow> Some (w, Some err)
      | None \<Rightarrow>
          (case PM_ResetOptionsTo opts (PM_SetCode code (response w)) of
             None \<Rightarrow> None
           | Some m1 \<Rightarrow>
               (case d of
                  None \<Rightarrow> Some (w\<lparr>response := m1\<rparr>, None)
                | Some _ \<Rightarrow>
                    (case PM_SetContentFormat contentFormat m1 of
                       None \<Rightarrow> None
                     | Some m2 \<Rightarrow> Some (w\<lparr>response := PM_SetBody d m2\<rparr>, None)))))"

definition Swap :: "'cm PMessage \<Rightarrow> 'cm ResponseWriter \<Rightarrow> 'cm PMessage \<times> 'cm ResponseWriter" where
  "Swap m w = (response w, w\<lparr>response := m\<rparr>)"

text \<open>\<open>SetMessage\<close>, with the message it releases.\<close>

definition rw_SetMessage :: "'cm PMessage \<Rightarrow> 'cm ResponseWriter \<Rightarrow> 'cm ResponseWriter \<times> 'cm PMessage" where
  "rw_SetMessage m w = (w\<lparr>response := m\<rparr>, response w)"

subsection \<open>Callbacks after the write\<close>

text \<open>
  The callbacks a context carries; what runs is in the log \<open>ran\<close>.  The code runs them outside the lock, one
  after the other.
\<close>

record 'f postWriteCallbacks =
  callbacks :: "'f list"
  complete :: bool
  ran :: "'f list"

definition WithPostWriteCallbacks :: "'f postWriteCallbacks" where
  "WithPostWriteCallbacks = \<lparr>callbacks = [], complete = False, ran = []\<rparr>"

definition afterWrite :: "'f postWriteCallbacks \<Rightarrow> 'f postWriteCallbacks" where
  "afterWrite cb = cb\<lparr>complete := True, callbacks := [], ran := ran cb @ callbacks cb\<rparr>"

definition AfterWrite :: "'f \<Rightarrow> 'f postWriteCallbacks option \<Rightarrow> 'f postWriteCallbacks option \<times> bool" where
  "AfterWrite callback ctx =
     (case ctx of
        None \<Rightarrow> (None, False)
      | Some cb \<Rightarrow>
          if complete cb then (Some (cb\<lparr>ran := ran cb @ [callback]\<rparr>), True)
          else (Some (cb\<lparr>callbacks := callbacks cb @ [callback]\<rparr>), True))"

subsection \<open>What is suppressed\<close>

lemma isSet_bit:
  assumes "pos < 32"
  shows "isSet n pos = bit n pos"
proof -
  have m: "n AND push_bit pos 1 = (if bit n pos then push_bit pos 1 else 0)"
    by (rule bit_word_eqI) (auto simp: bit_simps assms)
  have "bit (push_bit pos 1 :: u32) pos" using assms by (simp add: bit_simps)
  then have "(push_bit pos 1 :: u32) \<noteq> 0" by (metis bit_0_eq bot_apply bot_bool_def)
  then have "(0 :: u32) < push_bit pos 1" by (simp only: word_neq_0_conv)
  with m show ?thesis by (simp add: isSet_def del: push_bit_of_1)
qed

lemma decodeNoResponse_set:
  "set (decodeNoResponseOption v) =
     (if bit v 1 then set resp2XXCodes else {}) \<union> (if bit v 3 then set resp4XXCodes else {}) \<union>
     (if bit v 4 then set resp5XXCodes else {})"
proof -
  have l: "[0..<5] = [0, 1, 2, 3, 4 :: nat]" by (simp add: upt_rec)
  have z: "\<not> bit v i" if "v = 0" for i using that by (simp only: bit_0_eq bot_apply bot_bool_def not_False_eq_True)
  show ?thesis
  proof (cases "v = 0")
    case True
    show ?thesis unfolding decodeNoResponseOption_def if_P [OF True] if_not_P [OF z [OF True]] by simp
  next
    case False
    have p: "push_bit 0 1 = (1 :: u32)" "push_bit 1 1 = (2 :: u32)" "push_bit 2 1 = (4 :: u32)" "push_bit 3 1 = (8 :: u32)" "push_bit 4 1 = (16 :: u32)"
      by simp_all
    have i: "isSet v 0 = bit v 0" "isSet v 1 = bit v 1" "isSet v 2 = bit v 2" "isSet v 3 = bit v 3" "isSet v 4 = bit v 4"
      by (rule isSet_bit, simp)+
    have m: "map_of noResponseValueMap 1 = None" "map_of noResponseValueMap 2 = Some resp2XXCodes" "map_of noResponseValueMap 4 = None"
      "map_of noResponseValueMap 8 = Some resp4XXCodes" "map_of noResponseValueMap 16 = Some resp5XXCodes"
      by (simp_all add: noResponseValueMap_def)
    have "set (concat [if b0 then [] else [], if b1 then xs else [], if b2 then [] else [], if b3 then ys else [], if b4 then zs else []]) =
       (if b1 then set xs else {}) \<union> (if b3 then set ys else {}) \<union> (if b4 then set zs else {})" for b0 b1 b2 b3 b4 and xs ys zs :: "u16 list"
      by auto
    then show ?thesis unfolding decodeNoResponseOption_def if_not_P [OF False] l list.map p i m option.case by simp
  qed
qed

lemma PM_ResetOptionsTo_modified:
  "PM_ResetOptionsTo os r = Some r' \<Longrightarrow> isModified r \<Longrightarrow> isModified r'"
  unfolding PM_ResetOptionsTo_def Let_def by (auto split: prod.splits sum.splits)

text \<open>
  C28. \<open>SetResponse\<close> on a writer made for a request: when the request has the option No-Response with the bit
  for the class of the code set and the code is one of the list of that class, the response stays as it was
  (and unmodified, so that nothing is sent) and the error says so; otherwise the response gets the code, the options and the body, with the
  content format among its options.
\<close>

theorem SetResponse_correct:
  assumes "opts_sorted opts"
  shows "let w = rw_New resp reqOpts;
             suppressed = (\<exists>v. Options_GetUint32 reqOpts NoResponse = (v, None) \<and> reqOpts \<noteq> [] \<and>
               (bit v 1 \<and> code \<in> set resp2XXCodes \<or> bit v 3 \<and> code \<in> set resp4XXCodes \<or> bit v 4 \<and> code \<in> set resp5XXCodes))
         in if suppressed then SetResponse code contentFormat d opts w = Some (w, Some ErrMessageNotInterested)
            else (\<exists>w'. SetResponse code contentFormat d opts w = Some (w', None)
                   \<and> Code (msg (response w')) = code \<and> isModified (response w') \<and> opts_inv (response w')
                   \<and> Token (msg (response w')) = Token (msg resp)
                   \<and> vals (opts_of (response w')) =
                        (if d = None then vals opts else (vals opts)(ContentFormat := [uint_wire (ucast contentFormat)]))
                   \<and> body (response w') = (if d = None then body resp else d))"
proof -
  let ?w = "rw_New resp reqOpts"
  let ?supp = "\<exists>v. Options_GetUint32 reqOpts NoResponse = (v, None) \<and> reqOpts \<noteq> [] \<and>
               (bit v 1 \<and> code \<in> set resp2XXCodes \<or> bit v 3 \<and> code \<in> set resp4XXCodes \<or> bit v 4 \<and> code \<in> set resp5XXCodes)"
  have nr: "(case noResponseValue ?w of None \<Rightarrow> None | Some v \<Rightarrow> IsNoResponseCode code v) = (if ?supp then Some ErrMessageNotInterested else None)"
    by (cases "Options_GetUint32 reqOpts NoResponse") (auto simp: rw_New_def IsNoResponseCode_def decodeNoResponse_set)
  obtain buf b where R: "PM_ResetOptionsTo opts (PM_SetCode code resp) = Some ((set_options opts (PM_SetCode code resp))\<lparr>valueBuffer := buf, isModified := b\<rparr>)"
    using PM_ResetOptionsTo_eq [OF assms] by blast
  define m where "m = (set_options opts (PM_SetCode code resp))\<lparr>valueBuffer := buf, isModified := b\<rparr>"
  have R': "PM_ResetOptionsTo opts (PM_SetCode code (response ?w)) = Some m" using R by (simp add: m_def rw_New_def)
  have b using PM_ResetOptionsTo_modified [OF R] by (simp add: PM_SetCode_def)
  then have m: "Code (msg m) = code" "isModified m" "opts_of m = opts" "Token (msg m) = Token (msg resp)" "body m = body resp"
    by (simp_all add: m_def set_options_def PM_SetCode_def)
  obtain buf2 where C: "PM_SetContentFormat contentFormat m =
      Some ((set_options (opt_put opts ContentFormat (uint_wire (ucast contentFormat))) m)\<lparr>valueBuffer := buf2, isModified := True\<rparr>)"
    using PM_SetOptionUint32_eq [of ContentFormat "ucast contentFormat" m] m(3) by (auto simp: PM_SetContentFormat_def)
  have put: "vals (opt_put opts ContentFormat x) = (vals opts)(ContentFormat := [x])" "opts_sorted (opt_put opts ContentFormat x)" for x
    using vals_Set [OF assms] opts_sorted_Set [OF assms] by auto
  show ?thesis
  proof (cases ?supp)
    case True
    then show ?thesis unfolding Let_def if_P [OF True] SetResponse_def nr by simp
  next
    case False
    show ?thesis
    proof (cases d)
      case None
      then show ?thesis unfolding Let_def if_not_P [OF False] SetResponse_def nr R' using m assms by simp
    next
      case (Some d')
      then show ?thesis unfolding Let_def if_not_P [OF False] SetResponse_def nr R' using m put
        by (simp add: C set_options_def PM_SetBody_def)
    qed
  qed
qed


text \<open>A client not interested in responses of the class 4.xx: 4.04 is not written, 2.05 is; 4.08 is not on the list.\<close>

definition not_4xx :: Options where
  "not_4xx = [\<lparr>ID = NoResponse, Value = [8]\<rparr>]"

lemma not_4xx_value: "Options_GetUint32 not_4xx NoResponse = (8, None)"
  unfolding not_4xx_def by code_simp

theorem SetResponse_correct_witness:
  "opts_sorted [] \<and>
   SetResponse codes_NotFound TextPlain None [] (rw_New (NewMessage :: unit PMessage) not_4xx) =
     Some (rw_New NewMessage not_4xx, Some ErrMessageNotInterested) \<and>
   (\<exists>w'. SetResponse codes_RequestEntityIncomplete TextPlain None [] (rw_New (NewMessage :: unit PMessage) not_4xx) = Some (w', None)
      \<and> Code (msg (response w')) = codes_RequestEntityIncomplete)"
proof -
  have s: "opts_sorted []" by (simp add: opts_sorted_def)
  have n: "\<not> bit (8 :: u32) 1" "bit (8 :: u32) 3" "\<not> bit (8 :: u32) 4" by simp_all
  have ne: "not_4xx \<noteq> []" by (simp add: not_4xx_def)
  have c: "codes_NotFound \<in> set resp4XXCodes" "codes_RequestEntityIncomplete \<notin> set resp4XXCodes" by (simp_all add: resp4XXCodes_def)
  note T = SetResponse_correct [OF s, of "NewMessage :: unit PMessage" not_4xx _ TextPlain None, unfolded Let_def not_4xx_value, simplified n ne]
  show ?thesis using s T [of codes_NotFound] T [of codes_RequestEntityIncomplete] c by (auto simp: n ne)
qed

subsection \<open>Every callback runs\<close>

definition callback_step :: "'f option \<Rightarrow> 'f postWriteCallbacks \<Rightarrow> 'f postWriteCallbacks" where
  "callback_step x cb = (case x of None \<Rightarrow> afterWrite cb | Some f \<Rightarrow> the (fst (AfterWrite f (Some cb))))"

lemma callback_steps:
  fixes ops :: "'f option list"
  assumes "complete cb \<Longrightarrow> callbacks cb = []"
  shows "let cb' = fold callback_step ops cb in
      ran cb' @ callbacks cb' = ran cb @ callbacks cb @ List.map_filter (\<lambda>x. x) ops
      \<and> complete cb' = (complete cb \<or> None \<in> set ops)
      \<and> (if complete cb' then callbacks cb' = [] else ran cb' = ran cb)"
  using assms
proof (induction ops arbitrary: cb)
  case (Cons x ops)
  have "complete (callback_step x cb) \<Longrightarrow> callbacks (callback_step x cb) = []"
    using Cons.prems by (cases x) (auto simp: callback_step_def afterWrite_def AfterWrite_def split: if_splits)
  from Cons.IH [OF this] show ?case using Cons.prems
    by (cases x) (auto simp: callback_step_def afterWrite_def AfterWrite_def Let_def List.map_filter_def split: if_splits)
qed (simp add: List.map_filter_def Let_def)

text \<open>
  Callbacks registered before or after the response is written run once each, in the order of
  registration, and none before the write.
\<close>

lemma post_write_callbacks_run:
  "ran (fold callback_step ops WithPostWriteCallbacks) = (if None \<in> set ops then List.map_filter (\<lambda>x. x) ops else [])"
  using callback_steps [of WithPostWriteCallbacks ops]
  by (auto simp: WithPostWriteCallbacks_def Let_def split: if_splits)

end
