(* ===== verification/Go_Cache.thy ===== *)
theory Go_Cache
  imports Sync_Map
begin

text \<open>
  The cache with expiring elements, \<open>pkg/cache/cache.go\<close>.  Elements are compared by identity in the
  code, so an element has an identity; the zero time, which never expires, is \<open>None\<close>.  Calls of
  \<open>onExpire\<close> are collected: an operation returns the data it was called with, in order.
\<close>

type_synonym time = int

record 'd Element =
  elem_id :: nat
  ValidUntil :: "time option"
  elem_data :: 'd

definition IsExpired :: "'d Element \<Rightarrow> time \<Rightarrow> bool" where
  "IsExpired e now = (case ValidUntil e of None \<Rightarrow> False | Some t \<Rightarrow> t < now)"

definition NewElement :: "nat \<Rightarrow> 'd \<Rightarrow> time option \<Rightarrow> 'd Element" where
  "NewElement i data validUntil = \<lparr>elem_id = i, ValidUntil = validUntil, elem_data = data\<rparr>"

type_synonym ('k, 'd) cache = "('k, 'd Element) smap"

definition Cache_LoadOrStore :: "time \<Rightarrow> 'k \<Rightarrow> 'd Element \<Rightarrow> ('k, 'd) cache \<Rightarrow> ('k, 'd) cache \<times> 'd Element \<times> bool" where
  "Cache_LoadOrStore now key e c =
     (let (c', _, act) =
        Map_ReplaceWithFunc key
          (\<lambda>old. case old of
                   Some oldValue \<Rightarrow> if \<not> IsExpired oldValue now then (Some oldValue, oldValue) else (Some e, e)
                 | None \<Rightarrow> (Some e, e)) c
      in (c', act, elem_id act \<noteq> elem_id e))"

definition Cache_Load :: "time \<Rightarrow> 'k \<Rightarrow> ('k, 'd) cache \<Rightarrow> 'd Element option" where
  "Cache_Load now key c =
     (case Map_Load key c of
        None \<Rightarrow> None
      | Some act \<Rightarrow> if IsExpired act now then None else Some act)"

text \<open>
  \<open>CheckExpirations\<close>: each entry seen by \<open>Range\<close> is looked at again under the lock, and removed
  only if it is still the same element and still expired.
\<close>

definition expire_step :: "time \<Rightarrow> 'k \<Rightarrow> 'd Element \<Rightarrow> ('k, 'd) cache \<times> 'd list \<Rightarrow> ('k, 'd) cache \<times> 'd list" where
  "expire_step now key v s =
     (let (c, calls) = s in
      if IsExpired v now then
        (let (c', _, removed) =
           Map_ReplaceWithFunc key
             (\<lambda>current. case current of
                  None \<Rightarrow> (None, False)
                | Some cur \<Rightarrow>
                    (let removed = (elem_id cur = elem_id v \<and> IsExpired cur now)
                     in (if removed then None else Some cur, removed))) c
         in (c', if removed then calls @ [elem_data v] else calls))
      else s)"

definition Cache_CheckExpirations :: "time \<Rightarrow> ('k, 'd) cache \<Rightarrow> ('k, 'd) cache \<times> 'd list" where
  "Cache_CheckExpirations now c = Map_Range2 (\<lambda>key v s. (expire_step now key v s, True)) c (c, [])"

definition Cache_LoadOrStoreWithLimit ::
    "time \<Rightarrow> 'k \<Rightarrow> 'd Element \<Rightarrow> int \<Rightarrow> ('k, 'd) cache \<Rightarrow>
     ('k, 'd) cache \<times> 'd list \<times> (go_error + 'd Element \<times> bool)" where
  "Cache_LoadOrStoreWithLimit now key e maxEntries c =
     (let (c1, calls1) =
            (if maxEntries > 0 \<and> Map_Length c \<ge> maxEntries then Cache_CheckExpirations now c else (c, []));
          expired = (case Map_Load key c1 of
                       Some old \<Rightarrow> if IsExpired old now then [elem_data old] else []
                     | None \<Rightarrow> []);
          (c2, res) =
            Map_LoadOrStoreWithFuncAndLimit key maxEntries
              (Some (\<lambda>old. if IsExpired old now then e else old)) (\<lambda>_. e) c1
      in case res of
           None \<Rightarrow> (c2, calls1 @ expired, Inl ErrCacheFull)
         | Some (act, _) \<Rightarrow> (c2, calls1 @ expired, Inr (act, elem_id act \<noteq> elem_id e)))"

subsection \<open>Expiry\<close>

text \<open>Elements with the same identity are the same element.\<close>

definition cache_ok :: "('k, 'd) cache \<Rightarrow> bool" where
  "cache_ok c \<longleftrightarrow> smap_ok c"

text \<open>The entries a cache shows at a time: those not expired.\<close>

definition live :: "time \<Rightarrow> ('k, 'd) cache \<Rightarrow> 'k \<Rightarrow> 'd Element option" where
  "live now c k = (case map_of c k of None \<Rightarrow> None | Some e \<Rightarrow> if IsExpired e now then None else Some e)"

lemma Cache_Load_live: "Cache_Load now k c = live now c k"
  by (simp add: Cache_Load_def Map_Load_def live_def split: option.split)

lemma expire_step_eq:
  assumes "map_of c k = Some v \<or> \<not> IsExpired v now"
  shows "expire_step now k v (c, calls) =
     (if IsExpired v now then (AList.delete k c, calls @ [elem_data v]) else (c, calls))"
  using assms by (auto simp: expire_step_def Map_ReplaceWithFunc_def)

lemma Range2_expire:
  assumes "smap_ok m" "smap_ok c" "\<forall>(k, v) \<in> set m. map_of c k = Some v"
  shows "Map_Range2 (\<lambda>key v s. (expire_step now key v s, True)) m (c, calls) =
     (fold AList.delete (map fst (filter (\<lambda>(k, v). IsExpired v now) m)) c,
      calls @ map (elem_data \<circ> snd) (filter (\<lambda>(k, v). IsExpired v now) m))"
  using assms
proof (induction m arbitrary: c calls)
  case (Cons kv m)
  obtain k v where kv: "kv = (k, v)" by (cases kv)
  have k: "map_of c k = Some v" and m: "smap_ok m" and nk: "k \<notin> fst ` set m"
    using Cons.prems by (auto simp: kv smap_ok_def)
  have st: "expire_step now k v (c, calls) =
     (if IsExpired v now then (AList.delete k c, calls @ [elem_data v]) else (c, calls))"
    using k by (simp add: expire_step_eq)
  have d: "smap_ok (AList.delete k c)" "\<forall>(k', v') \<in> set m. map_of (AList.delete k c) k' = Some v'"
    using Cons.prems(2,3) nk by (force simp: kv alist.invar_drop delete_conv')+
  have r: "\<forall>(k', v') \<in> set m. map_of c k' = Some v'" using Cons.prems by simp
  show ?case
    using Cons.IH [OF m d] Cons.IH [OF m Cons.prems(2) r] st by (simp add: kv)
qed simp

lemma CheckExpirations_eq:
  assumes "cache_ok c"
  shows "Cache_CheckExpirations now c =
     (fold AList.delete (map fst (filter (\<lambda>(k, v). IsExpired v now) c)) c,
      map (elem_data \<circ> snd) (filter (\<lambda>(k, v). IsExpired v now) c))"
  using assms Range2_expire [of c c now "[]"] by (auto simp: Cache_CheckExpirations_def cache_ok_def smap_ok_def)

lemma fst_filter_expired:
  assumes "cache_ok c"
  shows "k \<in> fst ` set (filter (\<lambda>(k, v). IsExpired v now) c) \<longleftrightarrow> (\<exists>v. map_of c k = Some v \<and> IsExpired v now)"
  using assms by (force simp: cache_ok_def smap_ok_def)

lemma CheckExpirations_lookup:
  assumes "cache_ok c"
  shows "map_of (fst (Cache_CheckExpirations now c)) = live now c" "cache_ok (fst (Cache_CheckExpirations now c))"
proof -
  show "map_of (fst (Cache_CheckExpirations now c)) = live now c"
  proof
    fix k
    show "map_of (fst (Cache_CheckExpirations now c)) k = live now c k"
      using fst_filter_expired [OF assms, of k now]
      by (cases "map_of c k") (auto simp: CheckExpirations_eq [OF assms] alist.drop_keys live_def)
  qed
  show "cache_ok (fst (Cache_CheckExpirations now c))"
    using assms by (simp add: CheckExpirations_eq [OF assms] cache_ok_def alist.drop_keys_invar)
qed

lemma fold_delete_filter:
  "fold AList.delete ks c = filter (\<lambda>(k, v). k \<notin> set ks) c"
proof (induction ks arbitrary: c)
  case (Cons x ks)
  have "AList.delete x c = filter (\<lambda>(k, v). k \<noteq> x) c"
    by (induction c) auto
  then show ?case
    using Cons by (auto intro: filter_cong)
qed simp

lemma CheckExpirations_filter:
  assumes "cache_ok c"
  shows "fst (Cache_CheckExpirations now c) = filter (\<lambda>(k, v). \<not> IsExpired v now) c"
proof -
  have "k \<in> fst ` set (filter (\<lambda>(k, v). IsExpired v now) c) \<longleftrightarrow> IsExpired v now" if "(k, v) \<in> set c" for k v
  proof -
    have "map_of c k = Some v" using that assms by (simp add: cache_ok_def smap_ok_def)
    then show ?thesis using fst_filter_expired [OF assms, of k now] by auto
  qed
  then show ?thesis
    by (auto simp: CheckExpirations_eq [OF assms] fold_delete_filter intro!: filter_cong)
qed

text \<open>
  \<open>CheckExpirations\<close> removes exactly the expired entries and calls \<open>onExpire\<close> exactly once for each of
  them; what the cache shows afterwards is what it showed before.
\<close>

lemma CheckExpirations_correct:
  assumes "cache_ok c"
  shows "case Cache_CheckExpirations now c of
     (c', calls) \<Rightarrow> cache_ok c' \<and> map_of c' = live now c \<and> live now c' = live now c
        \<and> calls = map (elem_data \<circ> snd) (filter (\<lambda>(k, v). IsExpired v now) c)
        \<and> length c' + length calls = length c"
proof -
  have l: "map_of (fst (Cache_CheckExpirations now c)) = live now c" and ok: "cache_ok (fst (Cache_CheckExpirations now c))"
    using CheckExpirations_lookup [OF assms, of now] by simp_all
  have "live now (fst (Cache_CheckExpirations now c)) = live now c"
    by (rule ext) (simp add: live_def [of now "fst (Cache_CheckExpirations now c)"] l, simp add: live_def split: option.split)
  moreover have "length (fst (Cache_CheckExpirations now c)) + length (snd (Cache_CheckExpirations now c)) = length c"
    unfolding CheckExpirations_filter [OF assms] using sum_length_filter_compl [of "\<lambda>(k, v). IsExpired v now" c]
    by (simp add: CheckExpirations_eq [OF assms] case_prod_unfold add.commute)
  ultimately show ?thesis
    using l ok by (simp add: CheckExpirations_eq [OF assms] split: prod.split)
qed

lemma CheckExpirations_correct_example:
  "Cache_CheckExpirations 5 [(1 :: nat, \<lparr>elem_id = 0, ValidUntil = Some 4, elem_data = True\<rparr>), (2, \<lparr>elem_id = 1, ValidUntil = None, elem_data = False\<rparr>)]
     = ([(2, \<lparr>elem_id = 1, ValidUntil = None, elem_data = False\<rparr>)], [True])"
proof -
  let ?c = "[(1 :: nat, \<lparr>elem_id = 0, ValidUntil = Some 4, elem_data = True\<rparr>), (2, \<lparr>elem_id = 1, ValidUntil = None, elem_data = False\<rparr>)]"
  have ok: "cache_ok ?c" by (simp add: cache_ok_def smap_ok_def)
  have "snd (Cache_CheckExpirations 5 ?c) = [True]"
    using CheckExpirations_correct [OF ok, of 5] by (auto simp: IsExpired_def split: prod.splits)
  moreover have "fst (Cache_CheckExpirations 5 ?c) = [(2, \<lparr>elem_id = 1, ValidUntil = None, elem_data = False\<rparr>)]"
    unfolding CheckExpirations_filter [OF ok] by (simp add: IsExpired_def)
  ultimately show ?thesis by (simp add: prod_eq_iff)
qed

subsection \<open>The limit\<close>

definition fresh_elem :: "'d Element \<Rightarrow> ('k, 'd) cache \<Rightarrow> bool" where
  "fresh_elem e c \<longleftrightarrow> (\<forall>(k, v) \<in> set c. elem_id v \<noteq> elem_id e)"

lemma fresh_lookup: "fresh_elem e c \<Longrightarrow> map_of c k = Some v \<Longrightarrow> elem_id v \<noteq> elem_id e"
  by (auto simp: fresh_elem_def dest: map_of_SomeD)

definition reclaimed :: "time \<Rightarrow> int \<Rightarrow> ('k, 'd) cache \<Rightarrow> ('k, 'd) cache" where
  "reclaimed now maxEntries c =
     (if maxEntries > 0 \<and> Map_Length c \<ge> maxEntries then fst (Cache_CheckExpirations now c) else c)"

lemma reclaimed_ok:
  assumes "cache_ok c"
  shows "cache_ok (reclaimed now n c)" "live now (reclaimed now n c) = live now c"
    "length (reclaimed now n c) \<le> length c" "fresh_elem e c \<Longrightarrow> fresh_elem e (reclaimed now n c)"
proof -
  have "live now (fst (Cache_CheckExpirations now c)) = live now c"
    by (rule ext) (simp add: live_def [of now "fst (Cache_CheckExpirations now c)"] CheckExpirations_lookup [OF assms],
        simp add: live_def split: option.split)
  then show "cache_ok (reclaimed now n c)" "live now (reclaimed now n c) = live now c"
    "length (reclaimed now n c) \<le> length c" "fresh_elem e c \<Longrightarrow> fresh_elem e (reclaimed now n c)"
    using assms CheckExpirations_lookup [OF assms, of now]
    by (auto simp: reclaimed_def CheckExpirations_filter [OF assms] fresh_elem_def)
qed

lemma LoadOrStoreWithLimit_eq:
  assumes "cache_ok c" "fresh_elem e c" and c1_def: "c1 = reclaimed now n c"
  shows "\<exists>calls. Cache_LoadOrStoreWithLimit now key e n c =
     (case map_of c1 key of
        Some old \<Rightarrow>
          if IsExpired old now then (AList.update key e c1, calls, Inr (e, False))
          else (AList.update key old c1, calls, Inr (old, True))
      | None \<Rightarrow>
          if n > 0 \<and> int (length c1) \<ge> n then (c1, calls, Inl ErrCacheFull)
          else (AList.update key e c1, calls, Inr (e, False)))"
proof -
  obtain calls where c1: "(if n > 0 \<and> Map_Length c \<ge> n then Cache_CheckExpirations now c else (c, [])) = (c1, calls)"
    by (auto simp: c1_def reclaimed_def prod_eq_iff)
  have fr: "fresh_elem e c1" using reclaimed_ok(4) [OF assms(1,2)] by (simp add: c1_def)
  show ?thesis
    unfolding Cache_LoadOrStoreWithLimit_def Let_def c1 prod.case
    by (cases "map_of c1 key") (auto simp: Map_LoadOrStoreWithFuncAndLimit_def dest: fresh_lookup [OF fr])
qed

text \<open>
  \<open>LoadOrStoreWithLimit\<close> never lets the cache grow beyond its limit: an unexpired entry is loaded even at
  the limit; otherwise the new element is stored, replacing an expired one, unless so many live
  entries are there that it must be refused with \<open>ErrCacheFull\<close>; no other live entry is touched.
\<close>

lemma LoadOrStoreWithLimit_correct:
  assumes "cache_ok c" "fresh_elem e c" "\<not> IsExpired e now" "0 < n" "int (length c) \<le> n"
  shows "case Cache_LoadOrStoreWithLimit now key e n c of
     (c', calls, r) \<Rightarrow> cache_ok c' \<and> int (length c') \<le> n \<and> (\<forall>k. k \<noteq> key \<longrightarrow> live now c' k = live now c k)
       \<and> (case r of
            Inl err \<Rightarrow> err = ErrCacheFull \<and> live now c key = None \<and> live now c' = live now c
              \<and> int (length (filter (\<lambda>(k, v). \<not> IsExpired v now) c)) = n
          | Inr (act, loaded) \<Rightarrow> live now c' key = Some act \<and> (loaded \<longleftrightarrow> live now c key \<noteq> None)
              \<and> (if loaded then live now c key = Some act else act = e))"
proof -
  let ?c1 = "reclaimed now n c"
  note r = reclaimed_ok [where now = now and n = n, OF assms(1)]
  have r4: "length ?c1 \<le> length c" by (rule r(3))
  have lk: "live now c k = live now ?c1 k" for k using r(2) by simp
  have full: "length (filter (\<lambda>(k, v). \<not> IsExpired v now) c) = length ?c1" if "int (length ?c1) \<ge> n"
    using that assms(5) r4 by (auto simp: reclaimed_def Map_Length_def CheckExpirations_filter [OF assms(1)] split: if_splits)
  have ok: "cache_ok (AList.update key x ?c1)" for x using r(1) by (simp add: cache_ok_def alist.invar_put)
  obtain calls where eq: "Cache_LoadOrStoreWithLimit now key e n c =
     (case map_of ?c1 key of
        Some old \<Rightarrow>
          if IsExpired old now then (AList.update key e ?c1, calls, Inr (e, False))
          else (AList.update key old ?c1, calls, Inr (old, True))
      | None \<Rightarrow>
          if n > 0 \<and> int (length ?c1) \<ge> n then (?c1, calls, Inl ErrCacheFull)
          else (AList.update key e ?c1, calls, Inr (e, False)))"
    using LoadOrStoreWithLimit_eq [OF assms(1,2) refl] by blast
  have other: "live now (AList.update key x ?c1) k = live now c k" if "k \<noteq> key" for k x
    using that by (simp add: lk) (simp add: live_def update_conv')
  have here: "\<not> IsExpired x now \<Longrightarrow> live now (AList.update key x ?c1) key = Some x" for x
    by (simp add: live_def update_conv')
  show ?thesis
  proof (cases "map_of ?c1 key")
    case None
    then have "live now c key = None" by (simp add: lk) (simp add: live_def)
    then show ?thesis
      using None r(1,2) r4 assms(3-5) ok other here full unfolding eq
      by (auto simp: length_update)
  next
    case (Some old)
    then have "live now c key = (if IsExpired old now then None else Some old)"
      by (simp add: lk) (simp add: live_def)
    then show ?thesis
      using Some r4 assms(3-5) ok other here unfolding eq
      by (auto simp: length_update)
  qed
qed

lemma LoadOrStoreWithLimit_correct_example:
  "\<exists>c' calls. Cache_LoadOrStoreWithLimit 5 7 \<lparr>elem_id = 9, ValidUntil = None, elem_data = True\<rparr> 1
      [(1 :: nat, \<lparr>elem_id = 0, ValidUntil = None, elem_data = True\<rparr>)] = (c', calls, Inl ErrCacheFull)"
proof -
  let ?e = "\<lparr>elem_id = 9, ValidUntil = None, elem_data = True\<rparr>" and ?c = "[(1 :: nat, \<lparr>elem_id = 0, ValidUntil = None, elem_data = True\<rparr>)]"
  have ok: "cache_ok ?c" "fresh_elem ?e ?c" "\<not> IsExpired ?e 5"
    by (simp_all add: cache_ok_def smap_ok_def fresh_elem_def IsExpired_def)
  obtain c' calls r where eq: "Cache_LoadOrStoreWithLimit 5 7 ?e 1 ?c = (c', calls, r)" by (metis prod_cases3)
  have l: "live 5 ?c 7 = None" "live 5 ?c 1 \<noteq> None" by (simp_all add: live_def IsExpired_def)
  show ?thesis
  proof (cases r)
    case (Inl err)
    then show ?thesis
      using LoadOrStoreWithLimit_correct [OF ok, of 1 7] eq by auto
  next
    case (Inr al)
    then have "live 5 c' 7 \<noteq> None" "live 5 c' 1 \<noteq> None" "length c' \<le> 1"
      using LoadOrStoreWithLimit_correct [OF ok, of 1 7] eq l by (auto split: prod.splits)
    then have "map_of c' 7 \<noteq> None" "map_of c' 1 \<noteq> None" by (auto simp: live_def split: option.splits)
    then have False using \<open>length c' \<le> 1\<close> by (cases c') (auto split: if_splits)
    then show ?thesis ..
  qed
qed

end
