(* ===== verification/Blockwise.thy ===== *)
theory Blockwise
  imports Pool_Message Block_Option Go_Cache
begin

text \<open>
  Block-wise transfers, \<open>net/blockwise/blockwise.go\<close> with \<open>net/blockwise/internal/blocks/message.go\<close>.

  The state is the two caches of the engine.  The response writer is the message it holds; the
  application's handler \<open>next\<close> maps that message and a request to the response it leaves in the
  writer.  An operation on one exchange runs to completion before the next one, as the mutexes and
  semaphores of the code arrange for each transfer; cancelled contexts are not modelled.

  Parameters (\<^emph>\<open>bw_env\<close>): the state of a message taken from the pool, the deadlines of contexts, the
  requests kept by the connection, the random token, and the in-memory file of the third-party package
  \<open>memfile\<close> that collects a body.  The remote address is its text, \<open>None\<close> when it is \<open>nil\<close>.  Read positions
  of bodies are not followed where every use of the body seeks first.  The handler of the Q-Block
  engine, which is asked first, is the parameter \<open>qblockHandle\<close> of \<open>Handle\<close>.

  A panic is the outcome \<open>Panic\<close>.
\<close>

datatype 'a outcome = Ret 'a | Err go_error | Panic

definition of_opt :: "'a option \<Rightarrow> 'a outcome" where
  "of_opt x = (case x of None \<Rightarrow> Panic | Some a \<Rightarrow> Ret a)"

definition of_sum :: "go_error + 'a \<Rightarrow> 'a outcome" where
  "of_sum x = (case x of Inl e \<Rightarrow> Err e | Inr a \<Rightarrow> Ret a)"

fun and_then :: "'a outcome \<Rightarrow> ('a \<Rightarrow> 'b outcome) \<Rightarrow> 'b outcome" where
  "and_then (Ret a) f = f a"
| "and_then (Err e) f = Err e"
| "and_then Panic f = Panic"

lemma of_opt_simps [simp]: "of_opt None = Panic" "of_opt (Some a) = Ret a"
  by (simp_all add: of_opt_def)

lemma of_sum_simps [simp]: "of_sum (Inl e) = Err e" "of_sum (Inr a) = Ret a"
  by (simp_all add: of_sum_def)

subsection \<open>State\<close>

record 'f memfile_ops =
  mf_New :: "bytes \<Rightarrow> 'f"
  mf_Seek :: "'f \<Rightarrow> int \<Rightarrow> whence \<Rightarrow> 'f \<times> (go_error + int)"
  mf_Write :: "'f \<Rightarrow> bytes \<Rightarrow> 'f \<times> (go_error + int)"
  mf_Truncate :: "'f \<Rightarrow> int \<Rightarrow> 'f \<times> go_error option"
  mf_Bytes :: "'f \<Rightarrow> bytes"

record ('cm, 'f) bw_env =
  fresh :: "'cm PMessage"
  deadlineOf :: "'cm PMessage \<Rightarrow> time option"
  sentRequestFromOutside :: "bytes \<Rightarrow> 'cm PMessage option"
  newToken :: "go_error + bytes"
  memfile :: "'f memfile_ops"

record 'cm sendingMessage =
  sm_Message :: "'cm PMessage option"
  sm_matchingKey :: u64
  sm_requestCode :: u16
  sm_endpoint :: bytes

record sendingMatch =
  match_key :: u64
  match_code :: u16
  match_endpoint :: bytes

text \<open>\<open>mg_exchange\<close> is the key captured by the expiry callback of the guard's element.\<close>

record ('cm, 'f) messageGuard =
  mg_Message :: "'cm PMessage"
  mg_file :: 'f
  mg_matchingKey :: u64
  mg_received :: int
  mg_exchange :: u64

record ('cm, 'f) BlockWise =
  receivingMessagesCache :: "(u64, ('cm, 'f) messageGuard) cache"
  receivingMessagesCacheMaxEntries :: int
  sendingMessagesCache :: "(u64, 'cm sendingMessage) cache"
  expiration :: time
  rollingExpiration :: bool
  maxReceiveBodySize :: int
  nextElement :: nat
  reported :: "go_error list"
  handed :: "'cm PMessage list"

definition report :: "go_error \<Rightarrow> ('cm, 'f) BlockWise \<Rightarrow> ('cm, 'f) BlockWise" where
  "report e b = b\<lparr>reported := reported b @ [e]\<rparr>"

definition SetRollingExpiration :: "bool \<Rightarrow> ('cm, 'f) BlockWise \<Rightarrow> ('cm, 'f) BlockWise" where
  "SetRollingExpiration enabled b = b\<lparr>rollingExpiration := enabled\<rparr>"

definition SetMaxReceiveBodySize :: "int \<Rightarrow> ('cm, 'f) BlockWise \<Rightarrow> ('cm, 'f) BlockWise" where
  "SetMaxReceiveBodySize sz b = b\<lparr>maxReceiveBodySize := max sz 0\<rparr>"

definition SetReceivingMessagesCacheMaxEntries :: "int \<Rightarrow> ('cm, 'f) BlockWise \<Rightarrow> ('cm, 'f) BlockWise" where
  "SetReceivingMessagesCacheMaxEntries maxEntries b = b\<lparr>receivingMessagesCacheMaxEntries := max maxEntries 0\<rparr>"

definition DefaultReceivingMessagesCacheMaxEntries :: int where
  "DefaultReceivingMessagesCacheMaxEntries = 4096"

definition BlockWise_New :: "time \<Rightarrow> ('cm, 'f) BlockWise" where
  "BlockWise_New expir =
     \<lparr>receivingMessagesCache = NewMap, receivingMessagesCacheMaxEntries = DefaultReceivingMessagesCacheMaxEntries,
      sendingMessagesCache = NewMap, expiration = expir, rollingExpiration = False, maxReceiveBodySize = 0,
      nextElement = 0, reported = [], handed = []\<rparr>"

subsection \<open>Messages\<close>

definition IsRequestCode :: "u16 \<Rightarrow> bool" where
  "IsRequestCode code \<longleftrightarrow> code \<ge> codes_GET \<and> code < 32"

definition isBodyMethod :: "u16 \<Rightarrow> bool" where
  "isBodyMethod code \<longleftrightarrow> code = codes_POST \<or> code = codes_PUT \<or> code = codes_FETCH \<or> code = codes_PATCH \<or> code = codes_IPATCH"

abbreviation code_of :: "'cm PMessage \<Rightarrow> u16" where "code_of r \<equiv> Code (msg r)"
abbreviation token_of :: "'cm PMessage \<Rightarrow> bytes" where "token_of r \<equiv> Token (msg r)"
abbreviation getUint32 :: "'cm PMessage \<Rightarrow> u16 \<Rightarrow> u32 \<times> go_error option" where
  "getUint32 r oid \<equiv> Options_GetUint32 (opts_of r) oid"
abbreviation hasOption :: "'cm PMessage \<Rightarrow> u16 \<Rightarrow> bool" where
  "hasOption r oid \<equiv> Options_HasOption (opts_of r) oid"

definition CloneMessage :: "('cm, 'f) bw_env \<Rightarrow> 'cm PMessage \<Rightarrow> 'cm PMessage outcome" where
  "CloneMessage env r =
     and_then (of_opt (PM_ResetOptionsTo (opts_of r) (PM_SetToken (token_of r) (PM_SetCode (code_of r) (fresh env)))))
       (\<lambda>req. Ret (PM_SetType (Type (msg r)) req))"

definition SendServiceUnavailable :: "('cm, 'f) bw_env \<Rightarrow> bytes \<Rightarrow> 'cm PMessage" where
  "SendServiceUnavailable env token =
     PM_SetType NonConfirmable (PM_SetToken token (PM_SetCode codes_ServiceUnavailable (fresh env)))"

definition SendEntityTooLarge :: "('cm, 'f) bw_env \<Rightarrow> bytes \<Rightarrow> int \<Rightarrow> 'cm PMessage outcome" where
  "SendEntityTooLarge env token maxBodySize =
     (let m = PM_SetType NonConfirmable (PM_SetToken token (PM_SetCode codes_RequestEntityTooLarge (fresh env)));
          size1 = min maxBodySize (2 ^ 32 - 1)
      in of_opt (PM_SetOptionUint32 Size1 (word_of_int (CastTo (Unsigned 32) size1)) m))"

definition sendEntityIncomplete :: "('cm, 'f) bw_env \<Rightarrow> bytes \<Rightarrow> 'cm PMessage" where
  "sendEntityIncomplete env token =
     PM_SetType NonConfirmable (PM_SetToken token (PM_SetCode codes_RequestEntityIncomplete (fresh env)))"

definition bufferSize :: "SZX \<Rightarrow> u32 \<Rightarrow> int" where
  "bufferSize szx maxMessageSize =
     (if szx < SZXBERT then SZX_Size szx else (uint maxMessageSize div SZX_Size szx) * SZX_Size szx)"

definition getSzx :: "SZX \<Rightarrow> SZX \<Rightarrow> SZX" where
  "getSzx szx maxSzx = (if szx > maxSzx then maxSzx else szx)"

definition fitSZX :: "'cm PMessage \<Rightarrow> u16 \<Rightarrow> SZX \<Rightarrow> SZX" where
  "fitSZX r blockType maxSZX =
     (case getUint32 r blockType of
        (_, Some _) \<Rightarrow> maxSZX
      | (block, None) \<Rightarrow>
          (case DecodeBlockOption block of
             (_, _, _, Some _) \<Rightarrow> maxSZX
           | (szx, _, _, None) \<Rightarrow> if maxSZX > szx then szx else maxSZX))"

definition isObserveResponse :: "'cm PMessage \<Rightarrow> bool" where
  "isObserveResponse m =
     (if snd (getUint32 m Observe) \<noteq> None then False else code_of m \<ge> codes_Created)"

definition wantsToBeReceived :: "'cm PMessage \<Rightarrow> bool" where
  "wantsToBeReceived r =
     (if hasOption r Block1 \<and> isBodyMethod (code_of r) then True
      else if hasOption r Block2 \<and> IsRequestCode (code_of r) then False
      else if code_of r = codes_Continue then False
      else True)"

subsection \<open>Keys\<close>

definition getExchangeKey :: "bytes \<Rightarrow> bytes option \<Rightarrow> go_error + u64" where
  "getExchangeKey token remoteAddr =
     (if length token \<noteq> 0 then Inr (Token_Hash token)
      else case remoteAddr of
             None \<Rightarrow> Inl (ErrOther ''cannot get exchange key: remoteAddr is nil'')
           | Some addr \<Rightarrow> Inr (fnv64a_write fnv64a_offset addr))"

definition WriteExchangeKeyPart :: "u64 \<Rightarrow> bytes \<Rightarrow> u64" where
  "WriteExchangeKeyPart h v = fnv64a_write (fnv64a_write h (PutUint64 (of_nat (length v)))) v"

text \<open>The body of the loop over the options in \<open>getRequestMatchingKeyWithObserve\<close>.\<close>

definition writeOption :: "bool \<Rightarrow> Opt \<Rightarrow> u64 \<Rightarrow> u64" where
  "writeOption includeObserve option h =
     (if \<not> includeObserve \<and> ID option = Observe then h
      else if ID option = Block1 \<or> ID option = Block2 \<or> ID option = QBlock1 \<or> ID option = QBlock2 then h
      else if ID option AND 0x1f = 0x1c then h
      else fnv64a_write (fnv64a_write h (PutUint16 (ID option) @ PutUint64 (of_nat (length (Value option))))) (Value option))"

definition getRequestMatchingKeyWithObserve :: "'cm PMessage \<Rightarrow> bytes \<Rightarrow> bool \<Rightarrow> u64" where
  "getRequestMatchingKeyWithObserve r remoteAddr includeObserve =
     fold (writeOption includeObserve) (opts_of r)
       (fnv64a_write (WriteExchangeKeyPart fnv64a_offset remoteAddr) (PutUint16 (code_of r)))"

definition getRequestMatchingKey :: "'cm PMessage \<Rightarrow> bytes \<Rightarrow> u64" where
  "getRequestMatchingKey r remoteAddr = getRequestMatchingKeyWithObserve r remoteAddr True"

definition requestMatchingKey :: "'cm PMessage \<Rightarrow> bytes option \<Rightarrow> u64" where
  "requestMatchingKey r remoteAddr = (case remoteAddr of None \<Rightarrow> 0 | Some addr \<Rightarrow> getRequestMatchingKey r addr)"

definition getMessageExchangeKey :: "'cm PMessage \<Rightarrow> bytes option \<Rightarrow> go_error + u64" where
  "getMessageExchangeKey r remoteAddr =
     (case remoteAddr of
        None \<Rightarrow> getExchangeKey (token_of r) remoteAddr
      | Some addr \<Rightarrow>
          if \<not> IsRequestCode (code_of r) then getExchangeKey (token_of r) remoteAddr
          else if length (token_of r) = 0 then Inr (getRequestMatchingKey r addr)
          else if \<not> isBodyMethod (code_of r) then getExchangeKey (token_of r) remoteAddr
          else Inr (fnv64a_write (fnv64a_write fnv64a_offset (PutUint64 (getRequestMatchingKey r addr))) (token_of r)))"

definition getSendingMatch :: "'cm PMessage \<Rightarrow> 'cm PMessage \<Rightarrow> u16 \<Rightarrow> bytes option \<Rightarrow> sendingMatch" where
  "getSendingMatch r response requestCode remoteAddr =
     (case remoteAddr of
        None \<Rightarrow> \<lparr>match_key = 0, match_code = 0, match_endpoint = []\<rparr>
      | Some addr \<Rightarrow>
          if requestCode \<noteq> codes_GET \<and> \<not> isBodyMethod requestCode
          then \<lparr>match_key = 0, match_code = 0, match_endpoint = []\<rparr>
          else
            (let matchKey = (if requestCode = codes_FETCH \<and> isObserveResponse response
                             then getRequestMatchingKeyWithObserve r addr False
                             else getRequestMatchingKey r addr)
             in \<lparr>match_key = matchKey, match_code = requestCode, match_endpoint = addr\<rparr>))"

text \<open>\<open>Range\<close> over the transfers, until a second one matches: the last key that matched and the number.\<close>

definition findMatching :: "('d Element \<Rightarrow> bool) \<Rightarrow> (u64, 'd) cache \<Rightarrow> u64 \<times> nat" where
  "findMatching isMatch c =
     Map_Range2 (\<lambda>key element (matchingKey, matches).
        let s = (if isMatch element then (key, Suc matches) else (matchingKey, matches)) in (s, snd s < 2)) c (0, 0)"

definition findMatchingBlock1Transfer :: "time \<Rightarrow> u64 \<Rightarrow> int \<Rightarrow> ('cm, 'f) BlockWise \<Rightarrow> u64 \<times> nat" where
  "findMatchingBlock1Transfer now requestKey expectedOffset b =
     findMatching (\<lambda>element. \<not> IsExpired element now \<and> mg_matchingKey (elem_data element) = requestKey
        \<and> mg_received (elem_data element) = expectedOffset) (receivingMessagesCache b)"

definition resolveBlock1ExchangeKey :: "time \<Rightarrow> 'cm PMessage \<Rightarrow> bytes option \<Rightarrow> u64 \<Rightarrow> ('cm, 'f) BlockWise \<Rightarrow> go_error + u64" where
  "resolveBlock1ExchangeKey now r remoteAddr exchangeKey b =
     (if \<not> isBodyMethod (code_of r) \<or> \<not> hasOption r Block1 then Inr exchangeKey
      else case remoteAddr of
        None \<Rightarrow> Inr exchangeKey
      | Some addr \<Rightarrow>
          if Cache_Load now exchangeKey (receivingMessagesCache b) \<noteq> None \<or> length (token_of r) = 0 then Inr exchangeKey
          else case getUint32 r Block1 of
            (_, Some err) \<Rightarrow> Inl err
          | (block, None) \<Rightarrow>
              (case DecodeBlockOption block of
                 (_, _, _, Some err) \<Rightarrow> Inl err
               | (szx, num, _, None) \<Rightarrow>
                   if num = 0 then Inr exchangeKey
                   else
                     (let expectedOffset = num * SZX_Size szx;
                          (matchingKey, matches) = findMatchingBlock1Transfer now (getRequestMatchingKey r addr) expectedOffset b
                      in if matches > 1 then Inl (ErrOther ''cannot identify Block1 continuation: multiple transfers match'')
                         else if matches = 1 then Inr matchingKey
                         else Inr exchangeKey)))"

definition isBlock2Continuation :: "'cm PMessage \<Rightarrow> bool" where
  "isBlock2Continuation r =
     (case getUint32 r Block2 of
        (_, Some _) \<Rightarrow> False
      | (block, None) \<Rightarrow> (case DecodeBlockOption block of (_, num, _, err) \<Rightarrow> err = None \<and> num > 0))"

definition mayResumeBlock2 :: "'cm PMessage \<Rightarrow> bool" where
  "mayResumeBlock2 r =
     (if code_of r \<in> {codes_POST, codes_PUT, codes_PATCH, codes_IPATCH} then isBlock2Continuation r
      else if code_of r \<in> {codes_GET, codes_FETCH} then \<not> hasOption r Observe \<and> isBlock2Continuation r
      else False)"

definition resolveBlock2ExchangeKey :: "time \<Rightarrow> 'cm PMessage \<Rightarrow> bytes option \<Rightarrow> u64 \<Rightarrow> ('cm, 'f) BlockWise \<Rightarrow> go_error + u64" where
  "resolveBlock2ExchangeKey now r remoteAddr exchangeKey b =
     (case remoteAddr of
        None \<Rightarrow> Inr exchangeKey
      | Some addr \<Rightarrow>
          if \<not> mayResumeBlock2 r \<or> Cache_Load now exchangeKey (sendingMessagesCache b) \<noteq> None then Inr exchangeKey
          else
            (let isGet = (code_of r = codes_GET \<or> code_of r = codes_FETCH);
                 (matchingKey, matches) =
                   findMatching (\<lambda>element. \<not> IsExpired element now \<and> sm_Message (elem_data element) \<noteq> None
                      \<and> sm_matchingKey (elem_data element) = getRequestMatchingKey r addr) (sendingMessagesCache b)
             in if matches > 1 then
                  (if isGet then Inr exchangeKey
                   else Inl (ErrOther ''cannot identify Block2 continuation: multiple transfers match''))
                else if matches = 1 then Inr matchingKey
                else Inr exchangeKey))"

subsection \<open>Sending\<close>

text \<open>\<open>prepareSendingRequest\<close>; whether the result is the message given to it decides who releases it only.\<close>

definition prepareSendingRequest :: "('cm, 'f) bw_env \<Rightarrow> 'cm PMessage \<Rightarrow> SZX \<Rightarrow> u32 \<Rightarrow> 'cm PMessage outcome" where
  "prepareSendingRequest env r maxSzx maxMessageSize =
     (case body r of
        None \<Rightarrow> Ret r
      | Some bdy \<Rightarrow>
          and_then (of_sum (snd (PM_BodySize r))) (\<lambda>payloadSize.
          if payloadSize \<le> SZX_Size maxSzx then Ret r
          else if \<not> isBodyMethod (code_of r) then Err (ErrOther ''unsupported command'')
          else
            and_then (CloneMessage env r) (\<lambda>req.
            and_then (of_sum (SafeCastTo (Unsigned 32) payloadSize)) (\<lambda>payloadSizeUint32.
            and_then (of_opt (PM_SetOptionUint32 Size1 (word_of_int payloadSizeUint32) req)) (\<lambda>req1.
            and_then (of_sum (EncodeBlockOption maxSzx 0 True)) (\<lambda>block.
            and_then (of_opt (PM_SetOptionUint32 Block1 block req1)) (\<lambda>req2.
              (let newBufLen = bufferSize maxSzx maxMessageSize;
                   (bdy1, off) = reader_Seek bdy 0 SeekStart
               in and_then (of_sum off) (\<lambda>newOff.
                  (let (_, buf, err0) = reader_ReadFull bdy1 (nat newBufLen);
                       err = (if err0 = Some io_ErrUnexpectedEOF \<and> newOff + int (length buf) = payloadSize then None else err0)
                   in case err of
                        Some e \<Rightarrow> Err e
                      | None \<Rightarrow> Ret (PM_SetBody (Some (NewReader buf)) req2)))))))))))"

definition createSendingMessage ::
  "('cm, 'f) bw_env \<Rightarrow> 'cm PMessage \<Rightarrow> SZX \<Rightarrow> u32 \<Rightarrow> u32 \<Rightarrow> ('cm PMessage \<times> bool) outcome" where
  "createSendingMessage env sendingMessage maxSZX maxMessageSize block =
     (let blockType = (if isBodyMethod (code_of sendingMessage) then Block1 else Block2);
          sizeType = (if isBodyMethod (code_of sendingMessage) then Size1 else Size2)
      in case DecodeBlockOption block of
           (_, _, _, Some err) \<Rightarrow> Err err
         | (szx0, num, _, None) \<Rightarrow>
             and_then (of_opt (PM_ResetOptionsTo (opts_of sendingMessage) (PM_SetCode (code_of sendingMessage) (fresh env)))) (\<lambda>m0.
             (let m1 = PM_SetType (Type (msg sendingMessage)) (PM_SetToken (token_of sendingMessage) m0) in
              and_then (of_sum (snd (PM_BodySize sendingMessage))) (\<lambda>payloadSize.
              (let szx = getSzx szx0 maxSZX;
                   newBufLen = bufferSize szx maxMessageSize;
                   off = num * SZX_Size szx + (if blockType = Block1 then newBufLen else 0)
               in case body sendingMessage of
                    None \<Rightarrow> Panic
                  | Some bdy \<Rightarrow>
                      (let (bdy1, sought) = reader_Seek bdy off SeekStart in
                       and_then (of_sum sought) (\<lambda>offSeek.
                       if off \<noteq> offSeek then Err (ErrOther ''cannot seek to requested offset'')
                       else
                         (let (_, buf, err0) = reader_ReadFull bdy1 (nat newBufLen);
                              readed = int (length buf);
                              err = (if (err0 = Some io_ErrUnexpectedEOF \<or> err0 = Some io_EOF) \<and> offSeek + readed = payloadSize
                                     then None else err0)
                          in case err of
                               Some e \<Rightarrow> Err e
                             | None \<Rightarrow>
                                 and_then (of_sum (SafeCastTo (Unsigned 32) payloadSize)) (\<lambda>payloadSizeUint32.
                                 and_then (of_opt (PM_SetOptionUint32 sizeType (word_of_int payloadSizeUint32) m1)) (\<lambda>m2.
                                 (let m3 = PM_SetBody (Some (NewReader buf)) m2;
                                      more = (offSeek + readed \<noteq> payloadSize);
                                      num' = offSeek div SZX_Size szx
                                  in and_then (of_sum (EncodeBlockOption szx num' more)) (\<lambda>block'.
                                     and_then (of_opt (PM_SetOptionUint32 blockType block' m3)) (\<lambda>m4.
                                     Ret (m4, more))))))))))))))"

definition startSendingMessage ::
  "('cm, 'f) bw_env \<Rightarrow> time \<Rightarrow> 'cm PMessage \<Rightarrow> SZX \<Rightarrow> u32 \<Rightarrow> u32 \<Rightarrow> u64 \<Rightarrow> sendingMatch \<Rightarrow> ('cm, 'f) BlockWise \<Rightarrow>
   ('cm, 'f) BlockWise \<times> 'cm PMessage \<times> unit outcome" where
  "startSendingMessage env now w maxSZX maxMessageSize block exchangeKey match b =
     (case snd (PM_BodySize w) of
        Inl err \<Rightarrow> (b, w, Err err)
      | Inr payloadSize \<Rightarrow>
          if payloadSize < SZX_Size maxSZX then (b, w, Ret ())
          else
            (case createSendingMessage env w maxSZX maxMessageSize block of
               Panic \<Rightarrow> (b, w, Panic)
             | Err err \<Rightarrow> (b, w, Err err)
             | Ret (sendingMsg, _) \<Rightarrow>
                 if isObserveResponse sendingMsg \<and> match_code match \<noteq> codes_FETCH then (b, sendingMsg, Ret ())
                 else
                   (let expire = (case deadlineOf env sendingMsg of Some t \<Rightarrow> t | None \<Rightarrow> now + expiration b);
                        sending = \<lparr>sm_Message = Some w, sm_matchingKey = match_key match, sm_requestCode = match_code match,
                                   sm_endpoint = match_endpoint match\<rparr>;
                        (c, _, loaded) = Cache_LoadOrStore now exchangeKey (NewElement (nextElement b) sending (Some expire)) (sendingMessagesCache b);
                        b1 = b\<lparr>sendingMessagesCache := c, nextElement := Suc (nextElement b)\<rparr>
                    in if loaded then (b1, sendingMsg, Err (ErrOther ''message already exist''))
                       else (b1, sendingMsg, Ret ()))))"

definition continueSendingMessage ::
  "('cm, 'f) bw_env \<Rightarrow> time \<Rightarrow> 'cm PMessage \<Rightarrow> 'cm PMessage \<Rightarrow> SZX \<Rightarrow> u32 \<Rightarrow> u16 \<Rightarrow> u64 \<Rightarrow> ('cm, 'f) BlockWise \<Rightarrow>
   'cm PMessage \<times> bool outcome" where
  "continueSendingMessage env now w r maxSZX maxMessageSize sendingMessageCode exchangeKey b =
     (let blockType = (if isBodyMethod sendingMessageCode then Block1 else Block2) in
      case getUint32 r blockType of
        (_, Some err) \<Rightarrow> (w, Err err)
      | (block, None) \<Rightarrow>
          (case Cache_Load now exchangeKey (sendingMessagesCache b) of
             None \<Rightarrow> (w, Err (ErrOther ''cannot find sending message''))
           | Some v \<Rightarrow>
               (case sm_Message (elem_data v) of
                  None \<Rightarrow> (w, Err (ErrOther ''cannot find sending message''))
                | Some m \<Rightarrow>
                    (case createSendingMessage env m maxSZX maxMessageSize block of
                       Panic \<Rightarrow> (w, Panic)
                     | Err err \<Rightarrow> (w, Err err)
                     | Ret (sendMessage, moreBlocks) \<Rightarrow>
                         (if IsRequestCode (code_of r) then PM_SetToken (token_of r) sendMessage else sendMessage, Ret moreBlocks)))))"

text \<open>
  \<open>Do\<close> up to the call of \<open>do\<close>, and what its deferred function undoes afterwards.
\<close>

definition Do_start ::
  "('cm, 'f) bw_env \<Rightarrow> time \<Rightarrow> 'cm PMessage \<Rightarrow> SZX \<Rightarrow> u32 \<Rightarrow> bytes option \<Rightarrow> ('cm, 'f) BlockWise \<Rightarrow>
   ('cm, 'f) BlockWise \<times> 'cm PMessage outcome" where
  "Do_start env now r maxSzx maxMessageSize remoteAddr b =
     (if maxSzx > SZXBERT then (b, Err (ErrOther ''invalid szx''))
      else case getExchangeKey (token_of r) remoteAddr of
        Inl err \<Rightarrow> (b, Err err)
      | Inr exchangeKey \<Rightarrow>
          (let expire = (case deadlineOf env r of Some t \<Rightarrow> t | None \<Rightarrow> now + expiration b);
               sending = \<lparr>sm_Message = Some r, sm_matchingKey = 0, sm_requestCode = 0, sm_endpoint = []\<rparr>;
               (c, _, loaded) = Cache_LoadOrStore now exchangeKey (NewElement (nextElement b) sending (Some expire)) (sendingMessagesCache b);
               b1 = b\<lparr>sendingMessagesCache := c, nextElement := Suc (nextElement b)\<rparr>
           in if loaded then
                (b1, Err (ErrOther (if length (token_of r) = 0 then ''tokenless request already in progress'' else ''invalid token'')))
              else
                (case prepareSendingRequest env r maxSzx maxMessageSize of
                   Ret req \<Rightarrow> (b1, Ret req)
                 | Err err \<Rightarrow> (b1\<lparr>sendingMessagesCache := Map_Delete exchangeKey (sendingMessagesCache b1)\<rparr>, Err err)
                 | Panic \<Rightarrow> (b1, Panic))))"

definition Do_finish :: "u64 \<Rightarrow> ('cm, 'f) BlockWise \<Rightarrow> ('cm, 'f) BlockWise" where
  "Do_finish exchangeKey b = b\<lparr>sendingMessagesCache := Map_Delete exchangeKey (sendingMessagesCache b)\<rparr>"

definition bw_Do ::
  "('cm, 'f) bw_env \<Rightarrow> time \<Rightarrow> 'cm PMessage \<Rightarrow> SZX \<Rightarrow> u32 \<Rightarrow> bytes option \<Rightarrow>
   ('cm PMessage \<Rightarrow> ('cm, 'f) BlockWise \<Rightarrow> ('cm, 'f) BlockWise \<times> 'cm PMessage outcome) \<Rightarrow> ('cm, 'f) BlockWise \<Rightarrow>
   ('cm, 'f) BlockWise \<times> 'cm PMessage outcome" where
  "bw_Do env now r maxSzx maxMessageSize remoteAddr do_request b =
     (case Do_start env now r maxSzx maxMessageSize remoteAddr b of
        (b1, Ret req) \<Rightarrow>
          (let (b2, resp) = do_request req b1
           in (case getExchangeKey (token_of r) remoteAddr of Inr exchangeKey \<Rightarrow> Do_finish exchangeKey b2 | Inl _ \<Rightarrow> b2, resp))
      | (b1, Err err) \<Rightarrow> (b1, Err err)
      | (b1, Panic) \<Rightarrow> (b1, Panic))"

definition newWriteRequestResponse :: "('cm, 'f) bw_env \<Rightarrow> 'cm PMessage \<Rightarrow> 'cm PMessage outcome" where
  "newWriteRequestResponse env request =
     and_then (of_opt (PM_ResetOptionsTo (opts_of request) (PM_SetToken (token_of request) (PM_SetCode (code_of request) (fresh env)))))
       (\<lambda>req. (let req1 = PM_SetBody (body request) req
               in Ret (if Type (msg request) = Confirmable \<or> Type (msg request) = NonConfirmable
                       then PM_SetType (Type (msg request)) req1 else req1)))"

text \<open>
  \<open>invalidateObservationTransfers\<close>: the matching keys of the transfers of GET and FETCH to the endpoint are
  cleared, and those that are stored under their own matching key are dropped.
\<close>

definition invalidated :: "bytes \<Rightarrow> 'cm sendingMessage \<Rightarrow> bool" where
  "invalidated endpoint s \<longleftrightarrow> (sm_requestCode s = codes_GET \<or> sm_requestCode s = codes_FETCH)
     \<and> sm_endpoint s = endpoint \<and> sm_matchingKey s \<noteq> 0"

definition invalidateObservationTransfers :: "bytes \<Rightarrow> ('cm, 'f) BlockWise \<Rightarrow> ('cm, 'f) BlockWise" where
  "invalidateObservationTransfers endpoint b =
     (let c = sendingMessagesCache b;
          drops = map fst (filter (\<lambda>(key, e). invalidated endpoint (elem_data e) \<and> key = sm_matchingKey (elem_data e)) c);
          c1 = map (\<lambda>(key, e). (key, if invalidated endpoint (elem_data e)
                                       then e\<lparr>elem_data := (elem_data e)\<lparr>sm_matchingKey := 0\<rparr>\<rparr> else e)) c
      in b\<lparr>sendingMessagesCache := fold Map_Delete drops c1\<rparr>)"

text \<open>\<open>WriteMessage\<close> up to the call of \<open>writeMessage\<close>, for a message the Q-Block engine does not take.\<close>

text \<open>
  \<open>WriteMessage\<close> up to the call of \<open>writeMessage\<close>: the message to write, or \<open>None\<close> when the Q-Block engine
  (\<open>qblockNotify\<close>) has sent the notification itself.
\<close>

definition bw_WriteMessage ::
  "('cm, 'f) bw_env \<Rightarrow> time \<Rightarrow> ('cm PMessage \<Rightarrow> go_error option option) \<Rightarrow> 'cm PMessage \<Rightarrow> SZX \<Rightarrow> u32 \<Rightarrow> bytes option \<Rightarrow>
   ('cm, 'f) BlockWise \<Rightarrow> ('cm, 'f) BlockWise \<times> 'cm PMessage option outcome" where
  "bw_WriteMessage env now qblockNotify request maxSZX maxMessageSize remoteAddr b =
     (case qblockNotify request of
        Some (Some err) \<Rightarrow> (b, Err err)
      | Some None \<Rightarrow> (b, Ret None)
      | None \<Rightarrow>
     (case EncodeBlockOption maxSZX 0 True of
        Inl err \<Rightarrow> (b, Err err)
      | Inr startSendingMessageBlock \<Rightarrow>
          (case getExchangeKey (token_of request) remoteAddr of
             Inl err \<Rightarrow> (b, Err err)
           | Inr exchangeKey \<Rightarrow>
               (let b1 = (case remoteAddr of
                            Some addr \<Rightarrow> if isObserveResponse request then invalidateObservationTransfers addr b else b
                          | None \<Rightarrow> b)
                in case newWriteRequestResponse env request of
                     Panic \<Rightarrow> (b1, Panic)
                   | Err err \<Rightarrow> (b1, Err err)
                   | Ret w \<Rightarrow>
                       (case startSendingMessage env now w maxSZX maxMessageSize startSendingMessageBlock exchangeKey
                               \<lparr>match_key = 0, match_code = 0, match_endpoint = []\<rparr> b1 of
                          (b2, w1, Ret _) \<Rightarrow> (b2, Ret (Some w1))
                        | (b2, w1, Err err) \<Rightarrow> (b2, Err err)
                        | (b2, w1, Panic) \<Rightarrow> (b2, Panic))))))"

subsection \<open>Receiving\<close>

definition getSentRequest :: "('cm, 'f) bw_env \<Rightarrow> time \<Rightarrow> u64 \<Rightarrow> bytes \<Rightarrow> ('cm, 'f) BlockWise \<Rightarrow> 'cm PMessage option outcome" where
  "getSentRequest env now exchangeKey token b =
     (case (case Cache_Load now exchangeKey (sendingMessagesCache b) of
              None \<Rightarrow> None
            | Some v \<Rightarrow> sm_Message (elem_data v)) of
        Some m \<Rightarrow> and_then (CloneMessage env m) (\<lambda>c. Ret (Some c))
      | None \<Rightarrow> Ret (if length token = 0 then None else sentRequestFromOutside env token))"

definition handleObserveResponse ::
  "('cm, 'f) bw_env \<Rightarrow> time \<Rightarrow> 'cm PMessage option \<Rightarrow> ('cm, 'f) BlockWise \<Rightarrow> ('cm, 'f) BlockWise \<times> (bytes \<times> time) outcome" where
  "handleObserveResponse env now sentRequest b =
     (case sentRequest of
        None \<Rightarrow> (b, Err (ErrOther ''observation is not registered''))
      | Some sent \<Rightarrow>
          (case newToken env of
             Inl err \<Rightarrow> (b, Err err)
           | Inr token \<Rightarrow>
               (let validUntil = now + expiration b in
                case CloneMessage env sent of
                  Panic \<Rightarrow> (b, Panic)
                | Err err \<Rightarrow> (b, Err err)
                | Ret bwSentRequest \<Rightarrow>
                    (let sending = \<lparr>sm_Message = Some (PM_SetToken token bwSentRequest), sm_matchingKey = 0, sm_requestCode = 0, sm_endpoint = []\<rparr>;
                         (c, _, loaded) = Cache_LoadOrStore now (Token_Hash token)
                            (NewElement (nextElement b) sending (Some validUntil)) (sendingMessagesCache b);
                         b1 = b\<lparr>sendingMessagesCache := c, nextElement := Suc (nextElement b)\<rparr>
                     in if loaded then (b1, Err (ErrOther ''cannot process message: message with token already exist''))
                        else (b1, Ret (token, validUntil))))))"

definition getValidUntil :: "('cm, 'f) bw_env \<Rightarrow> time \<Rightarrow> 'cm PMessage option \<Rightarrow> ('cm, 'f) BlockWise \<Rightarrow> time" where
  "getValidUntil env now sentRequest b =
     (case sentRequest of
        None \<Rightarrow> now + expiration b
      | Some sent \<Rightarrow> (case deadlineOf env sent of Some deadline \<Rightarrow> deadline | None \<Rightarrow> now + expiration b))"

text \<open>\<open>BodySize\<close> of a message whose body is a memory file.\<close>

definition file_BodySize :: "'f memfile_ops \<Rightarrow> 'f \<Rightarrow> 'f \<times> (go_error + int)" where
  "file_BodySize ops f =
     (case mf_Seek ops f 0 SeekCurrent of
        (f1, Inl err) \<Rightarrow> (f1, Inl err)
      | (f1, Inr orig) \<Rightarrow>
          (case mf_Seek ops f1 0 SeekStart of
             (f2, Inl err) \<Rightarrow> (f2, Inl err)
           | (f2, Inr _) \<Rightarrow>
               (case mf_Seek ops f2 0 SeekEnd of
                  (f3, Inl err) \<Rightarrow> (f3, Inl err)
                | (f3, Inr sz) \<Rightarrow>
                    (case mf_Seek ops f3 orig SeekStart of
                       (f4, Inl err) \<Rightarrow> (f4, Inl err)
                     | (f4, Inr _) \<Rightarrow> (f4, Inr sz)))))"

definition getBytes :: "Options \<Rightarrow> u16 \<Rightarrow> bytes \<times> go_error option" where
  "getBytes options oid = (case Options_GetBytes options oid of Inl err \<Rightarrow> ([], Some err) | Inr v \<Rightarrow> (v, None))"

definition getPayloadFromCachedReceivedMessage ::
  "('cm, 'f) bw_env \<Rightarrow> 'cm PMessage \<Rightarrow> ('cm, 'f) messageGuard \<Rightarrow> ('cm, 'f) messageGuard \<times> (go_error + int)" where
  "getPayloadFromCachedReceivedMessage env r mg =
     (let (rETAG, errETAG) = getBytes (opts_of r) ETag;
          (cachedETAG, errCached) = getBytes (opts_of (mg_Message mg)) ETag;
          step = (if errETAG = None \<and> errCached \<noteq> None then
                    (if length cachedETAG > 0 then (mg, Some (ErrOther ''received message doesn't contains ETAG but cached received message contains it'')) else (mg, None))
                  else if errETAG \<noteq> None \<and> errCached = None then
                    (if length rETAG > 0 then (mg, Some (ErrOther ''received message contains ETAG but cached received message doesn't'')) else (mg, None))
                  else if rETAG \<noteq> cachedETAG then
                    (let (f, err) = mf_Truncate (memfile env) (mg_file mg) 0
                     in (mg\<lparr>mg_Message := PM_SetOptionBytes ETag rETAG (mg_Message mg), mg_file := f\<rparr>, err))
                  else (mg, None))
      in case step of
           (mg1, Some err) \<Rightarrow> (mg1, Inl err)
         | (mg1, None) \<Rightarrow>
             (let (f, sz) = file_BodySize (memfile env) (mg_file mg1) in (mg1\<lparr>mg_file := f\<rparr>, sz)))"

definition receiveBodySize :: "'cm PMessage \<Rightarrow> int \<Rightarrow> go_error + int" where
  "receiveBodySize r off =
     (case (if body r \<noteq> None then snd (PM_BodySize r) else Inr 0) of
        Inl err \<Rightarrow> Inl err
      | Inr n \<Rightarrow>
          (let sz = off + n in
           case getUint32 r Size1 of
             (size1, None) \<Rightarrow> Inr (max sz (uint size1))
           | (_, Some _) \<Rightarrow> Inr sz))"

definition rejectTooLarge ::
  "('cm, 'f) bw_env \<Rightarrow> 'cm PMessage \<Rightarrow> 'cm PMessage \<Rightarrow> u16 \<Rightarrow> bytes \<Rightarrow> int \<Rightarrow> ('cm, 'f) BlockWise \<Rightarrow>
   ('cm, 'f) BlockWise \<times> 'cm PMessage \<times> bool outcome" where
  "rejectTooLarge env w r blockType token off b =
     (if blockType \<noteq> Block1 \<or> maxReceiveBodySize b \<le> 0 then (b, w, Ret False)
      else case receiveBodySize r off of
        Inl err \<Rightarrow> (b, w, Err err)
      | Inr sz \<Rightarrow>
          if sz \<le> maxReceiveBodySize b then (b, w, Ret False)
          else case SendEntityTooLarge env token (maxReceiveBodySize b) of
                 Ret m \<Rightarrow> (report ErrRequestEntityTooLarge b, m, Ret True)
               | Err err \<Rightarrow> (b, w, Err err)
               | Panic \<Rightarrow> (b, w, Panic))"

definition checkFullBlock :: "'cm PMessage \<Rightarrow> SZX \<Rightarrow> go_error option" where
  "checkFullBlock r szx =
     (case snd (PM_BodySize r) of
        Inl err \<Rightarrow> Some err
      | Inr n \<Rightarrow>
          if n = SZX_Size szx \<or> szx = SZXBERT \<and> n > 0 \<and> n mod SZX_Size szx = 0 then None
          else Some ErrRequestEntityIncomplete)"

text \<open>\<open>io.Copy\<close> from a \<open>bytes.Reader\<close> writes all that is left in one call, and nothing when nothing is left.\<close>

definition copyToPayloadFromOffset ::
  "('cm, 'f) bw_env \<Rightarrow> 'cm PMessage \<Rightarrow> 'f \<Rightarrow> int \<Rightarrow> 'f \<times> (go_error + int)" where
  "copyToPayloadFromOffset env r payloadFile offset =
     (case mf_Seek (memfile env) payloadFile offset SeekStart of
        (f1, Inl err) \<Rightarrow> (f1, Inl err)
      | (f1, Inr copyn) \<Rightarrow>
          (case (case body r of
                   None \<Rightarrow> (f1, Inr 0)
                 | Some bdy \<Rightarrow> if rd_data bdy = [] then (f1, Inr 0) else mf_Write (memfile env) f1 (rd_data bdy)) of
             (f2, Inl err) \<Rightarrow> (f2, Inl err)
           | (f2, Inr written) \<Rightarrow>
               (let payloadSize = copyn + written in
                case mf_Truncate (memfile env) f2 payloadSize of
                  (f3, Some err) \<Rightarrow> (f3, Inl err)
                | (f3, None) \<Rightarrow> (f3, Inr payloadSize))))"

record receivedBlock =
  rb_exchangeKey :: u64
  rb_matchingKey :: u64
  rb_token :: bytes
  rb_blockType :: u16
  rb_sizeType :: u16
  rb_szx :: SZX
  rb_reqSzx :: SZX
  rb_maxSzx :: SZX
  rb_num :: int
  rb_more :: bool

definition store_guard :: "u64 \<Rightarrow> ('cm, 'f) messageGuard \<Rightarrow> ('cm, 'f) BlockWise \<Rightarrow> ('cm, 'f) BlockWise" where
  "store_guard key mg b =
     b\<lparr>receivingMessagesCache := AList.map_entry key (\<lambda>e. e\<lparr>elem_data := mg\<rparr>) (receivingMessagesCache b)\<rparr>"

definition delete_receiving :: "u64 \<Rightarrow> ('cm, 'f) BlockWise \<Rightarrow> ('cm, 'f) BlockWise" where
  "delete_receiving key b = b\<lparr>receivingMessagesCache := Map_Delete key (receivingMessagesCache b)\<rparr>"

definition delete_sending :: "u64 \<Rightarrow> ('cm, 'f) BlockWise \<Rightarrow> ('cm, 'f) BlockWise" where
  "delete_sending key b = b\<lparr>sendingMessagesCache := Map_Delete key (sendingMessagesCache b)\<rparr>"

definition getOrCreateReceivedMessageGuard ::
  "('cm, 'f) bw_env \<Rightarrow> time \<Rightarrow> 'cm PMessage \<Rightarrow> u64 \<Rightarrow> u64 \<Rightarrow> time \<Rightarrow> ('cm, 'f) BlockWise \<Rightarrow>
   ('cm, 'f) BlockWise \<times> ('cm, 'f) messageGuard outcome" where
  "getOrCreateReceivedMessageGuard env now r exchangeKey matchingKey validUntil b =
     (case Cache_Load now exchangeKey (receivingMessagesCache b) of
        Some e \<Rightarrow> (b, Ret (elem_data e))
      | None \<Rightarrow>
          (case PM_ResetOptionsTo (opts_of r) (fresh env) of
             None \<Rightarrow> (b, Panic)
           | Some m0 \<Rightarrow>
               (let m1 = PM_SetCode (code_of r) (PM_SetSequence (sequence r) (PM_SetToken (token_of r) m0));
                    mg = \<lparr>mg_Message = m1, mg_file = mf_New (memfile env) [], mg_matchingKey = matchingKey, mg_received = 0,
                          mg_exchange = exchangeKey\<rparr>;
                    (c, expired, res) = Cache_LoadOrStoreWithLimit now exchangeKey
                       (NewElement (nextElement b) mg (Some validUntil)) (receivingMessagesCacheMaxEntries b) (receivingMessagesCache b);
                    b1 = fold (\<lambda>d. delete_sending (mg_exchange d)) expired
                           (b\<lparr>receivingMessagesCache := c, nextElement := Suc (nextElement b)\<rparr>)
                in case res of
                     Inl err \<Rightarrow> (b1, Err err)
                   | Inr (element, _) \<Rightarrow> (b1, Ret (elem_data element)))))"

definition sendReceivedBlockContinue ::
  "('cm, 'f) bw_env \<Rightarrow> receivedBlock \<Rightarrow> 'cm PMessage option \<Rightarrow> int \<Rightarrow> 'cm PMessage outcome" where
  "sendReceivedBlockContinue env block sentRequest payloadSize =
     (let szx = getSzx (rb_szx block) (rb_maxSzx block);
          m0 = PM_SetToken (rb_token block) (fresh env)
      in and_then
           (if rb_blockType block = Block2 then
              (case sentRequest of
                 None \<Rightarrow> Panic
               | Some sent \<Rightarrow>
                   and_then (of_opt (PM_ResetOptionsTo (opts_of sent) m0)) (\<lambda>m1.
                     Ret (payloadSize div SZX_Size szx,
                          PM_Remove Size1 (PM_Remove Block1 (PM_Remove Observe (PM_SetCode (code_of sent) m1))))))
            else Ret (rb_num block, PM_SetCode codes_Continue m0))
           (\<lambda>(num, m2).
              and_then (of_sum (EncodeBlockOption szx num (rb_more block))) (\<lambda>respBlock.
              of_opt (PM_SetOptionUint32 (rb_blockType block) respBlock m2))))"

definition refreshReceiveExpiration :: "time \<Rightarrow> receivedBlock \<Rightarrow> bool \<Rightarrow> ('cm, 'f) BlockWise \<Rightarrow> ('cm, 'f) BlockWise" where
  "refreshReceiveExpiration now block newData b =
     (if \<not> rb_more block \<or> rb_blockType block \<noteq> Block1 \<or> \<not> rollingExpiration b \<or> \<not> newData then b
      else case Cache_Load now (rb_exchangeKey block) (receivingMessagesCache b) of
             None \<Rightarrow> b
           | Some _ \<Rightarrow>
               b\<lparr>receivingMessagesCache := AList.map_entry (rb_exchangeKey block)
                    (\<lambda>e. e\<lparr>ValidUntil := Some (now + expiration b)\<rparr>) (receivingMessagesCache b)\<rparr>)"

text \<open>The application's handler is called with the response so far and a request.\<close>

definition call_next ::
  "('cm PMessage \<Rightarrow> 'cm PMessage \<Rightarrow> 'cm PMessage) \<Rightarrow> 'cm PMessage \<Rightarrow> 'cm PMessage \<Rightarrow> ('cm, 'f) BlockWise \<Rightarrow>
   ('cm, 'f) BlockWise \<times> 'cm PMessage \<times> unit outcome" where
  "call_next next_handler w r b = (b\<lparr>handed := handed b @ [r]\<rparr>, next_handler w r, Ret ())"

definition respond_with :: "('cm, 'f) BlockWise \<Rightarrow> 'cm PMessage \<Rightarrow> 'cm PMessage outcome \<Rightarrow> ('cm, 'f) BlockWise \<times> 'cm PMessage \<times> unit outcome" where
  "respond_with b w m =
     (case m of Ret w' \<Rightarrow> (b, w', Ret ()) | Err err \<Rightarrow> (b, w, Err err) | Panic \<Rightarrow> (b, w, Panic))"

definition appendReceivedBlock ::
  "('cm, 'f) bw_env \<Rightarrow> time \<Rightarrow> ('cm PMessage \<Rightarrow> 'cm PMessage \<Rightarrow> 'cm PMessage) \<Rightarrow> 'cm PMessage \<Rightarrow> 'cm PMessage \<Rightarrow>
   ('cm, 'f) messageGuard \<Rightarrow> receivedBlock \<Rightarrow> 'cm PMessage option \<Rightarrow> int \<Rightarrow> int \<Rightarrow> ('cm, 'f) BlockWise \<Rightarrow>
   ('cm, 'f) BlockWise \<times> 'cm PMessage \<times> unit outcome" where
  "appendReceivedBlock env now next_handler w r mg block sentRequest payloadSize off b =
     (if off \<noteq> payloadSize then
        respond_with (store_guard (rb_exchangeKey block) mg b) w (sendReceivedBlockContinue env block sentRequest payloadSize)
      else
        (case copyToPayloadFromOffset env r (mg_file mg) off of
           (f, Inl err) \<Rightarrow> (store_guard (rb_exchangeKey block) (mg\<lparr>mg_file := f\<rparr>) b, w, Err err)
         | (f, Inr payloadSize') \<Rightarrow>
             (let mg1 = mg\<lparr>mg_file := f, mg_received := payloadSize'\<rparr>;
                  b1 = refreshReceiveExpiration now block (payloadSize' > off) (store_guard (rb_exchangeKey block) mg1 b)
              in if rb_more block then respond_with b1 w (sendReceivedBlockContinue env block sentRequest payloadSize')
                 else
                   (let b2 = delete_receiving (rb_exchangeKey block) b1;
                        m1 = PM_SetType (Type (msg r)) (PM_Remove (rb_sizeType block) (PM_Remove (rb_blockType block) (mg_Message mg1)));
                        b3 = (if token_of m1 \<noteq> rb_token block then delete_sending (rb_exchangeKey block) b2 else b2)
                    in case mf_Seek (memfile env) f 0 SeekStart of
                         (_, Inl err) \<Rightarrow> (b3, w, Err err)
                       | (f', Inr _) \<Rightarrow>
                           call_next next_handler w (m1\<lparr>body := Some (NewReader (mf_Bytes (memfile env) f'))\<rparr>) b3))))"

definition processCachedReceivedBlock ::
  "('cm, 'f) bw_env \<Rightarrow> time \<Rightarrow> ('cm PMessage \<Rightarrow> 'cm PMessage \<Rightarrow> 'cm PMessage) \<Rightarrow> 'cm PMessage \<Rightarrow> 'cm PMessage \<Rightarrow>
   ('cm, 'f) messageGuard \<Rightarrow> receivedBlock \<Rightarrow> 'cm PMessage option \<Rightarrow> ('cm, 'f) BlockWise \<Rightarrow>
   ('cm, 'f) BlockWise \<times> 'cm PMessage \<times> unit outcome" where
  "processCachedReceivedBlock env now next_handler w r mg block sentRequest b =
     (let on_error = (\<lambda>(b', w', res). case res of Err err \<Rightarrow> (delete_receiving (rb_exchangeKey block) b', w', res) | _ \<Rightarrow> (b', w', res)) in
      case getPayloadFromCachedReceivedMessage env r mg of
        (mg1, Inl err) \<Rightarrow> on_error (b, w, Err err)
      | (mg1, Inr payloadSize) \<Rightarrow>
          (case (if rb_blockType block = Block1 \<and> rb_more block then checkFullBlock r (rb_reqSzx block) else None) of
             Some err \<Rightarrow> on_error (b, w, Err err)
           | None \<Rightarrow>
               (let off = rb_num block * SZX_Size (rb_szx block) in
                if rb_blockType block = Block1 \<and> (off > payloadSize \<or> off < payloadSize \<and> \<not> rb_more block)
                then on_error (b, w, Err ErrRequestEntityIncomplete)
                else case rejectTooLarge env w r (rb_blockType block) (rb_token block) off b of
                  (b1, w1, Err err) \<Rightarrow> on_error (delete_receiving (rb_exchangeKey block) b1, w1, Err err)
                | (b1, w1, Panic) \<Rightarrow> (b1, w1, Panic)
                | (b1, w1, Ret True) \<Rightarrow> (delete_receiving (rb_exchangeKey block) b1, w1, Ret ())
                | (b1, w1, Ret False) \<Rightarrow>
                    on_error (appendReceivedBlock env now next_handler w1 r mg1 block sentRequest payloadSize off b1))))"

definition processReceivedBlock ::
  "('cm, 'f) bw_env \<Rightarrow> time \<Rightarrow> ('cm PMessage \<Rightarrow> 'cm PMessage \<Rightarrow> 'cm PMessage) \<Rightarrow> 'cm PMessage \<Rightarrow> 'cm PMessage \<Rightarrow>
   receivedBlock \<Rightarrow> ('cm, 'f) BlockWise \<Rightarrow> ('cm, 'f) BlockWise \<times> 'cm PMessage \<times> unit outcome" where
  "processReceivedBlock env now next_handler w r block0 b =
     (case getSentRequest env now (rb_exchangeKey block0) (rb_token block0) b of
        Panic \<Rightarrow> (b, w, Panic)
      | Err err \<Rightarrow> (b, w, Err err)
      | Ret sentRequest \<Rightarrow>
          (let validUntil0 = getValidUntil env now sentRequest b in
           if rb_blockType block0 = Block2 \<and> sentRequest = None
           then (b, w, Err (ErrOther ''cannot request body without paired request''))
           else
             (case (if isObserveResponse r then handleObserveResponse env now sentRequest b
                    else (b, Ret (rb_token block0, validUntil0))) of
                (b1, Panic) \<Rightarrow> (b1, w, Panic)
              | (b1, Err err) \<Rightarrow> (b1, w, Err err)
              | (b1, Ret (token, validUntil)) \<Rightarrow>
                  (let block1 = (if isObserveResponse r then block0\<lparr>rb_token := token, rb_exchangeKey := Token_Hash token\<rparr> else block0) in
                   case Cache_Load now (rb_exchangeKey block1) (receivingMessagesCache b1) of
                     Some e \<Rightarrow> processCachedReceivedBlock env now next_handler w r (elem_data e) block1 sentRequest b1
                   | None \<Rightarrow>
                       if rb_blockType block1 = Block1 \<and> rb_num block1 \<noteq> 0 then (b1, w, Err ErrRequestEntityIncomplete)
                       else if \<not> rb_more block1 then
                         (case rejectTooLarge env w r (rb_blockType block1) (rb_token block1) 0 b1 of
                            (b2, w2, Err err) \<Rightarrow> (b2, w2, Err err)
                          | (b2, w2, Panic) \<Rightarrow> (b2, w2, Panic)
                          | (b2, w2, Ret True) \<Rightarrow> (b2, w2, Ret ())
                          | (b2, w2, Ret False) \<Rightarrow> call_next next_handler w2 r b2)
                       else
                         (let block2 = block1\<lparr>rb_szx := getSzx (rb_szx block1) (rb_maxSzx block1)\<rparr> in
                          case getOrCreateReceivedMessageGuard env now r (rb_exchangeKey block2) (rb_matchingKey block2) validUntil b1 of
                            (b2, Panic) \<Rightarrow> (b2, w, Panic)
                          | (b2, Err err) \<Rightarrow> (b2, w, Err err)
                          | (b2, Ret mg) \<Rightarrow> processCachedReceivedBlock env now next_handler w r mg block2 sentRequest b2)))))"

definition processReceivedMessage ::
  "('cm, 'f) bw_env \<Rightarrow> time \<Rightarrow> ('cm PMessage \<Rightarrow> 'cm PMessage \<Rightarrow> 'cm PMessage) \<Rightarrow> 'cm PMessage \<Rightarrow> 'cm PMessage \<Rightarrow>
   SZX \<Rightarrow> u64 \<Rightarrow> u64 \<Rightarrow> u16 \<Rightarrow> u16 \<Rightarrow> ('cm, 'f) BlockWise \<Rightarrow> ('cm, 'f) BlockWise \<times> 'cm PMessage \<times> unit outcome" where
  "processReceivedMessage env now next_handler w r maxSzx exchange matching blockType sizeType b =
     (if code_of r = codes_GET \<or> code_of r = codes_DELETE then call_next next_handler w r b
      else case getUint32 r blockType of
        (_, Some err) \<Rightarrow> if err = ErrOptionNotFound then call_next next_handler w r b else (b, w, Err err)
      | (block, None) \<Rightarrow>
          (case DecodeBlockOption block of
             (_, _, _, Some err) \<Rightarrow> (b, w, Err err)
           | (szx, num, moreBlocks, None) \<Rightarrow>
               processReceivedBlock env now next_handler w r
                 \<lparr>rb_exchangeKey = exchange, rb_matchingKey = matching, rb_token = token_of r, rb_blockType = blockType,
                  rb_sizeType = sizeType, rb_szx = szx, rb_reqSzx = szx, rb_maxSzx = maxSzx, rb_num = num, rb_more = moreBlocks\<rparr> b))"

definition echoFinalBlock1 :: "'cm PMessage \<Rightarrow> 'cm PMessage \<Rightarrow> u16 \<Rightarrow> 'cm PMessage outcome" where
  "echoFinalBlock1 resp r receivedCode =
     (if \<not> isBodyMethod receivedCode then Ret resp
      else case getUint32 r Block1 of
        (_, Some _) \<Rightarrow> Ret resp
      | (block, None) \<Rightarrow>
          (case DecodeBlockOption block of
             (_, _, moreBlocks, err) \<Rightarrow>
               if err \<noteq> None \<or> moreBlocks then Ret resp
               else if code_of resp \<in> {codes_Empty, codes_Continue, codes_RequestEntityIncomplete, codes_RequestEntityTooLarge} then Ret resp
               else if hasOption resp Block1 then Ret resp
               else of_opt (PM_SetOptionUint32 Block1 block resp)))"

definition handleReceivedMessage ::
  "('cm, 'f) bw_env \<Rightarrow> time \<Rightarrow> ('cm PMessage \<Rightarrow> 'cm PMessage \<Rightarrow> 'cm PMessage) \<Rightarrow> 'cm PMessage \<Rightarrow> 'cm PMessage \<Rightarrow>
   SZX \<Rightarrow> u32 \<Rightarrow> bytes option \<Rightarrow> u64 \<Rightarrow> ('cm, 'f) BlockWise \<Rightarrow> ('cm, 'f) BlockWise \<times> 'cm PMessage \<times> unit outcome" where
  "handleReceivedMessage env now next_handler w r0 maxSZX0 maxMessageSize remoteAddr exchangeKey b =
     (case EncodeBlockOption maxSZX0 0 True of
        Inl err \<Rightarrow> (b, w, Err err)
      | Inr startBlock0 \<Rightarrow>
          (let receivedCode = code_of r0 in
           if receivedCode \<in> {codes_Empty, codes_CSM, codes_Ping, codes_Pong, codes_Release, codes_Abort}
           then call_next next_handler w r0 b
           else
             (let (r, maxSZX, startBlock, b1, w1, res) =
                (if receivedCode = codes_GET \<or> receivedCode = codes_DELETE then
                   (let (b1, w1, res) = call_next next_handler w r0 b;
                        (block, errG) = getUint32 r0 Block2
                    in (r0, fitSZX r0 Block2 maxSZX0,
                        if code_of w1 = codes_Content \<and> errG = None then block else startBlock0, b1, w1, res))
                 else if isBodyMethod receivedCode then
                   (let maxSZX = fitSZX r0 Block1 maxSZX0;
                        (b1, w1, res) = processReceivedMessage env now next_handler w r0 maxSZX exchangeKey
                          (requestMatchingKey r0 remoteAddr) Block1 Size1 b
                    in (r0, maxSZX, startBlock0, b1, w1, res))
                 else
                   (let r1 = (if code_of r0 \<ge> codes_Created then PM_Remove Block1 r0 else r0);
                        maxSZX = fitSZX r1 Block2 maxSZX0;
                        (b1, w1, res) = processReceivedMessage env now next_handler w r1 maxSZX exchangeKey 0 Block2 Size2 b
                    in (r1, maxSZX, startBlock0, b1, w1, res)))
              in case res of
                   Err err \<Rightarrow> (b1, w1, Err err)
                 | Panic \<Rightarrow> (b1, w1, Panic)
                 | Ret _ \<Rightarrow>
                     (case startSendingMessage env now w1 maxSZX maxMessageSize startBlock exchangeKey
                             (getSendingMatch r w1 receivedCode remoteAddr) b1 of
                        (b2, w2, Err err) \<Rightarrow> (b2, w2, Err err)
                      | (b2, w2, Panic) \<Rightarrow> (b2, w2, Panic)
                      | (b2, w2, Ret _) \<Rightarrow> respond_with b2 w2 (echoFinalBlock1 w2 r receivedCode)))))"

definition getSendingMessageCode :: "time \<Rightarrow> u64 \<Rightarrow> ('cm, 'f) BlockWise \<Rightarrow> u16 option" where
  "getSendingMessageCode now token b =
     (case Cache_Load now token (sendingMessagesCache b) of
        None \<Rightarrow> None
      | Some v \<Rightarrow> map_option code_of (sm_Message (elem_data v)))"

definition Handle_received ::
  "('cm, 'f) bw_env \<Rightarrow> time \<Rightarrow> ('cm PMessage \<Rightarrow> 'cm PMessage \<Rightarrow> 'cm PMessage) \<Rightarrow> 'cm PMessage \<Rightarrow> 'cm PMessage \<Rightarrow>
   SZX \<Rightarrow> u32 \<Rightarrow> bytes option \<Rightarrow> u64 \<Rightarrow> ('cm, 'f) BlockWise \<Rightarrow> (('cm, 'f) BlockWise \<times> 'cm PMessage) option" where
  "Handle_received env now next_handler w r maxSZX maxMessageSize remoteAddr exchangeKey b =
     (case handleReceivedMessage env now next_handler w r maxSZX maxMessageSize remoteAddr exchangeKey b of
        (b1, w1, Panic) \<Rightarrow> None
      | (b1, w1, Ret _) \<Rightarrow> Some (b1, w1)
      | (b1, w1, Err err) \<Rightarrow>
          Some (report err b1, if err = ErrCacheFull then SendServiceUnavailable env (token_of r)
                               else sendEntityIncomplete env (token_of r)))"

definition Handle ::
  "('cm, 'f) bw_env \<Rightarrow> time \<Rightarrow> ('cm PMessage \<Rightarrow> 'cm PMessage \<Rightarrow> 'cm PMessage option) \<Rightarrow>
   ('cm PMessage \<Rightarrow> 'cm PMessage \<Rightarrow> 'cm PMessage) \<Rightarrow> 'cm PMessage \<Rightarrow> 'cm PMessage \<Rightarrow>
   SZX \<Rightarrow> u32 \<Rightarrow> bytes option \<Rightarrow> ('cm, 'f) BlockWise \<Rightarrow> (('cm, 'f) BlockWise \<times> 'cm PMessage) option" where
  "Handle env now qblockHandle next_handler w r maxSZX maxMessageSize remoteAddr b =
     (if maxSZX > SZXBERT then None
      else case qblockHandle w r of
        Some w' \<Rightarrow> Some (b, w')
      | None \<Rightarrow>
          (let token = token_of r in
           case getMessageExchangeKey r remoteAddr of
             Inl err \<Rightarrow> Some (report err b, w)
           | Inr key0 \<Rightarrow>
               (case resolveBlock1ExchangeKey now r remoteAddr key0 b of
                  Inl err \<Rightarrow> Some (report err b, sendEntityIncomplete env token)
                | Inr key1 \<Rightarrow>
                    (case resolveBlock2ExchangeKey now r remoteAddr key1 b of
                       Inl err \<Rightarrow> Some (report err b, sendEntityIncomplete env token)
                     | Inr exchangeKey \<Rightarrow>
                         (case getSendingMessageCode now exchangeKey b of
                            Some sendingMessageCode \<Rightarrow>
                              if wantsToBeReceived r
                              then Handle_received env now next_handler w r maxSZX maxMessageSize remoteAddr exchangeKey b
                              else
                                (case continueSendingMessage env now w r maxSZX maxMessageSize sendingMessageCode exchangeKey b of
                                   (w1, Panic) \<Rightarrow> None
                                 | (w1, Err err) \<Rightarrow> Some (report err (delete_sending exchangeKey b), w1)
                                 | (w1, Ret moreBlocks) \<Rightarrow>
                                     Some (if \<not> moreBlocks \<and> \<not> IsRequestCode sendingMessageCode then delete_sending exchangeKey b else b, w1))
                          | None \<Rightarrow> Handle_received env now next_handler w r maxSZX maxMessageSize remoteAddr exchangeKey b)))))"

definition bw_CheckExpirations :: "time \<Rightarrow> ('cm, 'f) BlockWise \<Rightarrow> ('cm, 'f) BlockWise" where
  "bw_CheckExpirations now b =
     (let (receiving, expired) = Cache_CheckExpirations now (receivingMessagesCache b);
          b1 = fold (\<lambda>d. delete_sending (mg_exchange d)) expired (b\<lparr>receivingMessagesCache := receiving\<rparr>);
          (sending, _) = Cache_CheckExpirations now (sendingMessagesCache b1)
      in b1\<lparr>sendingMessagesCache := sending\<rparr>)"

end
