(* ===== verification/Qblock_Engine.thy ===== *)
theory Qblock_Engine
  imports Qblock_Assembly Response_Writer Blockwise
begin

text \<open>
  The state of the Q-Block engine of a connection and its limits, \<open>net/blockwise/qblock/engine.go\<close>,
  \<open>budget.go\<close> and \<open>transport.go\<close>.

  Transfers and observations are shared by pointer; they are kept in lists that stand for the heap, and a
  pointer is an index.  A critical section under a mutex of the engine is one step, which sees one time
  \<open>now\<close>.  The transport of the code is an interface; here it is a record of operations on a state of
  its own.  Messages taken from the pool are the message \<open>qe_fresh\<close>; what becomes of messages that are
  released is the matter of the pool.
\<close>

subsection \<open>Transfers\<close>

record 'cm q1ReceiveTransfer =
  t1_assembly :: "Assembly option"
  t1_expires :: time
  t1_completed :: bool
  t1_bytes :: int
  t1_bodySize :: int
  t1_szx :: SZX
  t1_response :: "'cm PMessage option"
  t1_token :: bytes
  t1_mode :: int
  t1_lastValue :: u32
  t1_retries :: int
  t1_updated :: time
  t1_reportedSet :: int
  t1_reportedAt :: time
  t1_continuedThrough :: int
  t1_continues :: "(int, u32) smap"
  t1_completionSequence :: u64
  t1_completionToken :: bytes

record 'cm q2SendTransfer =
  t2_message :: "'cm PMessage"
  t2_expires :: time
  t2_size :: int
  t2_sentThrough :: int
  t2_delay :: int
  t2_identity :: bytes
  t2_mode :: int
  t2_terminalObservationKey :: bytes
  t2_recoveryUntil :: time

record 'cm qObservation =
  ob_request :: "'cm PMessage"
  ob_key :: bytes
  ob_szx :: SZX
  ob_registrationKey :: bytes

text \<open>A job of the schedule; \<open>job_generation\<close> is the transfer it belongs to.\<close>

record q2SetJob =
  job_key :: bytes
  job_token :: bytes
  job_szx :: SZX
  job_mode :: int
  job_nums :: "int list"
  job_count :: int
  job_wholeBody :: bool
  job_recovery :: bool
  job_generation :: "nat option"

datatype q_job = Q1Missing bytes | Q2Set q2SetJob

text \<open>The interface \<open>Transport\<close>, and \<open>AsyncSender\<close> for a transport that has it.\<close>

record ('cm, 't) q_transport =
  tr_Schedule :: "bytes \<Rightarrow> time \<Rightarrow> q_job \<Rightarrow> 't \<Rightarrow> 't \<times> go_error option"
  tr_Delay :: "bytes \<Rightarrow> time \<Rightarrow> 't \<Rightarrow> 't"
  tr_Cancel :: "bytes \<Rightarrow> 't \<Rightarrow> 't"
  tr_Send :: "'cm PMessage \<Rightarrow> 't \<Rightarrow> 't \<times> go_error option"
  tr_SendAsync :: "('cm PMessage \<Rightarrow> q2SetJob \<Rightarrow> 't \<Rightarrow> 't \<times> go_error option) option"

subsection \<open>The engine\<close>

text \<open>
  The two counters of the process are shared with the engines of other connections.  \<open>e_handed\<close> are the
  requests the application was given, \<open>e_errors\<close> the errors that were reported, and \<open>e_afterWrite\<close> the jobs
  to schedule when the response has been written.
\<close>

record ('cm, 't) Engine =
  e_config :: QConfig
  e_errors :: "go_error list"
  e_maxReceiveBodySize :: int
  e_maxEntries :: int
  e_retainedBytes :: int
  e_retainedTransfers :: int
  e_processBytes :: int
  e_processTransfers :: int
  e_q1Heap :: "'cm q1ReceiveTransfer list"
  e_q1Receivers :: "(bytes, nat) smap"
  e_q1ReceiveBytes :: int
  e_q1Closed :: bool
  e_q2Heap :: "'cm q2SendTransfer list"
  e_q2Senders :: "(bytes, nat) smap"
  e_obsHeap :: "'cm qObservation list"
  e_qObservations :: "(bytes, nat) smap"
  e_qCanceled :: "(bytes, time) smap"
  e_q2SendBytes :: int
  e_q2Closed :: bool
  e_handed :: "'cm PMessage list"
  e_afterWrite :: "(q2SetJob \<times> int) list"
  e_transport :: 't

record ('cm, 't) q_env =
  qe_fresh :: "'cm PMessage"
  qe_transport :: "('cm, 't) q_transport option"
  qe_postWrite :: bool
  qe_jitter :: int

definition Engine_New :: "int \<Rightarrow> int \<Rightarrow> 't \<Rightarrow> ('cm, 't) Engine" where
  "Engine_New processBytes processTransfers t =
     \<lparr>e_config = DefaultConfig, e_errors = [], e_maxReceiveBodySize = 0, e_maxEntries = 4096,
      e_retainedBytes = 0, e_retainedTransfers = 0, e_processBytes = processBytes, e_processTransfers = processTransfers,
      e_q1Heap = [], e_q1Receivers = [], e_q1ReceiveBytes = 0, e_q1Closed = False,
      e_q2Heap = [], e_q2Senders = [], e_obsHeap = [], e_qObservations = [], e_qCanceled = [],
      e_q2SendBytes = 0, e_q2Closed = False, e_handed = [], e_afterWrite = [], e_transport = t\<rparr>"

definition SetConfig :: "QConfig \<Rightarrow> ('cm, 't) Engine \<Rightarrow> ('cm, 't) Engine \<times> go_error option" where
  "SetConfig c b = (case Resolve c of Inl err \<Rightarrow> (b, Some err) | Inr resolved \<Rightarrow> (b\<lparr>e_config := resolved\<rparr>, None))"

definition q_SetMaxReceiveBodySize :: "int \<Rightarrow> ('cm, 't) Engine \<Rightarrow> ('cm, 't) Engine" where
  "q_SetMaxReceiveBodySize n b = b\<lparr>e_maxReceiveBodySize := max n 0\<rparr>"

definition q_SetReceivingMessagesCacheMaxEntries :: "int \<Rightarrow> ('cm, 't) Engine \<Rightarrow> ('cm, 't) Engine" where
  "q_SetReceivingMessagesCacheMaxEntries n b = b\<lparr>e_maxEntries := max n 0\<rparr>"

definition q_report :: "go_error \<Rightarrow> ('cm, 't) Engine \<Rightarrow> ('cm, 't) Engine" where
  "q_report e b = b\<lparr>e_errors := e_errors b @ [e]\<rparr>"

definition put1 :: "nat \<Rightarrow> 'cm q1ReceiveTransfer \<Rightarrow> ('cm, 't) Engine \<Rightarrow> ('cm, 't) Engine" where
  "put1 i t b = b\<lparr>e_q1Heap := (e_q1Heap b)[i := t]\<rparr>"

definition put2 :: "nat \<Rightarrow> 'cm q2SendTransfer \<Rightarrow> ('cm, 't) Engine \<Rightarrow> ('cm, 't) Engine" where
  "put2 i t b = b\<lparr>e_q2Heap := (e_q2Heap b)[i := t]\<rparr>"

subsection \<open>Limits\<close>

definition qProcessMaxBytes :: int where "qProcessMaxBytes = 256 * 2 ^ 20"
definition qProcessMaxTransfers :: int where "qProcessMaxTransfers = 8192"
definition qEngineMaxBytes :: int where "qEngineMaxBytes = 32 * 2 ^ 20"
definition qEngineMaxTransfers :: int where "qEngineMaxTransfers = 128"

text \<open>The counter after \<open>qReserve\<close>, and whether it could be raised.\<close>

definition qReserve :: "int \<Rightarrow> int \<Rightarrow> int \<Rightarrow> int \<times> bool" where
  "qReserve counter amount limit =
     (if amount < 0 then (counter, False)
      else if amount > limit - counter then (counter, False)
      else (counter + amount, True))"

definition qReserveBytes :: "int \<Rightarrow> ('cm, 't) Engine \<Rightarrow> ('cm, 't) Engine \<times> bool" where
  "qReserveBytes n b =
     (let (c, ok) = qReserve (e_retainedBytes b) n qEngineMaxBytes in
      if \<not> ok then (b, False)
      else
        (let b1 = b\<lparr>e_retainedBytes := c\<rparr>;
             (p, ok2) = qReserve (e_processBytes b1) n qProcessMaxBytes
         in if \<not> ok2 then (b1\<lparr>e_retainedBytes := e_retainedBytes b1 - n\<rparr>, False)
            else (b1\<lparr>e_processBytes := p\<rparr>, True)))"

definition qReserveTransfer :: "('cm, 't) Engine \<Rightarrow> ('cm, 't) Engine \<times> bool" where
  "qReserveTransfer b =
     (let (c, ok) = qReserve (e_retainedTransfers b) 1 qEngineMaxTransfers in
      if \<not> ok then (b, False)
      else
        (let b1 = b\<lparr>e_retainedTransfers := c\<rparr>;
             (p, ok2) = qReserve (e_processTransfers b1) 1 qProcessMaxTransfers
         in if \<not> ok2 then (b1\<lparr>e_retainedTransfers := e_retainedTransfers b1 - 1\<rparr>, False)
            else (b1\<lparr>e_processTransfers := p\<rparr>, True)))"

definition qReleaseBytes :: "int \<Rightarrow> ('cm, 't) Engine \<Rightarrow> ('cm, 't) Engine" where
  "qReleaseBytes n b = b\<lparr>e_retainedBytes := e_retainedBytes b - n, e_processBytes := e_processBytes b - n\<rparr>"

definition qReleaseTransfer :: "('cm, 't) Engine \<Rightarrow> ('cm, 't) Engine" where
  "qReleaseTransfer b = b\<lparr>e_retainedTransfers := e_retainedTransfers b - 1, e_processTransfers := e_processTransfers b - 1\<rparr>"

subsection \<open>Removing transfers\<close>

text \<open>The statements that take a transfer out of its table, as they stand in several functions.\<close>

definition drop_q1 :: "bytes \<Rightarrow> nat \<Rightarrow> ('cm, 't) Engine \<Rightarrow> ('cm, 't) Engine" where
  "drop_q1 key i b =
     (let n = t1_bytes (e_q1Heap b ! i);
          b1 = b\<lparr>e_q1Receivers := AList.delete key (e_q1Receivers b), e_q1ReceiveBytes := e_q1ReceiveBytes b - n\<rparr>
      in qReleaseTransfer (qReleaseBytes n b1))"

definition drop_q2 :: "bytes \<Rightarrow> nat \<Rightarrow> ('cm, 't) Engine \<Rightarrow> ('cm, 't) Engine" where
  "drop_q2 key i b =
     (let n = t2_size (e_q2Heap b ! i);
          b1 = b\<lparr>e_q2Senders := AList.delete key (e_q2Senders b), e_q2SendBytes := e_q2SendBytes b - n\<rparr>
      in qReleaseTransfer (qReleaseBytes n b1))"

definition q_CheckExpirations :: "time \<Rightarrow> ('cm, 't) Engine \<Rightarrow> ('cm, 't) Engine" where
  "q_CheckExpirations now b =
     (let b1 = fold (\<lambda>(key, i) b. if \<not> t1_expires (e_q1Heap b ! i) > now then drop_q1 key i b else b) (e_q1Receivers b) b
      in fold (\<lambda>(key, i) b. if \<not> t2_expires (e_q2Heap b ! i) > now then drop_q2 key i b else b) (e_q2Senders b1) b1)"

definition CloseQBlockTransfers :: "('cm, 't) Engine \<Rightarrow> ('cm, 't) Engine" where
  "CloseQBlockTransfers b =
     (let b1 = fold (\<lambda>(key, i) b.
              qReleaseTransfer (qReleaseBytes (t1_bytes (e_q1Heap b ! i)) (b\<lparr>e_q1Receivers := AList.delete key (e_q1Receivers b)\<rparr>)))
            (e_q1Receivers b) (b\<lparr>e_q1Closed := True\<rparr>);
          b2 = b1\<lparr>e_q1ReceiveBytes := 0, e_q2Closed := True, e_qCanceled := []\<rparr>;
          b3 = fold (\<lambda>(key, _) b. qReleaseTransfer b\<lparr>e_qObservations := AList.delete key (e_qObservations b)\<rparr>) (e_qObservations b2) b2;
          b4 = fold (\<lambda>(key, i) b.
              qReleaseTransfer (qReleaseBytes (t2_size (e_q2Heap b ! i)) (b\<lparr>e_q2Senders := AList.delete key (e_q2Senders b)\<rparr>)))
            (e_q2Senders b3) b3
      in b4\<lparr>e_q2SendBytes := 0\<rparr>)"

definition qClosedError :: "bool \<Rightarrow> go_error option" where
  "qClosedError isClosed = (if isClosed then Some ErrCanceled else None)"

subsection \<open>Messages\<close>

definition cloneMessage :: "('cm, 't) q_env \<Rightarrow> 'cm PMessage \<Rightarrow> 'cm PMessage option" where
  "cloneMessage env r =
     map_option (PM_SetType (Type (msg r)))
       (PM_ResetOptionsTo (opts_of r) (PM_SetToken (token_of r) (PM_SetCode (code_of r) (qe_fresh env))))"

definition qBodyMethod :: "u16 \<Rightarrow> bool" where
  "qBodyMethod code \<longleftrightarrow> code = codes_POST \<or> code = codes_PUT \<or> code = codes_FETCH \<or> code = codes_PATCH \<or> code = codes_IPATCH"

definition optionCount :: "'cm PMessage \<Rightarrow> u16 \<Rightarrow> int" where
  "optionCount r oid = int (length (filter (\<lambda>o1. ID o1 = oid) (opts_of r)))"

definition readQBody :: "'cm PMessage \<Rightarrow> go_error + bytes" where
  "readQBody r =
     (case body r of
        None \<Rightarrow> Inr []
      | Some b \<Rightarrow>
          (case reader_Seek b 0 SeekStart of
             (_, Inl err) \<Rightarrow> Inl err
           | (b1, Inr _) \<Rightarrow>
               (let (b2, data) = reader_ReadAll b1
                in case reader_Seek b2 0 SeekStart of (_, Inl err) \<Rightarrow> Inl err | (_, Inr _) \<Rightarrow> Inr data)))"

text \<open>A complete assembly as the body of a message: what its reader reads.\<close>

definition sparse_body :: "qSparseReader \<Rightarrow> reader option" where
  "sparse_body r = map_option (\<lambda>(_, data). NewReader data) (sparse_loop (nat (sr_size r)) r)"

definition q_sendServiceUnavailable :: "('cm, 't) q_env \<Rightarrow> bytes \<Rightarrow> 'cm ResponseWriter \<Rightarrow> 'cm ResponseWriter" where
  "q_sendServiceUnavailable env token w =
     fst (rw_SetMessage (PM_SetType NonConfirmable (PM_SetToken token (PM_SetCode codes_ServiceUnavailable (qe_fresh env)))) w)"

definition q1DefaultMaxBodySize :: int where "q1DefaultMaxBodySize = 16 * 2 ^ 20"
definition q1MaxTrackedBlocks :: int where "q1MaxTrackedBlocks = 2 ^ 16"

definition q_sendEntityTooLarge :: "('cm, 't) q_env \<Rightarrow> bytes \<Rightarrow> ('cm, 't) Engine \<Rightarrow> 'cm ResponseWriter \<Rightarrow> 'cm ResponseWriter option" where
  "q_sendEntityTooLarge env token b w =
     (let limit = (if e_maxReceiveBodySize b \<le> 0 then q1DefaultMaxBodySize else e_maxReceiveBodySize b);
          m = PM_SetType NonConfirmable (PM_SetToken token (PM_SetCode codes_RequestEntityTooLarge (qe_fresh env)));
          size1 = min limit (2 ^ 32 - 1)
      in map_option (\<lambda>m1. fst (rw_SetMessage m1 w)) (PM_SetOptionUint32 Size1 (word_of_int (CastTo (Unsigned 32) size1)) m))"

subsection \<open>Keys\<close>

definition key_part :: "bytes \<Rightarrow> bytes" where
  "key_part v = PutUint64 (of_nat (length v)) @ v"

text \<open>The options that tell transfers apart; \<open>isResponse\<close> for the body of a response.\<close>

definition keyed :: "bool \<Rightarrow> Opt \<Rightarrow> bool" where
  "keyed isResponse o1 \<longleftrightarrow>
     \<not> (ID o1 = QBlock1 \<or> ID o1 = QBlock2 \<or> ID o1 = Size1 \<or> ID o1 = Block1 \<or> ID o1 = Block2)
     \<and> \<not> (isResponse \<and> (ID o1 = Observe \<or> ID o1 = ETag))
     \<and> ID o1 AND 0x1f \<noteq> 0x1c"

definition option_part :: "Opt \<Rightarrow> bytes" where
  "option_part o1 = PutUint16 (ID o1) @ PutUint64 (of_nat (length (Value o1))) @ Value o1"

definition qTransferKey :: "'cm PMessage \<Rightarrow> bytes option \<Rightarrow> bytes \<Rightarrow> bool \<Rightarrow> bytes" where
  "qTransferKey r remoteAddr tag isResponse =
     key_part (case remoteAddr of None \<Rightarrow> [] | Some a \<Rightarrow> a) @ PutUint16 (code_of r)
     @ concat (map option_part (filter (keyed isResponse) (opts_of r))) @ key_part tag"

definition q1TransferKey :: "'cm PMessage \<Rightarrow> bytes option \<Rightarrow> bytes \<Rightarrow> bytes" where
  "q1TransferKey r remoteAddr tag = qTransferKey r remoteAddr tag False"

definition q2TransferKey :: "'cm PMessage \<Rightarrow> bytes option \<Rightarrow> bytes" where
  "q2TransferKey r remoteAddr = qTransferKey r remoteAddr [] True @ key_part (token_of r)"

definition qObservationKey :: "bytes \<Rightarrow> bytes option \<Rightarrow> bytes" where
  "qObservationKey token remote = (case remote of None \<Rightarrow> [] | Some a \<Rightarrow> key_part a) @ key_part token"

text \<open>The names of jobs: \<open>"q1:"\<close> and \<open>"q2:"\<close> with a key.\<close>

definition q1_job :: "bytes \<Rightarrow> bytes" where "q1_job key = [0x71, 0x31, 0x3a] @ key"
definition q2_job :: "bytes \<Rightarrow> bytes" where "q2_job key = [0x71, 0x32, 0x3a] @ key"

definition recovery_text :: bytes where
  "recovery_text = [0x3a, 0x72, 0x65, 0x63, 0x6f, 0x76, 0x65, 0x72, 0x79, 0x3a]"

definition q2JobKey :: "bytes \<Rightarrow> bytes \<Rightarrow> int list \<Rightarrow> bool \<Rightarrow> bytes" where
  "q2JobKey key token nums recovery =
     (if \<not> recovery then q2_job key
      else q2_job key @ recovery_text @ key_part token @ concat (map (\<lambda>num. PutUint32 (word_of_int num)) nums))"

end
