(* ===== verification/Go_Sha256.thy ===== *)
theory Go_Sha256
  imports Coap_Prelude
begin

text \<open>
  SHA-256 as \<open>crypto/sha256\<close> of the standard library computes it (FIPS 180-4): the message padded to
  blocks of 64 bytes, each of which updates eight words.
\<close>

type_synonym sha_state = "u32 \<times> u32 \<times> u32 \<times> u32 \<times> u32 \<times> u32 \<times> u32 \<times> u32"

subsection \<open>Constants\<close>

text \<open>
  The constants are what the standard says they are: the first 32 bits after the point of the cube roots of the
  first 64 primes, and of the square roots of the first eight.  \<open>root_below\<close> finds the largest number whose
  \<open>k\<close>-th power is at most \<open>n\<close>, bit by bit.
\<close>

fun root_below :: "nat \<Rightarrow> nat \<Rightarrow> nat \<Rightarrow> nat \<Rightarrow> nat" where
  "root_below k n 0 r = r"
| "root_below k n (Suc i) r = root_below k n i (if (r + 2 ^ i) ^ k \<le> n then r + 2 ^ i else r)"

lemma root_below_exact:
  "r ^ k \<le> n \<Longrightarrow> n < (r + 2 ^ i) ^ k \<Longrightarrow> root_below k n i r ^ k \<le> n \<and> n < (root_below k n i r + 1) ^ k"
proof (induction i arbitrary: r)
  case (Suc i)
  have e: "r + 2 ^ Suc i = r + 2 ^ i + 2 ^ i" by simp
  show ?case using Suc.IH [of r] Suc.IH [of "r + 2 ^ i"] Suc.prems [unfolded e] by (cases "(r + 2 ^ i) ^ k \<le> n") (simp_all add: not_le)
qed simp

definition root_fraction :: "nat \<Rightarrow> nat \<Rightarrow> u32" where
  "root_fraction k p = of_nat (root_below k (p * 2 ^ (32 * k)) 35 0)"

definition small_primes :: "nat list" where
  "small_primes = filter (\<lambda>p. list_all (\<lambda>d. p mod d \<noteq> 0) [2..<p]) [2..<312]"

definition sha_K :: "u32 list" where
  "sha_K = map (root_fraction 3) small_primes"

definition sha_init :: sha_state where
  "sha_init =
     (root_fraction 2 2, root_fraction 2 3, root_fraction 2 5, root_fraction 2 7,
      root_fraction 2 11, root_fraction 2 13, root_fraction 2 17, root_fraction 2 19)"

subsection \<open>The digest\<close>

abbreviation rotr :: "nat \<Rightarrow> u32 \<Rightarrow> u32" where "rotr n x \<equiv> word_rotr n x"

definition sha_round :: "u32 \<Rightarrow> u32 \<Rightarrow> sha_state \<Rightarrow> sha_state" where
  "sha_round k w = (\<lambda>(a, b, c, d, e, f, g, h).
     let t1 = h + (rotr 6 e XOR rotr 11 e XOR rotr 25 e) + ((e AND f) XOR (NOT e AND g)) + k + w;
         t2 = (rotr 2 a XOR rotr 13 a XOR rotr 22 a) + ((a AND b) XOR (a AND c) XOR (b AND c))
     in (t1 + t2, a, b, c, d + t1, e, f, g))"

text \<open>The schedule: the next word from the last sixteen, which are kept with the newest first.\<close>

fun sha_rounds :: "u32 list \<Rightarrow> u32 list \<Rightarrow> u32 list \<Rightarrow> sha_state \<Rightarrow> sha_state" where
  "sha_rounds [] ws seen s = s"
| "sha_rounds (k # ks) (w # ws) seen s = sha_rounds ks ws (w # seen) (sha_round k w s)"
| "sha_rounds (k # ks) [] seen s =
     (let v1 = seen ! 1; v2 = seen ! 14;
          w = (rotr 17 v1 XOR rotr 19 v1 XOR drop_bit 10 v1) + seen ! 6 + (rotr 7 v2 XOR rotr 18 v2 XOR drop_bit 3 v2) + seen ! 15
      in sha_rounds ks [] (w # take 15 seen) (sha_round k w s))"

definition sha_block :: "bytes \<Rightarrow> sha_state \<Rightarrow> sha_state" where
  "sha_block p = (\<lambda>(a, b, c, d, e, f, g, h).
     let ws = map (\<lambda>i. Uint32 (take 4 (drop (4 * i) p))) [0..<16];
         (a', b', c', d', e', f', g', h') = sha_rounds sha_K ws [] (a, b, c, d, e, f, g, h)
     in (a + a', b + b', c + c', d + d', e + e', f + f', g + g', h + h'))"

definition sha_pad :: "bytes \<Rightarrow> bytes" where
  "sha_pad m = m @ 0x80 # replicate ((119 - length m mod 64) mod 64) 0 @ PutUint64 (of_nat (8 * length m))"

function sha_blocks :: "bytes \<Rightarrow> sha_state \<Rightarrow> sha_state" where
  "sha_blocks p s = (if length p < 64 then s else sha_blocks (drop 64 p) (sha_block (take 64 p) s))"
  by pat_completeness auto
termination
  by (relation "measure (\<lambda>(p, _). length p)") auto

declare sha_blocks.simps [simp del]

definition Sum256 :: "bytes \<Rightarrow> bytes" where
  "Sum256 m =
     (let (a, b, c, d, e, f, g, h) = sha_blocks (sha_pad m) sha_init
      in concat (map PutUint32 [a, b, c, d, e, f, g, h]))"

lemma Sum256_length: "length (Sum256 m) = 32"
  by (simp add: Sum256_def PutUint32_def split: prod.split)

end
