(* ===== verification/Qblock_Send.thy ===== *)
theory Qblock_Send
  imports Qblock_Engine Go_Sha256
begin

text \<open>
  The sending side of Q-Block2, \<open>net/blockwise/qblock/send.go\<close>, with the jobs of \<open>schedule.go\<close> and the
  observations of \<open>observe.go\<close>: a response is kept, its blocks are sent in sets, and a peer may ask again for those
  it misses.

  Read positions of bodies are not followed, every use of a body seeks first.
\<close>

definition thn :: "'s \<times> 'a outcome \<Rightarrow> ('a \<Rightarrow> 's \<Rightarrow> 's \<times> 'b outcome) \<Rightarrow> 's \<times> 'b outcome" where
  "thn x f = (case x of (s, Ret a) \<Rightarrow> f a s | (s, Err e) \<Rightarrow> (s, Err e) | (s, Panic) \<Rightarrow> (s, Panic))"

lemma thn_simps [simp]: "thn (s, Ret a) f = f a s" "thn (s, Err e) f = (s, Err e)" "thn (s, Panic) f = (s, Panic)"
  by (simp_all add: thn_def)

text \<open>The handler that is called next, \<open>None\<close> when it panics: the application, which gets the request and fills the writer.\<close>

type_synonym ('cm, 't) next_handler =
  "'cm PMessage \<Rightarrow> ('cm, 't) Engine \<times> 'cm ResponseWriter \<Rightarrow> (('cm, 't) Engine \<times> 'cm ResponseWriter) option"

definition application :: "('cm ResponseWriter \<Rightarrow> 'cm PMessage \<Rightarrow> 'cm ResponseWriter) \<Rightarrow> ('cm, 't) next_handler" where
  "application app r = (\<lambda>(b, w). Some (b\<lparr>e_handed := e_handed b @ [r]\<rparr>, app w r))"

definition of_err :: "go_error option \<Rightarrow> unit outcome" where
  "of_err e = (case e of None \<Rightarrow> Ret () | Some err \<Rightarrow> Err err)"

subsection \<open>The transport\<close>

definition cancel_job :: "('cm, 't) q_env \<Rightarrow> bytes \<Rightarrow> ('cm, 't) Engine \<Rightarrow> ('cm, 't) Engine" where
  "cancel_job env key b =
     (case qe_transport env of None \<Rightarrow> b | Some tr \<Rightarrow> b\<lparr>e_transport := tr_Cancel tr key (e_transport b)\<rparr>)"

definition delay_job :: "('cm, 't) q_transport \<Rightarrow> bytes \<Rightarrow> time \<Rightarrow> ('cm, 't) Engine \<Rightarrow> ('cm, 't) Engine" where
  "delay_job tr key deadline b = b\<lparr>e_transport := tr_Delay tr key deadline (e_transport b)\<rparr>"

definition schedule_job :: "('cm, 't) q_transport \<Rightarrow> bytes \<Rightarrow> time \<Rightarrow> q_job \<Rightarrow> ('cm, 't) Engine \<Rightarrow> ('cm, 't) Engine \<times> unit outcome" where
  "schedule_job tr key deadline job b =
     (let (t, err) = tr_Schedule tr key deadline job (e_transport b) in (b\<lparr>e_transport := t\<rparr>, of_err err))"

definition send_message :: "('cm, 't) q_transport \<Rightarrow> 'cm PMessage \<Rightarrow> ('cm, 't) Engine \<Rightarrow> ('cm, 't) Engine \<times> unit outcome" where
  "send_message tr m b = (let (t, err) = tr_Send tr m (e_transport b) in (b\<lparr>e_transport := t\<rparr>, of_err err))"

abbreviation (input) no_transport :: go_error where "no_transport \<equiv> ErrOther ''Q-Block burst transport is unavailable''"

subsection \<open>Observations\<close>

definition oldest_canceled :: "(bytes, time) smap \<Rightarrow> bytes" where
  "oldest_canceled m =
     fold (\<lambda>(candidate, expires) oldest.
       if oldest = [] \<or> expires < (case map_of m oldest of None \<Rightarrow> 0 | Some e \<Rightarrow> e) then candidate else oldest) m []"

definition rememberQCancellationLocked :: "time \<Rightarrow> bytes \<Rightarrow> ('cm, 't) Engine \<Rightarrow> ('cm, 't) Engine" where
  "rememberQCancellationLocked now key b =
     (let m = (if length (e_qCanceled b) \<ge> 128 then AList.delete (oldest_canceled (e_qCanceled b)) (e_qCanceled b) else e_qCanceled b)
      in b\<lparr>e_qCanceled := AList.update key (now + NonPartialTimeout (e_config b)) m\<rparr>)"

definition CancelQBlockObservation :: "('cm, 't) q_env \<Rightarrow> time \<Rightarrow> bytes \<Rightarrow> bytes option \<Rightarrow> ('cm, 't) Engine \<Rightarrow> ('cm, 't) Engine" where
  "CancelQBlockObservation env now token remote b =
     (let key = qObservationKey token remote in
      case map_of (e_qObservations b) key of
        None \<Rightarrow> b
      | Some o1 \<Rightarrow>
          (let okey = ob_key (e_obsHeap b ! o1);
               b1 = qReleaseTransfer (rememberQCancellationLocked now key (b\<lparr>e_qObservations := AList.delete key (e_qObservations b)\<rparr>));
               b2 = (case map_of (e_q2Senders b1) okey of None \<Rightarrow> b1 | Some i \<Rightarrow> drop_q2 okey i b1)
           in cancel_job env (q2_job okey) b2))"

text \<open>Room for a registration: that of the one before it, whose body is dropped, or a new one.\<close>

definition observation_slot :: "('cm, 't) q_env \<Rightarrow> bytes \<Rightarrow> ('cm, 't) Engine \<Rightarrow> ('cm, 't) Engine \<times> bool" where
  "observation_slot env key b =
     (case map_of (e_qObservations b) key of
        Some p \<Rightarrow>
          (let pkey = ob_key (e_obsHeap b ! p);
               b1 = cancel_job env (q2_job pkey) b
           in (case map_of (e_q2Senders b1) pkey of None \<Rightarrow> b1 | Some i \<Rightarrow> drop_q2 pkey i b1, True))
      | None \<Rightarrow> if length (e_qObservations b) \<ge> 128 then (b, False) else qReserveTransfer b)"

definition registerQObservation ::
  "('cm, 't) q_env \<Rightarrow> 'cm PMessage \<Rightarrow> bytes option \<Rightarrow> SZX \<Rightarrow> ('cm, 't) Engine \<Rightarrow> ('cm, 't) Engine \<times> unit outcome" where
  "registerQObservation env r remote szx b =
     (if e_q2Closed b then (b, of_err (qClosedError True))
      else
        (let key = qObservationKey (token_of r) remote;
             (b2, ok) = observation_slot env key (b\<lparr>e_qCanceled := AList.delete key (e_qCanceled b)\<rparr>)
         in if \<not> ok then (b2, Err ErrQBlockTooLarge)
            else
              (case cloneMessage env r of
                 None \<Rightarrow> (b2, Panic)
               | Some req \<Rightarrow>
                   (b2\<lparr>e_obsHeap := e_obsHeap b2 @ [\<lparr>ob_request = req, ob_key = q2TransferKey r remote, ob_szx = szx, ob_registrationKey = key\<rparr>],
                       e_qObservations := AList.update key (length (e_obsHeap b2)) (e_qObservations b2)\<rparr>, Ret ()))))"

definition validateQNotificationLocked :: "nat option \<Rightarrow> ('cm, 't) Engine \<Rightarrow> go_error option" where
  "validateQNotificationLocked generation b =
     (case generation of
        None \<Rightarrow> None
      | Some g \<Rightarrow> if map_of (e_qObservations b) (ob_registrationKey (e_obsHeap b ! g)) \<noteq> Some g then Some ErrCanceled else None)"

definition finishQNotificationLocked :: "time \<Rightarrow> nat option \<Rightarrow> bool \<Rightarrow> ('cm, 't) Engine \<Rightarrow> ('cm, 't) Engine" where
  "finishQNotificationLocked now generation observePresent b =
     (case generation of
        None \<Rightarrow> b
      | Some g \<Rightarrow>
          if observePresent then b
          else
            (let key = ob_registrationKey (e_obsHeap b ! g)
             in qReleaseTransfer (rememberQCancellationLocked now key (b\<lparr>e_qObservations := AList.delete key (e_qObservations b)\<rparr>))))"

subsection \<open>Keeping a response\<close>

definition copyQ2Body :: "reader option \<Rightarrow> int \<Rightarrow> go_error + bytes" where
  "copyQ2Body bdy n =
     (case bdy of
        None \<Rightarrow> if n \<noteq> 0 then Inl ErrQBlockInvalidSize else Inr (go_make (nat n))
      | Some rd \<Rightarrow>
          (case reader_Seek rd 0 SeekStart of
             (_, Inl err) \<Rightarrow> Inl err
           | (rd1, Inr _) \<Rightarrow>
               (let (rd2, payload, readErr) = reader_ReadFull rd1 (nat n);
                    (rd3, extra, extraErr) = reader_ReadFull rd2 1;
                    (_, seeked) = reader_Seek rd3 0 SeekStart
                in if readErr \<noteq> None \<or> extra \<noteq> [] \<or> extraErr \<noteq> Some io_EOF \<or> isl seeked then Inl ErrQBlockInvalidSize
                   else Inr payload)))"

definition ensureQ2ETag :: "'cm PMessage \<Rightarrow> go_error + 'cm PMessage" where
  "ensureQ2ETag m =
     (if hasOption m ETag
      then (case Options_GetBytes (opts_of m) ETag of
              Inl _ \<Rightarrow> Inl ErrQBlockInvalidSize
            | Inr etag \<Rightarrow>
                if optionCount m ETag \<noteq> 1 \<or> length etag = 0 \<or> length etag > 8 then Inl ErrQBlockInvalidSize else Inr m)
      else
        (case body m of
           None \<Rightarrow> Inr (PM_SetOptionBytes ETag [0] m)
         | Some rd \<Rightarrow>
             (case reader_Seek rd 0 SeekStart of
                (_, Inl err) \<Rightarrow> Inl err
              | (rd1, Inr _) \<Rightarrow>
                  (case PM_BodySize (PM_SetBody (Some rd1) m) of
                     (_, Inl err) \<Rightarrow> Inl err
                   | (_, Inr n) \<Rightarrow>
                       if n > q1DefaultMaxBodySize then Inl ErrQBlockTooLarge
                       else
                         (let (_, data, _) = reader_ReadFull rd1 (nat (n + 1))
                          in if int (length data) \<noteq> n then Inl ErrQBlockInvalidSize
                             else Inr (PM_SetOptionBytes ETag (take 8 (Sum256 data)) m))))))"

definition snapshotQ2Body :: "('cm, 't) q_env \<Rightarrow> 'cm PMessage \<Rightarrow> int \<Rightarrow> 'cm PMessage outcome" where
  "snapshotQ2Body env m n =
     (case copyQ2Body (body m) n of
        Inl err \<Rightarrow> Err err
      | Inr payload \<Rightarrow>
          and_then (of_opt (cloneMessage env m)) (\<lambda>stored. of_sum (ensureQ2ETag (PM_SetBody (Some (NewReader payload)) stored))))"

definition snapshotQ2NotificationBody :: "('cm, 't) q_env \<Rightarrow> 'cm PMessage \<Rightarrow> ('cm, 't) Engine \<Rightarrow> ('cm, 't) Engine \<times> ('cm PMessage \<times> int) outcome" where
  "snapshotQ2NotificationBody env m b =
     (case snd (PM_BodySize m) of
        Inl err \<Rightarrow> (b, Err err)
      | Inr n \<Rightarrow>
          if n < 0 then (b, Err ErrQBlockInvalidSize)
          else if n > q1DefaultMaxBodySize then (b, Err ErrQBlockTooLarge)
          else
            (let (b1, ok) = qReserveBytes n b in
             if \<not> ok then (b1, Err ErrQBlockTooLarge)
             else
               (let (b2, ok2) = qReserveTransfer b1 in
                if \<not> ok2 then (qReleaseBytes n b2, Err ErrQBlockTooLarge)
                else
                  (case snapshotQ2Body env m n of
                     Ret stored \<Rightarrow> (b2, Ret (stored, n))
                   | Err err \<Rightarrow> (qReleaseTransfer (qReleaseBytes n b2), Err err)
                   | Panic \<Rightarrow> (b2, Panic)))))"

text \<open>Room for a response: that of the one with the same key, or a new one.\<close>

definition sender_slot :: "('cm, 't) q_env \<Rightarrow> bytes \<Rightarrow> ('cm, 't) Engine \<Rightarrow> ('cm, 't) Engine \<times> bool" where
  "sender_slot env key b =
     (case map_of (e_q2Senders b) key of
        Some old \<Rightarrow> (drop_q2 key old (cancel_job env (q2_job key) b), True)
      | None \<Rightarrow> (b, length (e_q2Senders b) < 4096))"

definition new_q2_transfer ::
  "('cm, 't) q_env \<Rightarrow> time \<Rightarrow> bytes \<Rightarrow> int \<Rightarrow> nat option \<Rightarrow> 'cm PMessage \<Rightarrow> 'cm PMessage \<Rightarrow> int \<Rightarrow> ('cm, 't) Engine \<Rightarrow> 'cm q2SendTransfer" where
  "new_q2_transfer env now identity mode generation m stored n b =
     (let (age, ageErr) = getUint32 m MaxAge;
          maxAge = (if ageErr \<noteq> None then 60 else uint age);
          lifespan = min (NonPartialTimeout (e_config b)) (max (NonReceiveTimeout (e_config b)) (int64 (maxAge * second)))
      in \<lparr>t2_message = stored, t2_expires = now + lifespan, t2_size = n, t2_sentThrough = -1,
          t2_delay = nonDelay (qe_jitter env) (e_config b), t2_identity = identity, t2_mode = mode,
          t2_terminalObservationKey =
            (case generation of
               Some g \<Rightarrow> if hasOption m Observe then [] else ob_registrationKey (e_obsHeap b ! g)
             | None \<Rightarrow> []),
          t2_recoveryUntil = 0\<rparr>)"

text \<open>
  The state next to the engine is the message to keep, which gets the entity tag.  The bytes and the slot reserved
  are given back when the message is not kept.
\<close>

definition cacheQBlock2Notification ::
  "('cm, 't) q_env \<Rightarrow> time \<Rightarrow> bytes \<Rightarrow> bytes \<Rightarrow> int \<Rightarrow> nat option \<Rightarrow> ('cm, 't) Engine \<times> 'cm PMessage \<Rightarrow>
   (('cm, 't) Engine \<times> 'cm PMessage) \<times> nat outcome" where
  "cacheQBlock2Notification env now key identity mode generation = (\<lambda>(b, m).
     case snapshotQ2NotificationBody env m b of
       (b1, Err err) \<Rightarrow> ((b1, m), Err err)
     | (b1, Panic) \<Rightarrow> ((b1, m), Panic)
     | (b1, Ret (stored, n)) \<Rightarrow>
         (let m1 = PM_SetOptionBytes ETag (case Options_GetBytes (opts_of stored) ETag of Inl _ \<Rightarrow> [] | Inr e \<Rightarrow> e) m
          in case (case qClosedError (e_q2Closed b1) of Some err \<Rightarrow> Some err | None \<Rightarrow> validateQNotificationLocked generation b1) of
               Some err \<Rightarrow> ((qReleaseTransfer (qReleaseBytes n b1), m1), Err err)
             | None \<Rightarrow>
                 (let (b2, room) = sender_slot env key b1
                  in if \<not> room then ((qReleaseTransfer (qReleaseBytes n b2), m1), Err ErrQBlockTooLarge)
                     else
                       (let i = length (e_q2Heap b2);
                            b3 = b2\<lparr>e_q2SendBytes := e_q2SendBytes b2 + n,
                                    e_q2Heap := e_q2Heap b2 @ [new_q2_transfer env now identity mode generation m1 (PM_SetType mode stored) n b2],
                                    e_q2Senders := AList.update key i (e_q2Senders b2)\<rparr>
                        in ((finishQNotificationLocked now generation (hasOption m1 Observe) b3, m1), Ret i)))))"

definition cacheQBlock2Response ::
  "('cm, 't) q_env \<Rightarrow> time \<Rightarrow> bytes \<Rightarrow> bytes \<Rightarrow> int \<Rightarrow> ('cm, 't) Engine \<times> 'cm PMessage \<Rightarrow> (('cm, 't) Engine \<times> 'cm PMessage) \<times> unit outcome" where
  "cacheQBlock2Response env now key identity mode bm =
     thn (cacheQBlock2Notification env now key identity mode None bm) (\<lambda>_ s. (s, Ret ()))"

subsection \<open>The blocks of a response\<close>

definition buildQBlock2ResponseFrom ::
  "('cm, 't) q_env \<Rightarrow> time \<Rightarrow> bytes \<Rightarrow> bytes \<Rightarrow> SZX \<Rightarrow> int \<Rightarrow> nat option \<Rightarrow> ('cm, 't) Engine \<Rightarrow> ('cm, 't) Engine \<times> 'cm PMessage outcome" where
  "buildQBlock2ResponseFrom env now key token szx num expected b =
     (case map_of (e_q2Senders b) key of
        None \<Rightarrow> (b, Err ErrQBlock2ResponseNotFound)
      | Some i \<Rightarrow>
          if expected \<noteq> None \<and> Some i \<noteq> expected then (b, Err ErrQBlock2ResponseNotFound)
          else
            (let transfer = e_q2Heap b ! i; m = t2_message transfer in
             if \<not> t2_expires transfer > now then (drop_q2 key i b, Err ErrQBlock2ResponseNotFound)
             else
               (case PM_ResetOptionsTo (opts_of m)
                       (PM_SetMessageID (MessageID (msg m)) (PM_SetType (Type (msg m)) (PM_SetToken token (PM_SetCode (code_of m) (qe_fresh env))))) of
                  None \<Rightarrow> (b, Panic)
                | Some r0 \<Rightarrow>
                    (case snd (PM_BodySize m) of
                       Inl err \<Rightarrow> (b, Err err)
                     | Inr n \<Rightarrow>
                         (case NewSender (body m) szx n of
                            Inl err \<Rightarrow> (b, Err err)
                          | Inr sender \<Rightarrow>
                              (case snd (Sender_Block num sender) of
                                 Inl err \<Rightarrow> (b, Err err)
                               | Inr (payload, mor) \<Rightarrow>
                                   (case EncodeQBlockOption szx num mor of
                                      Inl err \<Rightarrow> (b, Err err)
                                    | Inr option \<Rightarrow>
                                        (b, of_opt (Option.bind (PM_SetOptionUint32 QBlock2 option r0)
                                               (\<lambda>r1. map_option (PM_SetBody (Some (NewReader payload)))
                                                        (PM_SetOptionUint32 Size2 (word_of_int n) r1)))))))))))"

definition buildQBlock2Response ::
  "('cm, 't) q_env \<Rightarrow> time \<Rightarrow> bytes \<Rightarrow> bytes \<Rightarrow> SZX \<Rightarrow> int \<Rightarrow> ('cm, 't) Engine \<Rightarrow> ('cm, 't) Engine \<times> 'cm PMessage outcome" where
  "buildQBlock2Response env now key token szx num b = buildQBlock2ResponseFrom env now key token szx num None b"

definition q2SetDelay :: "bytes \<Rightarrow> ('cm, 't) Engine \<Rightarrow> int" where
  "q2SetDelay key b = (case map_of (e_q2Senders b) key of None \<Rightarrow> NonTimeout (e_config b) | Some i \<Rightarrow> t2_delay (e_q2Heap b ! i))"

definition appendQ2Range :: "int list \<Rightarrow> int \<Rightarrow> int \<Rightarrow> int list" where
  "appendQ2Range nums from upto_num = nums @ [(if nums \<noteq> [] then max from (List.last nums + 1) else from)..upto_num]"

text \<open>The loop over the options: the numbers so far, the one before, and whether the whole body is asked for.\<close>

fun requested_loop :: "QConfig \<Rightarrow> bool \<Rightarrow> SZX \<Rightarrow> int \<Rightarrow> Options \<Rightarrow> int list \<Rightarrow> int \<Rightarrow> bool \<Rightarrow> go_error + int list \<times> bool" where
  "requested_loop c single szx count [] nums previous wholeBody = Inr (nums, wholeBody)"
| "requested_loop c single szx count (o1 # os) nums previous wholeBody =
     (if ID o1 \<noteq> QBlock2 then requested_loop c single szx count os nums previous wholeBody
      else
        (case DecodeUint32 (Value o1) of
           (_, _, Some err) \<Rightarrow> Inl err
         | (v, _, None) \<Rightarrow>
             (case DecodeQBlockOption v of
                Inl _ \<Rightarrow> Inl ErrInvalidOptionBlock2
              | Inr (optionSZX, num, mor) \<Rightarrow>
                  if optionSZX \<noteq> szx \<or> num \<le> previous \<or> num \<ge> count then Inl ErrInvalidOptionBlock2
                  else
                    requested_loop c single szx count os (appendQ2Range nums num (if mor then setLast num count c else num)) num
                      (wholeBody \<or> mor \<and> num mod MaxPayloads c = 0 \<and> single))))"

definition q2RequestedBlocks :: "'cm PMessage \<Rightarrow> SZX \<Rightarrow> int \<Rightarrow> ('cm, 't) Engine \<Rightarrow> go_error + int list \<times> bool" where
  "q2RequestedBlocks r szx count b =
     requested_loop (e_config b) (optionCount r QBlock2 = 1) szx count (opts_of r) [] (-1) False"

definition validQ2Family :: "'cm PMessage \<Rightarrow> ('cm, 't) Engine \<Rightarrow> bool" where
  "validQ2Family r b \<longleftrightarrow> optionCount r QBlock2 \<le> MaxPayloads (e_config b) \<and> \<not> hasOption r Block1 \<and> \<not> hasOption r Block2 \<and> \<not> hasOption r QBlock1"

definition parseQBlock2 :: "'cm PMessage \<Rightarrow> ('cm, 't) Engine \<Rightarrow> go_error + SZX \<times> int \<times> bool" where
  "parseQBlock2 r b =
     (if code_of r \<noteq> codes_GET \<and> \<not> qBodyMethod (code_of r) then Inl ErrQBlockBadOption
      else if \<not> validQ2Family r b then Inl ErrQBlockBadOption
      else
        (case getUint32 r QBlock2 of
           (_, Some _) \<Rightarrow> Inl ErrInvalidOptionBlock2
         | (v, None) \<Rightarrow>
             (case DecodeQBlockOption v of
                Inl _ \<Rightarrow> Inl ErrQBlockBadOption
              | Inr (szx, num, mor) \<Rightarrow>
                  if szx > qBlockMaxSZX then Inl ErrQBlockBadOption
                  else
                    (case q2RequestedBlocks r szx (qBlockMaxNUM + 1) b of
                       Inl err \<Rightarrow> Inl err
                     | Inr _ \<Rightarrow>
                         if hasOption r Observe
                            \<and> (let (observe, observeErr) = Options_Observe (opts_of r)
                               in observeErr \<noteq> None \<or> observe > 1 \<or> num \<noteq> 0 \<or> optionCount r QBlock2 \<noteq> 1)
                         then Inl ErrQBlockBadOption
                         else Inr (szx, num, mor)))))"

definition validQ2First :: "int list \<Rightarrow> int \<Rightarrow> bool" where
  "validQ2First nums num \<longleftrightarrow> length nums > 0 \<and> nums ! 0 = num"

subsection \<open>Jobs\<close>

definition scheduleQ2Set :: "('cm, 't) q_transport \<Rightarrow> q2SetJob \<Rightarrow> time \<Rightarrow> ('cm, 't) Engine \<Rightarrow> ('cm, 't) Engine \<times> unit outcome" where
  "scheduleQ2Set tr job deadline b =
     (case map_of (e_q2Senders b) (job_key job) of
        None \<Rightarrow> (b, Ret ())
      | Some g \<Rightarrow>
          if job_generation job \<noteq> None \<and> Some g \<noteq> job_generation job then (b, Ret ())
          else schedule_job tr (q2JobKey (job_key job) (job_token job) (job_nums job) (job_recovery job)) deadline
                 (Q2Set (job\<lparr>job_generation := Some g\<rparr>)) b)"

definition job_current :: "q2SetJob \<Rightarrow> ('cm, 't) Engine \<Rightarrow> bool" where
  "job_current s b \<longleftrightarrow> map_of (e_q2Senders b) (job_key s) = job_generation s"

definition job_reschedule :: "('cm, 't) q_transport \<Rightarrow> q2SetJob \<Rightarrow> int list \<Rightarrow> time \<Rightarrow> ('cm, 't) Engine \<Rightarrow> ('cm, 't) Engine \<times> unit outcome" where
  "job_reschedule tr s nums deadline b = scheduleQ2Set tr (s\<lparr>job_nums := nums\<rparr>) deadline b"

definition recoveryDeadline :: "q2SetJob \<Rightarrow> ('cm, 't) Engine \<Rightarrow> time" where
  "recoveryDeadline s b =
     (if \<not> job_wholeBody s \<or> job_mode s \<noteq> NonConfirmable then 0
      else
        (case map_of (e_q2Senders b) (job_key s) of
           Some i \<Rightarrow> if Some i = job_generation s then t2_recoveryUntil (e_q2Heap b ! i) else 0
         | None \<Rightarrow> 0))"

definition job_response :: "('cm, 't) q_env \<Rightarrow> time \<Rightarrow> q2SetJob \<Rightarrow> int \<Rightarrow> ('cm, 't) Engine \<Rightarrow> ('cm, 't) Engine \<times> 'cm PMessage outcome" where
  "job_response env now s num b =
     thn (buildQBlock2ResponseFrom env now (job_key s) (job_token s) (job_szx s) num (job_generation s) b)
       (\<lambda>resp b1.
          (let resp1 = PM_SetType (job_mode s) resp;
               resp2 = (if job_recovery s then PM_Remove Observe resp1 else resp1);
               b2 = (case map_of (e_q2Senders b1) (job_key s) of
                       Some i \<Rightarrow>
                         if job_wholeBody s \<and> Some i = job_generation s
                         then put2 i ((e_q2Heap b1 ! i)\<lparr>t2_sentThrough := max (t2_sentThrough (e_q2Heap b1 ! i)) num\<rparr>) b1
                         else b1
                     | None \<Rightarrow> b1)
           in (b2, Ret resp2)))"

definition job_send :: "('cm, 't) q_env \<Rightarrow> ('cm, 't) q_transport \<Rightarrow> time \<Rightarrow> q2SetJob \<Rightarrow> int \<Rightarrow> ('cm, 't) Engine \<Rightarrow> ('cm, 't) Engine \<times> unit outcome" where
  "job_send env tr now s num b = thn (job_response env now s num b) (\<lambda>resp b1. send_message tr resp b1)"

definition pauseNormalUntil :: "('cm, 't) q_transport \<Rightarrow> q2SetJob \<Rightarrow> time \<Rightarrow> ('cm, 't) Engine \<Rightarrow> ('cm, 't) Engine" where
  "pauseNormalUntil tr s deadline b =
     (let b1 = (case map_of (e_q2Senders b) (job_key s) of
                  Some i \<Rightarrow>
                    if Some i = job_generation s \<and> deadline > t2_recoveryUntil (e_q2Heap b ! i)
                    then put2 i ((e_q2Heap b ! i)\<lparr>t2_recoveryUntil := deadline\<rparr>) b
                    else b
                | None \<Rightarrow> b)
      in delay_job tr (q2_job (job_key s)) deadline b1)"

definition job_following :: "('cm, 't) q_transport \<Rightarrow> time \<Rightarrow> q2SetJob \<Rightarrow> nat \<Rightarrow> ('cm, 't) Engine \<Rightarrow> ('cm, 't) Engine \<times> unit outcome" where
  "job_following tr now s end1 b =
     (let delay = (if job_mode s = NonConfirmable then q2SetDelay (job_key s) b else 0)
      in if end1 < length (job_nums s)
         then
           (let deadline = now + delay;
                b1 = (if job_recovery s \<and> job_mode s = NonConfirmable then pauseNormalUntil tr s (deadline + delay) b else b)
            in job_reschedule tr s (List.drop end1 (job_nums s)) deadline b1)
         else if \<not> job_wholeBody s \<or> job_nums s = [] \<or> List.last (job_nums s) + 1 \<ge> job_count s then (b, Ret ())
         else
           (let nxt = List.last (job_nums s) + 1
            in job_reschedule tr s [nxt..setLast nxt (job_count s) (e_config b)] (now + delay) b))"

fun q2SetEnd :: "QConfig \<Rightarrow> int \<Rightarrow> int list \<Rightarrow> nat" where
  "q2SetEnd c num0 [] = 0"
| "q2SetEnd c num0 (num # nums) = (if num div MaxPayloads c \<noteq> num0 div MaxPayloads c then 0 else Suc (q2SetEnd c num0 nums))"

text \<open>
  The loop of \<open>run\<close>: \<open>sending\<close> is what is left of \<open>nums[:end]\<close> and \<open>rest\<close> is \<open>nums[end:]\<close>; the result tells
  whether the loop came to its end or the function returned inside it.
\<close>

fun run_loop ::
  "('cm, 't) q_env \<Rightarrow> ('cm, 't) q_transport \<Rightarrow> time \<Rightarrow> q2SetJob \<Rightarrow> int list \<Rightarrow> int list \<Rightarrow> ('cm, 't) Engine \<Rightarrow> ('cm, 't) Engine \<times> bool outcome" where
  "run_loop env tr now s [] rest b = (b, Ret True)"
| "run_loop env tr now s (num # sending) rest b =
     (if \<not> job_current s b then (b, Ret False)
      else if recoveryDeadline s b > now
      then thn (job_reschedule tr s (num # sending @ rest) (recoveryDeadline s b) b) (\<lambda>_ b1. (b1, Ret False))
      else
        (case job_send env tr now s num b of
           (b1, Ret _) \<Rightarrow> run_loop env tr now s sending rest b1
         | (b1, Err err) \<Rightarrow> if err = ErrQBlock2ResponseNotFound then (b1, Ret False) else (b1, Err err)
         | (b1, Panic) \<Rightarrow> (b1, Panic)))"

definition sendAsync ::
  "('cm, 't) q_env \<Rightarrow> ('cm PMessage \<Rightarrow> q2SetJob \<Rightarrow> 't \<Rightarrow> 't \<times> go_error option) \<Rightarrow> time \<Rightarrow> q2SetJob \<Rightarrow> ('cm, 't) Engine \<Rightarrow>
   ('cm, 't) Engine \<times> unit outcome" where
  "sendAsync env async now s b =
     (case job_response env now s (hd (job_nums s)) b of
        (b1, Err err) \<Rightarrow> if err = ErrQBlock2ResponseNotFound then (b1, Ret ()) else (b1, Err err)
      | (b1, Panic) \<Rightarrow> (b1, Panic)
      | (b1, Ret resp) \<Rightarrow> (let (t, err) = async resp s (e_transport b1) in (b1\<lparr>e_transport := t\<rparr>, of_err err)))"

text \<open>The callback of an asynchronous send; \<open>ctxDone\<close> when the context has an error.\<close>

definition sendAsync_done ::
  "('cm, 't) q_transport \<Rightarrow> time \<Rightarrow> bool \<Rightarrow> q2SetJob \<Rightarrow> go_error option \<Rightarrow> ('cm, 't) Engine \<Rightarrow> ('cm, 't) Engine option" where
  "sendAsync_done tr now ctxDone s sendErr b =
     (if \<not> job_current s b \<or> ctxDone then Some b
      else
        (case (case sendErr of None \<Rightarrow> job_following tr now s 1 b | Some err \<Rightarrow> (b, Err err)) of
           (b1, Ret _) \<Rightarrow> Some b1
         | (b1, Err err) \<Rightarrow> Some (q_report err b1)
         | (b1, Panic) \<Rightarrow> None))"

definition job_run :: "('cm, 't) q_env \<Rightarrow> ('cm, 't) q_transport \<Rightarrow> time \<Rightarrow> q2SetJob \<Rightarrow> ('cm, 't) Engine \<Rightarrow> ('cm, 't) Engine \<times> unit outcome" where
  "job_run env tr now s b =
     (if \<not> job_current s b \<or> job_nums s = [] then (b, Ret ())
      else
        (case (if job_mode s = Confirmable then tr_SendAsync tr else None) of
           Some async \<Rightarrow> sendAsync env async now s b
         | None \<Rightarrow>
             (let end1 = q2SetEnd (e_config b) (hd (job_nums s)) (job_nums s) in
              thn (run_loop env tr now s (take end1 (job_nums s)) (List.drop end1 (job_nums s)) b)
                (\<lambda>finished b1.
                   if \<not> finished then (b1, Ret ())
                   else
                     (let b2 = (if job_recovery s \<and> job_mode s = NonConfirmable
                                then pauseNormalUntil tr s (now + q2SetDelay (job_key s) b1) b1 else b1)
                      in if \<not> job_current s b2 then (b2, Ret ()) else job_following tr now s end1 b2)))))"

subsection \<open>Requests\<close>

definition findQ2ResponseLocked :: "time \<Rightarrow> bytes \<Rightarrow> ('cm, 't) Engine \<Rightarrow> go_error + bytes" where
  "findQ2ResponseLocked now identity b =
     (let candidates = filter (\<lambda>(key, i). \<not> (t2_identity (e_q2Heap b ! i) \<noteq> identity \<or> \<not> t2_expires (e_q2Heap b ! i) > now)) (e_q2Senders b)
      in if length candidates > 1 then Inl ErrInvalidOptionBlock2
         else Inr (case candidates of [] \<Rightarrow> [] | (key, _) # _ \<Rightarrow> key))"

definition q2ResponseKey :: "time \<Rightarrow> 'cm PMessage \<Rightarrow> bytes option \<Rightarrow> int \<Rightarrow> bool \<Rightarrow> ('cm, 't) Engine \<Rightarrow> go_error + bytes" where
  "q2ResponseKey now r remoteAddr num mor b =
     (let key0 = q2TransferKey r remoteAddr;
          found = (if map_of (e_q2Senders b) key0 = None \<and> (num \<noteq> 0 \<or> \<not> mor \<or> hasOption r RequestTag \<or> code_of r \<noteq> codes_GET)
                   then findQ2ResponseLocked now (qTransferKey r remoteAddr [] True) b else Inr [])
      in case found of
           Inl err \<Rightarrow> Inl err
         | Inr f \<Rightarrow>
             (let key = (if f \<noteq> [] then f else key0)
              in case map_of (e_q2Senders b) key of
                   Some i \<Rightarrow> if t2_mode (e_q2Heap b ! i) \<noteq> Type (msg r) then Inl ErrQBlockBadOption else Inr key
                 | None \<Rightarrow> Inr key))"

definition invalidateTerminalQ2Observation :: "('cm, 't) q_env \<Rightarrow> 'cm PMessage \<Rightarrow> bytes option \<Rightarrow> ('cm, 't) Engine \<Rightarrow> ('cm, 't) Engine" where
  "invalidateTerminalQ2Observation env r remoteAddr b =
     (let key = q2TransferKey r remoteAddr
      in case map_of (e_q2Senders b) key of
           None \<Rightarrow> b
         | Some i \<Rightarrow>
             if t2_terminalObservationKey (e_q2Heap b ! i) \<noteq> qObservationKey (token_of r) remoteAddr then b
             else cancel_job env (q2_job key) (drop_q2 key i b))"

definition prepareQ2ObservationRequest ::
  "('cm, 't) q_env \<Rightarrow> time \<Rightarrow> 'cm PMessage \<Rightarrow> bytes option \<Rightarrow> int \<Rightarrow> ('cm, 't) Engine \<Rightarrow> ('cm, 't) Engine" where
  "prepareQ2ObservationRequest env now r remoteAddr num b =
     (if \<not> hasOption r Observe then b
      else
        (case Options_Observe (opts_of r) of
           (_, Some _) \<Rightarrow> b
         | (observe, None) \<Rightarrow>
             (let b1 = CancelQBlockObservation env now (token_of r) remoteAddr b
              in if observe = 0 \<and> num = 0 then invalidateTerminalQ2Observation env r remoteAddr b1 else b1)))"

definition loadQ2Response ::
  "('cm, 't) q_env \<Rightarrow> time \<Rightarrow> ('cm, 't) next_handler \<Rightarrow> 'cm PMessage \<Rightarrow> bytes option \<Rightarrow> bytes \<Rightarrow> SZX \<Rightarrow> int \<Rightarrow>
   ('cm, 't) Engine \<times> 'cm ResponseWriter \<Rightarrow> (('cm, 't) Engine \<times> 'cm ResponseWriter) \<times> 'cm PMessage outcome" where
  "loadQ2Response env now nxt r remote key szx num s =
     (case buildQBlock2Response env now key (token_of r) szx num (fst s) of
       (b1, Ret resp) \<Rightarrow> ((b1, snd s), Ret resp)
     | (b1, Panic) \<Rightarrow> ((b1, snd s), Panic)
     | (b1, Err err) \<Rightarrow>
         if err \<noteq> ErrQBlock2ResponseNotFound then ((b1, snd s), Err err)
         else if num \<noteq> 0 then ((b1, snd s), Err ErrQBlockInvalidNUM)
         else
           (case nxt r (b1, snd s) of
              None \<Rightarrow> ((b1, snd s), Panic)
            | Some (b2, w1) \<Rightarrow>
                if code_of (response w1) < codes_Created then ((b2, w1), Ret (response w1))
                else
                  (let m = (if body (response w1) = None then PM_SetBody (Some (NewReader [])) (response w1) else response w1)
                   in case cacheQBlock2Response env now key (qTransferKey r remote [] True) (Type (msg r)) (b2, m) of
                        ((b3, m1), Panic) \<Rightarrow> ((b3, w1\<lparr>response := m1\<rparr>), Panic)
                      | ((b3, m1), Err cacheErr) \<Rightarrow> ((b3, w1\<lparr>response := m1\<rparr>), Err cacheErr)
                      | ((b3, m1), Ret _) \<Rightarrow>
                          (let w2 = w1\<lparr>response := m1\<rparr>;
                               (observe, observeErr) = Options_Observe (opts_of r);
                               (b4, res) = (if observeErr = None \<and> observe = 0 \<and> hasOption m1 Observe
                                            then registerQObservation env r remote szx b3 else (b3, Ret ()))
                           in case res of
                                Panic \<Rightarrow> ((b4, w2), Panic)
                              | Err registerErr \<Rightarrow> ((b4, w2), Err registerErr)
                              | Ret _ \<Rightarrow> (let (b5, resp) = buildQBlock2Response env now key (token_of r) szx num b4 in ((b5, w2), resp))))))"

definition prepareQ2NonSend ::
  "('cm, 't) q_env \<Rightarrow> time \<Rightarrow> 'cm PMessage \<Rightarrow> bytes \<Rightarrow> SZX \<Rightarrow> int list \<Rightarrow> int \<Rightarrow> bool \<Rightarrow> ('cm, 't) Engine \<Rightarrow> ('cm, 't) Engine \<times> bool outcome" where
  "prepareQ2NonSend env now r key szx nums count wholeBody b =
     (let num = hd nums;
          transfer = map_of (e_q2Senders b) key
      in if wholeBody \<and> (\<exists>i \<in> set_option transfer. num \<noteq> 0 \<and> num \<le> t2_sentThrough (e_q2Heap b ! i)) then (b, Ret True)
         else
           (let b1 = (case transfer of
                        Some i \<Rightarrow> if wholeBody then put2 i ((e_q2Heap b ! i)\<lparr>t2_sentThrough := num\<rparr>) b else b
                      | None \<Rightarrow> b)
            in case qe_transport env of
                 None \<Rightarrow> (b1, Err no_transport)
               | Some tr \<Rightarrow>
                   (let b2 = (case transfer of
                                Some i \<Rightarrow>
                                  (let deadline = now + t2_delay (e_q2Heap b1 ! i)
                                   in if \<not> wholeBody \<and> deadline > t2_recoveryUntil (e_q2Heap b1 ! i)
                                      then put2 i ((e_q2Heap b1 ! i)\<lparr>t2_recoveryUntil := deadline\<rparr>) b1 else b1)
                              | None \<Rightarrow> b1);
                        recoveryUntil = (case transfer of Some i \<Rightarrow> t2_recoveryUntil (e_q2Heap b2 ! i) | None \<Rightarrow> 0);
                        b3 = delay_job tr (q2_job key) recoveryUntil b2
                    in if wholeBody \<and> recoveryUntil > now
                       then thn (scheduleQ2Set tr
                                  \<lparr>job_key = key, job_token = token_of r, job_szx = szx, job_mode = Type (msg r), job_nums = nums, job_count = count,
                                   job_wholeBody = True, job_recovery = False, job_generation = None\<rparr> recoveryUntil b3)
                              (\<lambda>_ b4. (b4, Ret True))
                       else (b3, Ret False))))"

definition scheduleQ2Continuation ::
  "('cm, 't) q_env \<Rightarrow> time \<Rightarrow> 'cm PMessage \<Rightarrow> bytes \<Rightarrow> SZX \<Rightarrow> int list \<Rightarrow> int \<Rightarrow> bool \<Rightarrow> ('cm, 't) Engine \<Rightarrow> ('cm, 't) Engine \<times> unit outcome" where
  "scheduleQ2Continuation env now r key szx nums count wholeBody b =
     (case qe_transport env of
        None \<Rightarrow> (b, Err no_transport)
      | Some tr \<Rightarrow>
          (let mode = Type (msg r);
               remaining0 = tl nums;
               remaining = (if remaining0 = [] \<and> wholeBody
                            then [hd nums + 1..setLast (hd nums + 1) count (e_config b)] else remaining0);
               delay = (if mode = NonConfirmable \<and> remaining \<noteq> []
                           \<and> hd remaining div MaxPayloads (e_config b) \<noteq> hd nums div MaxPayloads (e_config b)
                        then q2SetDelay key b else 0);
               job = \<lparr>job_key = key, job_token = token_of r, job_szx = szx, job_mode = mode, job_nums = remaining, job_count = count,
                      job_wholeBody = wholeBody, job_recovery = \<not> wholeBody, job_generation = None\<rparr>
           in if qe_postWrite env then (b\<lparr>e_afterWrite := e_afterWrite b @ [(job, delay)]\<rparr>, Ret ())
              else scheduleQ2Set tr job (now + delay) b))"

text \<open>What is left to schedule when the response has been written.\<close>

fun after_write :: "('cm, 't) q_transport \<Rightarrow> time \<Rightarrow> (q2SetJob \<times> int) list \<Rightarrow> ('cm, 't) Engine \<Rightarrow> ('cm, 't) Engine option" where
  "after_write tr now [] b = Some b"
| "after_write tr now ((job, delay) # rest) b =
     (case scheduleQ2Set tr job (now + delay) b of
        (b1, Ret _) \<Rightarrow> after_write tr now rest b1
      | (b1, Err err) \<Rightarrow> after_write tr now rest (q_report err b1)
      | (b1, Panic) \<Rightarrow> None)"

definition continueQ2Response ::
  "('cm, 't) q_env \<Rightarrow> time \<Rightarrow> 'cm PMessage \<Rightarrow> bytes \<Rightarrow> SZX \<Rightarrow> int list \<Rightarrow> int \<Rightarrow> bool \<Rightarrow> ('cm, 't) Engine \<Rightarrow> ('cm, 't) Engine \<times> unit outcome" where
  "continueQ2Response env now r key szx nums count wholeBody b =
     (if length nums \<le> 1 \<and> (\<not> wholeBody \<or> List.last nums + 1 \<ge> count) then (b, Ret ())
      else scheduleQ2Continuation env now r key szx nums count wholeBody b)"

text \<open>The answer of \<open>handleQBlock2\<close>, with the first block in \<open>resp\<close>.\<close>

definition q2_answer ::
  "('cm, 't) q_env \<Rightarrow> time \<Rightarrow> 'cm PMessage \<Rightarrow> bytes \<Rightarrow> SZX \<Rightarrow> int \<Rightarrow> 'cm PMessage \<Rightarrow> ('cm, 't) Engine \<times> 'cm ResponseWriter \<Rightarrow>
   (('cm, 't) Engine \<times> 'cm ResponseWriter) \<times> unit outcome" where
  "q2_answer env now r key szx num resp s =
     (if code_of resp < codes_Created then (s, Ret ())
      else
        (let n = fst (getUint32 resp Size2);
             count = max 1 ((uint n + SZX_Size szx - 1) div SZX_Size szx)
         in case q2RequestedBlocks r szx count (fst s) of
              Inl _ \<Rightarrow> (s, Err ErrInvalidOptionBlock2)
            | Inr (nums, wholeBody) \<Rightarrow>
                if \<not> validQ2First nums num then (s, Err ErrInvalidOptionBlock2)
                else
                  (let (b1, prepared) =
                         (if Type (msg r) = NonConfirmable then prepareQ2NonSend env now r key szx nums count wholeBody (fst s)
                          else (fst s, Ret False))
                   in case prepared of
                        Panic \<Rightarrow> ((b1, snd s), Panic)
                      | Err err \<Rightarrow> ((b1, snd s), Err err)
                      | Ret True \<Rightarrow> ((b1, snd s), Ret ())
                      | Ret False \<Rightarrow>
                          (let resp1 = (if \<not> wholeBody then PM_Remove Observe resp else resp);
                               (b2, res) = continueQ2Response env now r key szx nums count wholeBody b1
                           in ((b2, fst (rw_SetMessage resp1 (snd s))), res)))))"

text \<open>
  \<open>handleQBlock2\<close> calls itself once when the block size asked for is larger than its own; \<open>Panic\<close> when the
  fuel is used up, which two calls never do (\<open>handleQBlock2_fuel\<close>).
\<close>

fun handleQBlock2 ::
  "nat \<Rightarrow> ('cm, 't) q_env \<Rightarrow> time \<Rightarrow> ('cm, 't) next_handler \<Rightarrow> 'cm PMessage \<Rightarrow> SZX \<Rightarrow> bytes option \<Rightarrow>
   ('cm, 't) Engine \<times> 'cm ResponseWriter \<Rightarrow> (('cm, 't) Engine \<times> 'cm ResponseWriter) \<times> unit outcome" where
  "handleQBlock2 0 env now nxt r maxSZX remoteAddr s = (s, Panic)"
| "handleQBlock2 (Suc fuel) env now nxt r maxSZX remoteAddr s =
     (case parseQBlock2 r (fst s) of
        Inl err \<Rightarrow> (s, Err err)
      | Inr (szx, num, mor) \<Rightarrow>
          if szx > maxSZX
          then
            (if num \<noteq> 0 \<or> optionCount r QBlock2 \<noteq> 1 then (s, Err ErrQBlockTooLarge)
             else
               (case cloneMessage env r of
                  None \<Rightarrow> (s, Panic)
                | Some req0 \<Rightarrow>
                    (let v = (case EncodeQBlockOption maxSZX 0 mor of Inl _ \<Rightarrow> 0 | Inr v \<Rightarrow> v)
                     in case PM_SetOptionUint32 QBlock2 v (PM_SetBody (body r) req0) of
                          None \<Rightarrow> (s, Panic)
                        | Some req \<Rightarrow> handleQBlock2 fuel env now nxt req maxSZX remoteAddr s)))
          else
            (let b1 = prepareQ2ObservationRequest env now r remoteAddr num (fst s)
             in case q2ResponseKey now r remoteAddr num mor b1 of
                  Inl err \<Rightarrow> ((b1, snd s), Err err)
                | Inr key \<Rightarrow>
                    thn (loadQ2Response env now nxt r remoteAddr key szx num (b1, snd s)) (q2_answer env now r key szx num)))"

lemma lowered_size:
  assumes "opts_sorted (opts_of r)" "maxSZX \<le> 6" "cloneMessage env r = Some req0"
    "PM_SetOptionUint32 QBlock2 (case EncodeQBlockOption maxSZX 0 mor of Inl _ \<Rightarrow> 0 | Inr v \<Rightarrow> v) (PM_SetBody (body r) req0) = Some req"
    "parseQBlock2 req b = Inr (szx, num, mor')"
  shows "szx = maxSZX"
proof -
  have "\<not> maxSZX > 6" "\<not> (0 < (0 :: int) \<or> 0 > maxQBlockNumber)" using assms(2) by (simp_all add: maxQBlockNumber_def)
  then obtain v where v: "EncodeQBlockOption maxSZX 0 mor = Inr v" by (simp only: EncodeQBlockOption_def if_False Let_def)
  have "opts_of req0 = opts_of r"
    using assms(3) PM_ResetOptionsTo_eq [OF assms(1), of "PM_SetToken (token_of r) (PM_SetCode (code_of r) (qe_fresh env))"]
    by (auto simp: cloneMessage_def set_options_def PM_SetType_def)
  then have "opts_of req = opt_put (opts_of r) QBlock2 (uint_wire v)"
    using assms(4) v PM_SetOptionUint32_eq [of QBlock2 v "PM_SetBody (body r) req0"] by (auto simp: set_options_def PM_SetBody_def)
  then have "getUint32 req QBlock2 = (v, None)"
    using assms(1) by (simp add: opts_sorted_Set vals_Set GetUint32_vals DecodeUint32_uint_wire)
  moreover have "DecodeQBlockOption v = Inr (maxSZX, 0, mor)" using v by (simp add: qblock_option_exact)
  ultimately show ?thesis using assms(5) by (simp add: parseQBlock2_def split: if_splits sum.splits)
qed

text \<open>More fuel than for two calls changes nothing, whatever the message asks for.\<close>

lemma handleQBlock2_fuel:
  assumes "opts_sorted (opts_of r)" "maxSZX \<le> 6"
  shows "handleQBlock2 (Suc (Suc n)) env now nxt r maxSZX remoteAddr s = handleQBlock2 2 env now nxt r maxSZX remoteAddr s"
proof -
  have lowered: "handleQBlock2 (Suc n) env now nxt req maxSZX remoteAddr s = handleQBlock2 (Suc 0) env now nxt req maxSZX remoteAddr s"
    if "cloneMessage env r = Some req0"
      "PM_SetOptionUint32 QBlock2 (case EncodeQBlockOption maxSZX 0 mor of Inl _ \<Rightarrow> 0 | Inr v \<Rightarrow> v) (PM_SetBody (body r) req0) = Some req"
    for req0 mor req
    using lowered_size [OF assms that, of "fst s"] by (auto split: sum.split)
  show ?thesis
    unfolding numeral_2_eq_2 handleQBlock2.simps(2) [of "Suc n"] handleQBlock2.simps(2) [of "Suc 0"] Let_def
    by (intro sum.case_cong prod.case_cong if_cong option.case_cong refl lowered) assumption+
qed

definition dispatchQBlock2 ::
  "('cm, 't) q_env \<Rightarrow> time \<Rightarrow> ('cm, 't) next_handler \<Rightarrow> 'cm PMessage \<Rightarrow> SZX \<Rightarrow> bytes option \<Rightarrow>
   ('cm, 't) Engine \<times> 'cm ResponseWriter \<Rightarrow> (('cm, 't) Engine \<times> 'cm ResponseWriter) option" where
  "dispatchQBlock2 env now nxt r maxSZX remoteAddr s =
     (case handleQBlock2 2 env now nxt r (min maxSZX qBlockMaxSZX) remoteAddr s of
        (s1, Ret _) \<Rightarrow> Some s1
      | (s1, Panic) \<Rightarrow> None
      | ((b1, w1), Err err) \<Rightarrow>
          (let code = (if err = ErrQBlockTooLarge then codes_RequestEntityTooLarge
                       else if err = ErrQBlockBadOption then codes_BadOption
                       else if err = ErrQBlockScheduleFull then codes_ServiceUnavailable
                       else codes_BadRequest)
           in case SetResponse code TextPlain None [] (w1\<lparr>response := PM_SetBody None (response w1)\<rparr>) of
                None \<Rightarrow> None
              | Some (w2, setErr) \<Rightarrow>
                  Some (q_report err (case setErr of None \<Rightarrow> b1 | Some e \<Rightarrow> q_report e b1), w2)))"

subsection \<open>Notifications\<close>

text \<open>The observation a response belongs to, with a copy of its request; \<open>None\<close> when it is not the engine's.\<close>

definition registeredQNotification ::
  "('cm, 't) q_env \<Rightarrow> time \<Rightarrow> 'cm PMessage \<Rightarrow> bytes option \<Rightarrow> ('cm, 't) Engine \<Rightarrow> ('cm PMessage \<times> nat) outcome option" where
  "registeredQNotification env now m remote b =
     (if IsRequestCode (code_of m) then None
      else
        (let key = qObservationKey (token_of m) remote
         in case map_of (e_qObservations b) key of
              None \<Rightarrow>
                if (case map_of (e_qCanceled b) key of None \<Rightarrow> 0 | Some e \<Rightarrow> e) > now then Some (Err ErrCanceled) else None
            | Some o1 \<Rightarrow> Some (and_then (of_opt (cloneMessage env (ob_request (e_obsHeap b ! o1)))) (\<lambda>req. Ret (req, o1)))))"

definition firstNotificationSet :: "time \<Rightarrow> bytes \<Rightarrow> int \<Rightarrow> int \<Rightarrow> ('cm, 't) Engine \<Rightarrow> int list \<times> time" where
  "firstNotificationSet now key mode count b =
     (let c = e_config b;
          nums = [1..setLast 0 count c]
      in if nums = []
         then (let nxt = setLast 0 count c + 1
               in ([nxt..setLast nxt count c], if mode = NonConfirmable then now + q2SetDelay key b else now))
         else (nums, now))"

definition WriteNotification ::
  "('cm, 't) q_env \<Rightarrow> time \<Rightarrow> bytes option \<Rightarrow> ('cm, 't) Engine \<times> 'cm PMessage \<Rightarrow> (('cm, 't) Engine \<times> 'cm PMessage) \<times> bool \<times> unit outcome" where
  "WriteNotification env now remote = (\<lambda>(b, m).
     case registeredQNotification env now m remote b of
       None \<Rightarrow> ((b, m), False, Ret ())
     | Some (Err err) \<Rightarrow> ((b, m), True, Err err)
     | Some Panic \<Rightarrow> ((b, m), True, Panic)
     | Some (Ret (req0, g)) \<Rightarrow>
         (case qe_transport env of
            None \<Rightarrow> ((b, m), True, Err (ErrOther ''Q-Block notification transport is unavailable''))
          | Some tr \<Rightarrow>
              (let key = ob_key (e_obsHeap b ! g);
                   szx = ob_szx (e_obsHeap b ! g);
                   mode = (if Type (msg m) \<noteq> NonConfirmable then Confirmable else NonConfirmable);
                   req = PM_SetType mode req0
               in case cacheQBlock2Notification env now key (qTransferKey req remote [] True) mode (Some g) (b, m) of
                    (s1, Panic) \<Rightarrow> (s1, True, Panic)
                  | (s1, Err err) \<Rightarrow> (s1, True, Err err)
                  | ((b1, m1), Ret i) \<Rightarrow>
                      (let count = max 1 ((t2_size (e_q2Heap b1 ! i) + SZX_Size szx - 1) div SZX_Size szx)
                       in case buildQBlock2ResponseFrom env now key (token_of m1) szx 0 (Some i) b1 of
                            (b2, Panic) \<Rightarrow> ((b2, m1), True, Panic)
                          | (b2, Err err) \<Rightarrow> ((b2, m1), True, if err = ErrQBlock2ResponseNotFound then Ret () else Err err)
                          | (b2, Ret first) \<Rightarrow>
                              (case send_message tr (PM_SetType mode first) b2 of
                                 (b3, Panic) \<Rightarrow> ((b3, m1), True, Panic)
                               | (b3, Err err) \<Rightarrow> ((b3, m1), True, Err err)
                               | (b3, Ret _) \<Rightarrow>
                                   if count = 1 then ((b3, m1), True, Ret ())
                                   else
                                     (let (nums, deadline) = firstNotificationSet now key mode count b3;
                                          (b4, res) = scheduleQ2Set tr
                                            \<lparr>job_key = key, job_token = token_of m1, job_szx = szx, job_mode = mode, job_nums = nums, job_count = count,
                                             job_wholeBody = True, job_recovery = False, job_generation = Some i\<rparr> deadline b3
                                      in ((b4, m1), True, res)))))))"

end
