(* ===== verification/Qblock_Receive.thy ===== *)
theory Qblock_Receive
  imports Qblock_Send
begin

text \<open>
  The receiving side of Q-Block1, \<open>net/blockwise/qblock/receive.go\<close>, and the entry to the engine, \<open>handle.go\<close>:
  the blocks of a request body come in any order, gaps are reported, and when the body is complete the application
  is called once.

  \<open>handleQBlock1\<close> takes the lock of the receivers several times; its parts between two lockings are
  definitions of their own (\<open>q1_begin\<close>, \<open>q1_accept\<close>, \<open>q1_claim\<close>, \<open>q1_deliver\<close>, \<open>q1_store\<close>), so that
  messages handled at the same time can be interleaved.
\<close>

subsection \<open>The options of a block\<close>

definition validateQBlock1 :: "'cm PMessage \<Rightarrow> go_error option" where
  "validateQBlock1 r =
     (if \<not> qBodyMethod (code_of r) then Some ErrQBlockBadOption
      else if optionCount r QBlock1 \<noteq> 1 \<or> hasOption r Block1 \<or> hasOption r Block2 then Some ErrQBlockBadOption
      else if hasOption r QBlock2 \<and> optionCount r QBlock2 \<noteq> 1 then Some ErrQBlockBadOption
      else if hasOption r QBlock2
              \<and> (let (q2Value, q2Err) = getUint32 r QBlock2
                 in q2Err \<noteq> None \<or> (case DecodeQBlockOption q2Value of Inl _ \<Rightarrow> True | Inr (q2SZX, q2NUM, _) \<Rightarrow> q2SZX > qBlockMaxSZX \<or> q2NUM \<noteq> 0))
      then Some ErrQBlockBadOption
      else if \<not> hasOption r RequestTag \<or> \<not> hasOption r Size1 then Some ErrInvalidOptionBlock1
      else if optionCount r RequestTag \<noteq> 1 \<or> optionCount r Size1 \<noteq> 1 then Some ErrQBlockBadOption
      else None)"

record q1Parameters =
  p_tag :: bytes
  p_value :: u32
  p_szx :: SZX
  p_num :: int
  p_more :: bool
  p_bodySize :: u32

definition parseQBlock1 :: "'cm PMessage \<Rightarrow> go_error + q1Parameters" where
  "parseQBlock1 r =
     (case validateQBlock1 r of
        Some err \<Rightarrow> Inl err
      | None \<Rightarrow>
          (let (_, count, tagsErr) = Options_GetBytess (opts_of r) RequestTag [[]] in
           if tagsErr \<noteq> None \<or> count \<noteq> 1 then Inl ErrInvalidOptionBlock1
           else
             (case Options_GetBytes (opts_of r) RequestTag of
                Inl _ \<Rightarrow> Inl ErrInvalidOptionBlock1
              | Inr tag \<Rightarrow>
                  if length tag > 8 then Inl ErrInvalidOptionBlock1
                  else
                    (case getUint32 r QBlock1 of
                       (_, Some _) \<Rightarrow> Inl ErrInvalidOptionBlock1
                     | (v, None) \<Rightarrow>
                         (case DecodeQBlockOption v of
                            Inl _ \<Rightarrow> Inl ErrQBlockBadOption
                          | Inr (szx, num, mor) \<Rightarrow>
                              if szx > qBlockMaxSZX then Inl ErrQBlockBadOption
                              else
                                (case getUint32 r Size1 of
                                   (_, Some _) \<Rightarrow> Inl ErrQBlockBadOption
                                 | (n, None) \<Rightarrow>
                                     Inr \<lparr>p_tag = tag, p_value = v, p_szx = szx, p_num = num, p_more = mor, p_bodySize = n\<rparr>))))))"

subsection \<open>Transfers\<close>

definition q1_limit :: "('cm, 't) Engine \<Rightarrow> int" where
  "q1_limit b = (if e_maxReceiveBodySize b \<le> 0 then q1DefaultMaxBodySize else e_maxReceiveBodySize b)"

definition q1TransferLocked :: "time \<Rightarrow> 'cm PMessage \<Rightarrow> bytes \<Rightarrow> q1Parameters \<Rightarrow> ('cm, 't) Engine \<Rightarrow> ('cm, 't) Engine \<times> nat outcome" where
  "q1TransferLocked now r key p b =
     (if e_q1Closed b then (b, Err ErrCanceled)
      else
        (let (b1, transfer) =
               (case map_of (e_q1Receivers b) key of
                  Some i \<Rightarrow> if \<not> t1_expires (e_q1Heap b ! i) > now then (drop_q1 key i b, None) else (b, Some i)
                | None \<Rightarrow> (b, None))
         in case transfer of
              None \<Rightarrow>
                if length (e_q1Receivers b1) \<ge> 4096 \<or> e_maxEntries b1 > 0 \<and> int (length (e_q1Receivers b1)) \<ge> e_maxEntries b1
                then (b1, Err ErrReceivingMessagesCacheFull)
                else
                  (case NewAssembly (p_szx p) (uint (p_bodySize p)) (q1_limit b1) q1MaxTrackedBlocks of
                     Inl createErr \<Rightarrow> (b1, Err createErr)
                   | Inr asm \<Rightarrow>
                       (let (b2, ok) = qReserveTransfer b1 in
                        if \<not> ok then (b2, Err ErrReceivingMessagesCacheFull)
                        else
                          (let i = length (e_q1Heap b2);
                               t = \<lparr>t1_assembly = Some asm, t1_expires = 0, t1_completed = False, t1_bytes = 0,
                                    t1_bodySize = uint (p_bodySize p), t1_szx = p_szx p, t1_response = None, t1_token = [],
                                    t1_mode = Type (msg r), t1_lastValue = 0, t1_retries = 0, t1_updated = 0, t1_reportedSet = -1,
                                    t1_reportedAt = 0, t1_continuedThrough = -1, t1_continues = [],
                                    t1_completionSequence = 0, t1_completionToken = []\<rparr>
                           in (b2\<lparr>e_q1Heap := e_q1Heap b2 @ [t], e_q1Receivers := AList.update key i (e_q1Receivers b2)\<rparr>, Ret i))))
            | Some i \<Rightarrow>
                if t1_bodySize (e_q1Heap b1 ! i) \<noteq> uint (p_bodySize p) \<or> t1_szx (e_q1Heap b1 ! i) \<noteq> p_szx p
                   \<or> t1_mode (e_q1Heap b1 ! i) \<noteq> Type (msg r)
                then (b1, Err ErrInvalidOptionBlock1)
                else (b1, Ret i)))"

definition replayQ1Completed ::
  "('cm, 't) q_env \<Rightarrow> 'cm PMessage \<Rightarrow> nat \<Rightarrow> ('cm, 't) Engine \<times> 'cm ResponseWriter \<Rightarrow> (('cm, 't) Engine \<times> 'cm ResponseWriter) \<times> unit outcome" where
  "replayQ1Completed env r i = (\<lambda>(b, w).
     case t1_response (e_q1Heap b ! i) of
       None \<Rightarrow> ((b, w), Ret ())
     | Some resp \<Rightarrow>
         (case PM_Clone resp (qe_fresh env) of
            None \<Rightarrow> ((b, w), Panic)
          | Some (_, _, Some err) \<Rightarrow> ((b, w), Err err)
          | Some (_, replay, None) \<Rightarrow> ((b, fst (rw_SetMessage (PM_SetToken (token_of r) replay) w)), Ret ())))"

text \<open>The first locking: the transfer of a block, \<open>None\<close> when it was a replay.\<close>

definition q1_begin ::
  "('cm, 't) q_env \<Rightarrow> time \<Rightarrow> 'cm PMessage \<Rightarrow> bytes \<Rightarrow> q1Parameters \<Rightarrow> ('cm, 't) Engine \<times> 'cm ResponseWriter \<Rightarrow>
   (('cm, 't) Engine \<times> 'cm ResponseWriter) \<times> nat option outcome" where
  "q1_begin env now r key p = (\<lambda>(b, w).
     case q1TransferLocked now r key p b of
       (b1, Err err) \<Rightarrow> ((b1, w), Err err)
     | (b1, Panic) \<Rightarrow> ((b1, w), Panic)
     | (b1, Ret i) \<Rightarrow>
         if t1_completed (e_q1Heap b1 ! i) then thn (replayQ1Completed env r i (b1, w)) (\<lambda>_ s. (s, Ret None))
         else ((put1 i ((e_q1Heap b1 ! i)\<lparr>t1_expires := now + NonPartialTimeout (e_config b1), t1_token := token_of r, t1_lastValue := p_value p\<rparr>) b1, w),
               Ret (Some i)))"

definition addQ1PayloadLocked ::
  "time \<Rightarrow> bytes \<Rightarrow> nat \<Rightarrow> Assembly \<Rightarrow> q1Parameters \<Rightarrow> bytes \<Rightarrow> ('cm, 't) Engine \<Rightarrow> ('cm, 't) Engine \<times> (bool \<times> bool) outcome" where
  "addQ1PayloadLocked now key i asm p payload b =
     (let n = int (length payload); (b1, ok) = qReserveBytes n b in
      if \<not> ok then (b1, Err ErrQBlockTooLarge)
      else
        (let t = e_q1Heap b1 ! i;
             cursor = fst (FirstMissing asm);
             (asm1, res) = Assembly_Add (p_num p) (p_more p) payload asm
         in case res of
              Inr (allThere, duplicate) \<Rightarrow>
                if duplicate then (qReleaseBytes n b1, Ret (allThere, True))
                else
                  (put1 i (t\<lparr>t1_assembly := Some asm1, t1_bytes := t1_bytes t + n, t1_updated := now,
                             t1_retries := (if p_num p = cursor then 0 else t1_retries t)\<rparr>)
                     (b1\<lparr>e_q1ReceiveBytes := e_q1ReceiveBytes b1 + n\<rparr>), Ret (allThere, False))
            | Inl err \<Rightarrow> (drop_q1 key i (qReleaseBytes n b1), Err err)))"

text \<open>The second locking; \<open>None\<close> when the block came after the body was complete.\<close>

definition q1_accept ::
  "('cm, 't) q_env \<Rightarrow> time \<Rightarrow> 'cm PMessage \<Rightarrow> bytes \<Rightarrow> q1Parameters \<Rightarrow> bytes \<Rightarrow> nat \<Rightarrow> ('cm, 't) Engine \<times> 'cm ResponseWriter \<Rightarrow>
   (('cm, 't) Engine \<times> 'cm ResponseWriter) \<times> (bool \<times> bool) option outcome" where
  "q1_accept env now r key p payload i = (\<lambda>(b, w).
     if \<not> e_q1Closed b \<and> map_of (e_q1Receivers b) key = Some i \<and> t1_completed (e_q1Heap b ! i)
     then thn (replayQ1Completed env r i (b, w)) (\<lambda>_ s. (s, Ret None))
     else if e_q1Closed b \<or> map_of (e_q1Receivers b) key \<noteq> Some i then ((b, w), Err ErrCanceled)
     else
       (case t1_assembly (e_q1Heap b ! i) of
          None \<Rightarrow> ((b, w), Err ErrCanceled)
        | Some asm \<Rightarrow> (let (b1, res) = addQ1PayloadLocked now key i asm p payload b in ((b1, w), and_then res (\<lambda>x. Ret (Some x))))))"

subsection \<open>Answers before the body is complete\<close>

definition respondQBlock1 :: "u16 \<Rightarrow> u32 \<Rightarrow> bytes option \<Rightarrow> 'cm ResponseWriter \<Rightarrow> 'cm ResponseWriter \<times> unit outcome" where
  "respondQBlock1 code block rep w =
     (case SetResponse code (if rep = None then TextPlain else AppMissingBlocksCBORSeq) (map_option NewReader rep) [] w of
        None \<Rightarrow> (w, Panic)
      | Some (w1, Some err) \<Rightarrow> (w1, Err err)
      | Some (w1, None) \<Rightarrow>
          (case PM_SetOptionUint32 QBlock1 block (response w1) of
             None \<Rightarrow> (w1, Panic)
           | Some m \<Rightarrow> (w1\<lparr>response := m\<rparr>, Ret ())))"

definition on_writer :: "('cm ResponseWriter \<Rightarrow> 'cm ResponseWriter \<times> unit outcome) \<Rightarrow> ('cm, 't) Engine \<times> 'cm ResponseWriter \<Rightarrow>
    (('cm, 't) Engine \<times> 'cm ResponseWriter) \<times> unit outcome" where
  "on_writer f = (\<lambda>(b, w). let (w1, res) = f w in ((b, w1), res))"

definition respondQ1Missing ::
  "time \<Rightarrow> nat \<Rightarrow> Assembly \<Rightarrow> int \<Rightarrow> u32 \<Rightarrow> ('cm, 't) Engine \<times> 'cm ResponseWriter \<Rightarrow> (('cm, 't) Engine \<times> 'cm ResponseWriter) \<times> unit outcome" where
  "respondQ1Missing now i asm firstMissing v = (\<lambda>(b, w).
     let t = e_q1Heap b ! i; c = e_config b; set1 = firstMissing div MaxPayloads c in
     if t1_reportedSet t = set1 \<and> now - t1_reportedAt t < NonReceiveTimeout c then ((b, w), Ret ())
     else
       (let b1 = put1 i (t\<lparr>t1_reportedSet := set1, t1_reportedAt := now\<rparr>) b
        in case EncodeMissingBlocks [] (missingSet (MaxPayloads c) asm) of
             Inl err \<Rightarrow> ((b1, w), Err err)
           | Inr rep \<Rightarrow> on_writer (respondQBlock1 codes_RequestEntityIncomplete v (if rep = [] then None else Some rep)) (b1, w)))"

definition q1_deadline :: "'cm q1ReceiveTransfer \<Rightarrow> QConfig \<Rightarrow> time" where
  "q1_deadline t c = t1_updated t + int64 (NonReceiveTimeout c * 2 ^ nat (t1_retries t))"

definition scheduleQ1Missing :: "('cm, 't) q_env \<Rightarrow> bytes \<Rightarrow> ('cm, 't) Engine \<Rightarrow> ('cm, 't) Engine \<times> unit outcome" where
  "scheduleQ1Missing env key b =
     (case qe_transport env of
        None \<Rightarrow> (b, Err (ErrOther ''Q-Block timer transport unavailable''))
      | Some tr \<Rightarrow>
          (case map_of (e_q1Receivers b) key of
             None \<Rightarrow> (b, Ret ())
           | Some i \<Rightarrow>
               if t1_completed (e_q1Heap b ! i) then (b, Ret ())
               else schedule_job tr (q1_job key) (q1_deadline (e_q1Heap b ! i) (e_config b)) (Q1Missing key) b))"

text \<open>The scheduled job.\<close>

definition q1_missing_job :: "('cm, 't) q_env \<Rightarrow> ('cm, 't) q_transport \<Rightarrow> time \<Rightarrow> bytes \<Rightarrow> ('cm, 't) Engine \<Rightarrow> ('cm, 't) Engine \<times> unit outcome" where
  "q1_missing_job env tr now key b =
     (case map_of (e_q1Receivers b) key of
        None \<Rightarrow> (b, Ret ())
      | Some i \<Rightarrow>
          (let t = e_q1Heap b ! i in
           if t1_completed t then (b, Ret ())
           else if now < q1_deadline t (e_config b) then scheduleQ1Missing env key b
           else if \<not> t1_expires t > now \<or> t1_retries t \<ge> NonMaxRetransmit (e_config b) then (drop_q1 key i b, Ret ())
           else
             (case t1_assembly t of
                None \<Rightarrow> (b, Panic)
              | Some asm \<Rightarrow>
                  (let b1 = put1 i (t\<lparr>t1_retries := t1_retries t + 1, t1_updated := now\<rparr>) b
                   in case EncodeMissingBlocks [] (missingSet (MaxPayloads (e_config b)) asm) of
                        Inl err \<Rightarrow> (b1, Err err)
                      | Inr rep \<Rightarrow>
                          (case Option.bind
                                  (PM_SetContentFormat AppMissingBlocksCBORSeq
                                    (PM_SetType NonConfirmable (PM_SetCode codes_RequestEntityIncomplete (PM_SetToken (t1_token t) (qe_fresh env)))))
                                  (PM_SetOptionUint32 QBlock1 (t1_lastValue t)) of
                             None \<Rightarrow> (b1, Panic)
                           | Some m \<Rightarrow>
                               thn (send_message tr (PM_SetBody (Some (NewReader rep)) m) b1) (\<lambda>_ b2. scheduleQ1Missing env key b2))))))"

definition respondQ1Incomplete ::
  "('cm, 't) q_env \<Rightarrow> time \<Rightarrow> 'cm PMessage \<Rightarrow> bytes \<Rightarrow> nat \<Rightarrow> q1Parameters \<Rightarrow> bool \<Rightarrow> ('cm, 't) Engine \<times> 'cm ResponseWriter \<Rightarrow>
   (('cm, 't) Engine \<times> 'cm ResponseWriter) \<times> unit outcome" where
  "respondQ1Incomplete env now r key i p duplicate = (\<lambda>(b, w).
     case t1_assembly (e_q1Heap b ! i) of
       None \<Rightarrow> ((b, w), Ret ())
     | Some asm \<Rightarrow>
         (let (firstMissing, gap) = FirstMissing asm; m = MaxPayloads (e_config b) in
          if \<not> gap then ((b, w), Ret ())
          else if Type (msg r) \<noteq> NonConfirmable
          then (if firstMissing > p_num p \<and> p_more p then on_writer (respondQBlock1 codes_Continue (p_value p) None) (b, w) else ((b, w), Ret ()))
          else
            (case scheduleQ1Missing env key b of
               (b1, Err err) \<Rightarrow> ((b1, w), Err err)
             | (b1, Panic) \<Rightarrow> ((b1, w), Panic)
             | (b1, Ret _) \<Rightarrow>
                 if duplicate
                 then (case map_of (t1_continues (e_q1Heap b1 ! i)) (p_num p) of
                         Some reply \<Rightarrow> on_writer (respondQBlock1 codes_Continue reply None) (b1, w)
                       | None \<Rightarrow> ((b1, w), Ret ()))
                 else if p_num p div m > firstMissing div m then respondQ1Missing now i asm firstMissing (p_value p) (b1, w)
                 else if firstMissing \<le> 0 \<or> firstMissing mod m \<noteq> 0 then ((b1, w), Ret ())
                 else
                   (let confirmed = (case EncodeQBlockOption (p_szx p) (firstMissing - 1) True of Inl _ \<Rightarrow> 0 | Inr v \<Rightarrow> v);
                        t = e_q1Heap b1 ! i
                    in if t1_continuedThrough t \<ge> firstMissing - 1 then ((b1, w), Ret ())
                       else
                         on_writer (respondQBlock1 codes_Continue confirmed None)
                           (put1 i (t\<lparr>t1_continuedThrough := firstMissing - 1, t1_continues := AList.update (p_num p) confirmed (t1_continues t)\<rparr>) b1, w)))))"

subsection \<open>The complete body\<close>

text \<open>The first locking of \<open>completeQ1\<close>: the assembly for the one caller that may deliver it.\<close>

definition q1_claim :: "('cm, 't) q_env \<Rightarrow> 'cm PMessage \<Rightarrow> bytes \<Rightarrow> nat \<Rightarrow> ('cm, 't) Engine \<Rightarrow> ('cm, 't) Engine \<times> Assembly option option outcome" where
  "q1_claim env r key i b =
     (if map_of (e_q1Receivers b) key \<noteq> Some i then (b, Err ErrCanceled)
      else if t1_completed (e_q1Heap b ! i) then (b, Ret None)
      else
        (let t = e_q1Heap b ! i
         in (cancel_job env (q1_job key)
               (put1 i (t\<lparr>t1_completed := True, t1_completionSequence := sequence r, t1_completionToken := token_of r\<rparr>) b),
             Ret (Some (t1_assembly t)))))"

text \<open>
  Between the lockings the application is called with the body.  A response larger than a block goes out
  by Q-Block2: it is kept, and the first of its blocks takes its place in the writer.
\<close>

definition q1_large_response ::
  "('cm, 't) q_env \<Rightarrow> time \<Rightarrow> ('cm, 't) next_handler \<Rightarrow> 'cm PMessage \<Rightarrow> SZX \<Rightarrow> SZX \<Rightarrow> bytes option \<Rightarrow>
   ('cm, 't) Engine \<times> 'cm ResponseWriter \<Rightarrow> (('cm, 't) Engine \<times> 'cm ResponseWriter) \<times> unit outcome" where
  "q1_large_response env now nxt r szx maxSZX remoteAddr = (\<lambda>(b, w).
     case cacheQBlock2Response env now (q2TransferKey r remoteAddr) (qTransferKey r remoteAddr [] True) (Type (msg r)) (b, response w) of
       ((b1, m1), Panic) \<Rightarrow> ((b1, w\<lparr>response := m1\<rparr>), Panic)
     | ((b1, m1), Err err) \<Rightarrow> ((b1, w\<lparr>response := m1\<rparr>), Err err)
     | ((b1, m1), Ret _) \<Rightarrow>
         (let w1 = w\<lparr>response := m1\<rparr>
          in case cloneMessage env r of
               None \<Rightarrow> ((b1, w1), Panic)
             | Some q0 \<Rightarrow>
                 (let q1 = PM_Remove QBlock1 q0;
                      capability = (case EncodeQBlockOption szx 0 True of Inl _ \<Rightarrow> 0 | Inr v \<Rightarrow> v)
                  in case (if hasOption q1 QBlock2 then Some q1 else PM_SetOptionUint32 QBlock2 capability q1) of
                       None \<Rightarrow> ((b1, w1), Panic)
                     | Some q2Request \<Rightarrow> handleQBlock2 2 env now nxt q2Request maxSZX remoteAddr (b1, w1))))"

definition q1_deliver ::
  "('cm, 't) q_env \<Rightarrow> time \<Rightarrow> ('cm, 't) next_handler \<Rightarrow> 'cm PMessage \<Rightarrow> Assembly option \<Rightarrow> SZX \<Rightarrow> SZX \<Rightarrow> bytes option \<Rightarrow>
   ('cm, 't) Engine \<times> 'cm ResponseWriter \<Rightarrow> (('cm, 't) Engine \<times> 'cm ResponseWriter) \<times> unit outcome" where
  "q1_deliver env now nxt r asm szx maxSZX remoteAddr s =
     (case asm of
        None \<Rightarrow> (s, Panic)
      | Some a \<Rightarrow>
          (case ReadSeeker a of
             Inl err \<Rightarrow> (s, Err err)
           | Inr rd \<Rightarrow>
               (case (cloneMessage env r, sparse_body rd) of
                  (Some q0, Some bdy) \<Rightarrow>
                    (case nxt (PM_SetBody (Some bdy) (PM_Remove Size1 (PM_Remove QBlock1 q0))) s of
                       None \<Rightarrow> (s, Panic)
                     | Some s1 \<Rightarrow>
                         (case snd (PM_BodySize (response (snd s1))) of
                            Inl _ \<Rightarrow> (s1, Ret ())
                          | Inr n \<Rightarrow>
                              if n > SZX_Size szx then q1_large_response env now nxt r szx maxSZX remoteAddr s1
                              else (s1, Ret ())))
                | _ \<Rightarrow> (s, Panic))))"

definition q1_finished :: "'cm PMessage \<Rightarrow> 'cm q1ReceiveTransfer \<Rightarrow> 'cm q1ReceiveTransfer" where
  "q1_finished stored t = t\<lparr>t1_response := Some stored, t1_bytes := 0, t1_assembly := None, t1_continues := []\<rparr>"

text \<open>The last locking: the response is kept for repetitions, and the blocks are let go.\<close>

definition q1_store ::
  "('cm, 't) q_env \<Rightarrow> bytes \<Rightarrow> nat \<Rightarrow> ('cm, 't) Engine \<times> 'cm ResponseWriter \<Rightarrow> (('cm, 't) Engine \<times> 'cm ResponseWriter) \<times> unit outcome" where
  "q1_store env key i = (\<lambda>(b, w).
     case PM_Clone (response w) (qe_fresh env) of
       None \<Rightarrow> ((b, w), Panic)
     | Some (src, _, Some err) \<Rightarrow> ((b, w\<lparr>response := src\<rparr>), Err err)
     | Some (src, stored, None) \<Rightarrow>
         if map_of (e_q1Receivers b) key \<noteq> Some i then ((b, w\<lparr>response := src\<rparr>), Ret ())
         else
           (let t = e_q1Heap b ! i
            in ((put1 i (q1_finished stored t) (qReleaseBytes (t1_bytes t) (b\<lparr>e_q1ReceiveBytes := e_q1ReceiveBytes b - t1_bytes t\<rparr>)),
                 w\<lparr>response := src\<rparr>), Ret ())))"

definition completeQ1 ::
  "('cm, 't) q_env \<Rightarrow> time \<Rightarrow> ('cm, 't) next_handler \<Rightarrow> 'cm PMessage \<Rightarrow> bytes \<Rightarrow> nat \<Rightarrow> SZX \<Rightarrow> bytes option \<Rightarrow>
   ('cm, 't) Engine \<times> 'cm ResponseWriter \<Rightarrow> (('cm, 't) Engine \<times> 'cm ResponseWriter) \<times> unit outcome" where
  "completeQ1 env now nxt r key i maxSZX remoteAddr = (\<lambda>(b, w).
     let szx = t1_szx (e_q1Heap b ! i) in
     case q1_claim env r key i b of
       (b1, Err err) \<Rightarrow> ((b1, w), Err err)
     | (b1, Panic) \<Rightarrow> ((b1, w), Panic)
     | (b1, Ret None) \<Rightarrow> ((b1, w), Ret ())
     | (b1, Ret (Some asm)) \<Rightarrow>
         thn (q1_deliver env now nxt r asm szx maxSZX remoteAddr (b1, w)) (\<lambda>_ s. q1_store env key i s))"

definition handleQBlock1 ::
  "('cm, 't) q_env \<Rightarrow> time \<Rightarrow> ('cm, 't) next_handler \<Rightarrow> 'cm PMessage \<Rightarrow> SZX \<Rightarrow> bytes option \<Rightarrow>
   ('cm, 't) Engine \<times> 'cm ResponseWriter \<Rightarrow> (('cm, 't) Engine \<times> 'cm ResponseWriter) \<times> unit outcome" where
  "handleQBlock1 env now nxt r maxSZX remoteAddr s =
     (case parseQBlock1 r of
        Inl err \<Rightarrow> (s, Err err)
      | Inr p \<Rightarrow>
          (let key = q1TransferKey r remoteAddr (p_tag p)
           in thn (q1_begin env now r key p s) (\<lambda>entered s1.
                case entered of
                  None \<Rightarrow> (s1, Ret ())
                | Some i \<Rightarrow>
                    (case readQBody r of
                       Inl err \<Rightarrow> (s1, Err err)
                     | Inr payload \<Rightarrow>
                         thn (q1_accept env now r key p payload i s1) (\<lambda>accepted s2.
                           case accepted of
                             None \<Rightarrow> (s2, Ret ())
                           | Some (allThere, duplicate) \<Rightarrow>
                               if \<not> allThere then respondQ1Incomplete env now r key i p duplicate s2
                               else completeQ1 env now nxt r key i maxSZX remoteAddr s2)))))"

subsection \<open>Errors\<close>

definition cacheQ1FinalError :: "('cm, 't) q_env \<Rightarrow> 'cm PMessage \<Rightarrow> bytes option \<Rightarrow> 'cm PMessage \<Rightarrow> ('cm, 't) Engine \<Rightarrow> ('cm, 't) Engine option" where
  "cacheQ1FinalError env r remoteAddr resp b =
     (case Options_GetBytes (opts_of r) RequestTag of
        Inl _ \<Rightarrow> Some b
      | Inr tag \<Rightarrow>
          (case map_of (e_q1Receivers b) (q1TransferKey r remoteAddr tag) of
             None \<Rightarrow> Some b
           | Some i \<Rightarrow>
               (let t = e_q1Heap b ! i in
                if \<not> t1_completed t \<or> t1_response t \<noteq> None \<or> t1_completionSequence t \<noteq> sequence r \<or> t1_completionToken t \<noteq> token_of r
                then Some b
                else
                  (case PM_Clone resp (qe_fresh env) of
                     None \<Rightarrow> None
                   | Some (_, _, Some _) \<Rightarrow> Some b
                   | Some (_, stored, None) \<Rightarrow>
                       Some (put1 i (q1_finished stored t) (qReleaseBytes (t1_bytes t) (b\<lparr>e_q1ReceiveBytes := e_q1ReceiveBytes b - t1_bytes t\<rparr>)))))))"

definition respondQ1Error ::
  "('cm, 't) q_env \<Rightarrow> 'cm PMessage \<Rightarrow> bytes option \<Rightarrow> go_error \<Rightarrow> ('cm, 't) Engine \<times> 'cm ResponseWriter \<Rightarrow>
   (('cm, 't) Engine \<times> 'cm ResponseWriter) option" where
  "respondQ1Error env r remoteAddr err = (\<lambda>(b, w0).
     let w = w0\<lparr>response := PM_SetBody None (response w0)\<rparr>;
         answered =
           (if err = ErrReceivingMessagesCacheFull \<or> err = ErrQBlockScheduleFull then Some (b, q_sendServiceUnavailable env (token_of r) w)
            else if err = ErrRequestEntityTooLarge \<or> err = ErrQBlockTooLarge then map_option (Pair b) (q_sendEntityTooLarge env (token_of r) b w)
            else
              (case SetResponse (if err = ErrQBlockBadOption then codes_BadOption else codes_BadRequest) TextPlain None [] w of
                 None \<Rightarrow> None
               | Some (w1, setErr) \<Rightarrow> Some (case setErr of None \<Rightarrow> b | Some e \<Rightarrow> q_report e b, w1)))
     in case answered of
          None \<Rightarrow> None
        | Some (b1, w1) \<Rightarrow> map_option (\<lambda>b2. (q_report err b2, w1)) (cacheQ1FinalError env r remoteAddr (response w1) b1))"

subsection \<open>The entry\<close>

text \<open>The handler for a continuation of a response that is not there.\<close>

definition reject_continuation :: "('cm, 't) next_handler" where
  "reject_continuation r = (\<lambda>(b, w).
     case SetResponse codes_BadRequest TextPlain None [] w of
       None \<Rightarrow> None
     | Some (w1, None) \<Rightarrow> Some (b, w1)
     | Some (w1, Some err) \<Rightarrow> Some (q_report err b, w1))"

text \<open>\<open>Some\<close> of the outcome when the message is such a continuation.\<close>

definition q1ResponseContinuation ::
  "('cm, 't) q_env \<Rightarrow> time \<Rightarrow> 'cm PMessage \<Rightarrow> SZX \<Rightarrow> bytes option \<Rightarrow> ('cm, 't) Engine \<times> 'cm ResponseWriter \<Rightarrow>
   (('cm, 't) Engine \<times> 'cm ResponseWriter) option option" where
  "q1ResponseContinuation env now r maxSZX remoteAddr s =
     (if \<not> hasOption r QBlock1 \<or> \<not> hasOption r QBlock2 then None
      else
        (case snd (PM_BodySize r) of
           Inl _ \<Rightarrow> None
         | Inr n \<Rightarrow>
             if n \<noteq> 0 \<or> fst (getUint32 r Size1) = 0 then None
             else
               (case cloneMessage env r of
                  None \<Rightarrow> Some None
                | Some req \<Rightarrow> Some (dispatchQBlock2 env now reject_continuation (PM_Remove QBlock1 req) maxSZX remoteAddr s))))"

text \<open>\<open>Handle\<close>: the state afterwards, and whether the message was the engine's; \<open>None\<close> for a panic.\<close>

definition q_Handle ::
  "('cm, 't) q_env \<Rightarrow> time \<Rightarrow> ('cm, 't) next_handler \<Rightarrow> 'cm PMessage \<Rightarrow> SZX \<Rightarrow> bytes option \<Rightarrow> ('cm, 't) Engine \<times> 'cm ResponseWriter \<Rightarrow>
   ((('cm, 't) Engine \<times> 'cm ResponseWriter) \<times> bool) option" where
  "q_Handle env now nxt r maxSZX remoteAddr s =
     (if \<not> IsRequestCode (code_of r) then Some (s, False)
      else
        (let (observe, observeErr) = Options_Observe (opts_of r);
             s1 = (if observeErr = None \<and> observe = 1 then (CancelQBlockObservation env now (token_of r) remoteAddr (fst s), snd s) else s)
         in case q1ResponseContinuation env now r maxSZX remoteAddr s1 of
              Some res \<Rightarrow> map_option (\<lambda>s2. (s2, True)) res
            | None \<Rightarrow>
                if hasOption r QBlock1
                then
                  (case handleQBlock1 env now nxt r (min maxSZX qBlockMaxSZX) remoteAddr s1 of
                     (s2, Ret _) \<Rightarrow> Some (s2, True)
                   | (s2, Panic) \<Rightarrow> None
                   | (s2, Err err) \<Rightarrow> map_option (\<lambda>s3. (s3, True)) (respondQ1Error env r remoteAddr err s2))
                else if hasOption r QBlock2 then map_option (\<lambda>s2. (s2, True)) (dispatchQBlock2 env now nxt r maxSZX remoteAddr s1)
                else Some (s1, False)))"

text \<open>What the transport runs when a job is due; the error is the transport's to report.\<close>

definition run_q_job :: "('cm, 't) q_env \<Rightarrow> ('cm, 't) q_transport \<Rightarrow> time \<Rightarrow> q_job \<Rightarrow> ('cm, 't) Engine \<Rightarrow> ('cm, 't) Engine \<times> unit outcome" where
  "run_q_job env tr now job b = (case job of Q1Missing key \<Rightarrow> q1_missing_job env tr now key b | Q2Set s \<Rightarrow> job_run env tr now s b)"

end
