(* ===== verification/Qblock_Budget.thy ===== *)
theory Qblock_Budget
  imports Qblock_Receive
begin

text \<open>
  The accounts of the Q-Block engine: the counters of bytes and transfers are at every moment what the tables
  hold, so that the limits are kept and nothing reserved is lost.  The states between a reservation and the
  entry in a table are accounted for by \<open>cb\<close> bytes and \<open>ct\<close> transfers, as are the bodies the client side
  receives; \<open>ob\<close> and \<open>ot\<close> are the shares of other engines in the counters of the process.
\<close>

definition q1_sum :: "('cm, 't) Engine \<Rightarrow> int" where
  "q1_sum b = (\<Sum>i \<leftarrow> map snd (e_q1Receivers b). t1_bytes (e_q1Heap b ! i))"

definition q2_sum :: "('cm, 't) Engine \<Rightarrow> int" where
  "q2_sum b = (\<Sum>i \<leftarrow> map snd (e_q2Senders b). t2_size (e_q2Heap b ! i))"

definition q1_table :: "('cm, 't) Engine \<Rightarrow> bool" where
  "q1_table b \<longleftrightarrow> distinct (map fst (e_q1Receivers b)) \<and> distinct (map snd (e_q1Receivers b))
     \<and> (\<forall>i \<in> set (map snd (e_q1Receivers b)). i < length (e_q1Heap b) \<and> 0 \<le> t1_bytes (e_q1Heap b ! i))
     \<and> e_q1ReceiveBytes b = q1_sum b \<and> (e_q1Closed b \<longrightarrow> e_q1Receivers b = [])"

definition q2_table :: "('cm, 't) Engine \<Rightarrow> bool" where
  "q2_table b \<longleftrightarrow> distinct (map fst (e_q2Senders b))
     \<and> (\<forall>i \<in> set (map snd (e_q2Senders b)). i < length (e_q2Heap b) \<and> 0 \<le> t2_size (e_q2Heap b ! i))
     \<and> e_q2SendBytes b = q2_sum b \<and> (e_q2Closed b \<longrightarrow> e_q2Senders b = [])"

definition obs_table :: "('cm, 't) Engine \<Rightarrow> bool" where
  "obs_table b \<longleftrightarrow> distinct (map fst (e_qObservations b)) \<and> (e_q2Closed b \<longrightarrow> e_qObservations b = [])"

definition accounts :: "int \<Rightarrow> int \<Rightarrow> int \<Rightarrow> int \<Rightarrow> ('cm, 't) Engine \<Rightarrow> bool" where
  "accounts ob ot cb ct b \<longleftrightarrow>
     e_retainedBytes b = cb + e_q1ReceiveBytes b + e_q2SendBytes b
     \<and> e_retainedTransfers b = ct + int (length (e_q1Receivers b)) + int (length (e_q2Senders b)) + int (length (e_qObservations b))
     \<and> e_retainedBytes b \<le> qEngineMaxBytes \<and> e_retainedTransfers b \<le> qEngineMaxTransfers
     \<and> e_processBytes b = ob + e_retainedBytes b \<and> e_processBytes b \<le> qProcessMaxBytes
     \<and> e_processTransfers b = ot + e_retainedTransfers b \<and> e_processTransfers b \<le> qProcessMaxTransfers"

definition q_ok :: "int \<Rightarrow> int \<Rightarrow> int \<Rightarrow> int \<Rightarrow> ('cm, 't) Engine \<Rightarrow> bool" where
  "q_ok ob ot cb ct b \<longleftrightarrow> q1_table b \<and> q2_table b \<and> obs_table b \<and> accounts ob ot cb ct b"

lemmas q_defs = q1_table_def q2_table_def obs_table_def accounts_def q1_sum_def q2_sum_def

subsection \<open>What does not matter\<close>

lemma q_ok_frame [simp]:
  "q_ok ob ot cb ct (b\<lparr>e_transport := t\<rparr>) = q_ok ob ot cb ct b"
  "q_ok ob ot cb ct (b\<lparr>e_errors := es\<rparr>) = q_ok ob ot cb ct b"
  "q_ok ob ot cb ct (b\<lparr>e_handed := hs\<rparr>) = q_ok ob ot cb ct b"
  "q_ok ob ot cb ct (b\<lparr>e_afterWrite := ws\<rparr>) = q_ok ob ot cb ct b"
  "q_ok ob ot cb ct (b\<lparr>e_qCanceled := cs\<rparr>) = q_ok ob ot cb ct b"
  "q_ok ob ot cb ct (b\<lparr>e_obsHeap := os\<rparr>) = q_ok ob ot cb ct b"
  by (simp_all add: q_ok_def q_defs)

lemma q_ok_report [simp]: "q_ok ob ot cb ct (q_report e b) = q_ok ob ot cb ct b"
  by (simp add: q_report_def)

lemma q_ok_transport [simp]:
  "q_ok ob ot cb ct (cancel_job env key b) = q_ok ob ot cb ct b"
  "q_ok ob ot cb ct (delay_job tr key d b) = q_ok ob ot cb ct b"
  "q_ok ob ot cb ct (fst (schedule_job tr key d job b)) = q_ok ob ot cb ct b"
  "q_ok ob ot cb ct (fst (send_message tr m b)) = q_ok ob ot cb ct b"
  by (simp_all add: cancel_job_def delay_job_def schedule_job_def send_message_def split: option.split prod.split)

lemma q_ok_remember [simp]: "q_ok ob ot cb ct (rememberQCancellationLocked now key b) = q_ok ob ot cb ct b"
  by (simp add: rememberQCancellationLocked_def Let_def)

lemma sum_list_put:
  assumes "i < length h" "distinct is"
  shows "(\<Sum>j \<leftarrow> is. f (h[i := t] ! j)) = (\<Sum>j \<leftarrow> is. f (h ! j)) + (if i \<in> set is then f t - f (h ! i) else (0 :: int))"
  using assms by (induction "is") (auto simp: nth_list_update)

lemma q_ok_put1:
  assumes "t1_bytes t = t1_bytes (e_q1Heap b ! i)"
  shows "q_ok ob ot cb ct (put1 i t b) = q_ok ob ot cb ct b"
proof -
  have e: "t1_bytes ((e_q1Heap b)[i := t] ! j) = t1_bytes (e_q1Heap b ! j)" for j
    using assms by (cases "i < length (e_q1Heap b)") (auto simp: nth_list_update list_update_beyond)
  show ?thesis by (simp add: q_ok_def q_defs put1_def e)
qed

lemma q_ok_put2:
  assumes "t2_size t = t2_size (e_q2Heap b ! i)"
  shows "q_ok ob ot cb ct (put2 i t b) = q_ok ob ot cb ct b"
proof -
  have e: "t2_size ((e_q2Heap b)[i := t] ! j) = t2_size (e_q2Heap b ! j)" for j
    using assms by (cases "i < length (e_q2Heap b)") (auto simp: nth_list_update list_update_beyond)
  show ?thesis by (simp add: q_ok_def q_defs put2_def e)
qed

subsection \<open>Reserving and releasing\<close>

lemma counters_frame:
  "q1_table (b\<lparr>e_retainedBytes := x, e_processBytes := y\<rparr>) = q1_table b" "q2_table (b\<lparr>e_retainedBytes := x, e_processBytes := y\<rparr>) = q2_table b"
  "obs_table (b\<lparr>e_retainedBytes := x, e_processBytes := y\<rparr>) = obs_table b"
  "q1_table (b\<lparr>e_retainedTransfers := x, e_processTransfers := y\<rparr>) = q1_table b"
  "q2_table (b\<lparr>e_retainedTransfers := x, e_processTransfers := y\<rparr>) = q2_table b"
  "obs_table (b\<lparr>e_retainedTransfers := x, e_processTransfers := y\<rparr>) = obs_table b"
  by (simp_all add: q_defs)

lemma qReserveBytes_eq:
  "qReserveBytes n b =
     (if 0 \<le> n \<and> n \<le> qEngineMaxBytes - e_retainedBytes b \<and> n \<le> qProcessMaxBytes - e_processBytes b
      then (b\<lparr>e_retainedBytes := e_retainedBytes b + n, e_processBytes := e_processBytes b + n\<rparr>, True) else (b, False))"
  by (simp add: qReserveBytes_def qReserve_def Let_def)

lemma qReserveTransfer_eq:
  "qReserveTransfer b =
     (if 1 \<le> qEngineMaxTransfers - e_retainedTransfers b \<and> 1 \<le> qProcessMaxTransfers - e_processTransfers b
      then (b\<lparr>e_retainedTransfers := e_retainedTransfers b + 1, e_processTransfers := e_processTransfers b + 1\<rparr>, True) else (b, False))"
  by (simp add: qReserveTransfer_def qReserve_def Let_def)

lemma reserve_bytes:
  assumes "q_ok ob ot cb ct b"
  shows "qReserveBytes n b = (b', True) \<Longrightarrow> q_ok ob ot (cb + n) ct b' \<and> 0 \<le> n" "qReserveBytes n b = (b', False) \<Longrightarrow> b' = b"
proof -
  assume "qReserveBytes n b = (b', True)"
  then have n: "0 \<le> n" "n \<le> qEngineMaxBytes - e_retainedBytes b" "n \<le> qProcessMaxBytes - e_processBytes b"
    and b': "b' = b\<lparr>e_retainedBytes := e_retainedBytes b + n, e_processBytes := e_processBytes b + n\<rparr>"
    by (auto simp: qReserveBytes_eq split: if_splits)
  have "accounts ob ot (cb + n) ct b'" using assms n by (simp add: b' q_ok_def accounts_def)
  then show "q_ok ob ot (cb + n) ct b' \<and> 0 \<le> n" using assms n(1) by (simp add: b' q_ok_def counters_frame)
qed (simp add: qReserveBytes_eq split: if_splits)

lemma reserve_transfer:
  assumes "q_ok ob ot cb ct b"
  shows "qReserveTransfer b = (b', True) \<Longrightarrow> q_ok ob ot cb (ct + 1) b'" "qReserveTransfer b = (b', False) \<Longrightarrow> b' = b"
proof -
  assume "qReserveTransfer b = (b', True)"
  then have n: "1 \<le> qEngineMaxTransfers - e_retainedTransfers b" "1 \<le> qProcessMaxTransfers - e_processTransfers b"
    and b': "b' = b\<lparr>e_retainedTransfers := e_retainedTransfers b + 1, e_processTransfers := e_processTransfers b + 1\<rparr>"
    by (auto simp: qReserveTransfer_eq split: if_splits)
  have "accounts ob ot cb (ct + 1) b'" using assms n by (simp add: b' q_ok_def accounts_def)
  then show "q_ok ob ot cb (ct + 1) b'" using assms by (simp add: b' q_ok_def counters_frame)
qed (simp add: qReserveTransfer_eq split: if_splits)

lemma release_bytes: "q_ok ob ot (cb + n) ct b \<Longrightarrow> 0 \<le> n \<Longrightarrow> q_ok ob ot cb ct (qReleaseBytes n b)"
  by (simp add: qReleaseBytes_def q_ok_def counters_frame accounts_def)

lemma release_transfer: "q_ok ob ot cb (ct + 1) b \<Longrightarrow> q_ok ob ot cb ct (qReleaseTransfer b)"
  by (simp add: qReleaseTransfer_def q_ok_def counters_frame accounts_def)

subsection \<open>Tables\<close>

lemma delete_entry:
  assumes "distinct (map fst m)" "map_of m k = Some v"
  shows "(\<Sum>i \<leftarrow> map snd (AList.delete k m). f i) = (\<Sum>i \<leftarrow> map snd m. f i) - (f v :: int)"
    "int (length (AList.delete k m)) = int (length m) - 1"
proof -
  have "(\<Sum>i \<leftarrow> map snd (AList.delete k m). f i) = (\<Sum>i \<leftarrow> map snd m. f i) - f v \<and> Suc (length (AList.delete k m)) = length m"
    using assms
  proof (induction m)
    case (Cons x m)
    show ?case
    proof (cases "fst x = k")
      case True
      then have "AList.delete k m = m" using Cons.prems(1) by simp
      then show ?thesis using True Cons.prems(2) by (cases x) (simp add: AList.delete_simps)
    next
      case False
      then show ?thesis using Cons by (cases x) (auto simp: AList.delete_simps)
    qed
  qed simp
  then show "(\<Sum>i \<leftarrow> map snd (AList.delete k m). f i) = (\<Sum>i \<leftarrow> map snd m. f i) - (f v :: int)"
    "int (length (AList.delete k m)) = int (length m) - 1" by auto
qed

lemma delete_sub: "set (map snd (AList.delete k m)) \<subseteq> set (map snd m)" "distinct (map snd m) \<Longrightarrow> distinct (map snd (AList.delete k m))"
  "distinct (map fst m) \<Longrightarrow> distinct (map fst (AList.delete k m))"
proof -
  have d: "AList.delete k m = filter (\<lambda>(k', _). k \<noteq> k') m" by (simp add: AList.delete_eq)
  show "set (map snd (AList.delete k m)) \<subseteq> set (map snd m)" unfolding d by auto
  show "distinct (map snd m) \<Longrightarrow> distinct (map snd (AList.delete k m))" unfolding d by (rule distinct_map_filter)
  show "distinct (map fst m) \<Longrightarrow> distinct (map fst (AList.delete k m))" unfolding d by (rule distinct_map_filter)
qed

lemma update_new:
  assumes "map_of m k = None"
  shows "AList.update k v m = m @ [(k, v)]"
  using assms by (induction m) auto

lemma map_of_snd: "map_of m k = Some v \<Longrightarrow> v \<in> set (map snd m)"
  by (force dest: map_of_SomeD)

lemma remove_q1:
  assumes "q_ok ob ot cb ct b" "map_of (e_q1Receivers b) key = Some i"
  shows "q_ok ob ot (cb + t1_bytes (e_q1Heap b ! i)) (ct + 1)
      (b\<lparr>e_q1Receivers := AList.delete key (e_q1Receivers b), e_q1ReceiveBytes := e_q1ReceiveBytes b - t1_bytes (e_q1Heap b ! i)\<rparr>)"
    "0 \<le> t1_bytes (e_q1Heap b ! i)" "i < length (e_q1Heap b)"
proof -
  have t: "q1_table b" "q2_table b" "obs_table b" "accounts ob ot cb ct b" using assms(1) by (simp_all add: q_ok_def)
  have d: "distinct (map fst (e_q1Receivers b))" using t(1) by (simp add: q1_table_def)
  note D = delete_entry [OF d assms(2)]
  show "0 \<le> t1_bytes (e_q1Heap b ! i)" "i < length (e_q1Heap b)" using t(1) map_of_snd [OF assms(2)] by (auto simp: q1_table_def)
  have "q1_table (b\<lparr>e_q1Receivers := AList.delete key (e_q1Receivers b), e_q1ReceiveBytes := e_q1ReceiveBytes b - t1_bytes (e_q1Heap b ! i)\<rparr>)"
  proof -
    have "\<forall>j \<in> set (map snd (AList.delete key (e_q1Receivers b))). j < length (e_q1Heap b) \<and> 0 \<le> t1_bytes (e_q1Heap b ! j)"
      using t(1) delete_sub(1) [of key "e_q1Receivers b"] unfolding q1_table_def by blast
    then show ?thesis
      using t(1) delete_sub(2,3) [of "e_q1Receivers b" key] D(1) [of "\<lambda>j. t1_bytes (e_q1Heap b ! j)"] assms(2)
      unfolding q1_table_def q1_sum_def by (simp add: comp_def)
  qed
  then show "q_ok ob ot (cb + t1_bytes (e_q1Heap b ! i)) (ct + 1)
      (b\<lparr>e_q1Receivers := AList.delete key (e_q1Receivers b), e_q1ReceiveBytes := e_q1ReceiveBytes b - t1_bytes (e_q1Heap b ! i)\<rparr>)"
    using t D(2) by (simp add: q_ok_def q2_table_def q2_sum_def obs_table_def accounts_def)
qed

lemma remove_q2:
  assumes "q_ok ob ot cb ct b" "map_of (e_q2Senders b) key = Some i"
  shows "q_ok ob ot (cb + t2_size (e_q2Heap b ! i)) (ct + 1)
      (b\<lparr>e_q2Senders := AList.delete key (e_q2Senders b), e_q2SendBytes := e_q2SendBytes b - t2_size (e_q2Heap b ! i)\<rparr>)"
    "0 \<le> t2_size (e_q2Heap b ! i)" "i < length (e_q2Heap b)"
proof -
  have t: "q1_table b" "q2_table b" "obs_table b" "accounts ob ot cb ct b" using assms(1) by (simp_all add: q_ok_def)
  have d: "distinct (map fst (e_q2Senders b))" using t(2) by (simp add: q2_table_def)
  note D = delete_entry [OF d assms(2)]
  show "0 \<le> t2_size (e_q2Heap b ! i)" "i < length (e_q2Heap b)" using t(2) map_of_snd [OF assms(2)] by (auto simp: q2_table_def)
  have "q2_table (b\<lparr>e_q2Senders := AList.delete key (e_q2Senders b), e_q2SendBytes := e_q2SendBytes b - t2_size (e_q2Heap b ! i)\<rparr>)"
  proof -
    have "\<forall>j \<in> set (map snd (AList.delete key (e_q2Senders b))). j < length (e_q2Heap b) \<and> 0 \<le> t2_size (e_q2Heap b ! j)"
      using t(2) delete_sub(1) [of key "e_q2Senders b"] unfolding q2_table_def by blast
    then show ?thesis
      using t(2) delete_sub(2,3) [of "e_q2Senders b" key] D(1) [of "\<lambda>j. t2_size (e_q2Heap b ! j)"] assms(2)
      unfolding q2_table_def q2_sum_def by (simp add: comp_def)
  qed
  then show "q_ok ob ot (cb + t2_size (e_q2Heap b ! i)) (ct + 1)
      (b\<lparr>e_q2Senders := AList.delete key (e_q2Senders b), e_q2SendBytes := e_q2SendBytes b - t2_size (e_q2Heap b ! i)\<rparr>)"
    using t D(2) by (simp add: q_ok_def q1_table_def q1_sum_def obs_table_def accounts_def)
qed

lemma remove_obs:
  assumes "q_ok ob ot cb ct b" "map_of (e_qObservations b) key = Some g"
  shows "q_ok ob ot cb (ct + 1) (b\<lparr>e_qObservations := AList.delete key (e_qObservations b)\<rparr>)"
proof -
  have t: "q1_table b" "q2_table b" "obs_table b" "accounts ob ot cb ct b" using assms(1) by (simp_all add: q_ok_def)
  have d: "distinct (map fst (e_qObservations b))" using t(3) by (simp add: obs_table_def)
  have "obs_table (b\<lparr>e_qObservations := AList.delete key (e_qObservations b)\<rparr>)"
    using t(3) delete_sub(3) [of "e_qObservations b" key] assms(2) by (auto simp: obs_table_def)
  then show ?thesis using t delete_entry(2) [OF d assms(2)]
    by (simp add: q_ok_def q1_table_def q1_sum_def q2_table_def q2_sum_def accounts_def)
qed

lemma drop_q1_ok: "q_ok ob ot cb ct b \<Longrightarrow> map_of (e_q1Receivers b) key = Some i \<Longrightarrow> q_ok ob ot cb ct (drop_q1 key i b)"
  using remove_q1 [of ob ot cb ct b key i] by (simp add: drop_q1_def Let_def release_bytes release_transfer)

lemma drop_q2_ok: "q_ok ob ot cb ct b \<Longrightarrow> map_of (e_q2Senders b) key = Some i \<Longrightarrow> q_ok ob ot cb ct (drop_q2 key i b)"
  using remove_q2 [of ob ot cb ct b key i] by (simp add: drop_q2_def Let_def release_bytes release_transfer)

lemma insert_q1:
  assumes "q_ok ob ot cb (ct + 1) b" "map_of (e_q1Receivers b) key = None" "t1_bytes t = 0" "\<not> e_q1Closed b"
  shows "q_ok ob ot cb ct (b\<lparr>e_q1Heap := e_q1Heap b @ [t], e_q1Receivers := AList.update key (length (e_q1Heap b)) (e_q1Receivers b)\<rparr>)"
proof -
  have t: "q1_table b" "q2_table b" "obs_table b" "accounts ob ot cb (ct + 1) b" using assms(1) by (simp_all add: q_ok_def)
  have old: "t1_bytes ((e_q1Heap b @ [t]) ! j) = t1_bytes (e_q1Heap b ! j)" if "j \<in> set (map snd (e_q1Receivers b))" for j
    using that t(1) by (auto simp: q1_table_def nth_append)
  have s: "(\<Sum>j \<leftarrow> map snd (e_q1Receivers b). t1_bytes ((e_q1Heap b @ [t]) ! j)) = q1_sum b"
    unfolding q1_sum_def by (intro arg_cong [of _ _ sum_list] map_cong refl old) simp
  have "q1_table (b\<lparr>e_q1Heap := e_q1Heap b @ [t], e_q1Receivers := e_q1Receivers b @ [(key, length (e_q1Heap b))]\<rparr>)"
    using t(1) assms(2-4) s old by (auto simp: q1_table_def q1_sum_def map_of_eq_None_iff nth_append image_iff)
  then show ?thesis using t
    by (simp add: update_new [OF assms(2)] q_ok_def obs_table_def q2_table_def q2_sum_def accounts_def)
qed

lemma insert_q2:
  assumes "q_ok ob ot (cb + n) (ct + 1) b" "map_of (e_q2Senders b) key = None" "t2_size t = n" "0 \<le> n" "\<not> e_q2Closed b"
  shows "q_ok ob ot cb ct (b\<lparr>e_q2SendBytes := e_q2SendBytes b + n, e_q2Heap := e_q2Heap b @ [t],
     e_q2Senders := AList.update key (length (e_q2Heap b)) (e_q2Senders b)\<rparr>)"
proof -
  have t: "q1_table b" "q2_table b" "obs_table b" "accounts ob ot (cb + n) (ct + 1) b" using assms(1) by (simp_all add: q_ok_def)
  have old: "t2_size ((e_q2Heap b @ [t]) ! j) = t2_size (e_q2Heap b ! j)" if "j \<in> set (map snd (e_q2Senders b))" for j
    using that t(2) by (auto simp: q2_table_def nth_append)
  have s: "(\<Sum>j \<leftarrow> map snd (e_q2Senders b). t2_size ((e_q2Heap b @ [t]) ! j)) = q2_sum b"
    unfolding q2_sum_def by (intro arg_cong [of _ _ sum_list] map_cong refl old) simp
  have "q2_table (b\<lparr>e_q2SendBytes := e_q2SendBytes b + n, e_q2Heap := e_q2Heap b @ [t],
      e_q2Senders := e_q2Senders b @ [(key, length (e_q2Heap b))]\<rparr>)"
    using t(2) assms(2-5) s old by (auto simp: q2_table_def q2_sum_def map_of_eq_None_iff nth_append image_iff)
  then show ?thesis using t
    by (simp add: update_new [OF assms(2)] q_ok_def obs_table_def q1_table_def q1_sum_def accounts_def)
qed

lemma insert_obs:
  assumes "q_ok ob ot cb (ct + 1) b" "map_of (e_qObservations b) key = None" "\<not> e_q2Closed b"
  shows "q_ok ob ot cb ct (b\<lparr>e_qObservations := AList.update key g (e_qObservations b)\<rparr>)"
  using assms by (auto simp: update_new [OF assms(2)] q_ok_def q_defs map_of_eq_None_iff)

lemma replace_obs:
  assumes "q_ok ob ot cb ct b" "map_of (e_qObservations b) key = Some p" "\<not> e_q2Closed b"
  shows "q_ok ob ot cb ct (b\<lparr>e_qObservations := AList.update key g (e_qObservations b)\<rparr>)"
proof -
  have k: "key \<in> set (map fst (e_qObservations b))" using assms(2) by (force dest: map_of_SomeD)
  have "map fst (AList.update key g (e_qObservations b)) = map fst (e_qObservations b)"
    using k by (simp add: AList.update_keys)
  moreover from this have "length (AList.update key g (e_qObservations b)) = length (e_qObservations b)" by (metis length_map)
  ultimately show ?thesis using assms(1,3) by (simp add: q_ok_def q_defs)
qed

subsection \<open>Outcomes\<close>

text \<open>A property of the state, unless the call panics.\<close>

definition keeps :: "('s \<Rightarrow> bool) \<Rightarrow> 's \<times> 'a outcome \<Rightarrow> bool" where
  "keeps P x \<longleftrightarrow> (snd x \<noteq> Panic \<longrightarrow> P (fst x))"

lemma keeps_simps [simp]: "keeps P (s, Panic)" "keeps P (s, Ret a) = P s" "keeps P (s, Err e) = P s"
  by (simp_all add: keeps_def)

lemma keepsI: "P (fst x) \<Longrightarrow> keeps P x"
  by (simp add: keeps_def)

lemma keeps_pair: "P s \<Longrightarrow> keeps P (s, r)"
  by (simp add: keeps_def)

lemma keeps_thn: "keeps P x \<Longrightarrow> (\<And>a s. P s \<Longrightarrow> keeps P (f a s)) \<Longrightarrow> keeps P (thn x f)"
  by (cases x rule: prod.exhaust; cases "snd x") auto

lemma keeps_cases:
  assumes "keeps P x" "x = (s, Ret a)"
  shows "P s"
  using assms by simp

subsection \<open>The operations on responses and observations\<close>

lemma table_frames [simp]:
  "e_q2Senders (qReleaseTransfer b) = e_q2Senders b" "e_q2Senders (qReleaseBytes n b) = e_q2Senders b"
  "e_qObservations (qReleaseTransfer b) = e_qObservations b" "e_qObservations (qReleaseBytes n b) = e_qObservations b"
  "e_q2Closed (qReleaseTransfer b) = e_q2Closed b" "e_q2Closed (qReleaseBytes n b) = e_q2Closed b"
  "e_obsHeap (qReleaseTransfer b) = e_obsHeap b" "e_obsHeap (qReleaseBytes n b) = e_obsHeap b"
  "e_q1Receivers (qReleaseTransfer b) = e_q1Receivers b" "e_q1Receivers (qReleaseBytes n b) = e_q1Receivers b"
  "e_q1Heap (qReleaseTransfer b) = e_q1Heap b" "e_q1Heap (qReleaseBytes n b) = e_q1Heap b"
  "e_q1Closed (qReleaseTransfer b) = e_q1Closed b" "e_q1Closed (qReleaseBytes n b) = e_q1Closed b"
  "e_config (qReleaseTransfer b) = e_config b" "e_config (qReleaseBytes n b) = e_config b"
  "e_q2Heap (qReleaseTransfer b) = e_q2Heap b" "e_q2Heap (qReleaseBytes n b) = e_q2Heap b"
  by (simp_all add: qReleaseTransfer_def qReleaseBytes_def)

lemma job_frames [simp]:
  "e_q2Senders (cancel_job env k b) = e_q2Senders b" "e_qObservations (cancel_job env k b) = e_qObservations b"
  "e_q2Closed (cancel_job env k b) = e_q2Closed b" "e_obsHeap (cancel_job env k b) = e_obsHeap b"
  "e_q2Heap (cancel_job env k b) = e_q2Heap b" "e_config (cancel_job env k b) = e_config b"
  "e_q1Heap (cancel_job env k b) = e_q1Heap b" "e_q1Receivers (cancel_job env k b) = e_q1Receivers b"
  "e_q1Closed (cancel_job env k b) = e_q1Closed b"
  by (simp_all add: cancel_job_def split: option.split)

lemma remember_frames [simp]:
  "e_q2Senders (rememberQCancellationLocked now k b) = e_q2Senders b" "e_q2Heap (rememberQCancellationLocked now k b) = e_q2Heap b"
  "e_obsHeap (rememberQCancellationLocked now k b) = e_obsHeap b" "e_qObservations (rememberQCancellationLocked now k b) = e_qObservations b"
  by (simp_all add: rememberQCancellationLocked_def Let_def)

lemma drop_q2_frames [simp]:
  "e_q2Senders (drop_q2 k i b) = AList.delete k (e_q2Senders b)" "e_qObservations (drop_q2 k i b) = e_qObservations b"
  "e_q2Closed (drop_q2 k i b) = e_q2Closed b" "e_obsHeap (drop_q2 k i b) = e_obsHeap b" "e_q2Heap (drop_q2 k i b) = e_q2Heap b"
  "e_config (drop_q2 k i b) = e_config b"
  by (simp_all add: drop_q2_def Let_def)

lemma drop_q1_frames [simp]:
  "e_q1Receivers (drop_q1 k i b) = AList.delete k (e_q1Receivers b)" "e_q1Heap (drop_q1 k i b) = e_q1Heap b"
  "e_q1Closed (drop_q1 k i b) = e_q1Closed b" "e_config (drop_q1 k i b) = e_config b"
  by (simp_all add: drop_q1_def Let_def)

lemma optional_drop_q2:
  "q_ok ob ot cb ct b \<Longrightarrow> q_ok ob ot cb ct (case map_of (e_q2Senders b) key of None \<Rightarrow> b | Some i \<Rightarrow> drop_q2 key i b)"
  by (simp add: drop_q2_ok split: option.split)

lemma CancelQBlockObservation_ok:
  assumes "q_ok ob ot cb ct b"
  shows "q_ok ob ot cb ct (CancelQBlockObservation env now token remote b)"
proof (cases "map_of (e_qObservations b) (qObservationKey token remote)")
  case None
  then show ?thesis using assms by (simp add: CancelQBlockObservation_def Let_def)
next
  case (Some g)
  let ?b1 = "qReleaseTransfer (rememberQCancellationLocked now (qObservationKey token remote)
      (b\<lparr>e_qObservations := AList.delete (qObservationKey token remote) (e_qObservations b)\<rparr>))"
  have "q_ok ob ot cb ct ?b1" using remove_obs [OF assms Some] by (intro release_transfer) simp
  then show ?thesis using Some optional_drop_q2 [of ob ot cb ct ?b1] by (simp add: CancelQBlockObservation_def Let_def)
qed

lemma observation_slot_ok:
  assumes "q_ok ob ot cb ct b" "\<not> e_q2Closed b"
  shows "observation_slot env key b = (b2, True) \<Longrightarrow> q_ok ob ot cb ct (b2\<lparr>e_obsHeap := os, e_qObservations := AList.update key g (e_qObservations b2)\<rparr>)"
    "observation_slot env key b = (b2, False) \<Longrightarrow> q_ok ob ot cb ct b2"
proof -
  assume slot: "observation_slot env key b = (b2, True)"
  show "q_ok ob ot cb ct (b2\<lparr>e_obsHeap := os, e_qObservations := AList.update key g (e_qObservations b2)\<rparr>)"
  proof (cases "map_of (e_qObservations b) key")
    case (Some p)
    have "q_ok ob ot cb ct b2" using slot Some assms(1) by (auto simp: observation_slot_def Let_def drop_q2_ok split: option.splits)
    moreover have "e_qObservations b2 = e_qObservations b" "e_q2Closed b2 = e_q2Closed b"
      using slot Some by (auto simp: observation_slot_def Let_def split: option.splits)
    ultimately show ?thesis using replace_obs [of ob ot cb ct "b2\<lparr>e_obsHeap := os\<rparr>" key p g] Some assms(2) by simp
  next
    case None
    then have r: "qReserveTransfer b = (b2, True)" using slot by (auto simp: observation_slot_def split: if_splits)
    have "e_qObservations b2 = e_qObservations b" "e_q2Closed b2 = e_q2Closed b"
      using r by (auto simp: qReserveTransfer_eq split: if_splits)
    then show ?thesis using insert_obs [of ob ot cb ct "b2\<lparr>e_obsHeap := os\<rparr>" key g] reserve_transfer(1) [OF assms(1) r] None assms(2) by simp
  qed
next
  assume "observation_slot env key b = (b2, False)"
  then show "q_ok ob ot cb ct b2" using reserve_transfer(2) [OF assms(1), of b2] assms(1)
    by (auto simp: observation_slot_def Let_def split: option.splits if_splits)
qed

lemma registerQObservation_ok:
  assumes "q_ok ob ot cb ct b"
  shows "keeps (q_ok ob ot cb ct) (registerQObservation env r remote szx b)"
proof (cases "e_q2Closed b")
  case True
  then show ?thesis using assms by (simp add: registerQObservation_def qClosedError_def of_err_def)
next
  case False
  let ?key = "qObservationKey (token_of r) remote"
  let ?b1 = "b\<lparr>e_qCanceled := AList.delete ?key (e_qCanceled b)\<rparr>"
  have ok: "q_ok ob ot cb ct ?b1" "\<not> e_q2Closed ?b1" using assms False by simp_all
  obtain b2 room where s: "observation_slot env ?key ?b1 = (b2, room)" by (rule prod.exhaust)
  show ?thesis
    using observation_slot_ok [OF ok, of env ?key b2] s False
    by (cases room) (simp_all add: registerQObservation_def Let_def split: option.split)
qed

lemma snapshot_ok:
  assumes "q_ok ob ot cb ct b"
  shows "snapshotQ2NotificationBody env m b = (b', Ret (stored, n)) \<Longrightarrow>
      q_ok ob ot (cb + n) (ct + 1) b' \<and> 0 \<le> n \<and> e_q2Senders b' = e_q2Senders b \<and> e_q2Closed b' = e_q2Closed b"
    "snapshotQ2NotificationBody env m b = (b', Err e) \<Longrightarrow> q_ok ob ot cb ct b'"
proof -
  obtain sz where sz: "snd (PM_BodySize m) = Inr sz" by (simp add: PM_BodySize_eq)
  obtain b1 ok1 where r1: "qReserveBytes sz b = (b1, ok1)" by (rule prod.exhaust)
  obtain b2 ok2 where r2: "qReserveTransfer b1 = (b2, ok2)" by (rule prod.exhaust)
  have f1: "e_q2Senders b1 = e_q2Senders b" "e_q2Closed b1 = e_q2Closed b" using r1 by (auto simp: qReserveBytes_eq split: if_splits)
  have f2: "e_q2Senders b2 = e_q2Senders b1" "e_q2Closed b2 = e_q2Closed b1" using r2 by (auto simp: qReserveTransfer_eq split: if_splits)
  have g1: "q_ok ob ot (cb + sz) ct b1" "0 \<le> sz" if ok1 using reserve_bytes(1) [OF assms, of sz b1] r1 that by auto
  have g1': "b1 = b" if "\<not> ok1" using reserve_bytes(2) [OF assms, of sz b1] r1 that by auto
  have g2: "q_ok ob ot (cb + sz) (ct + 1) b2" if ok1 ok2 using reserve_transfer(1) [OF g1(1) [OF that(1)], of b2] r2 that(2) by simp
  have g2': "b2 = b1" if ok1 "\<not> ok2" using reserve_transfer(2) [OF g1(1) [OF that(1)], of b2] r2 that(2) by simp
  show "q_ok ob ot (cb + n) (ct + 1) b' \<and> 0 \<le> n \<and> e_q2Senders b' = e_q2Senders b \<and> e_q2Closed b' = e_q2Closed b"
    if "snapshotQ2NotificationBody env m b = (b', Ret (stored, n))"
    using that sz r1 r2 f1 f2 g1 g2 by (auto simp: snapshotQ2NotificationBody_def Let_def split: if_splits outcome.splits)
  show "q_ok ob ot cb ct b'" if e: "snapshotQ2NotificationBody env m b = (b', Err e)"
  proof (cases "ok1 \<and> ok2")
    case True
    then have g: "q_ok ob ot (cb + sz) (ct + 1) b2" "0 \<le> sz" using g1 g2 by simp_all
    have "q_ok ob ot cb (ct + 1) (qReleaseBytes sz b2)" using release_bytes [OF g] .
    then have "q_ok ob ot cb ct (qReleaseTransfer (qReleaseBytes sz b2))" by (rule release_transfer)
    then show ?thesis using e sz r1 r2 True assms by (auto simp: snapshotQ2NotificationBody_def Let_def split: if_splits outcome.splits)
  next
    case False
    then show ?thesis using e sz r1 r2 assms g1 g1' g2' release_bytes [of ob ot cb sz ct b1]
      by (auto simp: snapshotQ2NotificationBody_def Let_def split: if_splits outcome.splits)
  qed
qed

lemma sender_slot_ok:
  assumes "q_ok ob ot cb ct b" "sender_slot env key b = (b2, room)"
  shows "q_ok ob ot cb ct b2" "room \<Longrightarrow> map_of (e_q2Senders b2) key = None" "e_q2Closed b2 = e_q2Closed b"
    "e_qObservations b2 = e_qObservations b" "e_obsHeap b2 = e_obsHeap b"
  using assms by (auto simp: sender_slot_def drop_q2_ok AList.delete_conv' split: option.splits)

lemma finish_ok:
  assumes "q_ok ob ot cb ct b" "validateQNotificationLocked generation b = None"
  shows "q_ok ob ot cb ct (finishQNotificationLocked now generation present b)"
proof (cases generation)
  case (Some g)
  let ?k = "ob_registrationKey (e_obsHeap b ! g)"
  have "map_of (e_qObservations b) ?k = Some g"
    using Some assms(2) by (simp add: validateQNotificationLocked_def split: if_splits)
  then have "q_ok ob ot cb (ct + 1) (rememberQCancellationLocked now ?k (b\<lparr>e_qObservations := AList.delete ?k (e_qObservations b)\<rparr>))"
    using remove_obs [OF assms(1)] by simp
  then have "q_ok ob ot cb ct (qReleaseTransfer (rememberQCancellationLocked now ?k (b\<lparr>e_qObservations := AList.delete ?k (e_qObservations b)\<rparr>)))"
    by (rule release_transfer)
  then show ?thesis using Some assms(1) by (simp add: finishQNotificationLocked_def Let_def)
qed (simp add: finishQNotificationLocked_def assms(1))

lemma cacheQBlock2Notification_ok:
  assumes "q_ok ob ot cb ct b"
  shows "keeps (\<lambda>s. q_ok ob ot cb ct (fst s)) (cacheQBlock2Notification env now key identity mode generation (b, m))"
proof -
  obtain b1 res where sn: "snapshotQ2NotificationBody env m b = (b1, res)" by (rule prod.exhaust)
  show ?thesis
  proof (cases res)
    case (Err e)
    then show ?thesis using sn snapshot_ok(2) [OF assms] by (simp add: cacheQBlock2Notification_def)
  next
    case Panic
    then show ?thesis using sn by (simp add: cacheQBlock2Notification_def)
  next
    case (Ret sn2)
    obtain stored n where p: "sn2 = (stored, n)" by (rule prod.exhaust)
    have ok1: "q_ok ob ot (cb + n) (ct + 1) b1" "0 \<le> n" using snapshot_ok(1) [OF assms, of env m b1 stored n] sn Ret p by auto
    define m1 where "m1 = PM_SetOptionBytes ETag (case Options_GetBytes (opts_of stored) ETag of Inl _ \<Rightarrow> [] | Inr e \<Rightarrow> e) m"
    define refused where "refused = (case qClosedError (e_q2Closed b1) of Some err \<Rightarrow> Some err | None \<Rightarrow> validateQNotificationLocked generation b1)"
    have given_back: "q_ok ob ot cb ct (qReleaseTransfer (qReleaseBytes n b'))" if "q_ok ob ot (cb + n) (ct + 1) b'" for b'
      using release_transfer [OF release_bytes [OF that ok1(2)]] .
    obtain b2 room where sl: "sender_slot env key b1 = (b2, room)" by (rule prod.exhaust)
    note S = sender_slot_ok [OF ok1(1) sl]
    show ?thesis
    proof (cases refused)
      case (Some err)
      then show ?thesis using sn Ret p given_back [OF ok1(1)]
        by (simp add: cacheQBlock2Notification_def m1_def [symmetric] refused_def [symmetric])
    next
      case None
      have closed: "\<not> e_q2Closed b1" "validateQNotificationLocked generation b1 = None"
        using None by (auto simp: refused_def qClosedError_def split: if_splits)
      define b3 where "b3 = b2\<lparr>e_q2SendBytes := e_q2SendBytes b2 + n,
          e_q2Heap := e_q2Heap b2 @ [new_q2_transfer env now identity mode generation m1 (PM_SetType mode stored) n b2],
          e_q2Senders := AList.update key (length (e_q2Heap b2)) (e_q2Senders b2)\<rparr>"
      have "q_ok ob ot cb ct b3" if room
        unfolding b3_def using insert_q2 [OF S(1) S(2) [OF that] _ ok1(2)] S(3) closed(1)
        by (simp add: new_q2_transfer_def split: prod.split)
      moreover have "validateQNotificationLocked generation b3 = None"
        using closed(2) S(4,5) by (cases generation) (simp_all add: validateQNotificationLocked_def b3_def split: if_splits)
      ultimately have "q_ok ob ot cb ct (finishQNotificationLocked now generation present b3)" if room for present using finish_ok that by blast
      then show ?thesis using sn Ret p None sl given_back [OF S(1)]
        by (simp add: cacheQBlock2Notification_def m1_def [symmetric] refused_def [symmetric] b3_def [symmetric] Let_def)
    qed
  qed
qed

lemma cacheQBlock2Response_ok:
  assumes "q_ok ob ot cb ct b"
  shows "keeps (\<lambda>s. q_ok ob ot cb ct (fst s)) (cacheQBlock2Response env now key identity mode (b, m))"
  unfolding cacheQBlock2Response_def by (rule keeps_thn [OF cacheQBlock2Notification_ok [OF assms]]) simp

lemma buildQBlock2ResponseFrom_ok:
  assumes "q_ok ob ot cb ct b"
  shows "q_ok ob ot cb ct (fst (buildQBlock2ResponseFrom env now key token szx num expected b))"
  using assms
  by (simp add: buildQBlock2ResponseFrom_def Let_def drop_q2_ok split: option.split sum.split prod.split)

lemma buildQBlock2Response_ok:
  "q_ok ob ot cb ct b \<Longrightarrow> q_ok ob ot cb ct (fst (buildQBlock2Response env now key token szx num b))"
  by (simp add: buildQBlock2Response_def buildQBlock2ResponseFrom_ok)

lemma invalidate_ok: "q_ok ob ot cb ct b \<Longrightarrow> q_ok ob ot cb ct (invalidateTerminalQ2Observation env r remote b)"
  by (simp add: invalidateTerminalQ2Observation_def Let_def drop_q2_ok split: option.split)

lemma prepareQ2ObservationRequest_ok: "q_ok ob ot cb ct b \<Longrightarrow> q_ok ob ot cb ct (prepareQ2ObservationRequest env now r remote num b)"
  by (simp add: prepareQ2ObservationRequest_def Let_def CancelQBlockObservation_ok invalidate_ok split: prod.split option.split)

subsection \<open>Jobs\<close>

lemma scheduleQ2Set_ok: "q_ok ob ot cb ct (fst (scheduleQ2Set tr job d b)) = q_ok ob ot cb ct b"
  by (simp add: scheduleQ2Set_def split: option.split)

lemma job_reschedule_ok: "q_ok ob ot cb ct (fst (job_reschedule tr s nums d b)) = q_ok ob ot cb ct b"
  by (simp add: job_reschedule_def scheduleQ2Set_ok)

lemma pauseNormalUntil_ok: "q_ok ob ot cb ct (pauseNormalUntil tr s d b) = q_ok ob ot cb ct b"
  by (simp add: pauseNormalUntil_def Let_def q_ok_put2 split: option.split)

lemma job_response_ok:
  assumes "q_ok ob ot cb ct b"
  shows "keeps (q_ok ob ot cb ct) (job_response env now s num b)"
  unfolding job_response_def
  by (rule keeps_thn) (auto intro: keepsI buildQBlock2ResponseFrom_ok [OF assms] simp: Let_def q_ok_put2 split: option.split)

lemma send_message_ok: "q_ok ob ot cb ct b \<Longrightarrow> keeps (q_ok ob ot cb ct) (send_message tr m b)"
  by (rule keepsI) simp

lemma job_send_ok: "q_ok ob ot cb ct b \<Longrightarrow> keeps (q_ok ob ot cb ct) (job_send env tr now s num b)"
  unfolding job_send_def by (rule keeps_thn [OF job_response_ok]) (auto intro: send_message_ok)

lemma job_following_ok: "q_ok ob ot cb ct b \<Longrightarrow> q_ok ob ot cb ct (fst (job_following tr now s end1 b))"
  by (simp add: job_following_def Let_def job_reschedule_ok pauseNormalUntil_ok)

lemma job_following_keeps: "q_ok ob ot cb ct b \<Longrightarrow> keeps (q_ok ob ot cb ct) (job_following tr now s end1 b)"
  by (rule keepsI) (rule job_following_ok)

lemma run_loop_ok: "q_ok ob ot cb ct b \<Longrightarrow> keeps (q_ok ob ot cb ct) (run_loop env tr now s sending rest b)"
proof (induction sending arbitrary: b)
  case (Cons num sending)
  obtain b1 res where js: "job_send env tr now s num b = (b1, res)" by (rule prod.exhaust)
  have j: "keeps (q_ok ob ot cb ct) (b1, res)" using job_send_ok [OF Cons.prems, of env tr now s num] js by simp
  have r: "keeps (q_ok ob ot cb ct) (thn (job_reschedule tr s nums d b) (\<lambda>_ b1. (b1, Ret False)))" for nums d
    by (rule keeps_thn) (auto intro: keepsI simp: job_reschedule_ok Cons.prems)
  show ?case using Cons.prems r js j Cons.IH [of b1] by (cases res) simp_all
qed simp

lemma sendAsync_ok:
  assumes "q_ok ob ot cb ct b"
  shows "keeps (q_ok ob ot cb ct) (sendAsync env async now s b)"
proof -
  obtain b1 res where js: "job_response env now s (hd (job_nums s)) b = (b1, res)" by (rule prod.exhaust)
  have j: "keeps (q_ok ob ot cb ct) (b1, res)" using job_response_ok [OF assms, of env now s "hd (job_nums s)"] js by simp
  show ?thesis using js j by (cases res) (auto simp: sendAsync_def keeps_def split: prod.split)
qed

lemma sendAsync_done_ok: "q_ok ob ot cb ct b \<Longrightarrow> sendAsync_done tr now ctxDone s err b = Some b' \<Longrightarrow> q_ok ob ot cb ct b'"
  using job_following_ok [of ob ot cb ct b tr now s 1]
  by (auto simp: sendAsync_done_def split: if_splits option.splits prod.splits outcome.splits)

lemma job_run_ok:
  assumes "q_ok ob ot cb ct b"
  shows "keeps (q_ok ob ot cb ct) (job_run env tr now s b)"
proof -
  define tail where "tail end1 finished b1 =
      (if \<not> finished then (b1, Ret ())
       else
         (let b2 = (if job_recovery s \<and> job_mode s = NonConfirmable
                    then pauseNormalUntil tr s (now + q2SetDelay (job_key s) b1) b1 else b1)
          in if \<not> job_current s b2 then (b2, Ret ()) else job_following tr now s end1 b2))"
    for end1 finished and b1 :: "('a, 'b) Engine"
  have tail: "keeps (q_ok ob ot cb ct) (tail end1 finished b1)" if "q_ok ob ot cb ct b1" for end1 finished b1
    using that by (simp add: tail_def Let_def pauseNormalUntil_ok job_following_keeps)
  have "keeps (q_ok ob ot cb ct) (thn (run_loop env tr now s xs ys b) (tail end1))" for xs ys end1
    by (rule keeps_thn [OF run_loop_ok [OF assms]]) (rule tail)
  then show ?thesis using assms sendAsync_ok [OF assms]
    by (auto simp: job_run_def Let_def tail_def [symmetric] split: option.split)
qed

subsection \<open>Requests for blocks of a response\<close>

text \<open>A handler that keeps the accounts, as the application and the rejection do.\<close>

definition handler_ok :: "('cm, 't) next_handler \<Rightarrow> bool" where
  "handler_ok nxt \<longleftrightarrow> (\<forall>r b w b' w' ob ot cb ct. nxt r (b, w) = Some (b', w') \<longrightarrow> q_ok ob ot cb ct b \<longrightarrow> q_ok ob ot cb ct b')"

lemma handler_okD: "handler_ok nxt \<Longrightarrow> nxt r (b, w) = Some (b', w') \<Longrightarrow> q_ok ob ot cb ct b \<Longrightarrow> q_ok ob ot cb ct b'"
  unfolding handler_ok_def by blast

lemma handler_application: "handler_ok (application app)"
  by (auto simp: handler_ok_def application_def)

lemma handler_reject: "handler_ok reject_continuation"
  by (auto simp: handler_ok_def reject_continuation_def split: option.splits prod.splits)

abbreviation fst_ok where "fst_ok ob ot cb ct \<equiv> (\<lambda>s. q_ok ob ot cb ct (fst s))"

lemma loadQ2Response_ok:
  assumes "handler_ok nxt" "q_ok ob ot cb ct (fst s)"
  shows "keeps (fst_ok ob ot cb ct) (loadQ2Response env now nxt r remote key szx num s)"
proof -
  obtain b1 res where bu: "buildQBlock2Response env now key (token_of r) szx num (fst s) = (b1, res)" by (rule prod.exhaust)
  have ok1: "q_ok ob ot cb ct b1" using buildQBlock2Response_ok [OF assms(2), of env now key "token_of r" szx num] bu by simp
  show ?thesis
  proof (cases "\<exists>b2 w1. res = Err ErrQBlock2ResponseNotFound \<and> num = 0 \<and> nxt r (b1, snd s) = Some (b2, w1) \<and> \<not> code_of (response w1) < codes_Created")
    case False
    have "q_ok ob ot cb ct b2" if "nxt r (b1, snd s) = Some (b2, w1)" for b2 w1
      using handler_okD [OF assms(1) that ok1] .
    then show ?thesis using bu ok1 False by (auto simp: loadQ2Response_def split: outcome.split option.split)
  next
    case True
    then obtain b2 w1 where t: "res = Err ErrQBlock2ResponseNotFound" "num = 0" "nxt r (b1, snd s) = Some (b2, w1)"
        "\<not> code_of (response w1) < codes_Created" by blast
    have ok2: "q_ok ob ot cb ct b2" using handler_okD [OF assms(1) t(3) ok1] .
    define m where "m = (if body (response w1) = None then PM_SetBody (Some (NewReader [])) (response w1) else response w1)"
    obtain b3 m1 cres where ca: "cacheQBlock2Response env now key (qTransferKey r remote [] True) (Type (msg r)) (b2, m) = ((b3, m1), cres)"
      by (metis surj_pair)
    have ok3: "keeps (fst_ok ob ot cb ct) ((b3, m1), cres)" using cacheQBlock2Response_ok [OF ok2] ca by metis
    obtain observe observeErr where obs: "Options_Observe (opts_of r) = (observe, observeErr)" by (rule prod.exhaust)
    obtain b4 rres where re: "(if observeErr = None \<and> observe = 0 \<and> hasOption m1 Observe then registerQObservation env r remote szx b3 else (b3, Ret ())) = (b4, rres)"
      by (rule prod.exhaust)
    have ok4: "q_ok ob ot cb ct b3 \<Longrightarrow> keeps (q_ok ob ot cb ct) (b4, rres)"
      using registerQObservation_ok [of ob ot cb ct b3 env r remote szx] re by (metis keeps_simps(2))
    obtain b5 fres where fi: "buildQBlock2Response env now key (token_of r) szx num b4 = (b5, fres)" by (rule prod.exhaust)
    have ok5: "q_ok ob ot cb ct b4 \<Longrightarrow> q_ok ob ot cb ct b5" using buildQBlock2Response_ok [of ob ot cb ct b4 env now key "token_of r" szx num] fi by simp
    have e: "loadQ2Response env now nxt r remote key szx num s =
        (case cres of
           Panic \<Rightarrow> ((b3, w1\<lparr>response := m1\<rparr>), Panic)
         | Err e \<Rightarrow> ((b3, w1\<lparr>response := m1\<rparr>), Err e)
         | Ret _ \<Rightarrow>
             (case rres of
                Panic \<Rightarrow> ((b4, w1\<lparr>response := m1\<rparr>), Panic)
              | Err e \<Rightarrow> ((b4, w1\<lparr>response := m1\<rparr>), Err e)
              | Ret _ \<Rightarrow> ((b5, w1\<lparr>response := m1\<rparr>), fres)))"
      using bu t fi by (simp add: loadQ2Response_def m_def [symmetric] ca Let_def obs re split: outcome.split)
    show ?thesis unfolding e using ok3 ok4 ok5 by (auto simp: keeps_def split: outcome.split)
  qed
qed

lemma scheduleQ2Set_keeps: "q_ok ob ot cb ct b \<Longrightarrow> keeps (q_ok ob ot cb ct) (scheduleQ2Set tr job d b)"
  by (rule keepsI) (simp add: scheduleQ2Set_ok)

lemma prepareQ2NonSend_ok:
  assumes "q_ok ob ot cb ct b"
  shows "keeps (q_ok ob ot cb ct) (prepareQ2NonSend env now r key szx nums count wholeBody b)"
  unfolding prepareQ2NonSend_def Let_def
  by (auto simp: q_ok_put2 assms intro!: keeps_thn [OF scheduleQ2Set_keeps] split: option.split)

lemma scheduleQ2Continuation_ok: "q_ok ob ot cb ct b \<Longrightarrow> keeps (q_ok ob ot cb ct) (scheduleQ2Continuation env now r key szx nums count wholeBody b)"
  by (simp add: scheduleQ2Continuation_def Let_def scheduleQ2Set_keeps split: option.split)

lemma continueQ2Response_ok: "q_ok ob ot cb ct b \<Longrightarrow> keeps (q_ok ob ot cb ct) (continueQ2Response env now r key szx nums count wholeBody b)"
  by (simp add: continueQ2Response_def scheduleQ2Continuation_ok)

lemma after_write_ok: "q_ok ob ot cb ct b \<Longrightarrow> after_write tr now jobs b = Some b' \<Longrightarrow> q_ok ob ot cb ct b'"
proof (induction tr now jobs b rule: after_write.induct)
  case (2 tr now job delay rest b)
  obtain b1 res where s: "scheduleQ2Set tr job (now + delay) b = (b1, res)" by (rule prod.exhaust)
  have "q_ok ob ot cb ct b1" using scheduleQ2Set_ok [of ob ot cb ct tr job "now + delay" b] s 2(3) by simp
  then show ?case using 2 s by (cases res) auto
qed simp

lemma q2_answer_ok:
  assumes "q_ok ob ot cb ct (fst s)"
  shows "keeps (fst_ok ob ot cb ct) (q2_answer env now r key szx num resp s)"
proof -
  define count where "count = max 1 ((uint (fst (getUint32 resp Size2)) + SZX_Size szx - 1) div SZX_Size szx)"
  show ?thesis
  proof (cases "\<exists>nums wholeBody. \<not> code_of resp < codes_Created \<and> q2RequestedBlocks r szx count (fst s) = Inr (nums, wholeBody) \<and> validQ2First nums num")
    case False
    then show ?thesis using assms
      by (cases "q2RequestedBlocks r szx count (fst s)") (auto simp: q2_answer_def Let_def count_def [symmetric])
  next
    case True
    then obtain nums wholeBody where n: "\<not> code_of resp < codes_Created" "q2RequestedBlocks r szx count (fst s) = Inr (nums, wholeBody)"
        "validQ2First nums num" by blast
    obtain b1 prepared where p: "(if Type (msg r) = NonConfirmable then prepareQ2NonSend env now r key szx nums count wholeBody (fst s)
        else (fst s, Ret False)) = (b1, prepared)" by (rule prod.exhaust)
    have k: "keeps (q_ok ob ot cb ct) (b1, prepared)" unfolding p [symmetric] using prepareQ2NonSend_ok [OF assms] assms by simp
    obtain b2 res where c: "continueQ2Response env now r key szx nums count wholeBody b1 = (b2, res)" by (rule prod.exhaust)
    have k2: "keeps (q_ok ob ot cb ct) (b2, res)" if "q_ok ob ot cb ct b1" unfolding c [symmetric] by (rule continueQ2Response_ok [OF that])
    have e: "q2_answer env now r key szx num resp s =
        (case prepared of Panic \<Rightarrow> ((b1, snd s), Panic) | Err err \<Rightarrow> ((b1, snd s), Err err) | Ret True \<Rightarrow> ((b1, snd s), Ret ())
         | Ret False \<Rightarrow> ((b2, fst (rw_SetMessage (if \<not> wholeBody then PM_Remove Observe resp else resp) (snd s))), res))"
      unfolding q2_answer_def Let_def count_def [symmetric] if_not_P [OF n(1)] n(2) sum.case prod.case p c using n(3) by simp
    show ?thesis unfolding e using k k2 by (cases prepared) (auto simp: keeps_def split: bool.split)
  qed
qed

lemma handleQBlock2_ok:
  assumes "handler_ok nxt"
  shows "q_ok ob ot cb ct (fst s) \<Longrightarrow> keeps (fst_ok ob ot cb ct) (handleQBlock2 fuel env now nxt r maxSZX remote s)"
proof (induction fuel arbitrary: r)
  case (Suc fuel)
  have l: "keeps (fst_ok ob ot cb ct) (thn (loadQ2Response env now nxt r remote key szx num (b1, snd s)) (q2_answer env now r key szx num))"
    if "q_ok ob ot cb ct b1" for key szx num b1
    by (rule keeps_thn [OF loadQ2Response_ok [OF assms]]) (simp_all add: that q2_answer_ok)
  show ?case
  proof (cases "parseQBlock2 r (fst s)")
    case (Inl err)
    then show ?thesis using Suc.prems by simp
  next
    case (Inr p)
    obtain szx num mor where p: "p = (szx, num, mor)" by (rule prod_cases3)
    let ?b1 = "prepareQ2ObservationRequest env now r remote num (fst s)"
    have b1: "q_ok ob ot cb ct ?b1" by (rule prepareQ2ObservationRequest_ok [OF Suc.prems])
    show ?thesis
    proof (cases "szx > maxSZX")
      case True
      then show ?thesis using Inr p Suc.prems Suc.IH [OF Suc.prems] by (simp add: Let_def split: option.split)
    next
      case False
      then show ?thesis using Inr p l [OF b1] b1 by (simp add: Let_def split: sum.split)
    qed
  qed
qed simp

lemma dispatchQBlock2_ok:
  assumes "handler_ok nxt" "q_ok ob ot cb ct (fst s)" "dispatchQBlock2 env now nxt r maxSZX remote s = Some s'"
  shows "q_ok ob ot cb ct (fst s')"
proof -
  obtain b1 w1 res where h: "handleQBlock2 2 env now nxt r (min maxSZX qBlockMaxSZX) remote s = ((b1, w1), res)" by (metis surj_pair)
  have "keeps (fst_ok ob ot cb ct) ((b1, w1), res)" using handleQBlock2_ok [OF assms(1,2), of 2 env now r "min maxSZX qBlockMaxSZX" remote] h by simp
  then show ?thesis using assms(3) h
    by (cases res) (auto simp: dispatchQBlock2_def Let_def split: option.splits)
qed

lemma WriteNotification_ok:
  assumes "q_ok ob ot cb ct b" "WriteNotification env now remote (b, m) = (s', handled, res)" "res \<noteq> Panic"
  shows "q_ok ob ot cb ct (fst s')"
proof -
  have c: "keeps (fst_ok ob ot cb ct) (cacheQBlock2Notification env now key identity mode generation (b, m))" for key identity mode generation
    using cacheQBlock2Notification_ok [OF assms(1)] .
  have bu: "q_ok ob ot cb ct b1 \<Longrightarrow> q_ok ob ot cb ct (fst (buildQBlock2ResponseFrom env now key token szx num expected b1))"
    for key token szx num expected b1 using buildQBlock2ResponseFrom_ok .
  have se: "q_ok ob ot cb ct b1 \<Longrightarrow> q_ok ob ot cb ct (fst (send_message tr x b1))" for tr x b1 by simp
  have sc: "q_ok ob ot cb ct b1 \<Longrightarrow> q_ok ob ot cb ct (fst (scheduleQ2Set tr job d b1))" for tr job d b1 by (simp add: scheduleQ2Set_ok)
  show ?thesis
  proof (cases "\<exists>req0 g tr. registeredQNotification env now m remote b = Some (Ret (req0, g)) \<and> qe_transport env = Some tr")
    case False
    then show ?thesis using assms by (auto simp: WriteNotification_def split: option.splits outcome.splits)
  next
    case True
    then obtain req0 g tr where t: "registeredQNotification env now m remote b = Some (Ret (req0, g))" "qe_transport env = Some tr" by blast
    define key where "key = ob_key (e_obsHeap b ! g)"
    define szx where "szx = ob_szx (e_obsHeap b ! g)"
    define mode where "mode = (if Type (msg m) \<noteq> NonConfirmable then Confirmable else NonConfirmable :: int)"
    obtain b1 m1 r1 where ca: "cacheQBlock2Notification env now key (qTransferKey (PM_SetType mode req0) remote [] True) mode (Some g) (b, m) = ((b1, m1), r1)"
      by (metis surj_pair)
    have k1: "keeps (fst_ok ob ot cb ct) ((b1, m1), r1)" using c ca by metis
    show ?thesis
    proof (cases r1)
      case (Ret i)
      then have ok1: "q_ok ob ot cb ct b1" using k1 by simp
      define count where "count = max 1 ((t2_size (e_q2Heap b1 ! i) + SZX_Size szx - 1) div SZX_Size szx)"
      obtain b2 r2 where bb: "buildQBlock2ResponseFrom env now key (token_of m1) szx 0 (Some i) b1 = (b2, r2)" by (rule prod.exhaust)
      have ok2: "q_ok ob ot cb ct b2" using bu [OF ok1] bb by (metis fst_conv)
      show ?thesis
      proof (cases r2)
        case (Ret first)
        obtain b3 r3 where ss: "send_message tr (PM_SetType mode first) b2 = (b3, r3)" by (rule prod.exhaust)
        have ok3: "q_ok ob ot cb ct b3" using se [OF ok2] ss by (metis fst_conv)
        obtain nums deadline where fn: "firstNotificationSet now key mode count b3 = (nums, deadline)" by (rule prod.exhaust)
        define job where "job = \<lparr>job_key = key, job_token = token_of m1, job_szx = szx, job_mode = mode, job_nums = nums, job_count = count,
             job_wholeBody = True, job_recovery = False, job_generation = Some i\<rparr>"
        obtain b4 r4 where sq: "scheduleQ2Set tr job deadline b3 = (b4, r4)" by (rule prod.exhaust)
        have ok4: "q_ok ob ot cb ct b4" using sc [OF ok3] sq by (metis fst_conv)
        show ?thesis using assms(2,3) t ca \<open>r1 = Ret i\<close> bb Ret ss fn sq ok3 ok4
          by (cases r3) (auto simp: WriteNotification_def key_def [symmetric] szx_def [symmetric] mode_def [symmetric] Let_def
              count_def [symmetric] job_def [symmetric] split: if_splits)
      qed (use assms(2,3) t ca \<open>r1 = Ret i\<close> bb ok2 in \<open>auto simp: WriteNotification_def key_def [symmetric] szx_def [symmetric] mode_def [symmetric] Let_def\<close>)
    qed (use assms(2,3) t ca k1 in \<open>auto simp: WriteNotification_def key_def [symmetric] szx_def [symmetric] mode_def [symmetric] Let_def\<close>)
  qed
qed

subsection \<open>Blocks of a request\<close>

lemma set_q1_bytes:
  assumes "q_ok ob ot cb ct b" "map_of (e_q1Receivers b) key = Some i" "0 \<le> t1_bytes t"
  shows "q_ok ob ot (cb + t1_bytes (e_q1Heap b ! i) - t1_bytes t) ct
      (put1 i t (b\<lparr>e_q1ReceiveBytes := e_q1ReceiveBytes b + t1_bytes t - t1_bytes (e_q1Heap b ! i)\<rparr>))"
proof -
  have t: "q1_table b" "q2_table b" "obs_table b" "accounts ob ot cb ct b" using assms(1) by (simp_all add: q_ok_def)
  have i: "i < length (e_q1Heap b)" "i \<in> set (map snd (e_q1Receivers b))" using t(1) map_of_snd [OF assms(2)] by (auto simp: q1_table_def)
  have d: "distinct (map snd (e_q1Receivers b))" using t(1) by (simp add: q1_table_def)
  have "q1_table (put1 i t (b\<lparr>e_q1ReceiveBytes := e_q1ReceiveBytes b + t1_bytes t - t1_bytes (e_q1Heap b ! i)\<rparr>))"
    using t(1) sum_list_put [OF i(1) d, of t1_bytes t] i assms(3)
    by (auto simp: q1_table_def q1_sum_def put1_def nth_list_update)
  then show ?thesis using t by (simp add: q_ok_def put1_def q2_table_def q2_sum_def obs_table_def accounts_def)
qed

lemma q1TransferLocked_ok:
  assumes "q_ok ob ot cb ct b"
  shows "keeps (q_ok ob ot cb ct) (q1TransferLocked now r key p b)"
    "q1TransferLocked now r key p b = (b', Ret i) \<Longrightarrow> map_of (e_q1Receivers b') key = Some i \<and> i < length (e_q1Heap b')"
proof -
  define first where "first = (case map_of (e_q1Receivers b) key of
      Some i \<Rightarrow> if \<not> t1_expires (e_q1Heap b ! i) > now then (drop_q1 key i b, None) else (b, Some i)
    | None \<Rightarrow> (b, None))"
  obtain b1 transfer where f: "first = (b1, transfer)" by (rule prod.exhaust)
  have ok1: "q_ok ob ot cb ct b1" using f assms by (auto simp: first_def drop_q1_ok split: option.splits if_splits)
  have new: "map_of (e_q1Receivers b1) key = None" if "transfer = None"
    using f that by (auto simp: first_def AList.delete_conv' split: option.splits if_splits)
  have old: "map_of (e_q1Receivers b1) key = Some i \<and> i < length (e_q1Heap b1)" if "transfer = Some i" for i
    using f that remove_q1(3) [OF assms, of key i] by (auto simp: first_def split: option.splits if_splits)
  have closed: "e_q1Closed b1 = e_q1Closed b" using f by (auto simp: first_def split: option.splits if_splits)
  obtain b2 ok where r: "qReserveTransfer b1 = (b2, ok)" by (rule prod.exhaust)
  have f2: "e_q1Receivers b2 = e_q1Receivers b1" "e_q1Heap b2 = e_q1Heap b1" "e_q1Closed b2 = e_q1Closed b1"
    using r by (auto simp: qReserveTransfer_eq split: if_splits)
  have ok2: "q_ok ob ot cb (ct + 1) b2" if ok using reserve_transfer(1) [OF ok1, of b2] r that by simp
  have ok2': "b2 = b1" if "\<not> ok" using reserve_transfer(2) [OF ok1, of b2] r that by simp
  have ins: "q_ok ob ot cb ct (b2\<lparr>e_q1Heap := e_q1Heap b2 @ [t], e_q1Receivers := AList.update key (length (e_q1Heap b2)) (e_q1Receivers b2)\<rparr>)"
    if "ok" "transfer = None" "t1_bytes t = 0" "\<not> e_q1Closed b" for t
    using insert_q1 [OF ok2 [OF that(1)], of key t] new [OF that(2)] f2 closed that(3,4) by simp
  show "keeps (q_ok ob ot cb ct) (q1TransferLocked now r key p b)"
    unfolding q1TransferLocked_def first_def [symmetric] f
    using assms ok1 ok2' ins r by (cases transfer) (auto simp: Let_def split: sum.split)
  show "map_of (e_q1Receivers b') key = Some i \<and> i < length (e_q1Heap b')" if "q1TransferLocked now r key p b = (b', Ret i)"
    using that old unfolding q1TransferLocked_def first_def [symmetric] f
    by (cases transfer) (auto simp: Let_def r update_conv' split: sum.splits if_splits)
qed

lemma replayQ1Completed_fst: "fst (fst (replayQ1Completed env r i (b, w))) = b"
  by (auto simp: replayQ1Completed_def split: option.split)

lemma replay_keeps: "q_ok ob ot cb ct b \<Longrightarrow> keeps (fst_ok ob ot cb ct) (replayQ1Completed env r i (b, w))"
  by (rule keepsI) (simp add: replayQ1Completed_fst)

lemma replay_thn_keeps: "q_ok ob ot cb ct b \<Longrightarrow> keeps (fst_ok ob ot cb ct) (thn (replayQ1Completed env r i (b, w)) (\<lambda>_ s. (s, Ret None)))"
  by (rule keeps_thn [OF replay_keeps]) simp_all

lemma q1_begin_ok:
  assumes "q_ok ob ot cb ct (fst s)"
  shows "keeps (fst_ok ob ot cb ct) (q1_begin env now r key p s)"
proof -
  obtain b w where s: "s = (b, w)" by (rule prod.exhaust)
  obtain b1 res where t: "q1TransferLocked now r key p b = (b1, res)" by (rule prod.exhaust)
  have k: "keeps (q_ok ob ot cb ct) (b1, res)" using q1TransferLocked_ok(1) [of ob ot cb ct b now r key p] assms s t by simp
  show ?thesis using k replay_thn_keeps by (cases res) (auto simp: s q1_begin_def t q_ok_put1)
qed

lemma addQ1PayloadLocked_ok:
  assumes "q_ok ob ot cb ct b" "map_of (e_q1Receivers b) key = Some i"
  shows "q_ok ob ot cb ct (fst (addQ1PayloadLocked now key i asm p payload b))"
proof -
  let ?n = "int (length payload)"
  obtain b1 ok where r: "qReserveBytes ?n b = (b1, ok)" by (rule prod.exhaust)
  have f: "e_q1Receivers b1 = e_q1Receivers b" "e_q1Heap b1 = e_q1Heap b" using r by (auto simp: qReserveBytes_eq split: if_splits)
  show ?thesis
  proof (cases ok)
    case False
    then show ?thesis using reserve_bytes(2) [OF assms(1), of ?n b1] r assms(1) by (simp add: addQ1PayloadLocked_def)
  next
    case True
    then have ok1: "q_ok ob ot (cb + ?n) ct b1" using reserve_bytes(1) [OF assms(1), of ?n b1] r by simp
    have key: "map_of (e_q1Receivers b1) key = Some i" using assms(2) f by simp
    have rel: "q_ok ob ot cb ct (qReleaseBytes ?n b1)" by (rule release_bytes [OF ok1]) simp
    have bytes: "0 \<le> t1_bytes (e_q1Heap b1 ! i)" using remove_q1(2) [OF ok1 key] .
    have upd: "q_ok ob ot cb ct (put1 i t (b1\<lparr>e_q1ReceiveBytes := e_q1ReceiveBytes b1 + ?n\<rparr>))"
      if "t1_bytes t = t1_bytes (e_q1Heap b1 ! i) + ?n" for t
    proof -
      have nn: "0 \<le> t1_bytes t" unfolding that using bytes by simp
      have e1: "cb + ?n + t1_bytes (e_q1Heap b1 ! i) - t1_bytes t = cb"
        and e2: "e_q1ReceiveBytes b1 + t1_bytes t - t1_bytes (e_q1Heap b1 ! i) = e_q1ReceiveBytes b1 + ?n" unfolding that by simp_all
      show ?thesis using set_q1_bytes [OF ok1 key nn] unfolding e1 e2 .
    qed
    have drp: "q_ok ob ot cb ct (drop_q1 key i (qReleaseBytes ?n b1))" using drop_q1_ok [OF rel] key by simp
    show ?thesis using r True rel upd drp
      by (auto simp: addQ1PayloadLocked_def Let_def split: sum.split prod.split)
  qed
qed

lemma q1_accept_ok:
  assumes "q_ok ob ot cb ct (fst s)"
  shows "keeps (fst_ok ob ot cb ct) (q1_accept env now r key p payload i s)"
proof -
  obtain b w where s: "s = (b, w)" by (rule prod.exhaust)
  have ok: "q_ok ob ot cb ct b" using assms s by simp
  have "keeps (fst_ok ob ot cb ct) (let (b1, res) = addQ1PayloadLocked now key i asm p payload b in ((b1, w), and_then res (\<lambda>x. Ret (Some x))))"
    if "map_of (e_q1Receivers b) key = Some i" for asm
    using addQ1PayloadLocked_ok [OF ok that, of now asm p payload] by (auto simp: keeps_def split: prod.split)
  then show ?thesis using ok replay_thn_keeps [OF ok] by (auto simp: s q1_accept_def split: option.split)
qed

lemma scheduleQ1Missing_ok: "q_ok ob ot cb ct (fst (scheduleQ1Missing env key b)) = q_ok ob ot cb ct b"
  by (simp add: scheduleQ1Missing_def split: option.split)

lemma q1_missing_job_ok:
  assumes "q_ok ob ot cb ct b"
  shows "keeps (q_ok ob ot cb ct) (q1_missing_job env tr now key b)"
proof -
  have "keeps (q_ok ob ot cb ct) (thn (send_message tr m b1) (\<lambda>_ b2. scheduleQ1Missing env key b2))" if "q_ok ob ot cb ct b1" for m b1
    by (rule keeps_thn [OF send_message_ok [OF that]]) (auto intro: keepsI simp: scheduleQ1Missing_ok)
  then show ?thesis using assms
    by (auto simp: q1_missing_job_def Let_def drop_q1_ok q_ok_put1 split: option.split sum.split intro: keepsI simp: scheduleQ1Missing_ok)
qed

lemma on_writer_keeps: "P b \<Longrightarrow> keeps (\<lambda>s. P (fst s)) (on_writer f (b, w))"
  by (simp add: on_writer_def keeps_def split: prod.split)

lemma respondQ1Missing_ok: "q_ok ob ot cb ct b \<Longrightarrow> keeps (fst_ok ob ot cb ct) (respondQ1Missing now i asm fm v (b, w))"
  by (auto simp: respondQ1Missing_def Let_def q_ok_put1 split: sum.split intro!: on_writer_keeps)

lemma respondQ1Incomplete_ok:
  assumes "q_ok ob ot cb ct (fst s)"
  shows "keeps (fst_ok ob ot cb ct) (respondQ1Incomplete env now r key i p duplicate s)"
proof -
  obtain b w where s: "s = (b, w)" by (rule prod.exhaust)
  obtain b1 res where sc: "scheduleQ1Missing env key b = (b1, res)" by (rule prod.exhaust)
  have ok: "q_ok ob ot cb ct b" "q_ok ob ot cb ct b1" using assms s scheduleQ1Missing_ok [of ob ot cb ct env key b] sc by simp_all
  show ?thesis
    using ok unfolding respondQ1Incomplete_def s prod.case sc
    by (auto simp: Let_def q_ok_put1 split: option.split prod.split outcome.split intro!: on_writer_keeps respondQ1Missing_ok)
qed

lemma q1_claim_ok: "q_ok ob ot cb ct b \<Longrightarrow> q_ok ob ot cb ct (fst (q1_claim env r key i b))"
  by (simp add: q1_claim_def Let_def q_ok_put1)

lemma put1_release: "put1 i t (qReleaseBytes n b) = qReleaseBytes n (put1 i t b)"
  by (cases b) (simp add: put1_def qReleaseBytes_def)

lemma q1_finished_ok:
  assumes "q_ok ob ot cb ct b" "map_of (e_q1Receivers b) key = Some i"
  shows "q_ok ob ot cb ct (put1 i (q1_finished stored (e_q1Heap b ! i)) (qReleaseBytes (t1_bytes (e_q1Heap b ! i))
      (b\<lparr>e_q1ReceiveBytes := e_q1ReceiveBytes b - t1_bytes (e_q1Heap b ! i)\<rparr>)))"
proof -
  let ?n = "t1_bytes (e_q1Heap b ! i)"
  have "q_ok ob ot (cb + ?n) ct (put1 i (q1_finished stored (e_q1Heap b ! i)) (b\<lparr>e_q1ReceiveBytes := e_q1ReceiveBytes b - ?n\<rparr>))"
    using set_q1_bytes [OF assms, of "q1_finished stored (e_q1Heap b ! i)"] by (simp add: q1_finished_def)
  then have "q_ok ob ot cb ct (qReleaseBytes ?n (put1 i (q1_finished stored (e_q1Heap b ! i)) (b\<lparr>e_q1ReceiveBytes := e_q1ReceiveBytes b - ?n\<rparr>)))"
    by (rule release_bytes) (rule remove_q1(2) [OF assms])
  then show ?thesis by (simp add: put1_release)
qed

lemma q1_large_response_ok:
  assumes "handler_ok nxt" "q_ok ob ot cb ct (fst s)"
  shows "keeps (fst_ok ob ot cb ct) (q1_large_response env now nxt r szx maxSZX remote s)"
proof -
  obtain b w where s: "s = (b, w)" by (rule prod.exhaust)
  obtain b1 m1 res where c: "cacheQBlock2Response env now (q2TransferKey r remote) (qTransferKey r remote [] True) (Type (msg r)) (b, response w) = ((b1, m1), res)"
    by (metis prod.exhaust)
  have "keeps (fst_ok ob ot cb ct) ((b1, m1), res)"
    using cacheQBlock2Response_ok [of ob ot cb ct b env now "q2TransferKey r remote" "qTransferKey r remote [] True" "Type (msg r)" "response w"] assms(2) s c by simp
  then show ?thesis unfolding s q1_large_response_def prod.case c
    by (cases res) (auto simp: Let_def split: option.split intro!: handleQBlock2_ok [OF assms(1)])
qed

lemma q1_deliver_ok:
  assumes "handler_ok nxt" "q_ok ob ot cb ct (fst s)"
  shows "keeps (fst_ok ob ot cb ct) (q1_deliver env now nxt r asm szx maxSZX remote s)"
proof -
  obtain b w where s: "s = (b, w)" by (rule prod.exhaust)
  have "q_ok ob ot cb ct (fst s1)" if "nxt m s = Some s1" for m s1
    using handler_okD [OF assms(1), of m b w "fst s1" "snd s1"] assms(2) that s by simp
  then show ?thesis using assms(2)
    by (auto simp: q1_deliver_def split: option.split sum.split intro!: q1_large_response_ok [OF assms(1)])
qed

lemma q1_store_ok: "q_ok ob ot cb ct (fst s) \<Longrightarrow> keeps (fst_ok ob ot cb ct) (q1_store env key i s)"
  by (auto simp: q1_store_def Let_def q1_finished_ok split: option.split prod.split)

lemma completeQ1_ok:
  assumes "handler_ok nxt" "q_ok ob ot cb ct (fst s)"
  shows "keeps (fst_ok ob ot cb ct) (completeQ1 env now nxt r key i maxSZX remote s)"
proof -
  obtain b w where s: "s = (b, w)" by (rule prod.exhaust)
  obtain b1 res where c: "q1_claim env r key i b = (b1, res)" by (rule prod.exhaust)
  have ok1: "q_ok ob ot cb ct b1" using q1_claim_ok [of ob ot cb ct b env r key i] assms(2) s c by simp
  have "keeps (fst_ok ob ot cb ct) (thn (q1_deliver env now nxt r asm szx maxSZX remote (b1, w)) (\<lambda>_ s. q1_store env key i s))" for asm szx
    by (rule keeps_thn [OF q1_deliver_ok [OF assms(1)]]) (simp_all add: ok1 q1_store_ok)
  then show ?thesis using ok1 by (auto simp: s completeQ1_def Let_def c split: outcome.split option.split)
qed

lemma handleQBlock1_ok:
  assumes "handler_ok nxt" "q_ok ob ot cb ct (fst s)"
  shows "keeps (fst_ok ob ot cb ct) (handleQBlock1 env now nxt r maxSZX remote s)"
proof -
  have acc: "keeps (fst_ok ob ot cb ct) (thn (q1_accept env now r key p payload i s1) (\<lambda>accepted s2.
      case accepted of None \<Rightarrow> (s2, Ret ())
      | Some (allThere, duplicate) \<Rightarrow> if \<not> allThere then respondQ1Incomplete env now r key i p duplicate s2 else completeQ1 env now nxt r key i maxSZX remote s2))"
    if "q_ok ob ot cb ct (fst s1)" for key p payload i s1
    by (rule keeps_thn [OF q1_accept_ok [OF that]]) (auto split: option.split simp: respondQ1Incomplete_ok completeQ1_ok [OF assms(1)])
  have beg: "keeps (fst_ok ob ot cb ct) (thn (q1_begin env now r key p s) (\<lambda>entered s1.
      case entered of None \<Rightarrow> (s1, Ret ())
      | Some i \<Rightarrow> (case readQBody r of Inl err \<Rightarrow> (s1, Err err)
         | Inr payload \<Rightarrow> thn (q1_accept env now r key p payload i s1) (\<lambda>accepted s2.
      case accepted of None \<Rightarrow> (s2, Ret ())
      | Some (allThere, duplicate) \<Rightarrow> if \<not> allThere then respondQ1Incomplete env now r key i p duplicate s2 else completeQ1 env now nxt r key i maxSZX remote s2))))" for key p
    by (rule keeps_thn [OF q1_begin_ok [OF assms(2)]]) (auto split: option.split sum.split simp: acc)
  show ?thesis using assms(2) beg unfolding handleQBlock1_def Let_def by (auto split: sum.split)
qed

lemma cacheQ1FinalError_ok:
  "q_ok ob ot cb ct b \<Longrightarrow> cacheQ1FinalError env r remote resp b = Some b' \<Longrightarrow> q_ok ob ot cb ct b'"
  by (auto simp: cacheQ1FinalError_def Let_def q1_finished_ok split: sum.splits option.splits if_splits prod.splits)

lemma respondQ1Error_ok:
  assumes "q_ok ob ot cb ct (fst s)" "respondQ1Error env r remote err s = Some s'"
  shows "q_ok ob ot cb ct (fst s')"
proof -
  obtain b w where s: "s = (b, w)" by (rule prod.exhaust)
  have ok: "q_ok ob ot cb ct b" using assms(1) s by simp
  have fin: "q_ok ob ot cb ct b2" if "cacheQ1FinalError env r remote resp b1 = Some b2" "b1 = b \<or> (\<exists>e. b1 = q_report e b)" for resp b1 b2
    using cacheQ1FinalError_ok [OF _ that(1)] that(2) ok by auto
  show ?thesis using assms(2) unfolding s respondQ1Error_def Let_def prod.case
    by (auto split: if_splits option.splits dest!: fin)
qed

lemma q1ResponseContinuation_ok:
  assumes "q_ok ob ot cb ct (fst s)" "q1ResponseContinuation env now r maxSZX remote s = Some (Some s')"
  shows "q_ok ob ot cb ct (fst s')"
  using assms(2) unfolding q1ResponseContinuation_def
  by (auto split: if_splits sum.splits option.splits dest: dispatchQBlock2_ok [OF handler_reject assms(1)])

lemma q_Handle_ok:
  assumes "handler_ok nxt" "q_ok ob ot cb ct (fst s)" "q_Handle env now nxt r maxSZX remote s = Some (s', own)"
  shows "q_ok ob ot cb ct (fst s')"
proof -
  obtain observe oerr where o: "Options_Observe (opts_of r) = (observe, oerr)" by (rule prod.exhaust)
  define s1 where "s1 = (if oerr = None \<and> observe = 1 then (CancelQBlockObservation env now (token_of r) remote (fst s), snd s) else s)"
  have ok1: "q_ok ob ot cb ct (fst s1)" using assms(2) by (simp add: s1_def CancelQBlockObservation_ok)
  obtain s2 res where h: "handleQBlock1 env now nxt r (min maxSZX qBlockMaxSZX) remote s1 = (s2, res)" by (rule prod.exhaust)
  have ok2: "keeps (fst_ok ob ot cb ct) (s2, res)" using handleQBlock1_ok [OF assms(1) ok1, of env now r "min maxSZX qBlockMaxSZX" remote] h by simp
  show ?thesis using assms(2,3) ok1 ok2 unfolding q_Handle_def o Let_def prod.case s1_def [symmetric] h
    by (cases res) (auto split: if_splits option.splits dest: q1ResponseContinuation_ok [OF ok1] respondQ1Error_ok dispatchQBlock2_ok [OF assms(1) ok1])
qed

lemma run_q_job_ok: "q_ok ob ot cb ct b \<Longrightarrow> keeps (q_ok ob ot cb ct) (run_q_job env tr now job b)"
  by (cases job) (simp_all add: run_q_job_def q1_missing_job_ok job_run_ok)

end
