(* ===== verification/Observation.thy ===== *)
theory Observation
  imports Response_Writer Go_Cache
begin

text \<open>
  Observations of a client, \<open>net/observation\<close>: which notifications are fresh, what an observation does with
  one, and how the handler keeps the observations of a connection by the hash of their token.

  What is called outside (the observer, the channel of the waiting request, the connection told of a
  cancelled observation) is in a log.  The clock is an argument, in nanoseconds; the zero time is \<open>None\<close>.  An
  observation lives in the map of its handler; one that has been taken out is not called any more.
\<close>

definition ObservationSequenceTimeout :: time where
  "ObservationSequenceTimeout = 128 * 10 ^ 9"

definition ValidSequenceNumber :: "u32 \<Rightarrow> u32 \<Rightarrow> time option \<Rightarrow> time \<Rightarrow> bool" where
  "ValidSequenceNumber oldValue newValue lastEventOccurs now =
     (if oldValue < newValue \<and> newValue - oldValue < push_bit 23 1 then True
      else if oldValue > newValue \<and> oldValue - newValue > push_bit 23 1 then True
      else (case lastEventOccurs of
              None \<Rightarrow> True
            | Some t \<Rightarrow> now - t > ObservationSequenceTimeout))"

record Observation =
  obs_req :: Message
  waitForResponse :: bool
  obsSequence :: u32
  lastEvent :: "time option"
  obs_etag :: bytes

datatype 'cm obs_event =
    Observed "'cm PMessage"
  | FirstResponse u16 bool
  | CancelObservation bytes

record 'cm ObsHandler =
  observations :: "(u64, Observation) smap"
  obs_log :: "'cm obs_event list"

definition NewHandler :: "'cm ObsHandler" where
  "NewHandler = \<lparr>observations = NewMap, obs_log = []\<rparr>"

definition obs_emit :: "'cm obs_event \<Rightarrow> 'cm ObsHandler \<Rightarrow> 'cm ObsHandler" where
  "obs_emit e h = h\<lparr>obs_log := obs_log h @ [e]\<rparr>"

definition newObservation :: "Message \<Rightarrow> Observation" where
  "newObservation req = \<lparr>obs_req = req, waitForResponse = True, obsSequence = 0, lastEvent = None, obs_etag = []\<rparr>"

definition GetObservation :: "u64 \<Rightarrow> 'cm ObsHandler \<Rightarrow> Observation option" where
  "GetObservation key h = Map_Load key (observations h)"

definition Canceled :: "Observation \<Rightarrow> 'cm ObsHandler \<Rightarrow> bool" where
  "Canceled ob h \<longleftrightarrow> GetObservation (Token_Hash (Token (obs_req ob))) h = None"

definition pullOutObservation :: "u64 \<Rightarrow> 'cm ObsHandler \<Rightarrow> 'cm ObsHandler \<times> Observation option" where
  "pullOutObservation key h =
     (let (m, ob) = Map_LoadAndDelete key (observations h) in (h\<lparr>observations := m\<rparr>, ob))"

definition cleanUp :: "Observation \<Rightarrow> 'cm ObsHandler \<Rightarrow> 'cm ObsHandler \<times> bool" where
  "cleanUp ob h =
     (let (h1, pulled) = pullOutObservation (Token_Hash (Token (obs_req ob))) h
      in case pulled of
           None \<Rightarrow> (h1, False)
         | Some _ \<Rightarrow> (obs_emit (CancelObservation (Token (obs_req ob))) h1, True))"

definition wantBeNotified :: "time \<Rightarrow> 'cm PMessage \<Rightarrow> Observation \<Rightarrow> Observation \<times> bool" where
  "wantBeNotified now r ob =
     (let (sq, err) = Options_Observe (opts_of r) in
      if err \<noteq> None then (ob, True)
      else if \<not> ValidSequenceNumber (obsSequence ob) sq (lastEvent ob) now then (ob, False)
      else (let ob1 = ob\<lparr>obsSequence := sq, lastEvent := Some now\<rparr>
            in (case Options_GetBytes (opts_of r) ETag of
                  Inl _ \<Rightarrow> ob1
                | Inr etag \<Rightarrow> ob1\<lparr>obs_etag := etag\<rparr>, True)))"

definition obs_handle :: "time \<Rightarrow> 'cm PMessage \<Rightarrow> u64 \<Rightarrow> Observation \<Rightarrow> 'cm ObsHandler \<Rightarrow> 'cm ObsHandler" where
  "obs_handle now r key ob h =
     (let hasObserve = Options_HasOption (opts_of r) Observe;
          h1 = (if waitForResponse ob then obs_emit (FirstResponse (Code (msg r)) (\<not> hasObserve)) h else h);
          (ob1, want) = wantBeNotified now r (ob\<lparr>waitForResponse := False\<rparr>);
          h2 = h1\<lparr>observations := AList.update key ob1 (observations h1)\<rparr>;
          h3 = (if want then obs_emit (Observed r) h2 else h2)
      in if hasObserve then h3 else fst (cleanUp ob1 h3))"

definition HandleNotification :: "time \<Rightarrow> 'cm PMessage \<Rightarrow> 'cm ObsHandler \<Rightarrow> 'cm ObsHandler \<times> bool" where
  "HandleNotification now r h =
     (let key = Token_Hash (Token (msg r)) in
      case Map_Load key (observations h) of
        Some ob \<Rightarrow> (obs_handle now r key ob h, True)
      | None \<Rightarrow> (h, False))"

text \<open>\<open>Handle\<close>; the application's handler is an argument.\<close>

definition obs_Handle :: "time \<Rightarrow> ('w \<Rightarrow> 'cm PMessage \<Rightarrow> 'w) \<Rightarrow> 'w \<Rightarrow> 'cm PMessage \<Rightarrow> 'cm ObsHandler \<Rightarrow> 'cm ObsHandler \<times> 'w" where
  "obs_Handle now next_handler w r h =
     (let (h1, handled) = HandleNotification now r h in (h1, if handled then w else next_handler w r))"

text \<open>
  \<open>NewObservation\<close>: up to the write of the request, with the result of the write (\<open>WriteMessage\<close> may run while
  notifications arrive, which are steps of the handler of their own), and from the \<open>select\<close> on.
\<close>

definition NewObservation_start ::
    "'cm PMessage \<Rightarrow> 'cm ObsHandler \<Rightarrow> 'cm ObsHandler \<times> (go_error + Observation)" where
  "NewObservation_start req h =
     (let (observe, err) = Options_Observe (opts_of req) in
      case err of
        Some e \<Rightarrow> (h, Inl e)
      | None \<Rightarrow>
          if observe \<noteq> 0 then (h, Inl (ErrOther ''invalid value of observe''))
          else if length (Token (msg req)) = 0 then (h, Inl (ErrOther ''empty token''))
          else
            (case Options_Clone (opts_of req) of
               Inl e \<Rightarrow> (h, Inl e)
             | Inr options \<Rightarrow>
                 (let ob = newObservation \<lparr>Token = Token (msg req), Options = options, Code = Code (msg req),
                             Payload = [], MessageID = 0, Type = 0\<rparr>;
                      (m, _, loaded) = Map_LoadOrStore (Token_Hash (Token (msg req))) ob (observations h) (observations h);
                      h1 = h\<lparr>observations := m\<rparr>
                  in if loaded then (fst (cleanUp ob h1), Inl ErrKeyAlreadyExists) else (h1, Inr ob))))"

datatype obs_wait = WriteFailed go_error | Aborted go_error | Responded u16 bool

definition NewObservation_finish :: "obs_wait \<Rightarrow> Observation \<Rightarrow> 'cm ObsHandler \<Rightarrow> 'cm ObsHandler \<times> (go_error + Observation)" where
  "NewObservation_finish wait ob h =
     (case wait of
        WriteFailed err \<Rightarrow> (fst (cleanUp ob h), Inl err)
      | Aborted err \<Rightarrow> (fst (cleanUp ob h), Inl err)
      | Responded code notSupported \<Rightarrow>
          if code \<noteq> codes_Content \<and> code \<noteq> codes_Valid then (fst (cleanUp ob h), Inl (ErrOther ''unexpected return code''))
          else (if notSupported then fst (cleanUp ob h) else h, Inr ob))"

text \<open>\<open>GetObservationRequest\<close>, with the message taken from the pool.\<close>

definition GetObservationRequest :: "'cm PMessage \<Rightarrow> bytes \<Rightarrow> 'cm ObsHandler \<Rightarrow> 'cm PMessage option option" where
  "GetObservationRequest fresh token h =
     (case GetObservation (Token_Hash token) h of
        None \<Rightarrow> Some None
      | Some ob \<Rightarrow>
          (case PM_ResetOptionsTo (Options (obs_req ob)) fresh of
             None \<Rightarrow> None
           | Some m \<Rightarrow> Some (Some (PM_SetToken (Token (obs_req ob)) (PM_SetCode (Code (obs_req ob)) m)))))"

text \<open>
  \<open>Cancel\<close>, with the message taken from the pool, and the connection's \<open>do\<close>.  A panic is \<open>None\<close>.
\<close>

definition Cancel_request :: "'cm PMessage \<Rightarrow> Options \<Rightarrow> Observation \<Rightarrow> (go_error + 'cm PMessage) option" where
  "Cancel_request fresh opts ob =
     (case PM_ResetOptionsTo opts fresh of
        None \<Rightarrow> None
      | Some m0 \<Rightarrow>
          (case PM_SetObserve 1 (PM_SetCode codes_GET m0) of
             None \<Rightarrow> None
           | Some m1 \<Rightarrow>
               (let (m2, err) =
                  (case Options_Path (Options (obs_req ob)) of
                     Inl _ \<Rightarrow> (m1, None)
                   | Inr path \<Rightarrow> PM_SetPath path m1)
                in case err of
                     Some e \<Rightarrow> Some (Inl e)
                   | None \<Rightarrow>
                       (let m3 = PM_SetToken (Token (obs_req ob)) m2
                        in Some (Inr (if length (obs_etag ob) > 0
                                      then (case PM_SetETag (obs_etag ob) m3 of Inl _ \<Rightarrow> m3 | Inr m4 \<Rightarrow> m4)
                                      else m3))))))"

definition obs_Cancel ::
    "'cm PMessage \<Rightarrow> Options \<Rightarrow> ('cm PMessage \<Rightarrow> go_error + 'cm PMessage) \<Rightarrow> Observation \<Rightarrow> 'cm ObsHandler \<Rightarrow>
     ('cm ObsHandler \<times> go_error option) option" where
  "obs_Cancel fresh opts do ob h =
     (let (h1, ok) = cleanUp ob h in
      if \<not> ok then Some (h1, None)
      else case Cancel_request fresh opts ob of
        None \<Rightarrow> None
      | Some (Inl err) \<Rightarrow> Some (h1, Some err)
      | Some (Inr req) \<Rightarrow>
          (case do req of
             Inl err \<Rightarrow> Some (h1, Some err)
           | Inr resp \<Rightarrow>
               Some (h1, if Code (msg resp) \<noteq> codes_Content \<and> Code (msg resp) \<noteq> codes_Valid
                         then Some (ErrOther ''unexpected return code'') else None)))"

subsection \<open>Freshness\<close>

lemma push_bit_23: "(push_bit 23 1 :: u32) = 8388608"
  by simp

lemma u32_sub: "x \<le> y \<Longrightarrow> uint (y - x :: u32) = uint y - uint x"
  by (simp add: uint_minus_simple_alt)

lemma mod_window:
  fixes d :: int
  assumes "- (2 ^ 24) < d" "d < 2 ^ 24"
  shows "d mod 2 ^ 24 = (if 0 \<le> d then d else d + 2 ^ 24)"
proof (cases "0 \<le> d")
  case True
  then show ?thesis using assms(2) by (simp add: mod_pos_pos_trivial)
next
  case False
  have "d mod 2 ^ 24 = (d + 2 ^ 24) mod 2 ^ 24" by simp
  also have "\<dots> = d + 2 ^ 24" using False assms(1) by (intro mod_pos_pos_trivial) linarith+
  finally show ?thesis using False by simp
qed

lemma ValidSequenceNumber_serial:
  assumes "uint oldv < 2 ^ 24" "uint newv < 2 ^ 24" "now - t \<le> ObservationSequenceTimeout"
  shows "ValidSequenceNumber oldv newv (Some t) now \<longleftrightarrow>
     0 < (uint newv - uint oldv) mod 2 ^ 24 \<and> (uint newv - uint oldv) mod 2 ^ 24 < 2 ^ 23"
proof -
  define d where "d = uint newv - uint oldv"
  have r: "- (2 ^ 24) < d" "d < 2 ^ 24"
    using assms(1,2) uint_ge_0 [of oldv] uint_ge_0 [of newv] unfolding d_def by linarith+
  have lt: "oldv < newv \<longleftrightarrow> 0 < d" "newv < oldv \<longleftrightarrow> d < 0" by (simp_all add: word_less_def d_def)
  have a: "newv - oldv < push_bit 23 1 \<longleftrightarrow> d < 2 ^ 23" if "oldv < newv"
    using u32_sub [OF less_imp_le [OF that]] unfolding push_bit_23 d_def by (simp add: word_less_def)
  have b: "push_bit 23 1 < oldv - newv \<longleftrightarrow> d < - (2 ^ 23)" if "newv < oldv"
    using u32_sub [OF less_imp_le [OF that]] unfolding push_bit_23 d_def by (auto simp add: word_less_def)
  have t: "\<not> now - t > ObservationSequenceTimeout" using assms(3) by simp
  consider "0 < d" "oldv < newv" "\<not> newv < oldv" | "d < 0" "newv < oldv" "\<not> oldv < newv" | "d = 0" "\<not> oldv < newv" "\<not> newv < oldv"
    using lt by linarith
  then show ?thesis
    unfolding d_def [symmetric] mod_window [OF r] ValidSequenceNumber_def option.case
    by cases (use a b t r in \<open>auto simp del: push_bit_of_1\<close>)
qed

text \<open>The 24 bits of a counter that are sent.\<close>

definition seq24 :: "nat \<Rightarrow> u32" where
  "seq24 n = word_of_nat (n mod 2 ^ 24)"

lemma uint_seq24: "uint (seq24 n) = int n mod 2 ^ 24"
proof -
  have "n mod 2 ^ 24 < 2 ^ 32" by (rule less_trans [of _ "2 ^ 24"]) simp_all
  then have "unat (seq24 n) = n mod 2 ^ 24" unfolding seq24_def by (simp add: unat_word_ariths unat_of_nat)
  then show ?thesis by (metis of_nat_mod of_nat_numeral of_nat_power uint_nat)
qed

lemma ValidSequenceNumber_counter:
  assumes "int n - int m < 2 ^ 23" "int m - int n < 2 ^ 23" "now - t \<le> ObservationSequenceTimeout"
  shows "ValidSequenceNumber (seq24 m) (seq24 n) (Some t) now \<longleftrightarrow> m < n"
proof -
  let ?d = "int n - int m"
  have "(uint (seq24 n) - uint (seq24 m)) mod 2 ^ 24 = ?d mod 2 ^ 24"
    unfolding uint_seq24 by (simp add: mod_diff_eq)
  moreover have "?d mod 2 ^ 24 = (if 0 \<le> ?d then ?d else ?d + 2 ^ 24)"
    by (rule mod_window) (use assms(1,2) in simp_all)
  moreover have "uint (seq24 k) < 2 ^ 24" for k unfolding uint_seq24 by simp
  ultimately show ?thesis using ValidSequenceNumber_serial [of "seq24 m" "seq24 n" now t] assms by auto
qed

text \<open>Which of the notifications of a list are handed to the observer.\<close>

fun notified :: "(time \<times> 'cm PMessage) list \<Rightarrow> Observation \<Rightarrow> bool list" where
  "notified [] ob = []"
| "notified ((now, r) # rs) ob = (let (ob1, want) = wantBeNotified now r ob in want # notified rs ob1)"

text \<open>The specification: a notification is handed on when its counter is higher than all before.\<close>

fun newest :: "nat option \<Rightarrow> nat list \<Rightarrow> bool list" where
  "newest prev [] = []"
| "newest prev (n # ns) =
     (let new = (case prev of None \<Rightarrow> True | Some m \<Rightarrow> m < n) in new # newest (if new then Some n else prev) ns)"

definition notifications :: "(time \<times> 'cm PMessage) list \<Rightarrow> nat list \<Rightarrow> bool" where
  "notifications rs ns \<longleftrightarrow> list_all2 (\<lambda>(now, r) n. Options_Observe (opts_of r) = (seq24 n, None)) rs ns"

lemma notified_newest_from:
  assumes "notifications rs ns" "\<forall>(now, r) \<in> set rs. now - t \<le> ObservationSequenceTimeout \<and> t \<le> now"
    "\<forall>n \<in> set ns. lo \<le> n \<and> n < lo + 2 ^ 23"
    "case prev of None \<Rightarrow> lastEvent ob = None
     | Some m \<Rightarrow> obsSequence ob = seq24 m \<and> lo \<le> m \<and> m < lo + 2 ^ 23 \<and> (\<exists>t'. lastEvent ob = Some t' \<and> t \<le> t')"
  shows "notified rs ob = newest prev ns"
  using assms
proof (induction rs arbitrary: ns ob prev)
  case Nil
  then show ?case by (simp add: notifications_def)
next
  case (Cons x rs)
  obtain now r where x: "x = (now, r)" by (cases x)
  obtain n ns' where ns: "ns = n # ns'" and ob: "Options_Observe (opts_of r) = (seq24 n, None)" and rest: "notifications rs ns'"
    using Cons.prems(1) by (cases ns) (auto simp: notifications_def x)
  have tm: "now - t \<le> ObservationSequenceTimeout" "t \<le> now" using Cons.prems(2) by (auto simp: x)
  have n: "lo \<le> n" "n < lo + 2 ^ 23" using Cons.prems(3) by (auto simp: ns)
  define new where "new = (case prev of None \<Rightarrow> True | Some m \<Rightarrow> m < n)"
  have v: "ValidSequenceNumber (obsSequence ob) (seq24 n) (lastEvent ob) now = new"
  proof (cases prev)
    case None
    then show ?thesis using Cons.prems(4) by (simp add: new_def ValidSequenceNumber_def)
  next
    case (Some m)
    then obtain t' where m: "obsSequence ob = seq24 m" "lo \<le> m" "m < lo + 2 ^ 23" "lastEvent ob = Some t'" "t \<le> t'"
      using Cons.prems(4) by auto
    show ?thesis unfolding m(1,4) new_def Some option.case
      by (rule ValidSequenceNumber_counter) (use m n tm in auto)
  qed
  obtain ob1 where w: "wantBeNotified now r ob = (ob1, new)"
      and ob1: "if new then obsSequence ob1 = seq24 n \<and> lastEvent ob1 = Some now else ob1 = ob"
  proof (cases new)
    case True
    then show ?thesis using v ob that
      by (cases "Options_GetBytes (opts_of r) ETag") (auto simp: wantBeNotified_def Let_def)
  next
    case False
    then show ?thesis using v ob that by (auto simp: wantBeNotified_def)
  qed
  have "notified rs ob1 = newest (if new then Some n else prev) ns'"
  proof (rule Cons.IH [OF rest])
    show "case (if new then Some n else prev) of None \<Rightarrow> lastEvent ob1 = None
      | Some m \<Rightarrow> obsSequence ob1 = seq24 m \<and> lo \<le> m \<and> m < lo + 2 ^ 23 \<and> (\<exists>t'. lastEvent ob1 = Some t' \<and> t \<le> t')"
      using ob1 Cons.prems(4) n tm by (cases new) auto
  qed (use Cons.prems(2,3) in \<open>auto simp: ns\<close>)
  then show ?case by (simp add: x ns w new_def [symmetric] Let_def)
qed

text \<open>
  C20. An observation hands on a notification exactly when it is newer than all that came before: for
  notifications that carry the last 24 bits of a counter, whose counters lie within a window of 2^23 and
  which arrive within 128 seconds, in any order and with any repetitions, across the wrap-around of the 24
  bits, the observer sees exactly those with a higher counter than every notification before.
\<close>

theorem notifications_in_order:
  assumes "notifications rs ns"
    and "\<forall>(now, r) \<in> set rs. t \<le> now \<and> now \<le> t + ObservationSequenceTimeout"
    and "\<forall>n \<in> set ns. lo \<le> n \<and> n < lo + 2 ^ 23"
  shows "notified rs (newObservation req) = newest None ns"
  by (rule notified_newest_from [OF assms(1) _ assms(3)]) (use assms(2) in \<open>auto simp: newObservation_def\<close>)

text \<open>Notifications with the counters 0xfffffe, 0x1000001, 0xffffff, 0x1000001: the second wraps around.\<close>

definition notice :: "u32 \<Rightarrow> unit PMessage" where
  "notice sq = NewMessage\<lparr>msg := \<lparr>Token = [7], Options = [\<lparr>ID = Observe, Value = uint_wire sq\<rparr>], Code = codes_Content, Payload = [], MessageID = 1, Type = Confirmable\<rparr>\<rparr>"

lemma notice_observe: "Options_Observe (opts_of (notice sq)) = (sq, None)"
  by (simp add: notice_def Options_Observe_def GetUint32_vals opts_sorted_def vals_def DecodeUint32_uint_wire)

theorem notifications_in_order_witness:
  "notified [(5, notice 0xfffffe), (6, notice 1), (7, notice 0xffffff), (8, notice 1)] (newObservation (msg (notice 0))) = [True, True, False, False]"
proof -
  have s: "seq24 0xfffffe = 0xfffffe" "seq24 0x1000001 = 1" "seq24 0xffffff = 0xffffff" by (simp_all add: seq24_def)
  have "notified [(5, notice 0xfffffe), (6, notice 1), (7, notice 0xffffff), (8, notice 1)] (newObservation (msg (notice 0))) =
      newest None [0xfffffe, 0x1000001, 0xffffff, 0x1000001]"
    by (rule notifications_in_order [where t = 5 and lo = "0xfffff0"])
      (simp_all add: notifications_def s notice_observe ObservationSequenceTimeout_def)
  then show ?thesis by simp
qed

subsection \<open>The handler\<close>

lemma cleanUp_eq:
  "cleanUp ob h = (let key = Token_Hash (Token (obs_req ob)) in
     (h\<lparr>observations := AList.delete key (observations h),
        obs_log := obs_log h @ (if map_of (observations h) key = None then [] else [CancelObservation (Token (obs_req ob))])\<rparr>,
      map_of (observations h) key \<noteq> None))"
  by (auto simp: cleanUp_def pullOutObservation_def Map_LoadAndDelete_def obs_emit_def Let_def split: option.splits)

text \<open>An observation is kept under the hash of its token, which every operation keeps.\<close>

definition obs_ok :: "'cm ObsHandler \<Rightarrow> bool" where
  "obs_ok h \<longleftrightarrow> (\<forall>key ob. map_of (observations h) key = Some ob \<longrightarrow> Token_Hash (Token (obs_req ob)) = key)"

lemma wantBeNotified_req: "obs_req (fst (wantBeNotified now r ob)) = obs_req ob"
  by (auto simp: wantBeNotified_def Let_def split: prod.splits sum.splits)

lemma cleanUp_ok: "obs_ok h \<Longrightarrow> obs_ok (fst (cleanUp ob h))"
  by (auto simp: obs_ok_def cleanUp_eq delete_conv' Let_def split: if_splits)

lemma obs_ok_update:
  "obs_ok h \<Longrightarrow> Token_Hash (Token (obs_req ob)) = key \<Longrightarrow> obs_ok (h\<lparr>observations := AList.update key ob (observations h)\<rparr>)"
  by (auto simp: obs_ok_def update_conv')

lemma obs_ok_emit [simp]: "obs_ok (obs_emit e h) = obs_ok h"
  by (simp add: obs_ok_def obs_emit_def)

lemma obs_ok_NewHandler: "obs_ok NewHandler"
  by (simp add: obs_ok_def NewHandler_def NewMap_def)

lemma HandleNotification_ok:
  assumes "obs_ok h"
  shows "obs_ok (fst (HandleNotification now r h))"
proof (cases "map_of (observations h) (Token_Hash (Token (msg r)))")
  case (Some ob)
  moreover have "Token_Hash (Token (obs_req ob)) = Token_Hash (Token (msg r))" using Some assms by (auto simp: obs_ok_def)
  ultimately show ?thesis using assms wantBeNotified_req [of now r "ob\<lparr>waitForResponse := False\<rparr>"]
    by (auto simp: HandleNotification_def Map_Load_def obs_handle_def Let_def intro!: cleanUp_ok obs_ok_update split: prod.splits)
qed (use assms in \<open>simp add: HandleNotification_def Map_Load_def\<close>)

lemma NewObservation_ok:
  "obs_ok h \<Longrightarrow> obs_ok (fst (NewObservation_start req h))"
  "obs_ok h \<Longrightarrow> obs_ok (fst (NewObservation_finish wait ob h))"
  by (auto simp: NewObservation_start_def NewObservation_finish_def Map_LoadOrStore_def newObservation_def Let_def cleanUp_ok
      split: prod.splits option.splits sum.splits obs_wait.splits intro!: cleanUp_ok obs_ok_update)

text \<open>
  A message is a notification for an observation exactly when the handler has one under the hash of its
  token; otherwise nothing changes and the application's handler gets it.  The observation stays until a
  notification without the option Observe, which is still handed on; no other observation is touched.
\<close>

lemma HandleNotification_routes:
  assumes "obs_ok h"
  shows "let key = Token_Hash (Token (msg r)); (h', handled) = HandleNotification now r h in
     (handled \<longleftrightarrow> map_of (observations h) key \<noteq> None)
     \<and> (\<not> handled \<longrightarrow> h' = h)
     \<and> (handled \<longrightarrow> (map_of (observations h') key \<noteq> None \<longleftrightarrow> Options_HasOption (opts_of r) Observe))
     \<and> (handled \<and> \<not> Options_HasOption (opts_of r) Observe \<longrightarrow> Observed r \<in> set (obs_log h'))
     \<and> (\<forall>k. k \<noteq> key \<longrightarrow> map_of (observations h') k = map_of (observations h) k)"
proof (cases "map_of (observations h) (Token_Hash (Token (msg r)))")
  case None
  then show ?thesis by (simp add: HandleNotification_def Map_Load_def)
next
  case (Some ob)
  obtain ob1 want where w: "wantBeNotified now r (ob\<lparr>waitForResponse := False\<rparr>) = (ob1, want)" by fastforce
  have q: "obs_req ob1 = obs_req ob"
    using w by (auto simp: wantBeNotified_def Let_def split: prod.splits if_splits sum.splits)
  have want: "want" if "\<not> Options_HasOption (opts_of r) Observe"
    using w that by (auto simp: wantBeNotified_def Options_HasOption_def Options_Observe_def Options_GetUint32_def Let_def split: prod.splits if_splits sum.splits option.splits)
  show ?thesis
    using Some assms q want w unfolding obs_ok_def
    by (auto simp: HandleNotification_def Map_Load_def obs_handle_def cleanUp_eq update_conv' delete_conv' obs_emit_def Let_def)
qed

text \<open>
  C27. When the request of an observation is observed a second time, the second observation is refused, and the
  first one is cancelled by it: the
  deferred clean-up takes out whatever observation is under the hash of the token.  Notifications for the
  first observation are not delivered any more.
\<close>

theorem duplicate_observation_cancels_first:
  assumes "NewObservation_start req h = (h1, Inr ob)"
  shows "let (h2, res) = NewObservation_start req h1 in
     res = Inl ErrKeyAlreadyExists \<and> \<not> Canceled ob h1 \<and> Canceled ob h2
     \<and> (\<forall>now r. Token (msg r) = Token (msg req) \<longrightarrow> snd (HandleNotification now r h1) \<and> \<not> snd (HandleNotification now r h2))"
proof -
  obtain options where c: "Options_Observe (opts_of req) = (0, None)" "Token (msg req) \<noteq> []" "Options_Clone (opts_of req) = Inr options"
      and ob: "Token (obs_req ob) = Token (msg req)" "h1 = h\<lparr>observations := AList.update (Token_Hash (Token (msg req))) ob (observations h)\<rparr>"
    using assms by (auto simp: NewObservation_start_def Map_LoadOrStore_def newObservation_def Let_def split: prod.splits option.splits if_splits sum.splits)
  show ?thesis
    using c ob
    by (auto simp: NewObservation_start_def Map_LoadOrStore_def newObservation_def cleanUp_eq Canceled_def GetObservation_def
        Map_Load_def HandleNotification_def update_conv' delete_conv' Let_def)
qed

definition observe_request :: "unit PMessage" where
  "observe_request = NewMessage\<lparr>msg := \<lparr>Token = [7], Options = [\<lparr>ID = Observe, Value = []\<rparr>], Code = codes_GET, Payload = [], MessageID = 1, Type = Confirmable\<rparr>\<rparr>"

lemma observe_request_start:
  "NewObservation_start observe_request NewHandler =
     (\<lparr>observations = [(Token_Hash [7], newObservation \<lparr>Token = [7], Options = [\<lparr>ID = Observe, Value = []\<rparr>], Code = codes_GET, Payload = [], MessageID = 0, Type = 0\<rparr>)],
       obs_log = []\<rparr>,
      Inr (newObservation \<lparr>Token = [7], Options = [\<lparr>ID = Observe, Value = []\<rparr>], Code = codes_GET, Payload = [], MessageID = 0, Type = 0\<rparr>))"
  unfolding observe_request_def NewHandler_def by code_simp

lemma HandleNotification_routes_example:
  "obs_ok (fst (NewObservation_start observe_request NewHandler))
   \<and> snd (HandleNotification 3 (notice 5) (fst (NewObservation_start observe_request NewHandler)))"
proof -
  let ?h = "fst (NewObservation_start observe_request NewHandler)"
  have ok: "obs_ok ?h" by (intro NewObservation_ok obs_ok_NewHandler)
  have "map_of (observations ?h) (Token_Hash (Token (msg (notice 5)))) \<noteq> None"
    by (simp add: observe_request_start notice_def)
  with HandleNotification_routes [OF ok, of "notice 5" 3] ok show ?thesis
    by (cases "HandleNotification 3 (notice 5) ?h") (simp add: Let_def)
qed

theorem duplicate_observation_cancels_first_witness:
  "\<exists>h1 ob. NewObservation_start observe_request NewHandler = (h1, Inr ob)
     \<and> Canceled ob (fst (NewObservation_start observe_request h1))"
  using duplicate_observation_cancels_first [OF observe_request_start] observe_request_start
  by (auto simp: Let_def split: prod.splits)

end
