(* ===== verification/Qblock_Client.thy ===== *)
theory Qblock_Client
  imports Qblock_Engine Qblock_Send Observation
begin

text \<open>
  The client side of Q-Block transfers, \<open>net/blockwise/qblock/client.go\<close> and \<open>client_receive.go\<close>: sending the
  body of a request and receiving the body of a response.

  The exchange of the code is an interface; sending and taking new tokens are here operations on a state of
  its own.  What \<open>Receive\<close> returns is the input of a step: the loops of the code are the steps between two
  calls of \<open>Receive\<close>, and a step sees one time \<open>now\<close>.  The context of the request is its error at that time.
  Sending and receiving are done by the goroutine of the request; only the reservations touch the engine.
\<close>

record ('cm, 'x) q_exchange =
  x_NewToken :: "'x \<Rightarrow> 'x \<times> (go_error + bytes)"
  x_Send :: "'cm PMessage \<Rightarrow> 'x \<Rightarrow> 'x \<times> go_error option"

text \<open>A call of \<open>Receive\<close>: the time it returns, the error of the context of the request, and what it returns.\<close>

datatype 'cm q_event = Event (ev_now: time) (ev_ctx: "go_error option") (ev_result: "go_error + 'cm PMessage")

definition q_value :: "SZX \<Rightarrow> int \<Rightarrow> bool \<Rightarrow> u32" where
  "q_value szx num mor = (case EncodeQBlockOption szx num mor of Inl _ \<Rightarrow> 0 | Inr v \<Rightarrow> v)"

definition qMissingSet :: "u32 list \<Rightarrow> int \<Rightarrow> int list" where
  "qMissingSet missing maxPayloads =
     (case missing of
        [] \<Rightarrow> []
      | first # _ \<Rightarrow> map uint (takeWhile (\<lambda>num. uint num div maxPayloads = uint first div maxPayloads) missing))"

subsection \<open>Sending a body\<close>

record ('cm, 'x) q1BodySender =
  bs_request :: "'cm PMessage"
  bs_sender :: Sender
  bs_exchange :: 'x
  bs_tag :: bytes
  bs_size :: u32
  bs_szx :: SZX
  bs_blockCount :: int
  bs_attempts :: "(int, int) smap"
  bs_sentRequests :: int
  bs_next :: int
  bs_retries :: int
  bs_pendingRecovery :: "int list"
  bs_delay :: int
  bs_deadline :: time

definition attempts_of :: "int \<Rightarrow> (int, int) smap \<Rightarrow> int" where
  "attempts_of num m = (case map_of m num of None \<Rightarrow> 0 | Some n \<Rightarrow> n)"

text \<open>The token of a request: the first has the token of the body, the others new ones.\<close>

definition q1_token :: "('cm, 'x) q_exchange \<Rightarrow> 'cm PMessage \<Rightarrow> ('cm, 'x) q1BodySender \<Rightarrow> ('cm, 'x) q1BodySender \<times> 'cm PMessage outcome" where
  "q1_token x part s =
     (if bs_sentRequests s > 0
      then (case x_NewToken x (bs_exchange s) of
              (xs, Inl err) \<Rightarrow> (s\<lparr>bs_exchange := xs\<rparr>, Err err)
            | (xs, Inr token) \<Rightarrow> (s\<lparr>bs_exchange := xs\<rparr>, Ret (PM_SetToken token part)))
      else (s, Ret part))"

text \<open>The request that carries a block.\<close>

definition q1_part :: "SZX \<Rightarrow> u32 \<Rightarrow> bytes \<Rightarrow> int \<Rightarrow> bool \<Rightarrow> bytes \<Rightarrow> 'cm PMessage \<Rightarrow> 'cm PMessage outcome" where
  "q1_part szx bodySize tag num mor payload part =
     and_then (of_opt (PM_SetOptionUint32 QBlock1 (q_value szx num mor) (PM_Remove Block2 (PM_Remove Block1 part)))) (\<lambda>p1.
     and_then (of_opt (PM_SetOptionUint32 QBlock2 (q_value szx 0 True) p1)) (\<lambda>p2.
     and_then (of_opt (PM_SetOptionUint32 Size1 bodySize p2)) (\<lambda>p3.
     and_then (of_sum (PM_SetRequestTag tag p3)) (\<lambda>p4.
     Ret (PM_SetBody (Some (NewReader payload)) p4)))))"

definition bs_Send :: "('cm, 'x) q_exchange \<Rightarrow> 'cm PMessage \<Rightarrow> ('cm, 'x) q1BodySender \<Rightarrow> ('cm, 'x) q1BodySender \<times> unit outcome" where
  "bs_Send x part s = (let (xs, err) = x_Send x part (bs_exchange s) in (s\<lparr>bs_exchange := xs\<rparr>, of_err err))"

definition sendBlock ::
  "('cm, 't) q_env \<Rightarrow> ('cm, 'x) q_exchange \<Rightarrow> QConfig \<Rightarrow> int \<Rightarrow> ('cm, 'x) q1BodySender \<Rightarrow> ('cm, 'x) q1BodySender \<times> unit outcome" where
  "sendBlock env x c num s =
     (if num < 0 \<or> num \<ge> bs_blockCount s \<or> attempts_of num (bs_attempts s) > NonMaxRetransmit c
      then (s, Err (ErrOther ''Q-Block1 invalid or exhausted recovery NUM''))
      else
        (let s1 = s\<lparr>bs_attempts := AList.update num (attempts_of num (bs_attempts s) + 1) (bs_attempts s)\<rparr> in
         case Sender_Block num (bs_sender s1) of
           (sn, Inl err) \<Rightarrow> (s1\<lparr>bs_sender := sn\<rparr>, Err err)
         | (sn, Inr (payload, mor)) \<Rightarrow>
             (let s2 = s1\<lparr>bs_sender := sn\<rparr> in
              case cloneMessage env (bs_request s2) of
                None \<Rightarrow> (s2, Panic)
              | Some part0 \<Rightarrow>
                  thn (q1_token x part0 s2) (\<lambda>part1 s3.
                    let s4 = s3\<lparr>bs_sentRequests := bs_sentRequests s3 + 1\<rparr>
                    in thn (s4, q1_part (bs_szx s4) (bs_size s4) (bs_tag s4) num mor payload part1) (bs_Send x)))))"

fun bs_send :: "('cm, 't) q_env \<Rightarrow> ('cm, 'x) q_exchange \<Rightarrow> QConfig \<Rightarrow> int list \<Rightarrow> ('cm, 'x) q1BodySender \<Rightarrow> ('cm, 'x) q1BodySender \<times> unit outcome" where
  "bs_send env x c [] s = (s, Ret ())"
| "bs_send env x c (num # nums) s = thn (sendBlock env x c num s) (\<lambda>_ s1. bs_send env x c nums s1)"

definition sendSet :: "('cm, 't) q_env \<Rightarrow> ('cm, 'x) q_exchange \<Rightarrow> QConfig \<Rightarrow> ('cm, 'x) q1BodySender \<Rightarrow> ('cm, 'x) q1BodySender \<times> unit outcome" where
  "sendSet env x c s =
     (let lst = setLast (bs_next s) (bs_blockCount s) c
      in bs_send env x c [bs_next s..lst] (s\<lparr>bs_next := lst + 1\<rparr>))"

definition bs_timeout ::
  "('cm, 't) q_env \<Rightarrow> ('cm, 'x) q_exchange \<Rightarrow> QConfig \<Rightarrow> go_error option \<Rightarrow> go_error \<Rightarrow> ('cm, 'x) q1BodySender \<Rightarrow> ('cm, 'x) q1BodySender \<times> unit outcome" where
  "bs_timeout env x c ctxErr receiveErr s =
     (case ctxErr of
        Some err \<Rightarrow> (s, Err err)
      | None \<Rightarrow>
          if bs_pendingRecovery s \<noteq> [] then bs_send env x c (bs_pendingRecovery s) (s\<lparr>bs_retries := bs_retries s + 1\<rparr>)
          else if bs_next s < bs_blockCount s then sendSet env x c s
          else if bs_retries s \<ge> NonMaxRetransmit c then (s, Err receiveErr)
          else bs_send env x c [bs_blockCount s - 1] (s\<lparr>bs_retries := bs_retries s + 1\<rparr>))"

definition q1ContinueNUM :: "'cm PMessage \<Rightarrow> int \<times> bool" where
  "q1ContinueNUM resp =
     (let (value, err) = getUint32 resp QBlock1 in
      if err \<noteq> None then (0, False)
      else (case DecodeQBlockOption value of Inl _ \<Rightarrow> (0, False) | Inr (_, num, _) \<Rightarrow> (num, True)))"

definition bs_continuation ::
  "('cm, 't) q_env \<Rightarrow> ('cm, 'x) q_exchange \<Rightarrow> QConfig \<Rightarrow> time \<Rightarrow> 'cm PMessage \<Rightarrow> ('cm, 'x) q1BodySender \<Rightarrow> ('cm, 'x) q1BodySender \<times> bool outcome" where
  "bs_continuation env x c now resp s =
     (let (num, valid) = q1ContinueNUM resp in
      if \<not> valid then (s, Ret False)
      else
        (let wasRecovering = bs_pendingRecovery s \<noteq> [];
             s1 = (if wasRecovering \<and> num \<ge> List.last (bs_pendingRecovery s) then s\<lparr>bs_pendingRecovery := [], bs_retries := 0\<rparr> else s)
         in if wasRecovering \<and> bs_pendingRecovery s1 = [] \<and> bs_next s1 < bs_blockCount s1
            then (s1\<lparr>bs_deadline := now + bs_delay s1\<rparr>, Ret False)
            else if num \<noteq> bs_next s1 - 1 \<or> bs_next s1 \<ge> bs_blockCount s1 then (s1, Ret False)
            else thn (sendSet env x c s1) (\<lambda>_ s2. (s2, Ret True))))"

definition bs_missing ::
  "('cm, 't) q_env \<Rightarrow> ('cm, 'x) q_exchange \<Rightarrow> QConfig \<Rightarrow> 'cm PMessage \<Rightarrow> ('cm, 'x) q1BodySender \<Rightarrow> ('cm, 'x) q1BodySender \<times> unit outcome" where
  "bs_missing env x c resp s =
     (case (PM_ContentFormat resp, readQBody resp) of
        ((form, None), Inr rep) \<Rightarrow>
          if form \<noteq> AppMissingBlocksCBORSeq then (s, Err (ErrOther ''invalid Q-Block1 missing-block report''))
          else
            (case DecodeMissingBlocks [] rep of
               Inl _ \<Rightarrow> (s, Err (ErrOther ''invalid Q-Block1 missing-block sq''))
             | Inr missing \<Rightarrow>
                 if int (length missing) > q1MaxTrackedBlocks then (s, Err (ErrOther ''invalid Q-Block1 missing-block sq''))
                 else
                   (let s1 = s\<lparr>bs_pendingRecovery := qMissingSet missing (MaxPayloads c)\<rparr>
                    in bs_send env x c (bs_pendingRecovery s1) s1))
      | _ \<Rightarrow> (s, Err (ErrOther ''invalid Q-Block1 missing-block report'')))"

text \<open>How long to wait for the next response; the shift is on 64 bits.\<close>

definition bs_wait :: "QConfig \<Rightarrow> ('cm, 'x) q1BodySender \<Rightarrow> int" where
  "bs_wait c s =
     (if bs_next s = bs_blockCount s \<or> bs_pendingRecovery s \<noteq> []
      then int64 (int64 (NonReceiveTimeout c + second) * 2 ^ nat (bs_retries s))
      else bs_delay s)"

text \<open>
  One turn of the loop of \<open>run\<close>: \<open>Ret None\<close> when the loop goes on, \<open>Ret (Some resp)\<close> when a final response
  has come, which \<open>bs_final\<close> takes.
\<close>

definition bs_turn ::
  "('cm, 't) q_env \<Rightarrow> ('cm, 'x) q_exchange \<Rightarrow> QConfig \<Rightarrow> 'cm q_event \<Rightarrow> ('cm, 'x) q1BodySender \<Rightarrow> ('cm, 'x) q1BodySender \<times> 'cm PMessage option outcome" where
  "bs_turn env x c ev s =
     (let waiting = (\<lambda>s1. (s1\<lparr>bs_deadline := ev_now ev + bs_wait c s1\<rparr>, Ret None)) in
      case ev_result ev of
        Inl err \<Rightarrow> thn (bs_timeout env x c (ev_ctx ev) err s) (\<lambda>_ s1. waiting s1)
      | Inr resp \<Rightarrow>
          if code_of resp = codes_Continue
          then thn (bs_continuation env x c (ev_now ev) resp s) (\<lambda>go s1. if go then waiting s1 else (s1, Ret None))
          else if code_of resp = codes_RequestEntityIncomplete
          then thn (bs_missing env x c resp s) (\<lambda>_ s1. waiting s1)
          else (s, Ret (Some resp)))"

text \<open>\<open>run\<close> up to the first \<open>Receive\<close>.\<close>

definition bs_start ::
  "('cm, 't) q_env \<Rightarrow> ('cm, 'x) q_exchange \<Rightarrow> QConfig \<Rightarrow> time \<Rightarrow> ('cm, 'x) q1BodySender \<Rightarrow> ('cm, 'x) q1BodySender \<times> unit outcome" where
  "bs_start env x c now s =
     thn (sendSet env x c s) (\<lambda>_ s1.
       (s1\<lparr>bs_deadline := now + (if bs_next s1 = bs_blockCount s1 then int64 (NonReceiveTimeout c + second) else bs_delay s1)\<rparr>, Ret ()))"

text \<open>
  \<open>DoQBlock1\<close> up to the loop; \<open>opened\<close> is what \<open>OpenQBlockExchange\<close> gives, and \<open>newTag\<close> what \<open>GetToken\<close> gives.
\<close>

definition new_sender ::
  "QConfig \<Rightarrow> int \<Rightarrow> 'cm PMessage \<Rightarrow> Sender \<Rightarrow> 'x \<Rightarrow> bytes \<Rightarrow> int \<Rightarrow> SZX \<Rightarrow> ('cm, 'x) q1BodySender" where
  "new_sender c jitter r sender xs tag bodySize szx =
     \<lparr>bs_request = r, bs_sender = sender, bs_exchange = xs, bs_tag = tag, bs_size = word_of_int bodySize, bs_szx = szx,
      bs_blockCount = max 1 ((bodySize + SZX_Size szx - 1) div SZX_Size szx), bs_attempts = [], bs_sentRequests = 0,
      bs_next = 0, bs_retries = 0, bs_pendingRecovery = [],
      bs_delay = (if Type (msg r) = Confirmable then 0 else nonDelay jitter c), bs_deadline = 0\<rparr>"

definition DoQBlock1 ::
  "('cm, 't) q_env \<Rightarrow> ('cm, 'x) q_exchange \<Rightarrow> QConfig \<Rightarrow> time \<Rightarrow> 'cm PMessage \<Rightarrow> SZX \<Rightarrow> int \<Rightarrow> (go_error + 'x) \<Rightarrow> (go_error + bytes) \<Rightarrow>
   (('cm, 'x) q1BodySender \<times> unit outcome) outcome" where
  "DoQBlock1 env x c now r szx maxBodySize opened newTag =
     (if \<not> qBodyMethod (code_of r) \<or> body r = None then Err (ErrOther ''Q-Block1 requires a request body'')
      else
        (case PM_BodySize r of
           (_, Inl err) \<Rightarrow> Err err
         | (r1, Inr bodySize) \<Rightarrow>
             if bodySize < 0 \<or> bodySize > maxBodySize \<or> bodySize > 2 ^ 32 - 1 then Err ErrQBlockTooLarge
             else
               and_then (of_sum (NewSender (body r1) szx bodySize)) (\<lambda>sender.
                 if qe_transport env = None then Err no_transport
                 else
                   and_then (of_sum opened) (\<lambda>xs.
                   and_then (case Options_GetBytes (opts_of r1) RequestTag of Inl _ \<Rightarrow> of_sum newTag | Inr tag \<Rightarrow> Ret tag) (\<lambda>tag.
                     Ret (bs_start env x c now (new_sender c (qe_jitter env) r1 sender xs tag bodySize szx)))))))"

text \<open>
  \<open>final\<close>: \<open>Ret (Inl resp)\<close> is the result, \<open>Ret (Inr (request, resp))\<close> is to be received by Q-Block2,
  starting with \<open>resp\<close>.
\<close>

definition bs_final ::
  "('cm, 't) q_env \<Rightarrow> 'cm PMessage \<Rightarrow> ('cm, 'x) q1BodySender \<Rightarrow> ('cm PMessage + 'cm PMessage \<times> 'cm PMessage) outcome" where
  "bs_final env resp s =
     (if code_of resp = codes_BadOption \<and> \<not> hasOption resp QBlock2 then Err ErrQBlockUnsupported
      else if \<not> hasOption resp QBlock2 then Ret (Inl (PM_SetToken (token_of (bs_request s)) resp))
      else
        and_then (of_opt (cloneMessage env (bs_request s))) (\<lambda>request0.
        and_then (of_opt (PM_SetOptionUint32 Size1 (bs_size s) request0)) (\<lambda>request1.
        and_then (of_sum (PM_SetRequestTag (bs_tag s) request1)) (\<lambda>request.
          Ret (Inr (request, resp))))))"

subsection \<open>Receiving a body\<close>

record ('cm, 'x) q2BodyReceiver =
  rc_req :: "'cm PMessage"
  rc_exchange :: 'x
  rc_szx :: SZX
  rc_maxSZX :: SZX
  rc_assembly :: "Assembly option"
  rc_etag :: bytes
  rc_continued :: int
  rc_partialExpires :: time
  rc_retries :: int
  rc_requestedSet :: int
  rc_retainedBytes :: int
  rc_sentRequests :: int
  rc_observeSequence :: u32
  rc_observePresent :: bool
  rc_observeTime :: "time option"
  rc_bodyType :: int
  rc_bodyTypeSet :: bool
  rc_terminal :: bool
  rc_representationCode :: u16

fun add_q2_options :: "SZX \<Rightarrow> bool \<Rightarrow> int list \<Rightarrow> 'cm PMessage \<Rightarrow> 'cm PMessage outcome" where
  "add_q2_options szx mor [] part = Ret part"
| "add_q2_options szx mor (num # nums) part =
     and_then (of_sum (EncodeQBlockOption szx num mor)) (\<lambda>value.
     and_then (of_opt (PM_AddOptionUint32 QBlock2 value part)) (\<lambda>part1. add_q2_options szx mor nums part1))"

definition rc_token :: "('cm, 'x) q_exchange \<Rightarrow> 'cm PMessage \<Rightarrow> ('cm, 'x) q2BodyReceiver \<Rightarrow> ('cm, 'x) q2BodyReceiver \<times> 'cm PMessage outcome" where
  "rc_token x part s =
     (if rc_sentRequests s > 0
      then (case x_NewToken x (rc_exchange s) of
              (xs, Inl err) \<Rightarrow> (s\<lparr>rc_exchange := xs\<rparr>, Err err)
            | (xs, Inr token) \<Rightarrow> (s\<lparr>rc_exchange := xs\<rparr>, Ret (PM_Remove Observe (PM_SetToken token part))))
      else (s, Ret part))"

definition rc_send ::
  "('cm, 't) q_env \<Rightarrow> ('cm, 'x) q_exchange \<Rightarrow> int list \<Rightarrow> bool \<Rightarrow> ('cm, 'x) q2BodyReceiver \<Rightarrow> ('cm, 'x) q2BodyReceiver \<times> unit outcome" where
  "rc_send env x nums mor s =
     (case cloneMessage env (rc_req s) of
        None \<Rightarrow> (s, Panic)
      | Some part0 \<Rightarrow>
          thn (rc_token x part0 s) (\<lambda>part1 s1.
            let s2 = s1\<lparr>rc_sentRequests := rc_sentRequests s1 + 1\<rparr>;
                part2 = PM_SetBody None (PM_Remove QBlock1 (PM_Remove ETag (PM_Remove QBlock2 part1)))
            in thn (s2, add_q2_options (rc_szx s2) mor nums part2) (\<lambda>part s3.
                 let (xs, err) = x_Send x part (rc_exchange s3) in (s3\<lparr>rc_exchange := xs\<rparr>, of_err err))))"

text \<open>The deadline \<open>receive\<close> gives to the exchange.\<close>

definition rc_deadline :: "QConfig \<Rightarrow> time \<Rightarrow> ('cm, 'x) q2BodyReceiver \<Rightarrow> time" where
  "rc_deadline c now s =
     (let deadline = now + int64 (NonReceiveTimeout c * 2 ^ nat (rc_retries s))
      in if rc_partialExpires s \<noteq> 0 \<and> rc_partialExpires s < deadline then rc_partialExpires s else deadline)"

definition rc_recover ::
  "('cm, 't) q_env \<Rightarrow> ('cm, 'x) q_exchange \<Rightarrow> QConfig \<Rightarrow> time \<Rightarrow> go_error option \<Rightarrow> go_error \<Rightarrow> ('cm, 'x) q2BodyReceiver \<Rightarrow> ('cm, 'x) q2BodyReceiver \<times> unit outcome" where
  "rc_recover env x c now ctxErr receiveErr s =
     (case ctxErr of
        Some err \<Rightarrow> (s, Err err)
      | None \<Rightarrow>
          if receiveErr = ErrCanceled then (s, Err receiveErr)
          else if rc_partialExpires s \<noteq> 0 \<and> \<not> rc_partialExpires s > now then (s, Err ErrQBlockIncomplete)
          else if rc_retries s \<ge> NonMaxRetransmit c then (s, Err receiveErr)
          else
            (let s1 = s\<lparr>rc_retries := rc_retries s + 1\<rparr> in
             case rc_assembly s1 of
               None \<Rightarrow> rc_send env x [0] True s1
             | Some a \<Rightarrow>
                 (let nums = qMissingSet (missingSet (MaxPayloads c) a) (MaxPayloads c) in
                  case nums of
                    [] \<Rightarrow> (s1, Err ErrQBlockIncomplete)
                  | num # _ \<Rightarrow> rc_send env x nums False (s1\<lparr>rc_requestedSet := num div MaxPayloads c\<rparr>))))"

definition newRepresentation ::
  "QConfig \<Rightarrow> time \<Rightarrow> 'cm PMessage \<Rightarrow> SZX \<Rightarrow> u32 \<Rightarrow> bytes \<Rightarrow> ('cm, 'x) q2BodyReceiver \<Rightarrow> ('cm, 'x) q2BodyReceiver \<times> unit outcome" where
  "newRepresentation c now resp szx bodySize etag s =
     (case NewAssembly szx (uint bodySize) q1DefaultMaxBodySize q1MaxTrackedBlocks of
        Inl err \<Rightarrow> (s, Err err)
      | Inr a \<Rightarrow>
          (let s1 = s\<lparr>rc_szx := szx, rc_assembly := Some a, rc_etag := etag, rc_bodyTypeSet := False, rc_observePresent := False,
                      rc_representationCode := code_of resp\<rparr>;
               (sq, sequenceErr) = Options_Observe (opts_of resp);
               s2 = (if sequenceErr = None
                     then s1\<lparr>rc_observeSequence := sq, rc_observePresent := True, rc_observeTime := Some now\<rparr> else s1);
               (age, ageErr) = getUint32 resp MaxAge;
               maxAge = (if ageErr \<noteq> None then 60 else age);
               partialLifetime = (if maxAge = 0 then NonPartialTimeout c else int64 (uint maxAge * second))
           in (s2\<lparr>rc_partialExpires := now + min (NonPartialTimeout c) partialLifetime\<rparr>, Ret ())))"

definition q2RepresentationIdentity :: "'cm PMessage \<Rightarrow> go_error + u32 \<times> bytes" where
  "q2RepresentationIdentity resp =
     (case (getUint32 resp Size2, Options_GetBytes (opts_of resp) ETag) of
        ((bodySize, None), Inr etag) \<Rightarrow> if length etag = 0 \<or> length etag > 8 then Inl ErrInvalidOptionBlock2 else Inr (bodySize, etag)
      | _ \<Rightarrow> Inl ErrInvalidOptionBlock2)"

definition representationChanged :: "u16 \<Rightarrow> u32 \<Rightarrow> bytes \<Rightarrow> ('cm, 'x) q2BodyReceiver \<Rightarrow> bool" where
  "representationChanged code bodySize etag s =
     (case rc_assembly s of
        None \<Rightarrow> False
      | Some a \<Rightarrow> rc_etag s \<noteq> etag \<or> uint bodySize \<noteq> as_bodySize a \<or> code \<noteq> rc_representationCode s)"

definition q2StartsRepresentation :: "'cm PMessage \<Rightarrow> bool" where
  "q2StartsRepresentation resp =
     (if \<not> hasOption resp QBlock2 then True
      else
        (let (value, err) = getUint32 resp QBlock2 in
         if err \<noteq> None then False
         else (case DecodeQBlockOption value of Inl _ \<Rightarrow> False | Inr (_, num, _) \<Rightarrow> num = 0)))"

definition registrationTerminal :: "'cm PMessage \<Rightarrow> ('cm, 'x) q2BodyReceiver \<Rightarrow> bool" where
  "registrationTerminal resp s \<longleftrightarrow>
     Options_Observe (opts_of (rc_req s)) = (0, None) \<and> \<not> hasOption resp Observe
     \<and> token_of resp = token_of (rc_req s) \<and> code_of resp \<ge> codes_Created \<and> q2StartsRepresentation resp"

definition skipAfterTerminal :: "'cm PMessage \<Rightarrow> bool \<Rightarrow> ('cm, 'x) q2BodyReceiver \<Rightarrow> bool" where
  "skipAfterTerminal resp changed s \<longleftrightarrow>
     rc_terminal s \<and> (hasOption resp Observe \<or> changed \<and> \<not> registrationTerminal resp s)"

definition isNewerSequence :: "time \<Rightarrow> u32 \<Rightarrow> go_error option \<Rightarrow> ('cm, 'x) q2BodyReceiver \<Rightarrow> bool" where
  "isNewerSequence now sq err s \<longleftrightarrow>
     rc_observePresent s \<and> err = None \<and> sq \<noteq> rc_observeSequence s
     \<and> ValidSequenceNumber (rc_observeSequence s) sq (rc_observeTime s) now"


text \<open>An operation on the receiver alone.\<close>

definition on_receiver ::
  "('r \<Rightarrow> 'r \<times> 'a outcome) \<Rightarrow> 'r \<times> 'b \<Rightarrow> ('r \<times> 'b) \<times> 'a outcome" where
  "on_receiver f = (\<lambda>(s, b). let (s1, res) = f s in ((s1, b), res))"

text \<open>
  \<open>representation\<close>: whether the response is to be skipped.  When the representation has changed, what was
  retained of the old one is released.
\<close>

definition rc_changed :: "('cm, 'x) q2BodyReceiver \<times> ('cm, 't) Engine \<Rightarrow> ('cm, 'x) q2BodyReceiver \<times> ('cm, 't) Engine" where
  "rc_changed = (\<lambda>(s, b).
     (s\<lparr>rc_retainedBytes := 0, rc_assembly := None, rc_continued := 0, rc_retries := 0, rc_requestedSet := -1\<rparr>,
      qReleaseBytes (rc_retainedBytes s) b))"

definition rc_same ::
  "QConfig \<Rightarrow> time \<Rightarrow> 'cm PMessage \<Rightarrow> SZX \<Rightarrow> u32 \<Rightarrow> bytes \<Rightarrow> bool \<Rightarrow> bool \<Rightarrow> ('cm, 'x) q2BodyReceiver \<Rightarrow> ('cm, 'x) q2BodyReceiver \<times> bool outcome" where
  "rc_same c now resp szx bodySize etag changed terminal s =
     (if rc_assembly s = None
      then thn (newRepresentation c now resp szx bodySize etag (s\<lparr>rc_terminal := terminal\<rparr>)) (\<lambda>_ s1. (s1, Ret False))
      else if changed \<or> szx \<noteq> rc_szx s then (s, Err ErrQBlockConflict)
      else
        (let (sq, sequenceErr) = Options_Observe (opts_of resp);
             s1 = (if terminal then s\<lparr>rc_terminal := True, rc_observePresent := False\<rparr> else s);
             s2 = (if isNewerSequence now sq sequenceErr s1 then s1\<lparr>rc_observeSequence := sq, rc_observeTime := Some now\<rparr> else s1)
         in (s2, Ret False)))"

definition representation ::
  "QConfig \<Rightarrow> time \<Rightarrow> 'cm PMessage \<Rightarrow> SZX \<Rightarrow> ('cm, 'x) q2BodyReceiver \<times> ('cm, 't) Engine \<Rightarrow>
   (('cm, 'x) q2BodyReceiver \<times> ('cm, 't) Engine) \<times> bool outcome" where
  "representation c now resp szx = (\<lambda>(s, b).
     case q2RepresentationIdentity resp of
       Inl err \<Rightarrow> ((s, b), Err err)
     | Inr (bodySize, etag) \<Rightarrow>
         (let (sq, sequenceErr) = Options_Observe (opts_of resp);
              changed = representationChanged (code_of resp) bodySize etag s
          in if skipAfterTerminal resp changed s then ((s, b), Ret True)
             else
               (let terminal = registrationTerminal resp s;
                    newer = (sequenceErr = None \<and> ValidSequenceNumber (rc_observeSequence s) sq (rc_observeTime s) now)
                in if changed \<and> rc_observePresent s \<and> \<not> newer \<and> \<not> terminal then ((s, b), Ret True)
                   else
                     on_receiver (rc_same c now resp szx bodySize etag changed terminal)
                       (if changed \<and> rc_observePresent s then rc_changed (s, b) else (s, b)))))"

definition rc_add ::
  "'cm PMessage \<Rightarrow> int \<Rightarrow> bool \<Rightarrow> ('cm, 'x) q2BodyReceiver \<times> ('cm, 't) Engine \<Rightarrow>
   (('cm, 'x) q2BodyReceiver \<times> ('cm, 't) Engine) \<times> (bool \<times> bool) outcome" where
  "rc_add resp num mor = (\<lambda>(s, b).
     case readQBody resp of
       Inl err \<Rightarrow> ((s, b), Err err)
     | Inr payload \<Rightarrow>
         (let (b1, ok) = qReserveBytes (int (length payload)) b in
          if \<not> ok then ((s, b1), Err ErrQBlockTooLarge)
          else
            (case rc_assembly s of
               None \<Rightarrow> ((s, b1), Panic)
             | Some a \<Rightarrow>
                 (case Assembly_Add num mor payload a of
                    (a1, Inl err) \<Rightarrow> ((s\<lparr>rc_assembly := Some a1\<rparr>, qReleaseBytes (int (length payload)) b1), Err err)
                  | (a1, Inr (allThere, duplicate)) \<Rightarrow>
                      if duplicate then ((s\<lparr>rc_assembly := Some a1\<rparr>, qReleaseBytes (int (length payload)) b1), Ret (allThere, duplicate))
                      else ((s\<lparr>rc_assembly := Some a1, rc_retainedBytes := rc_retainedBytes s + int (length payload)\<rparr>, b1),
                            Ret (allThere, duplicate))))))"

definition rc_advance ::
  "('cm, 't) q_env \<Rightarrow> ('cm, 'x) q_exchange \<Rightarrow> QConfig \<Rightarrow> int \<Rightarrow> ('cm, 'x) q2BodyReceiver \<Rightarrow> ('cm, 'x) q2BodyReceiver \<times> unit outcome" where
  "rc_advance env x c num s =
     (case rc_assembly s of
        None \<Rightarrow> (s, Panic)
      | Some a \<Rightarrow>
          (let nxt = fst (FirstMissing a);
               resume = (rc_requestedSet s \<ge> 0 \<and> nxt div MaxPayloads c > rc_requestedSet s);
               s1 = (if resume then s\<lparr>rc_requestedSet := -1, rc_retries := 0\<rparr> else s)
           in if (Type (msg (rc_req s1)) = NonConfirmable \<or> resume) \<and> nxt mod MaxPayloads c = 0 \<and> nxt > rc_continued s1
              then rc_send env x [nxt] True (s1\<lparr>rc_continued := nxt\<rparr>)
              else if num div MaxPayloads c > nxt div MaxPayloads c \<and> rc_requestedSet s1 \<noteq> nxt div MaxPayloads c
              then rc_send env x (qMissingSet (missingSet (MaxPayloads c) a) (MaxPayloads c)) False (s1\<lparr>rc_requestedSet := nxt div MaxPayloads c\<rparr>)
              else (s1, Ret ())))"

definition acceptBodyType :: "'cm PMessage \<Rightarrow> ('cm, 'x) q2BodyReceiver \<Rightarrow> ('cm, 'x) q2BodyReceiver \<times> unit outcome" where
  "acceptBodyType resp s =
     (let mode = (if Type (msg resp) = Acknowledgement then Confirmable else Type (msg resp))
      in if mode \<noteq> Confirmable \<and> mode \<noteq> NonConfirmable \<or> rc_bodyTypeSet s \<and> mode \<noteq> rc_bodyType s then (s, Err ErrInvalidOptionBlock2)
         else (s\<lparr>rc_bodyType := mode, rc_bodyTypeSet := True, rc_req := PM_SetType mode (rc_req s)\<rparr>, Ret ()))"

definition validQ2Response :: "'cm PMessage \<Rightarrow> bool" where
  "validQ2Response resp \<longleftrightarrow>
     \<not> hasOption resp Block1 \<and> \<not> hasOption resp Block2 \<and> optionCount resp QBlock2 = 1
     \<and> optionCount resp Size2 = 1 \<and> optionCount resp ETag = 1"

definition rc_accept ::
  "('cm, 't) q_env \<Rightarrow> ('cm, 'x) q_exchange \<Rightarrow> QConfig \<Rightarrow> time \<Rightarrow> 'cm PMessage \<Rightarrow> ('cm, 'x) q2BodyReceiver \<times> ('cm, 't) Engine \<Rightarrow>
   (('cm, 'x) q2BodyReceiver \<times> ('cm, 't) Engine) \<times> bool outcome" where
  "rc_accept env x c now resp s =
     (if Options_Observe (opts_of (rc_req (fst s))) = (1, None) \<and> hasOption resp Observe then (s, Ret False)
      else if \<not> validQ2Response resp then (s, Err ErrInvalidOptionBlock2)
      else
        (case (getUint32 resp QBlock2, DecodeQBlockOption (fst (getUint32 resp QBlock2))) of
           ((_, None), Inr (szx, num, mor)) \<Rightarrow>
             if szx > rc_maxSZX (fst s) then (s, Err ErrInvalidOptionBlock2)
             else
               thn (representation c now resp szx s) (\<lambda>skip s1.
                 if skip then (s1, Ret False)
                 else
                   thn (on_receiver (acceptBodyType resp) s1) (\<lambda>_ s2.
                   thn (rc_add resp num mor s2) (\<lambda>(allThere, duplicate) s3.
                     if allThere \<or> duplicate then (s3, Ret allThere)
                     else thn (on_receiver (rc_advance env x c num) s3) (\<lambda>_ s4. (s4, Ret False)))))
         | _ \<Rightarrow> (s, Err ErrInvalidOptionBlock2)))"

definition rc_finish :: "'cm PMessage \<Rightarrow> ('cm, 'x) q2BodyReceiver \<Rightarrow> 'cm PMessage outcome" where
  "rc_finish resp s =
     (case rc_assembly s of
        None \<Rightarrow> Panic
      | Some a \<Rightarrow>
          and_then (of_sum (ReadSeeker a)) (\<lambda>rd.
          and_then (of_opt (sparse_body rd)) (\<lambda>bdy.
            let resp1 = PM_SetToken (token_of (rc_req s)) (PM_SetBody (Some bdy) (PM_Remove Size2 (PM_Remove QBlock2 resp)))
            in if rc_observePresent s then of_opt (PM_SetObserve (rc_observeSequence s) resp1) else Ret resp1)))"

definition rc_unblocked :: "'cm PMessage \<Rightarrow> ('cm, 'x) q2BodyReceiver \<Rightarrow> 'cm PMessage outcome" where
  "rc_unblocked resp s =
     (if registrationTerminal resp s \<or> code_of resp \<ge> codes_BadRequest \<and> code_of resp \<noteq> codes_BadOption
      then Ret (PM_SetToken (token_of (rc_req s)) resp)
      else if rc_assembly s = None then Err ErrQBlockUnsupported
      else Err ErrInvalidOptionBlock2)"

text \<open>What happens in \<open>ReceiveQBlock2\<close> when it returns: the reservations are given back.\<close>

definition rc_close :: "('cm, 'x) q2BodyReceiver \<Rightarrow> ('cm, 't) Engine \<Rightarrow> ('cm, 't) Engine" where
  "rc_close s b = qReleaseBytes (rc_retainedBytes s) (qReleaseTransfer b)"

text \<open>A turn of the loop with a response; \<open>Inr res\<close> when \<open>ReceiveQBlock2\<close> returns \<open>res\<close>.\<close>

definition rc_response ::
  "('cm, 't) q_env \<Rightarrow> ('cm, 'x) q_exchange \<Rightarrow> QConfig \<Rightarrow> time \<Rightarrow> 'cm PMessage \<Rightarrow> ('cm, 'x) q2BodyReceiver \<times> ('cm, 't) Engine \<Rightarrow>
   (('cm, 'x) q2BodyReceiver + 'cm PMessage outcome) \<times> ('cm, 't) Engine" where
  "rc_response env x c now resp s =
     (if \<not> hasOption resp QBlock2 then (Inr (rc_unblocked resp (fst s)), rc_close (fst s) (snd s))
      else
        (case rc_accept env x c now resp s of
           ((s1, b1), Panic) \<Rightarrow> (Inr Panic, rc_close s1 b1)
         | ((s1, b1), Err err) \<Rightarrow> (Inr (Err err), rc_close s1 b1)
         | ((s1, b1), Ret True) \<Rightarrow> (Inr (rc_finish resp s1), rc_close s1 b1)
         | ((s1, b1), Ret False) \<Rightarrow> (Inl s1, b1)))"

definition rc_turn ::
  "('cm, 't) q_env \<Rightarrow> ('cm, 'x) q_exchange \<Rightarrow> QConfig \<Rightarrow> 'cm q_event \<Rightarrow> ('cm, 'x) q2BodyReceiver \<times> ('cm, 't) Engine \<Rightarrow>
   (('cm, 'x) q2BodyReceiver + 'cm PMessage outcome) \<times> ('cm, 't) Engine" where
  "rc_turn env x c ev s =
     (case ev_result ev of
        Inr resp \<Rightarrow> rc_response env x c (ev_now ev) resp s
      | Inl receiveErr \<Rightarrow>
          (case rc_recover env x c (ev_now ev) (ev_ctx ev) receiveErr (fst s) of
             (s1, Ret _) \<Rightarrow> (Inl s1, snd s)
           | (s1, Err err) \<Rightarrow> (Inr (Err err), rc_close s1 (snd s))
           | (s1, Panic) \<Rightarrow> (Inr Panic, rc_close s1 (snd s))))"

definition new_receiver :: "'cm PMessage \<Rightarrow> SZX \<Rightarrow> 'x \<Rightarrow> ('cm, 'x) q2BodyReceiver" where
  "new_receiver req szx xs =
     \<lparr>rc_req = req, rc_exchange = xs, rc_szx = szx, rc_maxSZX = szx, rc_assembly = None, rc_etag = [], rc_continued = 0,
      rc_partialExpires = 0, rc_retries = 0, rc_requestedSet = -1, rc_retainedBytes = 0, rc_sentRequests = 0,
      rc_observeSequence = 0, rc_observePresent = False, rc_observeTime = None, rc_bodyType = 0, rc_bodyTypeSet = False,
      rc_terminal = False, rc_representationCode = 0\<rparr>"

text \<open>\<open>ReceiveQBlock2\<close> up to the first \<open>Receive\<close>.\<close>

definition ReceiveQBlock2 ::
  "('cm, 't) q_env \<Rightarrow> ('cm, 'x) q_exchange \<Rightarrow> QConfig \<Rightarrow> time \<Rightarrow> 'cm PMessage \<Rightarrow> SZX \<Rightarrow> 'x \<Rightarrow> 'cm PMessage option \<Rightarrow> ('cm, 't) Engine \<Rightarrow>
   (('cm, 'x) q2BodyReceiver + 'cm PMessage outcome) \<times> ('cm, 't) Engine" where
  "ReceiveQBlock2 env x c now req szx xs initial b =
     (let (b1, ok) = qReserveTransfer b in
      if \<not> ok then (Inr (Err ErrQBlockTooLarge), b1)
      else
        (let s = new_receiver req szx xs in
         case initial of
           Some resp \<Rightarrow> rc_response env x c now resp (s\<lparr>rc_sentRequests := 1\<rparr>, b1)
         | None \<Rightarrow>
             (case rc_send env x [0] True s of
                (s1, Ret _) \<Rightarrow> (Inl s1, b1)
              | (s1, Err err) \<Rightarrow> (Inr (Err err), rc_close s1 b1)
              | (s1, Panic) \<Rightarrow> (Inr Panic, rc_close s1 b1))))"

definition DoQBlock2 ::
  "('cm, 't) q_env \<Rightarrow> ('cm, 'x) q_exchange \<Rightarrow> QConfig \<Rightarrow> time \<Rightarrow> 'cm PMessage \<Rightarrow> SZX \<Rightarrow> (go_error + 'x) \<Rightarrow> (go_error + bytes) \<Rightarrow> ('cm, 't) Engine \<Rightarrow>
   (('cm, 'x) q2BodyReceiver + 'cm PMessage outcome) \<times> ('cm, 't) Engine" where
  "DoQBlock2 env x c now req szx opened newTag b =
     (if qe_transport env = None then (Inr (Err no_transport), b)
      else
        (case opened of
           Inl err \<Rightarrow> (Inr (Err err), b)
         | Inr xs \<Rightarrow>
             (case (if hasOption req RequestTag then Ret req
                    else
                      and_then (of_opt (cloneMessage env req)) (\<lambda>request.
                      and_then (of_sum newTag) (\<lambda>tag. of_sum (PM_SetRequestTag tag request)))) of
                Panic \<Rightarrow> (Inr Panic, b)
              | Err err \<Rightarrow> (Inr (Err err), b)
              | Ret req1 \<Rightarrow> ReceiveQBlock2 env x c now req1 szx xs None b)))"

end
