(* ===== verification/Qblock_Process.thy ===== *)
theory Qblock_Process
  imports Qblock_Budget Qblock_Client Goroutines
begin

text \<open>
  All Q-Block engines of a process together: the operations of one engine in any order, the engines of many
  connections interleaved operation by operation, and the counters of \<open>budget.go\<close> they share.

  An operation is one step here: two messages that one connection handles at the same time are not interleaved
  at the locks within their handlers.
\<close>

subsection \<open>Expiration\<close>

definition live1 :: "time \<Rightarrow> ('cm, 't) Engine \<Rightarrow> nat \<Rightarrow> bool" where
  "live1 now b i \<longleftrightarrow> t1_expires (e_q1Heap b ! i) > now"

definition live2 :: "time \<Rightarrow> ('cm, 't) Engine \<Rightarrow> nat \<Rightarrow> bool" where
  "live2 now b i \<longleftrightarrow> t2_expires (e_q2Heap b ! i) > now"

lemma expire_q1:
  assumes "q_ok ob ot cb ct b" "distinct (map fst l)" "\<forall>(key, i) \<in> set l. map_of (e_q1Receivers b) key = Some i"
    "b' = fold (\<lambda>(key, i) b. if \<not> t1_expires (e_q1Heap b ! i) > now then drop_q1 key i b else b) l b"
  shows "q_ok ob ot cb ct b' \<and> e_q1Heap b' = e_q1Heap b \<and> e_q2Heap b' = e_q2Heap b \<and> e_q2Senders b' = e_q2Senders b
    \<and> e_q1Receivers b' = filter (\<lambda>(key, i). (key, i) \<in> set l \<longrightarrow> live1 now b i) (e_q1Receivers b)"
  using assms
proof (induction l arbitrary: b)
  case Nil
  then show ?case by (simp add: case_prod_beta)
next
  case (Cons x l)
  obtain key i where x: "x = (key, i)" by (rule prod.exhaust)
  define b1 where "b1 = (if \<not> t1_expires (e_q1Heap b ! i) > now then drop_q1 key i b else b)"
  have here: "map_of (e_q1Receivers b) key = Some i" using Cons.prems(3) x by simp
  have ok: "q_ok ob ot cb ct b1" using Cons.prems(1) here by (simp add: b1_def drop_q1_ok)
  have rest: "\<forall>(k, j) \<in> set l. map_of (e_q1Receivers b1) k = Some j"
    using Cons.prems(2,3) x by (force simp: b1_def AList.delete_conv')
  have fr: "e_q1Heap b1 = e_q1Heap b" "e_q2Heap b1 = e_q2Heap b" "e_q2Senders b1 = e_q2Senders b" by (simp_all add: b1_def drop_q1_def Let_def qReleaseTransfer_def qReleaseBytes_def)
  have d: "distinct (map fst (e_q1Receivers b))" using Cons.prems(1) by (simp add: q_ok_def q1_table_def)
  have u: "(k, j) \<in> set (e_q1Receivers b) \<Longrightarrow> k = key \<Longrightarrow> j = i" for k j
    using here d by (metis map_of_is_SomeI option.inject)
  have nl: "(key, j) \<notin> set l" for j using Cons.prems(2) x by force
  have r: "e_q1Receivers b1 = filter (\<lambda>(k, j). k = key \<longrightarrow> live1 now b i) (e_q1Receivers b)"
  proof (cases "live1 now b i")
    case True
    then show ?thesis by (simp add: b1_def live1_def case_prod_beta)
  next
    case False
    then show ?thesis by (auto simp: b1_def live1_def AList.delete_eq intro!: filter_cong)
  qed
  have l1: "live1 now b1 = live1 now b" by (simp add: live1_def fr fun_eq_iff)
  have "e_q1Receivers b' = filter (\<lambda>(k, j). (k, j) \<in> set l \<longrightarrow> live1 now b j) (filter (\<lambda>(k, j). k = key \<longrightarrow> live1 now b i) (e_q1Receivers b))"
    using Cons.IH [OF ok _ rest] Cons.prems(2,4) x b1_def r l1 by simp
  also have "\<dots> = filter (\<lambda>(k, j). (k, j) \<in> set (x # l) \<longrightarrow> live1 now b j) (e_q1Receivers b)"
    unfolding filter_filter using u nl x by (intro filter_cong) auto
  finally show ?case using Cons.IH [OF ok _ rest] Cons.prems(2,4) x b1_def fr by simp
qed

lemma expire_q2:
  assumes "q_ok ob ot cb ct b" "distinct (map fst l)" "\<forall>(key, i) \<in> set l. map_of (e_q2Senders b) key = Some i"
    "b' = fold (\<lambda>(key, i) b. if \<not> t2_expires (e_q2Heap b ! i) > now then drop_q2 key i b else b) l b"
  shows "q_ok ob ot cb ct b' \<and> e_q1Heap b' = e_q1Heap b \<and> e_q2Heap b' = e_q2Heap b \<and> e_q1Receivers b' = e_q1Receivers b
    \<and> e_q2Senders b' = filter (\<lambda>(key, i). (key, i) \<in> set l \<longrightarrow> live2 now b i) (e_q2Senders b)"
  using assms
proof (induction l arbitrary: b)
  case Nil
  then show ?case by (simp add: case_prod_beta)
next
  case (Cons x l)
  obtain key i where x: "x = (key, i)" by (rule prod.exhaust)
  define b1 where "b1 = (if \<not> t2_expires (e_q2Heap b ! i) > now then drop_q2 key i b else b)"
  have here: "map_of (e_q2Senders b) key = Some i" using Cons.prems(3) x by simp
  have ok: "q_ok ob ot cb ct b1" using Cons.prems(1) here by (simp add: b1_def drop_q2_ok)
  have rest: "\<forall>(k, j) \<in> set l. map_of (e_q2Senders b1) k = Some j"
    using Cons.prems(2,3) x by (force simp: b1_def AList.delete_conv')
  have fr: "e_q1Heap b1 = e_q1Heap b" "e_q2Heap b1 = e_q2Heap b" "e_q1Receivers b1 = e_q1Receivers b" by (simp_all add: b1_def drop_q2_def Let_def qReleaseTransfer_def qReleaseBytes_def)
  have d: "distinct (map fst (e_q2Senders b))" using Cons.prems(1) by (simp add: q_ok_def q2_table_def)
  have u: "(k, j) \<in> set (e_q2Senders b) \<Longrightarrow> k = key \<Longrightarrow> j = i" for k j
    using here d by (metis map_of_is_SomeI option.inject)
  have nl: "(key, j) \<notin> set l" for j using Cons.prems(2) x by force
  have r: "e_q2Senders b1 = filter (\<lambda>(k, j). k = key \<longrightarrow> live2 now b i) (e_q2Senders b)"
  proof (cases "live2 now b i")
    case True
    then show ?thesis by (simp add: b1_def live2_def case_prod_beta)
  next
    case False
    then show ?thesis by (auto simp: b1_def live2_def AList.delete_eq intro!: filter_cong)
  qed
  have l1: "live2 now b1 = live2 now b" by (simp add: live2_def fr fun_eq_iff)
  have "e_q2Senders b' = filter (\<lambda>(k, j). (k, j) \<in> set l \<longrightarrow> live2 now b j) (filter (\<lambda>(k, j). k = key \<longrightarrow> live2 now b i) (e_q2Senders b))"
    using Cons.IH [OF ok _ rest] Cons.prems(2,4) x b1_def r l1 by simp
  also have "\<dots> = filter (\<lambda>(k, j). (k, j) \<in> set (x # l) \<longrightarrow> live2 now b j) (e_q2Senders b)"
    unfolding filter_filter using u nl x by (intro filter_cong) auto
  finally show ?case using Cons.IH [OF ok _ rest] Cons.prems(2,4) x b1_def fr by simp
qed

lemma table_lookup: "distinct (map fst m) \<Longrightarrow> \<forall>(key, i) \<in> set m. map_of m key = Some i"
  by auto

text \<open>Exactly the transfers that have not expired are left.\<close>

lemma CheckExpirations_exact:
  assumes "q_ok ob ot cb ct b"
  shows "q_ok ob ot cb ct (q_CheckExpirations now b)"
    "e_q1Receivers (q_CheckExpirations now b) = filter (\<lambda>(_, i). live1 now b i) (e_q1Receivers b)"
    "e_q2Senders (q_CheckExpirations now b) = filter (\<lambda>(_, i). live2 now b i) (e_q2Senders b)"
proof -
  define b1 where "b1 = fold (\<lambda>(key, i) b. if \<not> t1_expires (e_q1Heap b ! i) > now then drop_q1 key i b else b) (e_q1Receivers b) b"
  have d: "distinct (map fst (e_q1Receivers b))" "distinct (map fst (e_q2Senders b))" using assms by (simp_all add: q_ok_def q1_table_def q2_table_def)
  note one = expire_q1 [OF assms d(1) table_lookup [OF d(1)] b1_def]
  have e: "q_CheckExpirations now b = fold (\<lambda>(key, i) b. if \<not> t2_expires (e_q2Heap b ! i) > now then drop_q2 key i b else b) (e_q2Senders b1) b1"
    by (simp add: q_CheckExpirations_def Let_def b1_def)
  have d1: "distinct (map fst (e_q2Senders b1))" using one d(2) by simp
  note two = expire_q2 [OF conjunct1 [OF one] d1 table_lookup [OF d1] e]
  have l2: "live2 now b1 = live2 now b" using one by (simp add: live2_def fun_eq_iff)
  show "q_ok ob ot cb ct (q_CheckExpirations now b)" using two by blast
  show "e_q1Receivers (q_CheckExpirations now b) = filter (\<lambda>(_, i). live1 now b i) (e_q1Receivers b)"
    using one two by (auto intro!: filter_cong)
  show "e_q2Senders (q_CheckExpirations now b) = filter (\<lambda>(_, i). live2 now b i) (e_q2Senders b)"
    using one two l2 by (auto intro!: filter_cong)
qed

subsection \<open>Closing\<close>

lemma delete_all: "fold (\<lambda>(key, _). AList.delete key) l m = filter (\<lambda>e. fst e \<notin> fst ` set l) m"
proof (induction l arbitrary: m)
  case (Cons x l)
  obtain key i where x: "x = (key, i)" by (rule prod.exhaust)
  show ?case unfolding x fold_simps prod.case Cons.IH by (auto simp: AList.delete_eq case_prod_beta intro: filter_cong)
qed simp

lemma delete_itself: "fold (\<lambda>(key, _). AList.delete key) m m = []"
  by (auto simp: delete_all filter_empty_conv)

lemma close_q1:
  "fold (\<lambda>(key, i) b. qReleaseTransfer (qReleaseBytes (t1_bytes (e_q1Heap b ! i)) (b\<lparr>e_q1Receivers := AList.delete key (e_q1Receivers b)\<rparr>))) l b =
     b\<lparr>e_q1Receivers := fold (\<lambda>(key, _). AList.delete key) l (e_q1Receivers b),
       e_retainedBytes := e_retainedBytes b - (\<Sum>i \<leftarrow> map snd l. t1_bytes (e_q1Heap b ! i)),
       e_processBytes := e_processBytes b - (\<Sum>i \<leftarrow> map snd l. t1_bytes (e_q1Heap b ! i)),
       e_retainedTransfers := e_retainedTransfers b - int (length l), e_processTransfers := e_processTransfers b - int (length l)\<rparr>"
proof (induction l arbitrary: b)
  case Nil
  then show ?case by simp
next
  case (Cons x l)
  obtain key i where x: "x = (key, i)" by (rule prod.exhaust)
  show ?case unfolding x fold_simps prod.case Cons.IH
    by (cases b) (simp add: qReleaseTransfer_def qReleaseBytes_def algebra_simps)
qed

lemma close_q2:
  "fold (\<lambda>(key, i) b. qReleaseTransfer (qReleaseBytes (t2_size (e_q2Heap b ! i)) (b\<lparr>e_q2Senders := AList.delete key (e_q2Senders b)\<rparr>))) l b =
     b\<lparr>e_q2Senders := fold (\<lambda>(key, _). AList.delete key) l (e_q2Senders b),
       e_retainedBytes := e_retainedBytes b - (\<Sum>i \<leftarrow> map snd l. t2_size (e_q2Heap b ! i)),
       e_processBytes := e_processBytes b - (\<Sum>i \<leftarrow> map snd l. t2_size (e_q2Heap b ! i)),
       e_retainedTransfers := e_retainedTransfers b - int (length l), e_processTransfers := e_processTransfers b - int (length l)\<rparr>"
proof (induction l arbitrary: b)
  case Nil
  then show ?case by simp
next
  case (Cons x l)
  obtain key i where x: "x = (key, i)" by (rule prod.exhaust)
  show ?case unfolding x fold_simps prod.case Cons.IH
    by (cases b) (simp add: qReleaseTransfer_def qReleaseBytes_def algebra_simps)
qed

lemma close_obs:
  "fold (\<lambda>(key, _) b. qReleaseTransfer b\<lparr>e_qObservations := AList.delete key (e_qObservations b)\<rparr>) l b =
     b\<lparr>e_qObservations := fold (\<lambda>(key, _). AList.delete key) l (e_qObservations b),
       e_retainedTransfers := e_retainedTransfers b - int (length l), e_processTransfers := e_processTransfers b - int (length l)\<rparr>"
proof (induction l arbitrary: b)
  case Nil
  then show ?case by simp
next
  case (Cons x l)
  obtain key i where x: "x = (key, i)" by (rule prod.exhaust)
  show ?case unfolding x fold_simps prod.case Cons.IH by (cases b) (simp add: qReleaseTransfer_def algebra_simps)
qed

text \<open>Closing gives back exactly what the tables held.\<close>

lemma Close_exact:
  assumes "q_ok ob ot cb ct b"
  shows "q_ok ob ot cb ct (CloseQBlockTransfers b)" "e_q1Closed (CloseQBlockTransfers b)" "e_q2Closed (CloseQBlockTransfers b)"
proof -
  have t: "e_q1ReceiveBytes b = (\<Sum>i \<leftarrow> map snd (e_q1Receivers b). t1_bytes (e_q1Heap b ! i))"
    "e_q2SendBytes b = (\<Sum>i \<leftarrow> map snd (e_q2Senders b). t2_size (e_q2Heap b ! i))" "accounts ob ot cb ct b"
    "0 \<le> e_q1ReceiveBytes b" "0 \<le> e_q2SendBytes b"
    using assms by (auto simp: q_ok_def q1_table_def q2_table_def q1_sum_def q2_sum_def intro!: sum_list_nonneg)
  show "q_ok ob ot cb ct (CloseQBlockTransfers b)"
    unfolding CloseQBlockTransfers_def Let_def close_q1 close_q2 close_obs
    using t by (simp add: q_ok_def q_defs delete_itself flip: t(1,2))
  show "e_q1Closed (CloseQBlockTransfers b)" "e_q2Closed (CloseQBlockTransfers b)"
    unfolding CloseQBlockTransfers_def Let_def close_q1 close_q2 close_obs by simp_all
qed

subsection \<open>Bodies a client receives\<close>

text \<open>What a receiver has reserved is in its own account.\<close>

definition rc_ok :: "int \<Rightarrow> int \<Rightarrow> int \<Rightarrow> int \<Rightarrow> ('cm, 'x) q2BodyReceiver \<times> ('cm, 't) Engine \<Rightarrow> bool" where
  "rc_ok ob ot cb ct = (\<lambda>(s, b). 0 \<le> rc_retainedBytes s \<and> q_ok ob ot (cb + rc_retainedBytes s) (ct + 1) b)"

lemma rc_close_ok: "rc_ok ob ot cb ct (s, b) \<Longrightarrow> q_ok ob ot cb ct (rc_close s b)"
  unfolding rc_close_def rc_ok_def by (auto intro!: release_bytes release_transfer)

lemma rc_frame:
  assumes "rc_ok ob ot cb ct (s, b)" "rc_retainedBytes s' = rc_retainedBytes s"
  shows "rc_ok ob ot cb ct (s', b)"
  using assms by (simp add: rc_ok_def)

lemma rc_send_frame: "rc_retainedBytes (fst (rc_send env x nums mor s)) = rc_retainedBytes s"
  by (auto simp: rc_send_def rc_token_def thn_def Let_def split: option.split outcome.split prod.split sum.split)

lemma rc_recover_frame: "rc_retainedBytes (fst (rc_recover env x c now ctxErr err s)) = rc_retainedBytes s"
  by (auto simp: rc_recover_def Let_def rc_send_frame split: option.split list.split)

lemma rc_advance_frame: "rc_retainedBytes (fst (rc_advance env x c num s)) = rc_retainedBytes s"
  by (simp add: rc_advance_def Let_def rc_send_frame split: option.split)

lemma acceptBodyType_frame: "rc_retainedBytes (fst (acceptBodyType resp s)) = rc_retainedBytes s"
  by (auto simp: acceptBodyType_def Let_def)

lemma newRepresentation_frame: "rc_retainedBytes (fst (newRepresentation c now resp szx n etag s)) = rc_retainedBytes s"
  by (simp add: newRepresentation_def Let_def case_prod_beta split: sum.split)

lemma rc_same_frame: "rc_retainedBytes (fst (rc_same c now resp szx n etag changed terminal s)) = rc_retainedBytes s"
proof -
  obtain s1 r1 where n: "newRepresentation c now resp szx n etag (s\<lparr>rc_terminal := terminal\<rparr>) = (s1, r1)" by (rule prod.exhaust)
  have "rc_retainedBytes s1 = rc_retainedBytes s" using newRepresentation_frame [of c now resp szx n etag "s\<lparr>rc_terminal := terminal\<rparr>"] n by simp
  then show ?thesis by (cases r1) (simp_all add: rc_same_def n Let_def case_prod_beta)
qed

lemma on_receiver_keeps:
  assumes "rc_ok ob ot cb ct s" "rc_retainedBytes (fst (f (fst s))) = rc_retainedBytes (fst s)"
  shows "keeps (rc_ok ob ot cb ct) (on_receiver f s)"
  using assms by (auto simp: on_receiver_def keeps_def rc_ok_def split: prod.splits)

lemma rc_changed_ok: "rc_ok ob ot cb ct s \<Longrightarrow> rc_ok ob ot cb ct (rc_changed s)"
  by (auto simp: rc_changed_def rc_ok_def add.commute intro!: release_bytes)

lemma representation_keeps:
  assumes "rc_ok ob ot cb ct s"
  shows "keeps (rc_ok ob ot cb ct) (representation c now resp szx s)"
proof -
  obtain t b where s: "s = (t, b)" by (rule prod.exhaust)
  have k: "keeps (rc_ok ob ot cb ct) (on_receiver (rc_same c now resp szx n etag changed terminal) u)" if "rc_ok ob ot cb ct u"
    for n etag changed terminal u by (rule on_receiver_keeps [OF that]) (rule rc_same_frame)
  show ?thesis using assms k [OF assms] k [OF rc_changed_ok [OF assms]] unfolding s representation_def prod.case
    by (auto simp: Let_def split: sum.split prod.split)
qed

lemma rc_add_keeps:
  assumes "rc_ok ob ot cb ct s"
  shows "keeps (rc_ok ob ot cb ct) (rc_add resp num mor s)"
proof -
  obtain t b where s: "s = (t, b)" by (rule prod.exhaust)
  have ok: "q_ok ob ot (cb + rc_retainedBytes t) (ct + 1) b" "0 \<le> rc_retainedBytes t" using assms by (simp_all add: s rc_ok_def)
  show ?thesis
  proof (cases "readQBody resp")
    case (Inr payload)
    let ?n = "int (length payload)"
    obtain b1 got where r: "qReserveBytes ?n b = (b1, got)" by (rule prod.exhaust)
    show ?thesis
    proof (cases got)
      case True
      then have ok1: "q_ok ob ot (cb + rc_retainedBytes t + ?n) (ct + 1) b1" using reserve_bytes(1) [OF ok(1), of ?n b1] r by simp
      have ok2: "q_ok ob ot (cb + rc_retainedBytes t) (ct + 1) (qReleaseBytes ?n b1)" by (rule release_bytes [OF ok1]) simp
      show ?thesis unfolding s rc_add_def prod.case Inr sum.case r
        using ok1 ok2 ok(2) True by (auto simp: rc_ok_def Let_def add.assoc split: option.split sum.split prod.split)
    next
      case False
      then show ?thesis using reserve_bytes(2) [OF ok(1), of ?n b1] r assms Inr by (simp add: s rc_add_def)
    qed
  qed (use assms in \<open>simp add: s rc_add_def\<close>)
qed

lemma rc_accept_keeps:
  assumes "rc_ok ob ot cb ct s"
  shows "keeps (rc_ok ob ot cb ct) (rc_accept env x c now resp s)"
proof -
  have tail: "keeps (rc_ok ob ot cb ct) (thn (on_receiver (acceptBodyType resp) s1) (\<lambda>_ s2. thn (rc_add resp num mor s2) (\<lambda>(allThere, duplicate) s3.
      if allThere \<or> duplicate then (s3, Ret allThere) else thn (on_receiver (rc_advance env x c num) s3) (\<lambda>_ s4. (s4, Ret False)))))"
    if "rc_ok ob ot cb ct s1" for s1 num mor
    by (auto intro!: keeps_thn on_receiver_keeps rc_add_keeps that simp: acceptBodyType_frame rc_advance_frame)
  show ?thesis using assms unfolding rc_accept_def
    by (auto split: prod.split option.split sum.split intro!: keeps_thn representation_keeps tail)
qed

lemma rc_response_ok:
  assumes "rc_ok ob ot cb ct s" "rc_response env x c now resp s = (res, b')"
  shows "case res of Inl s' \<Rightarrow> rc_ok ob ot cb ct (s', b') | Inr r \<Rightarrow> r \<noteq> Panic \<longrightarrow> q_ok ob ot cb ct b'"
proof -
  obtain s1 b1 r1 where a: "rc_accept env x c now resp s = ((s1, b1), r1)" by (metis surj_pair)
  have "keeps (rc_ok ob ot cb ct) ((s1, b1), r1)" using rc_accept_keeps [OF assms(1), of env x c now resp] a by simp
  then have "r1 \<noteq> Panic \<Longrightarrow> rc_ok ob ot cb ct (s1, b1)" by (simp add: keeps_def split: outcome.splits)
  then show ?thesis using assms rc_close_ok [of ob ot cb ct "fst s" "snd s"] rc_close_ok [of ob ot cb ct s1 b1]
    by (auto simp: rc_response_def a split: if_splits outcome.splits bool.splits)
qed

lemma rc_turn_ok:
  assumes "rc_ok ob ot cb ct s" "rc_turn env x c ev s = (res, b')"
  shows "case res of Inl s' \<Rightarrow> rc_ok ob ot cb ct (s', b') | Inr r \<Rightarrow> r \<noteq> Panic \<longrightarrow> q_ok ob ot cb ct b'"
proof (cases "ev_result ev")
  case (Inl err)
  obtain s1 r1 where a: "rc_recover env x c (ev_now ev) (ev_ctx ev) err (fst s) = (s1, r1)" by (rule prod.exhaust)
  have "rc_ok ob ot cb ct (s1, snd s)"
    using rc_frame [of ob ot cb ct "fst s" "snd s" s1] rc_recover_frame [of env x c "ev_now ev" "ev_ctx ev" err "fst s"] a assms(1) by simp
  then show ?thesis using assms(2) rc_close_ok [of ob ot cb ct s1 "snd s"] by (auto simp: rc_turn_def Inl a split: outcome.splits)
next
  case (Inr resp)
  then show ?thesis using rc_response_ok [OF assms(1)] assms(2) by (simp add: rc_turn_def)
qed

lemma ReceiveQBlock2_ok:
  assumes "q_ok ob ot cb ct b" "ReceiveQBlock2 env x c now req szx xs initial b = (res, b')"
  shows "case res of Inl s' \<Rightarrow> rc_ok ob ot cb ct (s', b') | Inr r \<Rightarrow> r \<noteq> Panic \<longrightarrow> q_ok ob ot cb ct b'"
proof -
  obtain b1 ok where r: "qReserveTransfer b = (b1, ok)" by (rule prod.exhaust)
  show ?thesis
  proof (cases ok)
    case True
    then have "q_ok ob ot cb (ct + 1) b1" using reserve_transfer(1) [OF assms(1), of b1] r by simp
    then have new: "rc_ok ob ot cb ct (t, b1)" if "rc_retainedBytes t = 0" for t :: "('a, 'c) q2BodyReceiver" using that by (simp add: rc_ok_def)
    obtain s1 r1 where sn: "rc_send env x [0] True (new_receiver req szx xs) = (s1, r1)" by (rule prod.exhaust)
    have z: "rc_retainedBytes s1 = 0" using rc_send_frame [of env x "[0]" True "new_receiver req szx xs"] sn by (simp add: new_receiver_def)
    show ?thesis
    proof (cases initial)
      case None
      then show ?thesis using assms(2) True new [OF z] rc_close_ok [OF new [OF z]]
        by (auto simp: ReceiveQBlock2_def r sn split: outcome.splits)
    next
      case (Some resp)
      show ?thesis
        by (rule rc_response_ok [OF new]) (use assms(2) True Some in \<open>auto simp: ReceiveQBlock2_def r new_receiver_def\<close>)
    qed
  next
    case False
    then show ?thesis using assms reserve_transfer(2) [OF assms(1), of b1] r by (auto simp: ReceiveQBlock2_def)
  qed
qed

subsection \<open>The process\<close>

text \<open>A connection: its engine, and the bodies its requests are receiving.\<close>

record ('cm, 't, 'x) q_conn =
  qc_engine :: "('cm, 't) Engine"
  qc_receivers :: "('cm, 'x) q2BodyReceiver list"

text \<open>
  What can happen to a connection, in any order: a message is handled, a job of the schedule runs, a
  confirmable block has been acknowledged, a response has been written, the application sends a
  notification, an observation is cancelled, transfers expire, the connection closes, it is configured, a
  request begins to receive a body and goes on with it.  An operation that panics is not one of them.
\<close>

inductive q_op :: "('cm, 't, 'x) q_conn \<Rightarrow> ('cm, 't, 'x) q_conn \<Rightarrow> bool" where
  Op_Handle: "q_Handle env now (application app) r maxSZX remote (qc_engine k, w) = Some ((b, w'), own) \<Longrightarrow> q_op k (k\<lparr>qc_engine := b\<rparr>)"
| Op_Job: "run_q_job env tr now job (qc_engine k) = (b, res) \<Longrightarrow> res \<noteq> Panic \<Longrightarrow> q_op k (k\<lparr>qc_engine := b\<rparr>)"
| Op_Sent: "sendAsync_done tr now ctxDone job sendErr (qc_engine k) = Some b \<Longrightarrow> q_op k (k\<lparr>qc_engine := b\<rparr>)"
| Op_Written: "after_write tr now jobs (qc_engine k) = Some b \<Longrightarrow> q_op k (k\<lparr>qc_engine := b\<rparr>)"
| Op_Notify: "WriteNotification env now remote (qc_engine k, m) = ((b, m'), handled, res) \<Longrightarrow> res \<noteq> Panic \<Longrightarrow> q_op k (k\<lparr>qc_engine := b\<rparr>)"
| Op_Cancel: "q_op k (k\<lparr>qc_engine := CancelQBlockObservation env now token remote (qc_engine k)\<rparr>)"
| Op_Expire: "q_op k (k\<lparr>qc_engine := q_CheckExpirations now (qc_engine k)\<rparr>)"
| Op_Close: "q_op k (k\<lparr>qc_engine := CloseQBlockTransfers (qc_engine k)\<rparr>)"
| Op_SetConfig: "q_op k (k\<lparr>qc_engine := fst (SetConfig c (qc_engine k))\<rparr>)"
| Op_SetMaxBody: "q_op k (k\<lparr>qc_engine := q_SetMaxReceiveBodySize n (qc_engine k)\<rparr>)"
| Op_SetMaxEntries: "q_op k (k\<lparr>qc_engine := q_SetReceivingMessagesCacheMaxEntries n (qc_engine k)\<rparr>)"
| Op_Receive: "ReceiveQBlock2 env x (e_config (qc_engine k)) now req szx xs initial (qc_engine k) = (Inl s, b) \<Longrightarrow>
    q_op k (k\<lparr>qc_engine := b, qc_receivers := qc_receivers k @ [s]\<rparr>)"
| Op_Receive_done: "ReceiveQBlock2 env x (e_config (qc_engine k)) now req szx (xs :: 'x) initial (qc_engine k) = (Inr res, b) \<Longrightarrow> res \<noteq> Panic \<Longrightarrow>
    q_op k (k\<lparr>qc_engine := b\<rparr>)"
| Op_Turn: "i < length (qc_receivers k) \<Longrightarrow> rc_turn env x (e_config (qc_engine k)) ev (qc_receivers k ! i, qc_engine k) = (Inl s, b) \<Longrightarrow>
    q_op k (k\<lparr>qc_engine := b, qc_receivers := (qc_receivers k)[i := s]\<rparr>)"
| Op_Turn_done: "i < length (qc_receivers k) \<Longrightarrow> rc_turn env x (e_config (qc_engine k)) ev (qc_receivers k ! i, qc_engine k) = (Inr res, b) \<Longrightarrow> res \<noteq> Panic \<Longrightarrow>
    q_op k (k\<lparr>qc_engine := b, qc_receivers := take i (qc_receivers k) @ drop (Suc i) (qc_receivers k)\<rparr>)"

abbreviation rc_sum :: "('cm, 'x) q2BodyReceiver list \<Rightarrow> int" where
  "rc_sum ss \<equiv> (\<Sum>s \<leftarrow> ss. rc_retainedBytes s)"

definition conn_ok :: "int \<Rightarrow> int \<Rightarrow> ('cm, 't, 'x) q_conn \<Rightarrow> bool" where
  "conn_ok ob ot k \<longleftrightarrow> (\<forall>s \<in> set (qc_receivers k). 0 \<le> rc_retainedBytes s)
     \<and> q_ok ob ot (rc_sum (qc_receivers k)) (int (length (qc_receivers k))) (qc_engine k)"

lemma conn_ok_upd:
  "conn_ok ob ot (k\<lparr>qc_engine := b, qc_receivers := ss\<rparr>)
     \<longleftrightarrow> (\<forall>s \<in> set ss. 0 \<le> rc_retainedBytes s) \<and> q_ok ob ot (rc_sum ss) (int (length ss)) b"
  by (simp add: conn_ok_def)

lemma configure_ok [simp]:
  "q_ok ob ot cb ct (fst (SetConfig c b)) = q_ok ob ot cb ct b" "q_ok ob ot cb ct (q_SetMaxReceiveBodySize n b) = q_ok ob ot cb ct b"
  "q_ok ob ot cb ct (q_SetReceivingMessagesCacheMaxEntries n b) = q_ok ob ot cb ct b"
  by (simp_all add: SetConfig_def q_SetMaxReceiveBodySize_def q_SetReceivingMessagesCacheMaxEntries_def q_ok_def q_defs split: sum.split)

lemma sum_take_out:
  assumes "i < length xs"
  shows "(\<Sum>x \<leftarrow> xs. f x) = (\<Sum>x \<leftarrow> take i xs @ drop (Suc i) xs. f x) + (f (xs ! i) :: int)"
    "int (length xs) = int (length (take i xs @ drop (Suc i) xs)) + 1"
proof -
  have "xs = take i xs @ xs ! i # drop (Suc i) xs" using assms by (simp add: id_take_nth_drop)
  then have "(\<Sum>x \<leftarrow> xs. f x) = (\<Sum>x \<leftarrow> take i xs @ xs ! i # drop (Suc i) xs. f x)" by simp
  then show "(\<Sum>x \<leftarrow> xs. f x) = (\<Sum>x \<leftarrow> take i xs @ drop (Suc i) xs. f x) + f (xs ! i)" by simp
  show "int (length xs) = int (length (take i xs @ drop (Suc i) xs)) + 1" using assms by simp
qed

lemma sum_set_at: "i < length xs \<Longrightarrow> (\<Sum>x \<leftarrow> xs[i := v]. f x) = (\<Sum>x \<leftarrow> xs. f x) - f (xs ! i) + (f v :: int)"
  by (simp add: sum_take_out(1) [of i xs f] upd_conv_take_nth_drop)

lemma turn_account:
  assumes "conn_ok ob ot k" "i < length (qc_receivers k)"
  shows "rc_ok ob ot (rc_sum (take i (qc_receivers k) @ drop (Suc i) (qc_receivers k)))
    (int (length (take i (qc_receivers k) @ drop (Suc i) (qc_receivers k)))) (qc_receivers k ! i, qc_engine k)"
  using assms sum_take_out(1) [OF assms(2), of rc_retainedBytes] sum_take_out(2) [OF assms(2)]
  unfolding conn_ok_def rc_ok_def prod.case by (metis nth_mem)

lemma take_out_sub: "x \<in> set (take i xs @ drop (Suc i) xs) \<Longrightarrow> x \<in> set xs"
  by (auto dest: in_set_takeD in_set_dropD)

lemma q_op_ok:
  assumes "q_op k k'" "conn_ok ob ot k"
  shows "conn_ok ob ot k'"
  using assms
proof (induction rule: q_op.induct)
  case (Op_Handle env now app r maxSZX remote k w b w' own)
  then show ?case using q_Handle_ok [OF handler_application] by (fastforce simp: conn_ok_def)
next
  case (Op_Job env tr now job k b res)
  then show ?case using run_q_job_ok [of ob ot _ _ "qc_engine k" env tr now job] by (auto simp: conn_ok_def keeps_def split: outcome.splits)
next
  case (Op_Sent tr now ctxDone job sendErr k b)
  then show ?case using sendAsync_done_ok by (fastforce simp: conn_ok_def)
next
  case (Op_Written tr now jobs k b)
  then show ?case using after_write_ok by (fastforce simp: conn_ok_def)
next
  case (Op_Notify env now remote k m b m' handled res)
  then show ?case using WriteNotification_ok by (fastforce simp: conn_ok_def)
next
  case (Op_Receive env x k now req szx xs initial s b)
  have "q_ok ob ot (rc_sum (qc_receivers k)) (int (length (qc_receivers k))) (qc_engine k)" using Op_Receive.prems by (simp add: conn_ok_def)
  from ReceiveQBlock2_ok [OF this Op_Receive.hyps] show ?case using Op_Receive.prems by (auto simp: conn_ok_def rc_ok_def add.commute)
next
  case (Op_Receive_done env x k now req szx xs initial res b)
  have "q_ok ob ot (rc_sum (qc_receivers k)) (int (length (qc_receivers k))) (qc_engine k)" using Op_Receive_done.prems by (simp add: conn_ok_def)
  from ReceiveQBlock2_ok [OF this Op_Receive_done.hyps(1)] show ?case using Op_Receive_done.prems Op_Receive_done.hyps(2) by (simp add: conn_ok_def)
next
  case (Op_Turn i k env x ev s b)
  let ?rest = "take i (qc_receivers k) @ drop (Suc i) (qc_receivers k)"
  have ok: "rc_ok ob ot (rc_sum ?rest) (int (length ?rest)) (s, b)"
    using rc_turn_ok [OF turn_account [OF Op_Turn.prems Op_Turn.hyps(1)] Op_Turn.hyps(2)] by simp
  have n: "rc_sum ((qc_receivers k)[i := s]) = rc_sum ?rest + rc_retainedBytes s"
    using sum_set_at [OF Op_Turn.hyps(1), of rc_retainedBytes s] sum_take_out(1) [OF Op_Turn.hyps(1), of rc_retainedBytes] by linarith
  have l: "int (length ((qc_receivers k)[i := s])) = int (length ?rest) + 1" using sum_take_out(2) [OF Op_Turn.hyps(1)] by (simp only: length_list_update)
  have "0 \<le> rc_retainedBytes s" using ok by (simp add: rc_ok_def)
  then have "\<forall>u \<in> set ((qc_receivers k)[i := s]). 0 \<le> rc_retainedBytes u"
    using conjunct1 [OF Op_Turn.prems [unfolded conn_ok_def]] set_update_subset_insert [of "qc_receivers k" i s] by fast
  then show ?case using ok unfolding conn_ok_upd rc_ok_def n l prod.case by (rule conjI [OF _ conjunct2])
next
  case (Op_Turn_done i k env x ev res b)
  let ?rest = "take i (qc_receivers k) @ drop (Suc i) (qc_receivers k)"
  have "q_ok ob ot (rc_sum ?rest) (int (length ?rest)) b"
    using rc_turn_ok [OF turn_account [OF Op_Turn_done.prems Op_Turn_done.hyps(1)] Op_Turn_done.hyps(2)] Op_Turn_done.hyps(3) by simp
  moreover have "\<forall>u \<in> set ?rest. 0 \<le> rc_retainedBytes u"
    using conjunct1 [OF Op_Turn_done.prems [unfolded conn_ok_def]] take_out_sub [of _ i "qc_receivers k"] by fast
  ultimately show ?case unfolding conn_ok_upd by (rule conjI [rotated])
qed (simp_all add: conn_ok_def CancelQBlockObservation_ok CheckExpirations_exact(1) Close_exact(1))

text \<open>The connections of a process, with the two counters they share.\<close>

record ('cm, 't, 'x) q_process =
  pr_bytes :: int
  pr_transfers :: int
  pr_conns :: "('cm, 't, 'x) q_conn list"

definition with_counters :: "int \<Rightarrow> int \<Rightarrow> ('cm, 't, 'x) q_conn \<Rightarrow> ('cm, 't, 'x) q_conn" where
  "with_counters x y k = k\<lparr>qc_engine := (qc_engine k)\<lparr>e_processBytes := x, e_processTransfers := y\<rparr>\<rparr>"

inductive q_process_step :: "('cm, 't, 'x) q_process \<Rightarrow> ('cm, 't, 'x) q_process \<Rightarrow> bool" where
  Connect: "q_process_step p (p\<lparr>pr_conns := pr_conns p @ [\<lparr>qc_engine = Engine_New (pr_bytes p) (pr_transfers p) t, qc_receivers = []\<rparr>]\<rparr>)"
| Operate: "i < length (pr_conns p) \<Longrightarrow> q_op (with_counters (pr_bytes p) (pr_transfers p) (pr_conns p ! i)) k \<Longrightarrow>
    q_process_step p \<lparr>pr_bytes = e_processBytes (qc_engine k), pr_transfers = e_processTransfers (qc_engine k), pr_conns = (pr_conns p)[i := k]\<rparr>"

definition no_connections :: "('cm, 't, 'x) q_process" where
  "no_connections = \<lparr>pr_bytes = 0, pr_transfers = 0, pr_conns = []\<rparr>"

abbreviation conn_bytes :: "('cm, 't, 'x) q_conn \<Rightarrow> int" where "conn_bytes k \<equiv> e_retainedBytes (qc_engine k)"
abbreviation conn_transfers :: "('cm, 't, 'x) q_conn \<Rightarrow> int" where "conn_transfers k \<equiv> e_retainedTransfers (qc_engine k)"

definition conn_local :: "('cm, 't, 'x) q_conn \<Rightarrow> bool" where
  "conn_local k \<longleftrightarrow> (\<forall>s \<in> set (qc_receivers k). 0 \<le> rc_retainedBytes s)
     \<and> q1_table (qc_engine k) \<and> q2_table (qc_engine k) \<and> obs_table (qc_engine k)
     \<and> conn_bytes k = rc_sum (qc_receivers k) + e_q1ReceiveBytes (qc_engine k) + e_q2SendBytes (qc_engine k)
     \<and> conn_transfers k = int (length (qc_receivers k)) + int (length (e_q1Receivers (qc_engine k)))
         + int (length (e_q2Senders (qc_engine k))) + int (length (e_qObservations (qc_engine k)))
     \<and> conn_bytes k \<le> qEngineMaxBytes \<and> conn_transfers k \<le> qEngineMaxTransfers"

definition process_inv :: "('cm, 't, 'x) q_process \<Rightarrow> bool" where
  "process_inv p \<longleftrightarrow> (\<forall>k \<in> set (pr_conns p). conn_local k)
     \<and> pr_bytes p = (\<Sum>k \<leftarrow> pr_conns p. conn_bytes k) \<and> pr_transfers p = (\<Sum>k \<leftarrow> pr_conns p. conn_transfers k)
     \<and> pr_bytes p \<le> qProcessMaxBytes \<and> pr_transfers p \<le> qProcessMaxTransfers"

lemma conn_ok_iff:
  "conn_ok ob ot k \<longleftrightarrow> conn_local k \<and> e_processBytes (qc_engine k) = ob + conn_bytes k \<and> e_processBytes (qc_engine k) \<le> qProcessMaxBytes
     \<and> e_processTransfers (qc_engine k) = ot + conn_transfers k \<and> e_processTransfers (qc_engine k) \<le> qProcessMaxTransfers"
  by (auto simp: conn_ok_def conn_local_def q_ok_def accounts_def)

lemma with_counters_simps [simp]:
  "conn_local (with_counters x y k) = conn_local k" "conn_bytes (with_counters x y k) = conn_bytes k"
  "conn_transfers (with_counters x y k) = conn_transfers k"
  "e_processBytes (qc_engine (with_counters x y k)) = x" "e_processTransfers (qc_engine (with_counters x y k)) = y"
  by (simp_all add: with_counters_def conn_local_def q_defs)

lemma process_step_inv:
  assumes "q_process_step p p'" "process_inv p"
  shows "process_inv p'"
  using assms
proof (induction rule: q_process_step.induct)
  case (Connect p t)
  have "conn_local \<lparr>qc_engine = Engine_New (pr_bytes p) (pr_transfers p) t, qc_receivers = []\<rparr>"
    by (simp add: conn_local_def q_defs Engine_New_def qEngineMaxBytes_def qEngineMaxTransfers_def)
  then show ?case using Connect by (auto simp: process_inv_def Engine_New_def)
next
  case (Operate i p k)
  let ?k = "pr_conns p ! i"
  have "conn_local ?k" using Operate by (simp add: process_inv_def)
  then have "conn_ok (pr_bytes p - conn_bytes ?k) (pr_transfers p - conn_transfers ?k) (with_counters (pr_bytes p) (pr_transfers p) ?k)"
    using Operate.prems by (simp add: conn_ok_iff process_inv_def)
  then have "conn_ok (pr_bytes p - conn_bytes ?k) (pr_transfers p - conn_transfers ?k) k" using q_op_ok [OF Operate.hyps(2)] by blast
  then show ?case using Operate.prems Operate.hyps(1)
    by (auto simp: conn_ok_iff process_inv_def sum_set_at dest!: set_update_subset_insert [THEN subsetD])
qed

interpretation q_processes: transition_system "\<lambda>p. p = no_connections" q_process_step process_inv
  by unfold_locales (auto simp: process_step_inv, simp add: process_inv_def no_connections_def qProcessMaxBytes_def qProcessMaxTransfers_def)

subsection \<open>Properties\<close>

text \<open>
  C7. However the connections of a process interleave their Q-Block operations, the counters are exact: the bytes
  and transfers charged to the process are those charged to its connections, those of a connection are what its
  tables and the bodies it is receiving hold, and none exceeds its limit.  A connection whose transfers are closed
  is charged only for the bodies it is still receiving.
\<close>

theorem q_retention_exact:
  assumes "q_process_step\<^sup>*\<^sup>* no_connections p"
  shows "pr_bytes p = (\<Sum>k \<leftarrow> pr_conns p. conn_bytes k) \<and> pr_bytes p \<le> qProcessMaxBytes
    \<and> pr_transfers p = (\<Sum>k \<leftarrow> pr_conns p. conn_transfers k) \<and> pr_transfers p \<le> qProcessMaxTransfers
    \<and> (\<forall>k \<in> set (pr_conns p).
         conn_bytes k = rc_sum (qc_receivers k) + q1_sum (qc_engine k) + q2_sum (qc_engine k)
         \<and> 0 \<le> conn_bytes k \<and> conn_bytes k \<le> qEngineMaxBytes
         \<and> conn_transfers k = int (length (qc_receivers k)) + int (length (e_q1Receivers (qc_engine k)))
             + int (length (e_q2Senders (qc_engine k))) + int (length (e_qObservations (qc_engine k)))
         \<and> conn_transfers k \<le> qEngineMaxTransfers
         \<and> (e_q1Closed (qc_engine k) \<and> e_q2Closed (qc_engine k) \<longrightarrow>
              conn_bytes k = rc_sum (qc_receivers k) \<and> conn_transfers k = int (length (qc_receivers k))))"
proof -
  have inv: "process_inv p" using q_processes.reachable_inv [OF refl assms] .
  have sums: "0 \<le> rc_sum (qc_receivers k)" "0 \<le> q1_sum (qc_engine k)" "0 \<le> q2_sum (qc_engine k)" if "conn_local k" for k :: "('a, 'b, 'c) q_conn"
    using that by (auto simp: conn_local_def q1_table_def q2_table_def q1_sum_def q2_sum_def intro!: sum_list_nonneg)
  have "conn_bytes k = rc_sum (qc_receivers k) + q1_sum (qc_engine k) + q2_sum (qc_engine k)
         \<and> 0 \<le> conn_bytes k \<and> conn_bytes k \<le> qEngineMaxBytes
         \<and> conn_transfers k = int (length (qc_receivers k)) + int (length (e_q1Receivers (qc_engine k)))
             + int (length (e_q2Senders (qc_engine k))) + int (length (e_qObservations (qc_engine k)))
         \<and> conn_transfers k \<le> qEngineMaxTransfers
         \<and> (e_q1Closed (qc_engine k) \<and> e_q2Closed (qc_engine k) \<longrightarrow>
              conn_bytes k = rc_sum (qc_receivers k) \<and> conn_transfers k = int (length (qc_receivers k)))"
    if "conn_local k" for k :: "('a, 'b, 'c) q_conn"
    using that sums [OF that] by (simp add: conn_local_def q1_table_def q2_table_def obs_table_def) (simp add: q1_sum_def q2_sum_def)
  then show ?thesis using inv unfolding process_inv_def by blast
qed

text \<open>A transport with nothing behind it, a server that uses it, and a block of a body of 40 bytes.\<close>

definition idle_transport :: "(unit, unit) q_transport" where
  "idle_transport = \<lparr>tr_Schedule = (\<lambda>_ _ _ t. (t, None)), tr_Delay = (\<lambda>_ _ t. t), tr_Cancel = (\<lambda>_ t. t),
     tr_Send = (\<lambda>_ t. (t, None)), tr_SendAsync = None\<rparr>"

definition q_server :: "(unit, unit) q_env" where
  "q_server = \<lparr>qe_fresh = NewMessage, qe_transport = Some idle_transport, qe_postWrite = False, qe_jitter = 0\<rparr>"

definition q_post :: "bytes \<Rightarrow> bytes \<Rightarrow> unit PMessage" where
  "q_post block data = NewMessage\<lparr>msg := \<lparr>Token = [1],
     Options = [\<lparr>ID = QBlock1, Value = block\<rparr>, \<lparr>ID = Size1, Value = [40]\<rparr>, \<lparr>ID = RequestTag, Value = [9]\<rparr>],
     Code = codes_POST, Payload = [], MessageID = 0, Type = NonConfirmable\<rparr>, body := Some (NewReader data)\<rparr>"

definition q_writer :: "unit ResponseWriter" where "q_writer = rw_New NewMessage []"

lemma first_block_charged:
  "case q_Handle q_server 5 (application (\<lambda>w r. w)) (q_post [8] (replicate 16 7)) 6 None (Engine_New 0 0 (), q_writer) of
     None \<Rightarrow> False | Some ((b, w), own) \<Rightarrow> e_retainedBytes b = 16"
  by code_simp

theorem q_retention_exact_witness:
  "\<exists>p :: (unit, unit, unit) q_process. q_process_step\<^sup>*\<^sup>* no_connections p \<and> length (pr_conns p) = 1
     \<and> pr_bytes p = (\<Sum>k \<leftarrow> pr_conns p. conn_bytes k) \<and> pr_bytes p = 16"
proof -
  obtain b w own where h: "q_Handle q_server 5 (application (\<lambda>w r. w)) (q_post [8] (replicate 16 7)) 6 None (Engine_New 0 0 (), q_writer) = Some ((b, w), own)"
      "e_retainedBytes b = 16"
    using first_block_charged by (auto split: option.splits prod.splits)
  define k :: "(unit, unit, unit) q_conn" where "k = \<lparr>qc_engine = Engine_New 0 0 (), qc_receivers = []\<rparr>"
  define p1 where "p1 = no_connections\<lparr>pr_conns := [k]\<rparr>"
  define p2 where "p2 = \<lparr>pr_bytes = e_processBytes b, pr_transfers = e_processTransfers b, pr_conns = [k\<lparr>qc_engine := b\<rparr>]\<rparr>"
  have s1: "q_process_step no_connections p1"
    using q_process_step.Connect [of no_connections "()"] by (simp add: p1_def k_def no_connections_def)
  have e: "qc_engine k = Engine_New 0 0 ()" by (simp add: k_def)
  have "q_op k (k\<lparr>qc_engine := b\<rparr>)" by (rule q_op.Op_Handle [where k = k, unfolded e, OF h(1)])
  moreover have "with_counters 0 0 k = k" by (simp add: with_counters_def k_def Engine_New_def)
  ultimately have "q_op (with_counters (pr_bytes p1) (pr_transfers p1) (pr_conns p1 ! 0)) (k\<lparr>qc_engine := b\<rparr>)"
    by (simp add: p1_def no_connections_def)
  then have "q_process_step p1 p2" using q_process_step.Operate [of 0 p1 "k\<lparr>qc_engine := b\<rparr>"] by (simp add: p1_def p2_def)
  then have r: "q_process_step\<^sup>*\<^sup>* no_connections p2" using s1 by (meson converse_rtranclp_into_rtranclp rtranclp.rtrancl_refl)
  then show ?thesis using q_retention_exact [OF r] h(2) by (intro exI [of _ p2]) (simp add: p2_def)
qed

end
