(* ===== verification/Block1_Receive.thy ===== *)
theory Block1_Receive
  imports Blockwise
begin

text \<open>
  The receiving side of a request body sent in blocks (Block1): what an exchange has assembled so far is
  a sequence of bytes, and a block is acknowledged, completes the body, or is refused.  The engine
  implements this abstract receiver.
\<close>

subsection \<open>The memory file\<close>

text \<open>
  What the code relies on of \<open>memfile.File\<close>, documented there as the behaviour of \<open>os.File\<close>: \<open>pos\<close> is the
  position of the file.
\<close>

definition memfile_ok :: "'f memfile_ops \<Rightarrow> ('f \<Rightarrow> nat) \<Rightarrow> bool" where
  "memfile_ok ops pos \<longleftrightarrow>
     (\<forall>data. mf_Bytes ops (mf_New ops data) = data)
     \<and> (\<forall>f off w. let target = (case w of SeekStart \<Rightarrow> off | SeekCurrent \<Rightarrow> int (pos f) + off
                                | SeekEnd \<Rightarrow> int (length (mf_Bytes ops f)) + off)
          in 0 \<le> target \<longrightarrow> (\<exists>f'. mf_Seek ops f off w = (f', Inr target) \<and> mf_Bytes ops f' = mf_Bytes ops f \<and> pos f' = nat target))
     \<and> (\<forall>f data. pos f \<le> length (mf_Bytes ops f) \<longrightarrow>
          (\<exists>f'. mf_Write ops f data = (f', Inr (int (length data)))
             \<and> mf_Bytes ops f' = take (pos f) (mf_Bytes ops f) @ data @ drop (pos f + length data) (mf_Bytes ops f)))
     \<and> (\<forall>f n. 0 \<le> n \<and> n \<le> int (length (mf_Bytes ops f)) \<longrightarrow>
          (\<exists>f'. mf_Truncate ops f n = (f', None) \<and> mf_Bytes ops f' = take (nat n) (mf_Bytes ops f)))"

lemma memfile_new: "memfile_ok ops pos \<Longrightarrow> mf_Bytes ops (mf_New ops data) = data"
  by (simp add: memfile_ok_def)

lemma memfile_seek:
  assumes "memfile_ok ops pos"
  shows "0 \<le> off \<Longrightarrow> \<exists>f'. mf_Seek ops f off SeekStart = (f', Inr off) \<and> mf_Bytes ops f' = mf_Bytes ops f \<and> pos f' = nat off"
    "\<exists>f'. mf_Seek ops f 0 SeekCurrent = (f', Inr (int (pos f))) \<and> mf_Bytes ops f' = mf_Bytes ops f"
    "\<exists>f'. mf_Seek ops f 0 SeekEnd = (f', Inr (int (length (mf_Bytes ops f)))) \<and> mf_Bytes ops f' = mf_Bytes ops f"
proof -
  have "\<forall>f off w. let target = (case w of SeekStart \<Rightarrow> off | SeekCurrent \<Rightarrow> int (pos f) + off
                                | SeekEnd \<Rightarrow> int (length (mf_Bytes ops f)) + off)
          in 0 \<le> target \<longrightarrow> (\<exists>f'. mf_Seek ops f off w = (f', Inr target) \<and> mf_Bytes ops f' = mf_Bytes ops f \<and> pos f' = nat target)"
    using assms unfolding memfile_ok_def by blast
  note law = this [rule_format, unfolded Let_def]
  show "0 \<le> off \<Longrightarrow> \<exists>f'. mf_Seek ops f off SeekStart = (f', Inr off) \<and> mf_Bytes ops f' = mf_Bytes ops f \<and> pos f' = nat off"
    "\<exists>f'. mf_Seek ops f 0 SeekCurrent = (f', Inr (int (pos f))) \<and> mf_Bytes ops f' = mf_Bytes ops f"
    "\<exists>f'. mf_Seek ops f 0 SeekEnd = (f', Inr (int (length (mf_Bytes ops f)))) \<and> mf_Bytes ops f' = mf_Bytes ops f"
    using law [where w = SeekStart and off = off and f = f] law [where w = SeekCurrent and off = 0 and f = f]
      law [where w = SeekEnd and off = 0 and f = f] by auto
qed

lemma memfile_write:
  assumes "memfile_ok ops pos" "pos f \<le> length (mf_Bytes ops f)"
  obtains f' where "mf_Write ops f data = (f', Inr (int (length data)))"
    "mf_Bytes ops f' = take (pos f) (mf_Bytes ops f) @ data @ drop (pos f + length data) (mf_Bytes ops f)"
  using assms unfolding memfile_ok_def by blast

lemma memfile_truncate:
  assumes "memfile_ok ops pos" "0 \<le> n" "n \<le> int (length (mf_Bytes ops f))"
  obtains f' where "mf_Truncate ops f n = (f', None)" "mf_Bytes ops f' = take (nat n) (mf_Bytes ops f)"
  using assms unfolding memfile_ok_def by blast

lemma file_BodySize_eq:
  assumes "memfile_ok ops pos"
  obtains f' where "file_BodySize ops f = (f', Inr (int (length (mf_Bytes ops f))))" "mf_Bytes ops f' = mf_Bytes ops f"
proof -
  obtain f1 where 1: "mf_Seek ops f 0 SeekCurrent = (f1, Inr (int (pos f)))" "mf_Bytes ops f1 = mf_Bytes ops f"
    using memfile_seek(2) [OF assms, of f] by auto
  obtain f2 where 2: "mf_Seek ops f1 0 SeekStart = (f2, Inr 0)" "mf_Bytes ops f2 = mf_Bytes ops f"
    using memfile_seek(1) [OF assms, of 0 f1] 1(2) by auto
  obtain f3 where 3: "mf_Seek ops f2 0 SeekEnd = (f3, Inr (int (length (mf_Bytes ops f))))" "mf_Bytes ops f3 = mf_Bytes ops f"
    using memfile_seek(3) [OF assms, of f2] 2(2) by auto
  obtain f4 where 4: "mf_Seek ops f3 (int (pos f)) SeekStart = (f4, Inr (int (pos f)))" "mf_Bytes ops f4 = mf_Bytes ops f"
    using memfile_seek(1) [OF assms, of "int (pos f)" f3] 3(2) by auto
  show thesis by (rule that [of f4]) (simp_all add: file_BodySize_def 1 2 3 4)
qed

lemma copyToPayload_eq:
  assumes "memfile_ok (memfile env) pos" "off = int (length (mf_Bytes (memfile env) f))"
  obtains f' where "copyToPayloadFromOffset env r f off = (f', Inr (off + int (length (body_data r))))"
    "mf_Bytes (memfile env) f' = mf_Bytes (memfile env) f @ body_data r"
proof -
  let ?ops = "memfile env"
  obtain f1 where 1: "mf_Seek ?ops f off SeekStart = (f1, Inr off)" "mf_Bytes ?ops f1 = mf_Bytes ?ops f" "pos f1 = nat off"
    using memfile_seek(1) [OF assms(1), of off f] assms(2) by auto
  obtain f2 where 2: "mf_Write ?ops f1 (body_data r) = (f2, Inr (int (length (body_data r))))"
      "mf_Bytes ?ops f2 = mf_Bytes ?ops f @ body_data r"
    using memfile_write [OF assms(1), of f1 "body_data r"] 1(2,3) assms(2) by auto
  define f3 where "f3 = (if body_data r = [] then f1 else f2)"
  have 3: "(case body r of None \<Rightarrow> (f1, Inr 0) | Some bdy \<Rightarrow> if rd_data bdy = [] then (f1, Inr 0) else mf_Write ?ops f1 (rd_data bdy))
      = (f3, Inr (int (length (body_data r))))" "mf_Bytes ?ops f3 = mf_Bytes ?ops f @ body_data r"
    using 1(2) 2 by (auto simp: f3_def body_data_def split: option.split)
  obtain f4 where 4: "mf_Truncate ?ops f3 (off + int (length (body_data r))) = (f4, None)"
      "mf_Bytes ?ops f4 = mf_Bytes ?ops f @ body_data r"
    using memfile_truncate [OF assms(1), of "off + int (length (body_data r))" f3] assms(2) 3(2) by (auto simp: nat_add_distrib)
  show thesis by (rule that [of f4]) (simp_all add: copyToPayloadFromOffset_def 1(1) 3(1) 4)
qed

subsection \<open>The abstract receiver\<close>

datatype verdict = Acknowledged | Delivered bytes | Incomplete | TooLarge | Busy

definition full_block :: "SZX \<Rightarrow> nat \<Rightarrow> bool" where
  "full_block szx n \<longleftrightarrow> int n = SZX_Size szx \<or> szx = SZXBERT \<and> 0 < n \<and> int n mod SZX_Size szx = 0"

text \<open>
  One block with its number, its more bit and its payload, for the bytes assembled so far (\<open>None\<close> when no
  transfer is going on); \<open>room\<close> tells whether another transfer may start, \<open>limit\<close> bounds the body when positive, \<open>announced\<close> is the size the sender announces.
\<close>

definition receive :: "bool \<Rightarrow> int \<Rightarrow> int \<Rightarrow> SZX \<Rightarrow> int \<Rightarrow> bool \<Rightarrow> bytes \<Rightarrow> bytes option \<Rightarrow> bytes option \<times> verdict" where
  "receive room limit announced szx num m payload st =
     (let off = num * SZX_Size szx;
          large = (\<lambda>at. limit > 0 \<and> max (at + int (length payload)) announced > limit)
      in case st of
           None \<Rightarrow>
             if num \<noteq> 0 then (None, Incomplete)
             else if \<not> m then (None, if large 0 then TooLarge else Delivered payload)
             else if \<not> room then (None, Busy)
             else if \<not> full_block szx (length payload) then (None, Incomplete)
             else if large 0 then (None, TooLarge)
             else (Some payload, Acknowledged)
         | Some c \<Rightarrow>
             if m \<and> \<not> full_block szx (length payload) then (None, Incomplete)
             else if off > int (length c) \<or> off < int (length c) \<and> \<not> m then (None, Incomplete)
             else if large off then (None, TooLarge)
             else if off < int (length c) then (Some c, Acknowledged)
             else if m then (Some (c @ payload), Acknowledged)
             else (None, Delivered (c @ payload)))"

subsection \<open>The engine as a receiver\<close>

definition assembled :: "('cm, 'f) bw_env \<Rightarrow> time \<Rightarrow> u64 \<Rightarrow> ('cm, 'f) BlockWise \<Rightarrow> bytes option" where
  "assembled env now key b =
     map_option (\<lambda>e. mf_Bytes (memfile env) (mg_file (elem_data e))) (Cache_Load now key (receivingMessagesCache b))"

definition announced_size :: "'cm PMessage \<Rightarrow> int" where
  "announced_size r = (case getUint32 r Size1 of (v, None) \<Rightarrow> uint v | (_, Some _) \<Rightarrow> 0)"

definition block1 :: "'cm PMessage \<Rightarrow> u64 \<Rightarrow> u64 \<Rightarrow> SZX \<Rightarrow> SZX \<Rightarrow> int \<Rightarrow> bool \<Rightarrow> receivedBlock" where
  "block1 r key matching szx maxSzx num m =
     \<lparr>rb_exchangeKey = key, rb_matchingKey = matching, rb_token = token_of r, rb_blockType = Block1, rb_sizeType = Size1,
      rb_szx = szx, rb_reqSzx = szx, rb_maxSzx = maxSzx, rb_num = num, rb_more = m\<rparr>"

lemma block1_fields [simp]:
  "rb_exchangeKey (block1 r key matching szx maxSzx num m) = key" "rb_matchingKey (block1 r key matching szx maxSzx num m) = matching"
  "rb_token (block1 r key matching szx maxSzx num m) = token_of r" "rb_blockType (block1 r key matching szx maxSzx num m) = Block1"
  "rb_szx (block1 r key matching szx maxSzx num m) = szx" "rb_maxSzx (block1 r key matching szx maxSzx num m) = maxSzx"
  "rb_num (block1 r key matching szx maxSzx num m) = num" "rb_more (block1 r key matching szx maxSzx num m) = m"
  by (simp_all add: block1_def)

text \<open>What the writer, the error and the calls of the handler show of a verdict.\<close>

definition shows_verdict ::
  "('cm PMessage \<Rightarrow> bool) \<Rightarrow> ('cm PMessage \<Rightarrow> 'cm PMessage \<Rightarrow> 'cm PMessage) \<Rightarrow> 'cm PMessage \<Rightarrow> ('cm, 'f) BlockWise \<Rightarrow>
   ('cm, 'f) BlockWise \<times> 'cm PMessage \<times> unit outcome \<Rightarrow> verdict \<Rightarrow> bool" where
  "shows_verdict ack next_handler w b res v =
     (case res of (b', w', o') \<Rightarrow>
        (case v of
           Acknowledged \<Rightarrow> o' = Ret () \<and> code_of w' = codes_Continue \<and> ack w' \<and> handed b' = handed b
         | Delivered p \<Rightarrow> o' = Ret () \<and> (\<exists>m. handed b' = handed b @ [m] \<and> body_data m = p \<and> w' = next_handler w m)
         | Incomplete \<Rightarrow> o' = Err ErrRequestEntityIncomplete \<and> handed b' = handed b
         | TooLarge \<Rightarrow> o' = Ret () \<and> code_of w' = codes_RequestEntityTooLarge \<and> handed b' = handed b
         | Busy \<Rightarrow> o' = Err ErrCacheFull \<and> handed b' = handed b))"

text \<open>The response repeats the number and the more bit, with a size the receiver accepts.\<close>

definition acknowledges :: "SZX \<Rightarrow> int \<Rightarrow> bool \<Rightarrow> 'cm PMessage \<Rightarrow> bool" where
  "acknowledges szx num m w \<longleftrightarrow> (\<exists>v. getUint32 w Block1 = (v, None) \<and> DecodeBlockOption v = (szx, num, m, None))"

text \<open>The keys of the cache are distinct, and new elements get new identities.\<close>

definition bw_ok :: "('cm, 'f) BlockWise \<Rightarrow> bool" where
  "bw_ok b \<longleftrightarrow> cache_ok (receivingMessagesCache b) \<and> (\<forall>(k, e) \<in> set (receivingMessagesCache b). elem_id e < nextElement b)
     \<and> 0 \<le> expiration b"

lemma set_uint32:
  "\<exists>m'. PM_SetOptionUint32 oid v m = Some m' \<and> code_of m' = code_of m \<and> token_of m' = token_of m \<and> body m' = body m
     \<and> Type (msg m') = Type (msg m) \<and> opts_of m' = opt_put (opts_of m) oid (uint_wire v)"
  using PM_SetOptionUint32_eq [of oid v m] by (auto simp: set_options_def)

lemma put_uint32:
  assumes "opts_sorted os"
  shows "opts_sorted (opt_put os oid (uint_wire v))" "Options_GetUint32 (opt_put os oid (uint_wire v)) oid = (v, None)"
    "vals (opt_put os oid (uint_wire v)) = (vals os)(oid := [uint_wire v])"
  using assms by (auto simp: opts_sorted_Set vals_Set GetUint32_vals DecodeUint32_uint_wire)

lemma continue_ok:
  assumes "szx \<le> 7" "maxSzx \<le> 7" "0 \<le> num" "num \<le> maxBlockNumber" "opts_sorted (opts_of (fresh env))"
    "block = (block1 r key matching szx0 maxSzx num m)\<lparr>rb_szx := szx\<rparr>"
  shows "\<exists>w. sendReceivedBlockContinue env block sent n = Ret w \<and> code_of w = codes_Continue \<and> acknowledges (getSzx szx maxSzx) num m w"
proof -
  let ?m = "PM_SetCode codes_Continue (PM_SetToken (token_of r) (fresh env))"
  have "getSzx szx maxSzx \<le> 7" using assms(1,2) by (simp add: getSzx_def)
  then obtain v where v: "EncodeBlockOption (getSzx szx maxSzx) num m = Inr v"
    using assms(3,4) by (simp add: EncodeBlockOption_eq not_less)
  obtain w where w: "PM_SetOptionUint32 Block1 v ?m = Some w" "code_of w = codes_Continue" "opts_of w = opt_put (opts_of (fresh env)) Block1 (uint_wire v)"
    using set_uint32 [of Block1 v ?m] by (auto simp: PM_SetCode_def PM_SetToken_def)
  then show ?thesis
    using v EncodeBlockOption_decodes [OF v] put_uint32(2) [OF assms(5)]
    by (auto simp: sendReceivedBlockContinue_def assms(6) acknowledges_def)
qed

lemma reject_eq:
  assumes "blockType = Block1"
  shows "(maxReceiveBodySize b > 0 \<and> max (off + int (length (body_data r))) (announced_size r) > maxReceiveBodySize b \<and> 0 \<le> off \<longrightarrow>
           (\<exists>w'. rejectTooLarge env w r blockType token off b = (report ErrRequestEntityTooLarge b, w', Ret True)
              \<and> code_of w' = codes_RequestEntityTooLarge))
       \<and> (\<not> (maxReceiveBodySize b > 0 \<and> max (off + int (length (body_data r))) (announced_size r) > maxReceiveBodySize b) \<and> 0 \<le> off \<longrightarrow>
           rejectTooLarge env w r blockType token off b = (b, w, Ret False))"
proof -
  have sz: "0 \<le> off \<Longrightarrow> receiveBodySize r off = Inr (max (off + int (length (body_data r))) (announced_size r))"
    by (auto simp: receiveBodySize_def PM_BodySize_eq announced_size_def body_data_def max_def split: option.split prod.split)
  obtain m where m: "SendEntityTooLarge env token (maxReceiveBodySize b) = Ret m" "code_of m = codes_RequestEntityTooLarge"
    using set_uint32 [of Size1 "word_of_int (CastTo (Unsigned 32) (min (maxReceiveBodySize b) (2 ^ 32 - 1)))"
        "PM_SetType NonConfirmable (PM_SetToken token (PM_SetCode codes_RequestEntityTooLarge (fresh env)))"]
    by (auto simp: SendEntityTooLarge_def Let_def PM_SetType_def PM_SetToken_def PM_SetCode_def)
  show ?thesis
    using sz m by (auto simp: rejectTooLarge_def assms)
qed

text \<open>A transfer lasts until a time if the entry of its guard does.\<close>

definition lasts :: "time \<Rightarrow> u64 \<Rightarrow> ('cm, 'f) BlockWise \<Rightarrow> bool" where
  "lasts t key b = (case map_of (receivingMessagesCache b) key of
                      None \<Rightarrow> True
                    | Some e \<Rightarrow> (case ValidUntil e of None \<Rightarrow> True | Some u \<Rightarrow> t \<le> u))"

definition room :: "time \<Rightarrow> ('cm, 'f) BlockWise \<Rightarrow> bool" where
  "room now b \<longleftrightarrow> receivingMessagesCacheMaxEntries b \<le> 0
     \<or> int (length (filter (\<lambda>(k, e). \<not> IsExpired e now) (receivingMessagesCache b))) < receivingMessagesCacheMaxEntries b"

text \<open>What a step of the receiver keeps.\<close>

definition keeps :: "time \<Rightarrow> u64 \<Rightarrow> ('cm, 'f) BlockWise \<Rightarrow> ('cm, 'f) BlockWise \<Rightarrow> bool" where
  "keeps now key b b' \<longleftrightarrow>
     bw_ok b' \<and> maxReceiveBodySize b' = maxReceiveBodySize b
     \<and> receivingMessagesCacheMaxEntries b' = receivingMessagesCacheMaxEntries b \<and> expiration b' = expiration b
     \<and> rollingExpiration b' = rollingExpiration b
     \<and> (\<forall>t. Cache_Load t key (sendingMessagesCache b) = None \<longrightarrow> Cache_Load t key (sendingMessagesCache b') = None)
     \<and> (\<forall>t. t \<le> now + expiration b \<longrightarrow> lasts t key b \<or> Cache_Load now key (receivingMessagesCache b) = None \<longrightarrow>
            Cache_Load now key (receivingMessagesCache b') \<noteq> None \<longrightarrow> lasts t key b')"

lemma keeps_store_guard:
  assumes "bw_ok b"
  shows "keeps now key b (store_guard key mg b)"
    "Cache_Load now key (receivingMessagesCache (store_guard key mg b)) =
       map_option (\<lambda>e. e\<lparr>elem_data := mg\<rparr>) (Cache_Load now key (receivingMessagesCache b))"
    "handed (store_guard key mg b) = handed b"
proof -
  have el: "elem_id e < n" if "(k, e) \<in> set (AList.map_entry key f c)" "\<forall>(k, e) \<in> set c. elem_id e < n" "\<And>e. elem_id (f e) = elem_id e"
    for k and e :: "'c Element" and f c n
    using that by (induction c) (auto split: if_splits)
  show "keeps now key b (store_guard key mg b)"
    using assms el [of _ _ "\<lambda>e. e\<lparr>elem_data := mg\<rparr>" "receivingMessagesCache b" "nextElement b"]
    by (auto simp: keeps_def bw_ok_def cache_ok_def smap_ok_def store_guard_def lasts_def map_of_map_entry distinct_map_entry
          Cache_Load_live live_def IsExpired_def split: option.splits)
  show "Cache_Load now key (receivingMessagesCache (store_guard key mg b)) =
       map_option (\<lambda>e. e\<lparr>elem_data := mg\<rparr>) (Cache_Load now key (receivingMessagesCache b))"
    by (cases "map_of (receivingMessagesCache b) key")
     (simp_all add: Cache_Load_live live_def store_guard_def map_of_map_entry IsExpired_def)
qed (simp add: store_guard_def)

lemma keeps_trans:
  assumes "keeps now key b b1" "keeps now key b1 b2"
    "Cache_Load now key (receivingMessagesCache b1) = None \<Longrightarrow> Cache_Load now key (receivingMessagesCache b) = None \<or> Cache_Load now key (receivingMessagesCache b2) = None"
  shows "keeps now key b b2"
  using assms unfolding keeps_def by metis

lemma set_delete_le: "x \<in> set (AList.delete k c) \<Longrightarrow> x \<in> set c"
  by (simp add: AList.delete_eq)

lemma keeps_delete:
  assumes "bw_ok b"
  shows "keeps now key b (delete_receiving key b)" "Cache_Load now key (receivingMessagesCache (delete_receiving key b)) = None"
    "handed (delete_receiving key b) = handed b"
    "keeps now key b (delete_sending k b)" "receivingMessagesCache (delete_sending k b) = receivingMessagesCache b"
    "handed (delete_sending k b) = handed b"
    "keeps now key b (report err b)" "receivingMessagesCache (report err b) = receivingMessagesCache b" "handed (report err b) = handed b"
    "keeps now key b b" "keeps now key b (b\<lparr>handed := h\<rparr>)"
  using assms
  by (auto simp: keeps_def bw_ok_def cache_ok_def delete_receiving_def delete_sending_def Map_Delete_def alist.invar_drop report_def
      Cache_Load_live live_def delete_conv' lasts_def dest!: set_delete_le split: option.splits if_splits)

lemma keeps_refresh:
  assumes "bw_ok b" "rb_exchangeKey block = key"
  shows "keeps now key b (refreshReceiveExpiration now block newData b)"
    "map_option elem_data (Cache_Load now key (receivingMessagesCache (refreshReceiveExpiration now block newData b))) =
       map_option elem_data (Cache_Load now key (receivingMessagesCache b))"
    "handed (refreshReceiveExpiration now block newData b) = handed b"
proof -
  have el: "elem_id e < n" if "(k, e) \<in> set (AList.map_entry key f c)" "\<forall>(k, e) \<in> set c. elem_id e < n" "\<And>e. elem_id (f e) = elem_id e"
    for k and e :: "'c Element" and f c n
    using that by (induction c) (auto split: if_splits)
  show "keeps now key b (refreshReceiveExpiration now block newData b)"
    using assms el [of _ _ "\<lambda>e. e\<lparr>ValidUntil := Some (now + expiration b)\<rparr>" "receivingMessagesCache b" "nextElement b"]
    by (auto simp: refreshReceiveExpiration_def keeps_def bw_ok_def cache_ok_def smap_ok_def lasts_def map_of_map_entry distinct_map_entry
          Cache_Load_live live_def IsExpired_def split: option.splits)
  show "map_option elem_data (Cache_Load now key (receivingMessagesCache (refreshReceiveExpiration now block newData b))) =
       map_option elem_data (Cache_Load now key (receivingMessagesCache b))"
    using assms by (auto simp: refreshReceiveExpiration_def bw_ok_def Cache_Load_live live_def map_of_map_entry IsExpired_def split: option.splits)
qed (simp add: refreshReceiveExpiration_def split: option.split)

lemma getPayload_eq:
  assumes "memfile_ok (memfile env) pos" "Options_GetBytes (opts_of r) ETag = Inl err"
  obtains f where "getPayloadFromCachedReceivedMessage env r mg = (mg\<lparr>mg_file := f\<rparr>, Inr (int (length (mf_Bytes (memfile env) (mg_file mg)))))"
    "mf_Bytes (memfile env) f = mf_Bytes (memfile env) (mg_file mg)"
proof -
  obtain f where f: "file_BodySize (memfile env) (mg_file mg) = (f, Inr (int (length (mf_Bytes (memfile env) (mg_file mg)))))"
      "mf_Bytes (memfile env) f = mf_Bytes (memfile env) (mg_file mg)"
    using file_BodySize_eq [OF assms(1)] by blast
  show thesis
    using f(2) by (rule that [rotated]) (simp add: getPayloadFromCachedReceivedMessage_def getBytes_def assms(2) f(1) Let_def split: sum.split)
qed

lemma checkFullBlock_eq:
  "checkFullBlock r szx = (if full_block szx (length (body_data r)) then None else Some ErrRequestEntityIncomplete)"
  by (auto simp: checkFullBlock_def full_block_def PM_BodySize_eq body_data_def split: option.split)

definition realises ::
  "('cm PMessage \<Rightarrow> bool) \<Rightarrow> ('cm, 'f) bw_env \<Rightarrow> time \<Rightarrow> u64 \<Rightarrow> ('cm PMessage \<Rightarrow> 'cm PMessage \<Rightarrow> 'cm PMessage) \<Rightarrow> 'cm PMessage \<Rightarrow> ('cm, 'f) BlockWise \<Rightarrow>
   ('cm, 'f) BlockWise \<times> 'cm PMessage \<times> unit outcome \<Rightarrow> bytes option \<times> verdict \<Rightarrow> bool" where
  "realises ack env now key next_handler w b res out \<longleftrightarrow>
     keeps now key b (fst res) \<and> assembled env now key (fst res) = fst out \<and> shows_verdict ack next_handler w b res (snd out)"

lemma keeps_bw_ok: "keeps now key b b' \<Longrightarrow> bw_ok b'"
  by (simp add: keeps_def)

lemma assembled_data:
  "assembled env now key b =
     map_option (\<lambda>mg. mf_Bytes (memfile env) (mg_file mg)) (map_option elem_data (Cache_Load now key (receivingMessagesCache b)))"
  by (simp add: assembled_def option.map_comp comp_def)

lemma append_realises:
  assumes ops: "memfile_ok (memfile env) pos" and ok: "bw_ok b" and e: "Cache_Load now key (receivingMessagesCache b) = Some e"
    and c: "mf_Bytes (memfile env) (mg_file mg) = c" and off: "0 \<le> off" "off \<le> int (length c)" "off < int (length c) \<Longrightarrow> m"
    and block: "rb_exchangeKey block = key" "rb_more block = m"
    and cont: "\<And>n. \<exists>w. sendReceivedBlockContinue env block sent n = Ret w \<and> code_of w = codes_Continue \<and> ack w"
  shows "realises ack env now key next_handler w b
     (appendReceivedBlock env now next_handler w r mg block sent (int (length c)) off b)
     (if off < int (length c) then (Some c, Acknowledged)
      else if m then (Some (c @ body_data r), Acknowledged) else (None, Delivered (c @ body_data r)))"
proof (cases "off < int (length c)")
  case True
  obtain w1 where "sendReceivedBlockContinue env block sent (int (length c)) = Ret w1" "code_of w1 = codes_Continue" "ack w1"
    using cont by blast
  then show ?thesis
    using True block c e keeps_store_guard(1) [OF ok, where now = now and key = key and mg = mg]
      keeps_store_guard(2) [OF ok, where now = now and key = key and mg = mg] keeps_store_guard(3) [OF ok, where key = key and mg = mg]
    by (simp add: realises_def appendReceivedBlock_def respond_with_def shows_verdict_def assembled_def)
next
  case False
  then have len: "off = int (length c)" using off(2) by simp
  obtain f where f: "copyToPayloadFromOffset env r (mg_file mg) off = (f, Inr (off + int (length (body_data r))))"
      "mf_Bytes (memfile env) f = c @ body_data r"
    using copyToPayload_eq [OF ops, of off "mg_file mg" r] c len by auto
  define mg1 where "mg1 = mg\<lparr>mg_file := f, mg_received := off + int (length (body_data r))\<rparr>"
  define b0 where "b0 = store_guard key mg1 b"
  define b1 where "b1 = refreshReceiveExpiration now block (off + int (length (body_data r)) > off) b0"
  have k0: "keeps now key b b0" "map_option elem_data (Cache_Load now key (receivingMessagesCache b0)) = Some mg1" "handed b0 = handed b"
    using e by (simp_all add: b0_def keeps_store_guard [OF ok])
  note k1 = keeps_refresh [OF keeps_bw_ok [OF k0(1)] block(1), where now = now and newData = "off + int (length (body_data r)) > off", folded b1_def]
  have k: "keeps now key b b1" "map_option elem_data (Cache_Load now key (receivingMessagesCache b1)) = Some mg1" "handed b1 = handed b"
    using keeps_trans [OF k0(1) k1(1)] k0(2,3) k1(2,3) by (cases "Cache_Load now key (receivingMessagesCache b0)"; simp)+
  show ?thesis
  proof (cases m)
    case True
    obtain w1 where w1: "sendReceivedBlockContinue env block sent (off + int (length (body_data r))) = Ret w1" "code_of w1 = codes_Continue" "ack w1"
      using cont by blast
    have "appendReceivedBlock env now next_handler w r mg block sent (int (length c)) off b = (b1, w1, Ret ())"
      using True block w1(1) len by (simp add: appendReceivedBlock_def f(1) [unfolded len] respond_with_def b1_def b0_def mg1_def Let_def)
    moreover have "assembled env now key b1 = Some (c @ body_data r)"
      unfolding assembled_data k(2) by (simp add: mg1_def f(2))
    ultimately show ?thesis
      using False True w1(2,3) k(1,3) by (simp add: realises_def shows_verdict_def)
  next
    case more: False
    define b2 where "b2 = delete_receiving key b1"
    define m1 where "m1 = PM_SetType (Type (msg r)) (PM_Remove (rb_sizeType block) (PM_Remove (rb_blockType block) (mg_Message mg1)))"
    define b3 where "b3 = (if token_of m1 \<noteq> rb_token block then delete_sending key b2 else b2)"
    obtain f' where f': "mf_Seek (memfile env) f 0 SeekStart = (f', Inr 0)" "mf_Bytes (memfile env) f' = c @ body_data r"
      using memfile_seek(1) [OF ops, of 0 f] f(2) by auto
    define mm where "mm = m1\<lparr>body := Some (NewReader (c @ body_data r))\<rparr>"
    have eq: "appendReceivedBlock env now next_handler w r mg block sent (int (length c)) off b = call_next next_handler w mm b3"
      using more block len f'
      by (simp add: appendReceivedBlock_def f(1) [unfolded len] Let_def mm_def b3_def m1_def b2_def b1_def b0_def mg1_def)
    have d: "keeps now key b1 b2" "Cache_Load now key (receivingMessagesCache b2) = None" "handed b2 = handed b1"
      by (simp_all add: b2_def keeps_delete [OF keeps_bw_ok [OF k(1)]])
    have k2: "keeps now key b b2" using keeps_trans [OF k(1) d(1)] d(2) by simp
    have k3: "keeps now key b b3" "Cache_Load now key (receivingMessagesCache b3) = None" "handed b3 = handed b"
      using keeps_trans [OF k2 keeps_delete(4) [OF keeps_bw_ok [OF k2]], where k1 = key] k2 d(2,3) k(3)
      by (auto simp: b3_def keeps_delete(5,6) [OF keeps_bw_ok [OF k2]])
    have k4: "keeps now key b (b3\<lparr>handed := handed b @ [mm]\<rparr>)"
      using keeps_trans [OF k3(1) keeps_delete(11) [OF keeps_bw_ok [OF k3(1)]]] k3(2) by simp
    show ?thesis
      unfolding eq using False more k4 k3(2,3)
      by (simp add: realises_def call_next_def shows_verdict_def assembled_data mm_def body_data_def [of "m1\<lparr>body := x\<rparr>" for x] NewReader_def)
  qed
qed

lemma realises_delete:
  assumes "bw_ok b" "shows_verdict ack next_handler w b (b, w', o') v"
  shows "realises ack env now key next_handler w b (delete_receiving key b, w', o') (None, v)"
  using assms(2) by (cases v) (simp_all add: realises_def keeps_delete [OF assms(1)] assembled_def shows_verdict_def)

lemma cached_realises:
  assumes ops: "memfile_ok (memfile env) pos" and ok: "bw_ok b" and e: "Cache_Load now key (receivingMessagesCache b) = Some e"
    and c: "mf_Bytes (memfile env) (mg_file (elem_data e)) = c" and etag: "Options_GetBytes (opts_of r) ETag = Inl err"
    and szx: "szx \<le> 7" "maxSzx \<le> 7" "szx' \<le> 7" and num: "0 \<le> num" "num \<le> maxBlockNumber" "num * SZX_Size szx' = num * SZX_Size szx"
    and block: "block = (block1 r key matching szx maxSzx num m)\<lparr>rb_szx := szx'\<rparr>"
    and fresh: "opts_sorted (opts_of (fresh env))" and ack: "ack = acknowledges (getSzx szx' maxSzx) num m"
  shows "realises ack env now key next_handler w b
     (processCachedReceivedBlock env now next_handler w r (elem_data e) block sent b)
     (receive rm (maxReceiveBodySize b) (announced_size r) szx num m (body_data r) (Some c))"
proof -
  let ?off = "num * SZX_Size szx"
  have off: "0 \<le> ?off" using num(1) szx(1) by (simp add: SZX_Size_def)
  have b: "rb_exchangeKey block = key" "rb_token block = token_of r" "rb_blockType block = Block1" "rb_szx block = szx'" "rb_reqSzx block = szx"
      "rb_num block = num" "rb_more block = m"
    by (simp_all add: block block1_def)
  obtain f where f: "getPayloadFromCachedReceivedMessage env r (elem_data e) = ((elem_data e)\<lparr>mg_file := f\<rparr>, Inr (int (length c)))"
      "mf_Bytes (memfile env) f = c"
    using getPayload_eq [OF ops etag] c by metis
  have cont: "\<exists>w. sendReceivedBlockContinue env block sent n = Ret w \<and> code_of w = codes_Continue \<and> ack w" for n
    using continue_ok [OF szx(3,2) num(1,2) fresh block] unfolding ack .
  note rej = reject_eq [OF b(3), where b = b and off = ?off and r = r and env = env and w = w and token = "token_of r"]
  show ?thesis
  proof (cases "m \<and> \<not> full_block szx (length (body_data r)) \<or> ?off > int (length c) \<or> ?off < int (length c) \<and> \<not> m")
    case True
    then have "processCachedReceivedBlock env now next_handler w r (elem_data e) block sent b
        = (delete_receiving key b, w, Err ErrRequestEntityIncomplete)"
      by (auto simp: processCachedReceivedBlock_def f(1) b checkFullBlock_eq num(3) Let_def)
    moreover have "receive rm (maxReceiveBodySize b) (announced_size r) szx num m (body_data r) (Some c) = (None, Incomplete)"
      using True by (auto simp: receive_def Let_def)
    ultimately show ?thesis using realises_delete [OF ok] by (simp add: shows_verdict_def)
  next
    case False
    show ?thesis
    proof (cases "maxReceiveBodySize b > 0 \<and> max (?off + int (length (body_data r))) (announced_size r) > maxReceiveBodySize b")
      case True
      then obtain w' where w': "rejectTooLarge env w r (rb_blockType block) (token_of r) ?off b = (report ErrRequestEntityTooLarge b, w', Ret True)"
          "code_of w' = codes_RequestEntityTooLarge"
        using rej off by blast
      have "processCachedReceivedBlock env now next_handler w r (elem_data e) block sent b
          = (delete_receiving key (report ErrRequestEntityTooLarge b), w', Ret ())"
        using False w'(1) by (auto simp: processCachedReceivedBlock_def f(1) b checkFullBlock_eq num(3) Let_def)
      moreover have "receive rm (maxReceiveBodySize b) (announced_size r) szx num m (body_data r) (Some c) = (None, TooLarge)"
        using False True by (auto simp: receive_def Let_def)
      moreover have "realises ack env now key next_handler w b (delete_receiving key (report ErrRequestEntityTooLarge b), w', Ret ()) (None, TooLarge)"
        using keeps_trans [OF keeps_delete(7) [OF ok] keeps_delete(1) [OF keeps_bw_ok [OF keeps_delete(7) [OF ok]]], of now key]
        by (simp add: realises_def shows_verdict_def keeps_delete [OF ok] keeps_delete(2,3) [OF keeps_bw_ok [OF keeps_delete(7) [OF ok]]]
            assembled_def w'(2))
      ultimately show ?thesis by simp
    next
      case small: False
      have rj: "rejectTooLarge env w r (rb_blockType block) (token_of r) ?off b = (b, w, Ret False)"
        using rej off small by blast
      define res where "res = appendReceivedBlock env now next_handler w r ((elem_data e)\<lparr>mg_file := f\<rparr>) block sent (int (length c)) ?off b"
      have app: "realises ack env now key next_handler w b res
          (if ?off < int (length c) then (Some c, Acknowledged)
           else if m then (Some (c @ body_data r), Acknowledged) else (None, Delivered (c @ body_data r)))"
        unfolding res_def
        by (rule append_realises [OF ops ok e]) (use f(2) False off b cont in auto)
      obtain b' w' where res: "res = (b', w', Ret ())"
        using app by (auto simp: realises_def shows_verdict_def split: prod.splits if_splits)
      have "processCachedReceivedBlock env now next_handler w r (elem_data e) block sent b = res"
        using False rj unfolding processCachedReceivedBlock_def f(1) b num(3) Let_def prod.case sum.case
        by (cases m) (simp_all add: checkFullBlock_eq res_def [symmetric] res)
      moreover have "receive rm (maxReceiveBodySize b) (announced_size r) szx num m (body_data r) (Some c)
          = (if ?off < int (length c) then (Some c, Acknowledged)
             else if m then (Some (c @ body_data r), Acknowledged) else (None, Delivered (c @ body_data r)))"
        using False small by (auto simp: receive_def Let_def)
      ultimately show ?thesis using app by simp
    qed
  qed
qed

lemma fold_delete_sending:
  "keeps now key b b' \<Longrightarrow> keeps now key b (fold (\<lambda>d. delete_sending (g d)) ds b')
     \<and> receivingMessagesCache (fold (\<lambda>d. delete_sending (g d)) ds b') = receivingMessagesCache b'
     \<and> handed (fold (\<lambda>d. delete_sending (g d)) ds b') = handed b'"
proof (induction ds arbitrary: b')
  case (Cons d ds)
  note d = keeps_delete(4-6) [OF keeps_bw_ok [OF Cons.prems]]
  have "keeps now key b (delete_sending (g d) b')"
    using Cons.prems d(1) [of now key "g d"] by (auto simp: keeps_def lasts_def d(2))
  then show ?case using Cons.IH [of "delete_sending (g d) b'"] by (simp add: d(2,3))
qed simp

lemma room_eq:
  assumes "bw_ok b"
  shows "room now b \<longleftrightarrow> \<not> (receivingMessagesCacheMaxEntries b > 0 \<and>
     int (length (reclaimed now (receivingMessagesCacheMaxEntries b) (receivingMessagesCache b))) \<ge> receivingMessagesCacheMaxEntries b)"
  using assms length_filter_le [of "\<lambda>(k, e). \<not> IsExpired e now" "receivingMessagesCache b"]
  by (simp add: room_def bw_ok_def reclaimed_def Map_Length_def CheckExpirations_filter del: length_filter_le) linarith

lemma set_update_cases: "(k, x) \<in> set (AList.update key e c) \<Longrightarrow> x = e \<or> (k, x) \<in> set c"
  by (induction c) (auto split: if_splits)

lemma guard_created:
  assumes ops: "memfile_ok (memfile env) pos" and ok: "bw_ok b" and none: "Cache_Load now key (receivingMessagesCache b) = None"
    and sorted: "opts_sorted (opts_of r)"
  shows "\<exists>b'. keeps now key b b' \<and> handed b' = handed b \<and>
     (if room now b then \<exists>e. getOrCreateReceivedMessageGuard env now r key matching (now + expiration b) b = (b', Ret (elem_data e))
            \<and> Cache_Load now key (receivingMessagesCache b') = Some e \<and> mf_Bytes (memfile env) (mg_file (elem_data e)) = []
      else getOrCreateReceivedMessageGuard env now r key matching (now + expiration b) b = (b', Err ErrCacheFull)
            \<and> Cache_Load now key (receivingMessagesCache b') = None)"
proof -
  let ?n = "receivingMessagesCacheMaxEntries b" and ?c = "receivingMessagesCache b"
  let ?c1 = "reclaimed now ?n ?c"
  obtain m0 where m0: "PM_ResetOptionsTo (opts_of r) (fresh env) = Some m0"
    using PM_ResetOptionsTo_eq [OF sorted] by blast
  define mg where "mg = \<lparr>mg_Message = PM_SetCode (code_of r) (PM_SetSequence (sequence r) (PM_SetToken (token_of r) m0)),
      mg_file = mf_New (memfile env) [], mg_matchingKey = matching, mg_received = 0, mg_exchange = key\<rparr>"
  define e where "e = NewElement (nextElement b) mg (Some (now + expiration b))"
  have c: "cache_ok ?c" and fr: "fresh_elem e ?c" and ex: "0 \<le> expiration b" and ids: "\<forall>(k, e) \<in> set ?c. elem_id e < nextElement b"
    using ok by (auto simp: bw_ok_def fresh_elem_def e_def NewElement_def)
  note r = reclaimed_ok [where now = now and n = ?n, OF c]
  have l1: "live now ?c1 key = None" using none r(2) by (simp add: Cache_Load_live)
  have sub: "x \<in> set ?c1 \<Longrightarrow> x \<in> set ?c" for x
    by (auto simp: reclaimed_def CheckExpirations_filter [OF c] split: if_splits)
  have nk: "map_of ?c1 key = None" if "\<not> room now b"
  proof -
    have "?n > 0 \<and> Map_Length ?c \<ge> ?n" using that r(3) by (auto simp: room_eq [OF ok] Map_Length_def)
    then show ?thesis using none by (simp add: reclaimed_def CheckExpirations_lookup [OF c] Cache_Load_live)
  qed
  obtain calls where eq: "Cache_LoadOrStoreWithLimit now key e ?n ?c =
      (if room now b then (AList.update key e ?c1, calls, Inr (e, False)) else (?c1, calls, Inl ErrCacheFull))"
    using LoadOrStoreWithLimit_eq [OF c fr refl, where key = key and now = now and n = ?n] l1 nk room_eq [OF ok, of now]
    by (cases "map_of ?c1 key"; cases "room now b") (auto simp: live_def split: if_splits)
  define c' where "c' = (if room now b then AList.update key e ?c1 else ?c1)"
  define b' where "b' = b\<lparr>receivingMessagesCache := c', nextElement := Suc (nextElement b)\<rparr>"
  have id: "elem_id x < Suc (nextElement b)" if "(k, x) \<in> set c'" for k x
  proof -
    have "x = e \<or> (k, x) \<in> set ?c" using that sub set_update_cases [of k x key e ?c1] by (auto simp: c'_def split: if_splits)
    then show ?thesis using ids by (auto simp: e_def NewElement_def)
  qed
  have k: "keeps now key b b'"
    using r(1) ex id l1 by (auto simp: keeps_def bw_ok_def b'_def cache_ok_def c'_def alist.invar_put lasts_def update_conv' Cache_Load_live
        e_def NewElement_def)
  define b2 where "b2 = fold (\<lambda>d. delete_sending (mg_exchange d)) calls b'"
  have k2: "keeps now key b b2" "receivingMessagesCache b2 = c'" "handed b2 = handed b"
    using fold_delete_sending [OF k, of mg_exchange calls] by (simp_all add: b2_def b'_def)
  have g: "getOrCreateReceivedMessageGuard env now r key matching (now + expiration b) b =
      (b2, if room now b then Ret mg else Err ErrCacheFull)"
    using eq none by (simp add: getOrCreateReceivedMessageGuard_def m0 mg_def [symmetric] e_def [symmetric] Let_def b2_def b'_def c'_def e_def NewElement_def)
  show ?thesis
    using k2 g memfile_new [OF ops, of "[]"] l1 ex
    by (intro exI [of _ b2]) (auto simp: Cache_Load_live c'_def live_def update_conv' e_def NewElement_def mg_def IsExpired_def)
qed

lemma single_realises:
  assumes ok: "bw_ok b" and "blockType = Block1" and none: "Cache_Load now key (receivingMessagesCache b) = None"
  shows "realises ack env now key next_handler w b
     (case rejectTooLarge env w r blockType token 0 b of
        (b2, w2, Err err) \<Rightarrow> (b2, w2, Err err)
      | (b2, w2, Panic) \<Rightarrow> (b2, w2, Panic)
      | (b2, w2, Ret True) \<Rightarrow> (b2, w2, Ret ())
      | (b2, w2, Ret False) \<Rightarrow> call_next next_handler w2 r b2)
     (receive rm (maxReceiveBodySize b) (announced_size r) szx 0 False (body_data r) None)"
proof -
  note rej = reject_eq [OF assms(2), where b = b and off = 0 and r = r and env = env and w = w and token = token]
  show ?thesis
  proof (cases "maxReceiveBodySize b > 0 \<and> max (int (length (body_data r))) (announced_size r) > maxReceiveBodySize b")
    case True
    then obtain w' where "rejectTooLarge env w r blockType token 0 b = (report ErrRequestEntityTooLarge b, w', Ret True)"
        "code_of w' = codes_RequestEntityTooLarge"
      using rej by auto
    then show ?thesis
      using True none by (simp add: realises_def receive_def keeps_delete [OF ok] assembled_def shows_verdict_def)
  next
    case False
    then have "rejectTooLarge env w r blockType token 0 b = (b, w, Ret False)" using rej by auto
    then show ?thesis
      using False none
      by (simp add: realises_def receive_def call_next_def keeps_delete(11) [OF ok] assembled_def shows_verdict_def)
  qed
qed

lemma receive_start:
  "receive True limit announced szx 0 True payload None = receive True limit announced szx 0 True payload (Some [])"
  by (simp add: receive_def)

lemma realises_trans:
  assumes "keeps now key b b'" "handed b' = handed b" "Cache_Load now key (receivingMessagesCache b') = Some e"
    "realises ack env now key next_handler w b' res out"
  shows "realises ack env now key next_handler w b res out"
  using assms(4) keeps_trans [OF assms(1)] assms(2,3) by (auto simp: realises_def shows_verdict_def split: prod.splits verdict.splits)

lemma block1_step:
  assumes ops: "memfile_ok (memfile env) pos" and ok: "bw_ok b" and fresh: "opts_sorted (opts_of (fresh env))" and maxSzx: "maxSzx \<le> 7"
    and r: "isBodyMethod (code_of r)" "opts_sorted (opts_of r)" "vals (opts_of r) ETag = []"
    and block: "getUint32 r Block1 = (v, None)" "DecodeBlockOption v = (szx, num, m, None)"
    and sent: "getSentRequest env now key (token_of r) b = Ret None"
  shows "realises (acknowledges (getSzx szx maxSzx) num m) env now key next_handler w b
     (processReceivedMessage env now next_handler w r maxSzx key matching Block1 Size1 b)
     (receive (room now b) (maxReceiveBodySize b) (announced_size r) szx num m (body_data r) (assembled env now key b))"
proof -
  have etag: "Options_GetBytes (opts_of r) ETag = Inl ErrOptionNotFound" using r by (simp add: GetBytes_vals)
  have obs: "\<not> isObserveResponse r" "code_of r \<noteq> codes_GET" "code_of r \<noteq> codes_DELETE"
    using r(1) by (auto simp: isObserveResponse_def isBodyMethod_def)
  note p = DecodeBlockOption_parts(1-3) [OF block(2)]
  have eq: "processReceivedMessage env now next_handler w r maxSzx key matching Block1 Size1 b
      = processReceivedBlock env now next_handler w r (block1 r key matching szx maxSzx num m) b"
    using obs block by (simp add: processReceivedMessage_def block1_def)
  show ?thesis
  proof (cases "Cache_Load now key (receivingMessagesCache b)")
    case (Some e)
    have "processReceivedBlock env now next_handler w r (block1 r key matching szx maxSzx num m) b
        = processCachedReceivedBlock env now next_handler w r (elem_data e) (block1 r key matching szx maxSzx num m) None b"
      using Some obs(1) sent by (simp add: processReceivedBlock_def)
    then show ?thesis
      using cached_realises [OF ops ok Some refl etag p(1) maxSzx p(1) p(2,3) refl _ fresh refl, where matching = matching and m = m]
      by (simp add: eq assembled_def Some block1_def)
  next
    case None
    show ?thesis
    proof (cases "num = 0 \<and> m")
      case False
      then show ?thesis
        using None obs(1) sent single_realises [OF ok refl None, where rm = "room now b" and szx = szx and r = r and token = "token_of r" and env = env and w = w and next_handler = next_handler]
        by (auto simp: eq processReceivedBlock_def assembled_def receive_def realises_def shows_verdict_def keeps_delete [OF ok])
    next
      case True
      obtain b' where b': "keeps now key b b'" "handed b' = handed b"
         "if room now b then \<exists>e. getOrCreateReceivedMessageGuard env now r key matching (now + expiration b) b = (b', Ret (elem_data e))
            \<and> Cache_Load now key (receivingMessagesCache b') = Some e \<and> mf_Bytes (memfile env) (mg_file (elem_data e)) = []
          else getOrCreateReceivedMessageGuard env now r key matching (now + expiration b) b = (b', Err ErrCacheFull)
            \<and> Cache_Load now key (receivingMessagesCache b') = None"
        using guard_created [OF ops ok None r(2)] by blast
      show ?thesis
      proof (cases "room now b")
        case rm: True
        then obtain e where e: "getOrCreateReceivedMessageGuard env now r key matching (now + expiration b) b = (b', Ret (elem_data e))"
            "Cache_Load now key (receivingMessagesCache b') = Some e" "mf_Bytes (memfile env) (mg_file (elem_data e)) = []"
          using b'(3) by auto
        let ?block = "(block1 r key matching szx maxSzx num m)\<lparr>rb_szx := getSzx szx maxSzx\<rparr>"
        define res where "res = processCachedReceivedBlock env now next_handler w r (elem_data e) ?block None b'"
        have "processReceivedBlock env now next_handler w r (block1 r key matching szx maxSzx num m) b = res"
          using None obs(1) sent True e(1) by (simp add: processReceivedBlock_def getValidUntil_def Let_def res_def)
        moreover have "realises (acknowledges (getSzx szx maxSzx) num m) env now key next_handler w b' res
            (receive True (maxReceiveBodySize b') (announced_size r) szx num m (body_data r) (Some []))"
          unfolding res_def
          by (rule cached_realises [OF ops keeps_bw_ok [OF b'(1)] e(2,3) etag p(1) maxSzx _ p(2,3) _ refl fresh])
            (use True p(1) maxSzx in \<open>auto simp: getSzx_def\<close>)
        moreover have "maxReceiveBodySize b' = maxReceiveBodySize b" using b'(1) by (simp add: keeps_def)
        ultimately show ?thesis
          using True rm receive_start [where szx = szx and payload = "body_data r"] realises_trans [OF b'(1,2) e(2)]
          by (simp add: eq assembled_def None)
      next
        case False
        then show ?thesis
          using None obs(1) sent True b'
          by (simp add: eq processReceivedBlock_def getValidUntil_def Let_def receive_def realises_def shows_verdict_def assembled_def)
      qed
    qed
  qed
qed

text \<open>
  C2.  The engine implements the abstract receiver: whatever was received before, a request with a Block1
  option is acknowledged with 2.31, handed to the application with the whole body, refused as
  incomplete, as too large or for lack of room exactly when the receiver says so, and what the
  engine has assembled afterwards is what the receiver has.  Blocks that repeat received bytes are
  acknowledged and change nothing; a refused or completed transfer leaves nothing behind.
\<close>

theorem block1_refines:
  assumes ops: "memfile_ok (memfile env) pos" and ok: "bw_ok b" and fresh: "opts_sorted (opts_of (fresh env))" and maxSzx: "maxSzx \<le> 7"
    and r: "isBodyMethod (code_of r)" "opts_sorted (opts_of r)" "vals (opts_of r) ETag = []"
    and block: "getUint32 r Block1 = (v, None)" "DecodeBlockOption v = (szx, num, m, None)"
    and sent: "getSentRequest env now key (token_of r) b = Ret None"
  shows "realises (acknowledges (getSzx szx maxSzx) num m) env now key next_handler w b
     (processReceivedMessage env now next_handler w r maxSzx key matching Block1 Size1 b)
     (receive (room now b) (maxReceiveBodySize b) (announced_size r) szx num m (body_data r) (assembled env now key b))"
  using assms by (rule block1_step)

subsection \<open>A whole body\<close>

text \<open>The requests of a transfer, each at its time, with the response and the result of each call.\<close>

fun receive_all ::
  "('cm, 'f) bw_env \<Rightarrow> ('cm PMessage \<Rightarrow> 'cm PMessage \<Rightarrow> 'cm PMessage) \<Rightarrow> 'cm PMessage \<Rightarrow> SZX \<Rightarrow> u64 \<Rightarrow> u64 \<Rightarrow>
   (time \<times> 'cm PMessage) list \<Rightarrow> ('cm, 'f) BlockWise \<Rightarrow> ('cm, 'f) BlockWise \<times> ('cm PMessage \<times> unit outcome) list" where
  "receive_all env next_handler w maxSzx key matching [] b = (b, [])"
| "receive_all env next_handler w maxSzx key matching ((now, r) # rs) b =
     (let (b1, out) = processReceivedMessage env now next_handler w r maxSzx key matching Block1 Size1 b;
          (b2, outs) = receive_all env next_handler w maxSzx key matching rs b1
      in (b2, out # outs))"

definition block1_request :: "SZX \<Rightarrow> bytes \<Rightarrow> int \<Rightarrow> bool \<Rightarrow> 'cm PMessage \<Rightarrow> bool" where
  "block1_request szx token num m r \<longleftrightarrow>
     isBodyMethod (code_of r) \<and> opts_sorted (opts_of r) \<and> vals (opts_of r) ETag = []
     \<and> token_of r = token \<and> snd (getUint32 r Block1) = None
     \<and> DecodeBlockOption (fst (getUint32 r Block1)) = (szx, num, m, None)"

fun in_order :: "SZX \<Rightarrow> bytes \<Rightarrow> int \<Rightarrow> (time \<times> 'cm PMessage) list \<Rightarrow> bool" where
  "in_order szx token num [] \<longleftrightarrow> True"
| "in_order szx token num ((_, r) # rs) \<longleftrightarrow>
     block1_request szx token num (rs \<noteq> []) r \<and> (rs \<noteq> [] \<longrightarrow> int (length (body_data r)) = SZX_Size szx)
     \<and> in_order szx token (num + 1) rs"

definition bodies :: "(time \<times> 'cm PMessage) list \<Rightarrow> bytes" where
  "bodies rs = concat (map (body_data \<circ> snd) rs)"

lemma bodies_simps [simp]: "bodies [] = []" "bodies ((t, r) # rs) = body_data r @ bodies rs"
  by (simp_all add: bodies_def)

lemma assembled_lasts:
  "lasts t key b \<Longrightarrow> now \<le> t \<Longrightarrow> now' \<le> t \<Longrightarrow> assembled env now key b = assembled env now' key b"
  by (auto simp: assembled_def lasts_def Cache_Load_live live_def IsExpired_def split: option.splits)

definition within :: "int \<Rightarrow> int \<Rightarrow> bool" where "within limit n \<longleftrightarrow> limit \<le> 0 \<or> n \<le> limit"

lemma receive_next:
  assumes "0 \<le> num" "int (length c) = num * SZX_Size szx" "m \<Longrightarrow> int (length payload) = SZX_Size szx"
    "num = 0 \<Longrightarrow> rm \<and> st = None" "num \<noteq> 0 \<Longrightarrow> st = Some c"
    "within limit (int (length c + length payload))" "within limit announced"
  shows "receive rm limit announced szx num m payload st = (if m then (Some (c @ payload), Acknowledged) else (None, Delivered (c @ payload)))"
  using assms by (cases "num = 0") (auto simp: receive_def Let_def full_block_def within_def)

lemma getSentRequest_none:
  "Cache_Load now key (sendingMessagesCache b) = None \<Longrightarrow> sentRequestFromOutside env token = None \<Longrightarrow>
     getSentRequest env now key token b = Ret None"
  by (simp add: getSentRequest_def)

lemma transfer_induct:
  assumes ops: "memfile_ok (memfile env) pos" and maxSzx: "maxSzx \<le> 7" and out: "sentRequestFromOutside env token = None"
    and fresh: "opts_sorted (opts_of (fresh env))"
  shows "bw_ok b \<Longrightarrow> rs \<noteq> [] \<Longrightarrow> in_order szx token num rs \<Longrightarrow> 0 \<le> num \<Longrightarrow> int (length c) = num * SZX_Size szx
     \<Longrightarrow> \<forall>(t, r) \<in> set rs. start \<le> t \<and> t \<le> until \<Longrightarrow> until \<le> start + expiration b
     \<Longrightarrow> \<forall>t. Cache_Load t key (sendingMessagesCache b) = None
     \<Longrightarrow> (num = 0 \<Longrightarrow> room (fst (hd rs)) b \<and> assembled env (fst (hd rs)) key b = None \<and> c = [])
     \<Longrightarrow> (num \<noteq> 0 \<Longrightarrow> lasts until key b \<and> assembled env until key b = Some c)
     \<Longrightarrow> within (maxReceiveBodySize b) (int (length c + length (bodies rs)))
     \<Longrightarrow> \<forall>(t, r) \<in> set rs. within (maxReceiveBodySize b) (announced_size r)
     \<Longrightarrow> \<exists>b' outs m. receive_all env next_handler w maxSzx key matching rs b = (b', outs) \<and> bw_ok b'
           \<and> handed b' = handed b @ [m] \<and> body_data m = c @ bodies rs \<and> assembled env (fst (last rs)) key b' = None
           \<and> (\<forall>(w', o') \<in> set (butlast outs). o' = Ret () \<and> code_of w' = codes_Continue)
           \<and> length outs = length rs \<and> last outs = (next_handler w m, Ret ())"
proof (induction rs arbitrary: b c num)
  case (Cons tr rs)
  obtain t r where tr: "tr = (t, r)" by (cases tr)
  let ?m = "rs \<noteq> []"
  have q: "isBodyMethod (code_of r)" "opts_sorted (opts_of r)" "vals (opts_of r) ETag = []" "within (maxReceiveBodySize b) (announced_size r)" "token_of r = token"
      "snd (getUint32 r Block1) = None" "DecodeBlockOption (fst (getUint32 r Block1)) = (szx, num, ?m, None)"
      "?m \<Longrightarrow> int (length (body_data r)) = SZX_Size szx" "in_order szx token (num + 1) rs" "start \<le> t" "t \<le> until"
    using Cons.prems(3,6,12) by (auto simp: tr block1_request_def)
  have v: "getUint32 r Block1 = (fst (getUint32 r Block1), None)" using q(6) by (simp add: prod_eq_iff)
  have st: "num = 0 \<Longrightarrow> room t b \<and> assembled env t key b = None" "num \<noteq> 0 \<Longrightarrow> assembled env t key b = Some c"
    using Cons.prems(9,10) assembled_lasts [of until key b until t env] q(11) by (auto simp: tr)
  obtain b1 w1 o1 where p: "processReceivedMessage env t next_handler w r maxSzx key matching Block1 Size1 b = (b1, w1, o1)"
    by (metis prod_cases3)
  have "getSentRequest env t key (token_of r) b = Ret None"
    unfolding q(5) by (rule getSentRequest_none) (use Cons.prems(8) out in auto)
  from block1_step [OF ops Cons.prems(1) fresh maxSzx q(1-3) v q(7) this, of next_handler w matching]
  have step: "realises (acknowledges (getSzx szx maxSzx) num ?m) env t key next_handler w b (b1, w1, o1)
      (if ?m then (Some (c @ body_data r), Acknowledged) else (None, Delivered (c @ body_data r)))"
    unfolding p
    by (subst (asm) receive_next [OF Cons.prems(4,5) q(8)]) (use st Cons.prems(11) q(4) in \<open>auto simp: tr within_def\<close>)
  have k: "keeps t key b b1" and ok1: "bw_ok b1" using step by (auto simp: realises_def intro: keeps_bw_ok)
  show ?case
  proof (cases "rs = []")
    case True
    then show ?thesis using step ok1 p by (auto simp: realises_def shows_verdict_def tr)
  next
    case False
    have s1: "assembled env t key b1 = Some (c @ body_data r)" "o1 = Ret ()" "code_of w1 = codes_Continue" "handed b1 = handed b"
      using step False by (simp_all add: realises_def shows_verdict_def)
    have mx: "maxReceiveBodySize b1 = maxReceiveBodySize b" using k by (simp add: keeps_def)
    have l1: "lasts until key b1"
    proof -
      have "until \<le> t + expiration b" using Cons.prems(7) q(10) by simp
      moreover have "lasts until key b \<or> Cache_Load t key (receivingMessagesCache b) = None"
        using Cons.prems(10) st(1) by (cases "num = 0") (auto simp: assembled_def)
      moreover have "Cache_Load t key (receivingMessagesCache b1) \<noteq> None" using s1(1) by (auto simp: assembled_def)
      ultimately show ?thesis using k by (auto simp: keeps_def)
    qed
    have "\<exists>b' outs m. receive_all env next_handler w maxSzx key matching rs b1 = (b', outs) \<and> bw_ok b'
           \<and> handed b' = handed b1 @ [m] \<and> body_data m = (c @ body_data r) @ bodies rs \<and> assembled env (fst (last rs)) key b' = None
           \<and> (\<forall>(w', o') \<in> set (butlast outs). o' = Ret () \<and> code_of w' = codes_Continue)
           \<and> length outs = length rs \<and> last outs = (next_handler w m, Ret ())"
    proof (rule Cons.IH [OF ok1 False q(9)])
      show "int (length (c @ body_data r)) = (num + 1) * SZX_Size szx"
        using Cons.prems(5) q(8) False by (simp add: algebra_simps)
      show "num + 1 \<noteq> 0 \<Longrightarrow> lasts until key b1 \<and> assembled env until key b1 = Some (c @ body_data r)"
        using l1 s1(1) assembled_lasts [OF l1, of until t env] q(11) by simp
      show "within (maxReceiveBodySize b1) (int (length (c @ body_data r) + length (bodies rs)))"
        using Cons.prems(11) mx by (simp add: tr ac_simps)
      show "\<forall>(t, r) \<in> set rs. within (maxReceiveBodySize b1) (announced_size r)"
        using Cons.prems(12) mx by (simp add: tr)
    qed (use Cons.prems(4,6-8) k in \<open>auto simp: tr keeps_def\<close>)
    then obtain b' outs m where "receive_all env next_handler w maxSzx key matching rs b1 = (b', outs)" "bw_ok b'"
       "handed b' = handed b1 @ [m]" "body_data m = (c @ body_data r) @ bodies rs" "assembled env (fst (last rs)) key b' = None"
       "\<forall>(w', o') \<in> set (butlast outs). o' = Ret () \<and> code_of w' = codes_Continue"
       "length outs = length rs" "last outs = (next_handler w m, Ret ())" by blast
    then show ?thesis
      using False s1 p by (intro exI [of _ b'] exI [of _ "(w1, o1) # outs"] exI [of _ m]) (auto simp: tr)
  qed
qed simp

text \<open>
  A body that arrives in order in blocks of one size, all at times before the transfer expires, is handed
  to the application exactly once and whole: every block before the last is acknowledged with
  2.31, the response to the last is the one of the application, and nothing of the transfer is left.
\<close>

lemma block1_transfer:
  assumes "memfile_ok (memfile env) pos" "bw_ok b" "opts_sorted (opts_of (fresh env))" "maxSzx \<le> 7" "sentRequestFromOutside env token = None"
    "rs \<noteq> []" "in_order szx token 0 rs" "\<forall>(t, r) \<in> set rs. start \<le> t \<and> t \<le> start + expiration b"
    "\<forall>t. Cache_Load t key (sendingMessagesCache b) = None"
    "room (fst (hd rs)) b" "assembled env (fst (hd rs)) key b = None"
    "within (maxReceiveBodySize b) (int (length (bodies rs)))" "\<forall>(t, r) \<in> set rs. within (maxReceiveBodySize b) (announced_size r)"
  shows "\<exists>b' outs m. receive_all env next_handler w maxSzx key matching rs b = (b', outs) \<and> bw_ok b'
     \<and> handed b' = handed b @ [m] \<and> body_data m = bodies rs \<and> assembled env (fst (last rs)) key b' = None
     \<and> (\<forall>(w', o') \<in> set (butlast outs). o' = Ret () \<and> code_of w' = codes_Continue)
     \<and> length outs = length rs \<and> last outs = (next_handler w m, Ret ())"
  using transfer_induct [OF assms(1,4,5,3,2,6,7), of "[]" start "start + expiration b" key next_handler w matching] assms(8-13) by simp

subsection \<open>Examples\<close>

text \<open>A memory file as a list of bytes with a position.\<close>

definition list_file :: "(bytes \<times> nat) memfile_ops" where
  "list_file =
     \<lparr>mf_New = (\<lambda>data. (data, 0)),
      mf_Seek = (\<lambda>f off w.
        (let target = (case w of SeekStart \<Rightarrow> off | SeekCurrent \<Rightarrow> int (snd f) + off | SeekEnd \<Rightarrow> int (length (fst f)) + off)
         in if target < 0 then (f, Inl (ErrOther ''seek'')) else ((fst f, nat target), Inr target))),
      mf_Write = (\<lambda>f data. ((take (snd f) (fst f) @ data @ drop (snd f + length data) (fst f), snd f + length data), Inr (int (length data)))),
      mf_Truncate = (\<lambda>f n. ((take (nat n) (fst f), snd f), None)),
      mf_Bytes = fst\<rparr>"

lemma list_file_ok: "memfile_ok list_file snd"
  unfolding memfile_ok_def by (simp add: list_file_def Let_def split: whence.split)

definition server_env :: "(unit, bytes \<times> nat) bw_env" where
  "server_env = \<lparr>fresh = NewMessage, deadlineOf = (\<lambda>_. None), sentRequestFromOutside = (\<lambda>_. None), newToken = Inr [9], memfile = list_file\<rparr>"

definition post :: "bytes \<Rightarrow> bytes \<Rightarrow> unit PMessage" where
  "post block data = NewMessage\<lparr>msg := \<lparr>Token = [1], Options = [\<lparr>ID = Block1, Value = block\<rparr>], Code = codes_POST, Payload = [],
     MessageID = 0, Type = 0\<rparr>, body := Some (NewReader data)\<rparr>"

lemma post_simps [simp]:
  "code_of (post block data) = codes_POST" "token_of (post block data) = [1]" "body_data (post block data) = data"
  "opts_of (post block data) = [\<lparr>ID = Block1, Value = block\<rparr>]"
  by (simp_all add: post_def body_data_def NewReader_def)

lemma server_env_simps [simp]: "memfile server_env = list_file" "sentRequestFromOutside server_env token = None"
  "opts_of (fresh server_env) = []"
  by (simp_all add: server_env_def NewMessage_def)

definition server :: "(unit, bytes \<times> nat) BlockWise" where "server = BlockWise_New 100"

lemma new_engine: "bw_ok server" "room now server" "assembled env now key server = None"
    "Cache_Load t key (sendingMessagesCache server) = None" "handed server = []"
    "maxReceiveBodySize server = 0" "expiration server = 100"
  by (simp_all add: server_def bw_ok_def BlockWise_New_def NewMap_def cache_ok_def smap_ok_def room_def DefaultReceivingMessagesCacheMaxEntries_def
      assembled_def Cache_Load_live live_def)

lemma post_block1:
  assumes "uint_wire v = block" "DecodeBlockOption v = (szx, num, m, None)"
  shows "block1_request szx [1] num m (post block data)" "getUint32 (post block data) Block1 = (v, None)"
proof -
  have s: "opts_sorted (opts_of (post block data))" by (simp add: opts_sorted_Cons)
  show "getUint32 (post block data) Block1 = (v, None)"
    using GetUint32_vals [OF s, of Block1] DecodeUint32_uint_wire [of v] assms(1) by (simp add: vals_def)
  then show "block1_request szx [1] num m (post block data)"
    using s assms(2) by (simp add: block1_request_def isBodyMethod_def vals_def)
qed

lemma example_blocks:
  "uint_wire 8 = [8]" "uint_wire 16 = [16]" "uint_wire 56 = [56]"
  "DecodeBlockOption 8 = (0, 0, True, None)" "DecodeBlockOption 16 = (0, 1, False, None)" "DecodeBlockOption 56 = (0, 3, True, None)"
  by (simp_all add: uint_wire_def DecodeBlockOption_eq maxBlockNumber_def)

theorem block1_refines_witness:
  "snd (snd (processReceivedMessage server_env 5 (\<lambda>w m. w) NewMessage (post [56] (replicate 16 0)) 6 77 78 Block1 Size1 server))
     = Err ErrRequestEntityIncomplete"
proof -
  let ?r = "post [56] (replicate 16 0)"
  have q: "block1_request 0 [1] 3 True ?r" "getUint32 ?r Block1 = (56, None)"
    using post_block1 [OF example_blocks(3,6)] by auto
  have "realises (acknowledges (getSzx 0 6) 3 True) server_env 5 77 (\<lambda>w m. w) NewMessage server
      (processReceivedMessage server_env 5 (\<lambda>w m. w) NewMessage ?r 6 77 78 Block1 Size1 server)
      (receive (room 5 server) (maxReceiveBodySize server) (announced_size ?r) 0 3 True (body_data ?r)
        (assembled server_env 5 77 server))"
    by (rule block1_refines [OF _ new_engine(1) _ _ _ _ _ q(2) example_blocks(6)])
      (use q(1) list_file_ok in \<open>auto simp: block1_request_def intro!: getSentRequest_none new_engine\<close>)
  then show ?thesis
    by (simp add: new_engine receive_def realises_def shows_verdict_def split: prod.splits)
qed

lemma block1_transfer_example:
  "\<exists>b' outs m. receive_all server_env (\<lambda>w m. w) NewMessage 6 77 78
       [(5, post [8] (replicate 16 7)), (60, post [16] [1])] server = (b', outs)
     \<and> handed b' = [m] \<and> body_data m = replicate 16 7 @ [1]"
proof -
  let ?rs = "[(5 :: time, post [8] (replicate 16 7)), (60, post [16] [1])]"
  have o: "in_order 0 [1] 0 ?rs"
    using post_block1(1) [OF example_blocks(1,4), of "replicate 16 7"] post_block1(1) [OF example_blocks(2,5), of "[1]"]
    by (simp add: SZX_Size_def)
  have "\<exists>b' outs m. receive_all server_env (\<lambda>w m. w) NewMessage 6 77 78 ?rs server = (b', outs) \<and> bw_ok b'
     \<and> handed b' = handed server @ [m] \<and> body_data m = bodies ?rs \<and> assembled server_env (fst (last ?rs)) 77 b' = None
     \<and> (\<forall>(w', o') \<in> set (butlast outs). o' = Ret () \<and> code_of w' = codes_Continue)
     \<and> length outs = length ?rs \<and> last outs = (NewMessage, Ret ())"
    by (rule block1_transfer [where pos = snd and start = 5 and next_handler = "\<lambda>w m. w" and w = NewMessage, OF _ new_engine(1) _ _ _ _ o]) (auto simp: new_engine list_file_ok within_def)
  then show ?thesis by (auto simp: new_engine)
qed

end
