(* ===== verification/Block_Send.thy ===== *)
theory Block_Send
  imports Block1_Receive
begin

text \<open>
  The sending side of the block-wise engine: the block it makes for a block option, a whole upload between a
  client and a server engine, and two ways in which sending goes wrong.
\<close>

definition block_type :: "u16 \<Rightarrow> u16" where "block_type code = (if isBodyMethod code then Block1 else Block2)"
definition size_type :: "u16 \<Rightarrow> u16" where "size_type code = (if isBodyMethod code then Size1 else Size2)"

text \<open>Where the block for an option starts: Block1 options are acknowledgements, so the next block is sent.\<close>

definition block_offset :: "u16 \<Rightarrow> SZX \<Rightarrow> u32 \<Rightarrow> int \<Rightarrow> int" where
  "block_offset code szx maxMessageSize num =
     num * SZX_Size szx + (if isBodyMethod code then bufferSize szx maxMessageSize else 0)"

lemma SZX_Size_pos: "szx \<le> 7 \<Longrightarrow> 0 < SZX_Size szx"
  by (simp add: SZX_Size_def not_less push_bit_eq_mult)

lemma bufferSize_nonneg: "szx \<le> 7 \<Longrightarrow> 0 \<le> bufferSize szx n"
  using SZX_Size_pos [of szx] by (auto simp: bufferSize_def pos_imp_zdiv_nonneg_iff intro!: mult_nonneg_nonneg)

lemma seek_read:
  assumes "0 \<le> off"
  shows "reader_Seek bdy off SeekStart = (bdy\<lparr>rd_pos := nat off\<rparr>, Inr off)"
    "reader_ReadFull (bdy\<lparr>rd_pos := nat off\<rparr>) n =
       (bdy\<lparr>rd_pos := nat off + length (take n (drop (nat off) (rd_data bdy)))\<rparr>, take n (drop (nat off) (rd_data bdy)),
        if nat off + n \<le> length (rd_data bdy) \<or> n = 0 then None
        else if nat off < length (rd_data bdy) then Some io_ErrUnexpectedEOF else Some io_EOF)"
  using assms by (auto simp: reader_Seek_def reader_ReadFull_def reader_rest_def Let_def)

lemma slice_eq:
  assumes body: "body m = Some bdy" and sorted: "opts_sorted (opts_of m)" and szx: "maxSZX \<le> 7" "szx = getSzx szx0 maxSZX"
    and dec: "DecodeBlockOption block = (szx0, num, mb, None)"
    and off: "off = block_offset (code_of m) szx maxMessageSize num" "off \<le> int (length (rd_data bdy))"
    and len: "length (rd_data bdy) < 2 ^ 32" and num: "off div SZX_Size szx \<le> maxBlockNumber"
    and B: "B = bufferSize szx maxMessageSize"
  shows "\<exists>m' v. createSendingMessage env m maxSZX maxMessageSize block = Ret (m', off + B < int (length (rd_data bdy)))
     \<and> body m' = Some (NewReader (take (nat B) (drop (nat off) (rd_data bdy))))
     \<and> code_of m' = code_of m \<and> token_of m' = token_of m \<and> Type (msg m') = Type (msg m)
     \<and> opts_of m' = opt_put (opt_put (opts_of m) (size_type (code_of m)) (uint_wire (of_nat (length (rd_data bdy)))))
          (block_type (code_of m)) (uint_wire v)
     \<and> DecodeBlockOption v = (szx, off div SZX_Size szx, off + B < int (length (rd_data bdy)), None)"
proof -
  note p = DecodeBlockOption_parts(1-3) [OF dec]
  have s7: "szx \<le> 7" using p(1) szx by (simp add: getSzx_def)
  have B0: "0 \<le> B" using bufferSize_nonneg [OF s7] B by simp
  have off0: "0 \<le> off" using p(2) SZX_Size_pos [OF s7] B0 B by (simp add: off(1) block_offset_def)
  obtain m0 where m0: "PM_ResetOptionsTo (opts_of m) (PM_SetCode (code_of m) (fresh env)) = Some m0"
      "code_of m0 = code_of m" "opts_of m0 = opts_of m"
    using PM_ResetOptionsTo_eq [OF sorted, of "PM_SetCode (code_of m) (fresh env)"] by (auto simp: set_options_def PM_SetCode_def)
  let ?m1 = "PM_SetType (Type (msg m)) (PM_SetToken (token_of m) m0)"
  let ?n = "of_nat (length (rd_data bdy)) :: u32"
  obtain m2 where m2: "PM_SetOptionUint32 (size_type (code_of m)) ?n ?m1 = Some m2" "code_of m2 = code_of m" "token_of m2 = token_of m"
      "Type (msg m2) = Type (msg m)" "opts_of m2 = opt_put (opts_of m) (size_type (code_of m)) (uint_wire ?n)"
    using set_uint32 [of "size_type (code_of m)" ?n ?m1] m0(2,3) by (auto simp: PM_SetType_def PM_SetToken_def)
  let ?buf = "take (nat B) (drop (nat off) (rd_data bdy))"
  have rd: "int (length ?buf) = (if off + B \<le> int (length (rd_data bdy)) then B else int (length (rd_data bdy)) - off)"
    using B0 off0 off(2) by (auto simp: min_def)
  have more: "(off + int (length ?buf) \<noteq> int (length (rd_data bdy))) = (off + B < int (length (rd_data bdy)))"
    using rd by auto
  obtain v where v: "EncodeBlockOption szx (off div SZX_Size szx) (off + B < int (length (rd_data bdy))) = Inr v"
    using s7 num off0 SZX_Size_pos [OF s7] by (auto simp: EncodeBlockOption_eq not_less pos_imp_zdiv_neg_iff)
  let ?m3 = "PM_SetBody (Some (NewReader ?buf)) m2"
  obtain m4 where m4: "PM_SetOptionUint32 (block_type (code_of m)) v ?m3 = Some m4" "code_of m4 = code_of m" "token_of m4 = token_of m"
      "Type (msg m4) = Type (msg m)" "body m4 = Some (NewReader ?buf)"
      "opts_of m4 = opt_put (opts_of m2) (block_type (code_of m)) (uint_wire v)"
    using set_uint32 [of "block_type (code_of m)" v ?m3] m2 by (auto simp: PM_SetBody_def)
  have cast: "SafeCastTo (Unsigned 32) (int (length (rd_data bdy))) = Inr (int (length (rd_data bdy)))"
    using len by (subst SafeCastTo_Unsigned) (auto simp: machine_int_def)
  obtain x e0 where rf: "reader_ReadFull (bdy\<lparr>rd_pos := nat off\<rparr>) (nat B) = (x, ?buf, e0)"
    and e0: "e0 = None \<or> (e0 = Some io_ErrUnexpectedEOF \<or> e0 = Some io_EOF) \<and> off + int (length ?buf) = int (length (rd_data bdy))"
  proof (cases "nat off + nat B \<le> length (rd_data bdy)")
    case True
    then show thesis using that seek_read(2) [OF off0, of bdy "nat B"] by simp
  next
    case False
    then have "off + int (length ?buf) = int (length (rd_data bdy))" using off0 B0 off(2) by (simp add: min_def)
    then show thesis
      using that [OF seek_read(2) [OF off0, of bdy "nat B"]] by (simp split: if_splits)
  qed
  define e1 where "e1 = (if (e0 = Some io_ErrUnexpectedEOF \<or> e0 = Some io_EOF) \<and> off + int (length ?buf) = int (length (rd_data bdy)) then None else e0)"
  have e1: "e1 = None" using e0 by (auto simp: e1_def)
  have "num * SZX_Size szx + (if (if isBodyMethod (code_of m) then Block1 else Block2) = Block1 then B else 0) = off"
    by (simp add: off(1) block_offset_def B)
  then have "createSendingMessage env m maxSZX maxMessageSize block = Ret (m4, off + B < int (length (rd_data bdy)))"
    unfolding createSendingMessage_def Let_def dec prod.case option.case m0(1) of_opt_simps and_then.simps PM_BodySize_eq snd_conv of_sum_simps body
      szx(2) [symmetric] B [symmetric]
    using m2(1) m4(1) v
    by (simp add: seek_read(1) [OF off0] rf e1_def [symmetric] e1 cast more block_type_def size_type_def del: length_take length_drop take_all)
  then show ?thesis using m4 m2(5) EncodeBlockOption_decodes [OF v] by auto
qed

subsection \<open>A whole upload\<close>

text \<open>
  A client engine and a server engine exchange the blocks of a request body: the server processes a request,
  the client continues its transfer with the response while that is 2.31.  A round takes \<open>rtt\<close>.
\<close>

record ('cm, 'f) upload =
  client :: "('cm, 'f) bw_env"
  client_engine :: "('cm, 'f) BlockWise"
  client_szx :: SZX
  client_max :: u32
  client_key :: u64
  server_side :: "('cm, 'f) bw_env"
  server_szx :: SZX
  server_key :: u64
  server_matching :: u64
  handler :: "'cm PMessage \<Rightarrow> 'cm PMessage \<Rightarrow> 'cm PMessage"
  writer :: "'cm PMessage"
  rtt :: time

fun run_upload ::
  "nat \<Rightarrow> ('cm, 'f) upload \<Rightarrow> u16 \<Rightarrow> time \<Rightarrow> 'cm PMessage \<Rightarrow> ('cm, 'f) BlockWise \<Rightarrow> (('cm, 'f) BlockWise \<times> 'cm PMessage) option" where
  "run_upload 0 u code now req b = None"
| "run_upload (Suc n) u code now req b =
     (case processReceivedMessage (server_side u) now (handler u) (writer u) req (server_szx u) (server_key u) (server_matching u) Block1 Size1 b of
        (b', w', Ret _) \<Rightarrow>
          if code_of w' = codes_Continue then
            (case continueSendingMessage (client u) now w' w' (client_szx u) (client_max u) code (client_key u) (client_engine u) of
               (req', Ret _) \<Rightarrow> run_upload n u code (now + rtt u) req' b'
             | _ \<Rightarrow> None)
          else Some (b', w')
      | _ \<Rightarrow> None)"

definition block_count :: "SZX \<Rightarrow> nat \<Rightarrow> nat" where
  "block_count szx len = nat ((int len + SZX_Size szx - 1) div SZX_Size szx)"

text \<open>The \<open>k\<close>-th request of the transfer of \<open>r\<close> with body \<open>data\<close>.\<close>

definition upload_request :: "SZX \<Rightarrow> 'cm PMessage \<Rightarrow> bytes \<Rightarrow> nat \<Rightarrow> 'cm PMessage \<Rightarrow> bool" where
  "upload_request szx r data k req \<longleftrightarrow>
     block1_request szx (token_of r) (int k) (k + 1 < block_count szx (length data)) req
     \<and> body_data req = take (nat (SZX_Size szx)) (drop (k * nat (SZX_Size szx)) data) \<and> announced_size req = int (length data)"

lemma block_count_less:
  assumes "0 < SZX_Size szx"
  shows "k < block_count szx len \<longleftrightarrow> int k * SZX_Size szx < int len"
proof -
  have "k < block_count szx len \<longleftrightarrow> int k < (int len + SZX_Size szx - 1) div SZX_Size szx"
    by (auto simp: block_count_def)
  also have "\<dots> \<longleftrightarrow> int k + 1 \<le> (int len + SZX_Size szx - 1) div SZX_Size szx" by auto
  also have "\<dots> \<longleftrightarrow> (int k + 1) * SZX_Size szx \<le> int len + SZX_Size szx - 1"
    by (rule le_div_iff_mult [OF assms])
  also have "\<dots> \<longleftrightarrow> int k * SZX_Size szx < int len" by (auto simp: algebra_simps)
  finally show ?thesis .
qed

lemma put_both:
  assumes "opts_sorted os" "vals os ETag = []" "len < 2 ^ 32"
    "os' = opt_put (opt_put os Size1 (uint_wire (of_nat len))) Block1 (uint_wire v)"
  shows "opts_sorted os'" "vals os' ETag = []" "Options_GetUint32 os' Block1 = (v, None)"
    "(case Options_GetUint32 os' Size1 of (v, None) \<Rightarrow> uint v | (_, Some _) \<Rightarrow> 0) = int len"
proof -
  note 1 = put_uint32 [OF assms(1), of Size1 "of_nat len"]
  note 2 = put_uint32 [OF 1(1), of Block1 v]
  have u: "uint (of_nat len :: u32) = int len"
    using assms(3) by (simp add: unsigned_of_nat take_bit_nat_eq_self)
  show "opts_sorted os'" "Options_GetUint32 os' Block1 = (v, None)" using 2 by (simp_all add: assms(4))
  show "vals os' ETag = []" using 1(3) 2(3) assms(2) by (simp add: assms(4))
  show "(case Options_GetUint32 os' Size1 of (v, None) \<Rightarrow> uint v | (_, Some _) \<Rightarrow> 0) = int len"
    using 1(3) 2(3) by (simp add: assms(4) GetUint32_vals [OF 2(1)] DecodeUint32_uint_wire u)
qed

text \<open>What is asked of the request and its body.\<close>

definition upload_ok :: "SZX \<Rightarrow> 'cm PMessage \<Rightarrow> bytes \<Rightarrow> bool" where
  "upload_ok szx r data \<longleftrightarrow>
     isBodyMethod (code_of r) \<and> opts_sorted (opts_of r) \<and> vals (opts_of r) ETag = [] \<and> (\<exists>p. body r = Some \<lparr>rd_data = data, rd_pos = p\<rparr>)
     \<and> szx < SZXBERT \<and> SZX_Size szx < int (length data) \<and> length data < 2 ^ 32
     \<and> int (block_count szx (length data)) \<le> maxBlockNumber"

lemma upload_okD:
  assumes "upload_ok szx r data"
  obtains p where "isBodyMethod (code_of r)" "opts_sorted (opts_of r)" "vals (opts_of r) ETag = []" "body r = Some \<lparr>rd_data = data, rd_pos = p\<rparr>"
    "szx \<le> 7" "\<forall>n. bufferSize szx n = SZX_Size szx" "SZX_Size szx < int (length data)" "length data < 2 ^ 32"
    "int (block_count szx (length data)) \<le> maxBlockNumber" "0 < SZX_Size szx"
proof -
  have "szx < 7" using assms by (simp add: upload_ok_def)
  then have "szx \<le> 7" "\<forall>n. bufferSize szx n = SZX_Size szx" by (simp_all add: bufferSize_def)
  then show thesis using assms SZX_Size_pos [of szx] by (auto simp: upload_ok_def intro: that)
qed

lemma next_request:
  assumes ok: "upload_ok szx r data" and k: "k + 1 < block_count szx (length data)"
    and v: "DecodeBlockOption v = (szx, int k, True, None)"
  shows "\<exists>req m. createSendingMessage env r szx maxMessageSize v = Ret (req, m) \<and> upload_request szx r data (k + 1) req"
proof -
  obtain p where r: "isBodyMethod (code_of r)" "opts_sorted (opts_of r)" "vals (opts_of r) ETag = []" "body r = Some \<lparr>rd_data = data, rd_pos = p\<rparr>"
    "szx \<le> 7" "\<forall>n. bufferSize szx n = SZX_Size szx" "SZX_Size szx < int (length data)" "length data < 2 ^ 32"
    "int (block_count szx (length data)) \<le> maxBlockNumber" "0 < SZX_Size szx"
    by (rule upload_okD [OF ok])
  let ?S = "SZX_Size szx" and ?off = "int (k + 1) * SZX_Size szx"
  have off: "?off = block_offset (code_of r) szx maxMessageSize (int k)" "?off < int (length data)" "?off div ?S = int (k + 1)"
      "nat ?off = (k + 1) * nat ?S" "?off + ?S < int (length data) \<longleftrightarrow> k + 1 + 1 < block_count szx (length data)"
    using k r(1,6,10) block_count_less [OF r(10), of "k + 1" "length data"] block_count_less [OF r(10), of "k + 1 + 1" "length data"]
    by (simp_all add: block_offset_def algebra_simps nat_add_distrib nat_mult_distrib)
  have "szx = getSzx szx szx" by (simp add: getSzx_def)
  from slice_eq [OF r(4,2,5) this v off(1) _ _ _ refl, of env]
  obtain req m v' where req: "createSendingMessage env r szx maxMessageSize v = Ret (req, m)"
      "body req = Some (NewReader (take (nat ?S) (drop ((k + 1) * nat ?S) data)))" "code_of req = code_of r" "token_of req = token_of r"
      "opts_of req = opt_put (opt_put (opts_of r) Size1 (uint_wire (of_nat (length data)))) Block1 (uint_wire v')"
      "DecodeBlockOption v' = (szx, int (k + 1), k + 1 + 1 < block_count szx (length data), None)"
    using off r k by (auto simp: size_type_def block_type_def)
  note p = put_both [OF r(2,3,8) req(5)]
  show ?thesis
    using req p r(1) by (auto simp: upload_request_def block1_request_def body_data_def NewReader_def announced_size_def)
qed

lemma first_request:
  assumes ok: "upload_ok szx r data"
  shows "\<exists>req. prepareSendingRequest env r szx maxMessageSize = Ret req \<and> upload_request szx r data 0 req"
proof -
  obtain p where r: "isBodyMethod (code_of r)" "opts_sorted (opts_of r)" "vals (opts_of r) ETag = []" "body r = Some \<lparr>rd_data = data, rd_pos = p\<rparr>"
    "szx \<le> 7" "\<forall>n. bufferSize szx n = SZX_Size szx" "SZX_Size szx < int (length data)" "length data < 2 ^ 32"
    "int (block_count szx (length data)) \<le> maxBlockNumber" "0 < SZX_Size szx"
    by (rule upload_okD [OF ok])
  obtain m0 where m0: "CloneMessage env r = Ret m0" "code_of m0 = code_of r" "token_of m0 = token_of r" "opts_of m0 = opts_of r"
    using PM_ResetOptionsTo_eq [OF r(2), of "PM_SetToken (token_of r) (PM_SetCode (code_of r) (fresh env))"]
    by (auto simp: CloneMessage_def set_options_def PM_SetType_def PM_SetToken_def PM_SetCode_def)
  obtain m1 where m1: "PM_SetOptionUint32 Size1 (of_nat (length data)) m0 = Some m1" "code_of m1 = code_of r" "token_of m1 = token_of r"
      "opts_of m1 = opt_put (opts_of r) Size1 (uint_wire (of_nat (length data)))"
    using set_uint32 [of Size1 "of_nat (length data)" m0] m0 by auto
  obtain v where v: "EncodeBlockOption szx 0 True = Inr v"
    using r(5) by (auto simp: EncodeBlockOption_eq not_less block_consts)
  obtain m2 where m2: "PM_SetOptionUint32 Block1 v m1 = Some m2" "code_of m2 = code_of r" "token_of m2 = token_of r"
      "opts_of m2 = opt_put (opt_put (opts_of r) Size1 (uint_wire (of_nat (length data)))) Block1 (uint_wire v)"
    using set_uint32 [of Block1 v m1] m1 by auto
  have cast: "SafeCastTo (Unsigned 32) (int (length data)) = Inr (int (length data))"
    using r(8) by (subst SafeCastTo_Unsigned) (auto simp: machine_int_def)
  have le: "nat (SZX_Size szx) \<le> length data" using r(7) by simp
  have rd: "reader_ReadFull \<lparr>rd_data = data, rd_pos = 0\<rparr> (nat (SZX_Size szx))
      = (\<lparr>rd_data = data, rd_pos = nat (SZX_Size szx)\<rparr>, take (nat (SZX_Size szx)) data, None)"
    using le by (simp add: reader_ReadFull_def reader_rest_def Let_def min_def)
  have eq: "prepareSendingRequest env r szx maxMessageSize = Ret (PM_SetBody (Some (NewReader (take (nat (SZX_Size szx)) data))) m2)"
    using r m0(1) m1(1) m2(1) v cast rd by (simp add: prepareSendingRequest_def PM_BodySize_eq reader_Seek_def Let_def)
  have two: "1 < block_count szx (length data)" using block_count_less [OF r(10), of 1 "length data"] r(7) by simp
  note p = put_both [OF r(2,3,8) m2(4)]
  show ?thesis
    unfolding eq using m2 p r(1) EncodeBlockOption_decodes [OF v] two
    by (auto simp: upload_request_def block1_request_def body_data_def NewReader_def announced_size_def PM_SetBody_def)
qed

text \<open>The two sides of an upload of \<open>r\<close> that is over by the time \<open>until\<close>.\<close>

definition upload_sides :: "('cm, 'f) upload \<Rightarrow> ('f \<Rightarrow> nat) \<Rightarrow> 'cm PMessage \<Rightarrow> bytes \<Rightarrow> time \<Rightarrow> bool" where
  "upload_sides u pos r data until \<longleftrightarrow>
     upload_ok (client_szx u) r data \<and> memfile_ok (memfile (server_side u)) pos \<and> opts_sorted (opts_of (fresh (server_side u)))
     \<and> client_szx u \<le> server_szx u \<and> server_szx u \<le> 7 \<and> sentRequestFromOutside (server_side u) (token_of r) = None
     \<and> (\<forall>m. code_of (handler u (writer u) m) \<noteq> codes_Continue) \<and> 0 \<le> rtt u
     \<and> (\<forall>t \<le> until. \<exists>e. Cache_Load t (client_key u) (sendingMessagesCache (client_engine u)) = Some e \<and> sm_Message (elem_data e) = Some r)"

lemma server_step:
  assumes sides: "upload_sides u pos r data until" and ok: "bw_ok b" and req: "upload_request (client_szx u) r data k req"
    and send: "\<forall>t. Cache_Load t (server_key u) (sendingMessagesCache b) = None"
    and st: "k = 0 \<Longrightarrow> room now b \<and> assembled (server_side u) now (server_key u) b = None"
      "k \<noteq> 0 \<Longrightarrow> assembled (server_side u) now (server_key u) b = Some (take (k * nat (SZX_Size (client_szx u))) data)"
    and k: "k < block_count (client_szx u) (length data)" and limit: "within (maxReceiveBodySize b) (int (length data))"
  shows "realises (acknowledges (client_szx u) (int k) (k + 1 < block_count (client_szx u) (length data)))
     (server_side u) now (server_key u) (handler u) (writer u) b
     (processReceivedMessage (server_side u) now (handler u) (writer u) req (server_szx u) (server_key u) (server_matching u) Block1 Size1 b)
     (if k + 1 < block_count (client_szx u) (length data)
      then (Some (take ((k + 1) * nat (SZX_Size (client_szx u))) data), Acknowledged) else (None, Delivered data))"
proof -
  let ?S = "SZX_Size (client_szx u)" and ?N = "block_count (client_szx u) (length data)"
  let ?c = "take (k * nat ?S) data" and ?p = "take (nat ?S) (drop (k * nat ?S) data)"
  have S: "0 < ?S" using sides by (auto simp: upload_sides_def elim: upload_okD)
  have q: "isBodyMethod (code_of req)" "opts_sorted (opts_of req)" "vals (opts_of req) ETag = []" "token_of req = token_of r"
      "snd (getUint32 req Block1) = None" "DecodeBlockOption (fst (getUint32 req Block1)) = (client_szx u, int k, k + 1 < ?N, None)"
      "body_data req = ?p" "announced_size req = int (length data)"
    using req by (auto simp: upload_request_def block1_request_def)
  have v: "getUint32 req Block1 = (fst (getUint32 req Block1), None)" using q(5) by (simp add: prod_eq_iff)
  have ops: "memfile_ok (memfile (server_side u)) pos" "opts_sorted (opts_of (fresh (server_side u)))" "server_szx u \<le> 7"
      "getSzx (client_szx u) (server_szx u) = client_szx u" "sentRequestFromOutside (server_side u) (token_of r) = None"
    using sides by (auto simp: upload_sides_def getSzx_def)
  have sent: "getSentRequest (server_side u) now (server_key u) (token_of req) b = Ret None"
    unfolding q(4) by (rule getSentRequest_none) (use send ops(5) in auto)
  define n where "n = nat ?S"
  have n: "?S = int n" "nat ?S = n" using S by (simp_all add: n_def)
  have lt: "k * n < length data" "k + 1 < ?N \<longleftrightarrow> k * n + n < length data"
    using k block_count_less [OF S, of k "length data"] block_count_less [OF S, of "k + 1" "length data"]
    unfolding n(1) of_nat_mult [symmetric] of_nat_less_iff by (simp_all add: add.commute)
  have cl: "int (length ?c) = int k * ?S" using lt(1) by (simp add: n min_def)
  have full: "k + 1 < ?N \<Longrightarrow> int (length ?p) = ?S" using lt by (simp add: n)
  have app: "?c @ ?p = take ((k + 1) * nat ?S) data" by (simp add: n take_add [symmetric] add.commute)
  have whole: "\<not> k + 1 < ?N \<Longrightarrow> take ((k + 1) * nat ?S) data = data"
    using lt(2) by (intro take_all) (simp add: n add.commute)
  have lim: "within (maxReceiveBodySize b) (int (length ?c + length ?p))"
    using limit length_append [of ?c ?p] unfolding app by (auto simp: within_def)
  have "receive (room now b) (maxReceiveBodySize b) (announced_size req) (client_szx u) (int k) (k + 1 < ?N) (body_data req)
         (assembled (server_side u) now (server_key u) b)
      = (if k + 1 < ?N then (Some (?c @ ?p), Acknowledged) else (None, Delivered (?c @ ?p)))"
    unfolding q(7,8) by (rule receive_next [OF _ cl full _ _ lim limit]) (use st in auto)
  then show ?thesis
    using block1_step [OF ops(1) ok ops(2,3) q(1-3) v q(6) sent, of "handler u" "writer u" "server_matching u"] whole
    unfolding app by (cases "k + 1 < ?N") (simp_all add: ops(4))
qed

lemma client_step:
  assumes sides: "upload_sides u pos r data until" and ack: "acknowledges (client_szx u) (int k) True w" "code_of w = codes_Continue"
    and k: "k + 1 < block_count (client_szx u) (length data)" and now: "now \<le> until"
  shows "\<exists>req m. continueSendingMessage (client u) now w w (client_szx u) (client_max u) (code_of r) (client_key u) (client_engine u) = (req, Ret m)
     \<and> upload_request (client_szx u) r data (k + 1) req"
proof -
  have ok: "upload_ok (client_szx u) r data" using sides by (simp add: upload_sides_def)
  then have body: "isBodyMethod (code_of r)" by (simp add: upload_ok_def)
  obtain v where v: "getUint32 w Block1 = (v, None)" "DecodeBlockOption v = (client_szx u, int k, True, None)"
    using ack(1) by (auto simp: acknowledges_def)
  obtain e where e: "Cache_Load now (client_key u) (sendingMessagesCache (client_engine u)) = Some e" "sm_Message (elem_data e) = Some r"
    using sides now by (auto simp: upload_sides_def)
  obtain req m where "createSendingMessage (client u) r (client_szx u) (client_max u) v = Ret (req, m)" "upload_request (client_szx u) r data (k + 1) req"
    using next_request [OF ok k v(2)] by blast
  then show ?thesis
    using body v(1) e ack(2) by (auto simp: continueSendingMessage_def IsRequestCode_def)
qed

lemma upload_induct:
  assumes sides: "upload_sides u pos r data until"
  shows "bw_ok b \<Longrightarrow> upload_request (client_szx u) r data k req \<Longrightarrow> k + Suc n = block_count (client_szx u) (length data)
     \<Longrightarrow> \<forall>t. Cache_Load t (server_key u) (sendingMessagesCache b) = None \<Longrightarrow> within (maxReceiveBodySize b) (int (length data))
     \<Longrightarrow> start \<le> now \<Longrightarrow> now + int n * rtt u \<le> until \<Longrightarrow> until \<le> start + expiration b
     \<Longrightarrow> (k = 0 \<Longrightarrow> room now b \<and> assembled (server_side u) now (server_key u) b = None)
     \<Longrightarrow> (k \<noteq> 0 \<Longrightarrow> lasts until (server_key u) b
           \<and> assembled (server_side u) until (server_key u) b = Some (take (k * nat (SZX_Size (client_szx u))) data))
     \<Longrightarrow> \<exists>b' m. run_upload (Suc n) u (code_of r) now req b = Some (b', handler u (writer u) m) \<and> bw_ok b'
           \<and> handed b' = handed b @ [m] \<and> body_data m = data
           \<and> assembled (server_side u) (now + int n * rtt u) (server_key u) b' = None"
proof (induction n arbitrary: b k req now)
  case 0
  let ?res = "processReceivedMessage (server_side u) now (handler u) (writer u) req (server_szx u) (server_key u) (server_matching u) Block1 Size1 b"
  have "k \<noteq> 0 \<Longrightarrow> assembled (server_side u) now (server_key u) b = Some (take (k * nat (SZX_Size (client_szx u))) data)"
    using 0 assembled_lasts [of until "server_key u" b until now "server_side u"] by simp
  from server_step [OF sides "0.prems"(1,2,4,9) this] 0
  have "realises (acknowledges (client_szx u) (int k) False) (server_side u) now (server_key u) (handler u) (writer u) b ?res (None, Delivered data)"
    by simp
  moreover have "code_of (handler u (writer u) m) \<noteq> codes_Continue" for m using sides by (simp add: upload_sides_def)
  ultimately show ?case
    by (auto simp: realises_def shows_verdict_def intro: keeps_bw_ok split: prod.splits)
next
  case (Suc n)
  let ?N = "block_count (client_szx u) (length data)"
  have k: "k + 1 < ?N" using Suc.prems(3) by simp
  have r0: "0 \<le> rtt u" using sides by (simp add: upload_sides_def)
  have nn: "0 \<le> rtt u * int n" using r0 by simp
  have t: "now \<le> until" "now + rtt u + int n * rtt u \<le> until" "start \<le> now + rtt u"
    using Suc.prems(6,7) r0 nn by (simp_all only: of_nat_Suc distrib_right mult_1 mult.commute [of _ "rtt u"] distrib_left mult_1_right)
  have st: "k \<noteq> 0 \<Longrightarrow> assembled (server_side u) now (server_key u) b = Some (take (k * nat (SZX_Size (client_szx u))) data)"
    using Suc.prems(10) assembled_lasts [of until "server_key u" b until now "server_side u"] t(1) by simp
  obtain b1 w1 o1 where p: "processReceivedMessage (server_side u) now (handler u) (writer u) req (server_szx u) (server_key u) (server_matching u) Block1 Size1 b = (b1, w1, o1)"
    by (metis prod_cases3)
  have step: "realises (acknowledges (client_szx u) (int k) True) (server_side u) now (server_key u) (handler u) (writer u) b (b1, w1, o1)
      (Some (take ((k + 1) * nat (SZX_Size (client_szx u))) data), Acknowledged)"
    using server_step [OF sides Suc.prems(1,2,4,9) st] Suc.prems(3,5) k by (simp add: p)
  then have s: "keeps now (server_key u) b b1" "assembled (server_side u) now (server_key u) b1 = Some (take ((k + 1) * nat (SZX_Size (client_szx u))) data)"
      "o1 = Ret ()" "code_of w1 = codes_Continue" "acknowledges (client_szx u) (int k) True w1" "handed b1 = handed b"
    by (simp_all add: realises_def shows_verdict_def)
  obtain req' m' where c: "continueSendingMessage (client u) now w1 w1 (client_szx u) (client_max u) (code_of r) (client_key u) (client_engine u) = (req', Ret m')"
      "upload_request (client_szx u) r data (k + 1) req'"
    using client_step [OF sides s(5,4) k t(1)] by blast
  have l1: "lasts until (server_key u) b1"
  proof -
    have "until \<le> now + expiration b" using Suc.prems(6,8) by simp
    moreover have "lasts until (server_key u) b \<or> Cache_Load now (server_key u) (receivingMessagesCache b) = None"
      using Suc.prems(9,10) by (cases "k = 0") (auto simp: assembled_def)
    moreover have "Cache_Load now (server_key u) (receivingMessagesCache b1) \<noteq> None" using s(2) by (auto simp: assembled_def)
    ultimately show ?thesis using s(1) by (auto simp: keeps_def)
  qed
  have "\<exists>b' m. run_upload (Suc n) u (code_of r) (now + rtt u) req' b1 = Some (b', handler u (writer u) m) \<and> bw_ok b'
       \<and> handed b' = handed b1 @ [m] \<and> body_data m = data
       \<and> assembled (server_side u) (now + rtt u + int n * rtt u) (server_key u) b' = None"
  proof (rule Suc.IH [OF keeps_bw_ok [OF s(1)] c(2) _ _ _ t(3,2)])
    show "k + 1 \<noteq> 0 \<Longrightarrow> lasts until (server_key u) b1
        \<and> assembled (server_side u) until (server_key u) b1 = Some (take ((k + 1) * nat (SZX_Size (client_szx u))) data)"
      using l1 s(2) assembled_lasts [OF l1, of until now "server_side u"] t(1) by simp
  qed (use Suc.prems(3,4,5,8) s(1) in \<open>auto simp: keeps_def\<close>)
  then show ?case
    using p s(3,4,6) c(1) by (auto simp: algebra_simps)
qed

lemma Do_start_stores:
  assumes ok: "upload_ok szx r data" and key: "getExchangeKey (token_of r) remoteAddr = Inr key" "Cache_Load now key (sendingMessagesCache c) = None"
    and dl: "deadlineOf env r = None"
  shows "\<exists>c' req. Do_start env now r szx maxMessageSize remoteAddr c = (c', Ret req) \<and> upload_request szx r data 0 req
     \<and> (\<forall>t \<le> now + expiration c. \<exists>e. Cache_Load t key (sendingMessagesCache c') = Some e \<and> sm_Message (elem_data e) = Some r)"
proof -
  obtain req where req: "prepareSendingRequest env r szx maxMessageSize = Ret req" "upload_request szx r data 0 req"
    using first_request [OF ok] by blast
  define e where "e = NewElement (nextElement c) \<lparr>sm_Message = Some r, sm_matchingKey = 0, sm_requestCode = 0, sm_endpoint = []\<rparr> (Some (now + expiration c))"
  have szx: "\<not> szx > SZXBERT" using ok by (auto simp: upload_ok_def)
  have "Cache_LoadOrStore now key e (sendingMessagesCache c) = (AList.update key e (sendingMessagesCache c), e, False)"
    using key(2) by (auto simp: Cache_LoadOrStore_def Map_ReplaceWithFunc_def Cache_Load_def Map_Load_def split: option.splits if_splits)
  then have "Do_start env now r szx maxMessageSize remoteAddr c =
      (c\<lparr>sendingMessagesCache := AList.update key e (sendingMessagesCache c), nextElement := Suc (nextElement c)\<rparr>, Ret req)"
    using szx key(1) dl req(1) by (simp add: Do_start_def e_def)
  moreover have "\<exists>e'. Cache_Load t key (AList.update key e (sendingMessagesCache c)) = Some e' \<and> sm_Message (elem_data e') = Some r"
    if "t \<le> now + expiration c" for t
    using that by (simp add: Cache_Load_live live_def update_conv' e_def NewElement_def IsExpired_def)
  ultimately show ?thesis using req(2) by simp
qed

text \<open>
  C1.  A body that is larger than a block arrives: \<open>Do\<close> stores the request and makes its first block, and
  the exchange of blocks between the two engines ends after exactly as many rounds as the body has
  blocks, with the application of the server called once, with the whole body, and the client
  receiving its response; nothing of the transfer is left at the server.
\<close>

theorem upload_arrives:
  assumes "upload_ok (client_szx u) r data" "memfile_ok (memfile (server_side u)) pos" "opts_sorted (opts_of (fresh (server_side u)))"
    "client_szx u \<le> server_szx u" "server_szx u \<le> 7" "sentRequestFromOutside (server_side u) (token_of r) = None"
    "\<forall>m. code_of (handler u (writer u) m) \<noteq> codes_Continue" "0 \<le> rtt u"
    and client: "getExchangeKey (token_of r) remoteAddr = Inr (client_key u)" "Cache_Load now (client_key u) (sendingMessagesCache c) = None"
      "deadlineOf (client u) r = None" "client_engine u = fst (Do_start (client u) now r (client_szx u) (client_max u) remoteAddr c)"
    and server: "bw_ok b" "room now b" "assembled (server_side u) now (server_key u) b = None"
      "\<forall>t. Cache_Load t (server_key u) (sendingMessagesCache b) = None" "within (maxReceiveBodySize b) (int (length data))"
    and n: "block_count (client_szx u) (length data) = Suc n" and time: "int n * rtt u \<le> expiration b" "int n * rtt u \<le> expiration c"
  shows "\<exists>req b' m. Do_start (client u) now r (client_szx u) (client_max u) remoteAddr c = (client_engine u, Ret req)
     \<and> run_upload (Suc n) u (code_of r) now req b = Some (b', handler u (writer u) m)
     \<and> handed b' = handed b @ [m] \<and> body_data m = data
     \<and> bw_ok b' \<and> assembled (server_side u) (now + int n * rtt u) (server_key u) b' = None"
proof -
  obtain c' req where d: "Do_start (client u) now r (client_szx u) (client_max u) remoteAddr c = (c', Ret req)"
      "upload_request (client_szx u) r data 0 req"
      "\<forall>t \<le> now + expiration c. \<exists>e. Cache_Load t (client_key u) (sendingMessagesCache c') = Some e \<and> sm_Message (elem_data e) = Some r"
    using Do_start_stores [OF assms(1) client(1-3)] by blast
  have sides: "upload_sides u pos r data (now + int n * rtt u)"
    using assms(1-8) client(4) d(1,3) time(2) by (simp add: upload_sides_def)
  have "\<exists>b' m. run_upload (Suc n) u (code_of r) now req b = Some (b', handler u (writer u) m) \<and> bw_ok b'
       \<and> handed b' = handed b @ [m] \<and> body_data m = data \<and> assembled (server_side u) (now + int n * rtt u) (server_key u) b' = None"
    by (rule upload_induct [OF sides server(1) d(2) _ server(4,5) order_refl order_refl]) (use n time(1) server(2,3) in auto)
  moreover have "c' = client_engine u" using client(4) d(1) by simp
  ultimately show ?thesis using d(1) by blast
qed

definition large_post :: "unit PMessage" where
  "large_post = NewMessage\<lparr>msg := \<lparr>Token = [1], Options = [], Code = codes_POST, Payload = [], MessageID = 0, Type = 0\<rparr>,
     body := Some (NewReader (replicate 40 7))\<rparr>"

definition example_upload :: "(unit, bytes \<times> nat) upload" where
  "example_upload =
     \<lparr>client = server_env, client_engine = fst (Do_start server_env 5 large_post 0 1152 None server), client_szx = 0, client_max = 1152,
      client_key = Token_Hash [1], server_side = server_env, server_szx = 6, server_key = 77, server_matching = 78,
      handler = (\<lambda>w m. w), writer = NewMessage, rtt = 10\<rparr>"

theorem upload_arrives_witness:
  "\<exists>req b' m. Do_start server_env 5 large_post 0 1152 None server = (client_engine example_upload, Ret req)
     \<and> run_upload 3 example_upload codes_POST 5 req server = Some (b', NewMessage)
     \<and> handed b' = [m] \<and> body_data m = replicate 40 7"
proof -
  have u: "client example_upload = server_env" "client_engine example_upload = fst (Do_start server_env 5 large_post 0 1152 None server)"
      "client_szx example_upload = 0" "client_max example_upload = 1152" "client_key example_upload = Token_Hash [1]"
      "server_side example_upload = server_env" "server_szx example_upload = 6" "server_key example_upload = 77"
      "handler example_upload = (\<lambda>w m. w)" "writer example_upload = NewMessage" "rtt example_upload = 10"
    by (simp_all add: example_upload_def)
  have cnt: "block_count 0 (length (replicate 40 (7 :: byte))) = Suc 2" by (simp add: block_count_def SZX_Size_def)
  have r: "token_of large_post = [1]" "code_of large_post = codes_POST" by (simp_all add: large_post_def)
  have ok: "upload_ok 0 large_post (replicate 40 7)"
    using cnt by (simp add: upload_ok_def large_post_def isBodyMethod_def vals_def NewReader_def SZX_Size_def block_consts)
  have "\<exists>req b' m. Do_start (client example_upload) 5 large_post (client_szx example_upload) (client_max example_upload) None server
        = (client_engine example_upload, Ret req)
     \<and> run_upload (Suc 2) example_upload (code_of large_post) 5 req server = Some (b', handler example_upload (writer example_upload) m)
     \<and> handed b' = handed server @ [m] \<and> body_data m = replicate 40 7
     \<and> bw_ok b' \<and> assembled (server_side example_upload) (5 + int 2 * rtt example_upload) (server_key example_upload) b' = None"
    by (rule upload_arrives [where pos = snd and c = server])
      (use ok cnt list_file_ok in \<open>auto simp: u r new_engine within_def getExchangeKey_def server_env_def NewMessage_def\<close>)
  then show ?thesis by (simp add: u r new_engine) blast
qed

subsection \<open>Serving a body\<close>

lemma concat_slices: "concat (map (\<lambda>k. take n (drop (k * n) data)) [0..<m]) = take (m * n) data"
proof (induction m)
  case (Suc m)
  then show ?case by (simp add: take_add [symmetric] add.commute)
qed simp

text \<open>
  C30.  A body served in blocks is complete: the blocks \<open>createSendingMessage\<close> makes of a message for the Block2
  options with numbers 0, 1, ... put together are the body; each has the token of the message and
  its own number, and exactly the last says that nothing follows.
\<close>

theorem served_blocks_complete:
  assumes m: "body m = Some bdy" "opts_sorted (opts_of m)" "\<not> isBodyMethod (code_of m)"
    and szx: "szx \<le> maxSZX" "maxSZX \<le> 7" "szx < SZXBERT"
    and len: "length (rd_data bdy) < 2 ^ 32" "int (block_count szx (length (rd_data bdy))) \<le> maxBlockNumber"
  shows "\<exists>blocks. length blocks = block_count szx (length (rd_data bdy)) \<and> concat (map body_data blocks) = rd_data bdy
     \<and> (\<forall>k < length blocks. \<exists>v v'. EncodeBlockOption szx (int k) False = Inr v
          \<and> createSendingMessage env m maxSZX maxMessageSize v = Ret (blocks ! k, k + 1 < length blocks)
          \<and> token_of (blocks ! k) = token_of m
          \<and> getUint32 (blocks ! k) Block2 = (v', None) \<and> DecodeBlockOption v' = (szx, int k, k + 1 < length blocks, None))"
proof -
  let ?S = "SZX_Size szx" and ?d = "rd_data bdy" and ?N = "block_count szx (length (rd_data bdy))"
  have s7: "szx \<le> 7" using szx by simp
  have S: "0 < ?S" by (rule SZX_Size_pos [OF s7])
  have B: "bufferSize szx maxMessageSize = ?S" using szx(3) by (simp add: bufferSize_def)
  have g: "szx = getSzx szx maxSZX" using szx(1) by (auto simp: getSzx_def)
  have step: "\<exists>m' v v'. EncodeBlockOption szx (int k) False = Inr v
      \<and> createSendingMessage env m maxSZX maxMessageSize v = Ret (m', k + 1 < ?N)
      \<and> body_data m' = take (nat ?S) (drop (k * nat ?S) ?d) \<and> token_of m' = token_of m
      \<and> getUint32 m' Block2 = (v', None) \<and> DecodeBlockOption v' = (szx, int k, k + 1 < ?N, None)"
    if k: "k < ?N" for k
  proof -
    obtain v where v: "EncodeBlockOption szx (int k) False = Inr v" using s7 k len(2) by (simp add: EncodeBlockOption_eq not_less)
    have off: "int k * ?S = block_offset (code_of m) szx maxMessageSize (int k)" "int k * ?S < int (length ?d)" "int k * ?S div ?S = int k"
        "nat (int k * ?S) = k * nat ?S" "int k * ?S + ?S < int (length ?d) \<longleftrightarrow> k + 1 < ?N"
      using k m(3) S block_count_less [OF S, of k "length ?d"] block_count_less [OF S, of "k + 1" "length ?d"]
      by (simp_all add: block_offset_def algebra_simps nat_mult_distrib)
    from slice_eq [OF m(1,2) szx(2) g EncodeBlockOption_decodes [OF v] off(1) _ len(1) _ refl, of env]
    obtain m' v' where "createSendingMessage env m maxSZX maxMessageSize v = Ret (m', k + 1 < ?N)"
        "body m' = Some (NewReader (take (nat ?S) (drop (k * nat ?S) ?d)))" "token_of m' = token_of m"
        "opts_of m' = opt_put (opt_put (opts_of m) Size2 (uint_wire (of_nat (length ?d)))) Block2 (uint_wire v')"
        "DecodeBlockOption v' = (szx, int k, k + 1 < ?N, None)"
      using off k len(2) m(3) B by (auto simp: size_type_def block_type_def)
    then show ?thesis
      using v put_uint32(2) [OF put_uint32(1) [OF m(2)]] by (auto simp: body_data_def NewReader_def)
  qed
  then obtain block where block: "\<And>k. k < ?N \<Longrightarrow> \<exists>v v'. EncodeBlockOption szx (int k) False = Inr v
      \<and> createSendingMessage env m maxSZX maxMessageSize v = Ret (block k, k + 1 < ?N)
      \<and> body_data (block k) = take (nat ?S) (drop (k * nat ?S) ?d) \<and> token_of (block k) = token_of m
      \<and> getUint32 (block k) Block2 = (v', None) \<and> DecodeBlockOption v' = (szx, int k, k + 1 < ?N, None)"
    by metis
  have "map body_data (map block [0..<?N]) = map (\<lambda>k. take (nat ?S) (drop (k * nat ?S) ?d)) [0..<?N]"
    unfolding map_map by (rule map_cong [OF refl]) (use block in fastforce)
  moreover have "length ?d \<le> ?N * nat ?S"
  proof -
    have "int (length ?d) \<le> int ?N * ?S" using block_count_less [OF S, of ?N "length ?d"] by simp
    then show ?thesis using S by (metis int_nat_eq less_imp_le of_nat_le_iff of_nat_mult)
  qed
  ultimately have "concat (map body_data (map block [0..<?N])) = ?d"
    by (simp only: concat_slices) simp
  then show ?thesis
    using block by (intro exI [of _ "map block [0..<?N]"]) (simp del: map_map, metis)
qed

theorem served_blocks_complete_witness:
  "\<exists>blocks. length blocks = 3 \<and> concat (map body_data blocks) = replicate 40 (7 :: byte)
     \<and> (\<forall>k < 3. \<exists>v. EncodeBlockOption 0 (int k) False = Inr v
          \<and> createSendingMessage server_env (PM_SetCode codes_Content large_post) 6 1152 v = Ret (blocks ! k, k + 1 < 3))"
proof -
  let ?m = "PM_SetCode codes_Content large_post"
  have "body ?m = Some (NewReader (replicate 40 7))" "opts_sorted (opts_of ?m)" "\<not> isBodyMethod (code_of ?m)"
    by (simp_all add: large_post_def PM_SetCode_def isBodyMethod_def)
  moreover have n: "block_count 0 (length (replicate 40 (7 :: byte))) = 3" by (simp add: block_count_def SZX_Size_def)
  ultimately obtain blocks where "length blocks = 3" "concat (map body_data blocks) = replicate 40 7"
      "\<forall>k < length blocks. \<exists>v v'. EncodeBlockOption 0 (int k) False = Inr v
        \<and> createSendingMessage server_env ?m 6 1152 v = Ret (blocks ! k, k + 1 < length blocks)
        \<and> token_of (blocks ! k) = token_of ?m
        \<and> getUint32 (blocks ! k) Block2 = (v', None) \<and> DecodeBlockOption v' = (0, int k, k + 1 < length blocks, None)"
    using served_blocks_complete [of ?m "NewReader (replicate 40 7)" 0 6 server_env 1152] by (auto simp: NewReader_def block_consts)
  then show ?thesis by (intro exI [of _ blocks] conjI) auto
qed

subsection \<open>What goes wrong\<close>

lemma LoadOrStore_absent:
  "Cache_Load now key c = None \<Longrightarrow> Cache_LoadOrStore now key e c = (AList.update key e c, e, False)"
  by (auto simp: Cache_LoadOrStore_def Map_ReplaceWithFunc_def Cache_Load_def Map_Load_def split: option.splits if_splits)

text \<open>
  C31.  A response can crash the client: while a request without a body is outstanding, a message with its token,
  the code 2.31 and a Block option makes \<open>Handle\<close> call a method of the missing body, which panics.
\<close>

theorem continue_without_body_panics:
  assumes req: "body req = None" "opts_sorted (opts_of req)" "token_of req \<noteq> []" "deadlineOf env req = None" "maxSZX \<le> 7"
    and free: "Cache_Load now (Token_Hash (token_of req)) (sendingMessagesCache c) = None"
    and r: "code_of r = codes_Continue" "token_of r = token_of req" "getUint32 r (block_type (code_of req)) = (v, None)"
      "DecodeBlockOption v = (szx, num, m, None)" "qblockHandle w r = None" "t \<le> now + expiration c"
  shows "\<exists>b. Do_start env now req maxSZX maxMessageSize remoteAddr c = (b, Ret req)
     \<and> Handle env t qblockHandle next_handler w r maxSZX maxMessageSize remoteAddr b = None"
proof -
  let ?key = "Token_Hash (token_of req)"
  define e where "e = NewElement (nextElement c) \<lparr>sm_Message = Some req, sm_matchingKey = 0, sm_requestCode = 0, sm_endpoint = []\<rparr> (Some (now + expiration c))"
  define b where "b = c\<lparr>sendingMessagesCache := AList.update ?key e (sendingMessagesCache c), nextElement := Suc (nextElement c)\<rparr>"
  have key: "getExchangeKey (token_of req) remoteAddr = Inr ?key" using req(3) by (simp add: getExchangeKey_def)
  have szx: "\<not> maxSZX > SZXBERT" using req(5) by auto
  have start: "Do_start env now req maxSZX maxMessageSize remoteAddr c = (b, Ret req)"
    using szx key req(1,4) LoadOrStore_absent [OF free, of e]
    by (simp add: Do_start_def e_def b_def prepareSendingRequest_def)
  have load: "Cache_Load t ?key (sendingMessagesCache b) = Some e"
    using r(6) by (simp add: b_def Cache_Load_live live_def update_conv' e_def NewElement_def IsExpired_def)
  have e: "sm_Message (elem_data e) = Some req" by (simp add: e_def NewElement_def)
  have keys: "getMessageExchangeKey r remoteAddr = Inr ?key" "resolveBlock1ExchangeKey t r remoteAddr ?key b = Inr ?key"
      "resolveBlock2ExchangeKey t r remoteAddr ?key b = Inr ?key" "\<not> wantsToBeReceived r"
    using r(1,2) key load
    by (cases remoteAddr; simp add: getMessageExchangeKey_def IsRequestCode_def resolveBlock1ExchangeKey_def isBodyMethod_def resolveBlock2ExchangeKey_def
        wantsToBeReceived_def)+
  obtain m0 where "PM_ResetOptionsTo (opts_of req) (PM_SetCode (code_of req) (fresh env)) = Some m0"
    using PM_ResetOptionsTo_eq [OF req(2)] by blast
  then have "createSendingMessage env req maxSZX maxMessageSize v = Panic"
    using r(4) req(1) by (simp add: createSendingMessage_def PM_BodySize_eq Let_def)
  then have "continueSendingMessage env t w r maxSZX maxMessageSize (code_of req) ?key b = (w, Panic)"
    using r(3) load e by (simp add: continueSendingMessage_def block_type_def Let_def)
  then have "Handle env t qblockHandle next_handler w r maxSZX maxMessageSize remoteAddr b = None"
    using szx keys(4) unfolding Handle_def r(5) keys Let_def by (simp add: getSendingMessageCode_def load e keys)
  then show ?thesis using start by blast
qed

text \<open>
  C32.  \<open>WriteMessage\<close> of a request with a body larger than a block never sends its first block: the message it
  writes is the second block of the body, numbered 1.
\<close>

theorem WriteMessage_skips_first_block:
  assumes ok: "upload_ok szx request data" and key: "getExchangeKey (token_of request) remoteAddr = Inr key"
    and free: "Cache_Load now key (sendingMessagesCache c) = None" and q: "qblockNotify request = None"
  shows "\<exists>b w. bw_WriteMessage env now qblockNotify request szx maxMessageSize remoteAddr c = (b, Ret (Some w)) \<and> upload_request szx request data 1 w"
proof -
  obtain p where r: "isBodyMethod (code_of request)" "opts_sorted (opts_of request)" "vals (opts_of request) ETag = []"
    "body request = Some \<lparr>rd_data = data, rd_pos = p\<rparr>" "szx \<le> 7" "\<forall>n. bufferSize szx n = SZX_Size szx" "SZX_Size szx < int (length data)"
    "length data < 2 ^ 32" "int (block_count szx (length data)) \<le> maxBlockNumber" "0 < SZX_Size szx"
    by (rule upload_okD [OF ok])
  obtain v where v: "EncodeBlockOption szx 0 True = Inr v"
    using r(5) by (auto simp: EncodeBlockOption_eq not_less block_consts)
  obtain w0 where w0: "newWriteRequestResponse env request = Ret w0" "code_of w0 = code_of request" "token_of w0 = token_of request"
      "opts_of w0 = opts_of request" "body w0 = body request"
    using PM_ResetOptionsTo_eq [OF r(2), of "PM_SetToken (token_of request) (PM_SetCode (code_of request) (fresh env))"]
    by (auto simp: newWriteRequestResponse_def set_options_def PM_SetType_def PM_SetToken_def PM_SetCode_def PM_SetBody_def Let_def)
  have ok0: "upload_ok szx w0 data" using ok w0 by (simp add: upload_ok_def)
  have two: "0 + 1 < block_count szx (length data)" using block_count_less [OF r(10), of 1 "length data"] r(7) by simp
  have "DecodeBlockOption v = (szx, int 0, True, None)" using EncodeBlockOption_decodes [OF v] by simp
  from next_request [OF ok0 two this, of env maxMessageSize]
  obtain req m where req: "createSendingMessage env w0 szx maxMessageSize v = Ret (req, m)" "upload_request szx request data 1 req"
    using w0(3) by (auto simp: upload_request_def)
  have "\<not> isObserveResponse req" using req(2) by (auto simp: upload_request_def block1_request_def isObserveResponse_def isBodyMethod_def)
  moreover have "\<not> isObserveResponse request" using r(1) by (auto simp: isObserveResponse_def isBodyMethod_def)
  ultimately have "\<exists>b. bw_WriteMessage env now qblockNotify request szx maxMessageSize remoteAddr c = (b, Ret (Some req))"
    using q v key w0 req(1) r(4,7) LoadOrStore_absent [OF free]
    by (cases remoteAddr) (simp_all add: bw_WriteMessage_def startSendingMessage_def PM_BodySize_eq Let_def)
  then show ?thesis using req(2) by blast
qed

theorem WriteMessage_skips_first_block_witness:
  "\<exists>b w. bw_WriteMessage server_env 5 (\<lambda>_. None) large_post 0 1152 None server = (b, Ret (Some w)) \<and> upload_request 0 large_post (replicate 40 7) 1 w"
proof -
  have "block_count 0 (length (replicate 40 (7 :: byte))) = 3" by (simp add: block_count_def SZX_Size_def)
  then have "upload_ok 0 large_post (replicate 40 7)"
    by (simp add: upload_ok_def large_post_def isBodyMethod_def vals_def NewReader_def SZX_Size_def block_consts)
  then show ?thesis
    by (rule WriteMessage_skips_first_block [where key = "Token_Hash [1]"])
      (simp_all add: large_post_def getExchangeKey_def new_engine)
qed

theorem continue_without_body_panics_witness:
  "\<exists>b. Do_start server_env 5 (NewMessage\<lparr>msg := \<lparr>Token = [1], Options = [], Code = codes_GET, Payload = [], MessageID = 0, Type = 0\<rparr>\<rparr>)
        6 1152 None server = (b, Ret (NewMessage\<lparr>msg := \<lparr>Token = [1], Options = [], Code = codes_GET, Payload = [], MessageID = 0, Type = 0\<rparr>\<rparr>))
     \<and> Handle server_env 7 (\<lambda>w r. None) (\<lambda>w r. w) NewMessage
        (NewMessage\<lparr>msg := \<lparr>Token = [1], Options = [\<lparr>ID = Block2, Value = [8]\<rparr>], Code = codes_Continue, Payload = [], MessageID = 0, Type = 0\<rparr>\<rparr>)
        6 1152 None b = None"
proof -
  have s: "opts_sorted [\<lparr>ID = Block2, Value = [8]\<rparr>]" by (simp add: opts_sorted_Cons)
  have v: "Options_GetUint32 [\<lparr>ID = Block2, Value = [8]\<rparr>] Block2 = (8, None)"
    using GetUint32_vals [OF s, of Block2] DecodeUint32_uint_wire [of 8] example_blocks(1) by (simp add: vals_def)
  show ?thesis
    by (rule continue_without_body_panics [OF _ _ _ _ _ _ _ _ _ example_blocks(4)])
      (use v in \<open>simp_all add: NewMessage_def new_engine block_type_def isBodyMethod_def server_env_def\<close>)
qed

end
