(* ===== verification/Mutex_Map.thy ===== *)
theory Mutex_Map
  imports Goroutines Sync_Map
begin

text \<open>
  The map of mutexes, \<open>udp/client/mutexmap.go\<close>, with which the connection handles no message ID twice at the
  same time: locking a key counts a reference to the entry of the key and then locks the entry; unlocking
  gives the reference back, drops the entry with its last reference, and then unlocks it.  What happens
  under the lock of the map is one step, and so are locking and unlocking an entry.
\<close>

record mutexMapEntry =
  entry_locked :: bool
  cnt :: u16

datatype 'k mm_pc =
    Out
  | Waiting 'k nat
  | Inside 'k nat
  | Leaving nat

record 'k mutex_map =
  ma :: "('k, nat) smap"
  entries :: "nat \<Rightarrow> mutexMapEntry"
  nextEntry :: nat
  callers :: "'k mm_pc list"

definition NewMutexMap :: "nat \<Rightarrow> 'k mutex_map" where
  "NewMutexMap n = \<lparr>ma = NewMap, entries = (\<lambda>_. \<lparr>entry_locked = False, cnt = 0\<rparr>), nextEntry = 0, callers = replicate n Out\<rparr>"

text \<open>The part of \<open>Lock\<close> under the lock of the map: the entry and the map.\<close>

definition mm_register :: "'k \<Rightarrow> 'k mutex_map \<Rightarrow> nat \<times> 'k mutex_map" where
  "mm_register key m =
     (let (e, m1) = (case Map_Load key (ma m) of
                       Some e \<Rightarrow> (e, m)
                     | None \<Rightarrow>
                         (nextEntry m, m\<lparr>ma := Map_Store key (nextEntry m) (ma m),
                            entries := (entries m)(nextEntry m := \<lparr>entry_locked = False, cnt = 0\<rparr>), nextEntry := Suc (nextEntry m)\<rparr>))
      in (e, m1\<lparr>entries := (entries m1)(e := (entries m1 e)\<lparr>cnt := cnt (entries m1 e) + 1\<rparr>)\<rparr>))"

text \<open>The part of \<open>Unlock\<close> under the lock of the map; \<open>None\<close> is the panic.\<close>

definition mm_unregister :: "'k \<Rightarrow> 'k mutex_map \<Rightarrow> (nat \<times> 'k mutex_map) option" where
  "mm_unregister key m =
     (case Map_Load key (ma m) of
        None \<Rightarrow> None
      | Some e \<Rightarrow>
          (let c = cnt (entries m e) - 1;
               m1 = m\<lparr>entries := (entries m)(e := (entries m e)\<lparr>cnt := c\<rparr>)\<rparr>
           in Some (e, if c < 1 then m1\<lparr>ma := Map_Delete key (ma m1)\<rparr> else m1)))"

definition move :: "nat \<Rightarrow> 'k mm_pc \<Rightarrow> 'k mutex_map \<Rightarrow> 'k mutex_map" where
  "move i p m = m\<lparr>callers := (callers m)[i := p]\<rparr>"

abbreviation caller :: "'k mutex_map \<Rightarrow> nat \<Rightarrow> 'k mm_pc \<Rightarrow> bool" where
  "caller m i p \<equiv> i < length (callers m) \<and> callers m ! i = p"

inductive mm_step :: "'k mutex_map \<Rightarrow> 'k mutex_map \<Rightarrow> bool" where
  Lock_register: "caller m i Out \<Longrightarrow> mm_register key m = (e, m') \<Longrightarrow> mm_step m (move i (Waiting key e) m')"
| Lock_entry: "caller m i (Waiting key e) \<Longrightarrow> \<not> entry_locked (entries m e) \<Longrightarrow>
     mm_step m (move i (Inside key e) (m\<lparr>entries := (entries m)(e := (entries m e)\<lparr>entry_locked := True\<rparr>)\<rparr>))"
| Unlock_unregister: "caller m i (Inside key e) \<Longrightarrow> mm_unregister key m = Some (e', m') \<Longrightarrow> mm_step m (move i (Leaving e') m')"
| Unlock_entry: "caller m i (Leaving e) \<Longrightarrow>
     mm_step m (move i Out (m\<lparr>entries := (entries m)(e := (entries m e)\<lparr>entry_locked := False\<rparr>)\<rparr>))"

subsection \<open>Counting\<close>

fun refers :: "nat \<Rightarrow> 'k mm_pc \<Rightarrow> bool" where
  "refers e (Waiting key e') \<longleftrightarrow> e = e'"
| "refers e (Inside key e') \<longleftrightarrow> e = e'"
| "refers e _ \<longleftrightarrow> False"

fun owns :: "nat \<Rightarrow> 'k mm_pc \<Rightarrow> bool" where
  "owns e (Inside key e') \<longleftrightarrow> e = e'"
| "owns e (Leaving e') \<longleftrightarrow> e = e'"
| "owns e _ \<longleftrightarrow> False"

fun pc_key :: "'k mm_pc \<Rightarrow> ('k \<times> nat) option" where
  "pc_key (Waiting key e) = Some (key, e)"
| "pc_key (Inside key e) = Some (key, e)"
| "pc_key _ = None"

text \<open>
  The map holds exactly the entries that are referred to, each under one key; the count of an entry is the
  number of its references, and it is locked by at most one caller.
\<close>

definition mm_inv :: "'k mutex_map \<Rightarrow> bool" where
  "mm_inv m \<longleftrightarrow>
     length (callers m) < 2 ^ 16 \<and> smap_ok (ma m) \<and> inj_on (map_of (ma m)) (dom (map_of (ma m)))
     \<and> (\<forall>p \<in> set (callers m). \<forall>key e. pc_key p = Some (key, e) \<longrightarrow> map_of (ma m) key = Some e)
     \<and> (\<forall>key e. map_of (ma m) key = Some e \<longrightarrow> 0 < number (refers e) (callers m) \<and> e < nextEntry m)
     \<and> (\<forall>e. unat (cnt (entries m e)) = number (refers e) (callers m))
     \<and> (\<forall>e. number (owns e) (callers m) = of_bool (entry_locked (entries m e)))
     \<and> (\<forall>e \<ge> nextEntry m. number (refers e) (callers m) = 0 \<and> number (owns e) (callers m) = 0)"

lemma mm_invD:
  assumes "mm_inv m"
  shows "length (callers m) < 2 ^ 16" "smap_ok (ma m)" "inj_on (map_of (ma m)) (dom (map_of (ma m)))"
    "p \<in> set (callers m) \<Longrightarrow> pc_key p = Some (key, e) \<Longrightarrow> map_of (ma m) key = Some e"
    "map_of (ma m) key = Some e \<Longrightarrow> 0 < number (refers e) (callers m) \<and> e < nextEntry m"
    "unat (cnt (entries m e)) = number (refers e) (callers m)"
    "number (owns e) (callers m) = of_bool (entry_locked (entries m e))"
    "nextEntry m \<le> e \<Longrightarrow> number (refers e) (callers m) = 0 \<and> number (owns e) (callers m) = 0"
  using assms unfolding mm_inv_def by blast+

lemma mm_invI:
  assumes "length (callers m) < 2 ^ 16" "smap_ok (ma m)" "inj_on (map_of (ma m)) (dom (map_of (ma m)))"
    "\<And>p key e. p \<in> set (callers m) \<Longrightarrow> pc_key p = Some (key, e) \<Longrightarrow> map_of (ma m) key = Some e"
    "\<And>key e. map_of (ma m) key = Some e \<Longrightarrow> 0 < number (refers e) (callers m) \<and> e < nextEntry m"
    "\<And>e. unat (cnt (entries m e)) = number (refers e) (callers m)"
    "\<And>e. number (owns e) (callers m) = of_bool (entry_locked (entries m e))"
    "\<And>e. nextEntry m \<le> e \<Longrightarrow> number (refers e) (callers m) = 0 \<and> number (owns e) (callers m) = 0"
  shows "mm_inv m"
  using assms unfolding mm_inv_def by blast

lemma unat_incr:
  fixes x :: u16
  assumes "unat x < 2 ^ 16 - 1"
  shows "unat (x + 1) = Suc (unat x)"
  using assms by (simp add: unat_word_ariths)

lemma unat_decr:
  fixes x :: u16
  assumes "0 < unat x"
  shows "unat (x - 1) = unat x - 1"
  using assms unat_minus_one [of x] by (cases "x = 0") auto

lemma register_inv:
  assumes inv: "mm_inv m" and c: "caller m i Out" and r: "mm_register key m = (e, m')"
  shows "mm_inv (move i (Waiting key e) m')"
proof -
  note I = mm_invD [OF inv]
  have room: "Suc (number (refers x) (callers m)) \<le> length (callers m)" for x
  proof -
    have "number (refers x) ((callers m)[i := Waiting undefined x]) \<le> length (callers m)"
      using number_le_length [of "refers x" "(callers m)[i := Waiting undefined x]"] by simp
    then show ?thesis using c by (simp add: number_move)
  qed
  show ?thesis
  proof (cases "map_of (ma m) key")
    case (Some e0)
    then have e: "e = e0" "m' = m\<lparr>entries := (entries m)(e := (entries m e)\<lparr>cnt := cnt (entries m e) + 1\<rparr>)\<rparr>"
      using r by (auto simp: mm_register_def Map_Load_def)
    have u: "unat (cnt (entries m e) + 1) = Suc (number (refers e) (callers m))"
      using room [of e] I(1) I(6) [of e] by (subst unat_incr) auto
    show ?thesis
      unfolding mm_inv_def e(2)
      using I(1-3) u Some c I(5) [OF Some] e(1)
      by (auto simp: move_def number_move I(5,6,7) dest!: in_set_update I(4) dest: I(8) I(5))
  next
    case None
    let ?n = "nextEntry m"
    have e: "e = ?n" "m' = m\<lparr>ma := AList.update key ?n (ma m), entries := (entries m)(?n := \<lparr>entry_locked = False, cnt = 1\<rparr>), nextEntry := Suc ?n\<rparr>"
      using r None by (auto simp: mm_register_def Map_Load_def Map_Store_def)
    have inj: "inj_on (map_of (AList.update key ?n (ma m))) (dom (map_of (AList.update key ?n (ma m))))"
      using I(3) I(5) [of _ ?n] by (auto simp: inj_on_def update_conv' dom_def)
    have old: "number (refers x) ((callers m)[i := Waiting key ?n]) = (if x = ?n then 1 else number (refers x) (callers m))"
        "number (owns x) ((callers m)[i := Waiting key ?n]) = number (owns x) (callers m)" for x
      using c I(8) [of ?n] by (auto simp: number_move)
    have keys: "p \<in> set (callers m) \<Longrightarrow> pc_key p = Some (k, x) \<Longrightarrow> k \<noteq> key \<and> map_of (ma m) k = Some x" for p k x
      using I(4) None by fastforce
    have ref: "map_of (AList.update key ?n (ma m)) k = Some x" if "p \<in> set ((callers m)[i := Waiting key ?n])" "pc_key p = Some (k, x)" for p k x
      using in_set_update [OF that(1)] that(2) keys [of p k x] by (auto simp: update_conv')
    have pos: "0 < number (refers x) ((callers m)[i := Waiting key ?n]) \<and> x < Suc ?n" if "map_of (AList.update key ?n (ma m)) k = Some x" for k x
      using that I(5) [of k x] old(1) by (auto simp: update_conv' split: if_splits)
    have own: "number (owns x) ((callers m)[i := Waiting key ?n])
        = of_bool (entry_locked (((entries m)(?n := \<lparr>entry_locked = False, cnt = 1\<rparr>)) x))" for x
      using I(7) [of x] I(8) [of ?n] by (cases "x = ?n") (simp_all add: old(2))
    have num: "unat (cnt (((entries m)(?n := \<lparr>entry_locked = False, cnt = 1\<rparr>)) x))
        = number (refers x) ((callers m)[i := Waiting key ?n])" for x
      using I(6) [of x] by (simp add: old(1))
    have new: "number (refers x) ((callers m)[i := Waiting key ?n]) = 0 \<and> number (owns x) ((callers m)[i := Waiting key ?n]) = 0" if "Suc ?n \<le> x" for x
      using that I(8) [of x] by (simp add: old)
    show ?thesis
      unfolding e move_def
      by (rule mm_invI) (use I(1,2) inj ref pos own num new in \<open>auto simp: alist.invar_put simp del: fun_upd_apply\<close>)
  qed
qed

lemma lock_inv:
  assumes inv: "mm_inv m" and c: "caller m i (Waiting key e)" and free: "\<not> entry_locked (entries m e)"
  shows "mm_inv (move i (Inside key e) (m\<lparr>entries := (entries m)(e := (entries m e)\<lparr>entry_locked := True\<rparr>)\<rparr>))"
proof -
  note I = mm_invD [OF inv]
  have at: "Waiting key e \<in> set (callers m)" using c by (auto simp: in_set_conv_nth)
  have n: "number (refers x) ((callers m)[i := Inside key e]) = number (refers x) (callers m)"
      "number (owns x) ((callers m)[i := Inside key e]) = (if x = e then 1 else number (owns x) (callers m))" for x
    using c free I(7) [of e] number_move(2) [of i "callers m" "Waiting key e" "refers e"] by (auto simp: number_move)
  have e: "e < nextEntry m" using I(4) [OF at] I(5) by auto
  have ref: "map_of (ma m) k = Some x" if "p \<in> set ((callers m)[i := Inside key e])" "pc_key p = Some (k, x)" for p k x
    using in_set_update [OF that(1)] that(2) I(4) [of p k x] I(4) [OF at] by auto
  show ?thesis
    unfolding mm_inv_def move_def using I(1-3) ref I(5) I(6) I(7) I(8) e by (auto simp: n)
qed

lemma unregister_inv:
  assumes inv: "mm_inv m" and c: "caller m i (Inside key e)" and r: "mm_unregister key m = Some (e', m')"
  shows "mm_inv (move i (Leaving e') m')"
proof -
  note I = mm_invD [OF inv]
  have at: "Inside key e \<in> set (callers m)" using c by (auto simp: in_set_conv_nth)
  then have key: "map_of (ma m) key = Some e" using I(4) by simp
  let ?c = "cnt (entries m e) - 1"
  let ?m = "m\<lparr>entries := (entries m)(e := (entries m e)\<lparr>cnt := ?c\<rparr>)\<rparr>"
  have m': "e' = e" "m' = (if ?c < 1 then ?m\<lparr>ma := AList.delete key (ma m)\<rparr> else ?m)"
    using r key by (auto simp: mm_unregister_def Map_Load_def Map_Delete_def Let_def)
  have pos: "0 < number (refers e) (callers m)" using I(5) [OF key] by simp
  have n: "number (refers x) ((callers m)[i := Leaving e]) = (if x = e then number (refers e) (callers m) - 1 else number (refers x) (callers m))"
      "number (owns x) ((callers m)[i := Leaving e]) = number (owns x) (callers m)" for x
    using c number_move(2) [of i "callers m" "Inside key e" "owns e"] by (auto simp: number_move)
  have u: "unat ?c = number (refers e) (callers m) - 1" using unat_decr [of "cnt (entries m e)"] I(6) [of e] pos by simp
  have zero: "?c < 1 \<longleftrightarrow> number (refers e) (callers m) - 1 = 0"
    using u by (simp add: word_less_nat_alt)
  have other: "map_of (ma m) k = Some x \<Longrightarrow> x = e \<longleftrightarrow> k = key" for k x
    using I(3) key by (auto simp: inj_on_def dom_def)
  show ?thesis
  proof (cases "?c < 1")
    case True
    have none: "\<not> refers e p" if "p \<in> set ((callers m)[i := Leaving e])" for p
      using that n(1) [of e] True zero number_zero [of "refers e"] by auto
    have ref: "map_of (AList.delete key (ma m)) k = Some x" if p: "p \<in> set ((callers m)[i := Leaving e])" "pc_key p = Some (k, x)" for p k x
    proof -
      have "p \<in> set (callers m)" "refers x p" using in_set_update [OF p(1)] p(2) by (cases p; auto)+
      then have "map_of (ma m) k = Some x" "x \<noteq> e" using I(4) p none [OF p(1)] by auto
      then show ?thesis using other [of k x] by (simp add: delete_conv')
    qed
    have "inj_on (map_of (AList.delete key (ma m))) (dom (map_of (AList.delete key (ma m))))"
      using I(3) by (auto simp: inj_on_def delete_conv' dom_def split: if_splits)
    moreover have "0 < number (refers x) ((callers m)[i := Leaving e]) \<and> x < nextEntry m"
      if "map_of (AList.delete key (ma m)) k = Some x" for k x
      using that I(5) [of k x] other [of k x] n(1) by (auto simp: delete_conv' split: if_splits)
    ultimately show ?thesis
      unfolding m' move_def if_P [OF True]
      by (intro mm_invI) (use I(1,2) ref u I(6-8) n in \<open>auto simp: alist.invar_drop\<close>)
  next
    case False
    have ref: "map_of (ma m) k = Some x" if p: "p \<in> set ((callers m)[i := Leaving e])" "pc_key p = Some (k, x)" for p k x
      using in_set_update [OF p(1)] p(2) I(4) by auto
    show ?thesis
      unfolding m' move_def if_not_P [OF False]
      by (intro mm_invI) (use I(1-3) ref u I(5-8) n False zero in auto)
  qed
qed

lemma unlock_inv:
  assumes inv: "mm_inv m" and c: "caller m i (Leaving e)"
  shows "mm_inv (move i Out (m\<lparr>entries := (entries m)(e := (entries m e)\<lparr>entry_locked := False\<rparr>)\<rparr>))"
proof -
  note I = mm_invD [OF inv]
  have "0 < number (owns e) (callers m)" using c number_move(2) [of i "callers m" "Leaving e" "owns e"] by simp
  then have one: "number (owns e) (callers m) = 1" using I(7) [of e] by (auto simp: of_bool_def split: if_splits)
  have n: "number (refers x) ((callers m)[i := Out]) = number (refers x) (callers m)"
      "number (owns x) ((callers m)[i := Out]) = (if x = e then 0 else number (owns x) (callers m))" for x
    using c one by (auto simp: number_move)
  have ref: "map_of (ma m) k = Some x" if p: "p \<in> set ((callers m)[i := Out])" "pc_key p = Some (k, x)" for p k x
    using in_set_update [OF p(1)] p(2) I(4) by auto
  show ?thesis
    unfolding move_def by (intro mm_invI) (use I(1-3) ref I(5-8) n in auto)
qed

subsection \<open>Mutual exclusion\<close>

interpretation mutexes: transition_system "\<lambda>m. \<exists>n < 2 ^ 16. m = NewMutexMap n" mm_step mm_inv
proof unfold_locales
  show "\<exists>n < 2 ^ 16. m = NewMutexMap n \<Longrightarrow> mm_inv m" for m :: "'a mutex_map"
    by (auto simp: mm_inv_def NewMutexMap_def NewMap_def smap_ok_def number_def)
  show "mm_inv m'" if "mm_inv m" "mm_step m m'" for m m' :: "'a mutex_map"
    using that(2,1) by (induction rule: mm_step.induct) (blast intro: register_inv lock_inv unregister_inv unlock_inv)+
qed

text \<open>
  C14.  The map of mutexes excludes: however up to 65535 goroutines interleave, no two are inside \<open>Lock\<close> and
  \<open>Unlock\<close> of the same key, an \<open>Unlock\<close> finds its own entry and never panics, a waiting goroutine is held
  up only by one that has the very entry locked, and no entry is kept for a key nobody uses.
\<close>

theorem mutex_map_excludes:
  assumes "n < 2 ^ 16" "mm_step\<^sup>*\<^sup>* (NewMutexMap n) m"
  shows "(\<forall>i j key e e'. caller m i (Inside key e) \<and> caller m j (Inside key e') \<longrightarrow> i = j)
     \<and> (\<forall>i key e. caller m i (Inside key e) \<longrightarrow> map_option fst (mm_unregister key m) = Some e)
     \<and> (\<forall>i key e. caller m i (Waiting key e) \<and> entry_locked (entries m e) \<longrightarrow> (\<exists>j. j \<noteq> i \<and> j < length (callers m) \<and> owns e (callers m ! j)))
     \<and> (\<forall>key. map_of (ma m) key \<noteq> None \<longrightarrow> (\<exists>i e. caller m i (Waiting key e) \<or> caller m i (Inside key e)))"
proof -
  have inv: "mm_inv m" using mutexes.reachable_inv assms by blast
  note I = mm_invD [OF inv]
  have key: "map_of (ma m) key = Some e" if "caller m i p" "pc_key p = Some (key, e)" for i p key e
    using that I(4) [of p key e] by (auto simp: in_set_conv_nth)
  show ?thesis
  proof (intro conjI allI impI)
    fix i j key e e'
    assume a: "caller m i (Inside key e) \<and> caller m j (Inside key e')"
    then have "e' = e" using key [of i "Inside key e" key e] key [of j "Inside key e'" key e'] by simp
    moreover have "number (owns e) (callers m) \<le> 1" using I(7) [of e] by simp
    ultimately show "i = j" using a number_le1_unique [of "owns e" "callers m" i j] by simp
  next
    fix i key e
    assume "caller m i (Inside key e)"
    then show "map_option fst (mm_unregister key m) = Some e"
      using key [of i "Inside key e" key e] by (simp add: mm_unregister_def Map_Load_def Let_def)
  next
    fix i key e
    assume a: "caller m i (Waiting key e) \<and> entry_locked (entries m e)"
    then have "number (owns e) (callers m) \<noteq> 0" using I(7) [of e] by simp
    then obtain j where "j < length (callers m)" "owns e (callers m ! j)"
      by (auto simp: number_zero in_set_conv_nth)
    moreover have "j \<noteq> i" using a \<open>owns e (callers m ! j)\<close> by auto
    ultimately show "\<exists>j. j \<noteq> i \<and> j < length (callers m) \<and> owns e (callers m ! j)" by blast
  next
    fix key
    assume "map_of (ma m) key \<noteq> None"
    then obtain e where e: "map_of (ma m) key = Some e" by auto
    then have "number (refers e) (callers m) \<noteq> 0" using I(5) by auto
    then obtain i where i: "i < length (callers m)" "refers e (callers m ! i)"
      by (auto simp: number_zero in_set_conv_nth)
    have only: "k = key" if "map_of (ma m) k = Some e" for k
      using that e I(3) by (auto simp: inj_on_def dom_def)
    show "\<exists>i e. caller m i (Waiting key e) \<or> caller m i (Inside key e)"
    proof (cases "callers m ! i")
      case (Waiting k e')
      then show ?thesis using i key [of i "Waiting k e'" k e'] only [of k] by (intro exI [of _ i] exI [of _ e]) auto
    next
      case (Inside k e')
      then show ?thesis using i key [of i "Inside k e'" k e'] only [of k] by (intro exI [of _ i] exI [of _ e]) auto
    qed (use i in auto)
  qed
qed

theorem mutex_map_excludes_witness:
  "\<exists>m :: nat mutex_map. mm_step\<^sup>*\<^sup>* (NewMutexMap 2) m \<and> caller m 0 (Inside 7 0) \<and> (\<forall>j e. caller m j (Inside 7 e) \<longrightarrow> j = 0)"
proof -
  let ?m = "\<lambda>b ps. \<lparr>ma = [(7, 0)], entries = (\<lambda>_. \<lparr>entry_locked = False, cnt = 0\<rparr>)(0 := \<lparr>entry_locked = b, cnt = 1\<rparr>),
     nextEntry = 1, callers = ps\<rparr> :: nat mutex_map"
  have 1: "mm_step (NewMutexMap 2) (?m False [Waiting 7 0, Out])"
    using Lock_register [where m = "NewMutexMap 2" and i = 0 and key = 7 and e = 0 and m' = "?m False [Out, Out]"]
    by (simp add: NewMutexMap_def NewMap_def mm_register_def Map_Load_def Map_Store_def move_def numeral_2_eq_2)
  have 2: "mm_step (?m False [Waiting 7 0, Out]) (?m True [Inside 7 0, Out])"
    using Lock_entry [where m = "?m False [Waiting 7 0, Out]" and i = 0 and key = 7 and e = 0] by (simp add: move_def)
  have r: "mm_step\<^sup>*\<^sup>* (NewMutexMap 2) (?m True [Inside 7 0, Out])"
    by (rule rtranclp.rtrancl_into_rtrancl [where r = mm_step, OF r_into_rtranclp [of mm_step, OF 1] 2])
  then obtain m where m: "mm_step\<^sup>*\<^sup>* (NewMutexMap 2) m" "m = ?m True [Inside 7 0, Out]" by simp
  have c: "caller m 0 (Inside 7 0)" by (simp add: m(2))
  have "\<forall>i j key e e'. caller m i (Inside key e) \<and> caller m j (Inside key e') \<longrightarrow> i = j"
    by (rule conjunct1 [OF mutex_map_excludes [OF _ m(1)]]) simp
  then have "\<forall>j e. caller m j (Inside 7 e) \<longrightarrow> j = 0" using c by blast
  then show ?thesis using m(1) c by blast
qed

end
