(* ===== verification/Limit_Requests.thy ===== *)
theory Limit_Requests
  imports Goroutines Sync_Map Go_Hash Options_Access
begin

text \<open>
  The limits on parallel requests, \<open>net/client/limitParallelRequests\<close>: a request waits for a slot of its
  endpoint, in the order of arrival, then for one of the client, and gives both back at the end.  A
  channel is a number, closed or not; \<open>semaphore.Weighted\<close> is the number of slots in use.  What happens
  under the lock of the map of queues is one step.
\<close>

record endpointQueue =
  processedCounter :: int
  orderedRequest :: "nat list"

datatype lim_pc =
    NoRequest
  | Queued u64 nat
  | Admitted u64
  | Running u64
  | Returning u64

record limiter =
  endpointLimit :: int
  sem_size :: int
  sem_used :: int
  endpointQueues :: "(u64, endpointQueue) smap"
  closed :: "nat \<Rightarrow> bool"
  nextChan :: nat
  requests :: "lim_pc list"

definition MaxInt64 :: int where "MaxInt64 = 2 ^ 63 - 1"

definition limit_New :: "int \<Rightarrow> int \<Rightarrow> nat \<Rightarrow> limiter" where
  "limit_New limit endpLimit n =
     \<lparr>endpointLimit = (if endpLimit \<le> 0 then MaxInt64 else endpLimit),
      sem_size = (if limit \<le> 0 then MaxInt64 else limit), sem_used = 0, endpointQueues = NewMap,
      closed = (\<lambda>_. False), nextChan = 0, requests = replicate n NoRequest\<rparr>"

definition limit_hash :: "Options \<Rightarrow> u64" where
  "limit_hash opts = crc64_checksum (concat (map Value (filter (\<lambda>opt. ID opt = URIPath) opts)))"

definition close_chan :: "nat \<Rightarrow> limiter \<Rightarrow> limiter" where
  "close_chan ch l = l\<lparr>closed := (closed l)(ch := True)\<rparr>"

text \<open>\<open>acquireEndpoint\<close> up to its \<open>select\<close>: a new channel, closed at once when there is a slot.\<close>

definition enterEndpoint :: "u64 \<Rightarrow> limiter \<Rightarrow> nat \<times> limiter" where
  "enterEndpoint key l0 =
     (let reqChan = nextChan l0;
          l = l0\<lparr>nextChan := Suc reqChan\<rparr>
      in (reqChan,
          case map_of (endpointQueues l) key of
            Some value \<Rightarrow>
              if processedCounter value < endpointLimit l
              then close_chan reqChan (l\<lparr>endpointQueues := AList.update key (value\<lparr>processedCounter := processedCounter value + 1\<rparr>) (endpointQueues l)\<rparr>)
              else l\<lparr>endpointQueues := AList.update key (value\<lparr>orderedRequest := orderedRequest value @ [reqChan]\<rparr>) (endpointQueues l)\<rparr>
          | None \<Rightarrow>
              close_chan reqChan (l\<lparr>endpointQueues := AList.update key \<lparr>processedCounter = 1, orderedRequest = []\<rparr> (endpointQueues l)\<rparr>)))"

definition releaseEndpoint :: "u64 \<Rightarrow> limiter \<Rightarrow> limiter" where
  "releaseEndpoint key l =
     (let (qs, _, ch) =
        Map_ReplaceWithFunc key
          (\<lambda>old. case old of
             Some oldValue \<Rightarrow>
               (case orderedRequest oldValue of
                  reqChan # rest \<Rightarrow> (Some (oldValue\<lparr>orderedRequest := rest\<rparr>), Some reqChan)
                | [] \<Rightarrow>
                    (let c = processedCounter oldValue - 1
                     in (if c = 0 then None else Some (oldValue\<lparr>processedCounter := c\<rparr>), None)))
           | None \<Rightarrow> (None, None)) (endpointQueues l);
          l1 = l\<lparr>endpointQueues := qs\<rparr>
      in case ch of None \<Rightarrow> l1 | Some reqChan \<Rightarrow> close_chan reqChan l1)"

definition request_at :: "nat \<Rightarrow> lim_pc \<Rightarrow> limiter \<Rightarrow> limiter" where
  "request_at i p l = l\<lparr>requests := (requests l)[i := p]\<rparr>"

abbreviation at_request :: "limiter \<Rightarrow> nat \<Rightarrow> lim_pc \<Rightarrow> bool" where
  "at_request l i p \<equiv> i < length (requests l) \<and> requests l ! i = p"

text \<open>
  The steps of \<open>Do\<close> and \<open>DoObserve\<close>.  The contexts of requests may be cancelled any time (\<open>give_up\<close>,
  \<open>sem_cancelled\<close>); with \<open>patient\<close> no request gives up that has not been admitted to its endpoint.
\<close>

inductive lim_step :: "bool \<Rightarrow> limiter \<Rightarrow> limiter \<Rightarrow> bool" for patient :: bool where
  enter: "at_request l i NoRequest \<Longrightarrow> enterEndpoint key l = (ch, l') \<Longrightarrow> lim_step patient l (request_at i (Queued key ch) l')"
| admitted: "at_request l i (Queued key ch) \<Longrightarrow> closed l ch \<Longrightarrow> lim_step patient l (request_at i (Admitted key) l)"
| give_up: "at_request l i (Queued key ch) \<Longrightarrow> \<not> patient \<or> closed l ch \<Longrightarrow>
     lim_step patient l (request_at i NoRequest (releaseEndpoint key l))"
| sem_acquired: "at_request l i (Admitted key) \<Longrightarrow> sem_used l < sem_size l \<Longrightarrow>
     lim_step patient l (request_at i (Running key) (l\<lparr>sem_used := sem_used l + 1\<rparr>))"
| sem_cancelled: "at_request l i (Admitted key) \<Longrightarrow> lim_step patient l (request_at i NoRequest (releaseEndpoint key l))"
| sem_released: "at_request l i (Running key) \<Longrightarrow>
     lim_step patient l (request_at i (Returning key) (l\<lparr>sem_used := sem_used l - 1\<rparr>))"
| returned: "at_request l i (Returning key) \<Longrightarrow> lim_step patient l (request_at i NoRequest (releaseEndpoint key l))"

fun running :: "u64 \<Rightarrow> lim_pc \<Rightarrow> bool" where
  "running key (Running key') \<longleftrightarrow> key = key'"
| "running key _ \<longleftrightarrow> False"

fun is_running :: "lim_pc \<Rightarrow> bool" where
  "is_running (Running key) \<longleftrightarrow> True"
| "is_running _ \<longleftrightarrow> False"

subsection \<open>The invariant of patient requests\<close>

text \<open>A request has a slot of its endpoint from the moment its channel is closed.\<close>

fun slot :: "(nat \<Rightarrow> bool) \<Rightarrow> u64 \<Rightarrow> lim_pc \<Rightarrow> bool" where
  "slot cl key (Queued key' ch) \<longleftrightarrow> key = key' \<and> cl ch"
| "slot cl key (Admitted key') \<longleftrightarrow> key = key'"
| "slot cl key (Running key') \<longleftrightarrow> key = key'"
| "slot cl key (Returning key') \<longleftrightarrow> key = key'"
| "slot cl key NoRequest \<longleftrightarrow> False"

fun on_chan :: "nat \<Rightarrow> lim_pc \<Rightarrow> bool" where
  "on_chan ch (Queued key ch') \<longleftrightarrow> ch = ch'"
| "on_chan ch _ \<longleftrightarrow> False"

definition queue_ok :: "limiter \<Rightarrow> u64 \<Rightarrow> endpointQueue \<Rightarrow> bool" where
  "queue_ok l key q \<longleftrightarrow>
     processedCounter q = int (number (slot (closed l) key) (requests l))
     \<and> 0 < processedCounter q \<and> processedCounter q \<le> endpointLimit l
     \<and> distinct (orderedRequest q) \<and> (\<forall>ch \<in> set (orderedRequest q). \<not> closed l ch \<and> Queued key ch \<in> set (requests l))
     \<and> (orderedRequest q \<noteq> [] \<longrightarrow> processedCounter q = endpointLimit l)"

definition lim_inv :: "limiter \<Rightarrow> bool" where
  "lim_inv l \<longleftrightarrow>
     0 < endpointLimit l \<and> smap_ok (endpointQueues l)
     \<and> (\<forall>key. case map_of (endpointQueues l) key of
                None \<Rightarrow> number (slot (closed l) key) (requests l) = 0
              | Some q \<Rightarrow> queue_ok l key q)
     \<and> (\<forall>key ch. Queued key ch \<in> set (requests l) \<and> \<not> closed l ch \<longrightarrow>
          (\<exists>q. map_of (endpointQueues l) key = Some q \<and> ch \<in> set (orderedRequest q)))
     \<and> (\<forall>ch. number (on_chan ch) (requests l) \<le> 1)
     \<and> (\<forall>ch \<ge> nextChan l. number (on_chan ch) (requests l) = 0 \<and> \<not> closed l ch)
     \<and> sem_used l = int (number is_running (requests l)) \<and> sem_used l \<le> sem_size l"

lemma lim_invD:
  assumes "lim_inv l"
  shows "0 < endpointLimit l" "smap_ok (endpointQueues l)"
    "map_of (endpointQueues l) key = None \<Longrightarrow> number (slot (closed l) key) (requests l) = 0"
    "map_of (endpointQueues l) key = Some q \<Longrightarrow> queue_ok l key q"
    "Queued key ch \<in> set (requests l) \<Longrightarrow> \<not> closed l ch \<Longrightarrow> \<exists>q. map_of (endpointQueues l) key = Some q \<and> ch \<in> set (orderedRequest q)"
    "number (on_chan ch) (requests l) \<le> 1"
    "nextChan l \<le> ch \<Longrightarrow> number (on_chan ch) (requests l) = 0 \<and> \<not> closed l ch"
    "sem_used l = int (number is_running (requests l))" "sem_used l \<le> sem_size l"
  using assms unfolding lim_inv_def by (fastforce split: option.splits)+

lemma lim_invI:
  assumes "0 < endpointLimit l" "smap_ok (endpointQueues l)"
    "\<And>key. map_of (endpointQueues l) key = None \<Longrightarrow> number (slot (closed l) key) (requests l) = 0"
    "\<And>key q. map_of (endpointQueues l) key = Some q \<Longrightarrow> queue_ok l key q"
    "\<And>key ch. Queued key ch \<in> set (requests l) \<Longrightarrow> \<not> closed l ch \<Longrightarrow> \<exists>q. map_of (endpointQueues l) key = Some q \<and> ch \<in> set (orderedRequest q)"
    "\<And>ch. number (on_chan ch) (requests l) \<le> 1"
    "\<And>ch. nextChan l \<le> ch \<Longrightarrow> number (on_chan ch) (requests l) = 0 \<and> \<not> closed l ch"
    "sem_used l = int (number is_running (requests l))" "sem_used l \<le> sem_size l"
  shows "lim_inv l"
  using assms unfolding lim_inv_def by (auto split: option.splits)

text \<open>A step that keeps the queues, the channels and the requests in the queues.\<close>

lemma same_slots_inv:
  assumes inv: "lim_inv l" and c: "at_request l i p" "\<And>k. slot (closed l) k p = slot (closed l) k q"
      "\<And>ch. \<not> on_chan ch q" "\<And>k ch. p = Queued k ch \<Longrightarrow> closed l ch"
    and sem: "used = int (number is_running ((requests l)[i := q]))" "used \<le> sem_size l"
  shows "lim_inv (request_at i q (l\<lparr>sem_used := used\<rparr>))"
proof -
  note I = lim_invD [OF inv]
  have n: "number (slot (closed l) k) ((requests l)[i := q]) = number (slot (closed l) k) (requests l)" for k
    using c(1) c(2) [of k] number_move [of i "requests l" p "slot (closed l) k"] by auto
  have o: "number (on_chan ch) ((requests l)[i := q]) \<le> number (on_chan ch) (requests l)" for ch
    using c(1) c(3) [of ch] by (simp add: number_move)
  have mem: "Queued k ch \<in> set ((requests l)[i := q]) \<longleftrightarrow> Queued k ch \<in> set (requests l)" if "\<not> closed l ch" for k ch
  proof
    assume "Queued k ch \<in> set ((requests l)[i := q])"
    then show "Queued k ch \<in> set (requests l)" using in_set_update c(3) [of ch] by fastforce
  next
    assume "Queued k ch \<in> set (requests l)"
    then obtain j where j: "j < length (requests l)" "requests l ! j = Queued k ch" by (auto simp: in_set_conv_nth)
    then have "j \<noteq> i" using c(1) c(4) that by auto
    then show "Queued k ch \<in> set ((requests l)[i := q])" using j by (auto simp: in_set_conv_nth intro!: exI [of _ j])
  qed
  have qok: "queue_ok (request_at i q (l\<lparr>sem_used := used\<rparr>)) k x \<longleftrightarrow> queue_ok l k x" for k x
    unfolding queue_ok_def using mem by (auto simp: request_at_def n)
  have o0: "number (on_chan ch) ((requests l)[i := q]) = 0" if "nextChan l \<le> ch" for ch
    using o [of ch] I(7) [OF that] by simp
  have o1: "number (on_chan ch) ((requests l)[i := q]) \<le> 1" for ch
    using o [of ch] I(6) [of ch] by simp
  show ?thesis
    by (rule lim_invI) (use I(1,2) I(3) I(4) I(5) I(7) o0 o1 n mem qok sem in \<open>auto simp: request_at_def\<close>)
qed

text \<open>A channel has one request.\<close>

lemma number_queued:
  assumes "number (on_chan ch) rs \<le> 1" "Queued key ch \<in> set rs"
  shows "number (\<lambda>p. p = Queued key' ch) rs = (if key' = key then 1 else 0)"
proof (cases "key' = key")
  case True
  have "number (\<lambda>p. p = Queued key ch) rs \<le> 1" "number (\<lambda>p. p = Queued key ch) rs \<noteq> 0"
    using number_mono [of "\<lambda>p. p = Queued key ch" "on_chan ch" rs] assms by (auto simp: number_zero)
  with True show ?thesis by simp
next
  case False
  have "Queued key' ch \<notin> set rs"
  proof
    assume "Queued key' ch \<in> set rs"
    then obtain j j' where "j < length rs" "rs ! j = Queued key' ch" "j' < length rs" "rs ! j' = Queued key ch"
      using assms(2) by (auto simp: in_set_conv_nth)
    then show False using number_le1_unique [OF assms(1), of j j'] False by auto
  qed
  with False show ?thesis by (auto simp: number_zero)
qed

lemma number_close:
  assumes "\<not> cl ch" "number (on_chan ch) rs \<le> 1" "Queued key ch \<in> set rs"
  shows "number (slot (cl(ch := True)) key') rs = number (slot cl key') rs + (if key' = key then 1 else 0)"
proof -
  have "slot (cl(ch := True)) key' p \<longleftrightarrow> slot cl key' p \<or> p = Queued key' ch" for p
    by (cases p) auto
  then have "number (slot (cl(ch := True)) key') rs = number (slot cl key') rs + number (\<lambda>p. p = Queued key' ch) rs"
    by (rule number_disjoint) (use assms(1) in auto)
  then show ?thesis using number_queued [OF assms(2,3)] by simp
qed

lemma in_set_update_other:
  "at_request l i q \<Longrightarrow> p \<noteq> q \<Longrightarrow> p \<noteq> r \<Longrightarrow> p \<in> set ((requests l)[i := r]) \<longleftrightarrow> p \<in> set (requests l)"
  by (auto simp: in_set_conv_nth nth_list_update)

text \<open>A request with a slot gives it back.\<close>

lemma release_inv:
  assumes inv: "lim_inv l" and p: "at_request l i p" "slot (closed l) key p" "\<not> is_running p"
  shows "lim_inv (request_at i NoRequest (releaseEndpoint key l))"
proof -
  note I = lim_invD [OF inv]
  let ?rs = "(requests l)[i := NoRequest]"
  have slotp: "slot (closed l) k p \<longleftrightarrow> k = key" for k using p(2) by (cases p) auto
  have n: "number (slot (closed l) k) ?rs = number (slot (closed l) k) (requests l) - (if k = key then 1 else 0)" for k
    using p(1) slotp [of k] by (simp add: number_move)
  have pos: "0 < number (slot (closed l) key) (requests l)"
    using number_move(2) [of i "requests l" p "slot (closed l) key"] p by blast
  obtain q where q: "map_of (endpointQueues l) key = Some q" using I(3) [of key] pos by (cases "map_of (endpointQueues l) key") auto
  have qok: "processedCounter q = int (number (slot (closed l) key) (requests l))" "processedCounter q \<le> endpointLimit l"
      "distinct (orderedRequest q)" "\<And>ch. ch \<in> set (orderedRequest q) \<Longrightarrow> \<not> closed l ch \<and> Queued key ch \<in> set (requests l)"
      "orderedRequest q \<noteq> [] \<Longrightarrow> processedCounter q = endpointLimit l"
    using I(4) [OF q] unfolding queue_ok_def by blast+
  have mem: "Queued k ch \<in> set ?rs \<longleftrightarrow> Queued k ch \<in> set (requests l)" if "\<not> closed l ch" for k ch
  proof -
    have "Queued k ch \<noteq> p" using p(2) that by auto
    then show ?thesis using in_set_update_other [OF p(1), of "Queued k ch" NoRequest] by simp
  qed
  have o: "number (on_chan ch) ?rs \<le> number (on_chan ch) (requests l)" for ch
    using p(1) by (simp add: number_move)
  have o0: "number (on_chan ch) ?rs = 0" if "nextChan l \<le> ch" for ch
    using o [of ch] I(7) [OF that] by simp
  have o1: "number (on_chan ch) ?rs \<le> 1" for ch
    using o [of ch] I(6) [of ch] by simp
  have run: "number is_running ?rs = number is_running (requests l)"
    using p(1,3) by (simp add: number_move)
  show ?thesis
  proof (cases "orderedRequest q")
    case Nil
    have R: "releaseEndpoint key l = l\<lparr>endpointQueues := (if processedCounter q = 1 then AList.delete key (endpointQueues l)
        else AList.update key (q\<lparr>processedCounter := processedCounter q - 1\<rparr>) (endpointQueues l))\<rparr>"
      using q Nil by (simp add: releaseEndpoint_def Map_ReplaceWithFunc_def Let_def)
    let ?m = "endpointQueues (releaseEndpoint key l)"
    have m: "map_of ?m k = (if k = key then (if processedCounter q = 1 then None else Some (q\<lparr>processedCounter := processedCounter q - 1\<rparr>))
        else map_of (endpointQueues l) k)" for k
      by (simp add: R update_conv' delete_conv')
    have q1: "queue_ok (request_at i NoRequest (releaseEndpoint key l)) k x" if x: "map_of ?m k = Some x" for k x
    proof (cases "k = key")
      case True
      with x [unfolded m] have "x = q\<lparr>processedCounter := processedCounter q - 1\<rparr>" "processedCounter q \<noteq> 1" by (auto split: if_splits)
      with True qok Nil pos show ?thesis by (auto simp: queue_ok_def R request_at_def n)
    next
      case False
      with x have "queue_ok l k x" using I(4) by (simp add: m)
      with False mem show ?thesis by (auto simp: queue_ok_def R request_at_def n)
    qed
    have w: "\<exists>x. map_of ?m k = Some x \<and> ch \<in> set (orderedRequest x)" if "Queued k ch \<in> set ?rs" "\<not> closed l ch" for k ch
      using I(5) [of k ch] that mem [of ch k] q Nil by (cases "k = key") (auto simp: m)
    have z: "number (slot (closed l) k) ?rs = 0" if "map_of ?m k = None" for k
      using that I(3) [of k] qok(1) by (auto simp: m n split: if_splits)
    show ?thesis
      by (rule lim_invI) (use I(1,2,8,9) I(7) o0 o1 q1 w z run in \<open>auto simp: R request_at_def smap_ok_def distinct_update distinct_delete split: if_splits\<close>)
  next
    case (Cons ch rest)
    have R: "releaseEndpoint key l = l\<lparr>closed := (closed l)(ch := True),
        endpointQueues := AList.update key (q\<lparr>orderedRequest := rest\<rparr>) (endpointQueues l)\<rparr>"
      using q Cons by (simp add: releaseEndpoint_def Map_ReplaceWithFunc_def Let_def close_chan_def)
    let ?m = "endpointQueues (releaseEndpoint key l)"
    let ?cl = "(closed l)(ch := True)"
    have m: "map_of ?m k = (if k = key then Some (q\<lparr>orderedRequest := rest\<rparr>) else map_of (endpointQueues l) k)" for k
      by (simp add: R update_conv')
    have ch: "\<not> closed l ch" "Queued key ch \<in> set (requests l)" "ch \<notin> set rest" using qok(3,4) Cons by auto
    have other: "c \<noteq> ch" if "Queued k c \<in> set (requests l)" "k \<noteq> key" for k c
      using number_queued [OF I(6) ch(2), of k] that by (auto simp: number_zero)
    have n2: "number (slot ?cl k) ?rs = number (slot (closed l) k) (requests l)" for k
      using number_close [of "closed l" ch ?rs key k] ch o1 mem [of ch key] n [of k] pos by auto
    have q1: "queue_ok (request_at i NoRequest (releaseEndpoint key l)) k x" if x: "map_of ?m k = Some x" for k x
    proof (cases "k = key")
      case True
      with x [unfolded m] have "x = q\<lparr>orderedRequest := rest\<rparr>" by simp
      with True qok Cons pos ch(3) mem show ?thesis by (auto simp: queue_ok_def R request_at_def n2)
    next
      case False
      with x have "queue_ok l k x" using I(4) by (simp add: m)
      with False mem other [of k] show ?thesis by (auto simp: queue_ok_def R request_at_def n2)
    qed
    have w: "\<exists>x. map_of ?m k = Some x \<and> c \<in> set (orderedRequest x)" if "Queued k c \<in> set ?rs" "\<not> ?cl c" for k c
      using I(5) [of k c] that mem [of c k] q Cons by (cases "k = key") (auto simp: m split: if_splits)
    have z: "number (slot ?cl k) ?rs = 0" if "map_of ?m k = None" for k
      using that I(3) [of k] by (auto simp: m n2 split: if_splits)
    have low: "ch < nextChan l"
      using I(7) [of ch] ch(2) by (cases "nextChan l \<le> ch") (auto simp: number_zero)
    show ?thesis
      by (rule lim_invI) (use I(1,2,8,9) I(7) o0 o1 q1 w z run low in \<open>auto simp: R request_at_def smap_ok_def distinct_update\<close>)
  qed
qed

text \<open>A new request gets a slot at once, or the limit is reached and it waits.\<close>

lemma enter_inv:
  assumes inv: "lim_inv l" and p: "at_request l i NoRequest" and e: "enterEndpoint key l = (ch, l')"
  shows "lim_inv (request_at i (Queued key ch) l')"
proof -
  note I = lim_invD [OF inv]
  let ?rs = "(requests l)[i := Queued key ch]"
  have ch: "ch = nextChan l" using e by (simp add: enterEndpoint_def Let_def)
  have fresh: "\<not> closed l ch" "number (on_chan ch) (requests l) = 0" using I(7) [of ch] ch by simp_all
  have notin: "Queued k ch \<notin> set (requests l)" for k using fresh(2) by (auto simp: number_zero)
  have mem: "Queued k c \<in> set ?rs \<longleftrightarrow> k = key \<and> c = ch \<or> Queued k c \<in> set (requests l)" for k c
    using p in_set_update_other [OF p, of "Queued k c" "Queued key ch"] set_update_memI [of i "requests l" "Queued key ch"]
    by (cases "k = key \<and> c = ch") auto
  have o: "number (on_chan c) ?rs = number (on_chan c) (requests l) + (if c = ch then 1 else 0)" for c
    using p by (simp add: number_move)
  have o0: "number (on_chan c) ?rs = 0" "\<not> closed l c" if "Suc (nextChan l) \<le> c" for c
    using o [of c] I(7) [of c] that ch by simp_all
  have o1: "number (on_chan c) ?rs \<le> 1" for c
    using o [of c] I(6) [of c] fresh by simp
  have run: "number is_running ?rs = number is_running (requests l)" using p by (simp add: number_move)
  have n: "number (slot (closed l) k) ?rs = number (slot (closed l) k) (requests l)" for k
    using p fresh by (simp add: number_move)
  have nc: "number (slot ((closed l)(ch := True)) k) ?rs = number (slot (closed l) k) (requests l) + (if k = key then 1 else 0)" for k
    using number_close [of "closed l" ch ?rs key k] fresh(1) o1 [of ch] mem [of key ch] n [of k] by simp
  have granted: "lim_inv (request_at i (Queued key ch) (close_chan ch (l\<lparr>nextChan := Suc ch, endpointQueues := AList.update key v (endpointQueues l)\<rparr>)))"
    if v: "processedCounter v = int (number (slot (closed l) key) (requests l)) + 1" "processedCounter v \<le> endpointLimit l" "orderedRequest v = []"
      "\<And>q. map_of (endpointQueues l) key = Some q \<Longrightarrow> orderedRequest q = []" for v
  proof -
    let ?l = "request_at i (Queued key ch) (close_chan ch (l\<lparr>nextChan := Suc ch, endpointQueues := AList.update key v (endpointQueues l)\<rparr>))"
    have m: "map_of (endpointQueues ?l) k = (if k = key then Some v else map_of (endpointQueues l) k)" for k
      by (simp add: request_at_def close_chan_def update_conv')
    have q1: "queue_ok ?l k x" if x: "map_of (endpointQueues ?l) k = Some x" for k x
    proof (cases "k = key")
      case True
      with x [unfolded m] v(1,2,3) show ?thesis by (auto simp: queue_ok_def request_at_def close_chan_def nc)
    next
      case False
      with x have "queue_ok l k x" using I(4) by (simp only: m if_False)
      with False mem notin [of k] show ?thesis by (auto simp: queue_ok_def request_at_def close_chan_def nc)
    qed
    have w: "\<exists>x. map_of (endpointQueues ?l) k = Some x \<and> c \<in> set (orderedRequest x)" if "Queued k c \<in> set ?rs" "\<not> ((closed l)(ch := True)) c" for k c
      unfolding m using I(5) [of k c] that mem [of k c] v(4) by (cases "k = key") (auto split: if_splits)
    have z: "number (slot ((closed l)(ch := True)) k) ?rs = 0" if "map_of (endpointQueues ?l) k = None" for k
      using that [unfolded m] I(3) [of k] by (auto simp: nc split: if_splits)
    show ?thesis
      by (rule lim_invI) (use I(1,2,8,9) I(7) o0 o1 q1 w z run ch in \<open>auto simp: request_at_def close_chan_def smap_ok_def distinct_update\<close>)
  qed
  show ?thesis
  proof (cases "map_of (endpointQueues l) key")
    case None
    with granted [of "\<lparr>processedCounter = 1, orderedRequest = []\<rparr>"] I(1) I(3) [of key] e ch show ?thesis
      by (simp add: enterEndpoint_def Let_def)
  next
    case (Some q)
    note qok = I(4) [OF Some, unfolded queue_ok_def]
    show ?thesis
    proof (cases "processedCounter q < endpointLimit l")
      case True
      with granted [of "q\<lparr>processedCounter := processedCounter q + 1\<rparr>"] Some qok e ch show ?thesis
        by (simp add: enterEndpoint_def Let_def)
    next
      case False
      let ?l = "request_at i (Queued key ch) (l\<lparr>nextChan := Suc ch, endpointQueues := AList.update key (q\<lparr>orderedRequest := orderedRequest q @ [ch]\<rparr>) (endpointQueues l)\<rparr>)"
      have l': "request_at i (Queued key ch) l' = ?l"
        using e Some False ch by (simp add: enterEndpoint_def Let_def)
      have m: "map_of (endpointQueues ?l) k = (if k = key then Some (q\<lparr>orderedRequest := orderedRequest q @ [ch]\<rparr>) else map_of (endpointQueues l) k)" for k
        by (simp add: request_at_def update_conv')
      have q1: "queue_ok ?l k x" if x: "map_of (endpointQueues ?l) k = Some x" for k x
      proof (cases "k = key")
        case True
        have "ch \<notin> set (orderedRequest q)" using qok notin by blast
        with True x [unfolded m] False qok fresh(1) mem show ?thesis by (auto simp: queue_ok_def request_at_def n)
      next
        case False
        with x have "queue_ok l k x" using I(4) by (simp only: m if_False)
        with False mem show ?thesis by (auto simp: queue_ok_def request_at_def n)
      qed
      have w: "\<exists>x. map_of (endpointQueues ?l) k = Some x \<and> c \<in> set (orderedRequest x)" if "Queued k c \<in> set ?rs" "\<not> closed l c" for k c
        unfolding m using I(5) [of k c] that mem [of k c] Some by (cases "k = key") auto
      have z: "number (slot (closed l) k) ?rs = 0" if "map_of (endpointQueues ?l) k = None" for k
        using that [unfolded m] I(3) [of k] by (auto simp: n split: if_splits)
      show ?thesis unfolding l'
        by (rule lim_invI) (use I(1,2,8,9) o0 o1 q1 w z run ch in \<open>auto simp: request_at_def smap_ok_def distinct_update\<close>)
    qed
  qed
qed

lemma lim_step_inv:
  assumes "lim_inv l" "lim_step True l l'"
  shows "lim_inv l'"
  using assms(2)
proof cases
  case (enter i key ch l2)
  then show ?thesis using enter_inv [OF assms(1)] by blast
next
  case (admitted i key ch)
  then have "lim_inv (request_at i (Admitted key) (l\<lparr>sem_used := sem_used l\<rparr>))"
    using lim_invD(8,9) [OF assms(1)] by (intro same_slots_inv [OF assms(1), of i "Queued key ch"]) (auto simp: number_move)
  then show ?thesis using admitted by simp
next
  case (sem_acquired i key)
  then show ?thesis
    using same_slots_inv [OF assms(1), of i "Admitted key" "Running key" "sem_used l + 1"] lim_invD(8,9) [OF assms(1)]
    by (auto simp: number_move)
next
  case (sem_released i key)
  then have "0 < number is_running (requests l)" using number_move(2) [of i "requests l" "Running key" is_running] by simp
  then show ?thesis
    using same_slots_inv [OF assms(1), of i "Running key" "Returning key" "sem_used l - 1"] lim_invD(8,9) [OF assms(1)] sem_released
    by (auto simp: number_move)
next
  case (give_up i key ch)
  then show ?thesis using release_inv [OF assms(1), of i "Queued key ch" key] by auto
next
  case (sem_cancelled i key)
  then show ?thesis using release_inv [OF assms(1), of i "Admitted key" key] by auto
next
  case (returned i key)
  then show ?thesis using release_inv [OF assms(1), of i "Returning key" key] by auto
qed

definition lim_init :: "limiter \<Rightarrow> bool" where
  "lim_init l \<longleftrightarrow> (\<exists>limit endpLimit n. l = limit_New limit endpLimit n)"

lemma New_inv: "lim_inv (limit_New limit endpLimit n)"
  by (rule lim_invI) (auto simp: limit_New_def MaxInt64_def NewMap_def smap_ok_def number_def)

interpretation limits: transition_system lim_init "lim_step True" lim_inv
  by unfold_locales (auto simp: lim_init_def New_inv intro: lim_step_inv)

subsection \<open>The limits\<close>

lemma lim_step_limits:
  "lim_step patient l l' \<Longrightarrow> endpointLimit l' = endpointLimit l \<and> sem_size l' = sem_size l"
  by (erule lim_step.cases) (auto simp: request_at_def enterEndpoint_def releaseEndpoint_def close_chan_def Let_def
    split: prod.splits option.splits if_splits)

text \<open>
  C13. Of the requests that run at a time, no more than the endpoint's limit have the same path, and no more
  than the limit of the client run at all, as long as no request is cancelled while it waits in the queue
  of its endpoint; a limit of zero or less is none.
\<close>

theorem parallel_requests_limited:
  assumes "(lim_step True)\<^sup>*\<^sup>* (limit_New limit endpLimit n) l"
  shows "(0 < endpLimit \<longrightarrow> int (number (running key) (requests l)) \<le> endpLimit)
    \<and> (0 < limit \<longrightarrow> int (number is_running (requests l)) \<le> limit)"
proof -
  have "lim_inv l" by (rule limits.reachable_inv [OF _ assms]) (auto simp: lim_init_def)
  note I = lim_invD [OF this]
  have lim: "endpointLimit l = endpointLimit (limit_New limit endpLimit n) \<and> sem_size l = sem_size (limit_New limit endpLimit n)"
    using assms by (induction rule: rtranclp_induct) (auto dest: lim_step_limits)
  have "number (running key) (requests l) \<le> number (slot (closed l) key) (requests l)"
    by (rule number_mono) (auto elim: running.elims)
  moreover have "int (number (slot (closed l) key) (requests l)) \<le> endpointLimit l"
    using I(1) I(3) [of key] I(4) [of key] by (cases "map_of (endpointQueues l) key") (auto simp: queue_ok_def)
  ultimately show ?thesis using I(8,9) lim by (auto simp: limit_New_def)
qed

text \<open>One request that runs, and two that come after it for the same endpoint.\<close>

definition first_runs :: "u64 \<Rightarrow> limiter" where
  "first_runs key =
     \<lparr>endpointLimit = 1, sem_size = MaxInt64, sem_used = 1,
      endpointQueues = [(key, \<lparr>processedCounter = 1, orderedRequest = []\<rparr>)],
      closed = (\<lambda>_. False)(0 := True), nextChan = 1, requests = [Running key, NoRequest, NoRequest]\<rparr>"

definition two_wait :: "u64 \<Rightarrow> limiter" where
  "two_wait key = (first_runs key)
     \<lparr>endpointQueues := [(key, \<lparr>processedCounter = 1, orderedRequest = [1, 2]\<rparr>)], nextChan := 3,
      requests := [Running key, Queued key 1, Queued key 2]\<rparr>"

lemmas lim_eval = limit_New_def NewMap_def enterEndpoint_def releaseEndpoint_def Map_ReplaceWithFunc_def close_chan_def
  request_at_def first_runs_def two_wait_def MaxInt64_def Let_def

lemma lim_steps_snoc [trans]:
  "(lim_step patient)\<^sup>*\<^sup>* l l' \<Longrightarrow> lim_step patient l' l'' \<Longrightarrow> (lim_step patient)\<^sup>*\<^sup>* l l''"
  by (rule rtranclp.rtrancl_into_rtrancl)

lemma first_runs_steps: "(lim_step patient)\<^sup>*\<^sup>* (limit_New 0 1 3) (first_runs key)"
proof -
  let ?a = "request_at 0 (Queued key 0) (snd (enterEndpoint key (limit_New 0 1 3)))"
  let ?b = "request_at 0 (Admitted key) ?a"
  have "(lim_step patient)\<^sup>*\<^sup>* (limit_New 0 1 3) (limit_New 0 1 3)" by simp
  also have "lim_step patient (limit_New 0 1 3) ?a" by (rule lim_step.enter) (simp_all add: lim_eval)
  also have "lim_step patient ?a ?b" by (rule lim_step.admitted) (simp_all add: lim_eval)
  also have "lim_step patient ?b (first_runs key)"
    using lim_step.sem_acquired [of 0 ?b key patient] by (simp add: lim_eval eval_nat_numeral)
  finally show ?thesis .
qed

lemma two_wait_steps: "(lim_step patient)\<^sup>*\<^sup>* (limit_New 0 1 3) (two_wait key)"
proof -
  let ?a = "request_at 1 (Queued key 1) (snd (enterEndpoint key (first_runs key)))"
  have "(lim_step patient)\<^sup>*\<^sup>* (limit_New 0 1 3) (first_runs key)" by (rule first_runs_steps)
  also have "lim_step patient (first_runs key) ?a" by (rule lim_step.enter) (simp_all add: lim_eval)
  also have "lim_step patient ?a (two_wait key)"
    using lim_step.enter [of 2 ?a key 2 "snd (enterEndpoint key ?a)" patient] by (simp add: lim_eval eval_nat_numeral)
  finally show ?thesis .
qed

theorem parallel_requests_limited_witness:
  "(lim_step True)\<^sup>*\<^sup>* (limit_New 0 1 3) (two_wait 7) \<and> number (running 7) (requests (two_wait 7)) = 1
    \<and> int (number (running 7) (requests (two_wait 7))) \<le> 1"
  using two_wait_steps [of True 7] conjunct1 [OF parallel_requests_limited [OF two_wait_steps [of True 7], of 7]]
  by (simp add: number_def lim_eval)

text \<open>
  C26. The limit of an endpoint does not survive a cancellation in its queue: whenever as many requests run on an
  endpoint as its limit allows and a waiting request that is not the first of the queue is cancelled, the
  \<open>releaseEndpoint\<close> of the cancelled request lets the first of the queue in although no request has ended,
  and without any further cancellation one request more than the limit runs on the endpoint, as soon as
  the limit of the client has room.
\<close>

theorem cancelled_request_breaks_limit:
  assumes "(lim_step True)\<^sup>*\<^sup>* (limit_New limit endpLimit n) l" "int (number (running key) (requests l)) = endpLimit"
    and "map_of (endpointQueues l) key = Some q" "orderedRequest q = ch # rest"
    and "at_request l j (Queued key ch')" "ch' \<noteq> ch" "sem_used l < sem_size l"
  shows "let l1 = request_at j NoRequest (releaseEndpoint key l) in
    lim_step False l l1 \<and> (\<exists>l2. (lim_step True)\<^sup>*\<^sup>* l1 l2 \<and> int (number (running key) (requests l2)) = endpLimit + 1)"
proof -
  let ?l1 = "request_at j NoRequest (releaseEndpoint key l)"
  have "lim_inv l" by (rule limits.reachable_inv [OF _ assms(1)]) (auto simp: lim_init_def)
  then have "Queued key ch \<in> set (requests l)" using lim_invD(4) [OF _ assms(3)] assms(4) by (auto simp: queue_ok_def)
  then obtain i where i: "at_request l i (Queued key ch)" by (auto simp: in_set_conv_nth)
  then have ij: "i \<noteq> j" using assms(5,6) by auto
  have l1: "requests ?l1 = (requests l)[j := NoRequest]" "closed ?l1 ch" "sem_used ?l1 = sem_used l" "sem_size ?l1 = sem_size l"
    using assms(3,4) by (simp_all add: releaseEndpoint_def Map_ReplaceWithFunc_def close_chan_def request_at_def)
  let ?l2 = "request_at i (Admitted key) ?l1"
  let ?l3 = "request_at i (Running key) (?l2\<lparr>sem_used := sem_used ?l2 + 1\<rparr>)"
  have q: "at_request ?l1 i (Queued key ch)" using i ij by (simp add: l1(1))
  have "lim_step True ?l1 ?l2" by (rule lim_step.admitted [OF q l1(2)])
  moreover have "lim_step True ?l2 ?l3"
    by (rule lim_step.sem_acquired) (use q l1(3,4) assms(7) in \<open>simp_all add: request_at_def [of i]\<close>)
  ultimately have run: "(lim_step True)\<^sup>*\<^sup>* ?l1 ?l3" by simp
  have "requests ?l3 = ((requests l)[j := NoRequest])[i := Running key]" by (simp add: request_at_def [of i] l1(1))
  then have "number (running key) (requests ?l3) = Suc (number (running key) (requests l))"
    using i ij assms(5) by (simp add: number_move)
  then have "int (number (running key) (requests ?l3)) = endpLimit + 1" using assms(2) by simp
  moreover have "lim_step False l ?l1" by (rule lim_step.give_up [OF assms(5)]) simp
  ultimately show ?thesis using run by (auto simp: Let_def)
qed

theorem cancelled_request_breaks_limit_witness:
  "(lim_step True)\<^sup>*\<^sup>* (limit_New 0 1 3) (two_wait 7) \<and> lim_step False (two_wait 7) (request_at 2 NoRequest (releaseEndpoint 7 (two_wait 7)))
    \<and> (\<exists>l2. (lim_step True)\<^sup>*\<^sup>* (request_at 2 NoRequest (releaseEndpoint 7 (two_wait 7))) l2 \<and> number (running 7) (requests l2) = 2)"
proof -
  have s: "int (number (running 7) (requests (two_wait 7))) = 1"
      "map_of (endpointQueues (two_wait 7)) 7 = Some \<lparr>processedCounter = 1, orderedRequest = [1, 2]\<rparr>"
      "orderedRequest \<lparr>processedCounter = 1, orderedRequest = [1, 2]\<rparr> = 1 # [2]"
      "at_request (two_wait 7) 2 (Queued 7 2)" "(2 :: nat) \<noteq> 1" "sem_used (two_wait 7) < sem_size (two_wait 7)"
    by (simp_all add: number_def two_wait_def first_runs_def MaxInt64_def)
  show ?thesis
    using two_wait_steps [of True 7] cancelled_request_breaks_limit [OF two_wait_steps s] by (auto simp: Let_def)
qed

end
