(* ===== verification/Request_Handlers.thy ===== *)
theory Request_Handlers
  imports Pool_Message Sync_Map
begin

text \<open>
  Which request a response belongs to: \<open>net/client/tokenlessHandler.go\<close>, \<open>net/client/requestHandler.go\<close> and the
  dispatch of responses in \<open>handle\<close> of \<open>udp/client/conn.go\<close>.

  A handler is the number of the request it was made for; the code compares the pointers of handlers.  The
  channel of a request has room for one response.
\<close>

subsection \<open>The request without a token\<close>

record TokenlessHandler =
  th_handler :: "nat option"
  consumed :: bool
  blocked :: bool

definition TokenlessHandler_zero :: TokenlessHandler where
  "TokenlessHandler_zero = \<lparr>th_handler = None, consumed = False, blocked = False\<rparr>"

definition th_Register :: "nat \<Rightarrow> TokenlessHandler \<Rightarrow> go_error + TokenlessHandler" where
  "th_Register handler h =
     (if blocked h then Inl ErrTokenlessRequestsBlocked
      else if th_handler h \<noteq> None then Inl ErrKeyAlreadyExists
      else Inr (h\<lparr>th_handler := Some handler, consumed := False\<rparr>))"

definition th_cleanup :: "nat \<Rightarrow> bool \<Rightarrow> TokenlessHandler \<Rightarrow> TokenlessHandler" where
  "th_cleanup handler completed h =
     (if th_handler h = Some handler then h\<lparr>th_handler := None, blocked := \<not> completed\<rparr> else h)"

definition th_Load :: "bool \<Rightarrow> TokenlessHandler \<Rightarrow> TokenlessHandler \<times> nat option" where
  "th_Load remove h =
     (if th_handler h = None \<or> consumed h then (h, None)
      else (if remove then h\<lparr>consumed := True\<rparr> else h, th_handler h))"

subsection \<open>Requests\<close>

record 'cm request_table =
  tokenHandlers :: "(u64, nat) smap"
  tokenless :: TokenlessHandler
  responses :: "nat \<Rightarrow> 'cm PMessage option"

definition request_table_New :: "'cm request_table" where
  "request_table_New = \<lparr>tokenHandlers = NewMap, tokenless = TokenlessHandler_zero, responses = (\<lambda>_. None)\<rparr>"

definition RegisterRequestHandler :: "nat \<Rightarrow> bytes \<Rightarrow> 'cm request_table \<Rightarrow> go_error + 'cm request_table" where
  "RegisterRequestHandler i token t =
     (if length token = 0 then
        (case th_Register i (tokenless t) of
           Inl err \<Rightarrow> Inl err
         | Inr h \<Rightarrow> Inr (t\<lparr>tokenless := h\<rparr>))
      else
        (let (m, _, loaded) = Map_LoadOrStore (Token_Hash token) i (tokenHandlers t) (tokenHandlers t)
         in if loaded then Inl ErrKeyAlreadyExists else Inr (t\<lparr>tokenHandlers := m\<rparr>)))"

text \<open>\<open>errors.As\<close> with \<open>RequestNotSentError\<close>; a wrapped error is the error itself.\<close>

fun isNotSent :: "go_error \<Rightarrow> bool" where
  "isNotSent (RequestNotSentError e) = True"
| "isNotSent (ErrJoin e e') = (isNotSent e \<or> isNotSent e')"
| "isNotSent _ = False"

definition removeHandler :: "nat \<Rightarrow> bytes \<Rightarrow> go_error option \<Rightarrow> 'cm request_table \<Rightarrow> 'cm request_table \<times> go_error option" where
  "removeHandler i token requestErr t =
     (if length token = 0 then
        (let block = (case requestErr of None \<Rightarrow> False | Some err \<Rightarrow> \<not> isNotSent err)
         in (t\<lparr>tokenless := th_cleanup i (\<not> block) (tokenless t)\<rparr>,
             if block then map_option (\<lambda>e. ErrJoin e ErrTokenlessRequestsBlocked) requestErr else requestErr))
      else (t\<lparr>tokenHandlers := fst (Map_LoadAndDelete (Token_Hash token) (tokenHandlers t))\<rparr>, requestErr))"

text \<open>The handler of a request: the message is hijacked, and dropped when the channel is full.\<close>

definition request_handler :: "nat \<Rightarrow> 'cm PMessage \<Rightarrow> 'cm request_table \<Rightarrow> 'cm request_table" where
  "request_handler i r t =
     (if responses t i = None then t\<lparr>responses := (responses t)(i := Some (PM_Hijack r))\<rparr> else t)"

text \<open>\<open>handleResponse\<close>: the request that took the message, or \<open>None\<close> when it goes on to the observations.\<close>

definition handleResponse :: "'cm PMessage \<Rightarrow> 'cm request_table \<Rightarrow> 'cm request_table \<times> nat option" where
  "handleResponse rm t =
     (if length (Token (msg rm)) = 0 \<and> Code (msg rm) \<ge> codes_Created then
        (case th_Load True (tokenless t) of
           (h, Some i) \<Rightarrow> (request_handler i rm (t\<lparr>tokenless := h\<rparr>), Some i)
         | (h, None) \<Rightarrow> (t, None))
      else
        (case Map_LoadAndDelete (Token_Hash (Token (msg rm))) (tokenHandlers t) of
           (m, Some i) \<Rightarrow> (request_handler i rm (t\<lparr>tokenHandlers := m\<rparr>), Some i)
         | (m, None) \<Rightarrow> (t, None)))"

subsection \<open>Runs\<close>

text \<open>
  Requests are registered and removed, and messages arrive, in any order; a refused registration changes
  nothing.
\<close>

datatype 'cm req_op =
    Register nat bytes
  | Remove nat bytes "go_error option"
  | Arrive "'cm PMessage"

fun req_step :: "'cm req_op \<Rightarrow> 'cm request_table \<Rightarrow> 'cm request_table" where
  "req_step (Register i token) t = (case RegisterRequestHandler i token t of Inl _ \<Rightarrow> t | Inr t' \<Rightarrow> t')"
| "req_step (Remove i token err) t = fst (removeHandler i token err t)"
| "req_step (Arrive r) t = fst (handleResponse r t)"

definition tokenless_response :: "'cm PMessage \<Rightarrow> bool" where
  "tokenless_response r \<longleftrightarrow> Token (msg r) = [] \<and> Code (msg r) \<ge> codes_Created"

lemma blocked_stays:
  assumes "blocked (tokenless t) \<and> th_handler (tokenless t) = None"
  shows "blocked (tokenless (req_step x t)) \<and> th_handler (tokenless (req_step x t)) = None"
proof (cases x)
  case (Register i token)
  then show ?thesis using assms by (auto simp: RegisterRequestHandler_def th_Register_def split: prod.splits)
next
  case (Remove i token err)
  then show ?thesis using assms by (auto simp: removeHandler_def th_cleanup_def)
next
  case (Arrive r)
  then show ?thesis using assms
    by (auto simp: handleResponse_def th_Load_def request_handler_def split: prod.splits option.splits)
qed

lemma blocked_stays_run:
  "blocked (tokenless t) \<and> th_handler (tokenless t) = None \<Longrightarrow>
   blocked (tokenless (fold req_step ops t)) \<and> th_handler (tokenless (fold req_step ops t)) = None"
  by (induction ops arbitrary: t) (simp_all add: blocked_stays)

text \<open>
  C21. What the failure of a request without a token means for the next one depends on whether it may have been sent.
  If the error is not a \<open>RequestNotSentError\<close>, a late response to it cannot be taken for the response of
  another request: whatever happens afterwards, no further request without a token is accepted and no
  response without a token is delivered to any request, while requests with tokens are not affected.  If
  the error says that it was never sent, nothing is blocked: the error is returned as it is, and the next
  request without a token is accepted and gets the next response without a token.
\<close>

theorem late_tokenless_response_dropped:
  assumes "th_handler (tokenless t) = Some i" "removeHandler i [] (Some err) t = (t1, res)"
  shows "if isNotSent err
    then res = Some err \<and> (\<exists>t2. RegisterRequestHandler j [] t1 = Inr t2
      \<and> (\<forall>r. tokenless_response r \<longrightarrow> snd (handleResponse r t2) = Some j))
    else res = Some (ErrJoin err ErrTokenlessRequestsBlocked) \<and> (let t' = fold req_step ops t1 in
      RegisterRequestHandler j [] t' = Inl ErrTokenlessRequestsBlocked
      \<and> (\<forall>r. tokenless_response r \<longrightarrow> handleResponse r t' = (t', None))
      \<and> (\<forall>token. token \<noteq> [] \<longrightarrow> RegisterRequestHandler j token t' =
           (if map_of (tokenHandlers t') (Token_Hash token) = None
            then Inr (t'\<lparr>tokenHandlers := AList.update (Token_Hash token) j (tokenHandlers t')\<rparr>) else Inl ErrKeyAlreadyExists)))"
proof (cases "isNotSent err")
  case True
  then show ?thesis using assms
    by (auto simp: removeHandler_def th_cleanup_def RegisterRequestHandler_def th_Register_def handleResponse_def th_Load_def tokenless_response_def)
next
  case False
  then have "blocked (tokenless t1) \<and> th_handler (tokenless t1) = None"
    using assms by (auto simp: removeHandler_def th_cleanup_def)
  then have "blocked (tokenless (fold req_step ops t1)) \<and> th_handler (tokenless (fold req_step ops t1)) = None"
    by (rule blocked_stays_run)
  moreover have "res = Some (ErrJoin err ErrTokenlessRequestsBlocked)" using False assms(2) by (auto simp: removeHandler_def)
  ultimately show ?thesis using False
    by (auto simp: Let_def RegisterRequestHandler_def th_Register_def handleResponse_def th_Load_def tokenless_response_def Map_LoadOrStore_def split: option.splits)
qed

lemma registered_tokenless:
  "th_handler (tokenless (fold req_step [Register i []] (request_table_New :: 'cm request_table))) = Some i"
  by (simp add: request_table_New_def TokenlessHandler_zero_def RegisterRequestHandler_def th_Register_def)

theorem late_tokenless_response_dropped_witness:
  "let t = fold req_step [Register 1 []] (request_table_New :: unit request_table);
       t1 = fst (removeHandler 1 [] (Some ErrDeadlineExceeded) t);
       t2 = fst (removeHandler 1 [] (Some (RequestNotSentError ErrDeadlineExceeded)) t)
   in th_handler (tokenless t) = Some 1
      \<and> RegisterRequestHandler 2 [] (fold req_step [Register 3 [9]] t1) = Inl ErrTokenlessRequestsBlocked
      \<and> (\<exists>t3. RegisterRequestHandler 2 [] t2 = Inr t3)"
proof -
  let ?t = "fold req_step [Register 1 []] (request_table_New :: unit request_table)"
  have n: "\<not> isNotSent ErrDeadlineExceeded" "isNotSent (RequestNotSentError ErrDeadlineExceeded)" by simp_all
  have h: "th_handler (tokenless ?t) = Some 1" by (rule registered_tokenless)
  note th = late_tokenless_response_dropped [OF h prod.collapse [symmetric]]
  have "RegisterRequestHandler 2 [] (fold req_step [Register 3 [9]] (fst (removeHandler 1 [] (Some ErrDeadlineExceeded) ?t)))
      = Inl ErrTokenlessRequestsBlocked"
    using th [of ErrDeadlineExceeded 2 "[Register 3 [9]]"] n(1) unfolding Let_def by (simp only: if_False)
  moreover have "\<exists>t3. RegisterRequestHandler 2 [] (fst (removeHandler 1 [] (Some (RequestNotSentError ErrDeadlineExceeded)) ?t)) = Inr t3"
    using th [of "RequestNotSentError ErrDeadlineExceeded" 2] n(2) unfolding Let_def by (simp only: if_True) blast
  ultimately show ?thesis unfolding Let_def using h by blast
qed

text \<open>Whose response a message can be.\<close>

definition answers :: "'cm PMessage \<Rightarrow> bytes \<Rightarrow> bool" where
  "answers r token \<longleftrightarrow> (if token = [] then tokenless_response r else Token_Hash (Token (msg r)) = Token_Hash token)"

definition asked :: "'cm req_op list \<Rightarrow> nat \<Rightarrow> bytes \<Rightarrow> bool" where
  "asked ops i token \<longleftrightarrow> Register i token \<in> set ops"

definition correlated :: "'cm req_op list \<Rightarrow> 'cm request_table \<Rightarrow> bool" where
  "correlated ops t \<longleftrightarrow>
     (\<forall>k i. map_of (tokenHandlers t) k = Some i \<longrightarrow> (\<exists>token. token \<noteq> [] \<and> asked ops i token \<and> Token_Hash token = k))
     \<and> (\<forall>i. th_handler (tokenless t) = Some i \<longrightarrow> asked ops i [])
     \<and> (\<forall>i r. responses t i = Some r \<longrightarrow> (\<exists>token. asked ops i token \<and> answers r token))"

lemma asked_more: "asked ops i token \<Longrightarrow> asked (ops @ [x]) i token"
  by (simp add: asked_def)

lemma answers_Hijack [simp]: "answers (PM_Hijack r) token = answers r token"
  by (simp add: answers_def tokenless_response_def PM_Hijack_def)

lemma correlated_request_handler:
  assumes "correlated ops t" "asked ops i token" "answers r token"
  shows "correlated ops (request_handler i r t)"
  using assms unfolding correlated_def request_handler_def by auto

lemma correlated_consumed: "correlated ops t \<Longrightarrow> correlated ops (t\<lparr>tokenless := (tokenless t)\<lparr>consumed := b\<rparr>\<rparr>)"
  by (simp add: correlated_def)

lemma correlated_delete: "correlated ops t \<Longrightarrow> correlated ops (t\<lparr>tokenHandlers := AList.delete k (tokenHandlers t)\<rparr>)"
  by (simp add: correlated_def delete_conv')

lemma correlated_Arrive:
  assumes c: "correlated ops t"
  shows "correlated ops (fst (handleResponse r t))"
proof (cases "length (Token (msg r)) = 0 \<and> Code (msg r) \<ge> codes_Created")
  case True
  show ?thesis
  proof (cases "th_handler (tokenless t) = None \<or> consumed (tokenless t)")
    case load: False
    then obtain i where i: "th_handler (tokenless t) = Some i" by auto
    have "asked ops i []" using c i by (simp add: correlated_def)
    moreover have "answers r []" using True by (simp add: answers_def tokenless_response_def)
    ultimately show ?thesis using True load i correlated_request_handler [OF correlated_consumed [OF c]]
      by (simp add: handleResponse_def th_Load_def)
  qed (use True c in \<open>simp add: handleResponse_def th_Load_def\<close>)
next
  case False
  show ?thesis
  proof (cases "map_of (tokenHandlers t) (Token_Hash (Token (msg r)))")
    case None
    then show ?thesis unfolding handleResponse_def if_not_P [OF False] using c by (simp add: Map_LoadAndDelete_def)
  next
    case (Some i)
    then obtain token where tk: "token \<noteq> []" "asked ops i token" "Token_Hash token = Token_Hash (Token (msg r))"
      using c unfolding correlated_def by blast
    then have "answers r token" by (simp add: answers_def)
    then show ?thesis unfolding handleResponse_def if_not_P [OF False]
      using Some correlated_request_handler [OF correlated_delete [OF c] tk(2)] by (simp add: Map_LoadAndDelete_def)
  qed
qed

lemma correlated_step:
  assumes c: "correlated ops t"
  shows "correlated (ops @ [x]) (req_step x t)"
proof -
  have more: "correlated (ops @ [x]) t" if "correlated ops t" for t
    using that unfolding correlated_def by (meson asked_more)
  show ?thesis
  proof (cases x)
    case (Register i token)
    then show ?thesis using more [OF c]
      by (auto simp: RegisterRequestHandler_def th_Register_def Map_LoadOrStore_def correlated_def update_conv' asked_def split: option.splits)
  next
    case (Remove i token err)
    have "correlated ops (t\<lparr>tokenless := th_cleanup i b (tokenless t)\<rparr>)" for b
      using c by (simp add: correlated_def th_cleanup_def)
    then show ?thesis unfolding Remove using more correlated_delete [OF c]
      by (simp add: removeHandler_def Map_LoadAndDelete_def Remove Let_def)
  next
    case (Arrive r)
    then show ?thesis using more [OF correlated_Arrive [OF c]] by simp
  qed
qed

lemma correlated_run: "correlated ops (fold req_step ops request_table_New)"
proof (induction ops rule: rev_induct)
  case Nil
  show ?case by (simp add: correlated_def request_table_New_def NewMap_def TokenlessHandler_zero_def)
next
  case (snoc x ops)
  then show ?case using correlated_step by (simp add: correlated_step)
qed

text \<open>
  C22. A response that a request has received answers that request: it carries a token with the hash of the
  token the request was registered with, or, for a request without a token, no token and a code of a
  response, whatever requests and messages there were.
\<close>

theorem responses_correlate:
  assumes "responses (fold req_step ops request_table_New) i = Some r"
  shows "\<exists>token. Register i token \<in> set ops \<and> answers r token"
  using correlated_run [of ops] assms unfolding correlated_def asked_def by blast

definition reply :: "bytes \<Rightarrow> unit PMessage" where
  "reply token = NewMessage\<lparr>msg := \<lparr>Token = token, Options = [], Code = codes_Content, Payload = [], MessageID = 1, Type = Acknowledgement\<rparr>\<rparr>"

theorem responses_correlate_witness:
  "responses (fold req_step [Register 1 [9], Register 2 [], Arrive (reply [9])] request_table_New) 1 = Some (PM_Hijack (reply [9]))
   \<and> (\<exists>token. Register 1 token \<in> set [Register 1 [9], Register 2 [], Arrive (reply [9])] \<and> answers (PM_Hijack (reply [9])) token)"
proof -
  have "responses (fold req_step [Register 1 [9], Register 2 [], Arrive (reply [9])] request_table_New) 1 = Some (PM_Hijack (reply [9]))"
    by (simp add: request_table_New_def NewMap_def TokenlessHandler_zero_def RegisterRequestHandler_def th_Register_def
        Map_LoadOrStore_def handleResponse_def Map_LoadAndDelete_def request_handler_def reply_def)
  from responses_correlate [OF this] this show ?thesis by blast
qed

end
