(* ===== verification/Udp_Conn.thy ===== *)
theory Udp_Conn
  imports Response_Writer Observation Request_Handlers Critical_Options
begin

text \<open>
  The datagram connection, \<open>udp/client/conn.go\<close>: message IDs, confirmable messages and their retransmission,
  the detection of duplicates, responses, pings, and what happens to a datagram from its arrival to the
  response that is written.

  The connection of the model has no block-wise transfer and Q-Block is disabled
  (\<open>qBlockwiseMode = QBlockwiseDisabled\<close>), so that of the hooks of \<open>udp/client/qblock.go\<close> only those that work
  without it are left.  An operation runs to its end before the next one; where the code waits, the operation
  is split.  The queue of received messages is read by \<open>ProcessReceivedMessage\<close>.

  Parameters (\<^emph>\<open>uc_env\<close>): the state of a message taken from the pool and the capacity of its options, the result
  of the write of a datagram to the socket, the request monitor, the result of waiting for the number of
  outstanding interactions, the randomised acknowledge timeout.  The clock is an argument.  A panic is \<open>None\<close>.
\<close>

subsection \<open>State\<close>

record ControlMessage =
  cm_Dst :: bytes
  cm_Src :: bytes
  cm_IfIndex :: int

type_synonym umsg = "ControlMessage PMessage"

text \<open>The handlers \<open>writeMessageAsync\<close>, \<open>writeMessage\<close> and \<open>AsyncPing\<close> register for a message ID.\<close>

datatype mid_handler =
    HandlerNothing
  | HandlerAcknowledge nat bool
  | HandlerPong nat

record midElement =
  mid_no :: nat
  mid_handler :: mid_handler
  mid_start :: time
  mid_deadline :: "time option"
  acknowledgeTimeout :: int
  retransmit :: u32
  retransmitting :: bool
  retransmitFailures :: u32
  waitForAcknowledge :: "nat option"
  mid_msg :: "umsg option"

record pendingMessage =
  pm_sequence :: u64
  pm_expires :: time

datatype uc_event =
    Sent bytes
  | ErrorOf go_error
  | Activity
  | Enqueued umsg
  | PongReceived nat

record uconn =
  midHandlerContainer :: "(int, midElement) smap"
  pendingMessages :: "(int, pendingMessage) smap"
  maxPendingMessages :: u32
  msgID :: u32
  globalMID :: u32
  responseMsgCache :: "(string, bytes) cache"
  uc_sequence :: u64
  nStart :: u32
  maxRetransmit :: u32
  interfaceIndex :: int
  localAddr :: "bytes option"
  uc_table :: "ControlMessage request_table"
  uc_obs :: "ControlMessage ObsHandler"
  ackChannels :: "nat \<Rightarrow> go_error option option"
  uc_closed :: bool
  nextElem :: nat
  uc_log :: "uc_event list"

record uc_env =
  uc_maxMessageSize :: u32
  uc_qDatagramLimit :: u32
  uc_fresh :: umsg
  uc_capacity :: nat
  uc_fuel :: nat
  uc_write :: "nat \<Rightarrow> bytes \<Rightarrow> go_error option"
  uc_monitor :: "umsg \<Rightarrow> go_error + bool"
  uc_acquire :: "go_error option"
  uc_ackTimeout :: int
  uc_deadline :: "umsg \<Rightarrow> time option"

definition uc_emit :: "uc_event \<Rightarrow> uconn \<Rightarrow> uconn" where
  "uc_emit e c = c\<lparr>uc_log := uc_log c @ [e]\<rparr>"

definition ExchangeLifetime :: time where "ExchangeLifetime = 247 * 10 ^ 9"

definition MaxDuration :: int where "MaxDuration = 2 ^ 63 - 1"

subsection \<open>Exchanges of confirmable messages\<close>

definition retransmissionDelay :: "int \<Rightarrow> u32 \<Rightarrow> int" where
  "retransmissionDelay ackTimeout retr =
     (if ackTimeout \<le> 0 then ackTimeout
      else if retr \<ge> 63 then MaxDuration
      else let multiplier = 2 ^ unat retr
           in if ackTimeout > MaxDuration div multiplier then MaxDuration else ackTimeout * multiplier)"

definition mid_IsExpired :: "time \<Rightarrow> u32 \<Rightarrow> midElement \<Rightarrow> bool" where
  "mid_IsExpired now maxRetr m =
     (if (case mid_deadline m of None \<Rightarrow> False | Some d \<Rightarrow> now > d) then True
      else if retransmit m > maxRetr then True
      else retransmit m = maxRetr \<and> now > mid_start m + retransmissionDelay (acknowledgeTimeout m) (retransmit m))"

definition mid_Retransmit :: "time \<Rightarrow> midElement \<Rightarrow> midElement \<times> bool" where
  "mid_Retransmit now m =
     (if retransmitting m \<or> \<not> now > mid_start m + retransmissionDelay (acknowledgeTimeout m) (retransmit m)
      then (m, False) else (m\<lparr>retransmitting := True\<rparr>, True))"

definition MarkRetransmitted :: "time \<Rightarrow> midElement \<Rightarrow> midElement" where
  "MarkRetransmitted now m = m\<lparr>mid_start := now, retransmit := retransmit m + 1, retransmitting := False\<rparr>"

definition MarkRetransmissionFailed :: "u32 \<Rightarrow> midElement \<Rightarrow> midElement \<times> bool" where
  "MarkRetransmissionFailed maxRetr m =
     (let f = retransmitFailures m + 1
      in (m\<lparr>retransmitFailures := f, retransmitting := False\<rparr>, f \<ge> maxRetr))"

text \<open>\<open>GetMessage\<close>: a clone of the message, if it has not been released.\<close>

definition mid_GetMessage :: "uc_env \<Rightarrow> midElement \<Rightarrow> (go_error + umsg option) option" where
  "mid_GetMessage env m =
     (case mid_msg m of
        None \<Rightarrow> Some (Inr None)
      | Some r \<Rightarrow>
          (case PM_Clone r (uc_fresh env) of
             None \<Rightarrow> None
           | Some (_, _, Some err) \<Rightarrow> Some (Inl err)
           | Some (_, r', None) \<Rightarrow> Some (Inr (Some r'))))"

definition notifyWaitForAcknowledge :: "nat option \<Rightarrow> go_error option \<Rightarrow> uconn \<Rightarrow> uconn" where
  "notifyWaitForAcknowledge ch err c =
     (case ch of
        None \<Rightarrow> c
      | Some i \<Rightarrow> if ackChannels c i = None then c\<lparr>ackChannels := (ackChannels c)(i := Some err)\<rparr> else c)"

subsection \<open>Writing\<close>

definition GetMessageID :: "uconn \<Rightarrow> int \<times> uconn" where
  "GetMessageID c =
     (let msgID' = msgID c + 1
      in (CastTo (Unsigned 16) (uint msgID'), c\<lparr>globalMID := fst (GetMID (globalMID c)), msgID := msgID'\<rparr>))"

definition datagrams :: "uconn \<Rightarrow> bytes list" where
  "datagrams c = concat (map (\<lambda>e. case e of Sent d \<Rightarrow> [d] | _ \<Rightarrow> []) (uc_log c))"

text \<open>\<open>Session.WriteMessage\<close> of \<open>udp/server/session.go\<close>.\<close>

definition udp_WriteMessage :: "uc_env \<Rightarrow> umsg \<Rightarrow> uconn \<Rightarrow> uconn \<times> go_error option" where
  "udp_WriteMessage env req c =
     (case PM_MarshalWithEncoder udp_Size udp_Encode req of
        (_, Inl err) \<Rightarrow> (c, Some (RequestNotSentError err))
      | (_, Inr data) \<Rightarrow> (uc_emit (Sent data) c, uc_write env (length (datagrams c)) data))"

text \<open>\<open>IP.IsMulticast\<close> of the standard library.\<close>

definition To4 :: "bytes \<Rightarrow> bytes option" where
  "To4 ip =
     (if length ip = 4 then Some ip
      else if length ip = 16 \<and> take 10 ip = replicate 10 0 \<and> ip ! 10 = 0xff \<and> ip ! 11 = 0xff then Some (drop 12 ip)
      else None)"

definition IsMulticast :: "bytes \<Rightarrow> bool" where
  "IsMulticast ip =
     (case To4 ip of
        Some ip4 \<Rightarrow> ip4 ! 0 AND 0xf0 = 0xe0
      | None \<Rightarrow> length ip = 16 \<and> ip ! 0 = 0xff)"

definition setControlInformation :: "ControlMessage option \<Rightarrow> uconn \<Rightarrow> uconn" where
  "setControlInformation cm c =
     (case cm of
        None \<Rightarrow> c\<lparr>interfaceIndex := 0, localAddr := None\<rparr>
      | Some m \<Rightarrow>
          c\<lparr>interfaceIndex := cm_IfIndex m,
            localAddr := (if length (cm_Dst m) = 0 \<or> IsMulticast (cm_Dst m) then None else Some (cm_Dst m))\<rparr>)"

definition upsertControlInformation :: "umsg \<Rightarrow> uconn \<Rightarrow> umsg" where
  "upsertControlInformation m c =
     (if interfaceIndex c < 1 \<and> localAddr c = None then m
      else PM_UpsertControlMessage
             (Some \<lparr>cm_Dst = [], cm_Src = (case localAddr c of None \<Rightarrow> [] | Some a \<Rightarrow> a), cm_IfIndex = interfaceIndex c\<rparr>) m)"

text \<open>
  \<open>acquireOutstandingInteraction\<close> refuses \<open>NStart = 0\<close>; otherwise it waits.  \<open>prepareWriteMessage\<close> gives the
  error, or whether the message ID has been registered, to be removed by the function it returns.
\<close>

definition acquireOutstandingInteraction :: "uc_env \<Rightarrow> uconn \<Rightarrow> go_error option" where
  "acquireOutstandingInteraction env c =
     (if nStart c = 0 then Some (ErrOther ''invalid NStart value'') else uc_acquire env)"

definition newMidElement :: "uc_env \<Rightarrow> time \<Rightarrow> mid_handler \<Rightarrow> time option \<Rightarrow> nat option \<Rightarrow> umsg \<Rightarrow> uconn \<Rightarrow> midElement" where
  "newMidElement env now handler deadline wait m c =
     \<lparr>mid_no = nextElem c, mid_handler = handler, mid_start = now, mid_deadline = deadline,
      acknowledgeTimeout = uc_ackTimeout env, retransmit = 0, retransmitting = False, retransmitFailures = 0,
      waitForAcknowledge = wait, mid_msg = Some m\<rparr>"

definition prepareWriteMessage ::
    "uc_env \<Rightarrow> time \<Rightarrow> umsg \<Rightarrow> mid_handler \<Rightarrow> nat option \<Rightarrow> uconn \<Rightarrow> (uconn \<times> (go_error + bool)) option" where
  "prepareWriteMessage env now req handler wait c =
     (if Type (msg req) = Confirmable then
        (case PM_Clone req (uc_fresh env) of
           None \<Rightarrow> None
         | Some (_, _, Some err) \<Rightarrow> Some (c, Inl err)
         | Some (_, m, None) \<Rightarrow>
             (let err = (if Code (msg req) \<ge> codes_GET \<and> Code (msg req) < 32
                            \<or> Options_HasOption (opts_of req) QBlock1 \<or> Options_HasOption (opts_of req) QBlock2
                         then acquireOutstandingInteraction env c else None)
              in case err of
                   Some e \<Rightarrow> Some (c, Inl e)
                 | None \<Rightarrow>
                     (let elem = newMidElement env now handler (uc_deadline env req) wait m c;
                          (mids, _, loaded) =
                            Map_LoadOrStore (MessageID (msg req)) elem (midHandlerContainer c) (midHandlerContainer c)
                      in if loaded then Some (c, Inl ErrKeyAlreadyExists)
                         else Some (c\<lparr>midHandlerContainer := mids, nextElem := Suc (nextElem c)\<rparr>, Inr True))))
      else Some (c, Inr False))"

definition closeFn :: "bool \<Rightarrow> umsg \<Rightarrow> uconn \<Rightarrow> uconn" where
  "closeFn registered req c =
     (if registered
      then c\<lparr>midHandlerContainer := fst (Map_LoadAndDelete (MessageID (msg req)) (midHandlerContainer c))\<rparr> else c)"

definition writeMessageAsync :: "uc_env \<Rightarrow> time \<Rightarrow> umsg \<Rightarrow> uconn \<Rightarrow> (uconn \<times> umsg \<times> go_error option) option" where
  "writeMessageAsync env now req0 c0 =
     (let (mid, c) = GetMessageID c0;
          req = PM_UpsertMessageID mid (PM_UpsertType Confirmable req0)
      in case prepareWriteMessage env now req HandlerNothing None c of
           None \<Rightarrow> None
         | Some (c1, Inl err) \<Rightarrow> Some (c1, req, Some (RequestNotSentError err))
         | Some (c1, Inr registered) \<Rightarrow>
             (let (c2, err) = udp_WriteMessage env req c1 in Some (closeFn registered req c2, req, err)))"

text \<open>
  \<open>writeMessage\<close> up to the wait for the acknowledgement; \<open>Waiting\<close> has the channel and the message, with which
  \<open>writeMessage_finish\<close> goes on when the wait is over.
\<close>

datatype write_result = Returned "go_error option" | Waiting nat umsg

definition writeMessage_start :: "uc_env \<Rightarrow> time \<Rightarrow> umsg \<Rightarrow> uconn \<Rightarrow> (uconn \<times> write_result) option" where
  "writeMessage_start env now req0 c0 =
     (let (mid, c) = GetMessageID c0;
          req = upsertControlInformation (PM_UpsertMessageID mid (PM_UpsertType Confirmable req0)) c
      in if Type (msg req) \<noteq> Confirmable
         then (case writeMessageAsync env now req c of None \<Rightarrow> None | Some (c1, _, err) \<Rightarrow> Some (c1, Returned err))
         else
           (let ch = nextElem c;
                notification = Options_HasOption (opts_of req) Observe \<and> Options_HasOption (opts_of req) QBlock2
            in case prepareWriteMessage env now req (HandlerAcknowledge ch notification) (Some ch) c of
                 None \<Rightarrow> None
               | Some (c1, Inl err) \<Rightarrow> Some (c1, Returned (Some (RequestNotSentError err)))
               | Some (c1, Inr registered) \<Rightarrow>
                   (case udp_WriteMessage env req c1 of
                      (c2, Some err) \<Rightarrow> Some (closeFn registered req c2, Returned (Some err))
                    | (c2, None) \<Rightarrow> Some (c2, Waiting ch req))))"

definition writeMessage_finish :: "umsg \<Rightarrow> go_error option \<Rightarrow> uconn \<Rightarrow> uconn \<times> go_error option" where
  "writeMessage_finish req waited c = (closeFn True req c, waited)"

definition AsyncPing :: "uc_env \<Rightarrow> time \<Rightarrow> nat \<Rightarrow> uconn \<Rightarrow> uconn \<times> go_error option" where
  "AsyncPing env now ping c0 =
     (let (mid, c) = GetMessageID c0;
          req = upsertControlInformation
                  (PM_SetMessageID mid (PM_SetCode codes_Empty (PM_SetType Confirmable (uc_fresh env)))) c;
          elem = newMidElement env now (HandlerPong ping) None None req c;
          (mids, _, loaded) = Map_LoadOrStore mid elem (midHandlerContainer c) (midHandlerContainer c)
      in if loaded then (c, Some ErrKeyAlreadyExists)
         else
           (let c1 = c\<lparr>midHandlerContainer := mids, nextElem := Suc (nextElem c)\<rparr>;
                (c2, err) = udp_WriteMessage env req c1
            in (if err \<noteq> None then c2\<lparr>midHandlerContainer := Map_Delete mid (midHandlerContainer c2)\<rparr> else c2, err)))"

subsection \<open>Retransmission\<close>

text \<open>An element is changed through its pointer: the change is seen in the map while the element is there.\<close>

definition store_elem :: "int \<Rightarrow> midElement \<Rightarrow> uconn \<Rightarrow> uconn" where
  "store_elem key m c =
     (case map_of (midHandlerContainer c) key of
        Some cur \<Rightarrow> if mid_no cur = mid_no m then c\<lparr>midHandlerContainer := AList.update key m (midHandlerContainer c)\<rparr> else c
      | None \<Rightarrow> c)"

text \<open>
  \<open>checkMidHandlerContainer\<close>; \<open>now\<close> is the time of the tick and \<open>clock\<close> what \<open>time.Now\<close> says after the write.
\<close>

definition checkMidHandlerContainer ::
    "uc_env \<Rightarrow> time \<Rightarrow> time \<Rightarrow> u32 \<Rightarrow> int \<Rightarrow> midElement \<Rightarrow> uconn \<Rightarrow> uconn option" where
  "checkMidHandlerContainer env now clock maxRetr key m c =
     (if mid_IsExpired now maxRetr m
      then Some (uc_emit (ErrorOf ErrDeadlineExceeded) (c\<lparr>midHandlerContainer := Map_Delete key (midHandlerContainer c)\<rparr>))
      else
        (let (m1, go) = mid_Retransmit now m in
         if \<not> go then Some c
         else case mid_GetMessage env m1 of
           None \<Rightarrow> None
         | Some (Inl err) \<Rightarrow>
             Some (uc_emit (ErrorOf err) (c\<lparr>midHandlerContainer := Map_Delete key (midHandlerContainer c)\<rparr>))
         | Some (Inr None) \<Rightarrow> Some (store_elem key (MarkRetransmitted clock m1) c)
         | Some (Inr (Some r)) \<Rightarrow>
             (case udp_WriteMessage env r c of
                (c1, None) \<Rightarrow> Some (store_elem key (MarkRetransmitted clock m1) c1)
              | (c1, Some err) \<Rightarrow>
                  (let (m2, exhausted) = MarkRetransmissionFailed maxRetr m1;
                       c2 = store_elem key m2 c1;
                       c3 = (if exhausted then
                               (let (mids, _, removed) =
                                  Map_ReplaceWithFunc key
                                    (\<lambda>cur. case cur of
                                       None \<Rightarrow> (None, False)
                                     | Some e \<Rightarrow> if mid_no e = mid_no m then (None, True) else (Some e, False))
                                    (midHandlerContainer c2);
                                    c' = c2\<lparr>midHandlerContainer := mids\<rparr>
                                in if removed then notifyWaitForAcknowledge (waitForAcknowledge m) (Some err) c' else c')
                             else c2)
                   in Some (uc_emit (ErrorOf err) c3)))))"

text \<open>\<open>Range\<close> over the elements, each looked at when its turn comes.\<close>

fun checkMidHandlers :: "uc_env \<Rightarrow> time \<Rightarrow> time \<Rightarrow> u32 \<Rightarrow> int list \<Rightarrow> uconn \<Rightarrow> uconn option" where
  "checkMidHandlers env now clock maxRetr [] c = Some c"
| "checkMidHandlers env now clock maxRetr (key # keys) c =
     (case map_of (midHandlerContainer c) key of
        None \<Rightarrow> checkMidHandlers env now clock maxRetr keys c
      | Some m \<Rightarrow>
          (case checkMidHandlerContainer env now clock maxRetr key m c of
             None \<Rightarrow> None
           | Some c1 \<Rightarrow> checkMidHandlers env now clock maxRetr keys c1))"

subsection \<open>Duplicates\<close>

text \<open>\<open>messageCache\<close>, on the map of the connection.\<close>

definition getResponseFromCache :: "uc_env \<Rightarrow> time \<Rightarrow> int \<Rightarrow> umsg \<Rightarrow> uconn \<Rightarrow> (umsg \<times> (go_error + bool)) option" where
  "getResponseFromCache env now mid resp c =
     (case Cache_Load now (FormatInt mid) (responseMsgCache c) of
        None \<Rightarrow> Some (resp, Inr False)
      | Some cachedResp \<Rightarrow>
          (let rawMsg = elem_data cachedResp in
           if length rawMsg > 0 then
             (case PM_UnmarshalWithDecoder udp_Decode (uc_fuel env) (uc_capacity env) rawMsg resp of
                None \<Rightarrow> None
              | Some (resp1, Inl err) \<Rightarrow> Some (resp1, Inl err)
              | Some (resp1, Inr _) \<Rightarrow> Some (resp1, Inr True))
           else Some (resp, Inr False)))"

definition addResponseToCache :: "time \<Rightarrow> int \<Rightarrow> umsg \<Rightarrow> uconn \<Rightarrow> uconn \<times> go_error option" where
  "addResponseToCache now reqMessageID resp c =
     (case PM_MarshalWithEncoder udp_Size udp_Encode resp of
        (_, Inl err) \<Rightarrow> (c, Some err)
      | (_, Inr marshaledResp) \<Rightarrow>
          (c\<lparr>responseMsgCache :=
               fst (Cache_LoadOrStore now (FormatInt reqMessageID)
                      (NewElement (nextElem c) marshaledResp (Some (now + ExchangeLifetime))) (responseMsgCache c)),
             nextElem := Suc (nextElem c)\<rparr>, None))"

definition expirePendingMessages :: "time \<Rightarrow> uconn \<Rightarrow> uconn" where
  "expirePendingMessages now c =
     c\<lparr>pendingMessages := filter (\<lambda>(mid, pending). now < pm_expires pending) (pendingMessages c)\<rparr>"

text \<open>\<open>addPendingMessage\<close> from the check of the capacity on.\<close>

definition addPending_insert :: "int \<Rightarrow> u64 \<Rightarrow> time \<Rightarrow> uconn \<Rightarrow> uconn \<times> (go_error + bool)" where
  "addPending_insert mid sq now c =
     (let c1 = (if length (pendingMessages c) \<ge> unat (maxPendingMessages c) then expirePendingMessages now c else c)
      in if length (pendingMessages c1) \<ge> unat (maxPendingMessages c1)
         then (c1, Inl (ErrOther ''in-flight message limit exceeded''))
         else (c1\<lparr>pendingMessages :=
                    AList.update mid \<lparr>pm_sequence = sq, pm_expires = now + ExchangeLifetime\<rparr> (pendingMessages c1)\<rparr>, Inr False))"

definition addPendingMessage :: "int \<Rightarrow> u64 \<Rightarrow> time \<Rightarrow> uconn \<Rightarrow> uconn \<times> (go_error + bool)" where
  "addPendingMessage mid sq now c =
     (if maxPendingMessages c = 0 then (c, Inr False)
      else case map_of (pendingMessages c) mid of
        Some pending \<Rightarrow>
          if now < pm_expires pending then (c, Inr True)
          else addPending_insert mid sq now (c\<lparr>pendingMessages := AList.delete mid (pendingMessages c)\<rparr>)
      | None \<Rightarrow> addPending_insert mid sq now c)"

definition deletePendingMessage :: "int \<Rightarrow> u64 \<Rightarrow> uconn \<Rightarrow> uconn" where
  "deletePendingMessage mid sq c =
     (case map_of (pendingMessages c) mid of
        Some pending \<Rightarrow>
          if pm_sequence pending = sq then c\<lparr>pendingMessages := AList.delete mid (pendingMessages c)\<rparr> else c
      | None \<Rightarrow> c)"

text \<open>\<open>checkMyMessageID\<close>, whose loop ends at once when no other goroutine changes the counter.\<close>

definition checkMyMessageID :: "umsg \<Rightarrow> uconn \<Rightarrow> uconn" where
  "checkMyMessageID req c =
     (if Type (msg req) = Confirmable then
        (let oldID = msgID c;
             d = (word_of_int (CastTo (Unsigned 16) (MessageID (msg req))) :: u16) - word_of_int (CastTo (Unsigned 16) (uint oldID))
         in if d \<ge> 0xffff div 4 then c else c\<lparr>msgID := oldID + 0xffff div 2\<rparr>)
      else c)"

subsection \<open>Responses\<close>

type_synonym uw = "ControlMessage ResponseWriter"

definition on_msg :: "(umsg \<Rightarrow> umsg) \<Rightarrow> uw \<Rightarrow> uw" where
  "on_msg f w = w\<lparr>response := f (response w)\<rparr>"

definition checkResponseCache :: "uc_env \<Rightarrow> time \<Rightarrow> umsg \<Rightarrow> uw \<Rightarrow> uconn \<Rightarrow> (uw \<times> (go_error + bool)) option" where
  "checkResponseCache env now req w c =
     (if Type (msg req) = Confirmable \<or> Type (msg req) = NonConfirmable then
        (case getResponseFromCache env now (MessageID (msg req)) (response w) c of
           None \<Rightarrow> None
         | Some (m, Inr True) \<Rightarrow>
             (let m1 = PM_SetType NonConfirmable (PM_SetMessageID (MessageID (msg req)) m)
              in Some (w\<lparr>response := (if Type (msg req) = Confirmable then PM_SetType Acknowledgement m1 else m1)\<rparr>, Inr True))
         | Some (m, Inl err) \<Rightarrow> Some (w\<lparr>response := m\<rparr>, Inl err)
         | Some (m, Inr False) \<Rightarrow> Some (w\<lparr>response := m\<rparr>, Inr False))
      else Some (w, Inr False))"

definition isPongOrResetResponse :: "uw \<Rightarrow> bool" where
  "isPongOrResetResponse w \<longleftrightarrow>
     isModified (response w) \<and> (Type (msg (response w)) = Reset \<or> Code (msg (response w)) = codes_Empty)"

definition sendJustAcknowledgeMessage :: "int \<Rightarrow> uw \<Rightarrow> bool" where
  "sendJustAcknowledgeMessage reqType w \<longleftrightarrow> reqType = Confirmable \<and> \<not> isModified (response w)"

definition isQNonResponse :: "int \<Rightarrow> bool \<Rightarrow> umsg \<Rightarrow> bool" where
  "isQNonResponse reqType qResponse resp \<longleftrightarrow>
     reqType = NonConfirmable \<and> isModified resp
     \<and> (qResponse \<or> Options_HasOption (opts_of resp) QBlock1 \<or> Options_HasOption (opts_of resp) QBlock2)"

definition processResponse :: "time \<Rightarrow> int \<Rightarrow> int \<Rightarrow> bool \<Rightarrow> uw \<Rightarrow> uconn \<Rightarrow> uw \<times> uconn \<times> go_error option" where
  "processResponse now reqType reqMessageID qResponse w c =
     (if isPongOrResetResponse w then
        (if reqType = Confirmable
         then (on_msg (\<lambda>m. PM_SetMessageID reqMessageID (PM_SetType Acknowledgement m)) w, c, None)
         else
           (let w1 = (if Type (msg (response w)) \<noteq> Reset then on_msg (PM_SetType NonConfirmable) w else w);
                (mid, c1) = GetMessageID c
            in (on_msg (PM_SetMessageID mid) w1, c1, None)))
      else if sendJustAcknowledgeMessage reqType w then
        (let w1 = on_msg (\<lambda>m. PM_SetToken [] (PM_SetMessageID reqMessageID (PM_SetType Acknowledgement (PM_SetCode codes_Empty m)))) w;
             (c1, err) = addResponseToCache now reqMessageID (response w1) c
         in (w1, c1, err))
      else if isQNonResponse reqType qResponse (response w) then
        (let (mid, c1) = GetMessageID c;
             w1 = on_msg (\<lambda>m. PM_SetMessageID mid (PM_SetType NonConfirmable m)) w;
             (c2, err) = addResponseToCache now reqMessageID (response w1) c1
         in (w1, c2, err))
      else if \<not> isModified (response w) then (w, c, None)
      else
        (let (mid, c1) = GetMessageID c;
             w1 = on_msg (\<lambda>m. PM_SetMessageID mid (PM_SetType Confirmable m)) w;
             w2 = (if reqType = Confirmable
                   then on_msg (\<lambda>m. PM_SetMessageID reqMessageID (PM_SetType Acknowledgement m)) w1 else w1)
         in if reqType = Confirmable \<or> reqType = NonConfirmable
            then (let (c2, err) = addResponseToCache now reqMessageID (response w2) c1 in (w2, c2, err))
            else (w2, c1, None)))"

text \<open>Closing the connection ends its context and forgets the messages being processed.\<close>

definition closeConnection :: "uconn \<Rightarrow> uconn" where
  "closeConnection c = c\<lparr>uc_closed := True, pendingMessages := []\<rparr>"

type_synonym 'a uhandler = "uw \<Rightarrow> umsg \<Rightarrow> uconn \<times> 'a \<Rightarrow> (uw \<times> uconn \<times> 'a) option"

text \<open>
  \<open>handle\<close> without block-wise transfer; the application's handler has a state of its own.
\<close>

definition conn_handle :: "time \<Rightarrow> (uw \<Rightarrow> umsg \<Rightarrow> 'a \<Rightarrow> uw \<times> 'a) \<Rightarrow> 'a uhandler" where
  "conn_handle now app w m = (\<lambda>(c, a).
     (if PM_IsSeparateMessage m then Some (w, c, a)
      else case handleResponse m (uc_table c) of
        (t, Some _) \<Rightarrow> Some (w, c\<lparr>uc_table := t\<rparr>, a)
      | (t, None) \<Rightarrow>
          (let (obs, (w1, a1)) = obs_Handle now (\<lambda>(w', a') r. app w' r a') (w, a) m (uc_obs c)
           in Some (w1, c\<lparr>uc_table := t, uc_obs := obs\<rparr>, a1))))"

definition handleReq :: "uc_env \<Rightarrow> time \<Rightarrow> 'a uhandler \<Rightarrow> 'a uhandler" where
  "handleReq env now handle w req = (\<lambda>(c, a).
     (case checkResponseCache env now req w c of
        None \<Rightarrow> None
      | Some (w1, Inl err) \<Rightarrow> Some (w1, uc_emit Activity (uc_emit (ErrorOf err) (closeConnection c)), a)
      | Some (w1, Inr True) \<Rightarrow> Some (w1, uc_emit Activity c, a)
      | Some (w1, Inr False) \<Rightarrow>
          (let qResponse = (Options_HasOption (opts_of req) QBlock1 \<or> Options_HasOption (opts_of req) QBlock2)
           in case handle (on_msg (PM_SetModified False) w1) req (c, a) of
                None \<Rightarrow> None
              | Some (w2, c1, a1) \<Rightarrow>
                  (case processResponse now (Type (msg req)) (MessageID (msg req)) qResponse w2 c1 of
                     (w3, c2, None) \<Rightarrow> Some (w3, uc_emit Activity c2, a1)
                   | (w3, c2, Some err) \<Rightarrow> Some (w3, uc_emit Activity (uc_emit (ErrorOf err) (closeConnection c2)), a1)))))"

definition validateQBlockDatagram :: "uc_env \<Rightarrow> umsg \<Rightarrow> go_error option" where
  "validateQBlockDatagram env m =
     (case PM_MarshalWithEncoder udp_Size udp_Encode m of
        (_, Inl err) \<Rightarrow> Some err
      | (_, Inr wire) \<Rightarrow> if length wire > unat (uc_qDatagramLimit env) then Some ErrQBlockTooLarge else None)"

definition ProcessReceivedMessageWithHandler ::
    "uc_env \<Rightarrow> time \<Rightarrow> umsg \<Rightarrow> 'a uhandler \<Rightarrow> uconn \<times> 'a \<Rightarrow> (uconn \<times> 'a) option" where
  "ProcessReceivedMessageWithHandler env now req handler = (\<lambda>(c, a).
     (let qResponse = (Options_HasOption (opts_of req) QBlock1 \<or> Options_HasOption (opts_of req) QBlock2);
          resp = PM_SetToken (Token (msg req)) (uc_fresh env);
          c1 = setControlInformation (controlMessage req) c;
          w = rw_New resp (opts_of req)
      in case handler w req (c1, a) of
           None \<Rightarrow> None
         | Some (w1, c2, a1) \<Rightarrow>
             if uc_closed c2 \<or> \<not> isModified (response w1) then Some (c2, a1)
             else
               (let (m1, c3) =
                  (case (if qResponse then validateQBlockDatagram env (response w1) else None) of
                     None \<Rightarrow> (Some (response w1), c2)
                   | Some err \<Rightarrow>
                       (map_option (PM_SetBody None) (PM_ResetOptionsTo [] (PM_SetCode codes_RequestEntityTooLarge (response w1))),
                        uc_emit (ErrorOf err) c2))
                in case m1 of
                     None \<Rightarrow> None
                   | Some m \<Rightarrow>
                       (case writeMessageAsync env now (upsertControlInformation m c3) c3 of
                          None \<Rightarrow> None
                        | Some (c4, _, None) \<Rightarrow> Some (c4, a1)
                        | Some (c4, _, Some err) \<Rightarrow> Some (uc_emit (ErrorOf err) (closeConnection c4), a1)))))"

definition ProcessReceivedMessage ::
    "uc_env \<Rightarrow> time \<Rightarrow> (uw \<Rightarrow> umsg \<Rightarrow> 'a \<Rightarrow> uw \<times> 'a) \<Rightarrow> umsg \<Rightarrow> uconn \<times> 'a \<Rightarrow> (uconn \<times> 'a) option" where
  "ProcessReceivedMessage env now app req s =
     (case ProcessReceivedMessageWithHandler env now req (handleReq env now (conn_handle now app)) s of
        None \<Rightarrow> None
      | Some (c, a) \<Rightarrow> Some (deletePendingMessage (MessageID (msg req)) (sequence req) c, a))"

subsection \<open>Datagrams\<close>

definition sendPong :: "uw \<Rightarrow> umsg \<Rightarrow> uconn \<Rightarrow> (uw \<times> uconn) option" where
  "sendPong w r c =
     (case SetResponse codes_Empty TextPlain None [] w of
        None \<Rightarrow> None
      | Some (w1, err) \<Rightarrow>
          (let c1 = (case err of None \<Rightarrow> c | Some e \<Rightarrow> uc_emit (ErrorOf e) c) in
           if Type (msg r) = Confirmable
           then Some (on_msg (\<lambda>m. PM_SetMessageID (MessageID (msg r)) (PM_SetType Reset m)) w1, c1)
           else
             (let w2 = (if Type (msg (response w1)) \<noteq> Reset then on_msg (PM_SetType NonConfirmable) w1 else w1);
                  (mid, c2) = GetMessageID c1
              in Some (on_msg (PM_SetMessageID mid) w2, c2))))"

definition handlePong :: "'a uhandler" where
  "handlePong w r = (\<lambda>(c, a). map_option (\<lambda>(w1, c1). (w1, c1, a)) (sendPong w r c))"

definition run_mid_handler :: "mid_handler \<Rightarrow> umsg \<Rightarrow> uconn \<Rightarrow> uconn" where
  "run_mid_handler h r c =
     (case h of
        HandlerNothing \<Rightarrow> c
      | HandlerAcknowledge ch notification \<Rightarrow>
          notifyWaitForAcknowledge (Some ch)
            (if Type (msg r) = Reset \<and> notification then Some (ErrOther ''q-block Observe notification reset by peer'') else None) c
      | HandlerPong ping \<Rightarrow>
          if Type (msg r) = Reset \<or> Type (msg r) = Acknowledgement then uc_emit (PongReceived ping) c else c)"

definition handleSpecialMessages :: "uc_env \<Rightarrow> time \<Rightarrow> umsg \<Rightarrow> uconn \<Rightarrow> (uconn \<times> bool) option" where
  "handleSpecialMessages env now r c =
     (if Message_IsPing (msg r) False then
        (case ProcessReceivedMessageWithHandler env now r handlePong (c, ()) of
           None \<Rightarrow> None
         | Some (c1, _) \<Rightarrow> Some (c1, True))
      else
        (case Map_LoadAndDelete (MessageID (msg r)) (midHandlerContainer c) of
           (mids, Some elem) \<Rightarrow> Some (run_mid_handler (mid_handler elem) r (c\<lparr>midHandlerContainer := mids\<rparr>), False)
         | (_, None) \<Rightarrow> Some (c, PM_IsSeparateMessage r)))"

record MalformedMessageError =
  mal_Type :: int
  mal_MessageID :: int
  HasHeader :: bool
  InvalidVersion :: bool
  mal_Err :: go_error

definition newMalformedMessageError :: "go_error \<Rightarrow> bytes \<Rightarrow> umsg \<Rightarrow> MalformedMessageError" where
  "newMalformedMessageError err datagram req =
     (let e = \<lparr>mal_Type = 0, mal_MessageID = 0, HasHeader = False, InvalidVersion = False, mal_Err = err\<rparr> in
      if length datagram \<ge> 1 \<and> drop_bit 6 (datagram ! 0) \<noteq> 1 then e\<lparr>InvalidVersion := True\<rparr>
      else if length datagram \<ge> 4
      then e\<lparr>HasHeader := True, mal_Type := Type (msg req), mal_MessageID := MessageID (msg req)\<rparr>
      else e)"

definition respondUnknownCriticalOptions :: "uc_env \<Rightarrow> umsg \<Rightarrow> u16 list \<Rightarrow> uconn \<Rightarrow> (uconn \<times> go_error option) option" where
  "respondUnknownCriticalOptions env req unknownCriticalOpts c =
     (let r1 = PM_SetMessageID (MessageID (msg req)) (PM_SetType Acknowledgement
                 (PM_SetToken (Token (msg req)) (PM_SetCode codes_BadOption (uc_fresh env))))
      in case PM_SetContentFormat TextPlain r1 of
           None \<Rightarrow> None
         | Some r2 \<Rightarrow>
             (let r3 = PM_SetBody (Some (NewReader (map of_char (FormatUnknownCriticalOptionsDiagnostic unknownCriticalOpts)))) r2;
                  c1 = setControlInformation (controlMessage req) c
              in Some (udp_WriteMessage env (upsertControlInformation r3 c1) c1)))"

definition processUnknownCriticalOptions :: "uc_env \<Rightarrow> umsg \<Rightarrow> uconn \<Rightarrow> (uconn \<times> bool \<times> go_error option) option" where
  "processUnknownCriticalOptions env req c =
     (if Type (msg req) \<noteq> Confirmable \<and> Type (msg req) \<noteq> NonConfirmable \<or> Code (msg req) < codes_GET \<or> Code (msg req) \<ge> 32
      then Some (c, False, None)
      else
        (let unknownCriticalOpts = GetUnknownCriticalOptionsWithQBlock (opts_of req) False in
         if length unknownCriticalOpts = 0 then Some (c, False, None)
         else if Type (msg req) = Confirmable
         then (case respondUnknownCriticalOptions env req unknownCriticalOpts c of
                 None \<Rightarrow> None
               | Some (c1, err) \<Rightarrow> Some (c1, True, err))
         else Some (c, True, None)))"

definition isQMulticastRequest :: "umsg \<Rightarrow> ControlMessage option \<Rightarrow> bool" where
  "isQMulticastRequest req cm \<longleftrightarrow>
     Code (msg req) \<ge> codes_GET \<and> Code (msg req) < 32 \<and> Options_HasOption (opts_of req) QBlock2
     \<and> (case cm of None \<Rightarrow> False | Some m \<Rightarrow> IsMulticast (cm_Dst m))"

datatype process_result = ProcessOk | ProcessError go_error | ProcessMalformed MalformedMessageError

definition enqueue :: "uc_env \<Rightarrow> time \<Rightarrow> umsg \<Rightarrow> uconn \<Rightarrow> uconn" where
  "enqueue env now req c =
     (if uc_closed c then deletePendingMessage (MessageID (msg req)) (sequence req) c else uc_emit (Enqueued req) c)"

definition Process :: "uc_env \<Rightarrow> time \<Rightarrow> ControlMessage option \<Rightarrow> bytes \<Rightarrow> uconn \<Rightarrow> (uconn \<times> process_result) option" where
  "Process env now cm datagram c =
     (if CastTo (Unsigned 32) (int (length datagram)) > uint (uc_maxMessageSize env)
      then Some (c, ProcessError (ErrOther ''max message size was exceeded''))
      else case PM_UnmarshalWithDecoder udp_Decode (uc_fuel env) (uc_capacity env) datagram (uc_fresh env) of
        None \<Rightarrow> None
      | Some (req0, Inl err) \<Rightarrow> Some (c, ProcessMalformed (newMalformedMessageError err datagram req0))
      | Some (req0, Inr _) \<Rightarrow>
          (let req = PM_SetSequence (uc_sequence c + 1) (PM_SetControlMessage cm req0);
               c1 = c\<lparr>uc_sequence := uc_sequence c + 1\<rparr>
           in if isQMulticastRequest req cm then Some (c1, ProcessOk)
              else case processUnknownCriticalOptions env req c1 of
                None \<Rightarrow> None
              | Some (c2, True, err) \<Rightarrow> Some (c2, case err of None \<Rightarrow> ProcessOk | Some e \<Rightarrow> ProcessError e)
              | Some (c2, False, _) \<Rightarrow>
                  (let c3 = checkMyMessageID req c2 in
                   case uc_monitor env req of
                     Inl err \<Rightarrow> Some (c3, ProcessError err)
                   | Inr True \<Rightarrow> Some (c3, ProcessOk)
                   | Inr False \<Rightarrow>
                       (case handleSpecialMessages env now req (uc_emit Activity c3) of
                          None \<Rightarrow> None
                        | Some (c4, True) \<Rightarrow> Some (c4, ProcessOk)
                        | Some (c4, False) \<Rightarrow>
                            if Type (msg req) = Confirmable \<or> Type (msg req) = NonConfirmable then
                              (case addPendingMessage (MessageID (msg req)) (sequence req) now c4 of
                                 (c5, Inl err) \<Rightarrow> Some (uc_emit (ErrorOf err) c5, ProcessOk)
                               | (c5, Inr True) \<Rightarrow> Some (c5, ProcessOk)
                               | (c5, Inr False) \<Rightarrow> Some (enqueue env now req c5, ProcessOk))
                            else Some (enqueue env now req c4, ProcessOk)))))"

subsection \<open>Ticks\<close>

definition expireCaches :: "time \<Rightarrow> uconn \<Rightarrow> uconn" where
  "expireCaches now c =
     (let c1 = expirePendingMessages now c
      in c1\<lparr>responseMsgCache := fst (Cache_CheckExpirations now (responseMsgCache c1))\<rparr>)"

definition CheckExpirations :: "uc_env \<Rightarrow> time \<Rightarrow> time \<Rightarrow> uconn \<Rightarrow> uconn option" where
  "CheckExpirations env now clock c =
     (let c1 = expireCaches now c
      in checkMidHandlers env now clock (maxRetransmit c1) (map fst (midHandlerContainer c1)) c1)"

end
