(* ===== verification/Udp_Exchange.thy ===== *)
theory Udp_Exchange
  imports Udp_Conn
begin

text \<open>
  Confirmable messages over time: how often and when an unacknowledged message is sent again, that it is given up in
  the end, and what an acknowledgement changes.
\<close>

subsection \<open>The delay\<close>

lemma retransmissionDelay_eq:
  assumes "0 < ackTimeout"
  shows "retransmissionDelay ackTimeout retr = min MaxDuration (ackTimeout * 2 ^ unat retr)"
proof (cases "retr \<ge> 63")
  case True
  then have "(2 :: int) ^ 63 \<le> 2 ^ unat retr"
    by (intro power_increasing) (simp_all add: word_le_nat_alt)
  also have "\<dots> \<le> ackTimeout * 2 ^ unat retr" using assms by simp
  finally show ?thesis using True assms by (simp add: retransmissionDelay_def MaxDuration_def)
next
  case False
  have "ackTimeout > MaxDuration div 2 ^ unat retr \<longleftrightarrow> ackTimeout * 2 ^ unat retr > MaxDuration"
    using le_div_iff_mult [of "2 ^ unat retr" ackTimeout MaxDuration] by (simp add: not_le [symmetric])
  then show ?thesis using False assms by (auto simp: retransmissionDelay_def Let_def)
qed

lemma retransmissionDelay_nonneg: "0 < ackTimeout \<Longrightarrow> 0 \<le> retransmissionDelay ackTimeout retr"
  by (simp add: retransmissionDelay_eq MaxDuration_def)

subsection \<open>What a tick does\<close>

definition sendable :: "umsg \<Rightarrow> bool" where
  "sendable r \<longleftrightarrow> udp_carries (wire_msg r)"

definition datagram_of :: "umsg \<Rightarrow> bytes" where
  "datagram_of r = udp_wire (wire_msg r)"

lemma sendable_opts: "sendable r \<Longrightarrow> opts_inv r"
  by (simp add: sendable_def udp_carries_def wire_ok_def)

lemma WriteMessage_sends:
  "sendable r \<Longrightarrow> udp_WriteMessage env r c = (uc_emit (Sent (datagram_of r)) c, uc_write env (length (datagrams c)) (datagram_of r))"
  by (simp add: udp_WriteMessage_def udp.marshal_ok sendable_def datagram_of_def)

lemma datagrams_emit [simp]:
  "datagrams (uc_emit (Sent d) c) = datagrams c @ [d]"
  "datagrams (uc_emit (ErrorOf e) c) = datagrams c"
  "datagrams (uc_emit Activity c) = datagrams c"
  by (simp_all add: datagrams_def uc_emit_def)

lemma datagrams_update [simp]:
  "datagrams (c\<lparr>midHandlerContainer := x\<rparr>) = datagrams c" "datagrams (c\<lparr>nextElem := i\<rparr>) = datagrams c"
  "datagrams (c\<lparr>ackChannels := y\<rparr>) = datagrams c"
  by (simp_all add: datagrams_def)

lemma Clone_sendable:
  assumes "sendable r" "body fresh = None"
  shows "\<exists>m. PM_Clone r fresh = Some (r, m, None) \<and> sendable m \<and> datagram_of m = datagram_of r
    \<and> MessageID (msg m) = MessageID (msg r) \<and> Type (msg m) = Type (msg r)"
proof -
  obtain m where m: "PM_Clone r fresh = Some (r, m, None)" "Code (msg m) = Code (msg r)" "Token (msg m) = Token (msg r)"
      "opts_of m = opts_of r" "Type (msg m) = Type (msg r)" "MessageID (msg m) = MessageID (msg r)"
      "body r \<noteq> None \<longrightarrow> body m = Some (NewReader (body_data r))" "body r = None \<longrightarrow> body m = body fresh"
    using PM_Clone_copies [OF sendable_opts [OF assms(1)], of fresh] by (elim exE conjE) (rule that)
  have "body_data m = body_data r" using m(7,8) assms(2) by (cases "body r") (auto simp: body_data_def NewReader_def)
  then have "wire_msg m = wire_msg r" using m by (intro Message.equality) simp_all
  then show ?thesis using m assms(1) by (auto simp: sendable_def datagram_of_def)
qed

text \<open>A connection with one exchange under way.\<close>

definition exchanging :: "int \<Rightarrow> midElement \<Rightarrow> umsg \<Rightarrow> uconn \<Rightarrow> bool" where
  "exchanging key m r c \<longleftrightarrow>
     midHandlerContainer c = [(key, m)] \<and> mid_msg m = Some r \<and> sendable r \<and> \<not> retransmitting m
     \<and> mid_deadline m = None \<and> 0 < acknowledgeTimeout m"

definition due :: "midElement \<Rightarrow> time" where
  "due m = mid_start m + retransmissionDelay (acknowledgeTimeout m) (retransmit m)"

lemma expireCaches_frame [simp]:
  "midHandlerContainer (expireCaches now c) = midHandlerContainer c" "maxRetransmit (expireCaches now c) = maxRetransmit c"
  "uc_log (expireCaches now c) = uc_log c" "ackChannels (expireCaches now c) = ackChannels c" "datagrams (expireCaches now c) = datagrams c"
  by (simp_all add: expireCaches_def expirePendingMessages_def datagrams_def Let_def)

lemma tick_cases:
  assumes "exchanging key m r c" "uc_write env = (\<lambda>_ _. None)" "body (uc_fresh env) = None" "retransmit m \<le> maxRetransmit c"
  shows "\<exists>c'. CheckExpirations env now clock c = Some c' \<and> maxRetransmit c' = maxRetransmit c \<and> ackChannels c' = ackChannels c
    \<and> (if now \<le> due m then exchanging key m r c' \<and> uc_log c' = uc_log c
       else if retransmit m = maxRetransmit c
       then midHandlerContainer c' = [] \<and> uc_log c' = uc_log c @ [ErrorOf ErrDeadlineExceeded]
       else exchanging key (MarkRetransmitted clock m) r c' \<and> uc_log c' = uc_log c @ [Sent (datagram_of r)])"
proof -
  define c1 where "c1 = expireCaches now c"
  have c1: "CheckExpirations env now clock c = checkMidHandlers env now clock (maxRetransmit c1) (map fst (midHandlerContainer c1)) c1"
      "midHandlerContainer c1 = midHandlerContainer c" "maxRetransmit c1 = maxRetransmit c" "ackChannels c1 = ackChannels c"
    by (simp_all add: c1_def CheckExpirations_def)
  have d: "uc_log c1 = uc_log c" by (simp add: c1_def)
  note E = assms(1) [unfolded exchanging_def]
  have sr: "sendable r" using E by simp
  obtain r' where cl: "PM_Clone r (uc_fresh env) = Some (r, r', None)" "sendable r'" "datagram_of r' = datagram_of r"
    using Clone_sendable [OF sr assms(3)] by (elim exE conjE) (rule that)
  have not_more: "\<not> retransmit m > maxRetransmit c" using assms(4) by simp
  consider (early) "now \<le> due m" | (last) "now > due m" "retransmit m = maxRetransmit c"
    | (again) "now > due m" "retransmit m \<noteq> maxRetransmit c" by linarith
  then show ?thesis
  proof cases
    case early
    have "CheckExpirations env now clock c = Some c1"
      unfolding c1(1) using E c1(2,3) early not_more
      by (simp add: checkMidHandlerContainer_def mid_IsExpired_def mid_Retransmit_def due_def)
    then show ?thesis using early E c1(2,3,4) d by (auto simp: exchanging_def)
  next
    case last
    have "CheckExpirations env now clock c = Some (uc_emit (ErrorOf ErrDeadlineExceeded) (c1\<lparr>midHandlerContainer := []\<rparr>))"
      unfolding c1(1) using E c1(2,3) last not_more
      by (simp add: checkMidHandlerContainer_def mid_IsExpired_def due_def Map_Delete_def)
    then show ?thesis using last c1(3,4) d by (auto simp: uc_emit_def)
  next
    case again
    let ?m = "MarkRetransmitted clock (m\<lparr>retransmitting := True\<rparr>)"
    have m: "?m = MarkRetransmitted clock m" by (simp add: MarkRetransmitted_def)
    have "CheckExpirations env now clock c = Some (store_elem key ?m (uc_emit (Sent (datagram_of r)) c1))"
      unfolding c1(1) using E c1(2,3) again not_more cl
      by (simp add: checkMidHandlerContainer_def mid_IsExpired_def mid_Retransmit_def due_def mid_GetMessage_def
          WriteMessage_sends [OF cl(2)] assms(2))
    moreover have "store_elem key ?m (uc_emit (Sent (datagram_of r)) c1) =
        (uc_emit (Sent (datagram_of r)) c1)\<lparr>midHandlerContainer := [(key, MarkRetransmitted clock m)]\<rparr>"
      using E c1(2) by (simp add: store_elem_def uc_emit_def m) (simp add: MarkRetransmitted_def)
    ultimately show ?thesis using again E c1(3,4) d by (auto simp: exchanging_def MarkRetransmitted_def uc_emit_def)
  qed
qed

subsection \<open>Runs of ticks\<close>

text \<open>
  The connection is ticked with the time of the tick, and the clock may be later when the message is marked as
  sent again.  Ticks come at least every \<open>period\<close>.
\<close>

fun run_ticks :: "uc_env \<Rightarrow> (time \<times> time) list \<Rightarrow> uconn \<Rightarrow> uconn option" where
  "run_ticks env [] c = Some c"
| "run_ticks env ((now, clock) # ts) c =
     (case CheckExpirations env now clock c of None \<Rightarrow> None | Some c' \<Rightarrow> run_ticks env ts c')"

fun ticks_ok :: "int \<Rightarrow> time \<Rightarrow> (time \<times> time) list \<Rightarrow> bool" where
  "ticks_ok period prev [] \<longleftrightarrow> True"
| "ticks_ok period prev ((now, clock) # ts) \<longleftrightarrow>
     now \<le> prev + period \<and> now \<le> clock \<and> clock \<le> now + period \<and> ticks_ok period now ts"

lemma ticks_idle:
  assumes "midHandlerContainer c = []"
  shows "\<exists>c'. run_ticks env ts c = Some c' \<and> midHandlerContainer c' = [] \<and> uc_log c' = uc_log c
    \<and> ackChannels c' = ackChannels c"
  using assms
proof (induction ts arbitrary: c)
  case (Cons x ts)
  obtain now clock where x: "x = (now, clock)" by (cases x)
  have "CheckExpirations env now clock c = Some (expireCaches now c)"
    using Cons.prems by (simp add: CheckExpirations_def)
  then show ?case using Cons.IH [of "expireCaches now c"] Cons.prems by (simp add: x)
qed simp

subsection \<open>The schedule\<close>

text \<open>
  What should become of an unacknowledged message, over a list of ticks: nothing until a delay of the acknowledge
  timeout, doubled with every retransmission and at most the longest duration, has passed since it was last
  sent; then it is sent again, and after the last of \<open>N\<close> retransmissions there is an error and the end.
\<close>

fun schedule :: "int \<Rightarrow> nat \<Rightarrow> bytes \<Rightarrow> nat \<Rightarrow> time \<Rightarrow> (time \<times> time) list \<Rightarrow> uc_event list" where
  "schedule ackTimeout N d n begun [] = []"
| "schedule ackTimeout N d n begun ((now, clock) # ts) =
     (if now \<le> begun + min MaxDuration (ackTimeout * 2 ^ n) then schedule ackTimeout N d n begun ts
      else if n = N then [ErrorOf ErrDeadlineExceeded]
      else Sent d # schedule ackTimeout N d (Suc n) clock ts)"

lemma ticks_scheduled:
  assumes "exchanging key m r c" "uc_write env = (\<lambda>_ _. None)" "body (uc_fresh env) = None" "retransmit m \<le> maxRetransmit c"
  shows "\<exists>c'. run_ticks env ts c = Some c' \<and> ackChannels c' = ackChannels c
    \<and> uc_log c' = uc_log c @ schedule (acknowledgeTimeout m) (unat (maxRetransmit c)) (datagram_of r) (unat (retransmit m)) (mid_start m) ts
    \<and> (midHandlerContainer c' = [] \<longleftrightarrow> ErrorOf ErrDeadlineExceeded
         \<in> set (schedule (acknowledgeTimeout m) (unat (maxRetransmit c)) (datagram_of r) (unat (retransmit m)) (mid_start m) ts))"
  using assms
proof (induction ts arbitrary: m c)
  case Nil
  then show ?case by (simp add: exchanging_def)
next
  case (Cons x ts)
  obtain now clock where x: "x = (now, clock)" by (cases x)
  let ?N = "unat (maxRetransmit c)" and ?n = "unat (retransmit m)"
  have due: "due m = mid_start m + min MaxDuration (acknowledgeTimeout m * 2 ^ ?n)"
    using Cons.prems(1) by (simp add: due_def exchanging_def retransmissionDelay_eq)
  obtain c1 where c1: "CheckExpirations env now clock c = Some c1" "maxRetransmit c1 = maxRetransmit c"
    "ackChannels c1 = ackChannels c"
    "if now \<le> due m then exchanging key m r c1 \<and> uc_log c1 = uc_log c
       else if retransmit m = maxRetransmit c
       then midHandlerContainer c1 = [] \<and> uc_log c1 = uc_log c @ [ErrorOf ErrDeadlineExceeded]
       else exchanging key (MarkRetransmitted clock m) r c1 \<and> uc_log c1 = uc_log c @ [Sent (datagram_of r)]"
    using tick_cases [OF Cons.prems, of now clock] by (elim exE conjE) (rule that)
  consider (early) "now \<le> due m" | (last) "\<not> now \<le> due m" "retransmit m = maxRetransmit c"
    | (again) "\<not> now \<le> due m" "retransmit m \<noteq> maxRetransmit c" by blast
  then show ?case
  proof cases
    case early
    then show ?thesis using Cons.IH [of m c1] c1 Cons.prems(2-4) unfolding due by (simp add: x)
  next
    case last
    then show ?thesis using ticks_idle [of c1 env ts] c1 unfolding due by (auto simp: x)
  next
    case again
    let ?m = "MarkRetransmitted clock m"
    have lt: "?n < ?N" using again Cons.prems(4) by (metis le_neq_implies_less word_le_nat_alt word_unat_eq_iff)
    have n': "unat (retransmit ?m) = Suc ?n"
      using lt unsigned_less [of "maxRetransmit c", where ?'a = nat] by (simp add: MarkRetransmitted_def unat_word_ariths)
    have less: "retransmit ?m \<le> maxRetransmit c1" using n' lt c1(2) by (simp add: word_le_nat_alt)
    have m': "mid_start ?m = clock" "acknowledgeTimeout ?m = acknowledgeTimeout m" by (simp_all add: MarkRetransmitted_def)
    have e: "exchanging key ?m r c1" "uc_log c1 = uc_log c @ [Sent (datagram_of r)]" using c1(4) again by simp_all
    show ?thesis
      using Cons.IH [OF e(1) Cons.prems(2,3) less] again lt e(2) c1(1-3) unfolding n' m' due by (simp add: x)
  qed
qed

text \<open>The time after which a message is given up at the latest.\<close>

definition delays :: "int \<Rightarrow> nat \<Rightarrow> nat \<Rightarrow> int" where
  "delays ackTimeout n N = (\<Sum>k = n..N. min MaxDuration (ackTimeout * 2 ^ k))"

lemma delays_step:
  "n \<le> N \<Longrightarrow> delays ackTimeout n N = min MaxDuration (ackTimeout * 2 ^ n) + delays ackTimeout (Suc n) N"
  by (simp add: delays_def sum.atLeast_Suc_atMost)

lemma delay_nonneg: "0 < ackTimeout \<Longrightarrow> 0 \<le> min MaxDuration (ackTimeout * 2 ^ n)"
  by (simp add: MaxDuration_def)

lemma delays_nonneg: "0 < ackTimeout \<Longrightarrow> 0 \<le> delays ackTimeout n N"
  unfolding delays_def by (intro sum_nonneg delay_nonneg)

definition overdue :: "time \<Rightarrow> (time \<times> time) list \<Rightarrow> bool" where
  "overdue t ts \<longleftrightarrow> (\<exists>now clock. (now, clock) \<in> set ts \<and> now > t)"

lemma schedule_exhausts:
  assumes "0 < T" "n \<le> N" "0 \<le> period" "ticks_ok period prev ts" "prev \<le> begun + min MaxDuration (T * 2 ^ n)"
    "overdue (begun + delays T n N + 2 * period * int (N - n)) ts"
  shows "schedule T N d n begun ts = replicate (N - n) (Sent d) @ [ErrorOf ErrDeadlineExceeded]"
  using assms(2-)
proof (induction ts arbitrary: n begun prev)
  case Nil
  then show ?case by (simp add: overdue_def)
next
  case (Cons x ts)
  obtain now clock where x: "x = (now, clock)" by (cases x)
  have tm: "now \<le> prev + period" "now \<le> clock" "clock \<le> now + period" "ticks_ok period now ts"
    using Cons.prems(3) by (simp_all add: x)
  let ?due = "begun + min MaxDuration (T * 2 ^ n)" and ?T = "begun + delays T n N + 2 * period * int (N - n)"
  have T: "?due + delays T (Suc n) N + 2 * period * int (N - n) = ?T" using delays_step [OF Cons.prems(1)] by simp
  have pos: "0 \<le> delays T (Suc n) N" "0 \<le> 2 * period * int (N - n)" using delays_nonneg [OF assms(1)] Cons.prems(2) by simp_all
  consider (early) "now \<le> ?due" | (last) "\<not> now \<le> ?due" "n = N" | (again) "\<not> now \<le> ?due" "n < N"
    using Cons.prems(1) by linarith
  then show ?case
  proof cases
    case early
    have "overdue ?T ts" using Cons.prems(5) early T pos unfolding x overdue_def by fastforce
    then show ?thesis using Cons.IH [OF Cons.prems(1,2) tm(4) early] early by (simp add: x)
  next
    case last
    then show ?thesis by (simp add: x)
  next
    case again
    have e: "2 * period * int (N - n) = 2 * period * int (N - Suc n) + 2 * period"
      using again(2) by (simp add: of_nat_diff algebra_simps)
    have q: "0 \<le> 2 * period * int (N - Suc n)" using Cons.prems(2) by simp
    have now: "now \<le> ?due + period" using tm(1) Cons.prems(4) by linarith
    have T': "clock + delays T (Suc n) N + 2 * period * int (N - Suc n) \<le> ?T" using T e tm(3) now by linarith
    have "now \<le> ?T" using T e now pos(1) q Cons.prems(2) by linarith
    then have o: "overdue (clock + delays T (Suc n) N + 2 * period * int (N - Suc n)) ts"
      using Cons.prems(5) T' unfolding x overdue_def by fastforce
    have "now \<le> clock + min MaxDuration (T * 2 ^ Suc n)" using tm(2) delay_nonneg [OF assms(1), of "Suc n"] by linarith
    then have "schedule T N d (Suc n) clock ts = replicate (N - Suc n) (Sent d) @ [ErrorOf ErrDeadlineExceeded]"
      using Cons.IH [OF _ Cons.prems(2) tm(4) _ o] again(2) by simp
    then show ?thesis using again by (simp add: x Suc_diff_Suc [symmetric])
  qed
qed

subsection \<open>A confirmable message that is never acknowledged\<close>

lemma prepare_confirmable:
  assumes "Type (msg req) = Confirmable" "sendable req" "body (uc_fresh env) = None"
    "prepareWriteMessage env now req h wait c = Some (c1, Inr registered)"
  shows "registered \<and> map_of (midHandlerContainer c) (MessageID (msg req)) = None
    \<and> (\<exists>m. sendable m \<and> datagram_of m = datagram_of req
         \<and> c1 = c\<lparr>midHandlerContainer := AList.update (MessageID (msg req)) (newMidElement env now h (uc_deadline env req) wait m c) (midHandlerContainer c),
               nextElem := Suc (nextElem c)\<rparr>)"
proof -
  obtain m where m: "PM_Clone req (uc_fresh env) = Some (req, m, None)" "sendable m" "datagram_of m = datagram_of req"
    using Clone_sendable [OF assms(2,3)] by (elim exE conjE) (rule that)
  then show ?thesis using assms(1,4)
    by (auto simp: prepareWriteMessage_def Let_def Map_LoadOrStore_def split: option.splits if_splits)
qed

lemma writeMessage_waiting:
  assumes "writeMessage_start env now req c = Some (c1, Waiting ch req')" "midHandlerContainer c = []"
    "sendable req'" "body (uc_fresh env) = None" "uc_deadline env req' = None" "0 < uc_ackTimeout env"
  shows "\<exists>m r. exchanging (MessageID (msg req')) m r c1 \<and> datagram_of r = datagram_of req' \<and> retransmit m = 0
    \<and> mid_start m = now \<and> acknowledgeTimeout m = uc_ackTimeout env \<and> ch = nextElem c
    \<and> uc_log c1 = uc_log c @ [Sent (datagram_of req')] \<and> maxRetransmit c1 = maxRetransmit c \<and> ackChannels c1 = ackChannels c"
proof -
  obtain mid c0 where g: "GetMessageID c = (mid, c0)" by fastforce
  have c0: "midHandlerContainer c0 = []" "nextElem c0 = nextElem c" "uc_log c0 = uc_log c" "maxRetransmit c0 = maxRetransmit c"
      "ackChannels c0 = ackChannels c"
    using g assms(2) by (auto simp: GetMessageID_def datagrams_def Let_def)
  define q where "q = upsertControlInformation (PM_UpsertMessageID mid (PM_UpsertType Confirmable req)) c0"
  let ?h = "HandlerAcknowledge (nextElem c0) (Options_HasOption (opts_of q) Observe \<and> Options_HasOption (opts_of q) QBlock2)"
  have con: "Type (msg q) = Confirmable" and "ch = nextElem c0" "req' = q"
      and w: "\<exists>c2 reg. prepareWriteMessage env now q ?h (Some (nextElem c0)) c0 = Some (c2, Inr reg)
        \<and> udp_WriteMessage env q c2 = (c1, None)"
    using assms(1) unfolding writeMessage_start_def g q_def [symmetric]
    by (auto simp: q_def [symmetric] Let_def split: if_splits option.splits prod.splits sum.splits)
  then obtain c2 reg where p: "prepareWriteMessage env now q ?h (Some (nextElem c0)) c0 = Some (c2, Inr reg)"
      and u: "udp_WriteMessage env q c2 = (c1, None)" by blast
  have sq: "sendable q" using assms(3) \<open>req' = q\<close> by simp
  obtain r where r: "sendable r" "datagram_of r = datagram_of q"
      "c2 = c0\<lparr>midHandlerContainer := [(MessageID (msg q), newMidElement env now ?h (uc_deadline env q) (Some (nextElem c0)) r c0)], nextElem := Suc (nextElem c0)\<rparr>"
    using prepare_confirmable [OF con sq assms(4) p] c0(1) by auto
  have c1: "c1 = uc_emit (Sent (datagram_of q)) c2" using u WriteMessage_sends [OF sq] by simp
  let ?m = "newMidElement env now ?h (uc_deadline env q) (Some (nextElem c0)) r c0"
  show ?thesis
  proof (intro exI conjI)
    show "exchanging (MessageID (msg req')) ?m r c1"
      using r assms(5,6) \<open>req' = q\<close> unfolding c1 by (simp add: exchanging_def newMidElement_def uc_emit_def)
    show "uc_log c1 = uc_log c @ [Sent (datagram_of req')]"
      unfolding c1 using r(3) c0(3) \<open>req' = q\<close> by (simp add: uc_emit_def)
  qed (use r c0 c1 \<open>ch = nextElem c0\<close> \<open>req' = q\<close> in \<open>simp_all add: newMidElement_def uc_emit_def\<close>)
qed

lemma upsertControl_msg [simp]:
  "msg (upsertControlInformation r c) = msg r" "body (upsertControlInformation r c) = body r"
  by (simp_all add: upsertControlInformation_def PM_UpsertControlMessage_def PM_SetControlMessage_def)

lemma upsertControl_wire [simp]:
  "sendable (upsertControlInformation r c) = sendable r" "datagram_of (upsertControlInformation r c) = datagram_of r"
  by (simp_all add: sendable_def datagram_of_def body_data_def)

lemma sendable_valid: "sendable r \<Longrightarrow> ValidateMID (MessageID (msg r)) \<and> ValidateType (Type (msg r))"
  by (auto simp: sendable_def udp_carries_def ValidateType_def)

lemma sendable_upsert [simp]:
  "sendable r \<Longrightarrow> PM_UpsertMessageID mid (PM_UpsertType t r) = r"
  using sendable_valid [of r] by (simp add: PM_UpsertMessageID_def PM_UpsertType_def)

text \<open>A connection on which confirmable messages can be written.\<close>

definition writable :: "uc_env \<Rightarrow> uconn \<Rightarrow> bool" where
  "writable env c \<longleftrightarrow> uc_write env = (\<lambda>_ _. None) \<and> body (uc_fresh env) = None \<and> nStart c \<noteq> 0 \<and> uc_acquire env = None"

lemma prepare_ok:
  assumes "writable env c" "sendable req" "Type (msg req) = Confirmable" "map_of (midHandlerContainer c) (MessageID (msg req)) = None"
  shows "\<exists>m. sendable m \<and> datagram_of m = datagram_of req \<and>
    prepareWriteMessage env now req h wait c =
      Some (c\<lparr>midHandlerContainer := AList.update (MessageID (msg req)) (newMidElement env now h (uc_deadline env req) wait m c) (midHandlerContainer c),
              nextElem := Suc (nextElem c)\<rparr>, Inr True)"
proof -
  have fr: "body (uc_fresh env) = None" using assms(1) by (simp add: writable_def)
  obtain m where m: "PM_Clone req (uc_fresh env) = Some (req, m, None)" "sendable m" "datagram_of m = datagram_of req"
    using Clone_sendable [OF assms(2) fr] by (elim exE conjE) (rule that)
  then show ?thesis using assms
    by (intro exI [of _ m]) (simp add: prepareWriteMessage_def Map_LoadOrStore_def writable_def acquireOutstandingInteraction_def)
qed

lemma GetMessageID_frame:
  "GetMessageID c = (mid, c0) \<Longrightarrow> midHandlerContainer c0 = midHandlerContainer c \<and> nextElem c0 = nextElem c \<and> datagrams c0 = datagrams c
     \<and> maxRetransmit c0 = maxRetransmit c \<and> ackChannels c0 = ackChannels c \<and> nStart c0 = nStart c"
  by (auto simp: GetMessageID_def datagrams_def Let_def)

lemma writeMessage_waits:
  assumes "writable env c" "sendable req" "Type (msg req) = Confirmable" "midHandlerContainer c = []"
  shows "\<exists>c1 req'. writeMessage_start env now req c = Some (c1, Waiting (nextElem c) req') \<and> msg req' = msg req \<and> body req' = body req"
proof -
  obtain mid c0 where g: "GetMessageID c = (mid, c0)" by fastforce
  let ?q = "upsertControlInformation req c0"
  have w: "writable env c0" using assms(1) GetMessageID_frame [OF g] by (simp add: writable_def)
  have s: "sendable ?q" "Type (msg ?q) = Confirmable" "map_of (midHandlerContainer c0) (MessageID (msg ?q)) = None"
    using assms(2-4) GetMessageID_frame [OF g] by simp_all
  let ?h = "HandlerAcknowledge (nextElem c0) (Options_HasOption (opts_of ?q) Observe \<and> Options_HasOption (opts_of ?q) QBlock2)"
  obtain m where p: "prepareWriteMessage env now ?q ?h (Some (nextElem c0)) c0 =
      Some (c0\<lparr>midHandlerContainer := AList.update (MessageID (msg ?q)) (newMidElement env now ?h (uc_deadline env ?q) (Some (nextElem c0)) m c0) (midHandlerContainer c0),
              nextElem := Suc (nextElem c0)\<rparr>, Inr True)"
    using prepare_ok [OF w s, of now ?h "Some (nextElem c0)"] by (elim exE conjE) (rule that)
  have u: "PM_UpsertMessageID mid (PM_UpsertType Confirmable req) = req" using assms(2) by simp
  have ne: "nextElem c0 = nextElem c" using GetMessageID_frame [OF g] by simp
  have "writeMessage_start env now req c =
      Some (uc_emit (Sent (datagram_of ?q)) (c0\<lparr>midHandlerContainer := AList.update (MessageID (msg ?q)) (newMidElement env now ?h (uc_deadline env ?q) (Some (nextElem c0)) m c0) (midHandlerContainer c0),
              nextElem := Suc (nextElem c0)\<rparr>), Waiting (nextElem c0) ?q)"
    unfolding writeMessage_start_def g prod.case Let_def u p option.case sum.case WriteMessage_sends [OF s(1)]
    using s(2) assms(1) by (simp add: writable_def)
  then show ?thesis unfolding ne by (intro exI [of _ ?q] exI conjI) simp_all
qed

text \<open>
  C4. A confirmable message that nobody acknowledges is sent again as the schedule has it: whenever the connection is
  ticked, what the exchange has done up to then is the datagram, the same datagram again for every delay that
  has run out (the acknowledge timeout doubled with each retransmission, at most the longest duration),
  and one error once the last delay has, with which the exchange is forgotten.  When the ticks come at least
  every \<open>period\<close>, this is over at the latest the sum of the delays and two periods for each retransmission
  after the message was written, with exactly \<open>maxRetransmit\<close> retransmissions and one error.  The channel
  the writer of the message waits on stays as it was: the writer is not told.
\<close>

theorem unacknowledged_message_given_up:
  assumes "writable env c" "midHandlerContainer c = []" "sendable req" "Type (msg req) = Confirmable"
    and "uc_deadline env = (\<lambda>_. None)" "0 < uc_ackTimeout env"
  shows "\<exists>c1 ch req' c'. writeMessage_start env now req c = Some (c1, Waiting ch req')
    \<and> run_ticks env ticks c1 = Some c' \<and> ackChannels c' ch = ackChannels c ch
    \<and> uc_log c' = uc_log c @ Sent (datagram_of req) # schedule (uc_ackTimeout env) (unat (maxRetransmit c)) (datagram_of req) 0 now ticks
    \<and> (midHandlerContainer c' = [] \<longleftrightarrow> ErrorOf ErrDeadlineExceeded
         \<in> set (schedule (uc_ackTimeout env) (unat (maxRetransmit c)) (datagram_of req) 0 now ticks))
    \<and> (0 \<le> period \<and> ticks_ok period now ticks
       \<and> overdue (now + delays (uc_ackTimeout env) 0 (unat (maxRetransmit c)) + 2 * period * int (unat (maxRetransmit c))) ticks \<longrightarrow>
       midHandlerContainer c' = []
       \<and> uc_log c' = uc_log c @ replicate (Suc (unat (maxRetransmit c))) (Sent (datagram_of req)) @ [ErrorOf ErrDeadlineExceeded])"
proof -
  let ?N = "unat (maxRetransmit c)" and ?d = "datagram_of req"
  obtain c1 req' where w: "writeMessage_start env now req c = Some (c1, Waiting (nextElem c) req')" "msg req' = msg req" "body req' = body req"
    using writeMessage_waits [OF assms(1,3,4,2)] by blast
  have s: "sendable req'" "datagram_of req' = ?d"
    using w(2,3) assms(3) by (simp_all add: sendable_def datagram_of_def body_data_def)
  have e: "uc_write env = (\<lambda>_ _. None)" "body (uc_fresh env) = None" "uc_deadline env req' = None"
    using assms(1,5) by (simp_all add: writable_def)
  obtain m r where m: "exchanging (MessageID (msg req')) m r c1" "datagram_of r = datagram_of req'" "retransmit m = 0"
      "mid_start m = now" "acknowledgeTimeout m = uc_ackTimeout env" "uc_log c1 = uc_log c @ [Sent (datagram_of req')]"
      "maxRetransmit c1 = maxRetransmit c" "ackChannels c1 = ackChannels c"
    using writeMessage_waiting [OF w(1) assms(2) s(1) e(2,3) assms(6)] by blast
  have "retransmit m \<le> maxRetransmit c1" using m(3) by simp
  then obtain c' where c': "run_ticks env ticks c1 = Some c'" "ackChannels c' = ackChannels c"
      "uc_log c' = uc_log c @ Sent ?d # schedule (uc_ackTimeout env) ?N ?d 0 now ticks"
      "midHandlerContainer c' = [] \<longleftrightarrow> ErrorOf ErrDeadlineExceeded \<in> set (schedule (uc_ackTimeout env) ?N ?d 0 now ticks)"
    using ticks_scheduled [OF m(1) e(1,2), of ticks] m(2-) s(2) by auto
  have "schedule (uc_ackTimeout env) ?N ?d 0 now ticks = replicate ?N (Sent ?d) @ [ErrorOf ErrDeadlineExceeded]"
    if "0 \<le> period" "ticks_ok period now ticks" "overdue (now + delays (uc_ackTimeout env) 0 ?N + 2 * period * int ?N) ticks"
    using schedule_exhausts [OF assms(6) _ that(1,2), of 0 ?N now ?d] that(3) delay_nonneg [OF assms(6), of 0] by simp
  then show ?thesis using w(1) c' by (intro exI [of _ c1] exI [of _ "nextElem c"] exI [of _ req'] exI [of _ c']) auto
qed

text \<open>A connection and a request for examples.\<close>

definition plain_env :: uc_env where
  "plain_env =
     \<lparr>uc_maxMessageSize = 65535, uc_qDatagramLimit = 1152, uc_fresh = NewMessage, uc_capacity = 16, uc_fuel = 8,
      uc_write = (\<lambda>_ _. None), uc_monitor = (\<lambda>_. Inr False), uc_acquire = None, uc_ackTimeout = 2, uc_deadline = (\<lambda>_. None)\<rparr>"

definition plain_conn :: uconn where
  "plain_conn =
     \<lparr>midHandlerContainer = [], pendingMessages = [], maxPendingMessages = 16, msgID = 100, globalMID = 100, responseMsgCache = [],
      uc_sequence = 0, nStart = 1, maxRetransmit = 1, interfaceIndex = 0, localAddr = None,
      uc_table = request_table_New, uc_obs = NewHandler, ackChannels = (\<lambda>_. None), uc_closed = False, nextElem = 0, uc_log = []\<rparr>"

definition get :: "int \<Rightarrow> int \<Rightarrow> umsg" where
  "get typ mid = NewMessage\<lparr>msg := \<lparr>Token = [1], Options = [], Code = codes_GET, Payload = [], MessageID = mid, Type = typ\<rparr>\<rparr>"

lemma get_sendable: "typ \<in> {0, 1, 2, 3} \<Longrightarrow> 0 \<le> mid \<Longrightarrow> mid \<le> 65535 \<Longrightarrow> sendable (get typ mid)"
  by (simp add: get_def sendable_def udp_carries_def ValidateMID_def MaxTokenSize_def wire_ok_def)

lemma plain_writable: "writable plain_env plain_conn"
  by (simp add: writable_def plain_env_def plain_conn_def NewMessage_def)

theorem unacknowledged_message_given_up_witness:
  "\<exists>c1 ch req' c'. writeMessage_start plain_env 0 (get Confirmable 7) plain_conn = Some (c1, Waiting ch req')
    \<and> run_ticks plain_env (map (\<lambda>i. (i, i)) [1..9]) c1 = Some c' \<and> midHandlerContainer c' = []
    \<and> uc_log c' = [Sent (datagram_of (get Confirmable 7)), Sent (datagram_of (get Confirmable 7)), ErrorOf ErrDeadlineExceeded]"
proof -
  have p: "unat (maxRetransmit plain_conn) = 1" "uc_ackTimeout plain_env = 2" "uc_log plain_conn = []" "midHandlerContainer plain_conn = []"
      "uc_deadline plain_env = (\<lambda>_. None)"
    by (simp_all add: plain_conn_def plain_env_def)
  have d: "delays 2 0 1 = 6" by (simp add: delays_def MaxDuration_def)
  let ?ts = "map (\<lambda>i. (i, i)) [1..9 :: int]"
  have ts: "?ts = [(1, 1), (2, 2), (3, 3), (4, 4), (5, 5), (6, 6), (7, 7), (8, 8), (9, 9 :: int)]"
    by (simp add: upto_rec1)
  have ok: "ticks_ok 1 0 ?ts" unfolding ts by simp
  have late: "overdue (0 + delays (uc_ackTimeout plain_env) 0 (unat (maxRetransmit plain_conn)) + 2 * 1 * int (unat (maxRetransmit plain_conn))) ?ts"
    unfolding p d overdue_def by (intro exI [of _ 9]) (simp add: ts)
  have g: "sendable (get Confirmable 7)" "Type (msg (get Confirmable 7)) = Confirmable" by (simp add: get_sendable, simp add: get_def)
  have a: "0 < uc_ackTimeout plain_env" by (simp add: p)
  obtain c1 ch req' c' where "writeMessage_start plain_env 0 (get Confirmable 7) plain_conn = Some (c1, Waiting ch req')"
      "run_ticks plain_env ?ts c1 = Some c'" "midHandlerContainer c' = []"
      "uc_log c' = uc_log plain_conn @ replicate (Suc (unat (maxRetransmit plain_conn))) (Sent (datagram_of (get Confirmable 7))) @ [ErrorOf ErrDeadlineExceeded]"
    using unacknowledged_message_given_up [OF plain_writable p(4) g p(5) a, of 0 ?ts 1] ok late by auto
  then show ?thesis unfolding p by (intro exI conjI) (assumption+, simp add: numeral_2_eq_2)
qed

subsection \<open>Messages written without waiting\<close>

lemma writeMessageAsync_ok:
  assumes "writable env c" "sendable req" "map_of (midHandlerContainer c) (MessageID (msg req)) = None"
  shows "\<exists>c1. writeMessageAsync env now req c = Some (c1, req, None) \<and> datagrams c1 = datagrams c @ [datagram_of req]
    \<and> midHandlerContainer c1 = AList.delete (MessageID (msg req)) (midHandlerContainer c) \<or>
    Type (msg req) \<noteq> Confirmable \<and> (\<exists>c1. writeMessageAsync env now req c = Some (c1, req, None) \<and> datagrams c1 = datagrams c @ [datagram_of req]
    \<and> midHandlerContainer c1 = midHandlerContainer c)"
proof -
  obtain mid c0 where g: "GetMessageID c = (mid, c0)" by fastforce
  note F = GetMessageID_frame [OF g]
  have w: "writable env c0" using assms(1) F by (simp add: writable_def)
  have u: "PM_UpsertMessageID mid (PM_UpsertType Confirmable req) = req" using assms(2) by simp
  have ok: "uc_write env i d = None" for i d using assms(1) by (simp add: writable_def)
  show ?thesis
  proof (cases "Type (msg req) = Confirmable")
    case True
    obtain m where p: "prepareWriteMessage env now req HandlerNothing None c0 =
      Some (c0\<lparr>midHandlerContainer := AList.update (MessageID (msg req)) (newMidElement env now HandlerNothing (uc_deadline env req) None m c0) (midHandlerContainer c0),
              nextElem := Suc (nextElem c0)\<rparr>, Inr True)"
      using prepare_ok [OF w assms(2) True, of now HandlerNothing None] assms(3) F by auto
    have "AList.delete k (AList.update k v xs) = AList.delete k xs" for k v and xs :: "(int \<times> midElement) list"
      by (induction xs) auto
    then show ?thesis
      unfolding writeMessageAsync_def g prod.case Let_def u p option.case sum.case WriteMessage_sends [OF assms(2)] ok
      using F by (simp add: closeFn_def Map_LoadAndDelete_def uc_emit_def) (simp add: datagrams_def)
  next
    case False
    then have p: "prepareWriteMessage env now req HandlerNothing None c0 = Some (c0, Inr False)"
      by (simp add: prepareWriteMessage_def)
    then show ?thesis
      unfolding writeMessageAsync_def g prod.case Let_def u p option.case sum.case WriteMessage_sends [OF assms(2)] ok
      using F False by (simp add: closeFn_def uc_emit_def datagrams_def)
  qed
qed

text \<open>
  C23. A confirmable message that is written without waiting for the acknowledgement, as all responses are, is sent
  once and never again: the exchange is registered only until the write has returned, so however long the
  connection is ticked and however the acknowledgement fails to appear, there is one datagram.
\<close>

theorem async_confirmable_sent_once:
  assumes "writable env c" "sendable req" "Type (msg req) = Confirmable" "midHandlerContainer c = []"
  shows "\<exists>c1 c'. writeMessageAsync env now req c = Some (c1, req, None) \<and> run_ticks env ticks c1 = Some c'
    \<and> datagrams c' = datagrams c @ [datagram_of req]"
proof -
  obtain c1 where c1: "writeMessageAsync env now req c = Some (c1, req, None)" "datagrams c1 = datagrams c @ [datagram_of req]"
      "midHandlerContainer c1 = []"
    using writeMessageAsync_ok [OF assms(1,2), of now] assms(3,4) by auto
  then show ?thesis using ticks_idle [OF c1(3), of env ticks] by (auto simp: datagrams_def)
qed

theorem async_confirmable_sent_once_witness:
  "\<exists>c1 c'. writeMessageAsync plain_env 0 (get Confirmable 7) plain_conn = Some (c1, get Confirmable 7, None)
    \<and> run_ticks plain_env [(5, 5), (50, 50)] c1 = Some c' \<and> datagrams c' = [datagram_of (get Confirmable 7)]"
proof -
  have g: "sendable (get Confirmable 7)" "Type (msg (get Confirmable 7)) = Confirmable" "midHandlerContainer plain_conn = []"
    "datagrams plain_conn = []"
    by (simp add: get_sendable, simp_all add: get_def plain_conn_def datagrams_def)
  show ?thesis using async_confirmable_sent_once [OF plain_writable g(1-3), of 0 "[(5, 5), (50, 50)]"] g(4) by simp
qed

end
