(* ===== verification/Udp_Run.thy ===== *)
theory Udp_Run
  imports Udp_Exchange
begin

text \<open>
  The runs of a datagram connection, in which datagrams arrive, queued messages are processed and the connection
  is ticked, in any order; and what it takes for a predicate on connections to hold throughout a run.
\<close>

subsection \<open>Runs\<close>

datatype uc_input =
    Arrives time "ControlMessage option" bytes
  | Processed time umsg
  | Ticks time time

fun input_time :: "uc_input \<Rightarrow> time" where
  "input_time (Arrives t _ _) = t"
| "input_time (Processed t _) = t"
| "input_time (Ticks t _) = t"

fun uc_run :: "uc_env \<Rightarrow> (uw \<Rightarrow> umsg \<Rightarrow> 'a \<Rightarrow> uw \<times> 'a) \<Rightarrow> uc_input list \<Rightarrow> uconn \<times> 'a \<Rightarrow> (uconn \<times> 'a) option" where
  "uc_run env app [] s = Some s"
| "uc_run env app (Arrives t cm d # is) (c, a) =
     (case Process env t cm d c of None \<Rightarrow> None | Some (c1, _) \<Rightarrow> uc_run env app is (c1, a))"
| "uc_run env app (Processed t r # is) (c, a) =
     (case ProcessReceivedMessage env t app r (c, a) of None \<Rightarrow> None | Some s1 \<Rightarrow> uc_run env app is s1)"
| "uc_run env app (Ticks t clock # is) (c, a) =
     (case CheckExpirations env t clock c of None \<Rightarrow> None | Some c1 \<Rightarrow> uc_run env app is (c1, a))"

subsection \<open>Frames\<close>

lemma conn_handle_eq:
  "\<exists>w1 t obs a1. conn_handle now app w m (c, a) = Some (w1, c\<lparr>uc_table := t, uc_obs := obs\<rparr>, a1)
     \<and> (w1 = w \<and> a1 = a \<or> (w1, a1) = app w m a)"
proof -
  obtain t h where t: "handleResponse m (uc_table c) = (t, h)" by fastforce
  obtain obs wa where o: "obs_Handle now (\<lambda>(w', a') r. app w' r a') (w, a) m (uc_obs c) = (obs, wa)" by (rule prod.exhaust)
  obtain w1 a1 where wa: "wa = (w1, a1)" by fastforce
  have eff: "wa = (w, a) \<or> wa = app w m a" using o by (auto simp: obs_Handle_def split: prod.splits if_splits)
  consider "PM_IsSeparateMessage m" | "\<not> PM_IsSeparateMessage m" "h = None" | i where "\<not> PM_IsSeparateMessage m" "h = Some i"
    by (cases h) auto
  then show ?thesis
  proof cases
    case 1
    then show ?thesis by (intro exI [of _ w] exI [of _ a] exI [of _ "uc_table c"] exI [of _ "uc_obs c"]) (simp add: conn_handle_def)
  next
    case 2
    then show ?thesis using t o eff
      by (intro exI [of _ w1] exI [of _ a1] exI [of _ t] exI [of _ obs]) (auto simp: conn_handle_def wa)
  next
    case 3
    then show ?thesis using t
      by (intro exI [of _ w] exI [of _ a] exI [of _ t] exI [of _ "uc_obs c"]) (simp add: conn_handle_def)
  qed
qed

text \<open>
  What a predicate has to survive: changes of the fields that belong to writing, to the counters and to the
  handlers, and the operations on what the connection remembers, none of them later than \<open>till\<close>.
\<close>

locale conn_invariant =
  fixes P :: "uconn \<Rightarrow> bool" and till :: time
  assumes on_log: "P c \<Longrightarrow> P (uc_emit e c)"
    and on_mids: "P c \<Longrightarrow> P (c\<lparr>midHandlerContainer := mids\<rparr>)"
    and on_elem: "P c \<Longrightarrow> P (c\<lparr>nextElem := n\<rparr>)"
    and on_acks: "P c \<Longrightarrow> P (c\<lparr>ackChannels := chs\<rparr>)"
    and on_ids: "P c \<Longrightarrow> P (c\<lparr>globalMID := g, msgID := i\<rparr>)"
    and on_id: "P c \<Longrightarrow> P (c\<lparr>msgID := i\<rparr>)"
    and on_sequence: "P c \<Longrightarrow> P (c\<lparr>uc_sequence := s\<rparr>)"
    and on_control: "P c \<Longrightarrow> P (c\<lparr>interfaceIndex := ix, localAddr := ad\<rparr>)"
    and on_handlers: "P c \<Longrightarrow> P (c\<lparr>uc_table := tb, uc_obs := ob\<rparr>)"
    and on_close: "P c \<Longrightarrow> P (closeConnection c)"
    and on_response: "P c \<Longrightarrow> now \<le> till \<Longrightarrow> P (fst (addResponseToCache now mid m c))"
    and on_pending: "P c \<Longrightarrow> now \<le> till \<Longrightarrow> P (fst (addPendingMessage mid sq now c))"
    and on_done: "P c \<Longrightarrow> P (deletePendingMessage mid sq c)"
    and on_expiry: "P c \<Longrightarrow> now \<le> till \<Longrightarrow> P (expireCaches now c)"
begin

lemma P_frames:
  assumes "P c"
  shows "P (closeFn b r c)" "P (setControlInformation cm c)" "P (notifyWaitForAcknowledge ch err c)" "P (store_elem key m c)"
    "P (checkMyMessageID r c)" "P (run_mid_handler h r c)" "P (enqueue env now r c)"
  using assms
  by (auto simp: closeFn_def setControlInformation_def notifyWaitForAcknowledge_def store_elem_def checkMyMessageID_def run_mid_handler_def
      enqueue_def Let_def intro!: on_log on_mids on_control on_acks on_id on_done split: option.split mid_handler.split)

lemma P_GetMessageID: "GetMessageID c = (mid, c') \<Longrightarrow> P c \<Longrightarrow> P c'"
  by (auto simp: GetMessageID_def Let_def intro: on_ids)

lemma P_WriteMessage: "udp_WriteMessage env r c = (c', err) \<Longrightarrow> P c \<Longrightarrow> P c'"
  by (auto simp: udp_WriteMessage_def intro: on_log split: prod.splits sum.splits)

lemma P_prepare: "prepareWriteMessage env now r h ch c = Some (c', res) \<Longrightarrow> P c \<Longrightarrow> P c'"
  by (auto simp: prepareWriteMessage_def Let_def intro!: on_elem on_mids split: if_splits option.splits prod.splits)

lemma P_writeAsync:
  assumes "writeMessageAsync env now r c = Some (c', r', err)" "P c"
  shows "P c'"
proof -
  obtain mid c0 where g: "GetMessageID c = (mid, c0)" by fastforce
  note p0 = P_GetMessageID [OF g assms(2)]
  let ?q = "PM_UpsertMessageID mid (PM_UpsertType Confirmable r)"
  obtain c1 res where p: "prepareWriteMessage env now ?q HandlerNothing None c0 = Some (c1, res)"
    using assms(1) by (auto simp: writeMessageAsync_def g Let_def split: option.splits)
  note p1 = P_prepare [OF p p0]
  obtain c2 e2 where w: "udp_WriteMessage env ?q c1 = (c2, e2)" by fastforce
  note p2 = P_WriteMessage [OF w p1]
  show ?thesis
    using assms(1) p1 P_frames(1) [OF p2] by (auto simp: writeMessageAsync_def g p w Let_def split: sum.splits)
qed

lemma P_processResponse:
  assumes "processResponse now typ mid' q w c = (w', c', err)" "P c" "now \<le> till"
  shows "P c'"
proof -
  obtain i c1 where g: "GetMessageID c = (i, c1)" by fastforce
  note p1 = P_GetMessageID [OF g assms(2)]
  have R: "addResponseToCache now mid' m c1 = (c'', e) \<Longrightarrow> P c''" "addResponseToCache now mid' m c = (c'', e) \<Longrightarrow> P c''" for m c'' e
    using on_response [OF p1 assms(3), of mid' m] on_response [OF assms(2,3), of mid' m] by simp_all
  show ?thesis
    using assms(1,2) p1 unfolding processResponse_def g prod.case Let_def
    by (simp split: if_splits prod.splits) (auto dest: R)
qed

lemma P_handleReq:
  assumes "handleReq env now (conn_handle now app) w r (c, a) = Some (w', c', a')" "P c" "now \<le> till"
  shows "P c'"
proof -
  obtain w1 res where ch: "checkResponseCache env now r w c = Some (w1, res)"
    using assms(1) by (auto simp: handleReq_def split: option.splits)
  obtain w2 t obs a2 where h: "conn_handle now app (on_msg (PM_SetModified False) w1) r (c, a) = Some (w2, c\<lparr>uc_table := t, uc_obs := obs\<rparr>, a2)"
    using conn_handle_eq [of now app "on_msg (PM_SetModified False) w1" r c a] by (elim exE conjE) (rule that)
  let ?c = "c\<lparr>uc_table := t, uc_obs := obs\<rparr>"
  obtain w3 c3 e3 where p: "processResponse now (Type (msg r)) (MessageID (msg r))
      (Options_HasOption (opts_of r) QBlock1 \<or> Options_HasOption (opts_of r) QBlock2) w2 ?c = (w3, c3, e3)"
    by (rule prod_cases3)
  note r3 = P_processResponse [OF p on_handlers [OF assms(2)] assms(3)]
  have "c' = uc_emit Activity c \<or> (\<exists>e. c' = uc_emit Activity (uc_emit (ErrorOf e) (closeConnection c)))
      \<or> c' = uc_emit Activity c3 \<or> (\<exists>e. c' = uc_emit Activity (uc_emit (ErrorOf e) (closeConnection c3)))"
    using assms(1) by (auto simp: handleReq_def ch h p Let_def split: sum.splits bool.splits option.splits)
  then show ?thesis using r3 assms(2) by (auto intro: on_log on_close)
qed

lemma P_received_with:
  assumes "ProcessReceivedMessageWithHandler env now r h (c, a) = Some (c', a')"
    and "\<And>w c w' c1 a a1. h w r (c, a) = Some (w', c1, a1) \<Longrightarrow> P c \<Longrightarrow> P c1" and "P c"
  shows "P c'"
proof -
  let ?w = "rw_New (PM_SetToken (Token (msg r)) (uc_fresh env)) (opts_of r)"
  let ?c = "setControlInformation (controlMessage r) c"
  obtain w1 c2 a1 where h: "h ?w r (?c, a) = Some (w1, c2, a1)"
    using assms(1) by (auto simp: ProcessReceivedMessageWithHandler_def Let_def split: option.splits)
  have r2: "P c2" by (rule assms(2) [OF h]) (rule P_frames(2) [OF assms(3)])
  have "c' = c2 \<or> (\<exists>m c3 c4 r' e. c3 \<in> {c2} \<union> range (\<lambda>e. uc_emit (ErrorOf e) c2) \<and> writeMessageAsync env now m c3 = Some (c4, r', e)
      \<and> (c' = c4 \<or> (\<exists>e'. c' = uc_emit (ErrorOf e') (closeConnection c4))))"
    using assms(1) by (auto simp: ProcessReceivedMessageWithHandler_def h Let_def split: option.splits if_splits prod.splits) blast+
  moreover have "P c4" if "c3 \<in> {c2} \<union> range (\<lambda>e. uc_emit (ErrorOf e) c2)" "writeMessageAsync env now m c3 = Some (c4, r', e)" for m c3 c4 r' e
    using that(1) r2 by (intro P_writeAsync [OF that(2)]) (auto intro: on_log)
  ultimately show ?thesis using r2 on_log on_close by blast
qed

lemma P_received:
  assumes "ProcessReceivedMessage env now app r (c, a) = Some (c', a')" "P c" "now \<le> till"
  shows "P c'"
proof -
  obtain c1 where p: "ProcessReceivedMessageWithHandler env now r (handleReq env now (conn_handle now app)) (c, a) = Some (c1, a')"
      "c' = deletePendingMessage (MessageID (msg r)) (sequence r) c1"
    using assms(1) by (auto simp: ProcessReceivedMessage_def split: option.splits)
  have "P c1"
    by (rule P_received_with [OF p(1) P_handleReq assms(2)]) (use assms(3) in auto)
  then show ?thesis by (simp add: p(2) on_done)
qed

lemma P_handlePong: "handlePong w r (c, a) = Some (w', c1, a1) \<Longrightarrow> P c \<Longrightarrow> P c1"
  by (auto simp: handlePong_def sendPong_def Let_def intro: on_log P_GetMessageID split: option.splits if_splits prod.splits)

lemma P_special:
  assumes "handleSpecialMessages env now r c = Some (c', b)" "P c"
  shows "P c'"
proof (cases "Message_IsPing (msg r) False")
  case True
  then obtain u where "ProcessReceivedMessageWithHandler env now r handlePong (c, ()) = Some (c', u)"
    using assms(1) by (auto simp: handleSpecialMessages_def split: option.splits)
  then show ?thesis
    by (rule P_received_with [OF _ _ assms(2)]) (auto intro: P_handlePong)
next
  case False
  then show ?thesis
    using assms unfolding handleSpecialMessages_def if_not_P [OF False]
    by (auto intro: P_frames(6) on_mids split: option.splits prod.splits)
qed

lemma P_critical:
  assumes "processUnknownCriticalOptions env r c = Some (c', b, err)" "P c"
  shows "P c'"
proof -
  have "P c''" if "respondUnknownCriticalOptions env r os c = Some (c'', e)" for os c'' e
    using that P_frames(2) [OF assms(2)] by (auto simp: respondUnknownCriticalOptions_def Let_def split: option.splits dest: P_WriteMessage)
  then show ?thesis
    using assms by (auto simp: processUnknownCriticalOptions_def Let_def split: option.splits if_splits)
qed

lemma P_Process:
  assumes "Process env now cm dg c = Some (c', res)" "P c" "now \<le> till"
  shows "P c'"
proof (cases "CastTo (Unsigned 32) (int (length dg)) > uint (uc_maxMessageSize env)")
  case True
  then show ?thesis using assms by (simp add: Process_def)
next
  case False
  obtain r0 u where u: "PM_UnmarshalWithDecoder udp_Decode (uc_fuel env) (uc_capacity env) dg (uc_fresh env) = Some (r0, u)"
    using assms(1) False by (auto simp: Process_def split: option.splits)
  show ?thesis
  proof (cases u)
    case (Inl e)
    then show ?thesis using assms False by (simp add: Process_def u)
  next
    case (Inr n)
    let ?r = "PM_SetSequence (uc_sequence c + 1) (PM_SetControlMessage cm r0)"
    let ?c1 = "c\<lparr>uc_sequence := uc_sequence c + 1\<rparr>"
    note r1 = on_sequence [OF assms(2), of "uc_sequence c + 1"]
    show ?thesis
    proof (cases "isQMulticastRequest ?r cm")
      case True
      then show ?thesis using assms(1) False r1 by (simp add: Process_def u Inr)
    next
      case NQ: False
      obtain c2 b e2 where p: "processUnknownCriticalOptions env ?r ?c1 = Some (c2, b, e2)"
        using assms(1) False NQ by (auto simp: Process_def u Inr Let_def split: option.splits)
      note r2 = P_critical [OF p r1]
      let ?c3 = "uc_emit Activity (checkMyMessageID ?r c2)"
      have r3: "P ?c3" "P (checkMyMessageID ?r c2)" using r2 by (auto intro: on_log P_frames(5))
      show ?thesis
      proof (cases "handleSpecialMessages env now ?r ?c3")
        case None
        then show ?thesis
          using assms(1) False NQ r2 r3 by (auto simp: Process_def u Inr p Let_def split: bool.splits sum.splits)
      next
        case (Some c4b)
        obtain c4 b4 where c4: "c4b = (c4, b4)" by fastforce
        note r4 = P_special [OF Some [unfolded c4] r3(1)]
        obtain c5 res5 where a: "addPendingMessage (MessageID (msg ?r)) (sequence ?r) now c4 = (c5, res5)" by fastforce
        have r5: "P c5" using on_pending [OF r4 assms(3), of "MessageID (msg ?r)" "sequence ?r"] a by simp
        show ?thesis
          using assms(1) False NQ r2 r3 r4 r5 P_frames(7) [OF r4] P_frames(7) [OF r5] on_log [OF r5]
          unfolding Process_def u Inr Let_def p option.case sum.case prod.case Some c4 a
          by (auto split: bool.splits sum.splits if_splits)
      qed
    qed
  qed
qed

lemma P_check_mid:
  assumes "checkMidHandlerContainer env now clock k key m c = Some c'" "P c"
  shows "P c'"
proof -
  have w: "P x" if "udp_WriteMessage env r c = (x, e)" for r x e
    using P_WriteMessage [OF that assms(2)] .
  show ?thesis
    using assms
    by (auto simp: checkMidHandlerContainer_def Let_def intro!: on_log on_mids P_frames(3,4)
        split: if_splits prod.splits option.splits sum.splits dest: w)
qed

lemma P_check_mids: "checkMidHandlers env now clock k keys c = Some c' \<Longrightarrow> P c \<Longrightarrow> P c'"
proof (induction keys arbitrary: c)
  case (Cons key keys)
  then show ?case by (auto split: option.splits dest: P_check_mid)
qed simp

lemma P_run:
  assumes "uc_run env app is (c, a) = Some (c', a')" "P c" "\<forall>i \<in> set is. input_time i \<le> till"
  shows "P c'"
  using assms
proof (induction "is" arbitrary: c a)
  case (Cons i "is")
  show ?case
  proof (cases i)
    case (Arrives t cm dg)
    then show ?thesis using Cons.prems by (auto split: option.splits intro: Cons.IH P_Process)
  next
    case (Processed t r)
    then show ?thesis using Cons.prems by (auto split: option.splits intro: Cons.IH P_received)
  next
    case (Ticks t clock)
    then show ?thesis using Cons.prems on_expiry [OF Cons.prems(2), of t]
      by (auto simp: CheckExpirations_def Let_def split: option.splits intro: Cons.IH P_check_mids)
  qed
qed simp

end

end
