(* ===== verification/Udp_Dedup.thy ===== *)
theory Udp_Dedup
  imports Udp_Run
begin

text \<open>
  What a peer gets for a request it sends again: the responses a connection remembers and the messages it has
  in progress.
\<close>

subsection \<open>Nothing but expiry makes a connection forget\<close>

text \<open>The connection has a response for a message ID, to be kept until \<open>till\<close>.\<close>

definition remembers :: "int \<Rightarrow> bytes \<Rightarrow> time \<Rightarrow> uconn \<Rightarrow> bool" where
  "remembers mid d till c \<longleftrightarrow> cache_ok (responseMsgCache c) \<and>
     (\<exists>e. map_of (responseMsgCache c) (FormatInt mid) = Some e \<and> elem_data e = d \<and> ValidUntil e = Some till)"

lemma pending_cache [simp]:
  "responseMsgCache (closeConnection c) = responseMsgCache c"
  "responseMsgCache (deletePendingMessage mid sq c) = responseMsgCache c"
  "responseMsgCache (expirePendingMessages now c) = responseMsgCache c"
  "responseMsgCache (setControlInformation cm c) = responseMsgCache c"
  "responseMsgCache (uc_emit e c) = responseMsgCache c"
  "responseMsgCache (snd (GetMessageID c)) = responseMsgCache c"
  by (simp_all add: closeConnection_def deletePendingMessage_def expirePendingMessages_def setControlInformation_def uc_emit_def
      GetMessageID_def Let_def split: option.split)

lemma addPending_cache [simp]: "responseMsgCache (fst (addPendingMessage mid sq now c)) = responseMsgCache c"
  by (auto simp: addPendingMessage_def addPending_insert_def Let_def split: option.split)

lemma addResponse_remembers:
  assumes "remembers mid d till c" "now \<le> till"
  shows "remembers mid d till (fst (addResponseToCache now mid' m c))"
  using assms
  by (auto simp: addResponseToCache_def remembers_def Cache_LoadOrStore_def Map_ReplaceWithFunc_def Let_def cache_ok_def
      IsExpired_def NewElement_def update_conv' alist.invar_put alist.invar_drop
      split: prod.split sum.split option.split if_splits)

lemma expiry_remembers:
  assumes "remembers mid d till c" "now \<le> till"
  shows "remembers mid d till (expireCaches now c)"
proof -
  have ok: "cache_ok (responseMsgCache c)" using assms(1) by (simp add: remembers_def)
  show ?thesis
    using assms CheckExpirations_lookup [OF ok, of now] by (auto simp: remembers_def live_def IsExpired_def expireCaches_def Let_def)
qed

interpretation memory: conn_invariant "remembers mid d till" till for mid d till
  by unfold_locales
    (auto intro: addResponse_remembers expiry_remembers, auto simp: remembers_def)

subsection \<open>Answers\<close>

text \<open>The environment of a server whose socket accepts what is written and whose pool gives reset messages.\<close>

definition serving :: "uc_env \<Rightarrow> bool" where
  "serving env \<longleftrightarrow> uc_write env = (\<lambda>_ _. None) \<and> opts_of (uc_fresh env) = [] \<and> Payload (msg (uc_fresh env)) = []
     \<and> body (uc_fresh env) = None \<and> Code (msg (uc_fresh env)) = codes_Empty \<and> 0 < uc_capacity env \<and> 0 < uc_fuel env"

text \<open>A response that can be sent as an acknowledgement and decoded again.\<close>

definition answer_ok :: "uc_env \<Rightarrow> umsg \<Rightarrow> bool" where
  "answer_ok env m \<longleftrightarrow> length (Token (msg m)) \<le> MaxTokenSize \<and> Code (msg m) < 256 \<and> wire_ok (opts_of m)
     \<and> (\<forall>o1 \<in> set (opts_of m). kept CoapOptionDefs o1) \<and> length (opts_of m) + 1 < uc_capacity env + uc_fuel env
     \<and> (isModified m \<longrightarrow> Type (msg m) \<noteq> Reset \<and> Code (msg m) \<noteq> codes_Empty)"

text \<open>What the application is given for a request.\<close>

definition blank_writer :: "uc_env \<Rightarrow> umsg \<Rightarrow> uw" where
  "blank_writer env r = on_msg (PM_SetModified False) (rw_New (PM_SetToken (Token (msg r)) (uc_fresh env)) (opts_of r))"

definition q_free :: "umsg \<Rightarrow> bool" where
  "q_free r \<longleftrightarrow> \<not> Options_HasOption (opts_of r) QBlock1 \<and> \<not> Options_HasOption (opts_of r) QBlock2"

lemma writeMessageAsync_ack:
  assumes "uc_write env = (\<lambda>_ _. None)" "sendable r" "Type (msg r) \<noteq> Confirmable"
  shows "writeMessageAsync env now r c = Some (uc_emit (Sent (datagram_of r)) (snd (GetMessageID c)), r, None)"
proof -
  obtain mid c0 where g: "GetMessageID c = (mid, c0)" by fastforce
  have u: "PM_UpsertMessageID mid (PM_UpsertType Confirmable r) = r" using assms(2) by simp
  have p: "prepareWriteMessage env now r HandlerNothing None c0 = Some (c0, Inr False)"
    using assms(3) by (simp add: prepareWriteMessage_def)
  show ?thesis
    unfolding writeMessageAsync_def g prod.case Let_def u p option.case sum.case WriteMessage_sends [OF assms(2)]
    using assms(1) by (simp add: closeFn_def)
qed

lemma closed_emit: "uc_closed (uc_emit e c) = uc_closed c"
  by (simp add: uc_emit_def)

lemma control_frames:
  "datagrams (setControlInformation cm c) = datagrams c" "uc_closed (setControlInformation cm c) = uc_closed c"
  by (simp_all add: setControlInformation_def datagrams_def split: option.split)

text \<open>What happens when the handler leaves a response that is an acknowledgement of the request.\<close>

lemma received_acknowledged:
  assumes "handleReq env now (conn_handle now app) (rw_New (PM_SetToken (Token (msg r)) (uc_fresh env)) (opts_of r)) r
      (setControlInformation (controlMessage r) c, a) = Some (w, c1, a1)"
    and "serving env" "q_free r" "sendable (response w)" "Type (msg (response w)) \<noteq> Confirmable" "isModified (response w)" "\<not> uc_closed c1"
  shows "\<exists>c2. ProcessReceivedMessage env now app r (c, a) = Some (c2, a1) \<and> datagrams c2 = datagrams c1 @ [datagram_of (response w)]
    \<and> responseMsgCache c2 = responseMsgCache c1 \<and> \<not> uc_closed c2"
proof -
  have w: "writeMessageAsync env now (upsertControlInformation (response w) c1) c1 =
      Some (uc_emit (Sent (datagram_of (response w))) (snd (GetMessageID c1)), upsertControlInformation (response w) c1, None)"
    by (subst writeMessageAsync_ack) (use assms(2,4,5) in \<open>simp_all add: serving_def\<close>)
  have f: "datagrams (snd (GetMessageID c1)) = datagrams c1" "uc_closed (snd (GetMessageID c1)) = uc_closed c1"
    by (simp_all add: GetMessageID_def Let_def datagrams_def)
  let ?c = "uc_emit (Sent (datagram_of (response w))) (snd (GetMessageID c1))"
  have g: "datagrams (deletePendingMessage i sq ?c) = datagrams ?c" "uc_closed (deletePendingMessage i sq ?c) = uc_closed ?c" for i sq
    by (simp_all add: deletePendingMessage_def datagrams_def split: option.split)
  show ?thesis
    unfolding ProcessReceivedMessage_def ProcessReceivedMessageWithHandler_def Let_def prod.case assms(1) option.case
    using assms(3,6,7) w f g by (simp add: q_free_def closed_emit)
qed

text \<open>A request whose answer is remembered.\<close>

lemma cached_answer:
  assumes "serving env" "udp_carries m" "length (Options m) + 1 < uc_capacity env + uc_fuel env"
    and "Type m = Acknowledgement" "MessageID m = MessageID (msg r)"
    and "remembers (MessageID (msg r)) (udp_wire m) till c" "now \<le> till" "Type (msg r) = Confirmable" "q_free r" "\<not> uc_closed c"
  shows "\<exists>c2. ProcessReceivedMessage env now app r (c, a) = Some (c2, a) \<and> datagrams c2 = datagrams c @ [udp_wire m]"
proof -
  let ?resp = "PM_SetToken (Token (msg r)) (uc_fresh env)"
  let ?w = "rw_New ?resp (opts_of r)"
  let ?c = "setControlInformation (controlMessage r) c"
  obtain fuel where fuel: "uc_fuel env = Suc fuel" using assms(1) by (cases "uc_fuel env") (auto simp: serving_def)
  have b: "opts_of ?resp = []" "Payload (msg ?resp) = []" "0 < uc_capacity env" "length (Options m) < uc_capacity env + fuel"
    using assms(1,3) fuel by (simp_all add: serving_def PM_SetToken_def)
  obtain r' n where u: "PM_UnmarshalWithDecoder udp_Decode (uc_fuel env) (uc_capacity env) (udp_wire m) ?resp = Some (r', Inr n)"
      "msg r' = m" "body_data r' = Payload m"
    using udp.unmarshal_ok [OF assms(2) b] unfolding fuel by auto
  obtain e where e: "Cache_Load now (FormatInt (MessageID (msg r))) (responseMsgCache ?c) = Some e" "elem_data e = udp_wire m"
    using assms(6,7) by (auto simp: remembers_def Cache_Load_def Map_Load_def IsExpired_def)
  have "0 < length (udp_wire m)" by (simp add: udp_wire_def)
  then have g: "getResponseFromCache env now (MessageID (msg r)) ?resp ?c = Some (r', Inr True)"
    using e u(1) by (simp add: getResponseFromCache_def)
  define m' where "m' = PM_SetType Acknowledgement (PM_SetType NonConfirmable (PM_SetMessageID (MessageID (msg r)) r'))"
  have "msg m' = m" using u(2) assms(4,5) by (simp add: m'_def PM_SetType_def PM_SetMessageID_def)
  moreover have "body_data m' = Payload m" using u(3) by (simp add: m'_def PM_SetType_def PM_SetMessageID_def body_data_def)
  ultimately have s: "sendable m'" "datagram_of m' = udp_wire m" "Type (msg m') \<noteq> Confirmable" "isModified m'"
    using assms(2,4) by (simp_all add: sendable_def datagram_of_def m'_def PM_SetType_def)
  have h: "handleReq env now (conn_handle now app) ?w r (?c, a) = Some (?w\<lparr>response := m'\<rparr>, uc_emit Activity ?c, a)"
    using g assms(8) by (simp add: handleReq_def checkResponseCache_def m'_def rw_New_def)
  show ?thesis
    using received_acknowledged [OF h assms(1,9)] s assms(10) control_frames [of "controlMessage r" c] by (auto simp: closed_emit)
qed

lemma processResponse_confirmable:
  assumes "isModified (response w) \<longrightarrow> Type (msg (response w)) \<noteq> Reset \<and> Code (msg (response w)) \<noteq> codes_Empty"
  shows "\<exists>w3 c0. processResponse now Confirmable mid q w c =
        (w3, fst (addResponseToCache now mid (response w3) c0), snd (addResponseToCache now mid (response w3) c0))
      \<and> c0 \<in> {c, snd (GetMessageID c)} \<and> isModified (response w3) \<and> body (response w3) = body (response w)
      \<and> (\<exists>code tk. msg (response w3) = (msg (response w))\<lparr>Code := code, Token := tk, Type := Acknowledgement, MessageID := mid\<rparr>
           \<and> (code = codes_Empty \<and> tk = [] \<or> isModified (response w) \<and> code = Code (msg (response w)) \<and> tk = Token (msg (response w))))"
proof -
  obtain i c1 where g: "GetMessageID c = (i, c1)" by fastforce
  show ?thesis
  proof (cases "isModified (response w)")
    case False
    then show ?thesis
      by (intro exI [of _ "on_msg (\<lambda>m. PM_SetToken [] (PM_SetMessageID mid (PM_SetType Acknowledgement (PM_SetCode codes_Empty m)))) w"] exI [of _ c])
        (auto simp: processResponse_def isPongOrResetResponse_def sendJustAcknowledgeMessage_def on_msg_def PM_SetToken_def
          PM_SetMessageID_def PM_SetType_def PM_SetCode_def Let_def split_beta)
  next
    case True
    then show ?thesis using assms g
      by (intro exI [of _ "on_msg (\<lambda>m. PM_SetMessageID mid (PM_SetType Acknowledgement m)) (on_msg (\<lambda>m. PM_SetMessageID i (PM_SetType Confirmable m)) w)"] exI [of _ c1])
        (auto simp: processResponse_def isPongOrResetResponse_def sendJustAcknowledgeMessage_def isQNonResponse_def on_msg_def PM_SetToken_def
          PM_SetMessageID_def PM_SetType_def PM_SetCode_def Let_def split_beta
          intro!: exI [of _ "Code (msg (response w))"] exI [of _ "Token (msg (response w))"])
  qed
qed

text \<open>A request that has no answer yet.\<close>

lemma first_answer:
  assumes "serving env" "Type (msg r) = Confirmable" "ValidateMID (MessageID (msg r))" "q_free r" "\<not> uc_closed c"
    and "cache_ok (responseMsgCache c)" "Cache_Load now (FormatInt (MessageID (msg r))) (responseMsgCache c) = None"
    and "answer_ok env (response (fst (app (blank_writer env r) r a)))"
  shows "\<exists>c1 a1 m. ProcessReceivedMessage env now app r (c, a) = Some (c1, a1) \<and> datagrams c1 = datagrams c @ [udp_wire m] \<and> \<not> uc_closed c1
    \<and> udp_carries m \<and> length (Options m) + 1 < uc_capacity env + uc_fuel env \<and> Type m = Acknowledgement \<and> MessageID m = MessageID (msg r)
    \<and> remembers (MessageID (msg r)) (udp_wire m) (now + ExchangeLifetime) c1"
proof -
  let ?resp = "PM_SetToken (Token (msg r)) (uc_fresh env)"
  let ?w = "rw_New ?resp (opts_of r)"
  let ?c = "setControlInformation (controlMessage r) c"
  let ?mid = "MessageID (msg r)"
  have ch: "checkResponseCache env now r ?w ?c = Some (?w, Inr False)"
    using assms(2,7) by (simp add: checkResponseCache_def getResponseFromCache_def rw_New_def)
  obtain w1 t obs a1 where h: "conn_handle now app (blank_writer env r) r (?c, a) = Some (w1, ?c\<lparr>uc_table := t, uc_obs := obs\<rparr>, a1)"
      "w1 = blank_writer env r \<and> a1 = a \<or> (w1, a1) = app (blank_writer env r) r a"
    using conn_handle_eq [of now app "blank_writer env r" r ?c a] by (elim exE conjE) (rule that)
  let ?c1 = "?c\<lparr>uc_table := t, uc_obs := obs\<rparr>"
  let ?m = "response w1"
  have un: "\<not> isModified (response (blank_writer env r))" by (simp add: blank_writer_def on_msg_def PM_SetModified_def)
  have ok: "Code (msg ?m) < 256" "wire_ok (opts_of ?m)" "\<forall>o1 \<in> set (opts_of ?m). kept CoapOptionDefs o1"
      "length (opts_of ?m) + 1 < uc_capacity env + uc_fuel env"
      "isModified ?m \<Longrightarrow> Type (msg ?m) \<noteq> Reset \<and> Code (msg ?m) \<noteq> codes_Empty \<and> length (Token (msg ?m)) \<le> MaxTokenSize"
    using h(2) assms(1,8) un
    by (auto simp: answer_ok_def serving_def blank_writer_def on_msg_def PM_SetModified_def rw_New_def PM_SetToken_def wire_ok_def opts_sorted_def
        dest!: arg_cong [where f = fst])
  have q: "(Options_HasOption (opts_of r) QBlock1 \<or> Options_HasOption (opts_of r) QBlock2) = False"
    using assms(4) by (simp add: q_free_def)
  have mo: "isModified ?m \<longrightarrow> Type (msg ?m) \<noteq> Reset \<and> Code (msg ?m) \<noteq> codes_Empty" using ok(5) by blast
  obtain w3 c0 code tk where p: "processResponse now Confirmable ?mid False w1 ?c1 =
        (w3, fst (addResponseToCache now ?mid (response w3) c0), snd (addResponseToCache now ?mid (response w3) c0))"
      "c0 \<in> {?c1, snd (GetMessageID ?c1)}" "isModified (response w3)"
      "body (response w3) = body ?m" "msg (response w3) = (msg ?m)\<lparr>Code := code, Token := tk, Type := Acknowledgement, MessageID := ?mid\<rparr>"
      "code = codes_Empty \<and> tk = [] \<or> isModified ?m \<and> code = Code (msg ?m) \<and> tk = Token (msg ?m)"
    using processResponse_confirmable [OF mo, of now ?mid False ?c1] by (elim exE conjE) (rule that)
  have c0: "responseMsgCache c0 = responseMsgCache c" "datagrams c0 = datagrams c" "uc_closed c0 = uc_closed c"
    using p(2) control_frames [of "controlMessage r" c] by (auto simp: GetMessageID_def Let_def datagrams_def)
  have f: "MessageID (msg (response w3)) = ?mid" "Type (msg (response w3)) = Acknowledgement" "Token (msg (response w3)) = tk"
      "Code (msg (response w3)) = code" "opts_of (response w3) = opts_of ?m"
    using p(5) by simp_all
  have "length tk \<le> MaxTokenSize" "code < 256" using p(6) ok(1,5) by auto
  then have s: "sendable (response w3)"
    using ok(2,3) assms(3) by (simp add: sendable_def udp_carries_def f)
  define c2 where "c2 = c0\<lparr>responseMsgCache := fst (Cache_LoadOrStore now (FormatInt ?mid)
      (NewElement (nextElem c0) (datagram_of (response w3)) (Some (now + ExchangeLifetime))) (responseMsgCache c0)), nextElem := Suc (nextElem c0)\<rparr>"
  have ad: "addResponseToCache now ?mid (response w3) c0 = (c2, None)"
    using udp.marshal_ok [OF s [unfolded sendable_def]] by (simp add: addResponseToCache_def c2_def datagram_of_def)
  have rem: "remembers ?mid (datagram_of (response w3)) (now + ExchangeLifetime) c2"
    using assms(6,7) c0(1)
    by (auto simp: remembers_def c2_def Cache_LoadOrStore_def Map_ReplaceWithFunc_def cache_ok_def alist.invar_put Cache_Load_def Map_Load_def
        NewElement_def update_conv' Let_def split: option.split option.splits if_splits)
  have hr: "handleReq env now (conn_handle now app) ?w r (?c, a) = Some (w3, uc_emit Activity c2, a1)"
    unfolding handleReq_def prod.case ch option.case sum.case bool.case Let_def q h(1) [unfolded blank_writer_def] assms(2) p(1) ad fst_conv snd_conv ..
  have c2: "datagrams c2 = datagrams c" "uc_closed c2 = uc_closed c" using c0 by (simp_all add: c2_def datagrams_def)
  obtain c3 where c3: "ProcessReceivedMessage env now app r (c, a) = Some (c3, a1)" "datagrams c3 = datagrams c @ [datagram_of (response w3)]"
      "responseMsgCache c3 = responseMsgCache c2" "\<not> uc_closed c3"
    using received_acknowledged [OF hr assms(1,4) s _ p(3)] p(5) c2 assms(5) by (auto simp: closed_emit)
  show ?thesis
  proof (intro exI conjI)
    show "ProcessReceivedMessage env now app r (c, a) = Some (c3, a1)" "\<not> uc_closed c3" by (fact c3)+
    show "datagrams c3 = datagrams c @ [udp_wire (wire_msg (response w3))]" using c3(2) by (simp add: datagram_of_def)
    show "udp_carries (wire_msg (response w3))" using s by (simp add: sendable_def)
    show "remembers ?mid (udp_wire (wire_msg (response w3))) (now + ExchangeLifetime) c3"
      using rem c3(3) by (simp add: remembers_def datagram_of_def)
  qed (use p(5) ok(4) in simp_all)
qed

subsection \<open>Duplicates\<close>

text \<open>
  C3. A confirmable request is handled at most once: the first copy is answered with one datagram, and whatever the
  connection goes through afterwards (datagrams, other messages, ticks), every other copy that is processed within
  \<open>ExchangeLifetime\<close> is answered with the very same datagram, without the application being called.
\<close>

theorem duplicates_answered_alike:
  assumes "serving env" "Type (msg r) = Confirmable" "ValidateMID (MessageID (msg r))" "q_free r" "\<not> uc_closed c"
    and "cache_ok (responseMsgCache c)" "Cache_Load now (FormatInt (MessageID (msg r))) (responseMsgCache c) = None"
    and "answer_ok env (response (fst (app (blank_writer env r) r a)))"
  shows "\<exists>c1 a1 d. ProcessReceivedMessage env now app r (c, a) = Some (c1, a1) \<and> datagrams c1 = datagrams c @ [d] \<and> \<not> uc_closed c1
    \<and> (\<forall>is c2 a2 t r2. uc_run env app is (c1, a1) = Some (c2, a2) \<and> (\<forall>i \<in> set is. input_time i \<le> now + ExchangeLifetime)
         \<and> \<not> uc_closed c2 \<and> t \<le> now + ExchangeLifetime
         \<and> MessageID (msg r2) = MessageID (msg r) \<and> Type (msg r2) = Confirmable \<and> q_free r2 \<longrightarrow>
         (\<exists>c3. ProcessReceivedMessage env t app r2 (c2, a2) = Some (c3, a2) \<and> datagrams c3 = datagrams c2 @ [d]))"
proof -
  obtain c1 a1 m where f: "ProcessReceivedMessage env now app r (c, a) = Some (c1, a1)" "datagrams c1 = datagrams c @ [udp_wire m]"
      "udp_carries m" "length (Options m) + 1 < uc_capacity env + uc_fuel env" "Type m = Acknowledgement" "MessageID m = MessageID (msg r)"
      "remembers (MessageID (msg r)) (udp_wire m) (now + ExchangeLifetime) c1" "\<not> uc_closed c1"
    using first_answer [OF assms(1-7), of app a, OF assms(8)] by (elim exE conjE) (rule that)
  have again: "\<exists>c3. ProcessReceivedMessage env t app r2 (c2, a2) = Some (c3, a2) \<and> datagrams c3 = datagrams c2 @ [udp_wire m]"
    if h: "uc_run env app is (c1, a1) = Some (c2, a2) \<and> (\<forall>i \<in> set is. input_time i \<le> now + ExchangeLifetime)
         \<and> \<not> uc_closed c2 \<and> t \<le> now + ExchangeLifetime
         \<and> MessageID (msg r2) = MessageID (msg r) \<and> Type (msg r2) = Confirmable \<and> q_free r2" for "is" c2 a2 t r2
  proof -
    have rm: "remembers (MessageID (msg r2)) (udp_wire m) (now + ExchangeLifetime) c2"
      using memory.P_run [of env app "is" c1 a1 c2 a2] f(7) h by simp
    show ?thesis
      by (rule cached_answer [OF assms(1) f(3-5) _ rm]) (use h f(6) in simp_all)
  qed
  show ?thesis
    by (rule exI [of _ c1], rule exI [of _ a1], rule exI [of _ "udp_wire m"]) (use f again in blast)
qed

text \<open>An application that counts its requests and answers each with the count.\<close>

definition counting :: "uw \<Rightarrow> umsg \<Rightarrow> nat \<Rightarrow> uw \<times> nat" where
  "counting w r n = (on_msg (\<lambda>m. PM_SetBody (Some (NewReader [of_nat n])) (PM_SetCode codes_Content m)) w, Suc n)"

lemma plain_serving: "serving plain_env"
  by (simp add: serving_def plain_env_def NewMessage_def)

lemma counting_ok: "answer_ok plain_env (response (fst (counting (blank_writer plain_env (get typ mid)) (get typ mid) n)))"
  by (simp add: answer_ok_def counting_def blank_writer_def on_msg_def PM_SetBody_def PM_SetCode_def PM_SetModified_def rw_New_def PM_SetToken_def
      get_def plain_env_def NewMessage_def MaxTokenSize_def wire_ok_def opts_sorted_def)

theorem duplicates_answered_alike_witness:
  "\<exists>c1 n1 c3 d. ProcessReceivedMessage plain_env 0 counting (get Confirmable 7) (plain_conn, 0) = Some (c1, n1) \<and> datagrams c1 = [d]
     \<and> ProcessReceivedMessage plain_env 5 counting (get Confirmable 7) (c1, n1) = Some (c3, n1) \<and> datagrams c3 = [d, d]"
proof -
  have p: "Type (msg (get Confirmable 7)) = Confirmable" "ValidateMID (MessageID (msg (get Confirmable 7)))" "q_free (get Confirmable 7)"
      "\<not> uc_closed plain_conn" "cache_ok (responseMsgCache plain_conn)"
      "Cache_Load 0 (FormatInt (MessageID (msg (get Confirmable 7)))) (responseMsgCache plain_conn) = None" "datagrams plain_conn = []"
    by (simp_all add: get_def ValidateMID_def q_free_def HasOption_vals opts_sorted_def vals_def plain_conn_def cache_ok_def smap_ok_def
        Cache_Load_def Map_Load_def datagrams_def)
  obtain c1 n1 d where f: "ProcessReceivedMessage plain_env 0 counting (get Confirmable 7) (plain_conn, 0) = Some (c1, n1)"
      "datagrams c1 = datagrams plain_conn @ [d]" "\<not> uc_closed c1"
      and g: "\<forall>is c2 a2 t r2. uc_run plain_env counting is (c1, n1) = Some (c2, a2) \<and> (\<forall>i \<in> set is. input_time i \<le> 0 + ExchangeLifetime)
         \<and> \<not> uc_closed c2 \<and> t \<le> 0 + ExchangeLifetime
         \<and> MessageID (msg r2) = MessageID (msg (get Confirmable 7)) \<and> Type (msg r2) = Confirmable \<and> q_free r2 \<longrightarrow>
         (\<exists>c3. ProcessReceivedMessage plain_env t counting r2 (c2, a2) = Some (c3, a2) \<and> datagrams c3 = datagrams c2 @ [d])"
    using duplicates_answered_alike [OF plain_serving p(1-6), of counting 0, OF counting_ok] by (elim exE conjE) (rule that)
  have "\<exists>c3. ProcessReceivedMessage plain_env 5 counting (get Confirmable 7) (c1, n1) = Some (c3, n1) \<and> datagrams c3 = datagrams c1 @ [d]"
    using g [rule_format, of "[]" c1 n1 5 "get Confirmable 7"] f(3) p(1,3) by (simp add: ExchangeLifetime_def)
  then show ?thesis using f p(7) by auto
qed

text \<open>A request the application does not answer.\<close>

lemma silent_request:
  assumes "serving env" "Type (msg r) = NonConfirmable" "q_free r" "Code (msg r) \<noteq> codes_Empty" "Code (msg r) < codes_Created"
    and "map_of (tokenHandlers (uc_table c)) (Token_Hash (Token (msg r))) = None" "map_of (observations (uc_obs c)) (Token_Hash (Token (msg r))) = None"
    and "map_of (responseMsgCache c) (FormatInt (MessageID (msg r))) = None"
    and "\<not> isModified (response (fst (app (blank_writer env r) r a)))"
  shows "ProcessReceivedMessage env now app r (c, a) =
    Some (deletePendingMessage (MessageID (msg r)) (sequence r) (uc_emit Activity (setControlInformation (controlMessage r) c)),
          snd (app (blank_writer env r) r a))"
proof -
  let ?w = "rw_New (PM_SetToken (Token (msg r)) (uc_fresh env)) (opts_of r)"
  let ?c = "setControlInformation (controlMessage r) c"
  obtain w1 a1 where ap: "app (blank_writer env r) r a = (w1, a1)" by fastforce
  have ch: "checkResponseCache env now r ?w ?c = Some (?w, Inr False)"
    using assms(2,8) by (simp add: checkResponseCache_def getResponseFromCache_def rw_New_def Cache_Load_def Map_Load_def)
  have cf: "uc_table ?c = uc_table c" "uc_obs ?c = uc_obs c"
    by (simp_all add: setControlInformation_def split: option.split)
  have hr: "handleResponse r (uc_table c) = (uc_table c, None)"
  proof -
    have "\<not> (length (Token (msg r)) = 0 \<and> Code (msg r) \<ge> codes_Created)" using assms(5) leD by blast
    then show ?thesis using assms(6) unfolding handleResponse_def by (simp only: if_False Map_LoadAndDelete_def) simp
  qed
  have ns: "\<not> PM_IsSeparateMessage r" using assms(4) by (simp add: PM_IsSeparateMessage_def)
  have idc: "?c\<lparr>uc_table := uc_table c, uc_obs := uc_obs c\<rparr> = ?c" by (simp add: cf [symmetric])
  have ho: "obs_Handle now (\<lambda>(w', a') r. app w' r a') (blank_writer env r, a) r (uc_obs c) = (uc_obs c, w1, a1)"
    using assms(7) ap by (simp add: obs_Handle_def HandleNotification_def Map_Load_def)
  have h: "conn_handle now app (blank_writer env r) r (?c, a) = Some (w1, ?c, a1)"
    unfolding conn_handle_def prod.case if_not_P [OF ns] cf hr ho option.case Let_def idc ..
  have q: "(Options_HasOption (opts_of r) QBlock1 \<or> Options_HasOption (opts_of r) QBlock2) = False"
    using assms(3) by (simp add: q_free_def)
  have un: "\<not> isModified (response w1)" using assms(9) ap by simp
  have p: "processResponse now (Type (msg r)) (MessageID (msg r)) False w1 ?c = (w1, ?c, None)"
    using un assms(2) by (simp add: processResponse_def isPongOrResetResponse_def sendJustAcknowledgeMessage_def isQNonResponse_def)
  have hq: "handleReq env now (conn_handle now app) ?w r (?c, a) = Some (w1, uc_emit Activity ?c, a1)"
    unfolding handleReq_def prod.case ch option.case sum.case bool.case Let_def q h [unfolded blank_writer_def] p ..
  show ?thesis
    unfolding ProcessReceivedMessage_def ProcessReceivedMessageWithHandler_def Let_def prod.case hq option.case
    using un ap by simp
qed

end
