(* ===== verification/Udp_Receive.thy ===== *)
theory Udp_Receive
  imports Udp_Dedup
begin

text \<open>
  What happens to a datagram on its arrival: requests in flight, acknowledgements, message IDs.
\<close>

definition enqueued :: "uconn \<Rightarrow> umsg list" where
  "enqueued c = concat (map (\<lambda>e. case e of Enqueued r \<Rightarrow> [r] | _ \<Rightarrow> []) (uc_log c))"

lemma enqueued_emit [simp]:
  "enqueued (uc_emit (Enqueued r) c) = enqueued c @ [r]" "enqueued (uc_emit Activity c) = enqueued c"
  "enqueued (uc_emit (ErrorOf err) c) = enqueued c"
  by (simp_all add: enqueued_def uc_emit_def)

text \<open>A request the connection can take.\<close>

definition plain_request :: "uc_env \<Rightarrow> Message \<Rightarrow> bool" where
  "plain_request env m \<longleftrightarrow> udp_carries m \<and> codes_GET \<le> Code m \<and> Code m < 32 \<and> Type m \<in> {Confirmable, NonConfirmable}
     \<and> GetUnknownCriticalOptionsWithQBlock (Options m) False = [] \<and> \<not> Options_HasOption (Options m) QBlock2
     \<and> length (Options m) + 1 < uc_capacity env + uc_fuel env \<and> length (udp_wire m) \<le> unat (uc_maxMessageSize env)"

text \<open>What \<open>Process\<close> does with the message once it is decoded, from \<open>handleSpecialMessages\<close> on.\<close>

definition acknowledged_by :: "umsg \<Rightarrow> uconn \<Rightarrow> uconn" where
  "acknowledged_by r c =
     (case map_of (midHandlerContainer c) (MessageID (msg r)) of
        None \<Rightarrow> c
      | Some e \<Rightarrow> run_mid_handler (mid_handler e) r (c\<lparr>midHandlerContainer := AList.delete (MessageID (msg r)) (midHandlerContainer c)\<rparr>))"

lemma Process_request:
  assumes "serving env" "uc_monitor env = (\<lambda>_. Inr False)" "plain_request env m"
  shows "\<exists>r. msg r = m \<and> sequence r = uc_sequence c + 1 \<and> controlMessage r = cm \<and> body_data r = Payload m
    \<and> Process env now cm (udp_wire m) c =
        (case addPendingMessage (MessageID m) (uc_sequence c + 1) now
                (acknowledged_by r (uc_emit Activity (checkMyMessageID r (c\<lparr>uc_sequence := uc_sequence c + 1\<rparr>)))) of
           (c5, Inl err) \<Rightarrow> Some (uc_emit (ErrorOf err) c5, ProcessOk)
         | (c5, Inr True) \<Rightarrow> Some (c5, ProcessOk)
         | (c5, Inr False) \<Rightarrow> Some (enqueue env now r c5, ProcessOk))"
proof -
  obtain fuel where fuel: "uc_fuel env = Suc fuel" using assms(1) by (cases "uc_fuel env") (auto simp: serving_def)
  have b: "udp_carries m" "opts_of (uc_fresh env) = []" "Payload (msg (uc_fresh env)) = []" "0 < uc_capacity env"
      "length (Options m) < uc_capacity env + fuel"
    using assms(1,3) fuel by (simp_all add: serving_def plain_request_def)
  obtain r0 n where u: "PM_UnmarshalWithDecoder udp_Decode (uc_fuel env) (uc_capacity env) (udp_wire m) (uc_fresh env) = Some (r0, Inr n)"
      "msg r0 = m" "body_data r0 = Payload m"
    using udp.unmarshal_ok [OF b] unfolding fuel by auto
  have sz: "\<not> CastTo (Unsigned 32) (int (length (udp_wire m))) > uint (uc_maxMessageSize env)"
  proof -
    have "int (length (udp_wire m)) \<le> uint (uc_maxMessageSize env)"
      using assms(3) by (simp add: plain_request_def) (metis of_nat_le_iff uint_nat)
    moreover have "CastTo (Unsigned 32) (int k) \<le> int k" for k
      by (simp add: CastTo_def zmod_le_nonneg_dividend)
    ultimately show ?thesis by (meson not_less order_trans)
  qed
  define r where "r = PM_SetSequence (uc_sequence c + 1) (PM_SetControlMessage cm r0)"
  have r: "msg r = m" "sequence r = uc_sequence c + 1" "controlMessage r = cm" "body_data r = Payload m"
    using u by (simp_all add: r_def PM_SetSequence_def PM_SetControlMessage_def body_data_def)
  have q: "\<not> isQMulticastRequest r cm" using assms(3) r(1) by (simp add: isQMulticastRequest_def plain_request_def)
  let ?c1 = "c\<lparr>uc_sequence := uc_sequence c + 1\<rparr>"
  have cr: "processUnknownCriticalOptions env r ?c1 = Some (?c1, False, None)"
    using assms(3) r(1) by (simp add: processUnknownCriticalOptions_def plain_request_def)
  have "\<not> Message_IsPing (msg r) False"
    using assms(3) r(1) by (auto simp: Message_IsPing_def plain_request_def)
  moreover have "\<not> PM_IsSeparateMessage r"
    using assms(3) r(1) by (auto simp: PM_IsSeparateMessage_def plain_request_def)
  ultimately have sp: "handleSpecialMessages env now r x = Some (acknowledged_by r x, False)" for x
    by (simp add: handleSpecialMessages_def acknowledged_by_def Map_LoadAndDelete_def delete_absent split: option.split)
  have ty: "Type (msg r) = Confirmable \<or> Type (msg r) = NonConfirmable" using assms(3) r(1) by (simp add: plain_request_def)
  show ?thesis
    unfolding Process_def if_not_P [OF sz] u(1) option.case sum.case Let_def r_def [symmetric] if_not_P [OF q] cr prod.case bool.case
      assms(2) sp if_P [OF ty] r(2) r(1)
    by (rule exI [of _ r]) (use ty r in auto)
qed

lemma Process_returns:
  assumes "serving env" "uc_monitor env = (\<lambda>_. Inr False)" "plain_request env m"
  shows "\<exists>c'. Process env now cm (udp_wire m) c = Some (c', ProcessOk)"
proof -
  obtain r where r: "Process env now cm (udp_wire m) c =
        (case addPendingMessage (MessageID m) (uc_sequence c + 1) now
                (acknowledged_by r (uc_emit Activity (checkMyMessageID r (c\<lparr>uc_sequence := uc_sequence c + 1\<rparr>)))) of
           (c5, Inl err) \<Rightarrow> Some (uc_emit (ErrorOf err) c5, ProcessOk)
         | (c5, Inr True) \<Rightarrow> Some (c5, ProcessOk)
         | (c5, Inr False) \<Rightarrow> Some (enqueue env now r c5, ProcessOk))"
    using Process_request [OF assms, of c cm now] by (elim exE conjE) (rule that)
  show ?thesis unfolding r by (auto split: prod.split sum.split bool.split)
qed

subsection \<open>Message IDs\<close>

text \<open>How far the peer's message ID is ahead of the own counter, on 16 bits.\<close>

definition id_distance :: "int \<Rightarrow> u32 \<Rightarrow> u16" where
  "id_distance mid own = (word_of_int (CastTo (Unsigned 16) mid) :: u16) - word_of_int (CastTo (Unsigned 16) (uint own))"

definition own_id :: "u32 \<Rightarrow> u16" where
  "own_id own = word_of_int (uint own mod 2 ^ 16)"

lemma own_id_ucast: "own_id own = ucast own"
  unfolding own_id_def by transfer (simp add: take_bit_eq_mod mod_mod_cancel)

lemma own_id_of_nat: "own_id (of_nat k) = of_nat k"
  unfolding own_id_ucast by (simp add: unsigned_of_nat word_of_nat_eq_iff)

lemma own_id_add: "own_id (own + of_nat n) = own_id own + of_nat n"
proof -
  have "own = of_nat (unat own)" by simp
  then show ?thesis by (metis of_nat_add own_id_of_nat)
qed

lemma checkMyMessageID_distance:
  assumes "Type (msg r) = Confirmable"
  shows "16383 \<le> unat (id_distance (MessageID (msg r)) (msgID (checkMyMessageID r c)))"
proof (cases "id_distance (MessageID (msg r)) (msgID c) \<ge> 0xffff div 4")
  case True
  then show ?thesis
    using assms by (simp add: checkMyMessageID_def id_distance_def word_le_nat_alt)
next
  case False
  let ?d = "id_distance (MessageID (msg r)) (msgID c)"
  have w: "(word_of_int (uint (msgID c + 0xffff div 2) mod 2 ^ 16) :: u16) = word_of_int (uint (msgID c) mod 2 ^ 16) + 32767"
    using own_id_add [of "msgID c" 32767] by (simp add: own_id_def)
  have "id_distance (MessageID (msg r)) (msgID (checkMyMessageID r c)) = ?d - 32767"
    using False assms w by (simp add: checkMyMessageID_def id_distance_def CastTo_def)
  moreover have "unat ?d < 16383" using False by (simp add: word_le_nat_alt not_le)
  ultimately show ?thesis by (simp add: unat_sub_if_size word_size)
qed

lemma first_id: "fst (GetMessageID c) = uint (msgID c + 1) mod 2 ^ 16"
  by (simp add: GetMessageID_def Let_def CastTo_def)

lemma next_ids:
  "msgID (((\<lambda>c. snd (GetMessageID c)) ^^ k) c) = msgID c + of_nat k"
  by (induction k) (simp_all add: GetMessageID_def Let_def algebra_simps)

text \<open>
  C17. After a confirmable message of the peer has been seen, none of the next 16382 message IDs the connection
  gives out is the message ID of that message, whatever the counter was.
\<close>

theorem own_message_ids_apart:
  assumes "Type (msg r) = Confirmable" "ValidateMID (MessageID (msg r))" "k < 16382"
  shows "fst (GetMessageID (((\<lambda>c. snd (GetMessageID c)) ^^ k) (checkMyMessageID r c))) \<noteq> MessageID (msg r)"
proof
  let ?o = "msgID (checkMyMessageID r c)" and ?p = "MessageID (msg r)"
  assume "fst (GetMessageID (((\<lambda>c. snd (GetMessageID c)) ^^ k) (checkMyMessageID r c))) = ?p"
  then have p: "?p = uint (?o + of_nat (Suc k)) mod 2 ^ 16"
    unfolding first_id next_ids by (simp add: algebra_simps)
  have "(word_of_int (CastTo (Unsigned 16) ?p) :: u16) = own_id (?o + of_nat (Suc k))"
    unfolding p own_id_def CastTo_def by simp
  then have "id_distance ?p ?o = of_nat (Suc k)"
    unfolding own_id_add by (simp add: id_distance_def own_id_def CastTo_def)
  then have "unat (id_distance ?p ?o) = Suc k"
    using assms(3) by (simp only: unat_of_nat) (simp add: take_bit_nat_eq_self)
  then show False using checkMyMessageID_distance [OF assms(1), of c] assms(3) by simp
qed

theorem own_message_ids_apart_witness:
  "fst (GetMessageID (checkMyMessageID (get Confirmable 101) plain_conn)) \<noteq> 101 \<and> fst (GetMessageID plain_conn) = 101"
  using own_message_ids_apart [of "get Confirmable 101" 0 plain_conn]
  by (simp add: get_def ValidateMID_def plain_conn_def GetMessageID_def CastTo_def Let_def)

subsection \<open>Acknowledgements\<close>

text \<open>
  C24. While a message waits for its acknowledgement, a request of the peer that has the same message ID, by chance as
  the peers choose their message IDs independently, counts as the acknowledgement: the writer is told that the
  message has arrived, and it is not retransmitted any more.
\<close>

theorem request_taken_for_acknowledgement:
  assumes "serving env" "uc_monitor env = (\<lambda>_. Inr False)" "plain_request env m"
    and "map_of (midHandlerContainer c) (MessageID m) = Some e" "mid_handler e = HandlerAcknowledge ch n" "ackChannels c ch = None"
  shows "\<exists>c'. Process env now cm (udp_wire m) c = Some (c', ProcessOk) \<and> ackChannels c' ch = Some None
    \<and> map_of (midHandlerContainer c') (MessageID m) = None"
proof -
  obtain r where r: "msg r = m" "Process env now cm (udp_wire m) c =
        (case addPendingMessage (MessageID m) (uc_sequence c + 1) now
                (acknowledged_by r (uc_emit Activity (checkMyMessageID r (c\<lparr>uc_sequence := uc_sequence c + 1\<rparr>)))) of
           (c5, Inl err) \<Rightarrow> Some (uc_emit (ErrorOf err) c5, ProcessOk)
         | (c5, Inr True) \<Rightarrow> Some (c5, ProcessOk)
         | (c5, Inr False) \<Rightarrow> Some (enqueue env now r c5, ProcessOk))"
    using Process_request [OF assms(1-3), of c cm now] by (elim exE conjE) (rule that)
  let ?c3 = "uc_emit Activity (checkMyMessageID r (c\<lparr>uc_sequence := uc_sequence c + 1\<rparr>))"
  have f: "midHandlerContainer ?c3 = midHandlerContainer c" "ackChannels ?c3 = ackChannels c"
    by (simp_all add: uc_emit_def checkMyMessageID_def Let_def)
  have nr: "Type m \<noteq> Reset" using assms(3) by (auto simp: plain_request_def)
  have a: "acknowledged_by r ?c3 = ?c3\<lparr>midHandlerContainer := AList.delete (MessageID m) (midHandlerContainer c), ackChannels := (ackChannels c)(ch := Some None)\<rparr>"
    unfolding acknowledged_by_def f r(1) using assms(4-6) nr f(2) by (simp add: run_mid_handler_def notifyWaitForAcknowledge_def r(1))
  obtain c5 res where p: "addPendingMessage (MessageID m) (uc_sequence c + 1) now (acknowledged_by r ?c3) = (c5, res)" by fastforce
  have c5: "midHandlerContainer c5 = midHandlerContainer (acknowledged_by r ?c3)" "ackChannels c5 = ackChannels (acknowledged_by r ?c3)"
    using p by (auto simp: addPendingMessage_def addPending_insert_def expirePendingMessages_def Let_def split: if_splits option.splits)
  have e: "midHandlerContainer (uc_emit ev x) = midHandlerContainer x" "ackChannels (uc_emit ev x) = ackChannels x"
      "midHandlerContainer (enqueue env now r x) = midHandlerContainer x" "ackChannels (enqueue env now r x) = ackChannels x" for ev x
    by (simp_all add: uc_emit_def enqueue_def deletePendingMessage_def split: option.split)
  show ?thesis
    unfolding r(2) p prod.case using c5 a e by (auto simp: delete_conv' split: sum.split bool.split)
qed

lemma get_plain: "typ \<in> {0, 1} \<Longrightarrow> 0 \<le> mid \<Longrightarrow> mid \<le> 65535 \<Longrightarrow> plain_request plain_env (msg (get typ mid))"
  by (auto simp: plain_request_def get_def plain_env_def udp_carries_def ValidateMID_def MaxTokenSize_def wire_ok_def opts_sorted_def
      GetUnknownCriticalOptionsWithQBlock_def HasOption_vals vals_def udp_wire_def PutUint16_def payload_wire_def)

lemma plain_monitor: "uc_monitor plain_env = (\<lambda>_. Inr False)"
  by (simp add: plain_env_def)

theorem request_taken_for_acknowledgement_witness:
  "let c = plain_conn\<lparr>midHandlerContainer := [(7, newMidElement plain_env 0 (HandlerAcknowledge 5 False) None (Some 5) (get Confirmable 7) plain_conn)]\<rparr>
   in \<exists>c'. Process plain_env 1 None (udp_wire (msg (get NonConfirmable 7))) c = Some (c', ProcessOk) \<and> ackChannels c' 5 = Some None"
proof -
  let ?e = "newMidElement plain_env 0 (HandlerAcknowledge 5 False) None (Some 5) (get Confirmable 7) plain_conn"
  let ?c = "plain_conn\<lparr>midHandlerContainer := [(7, ?e)]\<rparr>" and ?m = "msg (get NonConfirmable 7)"
  have m: "plain_request plain_env ?m" by (simp add: get_plain)
  have e: "map_of (midHandlerContainer ?c) (MessageID ?m) = Some ?e" "mid_handler ?e = HandlerAcknowledge 5 False" "ackChannels ?c 5 = None"
    by (simp_all add: get_def newMidElement_def plain_conn_def)
  show ?thesis
    unfolding Let_def using request_taken_for_acknowledgement [OF plain_serving plain_monitor m e, of 1 None] by (elim exE conjE) (intro exI conjI)
qed

subsection \<open>Messages in progress\<close>

text \<open>The table of the messages that are tracked has at most as many entries as configured.\<close>

definition pending_ok :: "u32 \<Rightarrow> uconn \<Rightarrow> bool" where
  "pending_ok k c \<longleftrightarrow> maxPendingMessages c = k \<and> smap_ok (pendingMessages c) \<and> length (pendingMessages c) \<le> unat k"

lemma pending_ok_expire: "pending_ok k c \<Longrightarrow> pending_ok k (expirePendingMessages now c)"
  unfolding pending_ok_def expirePendingMessages_def
  by (auto simp: smap_ok_def intro: distinct_map_filter order_trans [OF length_filter_le])

lemma pending_ok_delete: "pending_ok k c \<Longrightarrow> pending_ok k (c\<lparr>pendingMessages := AList.delete mid (pendingMessages c)\<rparr>)"
  by (auto simp: pending_ok_def alist.invar_drop length_delete)

lemma pending_ok_insert:
  assumes "pending_ok k c" shows "pending_ok k (fst (addPending_insert mid sq now c))"
proof -
  let ?c1 = "if length (pendingMessages c) \<ge> unat (maxPendingMessages c) then expirePendingMessages now c else c"
  have c1: "pending_ok k ?c1" using assms pending_ok_expire by auto
  then show ?thesis
    by (auto simp: addPending_insert_def Let_def pending_ok_def alist.invar_put length_update)
qed

lemma pending_ok_add: "pending_ok k c \<Longrightarrow> pending_ok k (fst (addPendingMessage mid sq now c))"
  by (auto simp: addPendingMessage_def intro: pending_ok_insert pending_ok_delete split: option.split)

lemma pending_ok_done: "pending_ok k c \<Longrightarrow> pending_ok k (deletePendingMessage mid sq c)"
  by (auto simp: deletePendingMessage_def intro: pending_ok_delete split: option.split)

lemma pending_ok_caches: "pending_ok k c \<Longrightarrow> pending_ok k (expireCaches now c)"
  using pending_ok_expire [of k c now] by (simp add: expireCaches_def Let_def pending_ok_def)

interpretation in_flight: conn_invariant "pending_ok k" till for k till
  by unfold_locales
    (auto intro: pending_ok_add pending_ok_done pending_ok_caches,
     auto simp: pending_ok_def uc_emit_def closeConnection_def smap_ok_def addResponseToCache_def split: prod.split sum.split)

text \<open>The arrival of a request whose message ID is not known.\<close>

lemma arrival_frames:
  fixes c r s defines "c' \<equiv> uc_emit Activity (checkMyMessageID r (c\<lparr>uc_sequence := s\<rparr>))"
  shows "pendingMessages c' = pendingMessages c" "maxPendingMessages c' = maxPendingMessages c"
    "midHandlerContainer c' = midHandlerContainer c" "uc_closed c' = uc_closed c" "enqueued c' = enqueued c" "datagrams c' = datagrams c"
    "responseMsgCache c' = responseMsgCache c" "uc_table c' = uc_table c" "uc_obs c' = uc_obs c"
  by (simp_all add: c'_def uc_emit_def checkMyMessageID_def Let_def enqueued_def datagrams_def)

definition unknown_id :: "Message \<Rightarrow> uconn \<Rightarrow> bool" where
  "unknown_id m c \<longleftrightarrow> map_of (midHandlerContainer c) (MessageID m) = None \<and> map_of (pendingMessages c) (MessageID m) = None
     \<and> length (pendingMessages c) < unat (maxPendingMessages c)"

lemma Process_queues:
  assumes "serving env" "uc_monitor env = (\<lambda>_. Inr False)" "plain_request env m" "\<not> uc_closed c" "unknown_id m c"
  shows "\<exists>c1 r. Process env now cm (udp_wire m) c = Some (c1, ProcessOk) \<and> msg r = m \<and> sequence r = uc_sequence c + 1
    \<and> enqueued c1 = enqueued c @ [r] \<and> datagrams c1 = datagrams c
    \<and> pendingMessages c1 = AList.update (MessageID m) \<lparr>pm_sequence = uc_sequence c + 1, pm_expires = now + ExchangeLifetime\<rparr> (pendingMessages c)
    \<and> maxPendingMessages c1 = maxPendingMessages c \<and> midHandlerContainer c1 = midHandlerContainer c \<and> \<not> uc_closed c1
    \<and> responseMsgCache c1 = responseMsgCache c \<and> uc_table c1 = uc_table c \<and> uc_obs c1 = uc_obs c"
proof -
  let ?mid = "MessageID m"
  note U = assms(5) [unfolded unknown_id_def]
  have nz: "maxPendingMessages c \<noteq> 0" using U by auto
  obtain r where r: "msg r = m" "sequence r = uc_sequence c + 1" "Process env now cm (udp_wire m) c =
        (case addPendingMessage ?mid (uc_sequence c + 1) now
                (acknowledged_by r (uc_emit Activity (checkMyMessageID r (c\<lparr>uc_sequence := uc_sequence c + 1\<rparr>)))) of
           (c5, Inl err) \<Rightarrow> Some (uc_emit (ErrorOf err) c5, ProcessOk)
         | (c5, Inr True) \<Rightarrow> Some (c5, ProcessOk)
         | (c5, Inr False) \<Rightarrow> Some (enqueue env now r c5, ProcessOk))"
    using Process_request [OF assms(1-3), of c cm now] by (elim exE conjE) (rule that)
  define c3 where "c3 = uc_emit Activity (checkMyMessageID r (c\<lparr>uc_sequence := uc_sequence c + 1\<rparr>))"
  note f3 = arrival_frames [where r = r and c = c and s = "uc_sequence c + 1", folded c3_def]
  have a3: "acknowledged_by r c3 = c3" using U f3(3) by (simp add: acknowledged_by_def r(1))
  define c4 where "c4 = c3\<lparr>pendingMessages := AList.update ?mid \<lparr>pm_sequence = uc_sequence c + 1, pm_expires = now + ExchangeLifetime\<rparr> (pendingMessages c)\<rparr>"
  have p4: "addPendingMessage ?mid (uc_sequence c + 1) now c3 = (c4, Inr False)"
    using U nz f3(1,2) by (simp add: addPendingMessage_def addPending_insert_def c4_def)
  have "Process env now cm (udp_wire m) c = Some (uc_emit (Enqueued r) c4, ProcessOk)"
    unfolding r(3) c3_def [symmetric] a3 p4 using assms(4) f3(4) by (simp add: enqueue_def c4_def)
  then show ?thesis using r(1,2) assms(4) f3
    by (intro exI [of _ "uc_emit (Enqueued r) c4"] exI [of _ r]) (simp add: c4_def uc_emit_def enqueued_def datagrams_def)
qed

lemma acknowledged_by_frames:
  "pendingMessages (acknowledged_by r c) = pendingMessages c" "maxPendingMessages (acknowledged_by r c) = maxPendingMessages c"
  "enqueued (acknowledged_by r c) = enqueued c"
  by (simp_all add: acknowledged_by_def run_mid_handler_def notifyWaitForAcknowledge_def uc_emit_def enqueued_def
      split: option.split mid_handler.split)

lemma Process_refuses:
  assumes "serving env" "uc_monitor env = (\<lambda>_. Inr False)" "plain_request env m" "maxPendingMessages c \<noteq> 0"
    and "map_of (pendingMessages c) (MessageID m) = None" "length (pendingMessages c) = unat (maxPendingMessages c)"
    and "\<forall>e \<in> set (pendingMessages c). now < pm_expires (snd e)"
  shows "\<exists>c1. Process env now cm (udp_wire m) c = Some (uc_emit (ErrorOf (ErrOther ''in-flight message limit exceeded'')) c1, ProcessOk)
    \<and> enqueued c1 = enqueued c \<and> pendingMessages c1 = pendingMessages c"
proof -
  obtain r where r: "Process env now cm (udp_wire m) c =
        (case addPendingMessage (MessageID m) (uc_sequence c + 1) now
                (acknowledged_by r (uc_emit Activity (checkMyMessageID r (c\<lparr>uc_sequence := uc_sequence c + 1\<rparr>)))) of
           (c5, Inl err) \<Rightarrow> Some (uc_emit (ErrorOf err) c5, ProcessOk)
         | (c5, Inr True) \<Rightarrow> Some (c5, ProcessOk)
         | (c5, Inr False) \<Rightarrow> Some (enqueue env now r c5, ProcessOk))"
    using Process_request [OF assms(1-3), of c cm now] by (elim exE conjE) (rule that)
  define c4 where "c4 = acknowledged_by r (uc_emit Activity (checkMyMessageID r (c\<lparr>uc_sequence := uc_sequence c + 1\<rparr>)))"
  have f: "pendingMessages c4 = pendingMessages c" "maxPendingMessages c4 = maxPendingMessages c" "enqueued c4 = enqueued c"
    unfolding c4_def acknowledged_by_frames by (rule arrival_frames)+
  have "filter (\<lambda>(mid, pending). now < pm_expires pending) (pendingMessages c) = pendingMessages c"
    by (rule filter_True) (use assms(7) in \<open>auto simp: case_prod_beta\<close>)
  then have e: "expirePendingMessages now c4 = c4" unfolding expirePendingMessages_def f(1) by (simp add: f(1) [symmetric])
  have "addPendingMessage (MessageID m) (uc_sequence c + 1) now c4 = (c4, Inl (ErrOther ''in-flight message limit exceeded''))"
    using assms(4-6) f by (simp add: addPendingMessage_def addPending_insert_def e Let_def)
  then show ?thesis using f unfolding r c4_def [symmetric] by auto
qed

text \<open>
  C15. However many datagrams arrive and in whatever order messages are processed, the connection never tracks more
  than \<open>maxPendingMessages\<close> confirmable and non-confirmable messages, each message ID at most once (none at all
  with the limit 0, which switches the tracking off); and when that many are tracked and none of them has
  expired, a request with another message ID is not queued: it is dropped with an error.
\<close>

theorem tracked_messages_bounded:
  assumes "pending_ok (maxPendingMessages c) c" "uc_run env app is (c, a) = Some (c', a')"
  shows "length (pendingMessages c') \<le> unat (maxPendingMessages c) \<and> distinct (map fst (pendingMessages c'))
    \<and> (serving env \<and> uc_monitor env = (\<lambda>_. Inr False) \<and> plain_request env m \<and> maxPendingMessages c \<noteq> 0
       \<and> map_of (pendingMessages c') (MessageID m) = None \<and> length (pendingMessages c') = unat (maxPendingMessages c)
       \<and> (\<forall>e \<in> set (pendingMessages c'). now < pm_expires (snd e)) \<longrightarrow>
       (\<exists>c1. Process env now cm (udp_wire m) c' = Some (uc_emit (ErrorOf (ErrOther ''in-flight message limit exceeded'')) c1, ProcessOk)
          \<and> enqueued c1 = enqueued c' \<and> pendingMessages c1 = pendingMessages c'))"
proof -
  have "\<forall>i \<in> set is. input_time i \<le> Max (insert 0 (input_time ` set is))" by simp
  then have "pending_ok (maxPendingMessages c) c'" by (rule in_flight.P_run [OF assms(2,1)])
  then have "length (pendingMessages c') \<le> unat (maxPendingMessages c)" "distinct (map fst (pendingMessages c'))"
      "maxPendingMessages c' = maxPendingMessages c"
    by (simp_all add: pending_ok_def smap_ok_def)
  then show ?thesis using Process_refuses [of env m c' now cm] by simp
qed

text \<open>With room for one message, a second one is refused while the first is in progress.\<close>

theorem tracked_messages_bounded_witness:
  "let c = plain_conn\<lparr>maxPendingMessages := 1\<rparr> in
   \<exists>c1 c2. uc_run plain_env counting [Arrives 1 None (udp_wire (msg (get Confirmable 7)))] (c, 0) = Some (c1, 0)
     \<and> length (pendingMessages c1) = 1
     \<and> Process plain_env 2 None (udp_wire (msg (get Confirmable 8))) c1
         = Some (uc_emit (ErrorOf (ErrOther ''in-flight message limit exceeded'')) c2, ProcessOk)
     \<and> enqueued c2 = enqueued c1"
proof -
  let ?c = "plain_conn\<lparr>maxPendingMessages := 1\<rparr>" and ?m = "msg (get Confirmable 7)"
  have m: "plain_request plain_env ?m" "plain_request plain_env (msg (get Confirmable 8))" by (simp_all add: get_plain)
  have c: "\<not> uc_closed ?c" "unknown_id ?m ?c" "pending_ok (maxPendingMessages ?c) ?c" "maxPendingMessages ?c = 1"
    by (simp_all add: plain_conn_def unknown_id_def pending_ok_def smap_ok_def)
  obtain c1 where P: "Process plain_env 1 None (udp_wire ?m) ?c = Some (c1, ProcessOk)"
      and p1: "pendingMessages c1 = [(7, \<lparr>pm_sequence = 1, pm_expires = 1 + ExchangeLifetime\<rparr>)]"
    using Process_queues [OF plain_serving plain_monitor m(1) c(1,2), of 1 None]
    by (elim exE conjE) (rule that, assumption, simp add: plain_conn_def get_def)
  then have run: "uc_run plain_env counting [Arrives 1 None (udp_wire ?m)] (?c, 0) = Some (c1, 0)" by simp
  have "\<exists>c2. Process plain_env 2 None (udp_wire (msg (get Confirmable 8))) c1
      = Some (uc_emit (ErrorOf (ErrOther ''in-flight message limit exceeded'')) c2, ProcessOk) \<and> enqueued c2 = enqueued c1"
    using tracked_messages_bounded [OF c(3) run, of "msg (get Confirmable 8)" 2 None] m(2) plain_serving plain_monitor p1 c(4)
    by (auto simp: get_def ExchangeLifetime_def)
  then show ?thesis unfolding Let_def using run p1 by auto
qed

text \<open>
  C16. Copies of a request that arrive while it is in progress are dropped: the first is queued, and as long as it is
  not done and at most for \<open>ExchangeLifetime\<close>, another copy is neither queued nor answered.
\<close>

theorem copies_in_progress_dropped:
  assumes "serving env" "uc_monitor env = (\<lambda>_. Inr False)" "plain_request env m" "\<not> uc_closed c"
    and "map_of (midHandlerContainer c) (MessageID m) = None" "map_of (pendingMessages c) (MessageID m) = None"
    and "length (pendingMessages c) < unat (maxPendingMessages c)"
  shows "\<exists>c1 r. Process env now cm (udp_wire m) c = Some (c1, ProcessOk) \<and> enqueued c1 = enqueued c @ [r] \<and> msg r = m
    \<and> (\<forall>t cm2. t < now + ExchangeLifetime \<longrightarrow>
         (\<exists>c2. Process env t cm2 (udp_wire m) c1 = Some (c2, ProcessOk) \<and> enqueued c2 = enqueued c1
            \<and> datagrams c2 = datagrams c1 \<and> pendingMessages c2 = pendingMessages c1))"
proof -
  let ?mid = "MessageID m"
  have nz: "maxPendingMessages c \<noteq> 0" using assms(7) by auto
  have U: "unknown_id m c" using assms(5-7) by (simp add: unknown_id_def)
  obtain c1 r where P1: "Process env now cm (udp_wire m) c = Some (c1, ProcessOk)" and r: "msg r = m"
      and c1: "enqueued c1 = enqueued c @ [r]"
        "pendingMessages c1 = AList.update ?mid \<lparr>pm_sequence = uc_sequence c + 1, pm_expires = now + ExchangeLifetime\<rparr> (pendingMessages c)"
        "maxPendingMessages c1 = maxPendingMessages c" "midHandlerContainer c1 = midHandlerContainer c"
    using Process_queues [OF assms(1-4) U, of now cm] by (elim exE conjE) (rule that)
  have "\<exists>c2. Process env t cm2 (udp_wire m) c1 = Some (c2, ProcessOk) \<and> enqueued c2 = enqueued c1 \<and> datagrams c2 = datagrams c1
      \<and> pendingMessages c2 = pendingMessages c1" if t: "t < now + ExchangeLifetime" for t cm2
  proof -
    obtain r' where r': "msg r' = m" "Process env t cm2 (udp_wire m) c1 =
        (case addPendingMessage ?mid (uc_sequence c1 + 1) t
                (acknowledged_by r' (uc_emit Activity (checkMyMessageID r' (c1\<lparr>uc_sequence := uc_sequence c1 + 1\<rparr>)))) of
           (c5, Inl err) \<Rightarrow> Some (uc_emit (ErrorOf err) c5, ProcessOk)
         | (c5, Inr True) \<Rightarrow> Some (c5, ProcessOk)
         | (c5, Inr False) \<Rightarrow> Some (enqueue env t r' c5, ProcessOk))"
      using Process_request [OF assms(1-3), of c1 cm2 t] by (elim exE conjE) (rule that)
    define c6 where "c6 = uc_emit Activity (checkMyMessageID r' (c1\<lparr>uc_sequence := uc_sequence c1 + 1\<rparr>))"
    note f6 = arrival_frames [where r = r' and c = c1 and s = "uc_sequence c1 + 1", folded c6_def]
    have "acknowledged_by r' c6 = c6" using assms(5) f6(3) c1(4) by (simp add: acknowledged_by_def r'(1))
    moreover have "addPendingMessage ?mid (uc_sequence c1 + 1) t c6 = (c6, Inr True)"
      using nz f6(1,2) c1(2,3) t by (simp add: addPendingMessage_def update_conv')
    ultimately show ?thesis unfolding r'(2) c6_def [symmetric] using f6 by simp
  qed
  then show ?thesis using P1 c1(1) r by blast
qed

theorem copies_in_progress_dropped_witness:
  "\<exists>c1 c2 r. Process plain_env 0 None (udp_wire (msg (get Confirmable 7))) plain_conn = Some (c1, ProcessOk) \<and> enqueued c1 = [r]
     \<and> Process plain_env 5 None (udp_wire (msg (get Confirmable 7))) c1 = Some (c2, ProcessOk) \<and> enqueued c2 = [r]"
proof -
  let ?m = "msg (get Confirmable 7)"
  have m: "plain_request plain_env ?m" by (simp add: get_plain)
  have c: "\<not> uc_closed plain_conn" "map_of (midHandlerContainer plain_conn) (MessageID ?m) = None" "map_of (pendingMessages plain_conn) (MessageID ?m) = None"
      "length (pendingMessages plain_conn) < unat (maxPendingMessages plain_conn)" "enqueued plain_conn = []"
    by (simp_all add: plain_conn_def enqueued_def)
  obtain c1 r where f: "Process plain_env 0 None (udp_wire ?m) plain_conn = Some (c1, ProcessOk)" "enqueued c1 = enqueued plain_conn @ [r]"
      "\<forall>t cm2. t < 0 + ExchangeLifetime \<longrightarrow>
         (\<exists>c2. Process plain_env t cm2 (udp_wire ?m) c1 = Some (c2, ProcessOk) \<and> enqueued c2 = enqueued c1
            \<and> datagrams c2 = datagrams c1 \<and> pendingMessages c2 = pendingMessages c1)"
    using copies_in_progress_dropped [OF plain_serving plain_monitor m c(1-4), of 0 None] by (elim exE conjE) (rule that)
  have "\<exists>c2. Process plain_env 5 None (udp_wire ?m) c1 = Some (c2, ProcessOk) \<and> enqueued c2 = enqueued c1"
    using f(3) [rule_format, of 5 None] by (auto simp: ExchangeLifetime_def)
  then show ?thesis using f(1,2) c(5) by auto
qed

subsection \<open>Requests that are not answered\<close>

text \<open>A request of which the connection knows neither the message ID nor the token.\<close>

definition unseen :: "Message \<Rightarrow> uconn \<Rightarrow> bool" where
  "unseen m c \<longleftrightarrow> \<not> uc_closed c \<and> unknown_id m c \<and> map_of (responseMsgCache c) (FormatInt (MessageID m)) = None
     \<and> map_of (tokenHandlers (uc_table c)) (Token_Hash (Token m)) = None \<and> map_of (observations (uc_obs c)) (Token_Hash (Token m)) = None"

lemma processed_frames:
  fixes c cm defines "c' \<equiv> uc_emit Activity (setControlInformation cm c)"
  shows "pendingMessages c' = pendingMessages c" "maxPendingMessages c' = maxPendingMessages c"
    "midHandlerContainer c' = midHandlerContainer c" "uc_closed c' = uc_closed c" "enqueued c' = enqueued c" "datagrams c' = datagrams c"
    "responseMsgCache c' = responseMsgCache c" "uc_table c' = uc_table c" "uc_obs c' = uc_obs c"
  by (simp_all add: c'_def uc_emit_def setControlInformation_def enqueued_def datagrams_def split: option.split)

lemma silent_copy:
  assumes "serving env" "uc_monitor env = (\<lambda>_. Inr False)" "plain_request env m" "Type m = NonConfirmable"
    and "\<not> Options_HasOption (Options m) QBlock1" "\<And>r. msg r = m \<Longrightarrow> \<not> isModified (response (fst (app (blank_writer env r) r a)))"
    and "unseen m c"
  shows "\<exists>c1 r c2. Process env t cm (udp_wire m) c = Some (c1, ProcessOk) \<and> msg r = m
    \<and> ProcessReceivedMessage env t' app r (c1, a) = Some (c2, snd (app (blank_writer env r) r a))
    \<and> unseen m c2 \<and> enqueued c2 = enqueued c @ [r] \<and> datagrams c2 = datagrams c"
proof -
  let ?mid = "MessageID m" and ?e = "\<lparr>pm_sequence = uc_sequence c + 1, pm_expires = t + ExchangeLifetime\<rparr>"
  have U: "\<not> uc_closed c" "unknown_id m c" using assms(7) by (simp_all add: unseen_def)
  obtain c1 r where P: "Process env t cm (udp_wire m) c = Some (c1, ProcessOk)" and r: "msg r = m" "sequence r = uc_sequence c + 1"
      and c1: "enqueued c1 = enqueued c @ [r]" "datagrams c1 = datagrams c" "pendingMessages c1 = AList.update ?mid ?e (pendingMessages c)"
        "maxPendingMessages c1 = maxPendingMessages c" "midHandlerContainer c1 = midHandlerContainer c" "\<not> uc_closed c1"
        "responseMsgCache c1 = responseMsgCache c" "uc_table c1 = uc_table c" "uc_obs c1 = uc_obs c"
    using Process_queues [OF assms(1-3) U, of t cm] by (elim exE conjE) (rule that)
  define c3 where "c3 = uc_emit Activity (setControlInformation (controlMessage r) c1)"
  note f3 = processed_frames [where cm = "controlMessage r" and c = c1, folded c3_def]
  let ?c2 = "c3\<lparr>pendingMessages := pendingMessages c\<rparr>"
  have "Code m < 32" "codes_GET \<le> Code m" using assms(3) by (simp_all add: plain_request_def)
  then have code: "Code m < codes_Created" "Code m \<noteq> codes_Empty" by (auto intro: less_trans [of _ 32])
  have q: "q_free r" using assms(3,5) r(1) by (simp add: plain_request_def q_free_def)
  have "ProcessReceivedMessage env t' app r (c1, a) = Some (deletePendingMessage ?mid (sequence r) c3, snd (app (blank_writer env r) r a))"
    using silent_request [of env r c1 app a t'] assms(1,4,7) assms(6) [OF r(1)] code q c1(7-9) by (simp add: r(1) unseen_def c3_def)
  moreover have "AList.delete ?mid (AList.update ?mid ?e (pendingMessages c)) = pendingMessages c"
    using U(2) by (simp add: unknown_id_def delete_absent AList.delete_update_same)
  then have "deletePendingMessage ?mid (sequence r) c3 = ?c2"
    using f3(1) c1(3) r(2) by (simp add: deletePendingMessage_def update_conv')
  moreover have "unseen m ?c2" using assms(7) f3 c1 by (simp add: unseen_def unknown_id_def)
  moreover have "enqueued ?c2 = enqueued c @ [r]" "datagrams ?c2 = datagrams c"
    using f3(5,6) c1(1,2) by (simp_all add: enqueued_def datagrams_def)
  ultimately show ?thesis using P r(1) by (intro exI [of _ c1] exI [of _ r] exI [of _ ?c2]) simp
qed

text \<open>
  C25. A non-confirmable request the application does not answer is not remembered once it has been processed: of
  copies that arrive one after another, each when the one before it has been processed, every one is queued
  and the application is called for every one, however close they are, and nothing is sent.
\<close>

theorem silent_duplicates_handled_again:
  assumes "serving env" "uc_monitor env = (\<lambda>_. Inr False)" "plain_request env m" "Type m = NonConfirmable"
    and "\<not> Options_HasOption (Options m) QBlock1" "\<forall>r a. msg r = m \<longrightarrow> \<not> isModified (response (fst (app (blank_writer env r) r a)))"
    and "unseen m c"
  shows "\<exists>rs c'. length rs = length ts \<and> (\<forall>r \<in> set rs. msg r = m)
    \<and> uc_run env app (concat (map (\<lambda>((t, t'), r). [Arrives t cm (udp_wire m), Processed t' r]) (zip ts rs))) (c, a)
        = Some (c', fold (\<lambda>r a. snd (app (blank_writer env r) r a)) rs a)
    \<and> enqueued c' = enqueued c @ rs \<and> datagrams c' = datagrams c"
  using assms(7)
proof (induction ts arbitrary: c a)
  case Nil
  show ?case by (rule exI [of _ "[]"]) simp
next
  case (Cons x ts)
  obtain t t' where x: "x = (t, t')" by (cases x)
  obtain c1 r c2 where s: "Process env t cm (udp_wire m) c = Some (c1, ProcessOk)" "msg r = m"
      "ProcessReceivedMessage env t' app r (c1, a) = Some (c2, snd (app (blank_writer env r) r a))" "unseen m c2"
      "enqueued c2 = enqueued c @ [r]" "datagrams c2 = datagrams c"
    using silent_copy [OF assms(1-5) _ Cons.prems, of app a t cm t'] assms(6) by (elim exE conjE meta_impE) (auto intro: that)
  obtain rs c' where i: "length rs = length ts" "\<forall>r \<in> set rs. msg r = m"
      "uc_run env app (concat (map (\<lambda>((t, t'), r). [Arrives t cm (udp_wire m), Processed t' r]) (zip ts rs))) (c2, snd (app (blank_writer env r) r a))
        = Some (c', fold (\<lambda>r a. snd (app (blank_writer env r) r a)) rs (snd (app (blank_writer env r) r a)))"
      "enqueued c' = enqueued c2 @ rs" "datagrams c' = datagrams c2"
    using Cons.IH [OF s(4), of "snd (app (blank_writer env r) r a)"] by (elim exE conjE) (rule that)
  show ?case by (rule exI [of _ "r # rs"], rule exI [of _ c']) (use s i in \<open>simp add: x\<close>)
qed

theorem silent_duplicates_handled_again_witness:
  "\<exists>rs c'. length rs = 2 \<and> uc_run plain_env (\<lambda>w r n. (w, Suc n))
       (concat (map (\<lambda>((t, t'), r). [Arrives t None (udp_wire (msg (get NonConfirmable 7))), Processed t' r]) (zip [(0, 1), (2, 3)] rs))) (plain_conn, 0)
       = Some (c', 2) \<and> enqueued c' = rs \<and> datagrams c' = []"
proof -
  let ?m = "msg (get NonConfirmable 7)" and ?app = "\<lambda>(w :: uw) (r :: umsg) n. (w, Suc n)"
  have m: "plain_request plain_env ?m" "Type ?m = NonConfirmable" "\<not> Options_HasOption (Options ?m) QBlock1"
    by (simp add: get_plain, simp_all add: get_def HasOption_vals opts_sorted_def vals_def)
  have un: "\<forall>r a. msg r = ?m \<longrightarrow> \<not> isModified (response (fst (?app (blank_writer plain_env r) r a)))"
    by (simp add: blank_writer_def on_msg_def PM_SetModified_def)
  have c: "unseen ?m plain_conn" "enqueued plain_conn = []" "datagrams plain_conn = []"
    by (simp_all add: unseen_def unknown_id_def get_def plain_conn_def request_table_New_def NewHandler_def NewMap_def enqueued_def datagrams_def)
  have cnt: "fold (\<lambda>(r :: umsg) n. Suc n) rs k = k + length rs" for rs and k :: nat by (induction rs arbitrary: k) simp_all
  let ?in = "\<lambda>rs. concat (map (\<lambda>((t, t'), r). [Arrives t None (udp_wire ?m), Processed t' r]) (zip [(0, 1), (2, 3)] rs))"
  obtain rs c' where w: "length rs = length [(0 :: time, 1 :: time), (2, 3)]"
      "uc_run plain_env ?app (?in rs) (plain_conn, 0) = Some (c', fold (\<lambda>r a. snd (?app (blank_writer plain_env r) r a)) rs 0)"
      "enqueued c' = enqueued plain_conn @ rs" "datagrams c' = datagrams plain_conn"
    using silent_duplicates_handled_again [OF plain_serving plain_monitor m, of ?app, OF un c(1), of "[(0, 1), (2, 3)]" None 0]
    by (elim exE conjE) (rule that)
  then show ?thesis using c(2,3) by (intro exI [of _ rs] exI [of _ c']) (simp add: cnt del: uc_run.simps)
qed

end
