(* ===== verification/Spec2Isabelle.thy ===== *)
theory Spec2Isabelle
  imports Message_Pool Tcp_Session Qblock_Process Block_Send Mutex_Map Limit_Requests Observation Request_Handlers Udp_Receive
begin

text \<open>
  A verification development for go-coap, an implementation of CoAP (RFC 7252) over UDP, DTLS, TCP and TLS with
  observation (RFC 7641), block-wise transfer (RFC 7959) and Q-Block (RFC 9177).

  \<^bold>\<open>The program.\<close>  A message (\<^verbatim>\<open>message\<close>) has a code, a token, options, a payload and, over datagrams, a type and a
  message ID.  The coders (\<^verbatim>\<open>udp/coder\<close>, \<^verbatim>\<open>tcp/coder\<close>) turn messages into bytes and back.  Messages live in a pool
  (\<^verbatim>\<open>message/pool\<close>).  A connection (\<^verbatim>\<open>udp/client\<close>, \<^verbatim>\<open>tcp/client\<close>) reads bytes or datagrams, matches responses to requests
  (\<^verbatim>\<open>net/client\<close>), notifications to observations (\<^verbatim>\<open>net/observation\<close>), hands requests to the application with a response
  writer (\<^verbatim>\<open>net/responsewriter\<close>), and, over datagrams, retransmits and detects duplicates.  Large bodies go through the
  block-wise engine (\<^verbatim>\<open>net/blockwise\<close>) in between.  Helpers are a concurrent map (\<^verbatim>\<open>pkg/sync\<close>), an expiring cache
  (\<^verbatim>\<open>pkg/cache\<close>) and integer casts (\<^verbatim>\<open>pkg/math\<close>).

  \<^bold>\<open>How the code is rendered.\<close>  Bytes are \<^typ>\<open>8 word\<close>, machine integers are words where they can wrap, and the casts
  of \<^verbatim>\<open>pkg/math\<close> are explicit; \<^verbatim>\<open>int\<close> and \<^verbatim>\<open>int64\<close> are \<^typ>\<open>int\<close> where the code keeps them in range.  A struct is a record, an
  operation a function from the state to the new state and the results.  An error is a value of \<open>go_error\<close> (texts of
  errors are not kept, except where the code compares them), a result \<open>go_error + 'a\<close>, a panic \<open>None\<close> or \<open>Panic\<close>.
  Slices that share an array are lists with their capacity as an argument where a claim depends on it.  Pointers that
  the code compares are numbers.  The clock is an argument.  Where goroutines interleave, the code is a step relation
  over the places the goroutines have reached; where a function waits, it is split at the wait.  Code outside the
  repository is a parameter: sockets, the temporary files of the block-wise engine, contexts, random numbers.

  \<^bold>\<open>Theories.\<close>
  \<^item> \<open>Coap_Prelude\<close>, \<open>Go_Math\<close>, \<open>Go_Reader\<close>, \<open>Go_Hash\<close>, \<open>Goroutines\<close>: types, errors, slices, casts (\<^verbatim>\<open>pkg/math/cast.go\<close>),
    readers, checksums, and the locale \<open>transition_system\<close> for invariants of step relations.
  \<^item> \<open>Message_Codes\<close>, \<open>Option_Defs\<close>, \<open>Option_Wire\<close>, \<open>Options_Store\<close>, \<open>Options_Access\<close>, \<open>Options_Wire\<close>, \<open>Message_Base\<close>:
    \<^verbatim>\<open>message\<close>.  The sorted slice of options refines a multimap (locale \<open>option_store\<close>), paths and options on the wire
    are read back as written.
  \<^item> \<open>Coder_Spec\<close> (locale \<open>message_coder\<close>), \<open>Udp_Coder\<close>, \<open>Tcp_Coder\<close>: round trips of the coders and what they accept.
  \<^item> \<open>Pool_Message\<close>, \<open>Message_Pool\<close>: \<^verbatim>\<open>message/pool\<close>.  Marshalling and unmarshalling over any coder, the setters of
    options with their shared buffer, the pool under interleaving.
  \<^item> \<open>Sync_Map\<close> (locale \<open>bounded_map\<close>), \<open>Go_Cache\<close>: \<^verbatim>\<open>pkg/sync\<close>, \<^verbatim>\<open>pkg/cache\<close>.
  \<^item> \<open>Critical_Options\<close>, \<open>Tcp_Session\<close> (locale \<open>stream_consumer\<close>): how the bytes of a TCP stream become messages,
    the signals of RFC 8323, unknown critical options.
  \<^item> \<open>Block_Option\<close>, \<open>Blockwise\<close>, \<open>Block1_Receive\<close>, \<open>Block_Send\<close>: \<^verbatim>\<open>net/blockwise\<close>.  The receiving engine refines an
    abstract receiver of blocks; an upload between two engines arrives whole.
  \<^item> \<open>Qblock_Codec\<close>, \<open>Qblock_Transfer\<close>, \<open>Qblock_Assembly\<close>: options, reports, configuration and bodies of
    \<^verbatim>\<open>net/blockwise/qblock\<close>.  A body sent in blocks in any order arrives, and its gaps are known exactly.
  \<^item> \<open>Go_Sha256\<close>, \<open>Qblock_Engine\<close>, \<open>Qblock_Send\<close>, \<open>Qblock_Receive\<close>, \<open>Qblock_Client\<close>: the Q-Block engine.  Its state and
    limits (\<^verbatim>\<open>engine.go\<close>, \<^verbatim>\<open>budget.go\<close>), responses and notifications in sets (\<^verbatim>\<open>send.go\<close>, \<^verbatim>\<open>schedule.go\<close>, \<^verbatim>\<open>observe.go\<close>),
    request bodies (\<^verbatim>\<open>receive.go\<close>, \<^verbatim>\<open>handle.go\<close>) and the two clients (\<^verbatim>\<open>client.go\<close>, \<^verbatim>\<open>client_receive.go\<close>).  The checksum
    behind an ETag is SHA-256 of the standard library.  \<open>Qblock_Budget\<close>: every operation of an engine keeps its
    accounts.  \<open>Qblock_Process\<close>: the connections of a process, whose operations interleave, never retain more than
    the limits, and what is charged is what is held.  There an operation is one step; the locks inside a handler
    are not points of interleaving.  Of the exchange with a peer, only the accounts are shown for the engine and the
    receiving client; that a body crosses is shown for the assembly and the sender of blocks alone.
  \<^item> \<open>Mutex_Map\<close>, \<open>Limit_Requests\<close>: the lock per message ID and the limits on parallel requests, as step relations.
  \<^item> \<open>Response_Writer\<close>, \<open>Request_Handlers\<close>, \<open>Observation\<close>: responses and No-Response, the correlation of responses with
    requests, observations and the order of notifications.
  \<^item> \<open>Udp_Conn\<close>: the datagram connection of \<^verbatim>\<open>udp/client/conn.go\<close>.  \<open>Udp_Exchange\<close>: retransmission.  \<open>Udp_Run\<close> (locale
    \<open>conn_invariant\<close>): runs of a connection, in which datagrams arrive, messages are processed and time passes.
    \<open>Udp_Dedup\<close>: copies of a request.  \<open>Udp_Receive\<close>: tracked messages, message IDs, acknowledgements.

  \<^bold>\<open>Bounds and fuel.\<close>  Unmarshalling retries with a larger slice of options; its fuel is the number of attempts, and
  the theorems ask for a capacity and fuel that together exceed the number of options, which always exists.  The
  loops over blocks of an upload take the number of blocks as fuel and are shown to end with exactly that many.
  \<open>handleQBlock2\<close> calls itself once, with the block size lowered to the limit; it gets fuel for two calls, and more changes
  nothing (\<open>handleQBlock2_fuel\<close>).
  Every other recursion terminates by its definition.

  \<^bold>\<open>Not modelled.\<close>  Sockets, listeners, DTLS and TLS (operating system and libraries); the accept loops of the
  servers, dialling, and the options of clients and servers (configuration and goroutines around the modelled
  connections); the router (regular expressions of the standard library); the routes, the schedule and the rate
  control of Q-Block on a connection (\<^verbatim>\<open>udp/client/qblock.go\<close>): the Q-Block engine is modelled over a transport
  and an exchange that are parameters, and the datagram connection with Q-Block disabled and without block-wise
  transfer, whose engine is modelled on its own; request builders, inactivity monitors and the reader of received messages.
  Texts of errors and of logs, the releases of messages to the pool outside \<open>Message_Pool\<close>.
\<close>

end
